(* ===== verification/Prelude.thy ===== *)
theory Prelude
  imports Main "HOL-Library.AList" "HOL-Library.Word"
begin

text \<open>
  Shared vocabulary of the development: byte strings, hash maps as association lists with
  distinct keys, decimal rendering of integers, and the generic lemmas on them that the
  component theories use.

  A Rust \<^verbatim>\<open>str\<close> is modelled by its UTF-8 bytes, an Isabelle \<^typ>\<open>string\<close> (list of 8-bit
  characters), so \<^verbatim>\<open>len()\<close> is \<^const>\<open>length\<close>. The code's character loops only treat ASCII
  characters specially and copy every other character, and every byte of a multi-byte
  character is at least 0x80, so the loops act on bytes exactly as on characters.

  A \<^verbatim>\<open>HashMap\<close> is an association list with distinct keys; the list order stands for the
  iteration order of the map, so a theorem about every association list is a theorem about
  every iteration order.
\<close>

named_theorems hashmap_simps

type_synonym ('k, 'v) hashmap = "('k \<times> 'v) list"

abbreviation keys :: "('k, 'v) hashmap \<Rightarrow> 'k list" where
  "keys m \<equiv> map fst m"

abbreviation hm_wf :: "('k, 'v) hashmap \<Rightarrow> bool" where
  "hm_wf m \<equiv> distinct (keys m)"

text \<open>The machine integers of the program.\<close>

type_synonym u8 = "8 word"
type_synonym u16 = nat
type_synonym u64 = "64 word"

subsection \<open>Hash maps\<close>

lemma map_of_update [hashmap_simps, simp]:
  "map_of (AList.update k v m) = (map_of m)(k \<mapsto> v)"
  by (rule AList.update_conv')

lemma map_of_delete [hashmap_simps, simp]:
  "map_of (AList.delete k m) = (map_of m)(k := None)"
  by (rule AList.delete_conv')

lemma hm_wf_update [hashmap_simps, simp]: "hm_wf m \<Longrightarrow> hm_wf (AList.update k v m)"
  by (rule AList.distinct_update)

lemma hm_wf_delete [hashmap_simps, simp]: "hm_wf m \<Longrightarrow> hm_wf (AList.delete k m)"
  by (rule AList.distinct_delete)

lemma keys_update_set [hashmap_simps]: "set (keys (AList.update k v m)) = insert k (set (keys m))"
  by (induction m) auto

lemma keys_delete_set [hashmap_simps]: "set (keys (AList.delete k m)) = set (keys m) - {k}"
  by (auto simp: AList.delete_eq)

lemma map_of_None_keys: "map_of m k = None \<longleftrightarrow> k \<notin> set (keys m)"
  by (simp add: map_of_eq_None_iff)

lemma map_of_Some_keys: "(\<exists>v. map_of m k = Some v) \<longleftrightarrow> k \<in> set (keys m)"
  by (metis map_of_None_keys option.exhaust option.distinct(1))

lemma map_of_filter_wf:
  "hm_wf m \<Longrightarrow> map_of (filter P m) k =
     (case map_of m k of None \<Rightarrow> None | Some v \<Rightarrow> if P (k, v) then Some v else None)"
  by (induction m) (auto split: option.splits simp: map_of_eq_None_iff rev_image_eqI)

lemma hm_wf_filter [simp]: "hm_wf m \<Longrightarrow> hm_wf (filter P m)"
  by (induction m) (auto simp: image_iff)

subsection \<open>Splitting strings at a separator\<close>

lemma sep_append_inj:
  assumes "a @ s # b = a' @ s # b'" and "s \<notin> set a" and "s \<notin> set a'"
  shows "a = a' \<and> b = b'"
  using assms
proof (induction a arbitrary: a')
  case Nil
  then show ?case by (cases a') auto
next
  case (Cons x a)
  then show ?case by (cases a') auto
qed

lemma sep_append_notin:
  "a @ s # b = c \<Longrightarrow> s \<in> set c"
  by auto

subsection \<open>Decimal rendering\<close>

text \<open>Rust's \<^verbatim>\<open>Display\<close> of an unsigned integer.\<close>

definition digit_char :: "nat \<Rightarrow> char" where
  "digit_char d = char_of (48 + d)"

fun show_nat :: "nat \<Rightarrow> string" where
  "show_nat n = (if n < 10 then [digit_char n] else show_nat (n div 10) @ [digit_char (n mod 10)])"

declare show_nat.simps [simp del]

definition show_u64 :: "u64 \<Rightarrow> string" where
  "show_u64 w = show_nat (unat w)"

definition is_digit :: "char \<Rightarrow> bool" where
  "is_digit c \<longleftrightarrow> 48 \<le> (of_char c :: nat) \<and> (of_char c :: nat) \<le> 57"

lemma of_char_digit: "d < 10 \<Longrightarrow> of_char (digit_char d) = (48 + d :: nat)"
  by (simp add: digit_char_def)

lemma is_digit_digit_char [simp]: "d < 10 \<Longrightarrow> is_digit (digit_char d)"
  by (simp add: is_digit_def of_char_digit)

lemma digit_char_inj: "d < 10 \<Longrightarrow> e < 10 \<Longrightarrow> digit_char d = digit_char e \<Longrightarrow> d = e"
  by (metis add_left_cancel of_char_digit)

lemma show_nat_nonempty [simp]: "show_nat n \<noteq> []" "[] \<noteq> show_nat n"
  by (subst show_nat.simps, simp)+

lemma show_nat_digits: "\<forall>c \<in> set (show_nat n). is_digit c"
proof (induction n rule: show_nat.induct)
  case (1 n)
  then show ?case by (subst show_nat.simps) auto
qed

lemma show_nat_inj: "show_nat m = show_nat n \<Longrightarrow> m = n"
proof (induction m arbitrary: n rule: show_nat.induct)
  case (1 m)
  show ?case
  proof (cases "m < 10")
    case True
    then have n: "n < 10"
      using "1.prems" show_nat.simps [of m] show_nat.simps [of n]
      by (cases "n < 10") (auto simp: append_eq_Cons_conv dest: sym)
    then show ?thesis
      using True "1.prems" show_nat.simps [of m] show_nat.simps [of n]
      by (auto intro: digit_char_inj)
  next
    case False
    then have n: "\<not> n < 10"
      using "1.prems" show_nat.simps [of m] show_nat.simps [of n]
      by (cases "n < 10") (auto simp: append_eq_Cons_conv)
    have "show_nat (m div 10) = show_nat (n div 10)" "digit_char (m mod 10) = digit_char (n mod 10)"
      using False n "1.prems" show_nat.simps [of m] show_nat.simps [of n] by auto
    then have "m div 10 = n div 10" "m mod 10 = n mod 10"
      using "1.IH" False by (auto intro: digit_char_inj)
    then show ?thesis by (metis div_mult_mod_eq)
  qed
qed

lemma show_nat_length: "n < 10 ^ k \<Longrightarrow> 0 < k \<Longrightarrow> length (show_nat n) \<le> k"
proof (induction k arbitrary: n)
  case 0
  then show ?case by simp
next
  case (Suc k)
  show ?case
  proof (cases "n < 10")
    case True
    then show ?thesis by (subst show_nat.simps) simp
  next
    case False
    with Suc.prems have "0 < k" by (cases k) auto
    moreover have "n div 10 < 10 ^ k" using Suc.prems by (simp add: less_mult_imp_div_less)
    ultimately have "length (show_nat (n div 10)) \<le> k" using Suc.IH by blast
    with False show ?thesis by (subst show_nat.simps) simp
  qed
qed

lemma unat_less_exp2p64: "unat (w :: u64) < 2 ^ 64"
  using unsigned_less [of w, where ?'a = nat] by simp

lemma show_u64_length: "length (show_u64 w) \<le> 20"
proof -
  have "unat w < 2 ^ 64" using unat_less_exp2p64 [of w] by simp
  then have "unat w < 10 ^ 20" by simp
  then show ?thesis unfolding show_u64_def by (rule show_nat_length) simp
qed

lemma show_u64_inj: "show_u64 v = show_u64 w \<Longrightarrow> v = w"
  unfolding show_u64_def by (drule show_nat_inj) (rule unsigned_word_eqI)

lemma show_u64_digits: "\<forall>c \<in> set (show_u64 w). is_digit c"
  unfolding show_u64_def by (rule show_nat_digits)

lemma word_less_inc: "(w :: 'a::len word) \<noteq> - 1 \<Longrightarrow> w < w + 1"
proof -
  assume "w \<noteq> - 1"
  then have "1 + w \<noteq> 0" by (metis add.commute eq_neg_iff_add_eq_0)
  then have "unat (1 + w) = Suc (unat w)" by (rule unatSuc)
  then show ?thesis by (simp add: word_less_nat_alt add.commute)
qed

subsection \<open>Joining\<close>

text \<open>\<^verbatim>\<open>[String]::join\<close>.\<close>

fun join :: "string \<Rightarrow> string list \<Rightarrow> string" where
  "join sep [] = []"
| "join sep [x] = x"
| "join sep (x # xs) = x @ sep @ join sep xs"

subsection \<open>Decimal reading\<close>

definition read_nat :: "string \<Rightarrow> nat" where
  "read_nat = foldl (\<lambda>n c. 10 * n + (of_char c - 48)) 0"

lemma read_show_nat [simp]: "read_nat (show_nat n) = n"
proof (induction n rule: show_nat.induct)
  case (1 n)
  show ?case
  proof (cases "n < 10")
    case True
    then show ?thesis by (subst show_nat.simps) (simp add: read_nat_def of_char_digit)
  next
    case False
    then have "read_nat (show_nat n) = 10 * read_nat (show_nat (n div 10)) + n mod 10"
      by (subst show_nat.simps) (simp add: read_nat_def of_char_digit)
    with 1 False show ?thesis by simp
  qed
qed

subsection \<open>JSON values\<close>

text \<open>
  A \<^verbatim>\<open>serde_json::Value\<close>; a number is the text it displays as. The list of an object's members is
  its iteration order. An object the program builds is a \<^verbatim>\<open>serde_json::Map\<close>, a map sorted by the
  bytes of its keys (\<^verbatim>\<open>jmap_insert\<close>); a key read into an \<^verbatim>\<open>IndexMap\<close> keeps its own order.
\<close>

datatype jvalue =
    JNull
  | JBool bool
  | JNumber string
  | JString string
  | JArray "jvalue list"
  | JObject "(string \<times> jvalue) list"

fun str_less :: "string \<Rightarrow> string \<Rightarrow> bool" where
  "str_less [] [] = False"
| "str_less [] (d # ds) = True"
| "str_less (c # cs) [] = False"
| "str_less (c # cs) (d # ds) =
     ((of_char c :: nat) < of_char d \<or> (c = d \<and> str_less cs ds))"

fun jmap_insert :: "string \<Rightarrow> 'v \<Rightarrow> (string \<times> 'v) list \<Rightarrow> (string \<times> 'v) list" where
  "jmap_insert k v [] = [(k, v)]"
| "jmap_insert k v ((k', v') # m) =
     (if k = k' then (k, v) # m
      else if str_less k k' then (k, v) # (k', v') # m
      else (k', v') # jmap_insert k v m)"

lemma str_less_irrefl [simp]: "\<not> str_less s s"
  by (induction s) auto

lemma str_less_trans: "str_less a b \<Longrightarrow> str_less b c \<Longrightarrow> str_less a c"
proof (induction a b arbitrary: c rule: str_less.induct)
  case (2 d ds)
  then show ?case by (cases c) auto
next
  case (4 a as b bs)
  then show ?case by (cases c) auto
qed auto

lemma str_less_total: "a \<noteq> b \<Longrightarrow> \<not> str_less a b \<Longrightarrow> str_less b a"
proof (induction a b rule: str_less.induct)
  case (4 a as b bs)
  then show ?case
    by (metis linorder_neqE_nat of_char_eq_iff str_less.simps(4))
qed auto

lemma map_of_jmap_insert [simp]: "map_of (jmap_insert k v m) = (map_of m)(k \<mapsto> v)"
  by (induction k v m rule: jmap_insert.induct) auto

abbreviation jmap_sorted :: "(string \<times> 'v) list \<Rightarrow> bool" where
  "jmap_sorted m \<equiv> sorted_wrt str_less (map fst m)"

lemma jmap_insert_keys: "set (map fst (jmap_insert k v m)) = insert k (set (map fst m))"
  by (induction k v m rule: jmap_insert.induct) auto

lemma jmap_insert_sorted: "jmap_sorted m \<Longrightarrow> jmap_sorted (jmap_insert k v m)"
proof (induction k v m rule: jmap_insert.induct)
  case (2 k v k' v' m)
  show ?case
  proof (cases "k = k' \<or> str_less k k'")
    case True
    with 2(2) show ?thesis by (auto intro: str_less_trans)
  next
    case False
    with 2 have "jmap_sorted (jmap_insert k v m)" by simp
    moreover have "\<forall>x \<in> set (map fst (jmap_insert k v m)). str_less k' x"
      using False 2(2) str_less_total [of k k'] unfolding jmap_insert_keys by auto
    ultimately show ?thesis using False by auto
  qed
qed simp

lemma jmap_insert_greatest:
  "\<forall>x \<in> set (map fst m). str_less x k \<Longrightarrow> jmap_insert k v m = m @ [(k, v)]"
  by (induction k v m rule: jmap_insert.induct) (auto dest: str_less_trans)

lemma jmap_sorted_distinct: "jmap_sorted m \<Longrightarrow> distinct (map fst m)"
  by (induction m) auto

text \<open>The object that inserting members one by one gives, \<^verbatim>\<open>json!({...})\<close>.\<close>

definition json_object :: "(string \<times> jvalue) list \<Rightarrow> jvalue" where
  "json_object kvs = JObject (fold (\<lambda>(k, v). jmap_insert k v) kvs [])"

lemma fold_jmap_sorted: "jmap_sorted m \<Longrightarrow> jmap_sorted (fold (\<lambda>(k, v). jmap_insert k v) kvs m)"
  by (induction kvs arbitrary: m) (auto intro: jmap_insert_sorted)

lemma map_of_fold_jmap: "map_of (fold (\<lambda>(k, v). jmap_insert k v) kvs m) = map_of m ++ map_of (rev kvs)"
proof (induction kvs arbitrary: m)
  case (Cons kv kvs)
  then show ?case by (cases kv) (simp add: map_add_def fun_eq_iff split: option.splits)
qed simp

text \<open>\<^verbatim>\<open>Value::get\<close>, \<^verbatim>\<open>as_str\<close>, \<^verbatim>\<open>as_u64\<close>, and an unsigned number as a value.\<close>

fun jget :: "jvalue \<Rightarrow> string \<Rightarrow> jvalue option" where
  "jget (JObject m) k = map_of m k"
| "jget _ k = None"

fun as_str :: "jvalue \<Rightarrow> string option" where
  "as_str (JString s) = Some s"
| "as_str _ = None"

fun as_u64 :: "jvalue \<Rightarrow> u64 option" where
  "as_u64 (JNumber s) =
     (if s \<noteq> [] \<and> list_all is_digit s \<and> int (read_nat s) < 2 ^ 64 then Some (of_nat (read_nat s)) else None)"
| "as_u64 _ = None"

definition jnum :: "nat \<Rightarrow> jvalue" where
  "jnum n = JNumber (show_nat n)"

lemma jget_json_object: "jget (json_object kvs) k = map_of (rev kvs) k"
  by (simp add: json_object_def map_of_fold_jmap)

lemma as_u64_jnum:
  assumes "n < 2 ^ 64"
  shows "as_u64 (jnum n) = Some (of_nat n)"
proof -
  have "int n < int (2 ^ 64)" using assms unfolding of_nat_less_iff .
  then have "int n < 2 ^ 64" by simp
  then show ?thesis using show_nat_digits [of n] by (simp add: jnum_def list_all_iff)
qed

end
