(* ===== verification/RouterError.thy ===== *)
theory RouterError
  imports Prelude
begin

text \<open>
  The router's error type, \<^verbatim>\<open>crates/router/src/error.rs\<close>: its record and its constructors.
  The per-field messages are an association list, an \<^verbatim>\<open>IndexMap\<close>. A foreign
  error (\<^verbatim>\<open>serde_json::Error\<close>) is the text it displays as.
\<close>

record error =
  code :: u16
  kind :: string
  message :: string
  error_fields :: "(string \<times> string list) list option"
  data :: "jvalue option"
  detail :: "string option"

type_synonym 'a result = "error + 'a"

definition INTERNAL_MESSAGE :: string where
  "INTERNAL_MESSAGE = ''internal server error''"

definition not_found :: "string \<Rightarrow> error" where
  "not_found action = \<lparr>code = 404, kind = ''not_found'',
     message = ''unknown action `'' @ action @ ''`'', error_fields = None, data = None, detail = None\<rparr>"

definition decode :: "string \<Rightarrow> error" where
  "decode err = \<lparr>code = 400, kind = ''bad_request'',
     message = ''invalid parameters: '' @ err, error_fields = None, data = None, detail = None\<rparr>"

definition encode_err :: "string \<Rightarrow> error" where
  "encode_err err = \<lparr>code = 500, kind = ''internal'', message = INTERNAL_MESSAGE,
     error_fields = None, data = None, detail = Some (''failed to serialize result: '' @ err)\<rparr>"

fun group_fields :: "(string \<times> string) list \<Rightarrow> (string \<times> string list) list \<Rightarrow> (string \<times> string list) list" where
  "group_fields [] acc = acc"
| "group_fields ((path, msg) # es) acc =
     group_fields es
       (AList.update path ((case map_of acc path of None \<Rightarrow> [] | Some ms \<Rightarrow> ms) @ [msg]) acc)"

definition validation :: "(string \<times> string) list \<Rightarrow> error" where
  "validation errors = \<lparr>code = 422, kind = ''validation'', message = ''validation failed'',
     error_fields = Some (group_fields errors []), data = None, detail = None\<rparr>"

definition new_error :: "u16 \<Rightarrow> string \<Rightarrow> error" where
  "new_error c msg = \<lparr>code = c, kind = ''error'', message = msg,
     error_fields = None, data = None, detail = None\<rparr>"

definition coded :: "u16 \<Rightarrow> string \<Rightarrow> string \<Rightarrow> error" where
  "coded c k msg = \<lparr>code = c, kind = k, message = msg, error_fields = None, data = None, detail = None\<rparr>"

definition internal :: "string \<Rightarrow> error" where
  "internal err = \<lparr>code = 500, kind = ''internal'', message = INTERNAL_MESSAGE,
     error_fields = None, data = None, detail = Some err\<rparr>"

definition with_data :: "error \<Rightarrow> jvalue \<Rightarrow> error" where
  "with_data e d = e\<lparr>data := Some d\<rparr>"

lemma code_coded [simp]: "code (coded c k m) = c"
  by (simp add: coded_def)

lemma kind_coded [simp]: "kind (coded c k m) = k"
  by (simp add: coded_def)

text \<open>Grouping keeps every message under its own path, in the order reported.\<close>

lemma group_fields_lookup:
  "map_of (group_fields es acc) p =
     (let ms = map snd (filter (\<lambda>e. fst e = p) es) in
      case map_of acc p of
        None \<Rightarrow> if ms = [] then None else Some ms
      | Some ms0 \<Rightarrow> Some (ms0 @ ms))"
  by (induction es acc rule: group_fields.induct) (auto simp: Let_def split: option.splits)

end
