(* ===== verification/Channel.thy ===== *)
theory Channel
  imports RouterError
begin

text \<open>
  Typed channels, \<^verbatim>\<open>crates/router/src/pubsub/channel.rs\<close>: the encoding of a channel name and a
  key into a topic string. The theorem of this theory is that the encoding is injective: two
  different channel instances never share a topic.
\<close>

definition MAX_TOPIC_BYTES :: nat where
  "MAX_TOPIC_BYTES = 256"

fun push_escaped :: "string \<Rightarrow> string \<Rightarrow> string" where
  "push_escaped topic [] = topic"
| "push_escaped topic (character # rest) =
     push_escaped
       (if character = CHR ''%'' then topic @ ''%25''
        else if character = CHR '':'' then topic @ ''%3A''
        else if character = CHR ''='' then topic @ ''%3D''
        else if character = CHR ''#'' then topic @ ''%23''
        else topic @ [character]) rest"

fun push_scalar :: "string \<Rightarrow> jvalue \<Rightarrow> string result" where
  "push_scalar topic (JString txt) = Inr (push_escaped topic txt)"
| "push_scalar topic (JNumber number) = Inr (topic @ ''#'' @ number)"
| "push_scalar topic (JBool flag) = Inr (topic @ ''#'' @ (if flag then ''true'' else ''false''))"
| "push_scalar topic _ =
     Inl (coded 400 ''bad_request'' ''channel key fields must be strings, numbers or booleans'')"

text \<open>The loop over the key's fields.\<close>

fun push_fields :: "string \<Rightarrow> (string \<times> jvalue) list \<Rightarrow> string result" where
  "push_fields topic [] = Inr topic"
| "push_fields topic ((field, v) # rest) =
     (case push_scalar (push_escaped (topic @ '':'') field @ ''='') v of
        Inl e \<Rightarrow> Inl e
      | Inr topic' \<Rightarrow> push_fields topic' rest)"

text \<open>Reading an object into an \<^verbatim>\<open>IndexMap\<close>: a repeated member replaces the value in place.\<close>

definition index_map :: "(string \<times> jvalue) list \<Rightarrow> (string \<times> jvalue) list" where
  "index_map members = foldl (\<lambda>m (k, v). AList.update k v m) [] members"

text \<open>
  \<^verbatim>\<open>encode_topic\<close>. The key is what its \<^verbatim>\<open>Serialize\<close> implementation writes: \<^term>\<open>Inl err\<close> when
  serialization fails, else the JSON value written, which the code reads back before encoding.
\<close>

definition encode_topic :: "string \<Rightarrow> string + jvalue \<Rightarrow> string result" where
  "encode_topic name key =
     (case key of
        Inl err \<Rightarrow> Inl (encode_err err)
      | Inr v \<Rightarrow>
          (let topic = push_escaped [] name;
               pushed =
                 (case v of
                    JObject members \<Rightarrow> push_fields topic (index_map members)
                  | _ \<Rightarrow> push_scalar (topic @ '':'') v)
           in case pushed of
                Inl e \<Rightarrow> Inl e
              | Inr topic' \<Rightarrow>
                  if length topic' > MAX_TOPIC_BYTES
                  then Inl (coded 400 ''bad_request'' ''channel key too long'')
                  else Inr topic'))"

definition user_topic_of :: "string \<Rightarrow> string result" where
  "user_topic_of uid = encode_topic ''user'' (Inr (JObject [(''id'', JString uid)]))"

definition device_topic_of :: "string \<Rightarrow> string \<Rightarrow> string result" where
  "device_topic_of usr did =
     encode_topic ''device'' (Inr (JObject [(''user'', JString usr), (''id'', JString did)]))"

definition RESERVED_NAMES :: "string list" where
  "RESERVED_NAMES = [''user'', ''device'']"

subsection \<open>Escaping is a prefix-free code\<close>

definition esc1 :: "char \<Rightarrow> string" where
  "esc1 c =
     (if c = CHR ''%'' then ''%25'' else if c = CHR '':'' then ''%3A''
      else if c = CHR ''='' then ''%3D'' else if c = CHR ''#'' then ''%23'' else [c])"

fun escaped :: "string \<Rightarrow> string" where
  "escaped [] = []"
| "escaped (c # s) = esc1 c @ escaped s"

lemma push_escaped_conv: "push_escaped topic s = topic @ escaped s"
  by (induction topic s rule: push_escaped.induct) (simp_all add: esc1_def)

lemma escaped_clean:
  "CHR '':'' \<notin> set (escaped s)" "CHR ''='' \<notin> set (escaped s)" "CHR ''#'' \<notin> set (escaped s)"
  by (induction s) (simp_all add: esc1_def)

lemma esc1_nonempty: "esc1 c \<noteq> []"
  by (simp add: esc1_def)

lemma esc1_prefix_free: "esc1 c @ s = esc1 d @ t \<Longrightarrow> c = d \<and> s = t"
  unfolding esc1_def by (simp split: if_splits)

lemma escaped_inj: "escaped s = escaped t \<Longrightarrow> s = t"
proof (induction s arbitrary: t)
  case Nil
  then show ?case by (cases t) (simp_all add: esc1_nonempty)
next
  case (Cons c s)
  show ?case
  proof (cases t)
    case Nil
    with Cons.prems show ?thesis by (simp add: esc1_nonempty)
  next
    case t: (Cons d t')
    with Cons.prems have "esc1 c @ escaped s = esc1 d @ escaped t'" by simp
    then show ?thesis using Cons.IH t esc1_prefix_free by blast
  qed
qed

subsection \<open>The shape of a topic\<close>

text \<open>Numbers display as digits, signs, a point or an exponent mark.\<close>

definition number_text :: "string \<Rightarrow> bool" where
  "number_text n \<longleftrightarrow>
     n \<noteq> [] \<and> (\<forall>c \<in> set n. is_digit c \<or> c \<in> {CHR ''-'', CHR ''+'', CHR ''.'', CHR ''e'', CHR ''E''})"

fun wf_scalar :: "jvalue \<Rightarrow> bool" where
  "wf_scalar (JNumber n) = number_text n"
| "wf_scalar _ = True"

fun wf_key :: "jvalue \<Rightarrow> bool" where
  "wf_key (JObject members) = (hm_wf members \<and> (\<forall>(f, v) \<in> set members. wf_scalar v))"
| "wf_key v = wf_scalar v"

fun scalar_text :: "jvalue \<Rightarrow> string" where
  "scalar_text (JString txt) = escaped txt"
| "scalar_text (JNumber number) = ''#'' @ number"
| "scalar_text (JBool flag) = ''#'' @ (if flag then ''true'' else ''false'')"
| "scalar_text _ = []"

fun is_scalar :: "jvalue \<Rightarrow> bool" where
  "is_scalar (JString _) = True"
| "is_scalar (JNumber _) = True"
| "is_scalar (JBool _) = True"
| "is_scalar _ = False"

lemma push_scalar_conv:
  "push_scalar topic v = Inr t \<longleftrightarrow> is_scalar v \<and> t = topic @ scalar_text v"
  by (cases v) (auto simp: push_escaped_conv)

fun fields_text :: "(string \<times> jvalue) list \<Rightarrow> string" where
  "fields_text [] = []"
| "fields_text ((f, v) # rest) = '':'' @ escaped f @ ''='' @ scalar_text v @ fields_text rest"

lemma push_fields_conv:
  "push_fields topic members = Inr t \<longleftrightarrow>
     (\<forall>(f, v) \<in> set members. is_scalar v) \<and> t = topic @ fields_text members"
proof (induction topic members rule: push_fields.induct)
  case (2 topic field v rest)
  show ?case
  proof (cases "push_scalar (push_escaped (topic @ '':'') field @ ''='') v")
    case (Inl e)
    then have "\<not> is_scalar v" using push_scalar_conv by (metis Inl_Inr_False)
    with Inl show ?thesis by simp
  next
    case (Inr t')
    then have v: "is_scalar v" and t': "t' = topic @ '':'' @ escaped field @ ''='' @ scalar_text v"
      unfolding push_scalar_conv by (simp_all add: push_escaped_conv)
    from "2.IH" [OF Inr] Inr v show ?thesis by (simp add: t')
  qed
qed auto

lemma update_append_nonmem: "k \<notin> set (keys m) \<Longrightarrow> AList.update k v m = m @ [(k, v)]"
  by (induction m) auto

lemma index_map_distinct: "hm_wf members \<Longrightarrow> index_map members = members"
proof (induction members rule: rev_induct)
  case (snoc x xs)
  then have "index_map xs = xs" "fst x \<notin> set (keys xs)" by auto
  then show ?case
    by (cases x) (simp add: index_map_def update_append_nonmem)
qed (simp add: index_map_def)

definition topic_text :: "string \<Rightarrow> jvalue \<Rightarrow> string" where
  "topic_text name v = escaped name @
     (case v of JObject members \<Rightarrow> fields_text members | _ \<Rightarrow> '':'' @ scalar_text v)"

lemma encode_topic_text:
  assumes "wf_key v"
  shows "encode_topic name (Inr v) = Inr t \<longleftrightarrow>
     (case v of JObject members \<Rightarrow> \<forall>(f, u) \<in> set members. is_scalar u | _ \<Rightarrow> is_scalar v) \<and>
     t = topic_text name v \<and> length t \<le> MAX_TOPIC_BYTES"
proof (cases v)
  case (JObject members)
  with assms have im: "index_map members = members" by (simp add: index_map_distinct)
  have "encode_topic name (Inr v) =
      (case push_fields (escaped name) members of
         Inl e \<Rightarrow> Inl e
       | Inr topic' \<Rightarrow> if length topic' > MAX_TOPIC_BYTES
           then Inl (coded 400 ''bad_request'' ''channel key too long'') else Inr topic')"
    by (simp add: JObject encode_topic_def push_escaped_conv im Let_def)
  also have "\<dots> = Inr t \<longleftrightarrow> push_fields (escaped name) members = Inr t \<and> length t \<le> MAX_TOPIC_BYTES"
    by (auto split: sum.splits)
  finally show ?thesis by (auto simp: push_fields_conv JObject topic_text_def)
qed (auto simp: encode_topic_def push_escaped_conv topic_text_def Let_def split: if_splits)

subsection \<open>Different channel instances have different topics\<close>

lemma number_clean: "number_text n \<Longrightarrow> CHR '':'' \<notin> set n \<and> CHR ''='' \<notin> set n"
  by (auto simp: number_text_def is_digit_def)

lemma scalar_clean:
  "wf_scalar v \<Longrightarrow> is_scalar v \<Longrightarrow> CHR '':'' \<notin> set (scalar_text v) \<and> CHR ''='' \<notin> set (scalar_text v)"
  by (cases v) (auto dest: number_clean simp: escaped_clean)

lemma number_not_bool: "number_text n \<Longrightarrow> n \<noteq> ''true'' \<and> n \<noteq> ''false''"
  by (auto simp: number_text_def is_digit_def)

lemma scalar_text_inj:
  assumes "wf_scalar v" "is_scalar v" "wf_scalar w" "is_scalar w" "scalar_text v = scalar_text w"
  shows "v = w"
proof -
  have str: False if "escaped s = CHR ''#'' # n" for s n
    using escaped_clean(3) [of s] that by simp
  show ?thesis
    using assms by (cases v; cases w)
      (auto dest: str number_not_bool escaped_inj sym [THEN str] split: if_splits)
qed

lemma fields_text_start: "fields_text ms = [] \<or> (\<exists>r. fields_text ms = CHR '':'' # r)"
  by (cases ms rule: fields_text.cases) auto

text \<open>Text before a topic's next separator is determined by the whole.\<close>

lemma before_fields_inj:
  assumes "a @ fields_text ms = b @ fields_text ns" and "CHR '':'' \<notin> set a" and "CHR '':'' \<notin> set b"
  shows "a = b \<and> fields_text ms = fields_text ns"
proof (cases "fields_text ms = []")
  case True
  with assms have "CHR '':'' \<notin> set (b @ fields_text ns)" by (metis append_Nil2)
  then have "fields_text ns = []" using fields_text_start [of ns] by auto
  with True assms show ?thesis by simp
next
  case False
  then obtain r where r: "fields_text ms = CHR '':'' # r" using fields_text_start by blast
  have "fields_text ns \<noteq> []" using assms r by auto
  then obtain q where q: "fields_text ns = CHR '':'' # q" using fields_text_start by blast
  from assms r q show ?thesis using sep_append_inj [of a _ r b q] by auto
qed

lemma fields_text_inj:
  assumes "\<forall>(f, v) \<in> set ms. wf_scalar v \<and> is_scalar v" "\<forall>(f, v) \<in> set ns. wf_scalar v \<and> is_scalar v"
    and "fields_text ms = fields_text ns"
  shows "ms = ns"
  using assms
proof (induction ms arbitrary: ns)
  case Nil
  then show ?case by (cases ns rule: fields_text.cases) auto
next
  case (Cons m ms)
  obtain f v where m: "m = (f, v)" by (cases m)
  from Cons.prems obtain g w ns' where ns: "ns = (g, w) # ns'"
    by (cases ns rule: fields_text.cases) (auto simp: m)
  from Cons.prems have v: "wf_scalar v" "is_scalar v" and w: "wf_scalar w" "is_scalar w"
    by (auto simp: m ns)
  have eq: "escaped f @ CHR ''='' # (scalar_text v @ fields_text ms) =
        escaped g @ CHR ''='' # (scalar_text w @ fields_text ns')"
    using Cons.prems(3) by (simp add: m ns)
  have f: "escaped f = escaped g"
    and rest: "scalar_text v @ fields_text ms = scalar_text w @ fields_text ns'"
    using sep_append_inj [OF eq escaped_clean(2) escaped_clean(2)] by simp_all
  have "scalar_text v = scalar_text w" "fields_text ms = fields_text ns'"
    using before_fields_inj [OF rest] scalar_clean [OF v] scalar_clean [OF w] by simp_all
  moreover from this have "ms = ns'" using Cons.IH [of ns'] Cons.prems by (simp add: m ns)
  moreover have "f = g" using f by (rule escaped_inj)
  moreover have "v = w" using scalar_text_inj v w \<open>scalar_text v = scalar_text w\<close> by blast
  ultimately show ?case by (simp add: m ns)
qed

lemma fields_text_not_scalar:
  assumes "wf_scalar v" "is_scalar v" shows "fields_text ms \<noteq> CHR '':'' # scalar_text v"
proof
  assume eq: "fields_text ms = CHR '':'' # scalar_text v"
  show False
  proof (cases ms rule: fields_text.cases)
    case (2 f u rest)
    with eq have "scalar_text v = escaped f @ CHR ''='' # (scalar_text u @ fields_text rest)" by simp
    then have "CHR ''='' \<in> set (scalar_text v)" by simp
    with scalar_clean assms show False by blast
  qed (use eq in simp)
qed

lemma topic_text_split:
  assumes "topic_text n1 v1 = topic_text n2 v2"
  shows "n1 = n2 \<and> (case v1 of JObject ms \<Rightarrow> fields_text ms | _ \<Rightarrow> '':'' @ scalar_text v1) =
                   (case v2 of JObject ms \<Rightarrow> fields_text ms | _ \<Rightarrow> '':'' @ scalar_text v2)"
proof -
  have tail: "r = [] \<or> (\<exists>q. r = CHR '':'' # q)"
    if "r = (case v of JObject ms \<Rightarrow> fields_text ms | _ \<Rightarrow> '':'' @ scalar_text v)" for r v
    using that fields_text_start by (cases v) auto
  define r1 where "r1 = (case v1 of JObject ms \<Rightarrow> fields_text ms | _ \<Rightarrow> '':'' @ scalar_text v1)"
  define r2 where "r2 = (case v2 of JObject ms \<Rightarrow> fields_text ms | _ \<Rightarrow> '':'' @ scalar_text v2)"
  have eq: "escaped n1 @ r1 = escaped n2 @ r2"
    using assms by (simp add: topic_text_def r1_def r2_def)
  have "escaped n1 = escaped n2 \<and> r1 = r2"
  proof (cases "r1 = [] \<or> r2 = []")
    case True
    have c1: "CHR '':'' \<notin> set (escaped n1 @ r1)"
      using True eq escaped_clean(1) by (metis append_Nil2)
    then have c2: "CHR '':'' \<notin> set (escaped n2 @ r2)" by (simp add: eq)
    from c1 c2 have "r1 = []" "r2 = []" using tail [OF r1_def] tail [OF r2_def] by auto
    with eq show ?thesis by simp
  next
    case False
    then obtain q1 q2 where "r1 = CHR '':'' # q1" "r2 = CHR '':'' # q2"
      using tail [OF r1_def] tail [OF r2_def] by blast
    with eq show ?thesis
      using sep_append_inj [OF _ escaped_clean(1) escaped_clean(1)] by metis
  qed
  then show ?thesis using escaped_inj by (simp add: r1_def r2_def)
qed

text \<open>C7: Topics never collide: if two channel instances (name and key, with the numbers of the key
  displayed as numbers are and the members of an object key distinct) encode to the same topic,
  they have the same name and the same key. The names and keys may contain the separators
  themselves, and a string key never meets a number or boolean key.\<close>

theorem encode_topic_injective:
  assumes "encode_topic n1 (Inr v1) = Inr t" and "encode_topic n2 (Inr v2) = Inr t"
    and "wf_key v1" and "wf_key v2"
  shows "n1 = n2 \<and> v1 = v2"
proof -
  from assms have t: "topic_text n1 v1 = topic_text n2 v2"
    and s1: "case v1 of JObject ms \<Rightarrow> \<forall>(f, u) \<in> set ms. is_scalar u | _ \<Rightarrow> is_scalar v1"
    and s2: "case v2 of JObject ms \<Rightarrow> \<forall>(f, u) \<in> set ms. is_scalar u | _ \<Rightarrow> is_scalar v2"
    by (simp_all add: encode_topic_text)
  note split = topic_text_split [OF t]
  have key: "v1 = v2"
  proof (cases "\<exists>ms. v1 = JObject ms")
    case True
    then obtain ms where ms: "v1 = JObject ms" by blast
    show ?thesis
    proof (cases "\<exists>ns. v2 = JObject ns")
      case True
      then obtain ns where ns: "v2 = JObject ns" by blast
      have "ms = ns"
        by (rule fields_text_inj) (use assms split s1 s2 ms ns in auto)
      then show ?thesis by (simp add: ms ns)
    next
      case False
      then have "fields_text ms = CHR '':'' # scalar_text v2" "wf_scalar v2" "is_scalar v2"
        using split s2 assms(4) ms by (cases v2; auto)+
      then show ?thesis using fields_text_not_scalar by blast
    qed
  next
    case no1: False
    then have v1: "wf_scalar v1" "is_scalar v1" using s1 assms(3) by (cases v1; auto)+
    show ?thesis
    proof (cases "\<exists>ns. v2 = JObject ns")
      case True
      then obtain ns where "v2 = JObject ns" by blast
      then have "fields_text ns = CHR '':'' # scalar_text v1"
        using split no1 by (cases v1; auto)
      then show ?thesis using fields_text_not_scalar v1 by blast
    next
      case False
      then have "wf_scalar v2" "is_scalar v2" "scalar_text v1 = scalar_text v2"
        using s2 assms(4) split no1 by (cases v1; cases v2; auto)+
      then show ?thesis using scalar_text_inj v1 by blast
    qed
  qed
  with split show ?thesis by blast
qed

theorem encode_topic_injective_witness:
  "encode_topic ''n'' (Inr (JObject [(''id'', JString ''7:=#%'')])) = Inr ''n:id=7%3A%3D%23%25'' \<and>
   wf_key (JObject [(''id'', JString ''7:=#%'')]) \<and>
   (''n'' :: string) = ''n'' \<and> JObject [(''id'', JString ''7:=#%'')] = JObject [(''id'', JString ''7:=#%'')]"
proof -
  have e: "encode_topic ''n'' (Inr (JObject [(''id'', JString ''7:=#%'')])) = Inr ''n:id=7%3A%3D%23%25''"
    by code_simp
  have w: "wf_key (JObject [(''id'', JString ''7:=#%'')])" by simp
  show ?thesis using encode_topic_injective [OF e e w w] e w by blast
qed

end
