(* ===== verification/Frames.thy ===== *)
theory Frames
  imports RouterError
begin

text \<open>
  Frames the hub sends to sessions and the payloads it hands the broker,
  \<^verbatim>\<open>crates/router/src/pubsub/hub/frames.rs\<close>. Each frame is assembled by appending to one
  buffer; the definitions below thread that buffer. The theorems: a string pushed by
  \<^verbatim>\<open>push_json_str\<close> is one JSON string literal that denotes exactly that string, so no topic,
  name or reason can end its literal early, and a publish frame determines its contents.
\<close>

datatype close_kind = Superseded | Revoked

fun close_kind_as_str :: "close_kind \<Rightarrow> string" where
  "close_kind_as_str Superseded = ''superseded''"
| "close_kind_as_str Revoked = ''revoked''"

text \<open>
  A broker payload read back on the receiving node. Reading it is \<^verbatim>\<open>serde_json\<close>'s work, so the
  operations that do it take the reader as an argument.
\<close>

record incoming =
  in_name :: "string option"
  in_params :: "string option"
  in_kick :: "string option"
  in_close :: "close_kind option"

definition hex_digit :: "nat \<Rightarrow> char" where
  "hex_digit d = (if d < 10 then char_of (48 + d) else char_of (87 + d))"

text \<open>The format \<^verbatim>\<open>{:04x}\<close> of a number below 0x10000.\<close>

definition hex4 :: "nat \<Rightarrow> string" where
  "hex4 n = [hex_digit (n div 4096 mod 16), hex_digit (n div 256 mod 16),
             hex_digit (n div 16 mod 16), hex_digit (n mod 16)]"

definition json_char :: "char \<Rightarrow> string" where
  "json_char character =
     (if character = CHR 0x22 then [CHR 0x5C, CHR 0x22]
      else if character = CHR 0x5C then [CHR 0x5C, CHR 0x5C]
      else if character = CHR 0x0A then [CHR 0x5C, CHR ''n'']
      else if character = CHR 0x0D then [CHR 0x5C, CHR ''r'']
      else if character = CHR 0x09 then [CHR 0x5C, CHR ''t'']
      else if (of_char character :: nat) < 0x20
           then [CHR 0x5C, CHR ''u''] @ hex4 (of_char character)
      else [character])"

fun push_json_chars :: "string \<Rightarrow> string \<Rightarrow> string" where
  "push_json_chars out [] = out"
| "push_json_chars out (character # rest) = push_json_chars (out @ json_char character) rest"

definition push_json_str :: "string \<Rightarrow> string \<Rightarrow> string" where
  "push_json_str out txt = push_json_chars (out @ [CHR 0x22]) txt @ [CHR 0x22]"

definition publish_payload :: "string \<Rightarrow> string \<Rightarrow> string" where
  \<open>publish_payload name params =
     (let out = ''{"name":'';
          out = push_json_str out name;
          out = out @ '',"params":'';
          out = out @ params
      in out @ ''}'')\<close>

definition kick_payload :: "string \<Rightarrow> string" where
  \<open>kick_payload user = push_json_str ''{"kick":'' user @ ''}''\<close>

definition close_payload :: "close_kind \<Rightarrow> string" where
  \<open>close_payload ck = ''{"close":"'' @ close_kind_as_str ck @ ''"}''\<close>

definition publish_frame :: "string \<Rightarrow> string \<Rightarrow> string \<Rightarrow> u64 \<Rightarrow> u64 \<Rightarrow> string" where
  \<open>publish_frame topic name params epoch seq =
     (let out = ''{"kind":"publish","topic":'';
          out = push_json_str out topic;
          out = out @ '',"name":'';
          out = push_json_str out name;
          out = out @ '',"seq":'' @ show_u64 seq @ '',"epoch":'' @ show_u64 epoch @ '',"params":'';
          out = out @ params
      in out @ ''}'')\<close>

definition reset_frame :: "string \<Rightarrow> u64 \<Rightarrow> string" where
  \<open>reset_frame topic epoch =
     (let out = push_json_str ''{"kind":"reset","topic":'' topic
      in out @ '',"epoch":'' @ show_u64 epoch @ '',"seq":0}'')\<close>

definition unsubscribed_frame :: "string \<Rightarrow> string \<Rightarrow> string" where
  \<open>unsubscribed_frame topic reason =
     (let out = push_json_str ''{"kind":"unsubscribed","topic":'' topic;
          out = push_json_str (out @ '',"reason":'') reason
      in out @ ''}'')\<close>

subsection \<open>JSON string literals\<close>

text \<open>
  A reader of JSON string literals (RFC 8259, section 7) for the escapes of ASCII characters:
  the string denoted and the text after the closing quote. It is the specification
  \<^const>\<open>push_json_str\<close> is checked against.
\<close>

definition hex_val :: "char \<Rightarrow> nat option" where
  "hex_val c =
     (let n = of_char c :: nat in
      if 48 \<le> n \<and> n \<le> 57 then Some (n - 48)
      else if 97 \<le> n \<and> n \<le> 102 then Some (n - 87)
      else if 65 \<le> n \<and> n \<le> 70 then Some (n - 55) else None)"

definition escape_val :: "char \<Rightarrow> char option" where
  "escape_val c =
     (if c = CHR 0x22 \<or> c = CHR 0x5C \<or> c = CHR ''/'' then Some c
      else if c = CHR ''n'' then Some (CHR 0x0A) else if c = CHR ''r'' then Some (CHR 0x0D)
      else if c = CHR ''t'' then Some (CHR 0x09) else if c = CHR ''b'' then Some (CHR 0x08)
      else if c = CHR ''f'' then Some (CHR 0x0C) else None)"

definition ascii_escape :: "char \<Rightarrow> char \<Rightarrow> char \<Rightarrow> char \<Rightarrow> char option" where
  "ascii_escape a b c d =
     (case (hex_val a, hex_val b, hex_val c, hex_val d) of
        (Some 0, Some 0, Some x, Some y) \<Rightarrow> if x < 8 then Some (char_of (16 * x + y)) else None
      | _ \<Rightarrow> None)"

fun read_json_chars :: "string \<Rightarrow> (string \<times> string) option" where
  "read_json_chars [] = None"
| "read_json_chars (c # rest) =
     (if c = CHR 0x22 then Some ([], rest)
      else if c = CHR 0x5C then
        (case rest of
           [] \<Rightarrow> None
         | e # rest' \<Rightarrow>
             if e = CHR ''u'' then
               (case rest' of
                  h1 # h2 # h3 # h4 # rest'' \<Rightarrow>
                    (case ascii_escape h1 h2 h3 h4 of
                       None \<Rightarrow> None
                     | Some v \<Rightarrow> map_option (apfst (Cons v)) (read_json_chars rest''))
                | _ \<Rightarrow> None)
             else
               (case escape_val e of
                  None \<Rightarrow> None
                | Some v \<Rightarrow> map_option (apfst (Cons v)) (read_json_chars rest')))
      else if (of_char c :: nat) < 0x20 then None
      else map_option (apfst (Cons c)) (read_json_chars rest))"

fun read_json_str :: "string \<Rightarrow> (string \<times> string) option" where
  "read_json_str (c # rest) = (if c = CHR 0x22 then read_json_chars rest else None)"
| "read_json_str [] = None"

lemma push_json_chars_conv: "push_json_chars out s = out @ concat (map json_char s)"
  by (induction out s rule: push_json_chars.induct) simp_all

lemma push_json_str_append: "push_json_str out s = out @ push_json_str [] s"
  by (simp add: push_json_str_def push_json_chars_conv)

lemma hex_val_digit: "d < 16 \<Longrightarrow> hex_val (hex_digit d) = Some d"
  by (auto simp: hex_val_def hex_digit_def Let_def)

lemma ascii_escape_hex4:
  assumes "n < 0x20"
  shows "hex4 n = [a, b, c, d] \<Longrightarrow> ascii_escape a b c d = Some (char_of n)"
proof -
  assume h: "hex4 n = [a, b, c, d]"
  have m: "n div 4096 mod 16 = 0" "n div 256 mod 16 = 0" using assms by auto
  have "16 * (n div 16 mod 16) + n mod 16 = n" "n div 16 mod 16 < 8" using assms by auto
  with h m show ?thesis
    by (auto simp: hex4_def ascii_escape_def hex_val_digit)
qed

lemma read_json_char:
  "read_json_chars (json_char c @ rest) = map_option (apfst (Cons c)) (read_json_chars rest)"
proof -
  consider "c \<in> {CHR 0x22, CHR 0x5C, CHR 0x0A, CHR 0x0D, CHR 0x09}"
    | "c \<notin> {CHR 0x22, CHR 0x5C, CHR 0x0A, CHR 0x0D, CHR 0x09}" "(of_char c :: nat) < 0x20"
    | "c \<notin> {CHR 0x22, CHR 0x5C, CHR 0x0A, CHR 0x0D, CHR 0x09}" "\<not> (of_char c :: nat) < 0x20"
    by blast
  then show ?thesis
  proof cases
    case 1
    then show ?thesis by (auto simp: json_char_def escape_val_def)
  next
    case 2
    obtain h1 h2 h3 h4 where h: "hex4 (of_char c) = [h1, h2, h3, h4]" by (simp add: hex4_def)
    from ascii_escape_hex4 [OF 2(2) h] have "ascii_escape h1 h2 h3 h4 = Some c" by simp
    with 2 h show ?thesis by (simp add: json_char_def)
  next
    case 3
    then show ?thesis by (simp add: json_char_def)
  qed
qed

lemma read_json_chars_concat:
  "read_json_chars (concat (map json_char s) @ CHR 0x22 # rest) = Some (s, rest)"
  by (induction s) (simp_all add: read_json_char)

lemma read_pushed: "read_json_str (push_json_str [] s @ rest) = Some (s, rest)"
  by (simp add: push_json_str_def push_json_chars_conv read_json_chars_concat)

lemma pushed_inj:
  assumes "push_json_str [] s @ a = push_json_str [] t @ b"
  shows "s = t \<and> a = b"
proof -
  have "read_json_str (push_json_str [] s @ a) = Some (s, a)" by (rule read_pushed)
  moreover have "read_json_str (push_json_str [] s @ a) = Some (t, b)"
    unfolding assms by (rule read_pushed)
  ultimately show ?thesis by simp
qed

lemma show_u64_sep: "CHR '','' \<notin> set (show_u64 w)"
  using show_u64_digits [of w] by (auto simp: is_digit_def)

lemma show_u64_split:
  assumes "show_u64 v @ CHR '','' # a = show_u64 w @ CHR '','' # b"
  shows "v = w \<and> a = b"
  using sep_append_inj [OF assms show_u64_sep show_u64_sep] show_u64_inj by blast

subsection \<open>Frames determine their contents\<close>

lemma publish_frame_text:
  \<open>publish_frame topic name params epoch seq =
     ''{"kind":"publish","topic":'' @ push_json_str [] topic @ '',"name":'' @ push_json_str [] name @
     '',"seq":'' @ show_u64 seq @ '',"epoch":'' @ show_u64 epoch @ '',"params":'' @ params @ ''}''\<close>
  unfolding publish_frame_def Let_def by (subst push_json_str_append, subst (2) push_json_str_append) simp

text \<open>A publish frame determines the topic, the action name, the parameters, the epoch and the
  sequence number it was built from.\<close>

theorem publish_frame_unambiguous:
  assumes eq: "publish_frame topic name params epoch seq = publish_frame topic' name' params' epoch' seq'"
  shows "topic = topic' \<and> name = name' \<and> params = params' \<and> epoch = epoch' \<and> seq = seq'"
proof -
  note e1 = eq [unfolded publish_frame_text same_append_eq]
  note t = pushed_inj [OF e1]
  note e2 = conjunct2 [OF t, unfolded same_append_eq]
  note n = pushed_inj [OF e2]
  note e3 = conjunct2 [OF n, unfolded same_append_eq]
  have s: \<open>seq = seq' \<and> ''"epoch":'' @ show_u64 epoch @ '',"params":'' @ params @ ''}'' =
      ''"epoch":'' @ show_u64 epoch' @ '',"params":'' @ params' @ ''}''\<close>
    using e3 by (intro show_u64_split) simp
  note e4 = conjunct2 [OF s, unfolded same_append_eq]
  have e: \<open>epoch = epoch' \<and> ''"params":'' @ params @ ''}'' = ''"params":'' @ params' @ ''}''\<close>
    using e4 by (intro show_u64_split) simp
  from t n s e show ?thesis by simp
qed

theorem publish_frame_unambiguous_witness:
  "publish_frame ''a'' ''n'' ''{}'' 3 (1 + 1) = publish_frame ''a'' ''n'' ''{}'' 3 2 \<and> (1 + 1 :: u64) = 2"
  using publish_frame_unambiguous [of "''a''" "''n''" "''{}''" 3 "1 + 1" "''a''" "''n''" "''{}''" 3 2] by simp

end
