(* ===== verification/SessionConfig.thy ===== *)
theory SessionConfig
  imports RouterError
begin

text \<open>
  Session limits, identities and close reasons, \<^verbatim>\<open>crates/router/src/session/config.rs\<close>.
  Durations are milliseconds.
\<close>

record session_config =
  heartbeat :: nat
  idle_timeout :: nat
  auth_window :: nat
  max_connections_per_user :: nat
  max_frame_bytes :: nat
  max_subscriptions :: nat
  outgoing_buffer :: nat
  max_frames_per_second :: nat

definition default_session_config :: session_config where
  "default_session_config =
     \<lparr>heartbeat = 25000, idle_timeout = 60000, auth_window = 5000,
      max_connections_per_user = 16, max_frame_bytes = 64 * 1024, max_subscriptions = 128,
      outgoing_buffer = 1024, max_frames_per_second = 100\<rparr>"

record identity =
  id_user :: "string option"
  id_device :: "string option"

definition identity_for_user :: "string \<Rightarrow> identity" where
  "identity_for_user u = \<lparr>id_user = Some u, id_device = None\<rparr>"

definition with_device :: "identity \<Rightarrow> string \<Rightarrow> identity" where
  "with_device i d = i\<lparr>id_device := Some d\<rparr>"

datatype close_reason =
    AuthTimeout | Unauthorized | TooManyConnections | Idle | SlowConsumer | FrameTooLarge
  | SupersededBy | RevokedBy | RateLimited

fun close_code :: "close_reason \<Rightarrow> u16" where
  "close_code AuthTimeout = 4001"
| "close_code Unauthorized = 4003"
| "close_code TooManyConnections = 4029"
| "close_code Idle = 4008"
| "close_code SlowConsumer = 4009"
| "close_code FrameTooLarge = 1009"
| "close_code SupersededBy = 4010"
| "close_code RevokedBy = 4011"
| "close_code RateLimited = 1008"

fun close_reason_as_str :: "close_reason \<Rightarrow> string" where
  "close_reason_as_str AuthTimeout = ''auth_timeout''"
| "close_reason_as_str Unauthorized = ''unauthorized''"
| "close_reason_as_str TooManyConnections = ''too_many_connections''"
| "close_reason_as_str Idle = ''idle''"
| "close_reason_as_str SlowConsumer = ''slow_consumer''"
| "close_reason_as_str FrameTooLarge = ''frame_too_large''"
| "close_reason_as_str SupersededBy = ''superseded''"
| "close_reason_as_str RevokedBy = ''revoked''"
| "close_reason_as_str RateLimited = ''rate_limited''"

lemma close_code_inj: "close_code r = close_code s \<Longrightarrow> r = s"
  by (cases r; cases s) auto

lemma close_reason_as_str_inj: "close_reason_as_str r = close_reason_as_str s \<Longrightarrow> r = s"
  by (cases r; cases s) auto

end
