(* ===== verification/ClientCalls.thy ===== *)
theory ClientCalls
  imports Channel
begin

text \<open>
  Server-to-client calls, \<^verbatim>\<open>crates/router/src/client.rs\<close>: the handle behind
  \<^verbatim>\<open>cx.client_call\<close>. A connected handle keeps the calls that wait for a reply in a map from call
  id to the sending half of a one-shot channel. The one-shot channels are an explicit store:
  a channel is an address, and \<^verbatim>\<open>answers\<close> records what was sent into each.

  \<^verbatim>\<open>call\<close> suspends while it waits, so it is split where other tasks can run: reading the
  \<^verbatim>\<open>closed\<close> flag, entering the pending map, and the end of the call, at which the guard's
  \<^verbatim>\<open>drop\<close> removes the entry. \<^verbatim>\<open>resolve\<close> and \<^verbatim>\<open>fail_pending\<close> do not suspend.
\<close>

record client_inner =
  pending :: "(u64, nat) hashmap"
  next_id :: u64
  closed :: bool
  answers :: "(nat \<times> jvalue result) list"

text \<open>The reply a mock handler gives stands for the test stub.\<close>

datatype client_handle =
    Disconnected
  | Connected client_inner
  | Mock "string \<Rightarrow> jvalue \<Rightarrow> jvalue result"

definition closed_error :: error where
  "closed_error = coded 410 ''gone'' ''client connection closed''"

definition timeout_error :: error where
  "timeout_error = coded 504 ''timeout'' ''client action timed out''"

definition connected :: client_inner where
  "connected = \<lparr>pending = [], next_id = 0, closed = False, answers = []\<rparr>"

text \<open>What \<^verbatim>\<open>call\<close> does before it first suspends: an immediate result, or the call goes on.\<close>

fun call_check :: "client_handle \<Rightarrow> string \<Rightarrow> jvalue \<Rightarrow> jvalue result option" where
  "call_check Disconnected name params =
     Some (Inl (new_error 400 ''client actions require a duplex connection''))"
| "call_check (Mock handler) name params = Some (handler name params)"
| "call_check (Connected inner) name params =
     (if closed inner then Some (Inl closed_error) else None)"

text \<open>Entering the pending map with a fresh one-shot channel \<^term>\<open>chan\<close>; the frame to send.\<close>

definition call_enter :: "client_inner \<Rightarrow> nat \<Rightarrow> string \<Rightarrow> jvalue \<Rightarrow> u64 \<times> jvalue \<times> client_inner" where
  "call_enter inner chan name params =
     (let call_id = next_id inner;
          inner' = inner\<lparr>next_id := call_id + 1,
                         pending := AList.update call_id chan (pending inner)\<rparr>;
          frame = json_object [(''kind'', JString ''client_call''), (''id'', JNumber (show_u64 call_id)),
                           (''name'', JString name), (''params'', params)]
      in (call_id, frame, inner'))"

text \<open>
  How the wait ends: the frame could not be queued, the one-shot channel was answered or
  dropped, or the timeout fired. Every end drops the guard.
\<close>

datatype call_end = SendFailed | Answered "jvalue result" | SenderDropped | TimedOut

fun call_result :: "call_end \<Rightarrow> jvalue result" where
  "call_result SendFailed = Inl closed_error"
| "call_result (Answered r) = r"
| "call_result SenderDropped = Inl closed_error"
| "call_result TimedOut = Inl timeout_error"

definition guard_drop :: "client_inner \<Rightarrow> u64 \<Rightarrow> client_inner" where
  "guard_drop inner call_id = inner\<lparr>pending := AList.delete call_id (pending inner)\<rparr>"

fun resolve :: "client_handle \<Rightarrow> u64 \<Rightarrow> jvalue result \<Rightarrow> client_handle" where
  "resolve (Connected inner) call_id r =
     (case map_of (pending inner) call_id of
        None \<Rightarrow> Connected (inner\<lparr>pending := AList.delete call_id (pending inner)\<rparr>)
      | Some chan \<Rightarrow>
          Connected (inner\<lparr>pending := AList.delete call_id (pending inner),
                           answers := answers inner @ [(chan, r)]\<rparr>))"
| "resolve h call_id r = h"

fun fail_pending :: "client_handle \<Rightarrow> client_handle" where
  "fail_pending (Connected inner) =
     Connected (inner\<lparr>closed := True, pending := [],
       answers := answers inner @ map (\<lambda>(_, chan). (chan, Inl closed_error)) (pending inner)\<rparr>)"
| "fail_pending h = h"

subsection \<open>Runs of a connected handle\<close>

text \<open>
  The tasks sharing a connected handle: \<^verbatim>\<open>checked\<close> counts the calls that read the flag as
  false and have not yet entered the map, \<^verbatim>\<open>chans\<close> the one-shot channels made so far.
\<close>

record client_run =
  inner_of :: client_inner
  checked :: nat
  chans :: nat

definition client_start :: client_run where
  "client_start = \<lparr>inner_of = connected, checked = 0, chans = 0\<rparr>"

inductive client_step :: "client_run \<Rightarrow> client_run \<Rightarrow> bool" where
  check: "call_check (Connected (inner_of r)) name params = None \<Longrightarrow>
     client_step r (r\<lparr>checked := Suc (checked r)\<rparr>)"
| enter: "checked r = Suc k \<Longrightarrow> call_enter (inner_of r) (chans r) name params = (i, frame, inner') \<Longrightarrow>
     client_step r (r\<lparr>inner_of := inner', checked := k, chans := Suc (chans r)\<rparr>)"
| finish: "client_step r (r\<lparr>inner_of := guard_drop (inner_of r) i\<rparr>)"
| reply: "resolve (Connected (inner_of r)) i res = Connected inner' \<Longrightarrow>
     client_step r (r\<lparr>inner_of := inner'\<rparr>)"
| close: "fail_pending (Connected (inner_of r)) = Connected inner' \<Longrightarrow>
     client_step r (r\<lparr>inner_of := inner'\<rparr>)"

inductive_cases client_stepE: "client_step r r'"

inductive client_reachable :: "client_run \<Rightarrow> bool" where
  start: "client_reachable client_start"
| step: "client_reachable r \<Longrightarrow> client_step r r' \<Longrightarrow> client_reachable r'"

text \<open>
  Every one-shot channel in the map or answered was made by this handle, none is in two
  places, and none is answered twice.
\<close>

definition chan_inv :: "nat list \<Rightarrow> nat list \<Rightarrow> nat \<Rightarrow> bool" where
  "chan_inv waiting dn made \<longleftrightarrow> distinct (waiting @ dn) \<and> (\<forall>c \<in> set (waiting @ dn). c < made)"

definition client_inv :: "client_run \<Rightarrow> bool" where
  "client_inv r \<longleftrightarrow>
     chan_inv (map snd (pending (inner_of r))) (map fst (answers (inner_of r))) (chans r)"

lemma chan_inv_enter:
  assumes "chan_inv ps ans n" "distinct ps'" "set ps' \<subseteq> insert n (set ps)"
  shows "chan_inv ps' ans (Suc n)"
proof -
  have "set ps' \<inter> set ans = {}" using assms by (auto simp: chan_inv_def)
  moreover have "\<forall>c \<in> set ps'. c < Suc n"
  proof
    fix c assume "c \<in> set ps'"
    then have "c = n \<or> c \<in> set ps" using assms(3) by blast
    then show "c < Suc n" using assms(1) by (auto simp: chan_inv_def less_Suc_eq)
  qed
  moreover have "\<forall>c \<in> set ans. c < Suc n" using assms(1) by (simp add: chan_inv_def less_Suc_eq)
  ultimately show ?thesis using assms by (simp add: chan_inv_def ball_Un)
qed

lemma chan_inv_subset:
  assumes "chan_inv ps ans n" "distinct ps'" "set ps' \<subseteq> set ps"
  shows "chan_inv ps' ans n"
proof -
  have "set ps' \<inter> set ans = {}" using assms by (auto simp: chan_inv_def)
  then show ?thesis using assms by (simp add: chan_inv_def subset_iff) blast
qed

lemma chan_inv_answer:
  assumes "chan_inv ps ans n" "distinct ps'" "set ps' \<subseteq> set ps - {c}" "c \<in> set ps"
  shows "chan_inv ps' (ans @ [c]) n"
proof -
  have "set ps' \<inter> set (ans @ [c]) = {}" "c \<notin> set ans" using assms by (auto simp: chan_inv_def)
  then show ?thesis using assms by (simp add: chan_inv_def subset_iff) blast
qed

lemma chan_inv_drain: "chan_inv ps ans n \<Longrightarrow> chan_inv [] (ans @ ps) n"
  by (auto simp: chan_inv_def)

lemma values_delete: "set (map snd (AList.delete k m)) \<subseteq> set (map snd m)"
  by (auto simp: AList.delete_eq)

lemma distinct_values_delete: "distinct (map snd m) \<Longrightarrow> distinct (map snd (AList.delete k m))"
  by (simp add: AList.delete_eq distinct_map inj_on_filter_key_eq) (auto simp: distinct_map inj_on_def)

lemma values_update:
  "set (map snd (AList.update k v m)) \<subseteq> insert v (set (map snd m))"
  by (induction m) auto

lemma distinct_values_update:
  "distinct (map snd m) \<Longrightarrow> v \<notin> set (map snd m) \<Longrightarrow> distinct (map snd (AList.update k v m))"
proof (induction m)
  case (Cons p m)
  then show ?case using values_update [of k v m] by (cases p) auto
qed simp

lemma value_gone_delete:
  "distinct (map snd m) \<Longrightarrow> map_of m k = Some v \<Longrightarrow> v \<notin> set (map snd (AList.delete k m))"
proof
  assume d: "distinct (map snd m)" and k: "map_of m k = Some v"
    and "v \<in> set (map snd (AList.delete k m))"
  then obtain k' where "(k', v) \<in> set m" "k' \<noteq> k" by (auto simp: AList.delete_eq)
  moreover have "(k, v) \<in> set m" using k by (rule map_of_SomeD)
  ultimately show False
    using d inj_onD [of snd "set m" "(k', v)" "(k, v)"] by (simp add: distinct_map)
qed

lemma client_step_inv: "client_step r r' \<Longrightarrow> client_inv r \<Longrightarrow> client_inv r'"
proof (induction rule: client_step.induct)
  case (check r name params)
  then show ?case by (simp add: client_inv_def)
next
  case (enter r k name params i frame inner')
  let ?m = "pending (inner_of r)" and ?i = "next_id (inner_of r)"
  from enter.hyps have i': "inner' = (inner_of r)\<lparr>next_id := ?i + 1,
      pending := AList.update ?i (chans r) ?m\<rparr>"
    by (auto simp: call_enter_def Let_def)
  have "chans r \<notin> set (map snd ?m)" "distinct (map snd ?m)"
    using enter.prems by (auto simp: client_inv_def chan_inv_def)
  then show ?case
    using enter.prems chan_inv_enter [OF _ distinct_values_update values_update]
    by (simp add: client_inv_def i')
next
  case (finish r i)
  then have "distinct (map snd (pending (inner_of r)))" by (simp add: client_inv_def chan_inv_def)
  with finish show ?case
    using chan_inv_subset [OF _ distinct_values_delete values_delete]
    by (simp add: client_inv_def guard_drop_def)
next
  case (reply r i res inner')
  let ?m = "pending (inner_of r)"
  have d: "distinct (map snd ?m)" using reply.prems by (simp add: client_inv_def chan_inv_def)
  show ?case
  proof (cases "map_of ?m i")
    case None
    with reply have "inner' = (inner_of r)\<lparr>pending := AList.delete i ?m\<rparr>" by auto
    then show ?thesis
      using reply.prems chan_inv_subset [OF _ distinct_values_delete values_delete] d
      by (simp add: client_inv_def)
  next
    case (Some c)
    with reply have i': "inner' = (inner_of r)\<lparr>pending := AList.delete i ?m,
      answers := answers (inner_of r) @ [(c, res)]\<rparr>" by auto
    have c: "c \<in> set (map snd ?m)" using map_of_SomeD [OF Some] by force
    have "set (map snd (AList.delete i ?m)) \<subseteq> set (map snd ?m) - {c}"
      using values_delete [of i ?m] value_gone_delete [OF d Some] by blast
    then show ?thesis
      using reply.prems chan_inv_answer [OF _ distinct_values_delete [OF d] _ c]
      by (simp add: client_inv_def i')
  qed
next
  case (close r inner')
  let ?f = "\<lambda>(_ :: u64, c). (c, Inl closed_error :: jvalue result)"
  have f: "map (fst \<circ> ?f) (pending (inner_of r)) = map snd (pending (inner_of r))"
    by (rule map_cong) auto
  have i': "inner' = (inner_of r)\<lparr>closed := True, pending := [],
      answers := answers (inner_of r) @ map ?f (pending (inner_of r))\<rparr>"
    using close.hyps by simp
  show ?case
    using chan_inv_drain close.prems by (simp add: client_inv_def i' f)
qed

lemma client_reachable_inv: "client_reachable r \<Longrightarrow> client_inv r"
proof (induction rule: client_reachable.induct)
  case start
  show ?case by (simp add: client_inv_def chan_inv_def client_start_def connected_def)
next
  case (step r r')
  then show ?case by (blast intro: client_step_inv)
qed

text \<open>A client call is answered at most once, whatever the interleaving of new calls, replies,
  ends of calls and closes.\<close>

theorem client_answered_at_most_once:
  assumes "client_reachable r"
  shows "distinct (map fst (answers (inner_of r)))"
  using client_reachable_inv [OF assms] by (simp add: client_inv_def chan_inv_def)

theorem client_answered_at_most_once_witness:
  "distinct (map fst (answers (inner_of
     (client_start\<lparr>inner_of := connected\<lparr>closed := True, pending := [], answers := [(0, Inl closed_error)], next_id := 1\<rparr>,
        checked := 0, chans := 1\<rparr>))))"
proof -
  let ?r1 = "client_start\<lparr>checked := 1\<rparr>"
  let ?i2 = "connected\<lparr>next_id := 1, pending := [(0, 0)]\<rparr>"
  let ?r2 = "?r1\<lparr>inner_of := ?i2, checked := 0, chans := 1\<rparr>"
  let ?i3 = "?i2\<lparr>closed := True, pending := [], answers := [(0, Inl closed_error)]\<rparr>"
  let ?r3 = "?r2\<lparr>inner_of := ?i3\<rparr>"
  have 1: "client_step client_start ?r1"
    using client_step.check [of client_start "[]" JNull] by (simp add: client_start_def connected_def)
  obtain i frame where e: "call_enter (inner_of ?r1) (chans ?r1) [] JNull = (i, frame, ?i2)"
    by (auto simp: call_enter_def Let_def client_start_def connected_def)
  have 2: "client_step ?r1 ?r2" using client_step.enter [of ?r1 0 "[]" JNull, OF _ e] by (simp add: client_start_def)
  have 3: "client_step ?r2 ?r3" by (rule client_step.close) (simp add: connected_def)
  have "client_reachable ?r3"
    using client_reachable.step [OF client_reachable.step [OF client_reachable.step [OF client_reachable.start 1] 2] 3] .
  from client_answered_at_most_once [OF this] show ?thesis by (simp add: client_start_def)
qed

lemma fail_pending_answers_all:
  assumes "fail_pending (Connected inner) = Connected inner'"
  shows "pending inner' = [] \<and> closed inner' \<and>
    (\<forall>i c. map_of (pending inner) i = Some c \<longrightarrow> (c, Inl closed_error) \<in> set (answers inner'))"
proof -
  have "(c, Inl closed_error :: jvalue result) \<in> set (map (\<lambda>(_, c). (c, Inl closed_error)) (pending inner))"
    if "map_of (pending inner) i = Some c" for i c
    using map_of_SomeD [OF that] by force
  then show ?thesis using assms by auto
qed

text \<open>The flag is read before the call enters the map and the two are not one step: a call that
  read it as false can enter the map after \<^const>\<open>fail_pending\<close> drained it, and then waits out
  its timeout on a closed session.\<close>

theorem call_can_enter_after_close:
  "\<exists>r. client_reachable r \<and> closed (inner_of r) \<and> pending (inner_of r) \<noteq> []"
proof -
  let ?r1 = "client_start\<lparr>checked := 1\<rparr>"
  let ?i2 = "connected\<lparr>closed := True\<rparr>"
  let ?r2 = "?r1\<lparr>inner_of := ?i2\<rparr>"
  let ?i3 = "?i2\<lparr>next_id := 1, pending := [(0, 0)]\<rparr>"
  let ?r3 = "?r2\<lparr>inner_of := ?i3, checked := 0, chans := 1\<rparr>"
  have "client_step client_start ?r1"
    using client_step.check [of client_start "[]" JNull] by (simp add: client_start_def connected_def)
  moreover have "client_step ?r1 ?r2"
    by (rule client_step.close) (simp add: client_start_def connected_def)
  moreover have "client_step ?r2 ?r3"
  proof -
    have "call_enter (inner_of ?r2) (chans ?r2) [] JNull = (0, snd (0 :: u64, fst (snd (call_enter (inner_of ?r2) (chans ?r2) [] JNull))), ?i3)"
      by (simp add: call_enter_def Let_def client_start_def connected_def)
    then show ?thesis using client_step.enter [of ?r2 0 "[]" JNull 0 _ ?i3] by (simp add: client_start_def)
  qed
  ultimately have "client_reachable ?r3"
    by (meson client_reachable.intros)
  then show ?thesis by (intro exI [of _ ?r3]) simp
qed

end
