(* ===== verification/Broker.thy ===== *)
theory Broker
  imports RouterError
begin

text \<open>
  The cross-node broker seam and its in-process implementation,
  \<^verbatim>\<open>crates/router/src/pubsub/broker.rs\<close>.

  The trait object a hub holds is the record \<^verbatim>\<open>broker_ops\<close> over a state type \<^verbatim>\<open>'w\<close>. What the
  hub relies on, that a node's interest is exactly what was subscribed and not unsubscribed
  since, is the locale \<^verbatim>\<open>interest_broker\<close>; the in-process broker is shown to satisfy it.
\<close>

text \<open>Why \<^verbatim>\<open>tokio\<close>'s bounded channel refuses a message.\<close>

datatype try_send_error = Full | Closed

record 'w broker_ops =
  br_subscribe :: "string \<Rightarrow> 'w \<Rightarrow> 'w"
  br_unsubscribe :: "string \<Rightarrow> 'w \<Rightarrow> 'w"
  br_validate :: "string \<Rightarrow> string \<Rightarrow> unit result"
  br_publish :: "string \<Rightarrow> string \<Rightarrow> 'w \<Rightarrow> unit result \<times> 'w"

text \<open>The trait's default \<^verbatim>\<open>validate\<close>: no limit.\<close>

definition default_validate :: "string \<Rightarrow> string \<Rightarrow> unit result" where
  "default_validate topic payload = Inr ()"

subsection \<open>The in-process bus\<close>

text \<open>
  A node slot on the bus; a sink is the address of the hub attached to it. \<^verbatim>\<open>delivered\<close> is the
  list of deliveries the bus made: \<^verbatim>\<open>sink.deliver(topic, payload)\<close>, in order.
\<close>

record bus_node =
  sink :: "nat option"
  interest :: "string list"

record bus =
  bus_nodes :: "bus_node list"
  delivered :: "(nat \<times> string \<times> string) list"

definition default_node :: bus_node where
  "default_node = \<lparr>sink = None, interest = []\<rparr>"

definition bus_new :: "bus \<times> nat" where
  "bus_new = (\<lparr>bus_nodes = [default_node], delivered = []\<rparr>, 0)"

definition bus_link :: "bus \<Rightarrow> bus \<times> nat" where
  "bus_link b = (let nodes = bus_nodes b @ [default_node]
                 in (b\<lparr>bus_nodes := nodes\<rparr>, length nodes - 1))"

text \<open>\<^verbatim>\<open>with_node\<close>: runs the closure on this node's slot, or on a detached one.\<close>

definition with_node :: "nat \<Rightarrow> (bus_node \<Rightarrow> bus_node) \<Rightarrow> bus \<Rightarrow> bus" where
  "with_node index f b =
     (if index < length (bus_nodes b)
      then b\<lparr>bus_nodes := (bus_nodes b)[index := f (bus_nodes b ! index)]\<rparr> else b)"

definition has_interest :: "nat \<Rightarrow> string \<Rightarrow> bus \<Rightarrow> bool" where
  "has_interest index topic b =
     (topic \<in> set (interest (if index < length (bus_nodes b) then bus_nodes b ! index else default_node)))"

definition peers :: "nat \<Rightarrow> string \<Rightarrow> bus \<Rightarrow> nat list" where
  "peers index topic b =
     List.map_filter (\<lambda>(_, node). sink node)
       (filter (\<lambda>(i, node). i \<noteq> index \<and> topic \<in> set (interest node))
          (enumerate 0 (bus_nodes b)))"

definition mem_attach :: "nat \<Rightarrow> nat \<Rightarrow> bus \<Rightarrow> bus" where
  "mem_attach index s = with_node index (\<lambda>node. node\<lparr>sink := Some s\<rparr>)"

definition mem_subscribe :: "nat \<Rightarrow> string \<Rightarrow> bus \<Rightarrow> bus" where
  "mem_subscribe index topic = with_node index (\<lambda>node. node\<lparr>interest := List.insert topic (interest node)\<rparr>)"

definition mem_unsubscribe :: "nat \<Rightarrow> string \<Rightarrow> bus \<Rightarrow> bus" where
  "mem_unsubscribe index topic = with_node index (\<lambda>node. node\<lparr>interest := removeAll topic (interest node)\<rparr>)"

definition mem_publish :: "nat \<Rightarrow> string \<Rightarrow> string \<Rightarrow> bus \<Rightarrow> unit result \<times> bus" where
  "mem_publish index topic payload b =
     (Inr (), b\<lparr>delivered := delivered b @ map (\<lambda>s. (s, topic, payload)) (peers index topic b)\<rparr>)"

definition mem_broker :: "nat \<Rightarrow> bus broker_ops" where
  "mem_broker index =
     \<lparr>br_subscribe = mem_subscribe index, br_unsubscribe = mem_unsubscribe index,
      br_validate = default_validate, br_publish = mem_publish index\<rparr>"

text \<open>
  \<^verbatim>\<open>call\<close>: the peers are asked in turn and the first that holds the device answers; \<^term>\<open>ask\<close> is
  the answer of a peer's sink, \<^term>\<open>None\<close> for a node that does not hold it. The timeout, when
  it fires first, replaces the answer.
\<close>

definition no_subscriber :: error where
  "no_subscriber = coded 404 ''not_found'' ''no connection subscribed to the topic''"

fun first_answer :: "(nat \<Rightarrow> 'v result option) \<Rightarrow> nat list \<Rightarrow> 'v result" where
  "first_answer ask [] = Inl no_subscriber"
| "first_answer ask (s # ss) = (case ask s of Some r \<Rightarrow> r | None \<Rightarrow> first_answer ask ss)"

definition mem_call :: "nat \<Rightarrow> (nat \<Rightarrow> 'v result option) \<Rightarrow> string \<Rightarrow> bool \<Rightarrow> bus \<Rightarrow> 'v result" where
  "mem_call index ask topic timed_out b =
     (if timed_out then Inl (coded 504 ''timeout'' ''client action timed out'')
      else first_answer ask (peers index topic b))"

subsection \<open>What a hub relies on\<close>

locale interest_broker =
  fixes sub :: "string \<Rightarrow> 'w \<Rightarrow> 'w"
    and unsub :: "string \<Rightarrow> 'w \<Rightarrow> 'w"
    and wants :: "'w \<Rightarrow> string set"
    and ok :: "'w \<Rightarrow> bool"
  assumes wants_sub: "ok w \<Longrightarrow> wants (sub t w) = insert t (wants w)"
    and wants_unsub: "ok w \<Longrightarrow> wants (unsub t w) = wants w - {t}"
    and ok_sub: "ok w \<Longrightarrow> ok (sub t w)"
    and ok_unsub: "ok w \<Longrightarrow> ok (unsub t w)"
begin

lemmas broker_laws = wants_sub wants_unsub ok_sub ok_unsub

end

definition bus_wants :: "nat \<Rightarrow> bus \<Rightarrow> string set" where
  "bus_wants index b = {t. has_interest index t b}"

definition bus_ok :: "nat \<Rightarrow> bus \<Rightarrow> bool" where
  "bus_ok index b \<longleftrightarrow> index < length (bus_nodes b)"

interpretation mem: interest_broker "mem_subscribe index" "mem_unsubscribe index" "bus_wants index" "bus_ok index"
  by unfold_locales
     (auto simp: mem_subscribe_def mem_unsubscribe_def with_node_def bus_wants_def bus_ok_def has_interest_def)

text \<open>A node never receives its own publishes; another node receives one exactly when interested.\<close>

lemma set_peers:
  "s \<in> set (peers index topic b) \<longleftrightarrow>
     (\<exists>i < length (bus_nodes b). i \<noteq> index \<and> topic \<in> set (interest (bus_nodes b ! i)) \<and>
        sink (bus_nodes b ! i) = Some s)"
  by (force simp: peers_def List.map_filter_def in_set_enumerate_eq)

end
