(* ===== verification/Hub.thy ===== *)
theory Hub
  imports Channel Frames SessionConfig ClientCalls Broker
begin

text \<open>
  The hub: this node's index from topics to subscribers and the fan-out,
  \<^verbatim>\<open>crates/router/src/pubsub/hub/state.rs\<close> and \<^verbatim>\<open>crates/router/src/pubsub/hub.rs\<close>.

  The state behind the hub's locks is the record \<^verbatim>\<open>inner\<close>, and each operation is a function on
  it. Shared objects are addresses: a client handle and a closer (a \<^verbatim>\<open>watch\<close> cell with the close
  reason) are looked up in \<^verbatim>\<open>clients\<close> and \<^verbatim>\<open>closers\<close>. A session's outgoing queue is tokio's
  bounded channel, which is not part of the program: \<^verbatim>\<open>'tx\<close> is the sender handle, \<^verbatim>\<open>'w\<close> the state
  of queues and broker, and \<^verbatim>\<open>try_send\<close> an argument of the operations that send.

  One function is one lock-protected block: the slow subscribers a block collects are closed
  after it, each by a block of its own, as the code does.
\<close>

unbundle bit_operations_syntax

definition SHARDS :: nat where "SHARDS = 64"
definition REVOCATION_SLOTS :: nat where "REVOCATION_SLOTS = 256"
definition JS_SAFE :: u64 where "JS_SAFE = push_bit 53 1 - 1"

type_synonym conn_id = u64
type_synonym ('tx, 'w) sender = "'tx \<Rightarrow> string \<Rightarrow> 'w \<Rightarrow> bool \<times> 'w"

record cursor =
  epoch :: u64
  seq :: u64

record 'tx topic_state =
  subscribers :: "(conn_id, 'tx) hashmap"
  cursor_of :: cursor

record 'tx conn =
  c_tx :: 'tx
  c_client :: nat
  c_closer :: nat
  c_authenticated :: bool
  c_user :: "string option"
  c_device :: "(string \<times> string) option"
  c_topics :: "(string, bool) hashmap"
  c_explicit :: nat

record 'tx conns =
  by_id :: "(conn_id, 'tx conn) hashmap"
  per_user :: "(string, nat) hashmap"
  devices :: "(string, conn_id) hashmap"

record subscribe_req =
  rq_explicit :: bool
  rq_max :: nat
  rq_mark :: "u64 option"
  rq_ack :: "(cursor \<Rightarrow> string) option"

record ('tx, 'w) inner =
  shards :: "(string, 'tx topic_state) hashmap list"
  revocations :: "u64 list"
  hasher :: "string \<Rightarrow> u64"
  conns :: "'tx conns"
  next_conn :: conn_id
  epoch_base :: u64
  next_epoch :: u64
  broker :: "'w broker_ops"
  world :: 'w
  clients :: "nat \<Rightarrow> client_handle"
  closers :: "nat \<Rightarrow> close_reason option"

definition gone :: error where
  "gone = coded 410 ''gone'' ''connection closed''"

definition inner_new :: "'w broker_ops \<Rightarrow> 'w \<Rightarrow> (string \<Rightarrow> u64) \<Rightarrow> u64 \<Rightarrow> ('tx, 'w) inner" where
  "inner_new brk w hash base =
     \<lparr>shards = replicate SHARDS [], revocations = replicate REVOCATION_SLOTS 0, hasher = hash,
      conns = \<lparr>by_id = [], per_user = [], devices = []\<rparr>, next_conn = 1, epoch_base = base,
      next_epoch = 0, broker = brk, world = w, clients = (\<lambda>_. Disconnected), closers = (\<lambda>_. None)\<rparr>"

subsection \<open>Shards, revocation marks and epochs\<close>

definition slot :: "('tx, 'w) inner \<Rightarrow> string \<Rightarrow> nat \<Rightarrow> nat" where
  "slot st topic slots = unat (hasher st topic) mod slots"

definition shard_index :: "('tx, 'w) inner \<Rightarrow> string \<Rightarrow> nat" where
  "shard_index st topic =
     (let index = slot st topic SHARDS in if index < length (shards st) then index else 0)"

definition read_shard :: "('tx, 'w) inner \<Rightarrow> string \<Rightarrow> (string, 'tx topic_state) hashmap" where
  "read_shard st topic = shards st ! shard_index st topic"

definition write_shard ::
  "('tx, 'w) inner \<Rightarrow> string \<Rightarrow> (string, 'tx topic_state) hashmap \<Rightarrow> ('tx, 'w) inner" where
  "write_shard st topic shard = st\<lparr>shards := (shards st)[shard_index st topic := shard]\<rparr>"

definition revocation :: "('tx, 'w) inner \<Rightarrow> string \<Rightarrow> nat option" where
  "revocation st topic =
     (let index = slot st topic REVOCATION_SLOTS
      in if index < length (revocations st) then Some index else None)"

definition revocation_mark :: "('tx, 'w) inner \<Rightarrow> string \<Rightarrow> u64" where
  "revocation_mark st topic =
     (case revocation st topic of None \<Rightarrow> 0 | Some index \<Rightarrow> revocations st ! index)"

definition revoke :: "('tx, 'w) inner \<Rightarrow> string \<Rightarrow> ('tx, 'w) inner" where
  "revoke st topic =
     (case revocation st topic of
        None \<Rightarrow> st
      | Some index \<Rightarrow> st\<lparr>revocations := (revocations st)[index := revocations st ! index + 1]\<rparr>)"

definition new_epoch :: "('tx, 'w) inner \<Rightarrow> u64 \<times> ('tx, 'w) inner" where
  "new_epoch st =
     (let step = next_epoch st
      in ((epoch_base st + step) AND JS_SAFE, st\<lparr>next_epoch := step + 1\<rparr>))"

definition has_topic :: "('tx, 'w) inner \<Rightarrow> string \<Rightarrow> bool" where
  "has_topic st topic \<longleftrightarrow> map_of (read_shard st topic) topic \<noteq> None"

subsection \<open>Small updates the operations share\<close>

definition set_by_id :: "('tx, 'w) inner \<Rightarrow> (conn_id, 'tx conn) hashmap \<Rightarrow> ('tx, 'w) inner" where
  "set_by_id st m = st\<lparr>conns := (conns st)\<lparr>by_id := m\<rparr>\<rparr>"

definition put_conn :: "('tx, 'w) inner \<Rightarrow> conn_id \<Rightarrow> 'tx conn \<Rightarrow> ('tx, 'w) inner" where
  "put_conn st cid c = set_by_id st (AList.update cid c (by_id (conns st)))"

definition get_conn :: "('tx, 'w) inner \<Rightarrow> conn_id \<Rightarrow> 'tx conn option" where
  "get_conn st cid = map_of (by_id (conns st)) cid"

definition try_send_to :: "('tx, 'w) sender \<Rightarrow> 'tx \<Rightarrow> string \<Rightarrow> ('tx, 'w) inner \<Rightarrow> bool \<times> ('tx, 'w) inner" where
  "try_send_to try_send tx frame st =
     (let (sent, w) = try_send tx frame (world st) in (sent, st\<lparr>world := w\<rparr>))"

text \<open>The first close reason is kept.\<close>

definition signal :: "close_reason option \<Rightarrow> close_reason \<Rightarrow> close_reason option" where
  "signal current reason = (if current = None then Some reason else current)"

definition signal_at :: "('tx, 'w) inner \<Rightarrow> nat \<Rightarrow> close_reason \<Rightarrow> ('tx, 'w) inner" where
  "signal_at st a reason = st\<lparr>closers := (closers st)(a := signal (closers st a) reason)\<rparr>"

definition fail_pending_at :: "('tx, 'w) inner \<Rightarrow> nat \<Rightarrow> ('tx, 'w) inner" where
  "fail_pending_at st a = st\<lparr>clients := (clients st)(a := fail_pending (clients st a))\<rparr>"

subsection \<open>Subscribing\<close>

definition subscription_revoked :: error where
  "subscription_revoked =
     coded 409 ''subscription_revoked'' ''access changed while subscribing; retry''"

definition too_many_subscriptions :: error where
  "too_many_subscriptions =
     coded 429 ''too_many_subscriptions'' ''subscription limit reached''"

text \<open>Creating the topic's state when this is its first subscriber.\<close>

definition ensure_topic :: "('tx, 'w) inner \<Rightarrow> string \<Rightarrow> ('tx, 'w) inner" where
  "ensure_topic st topic =
     (if map_of (read_shard st topic) topic \<noteq> None then st
      else
        let st = st\<lparr>world := br_subscribe (broker st) topic (world st)\<rparr>;
            (e, st) = new_epoch st;
            state = \<lparr>subscribers = [], cursor_of = \<lparr>epoch = e, seq = 0\<rparr>\<rparr>
        in write_shard st topic (AList.update topic state (read_shard st topic)))"

definition subscribe_locked ::
  "('tx, 'w) sender \<Rightarrow> ('tx, 'w) inner \<Rightarrow> conn_id \<Rightarrow> string \<Rightarrow> subscribe_req \<Rightarrow> conn_id list \<Rightarrow>
     cursor result \<times> ('tx, 'w) inner \<times> conn_id list" where
  "subscribe_locked try_send st cid topic request slow =
     (case get_conn st cid of
        None \<Rightarrow> (Inl gone, st, slow)
      | Some c \<Rightarrow>
          if (case rq_mark request of None \<Rightarrow> False | Some mark \<Rightarrow> mark \<noteq> revocation_mark st topic)
          then (Inl subscription_revoked, st, slow)
          else
            let already = map_of (c_topics c) topic \<noteq> None
            in if \<not> already \<and> rq_explicit request \<and> c_explicit c \<ge> rq_max request
               then (Inl too_many_subscriptions, st, slow)
               else
                 let st = ensure_topic st topic
                 in case map_of (read_shard st topic) topic of
                      None \<Rightarrow> (Inl gone, st, slow)
                    | Some state \<Rightarrow>
                        let st =
                              (if already then st
                               else
                                 put_conn
                                   (write_shard st topic
                                      (AList.update topic
                                         (state\<lparr>subscribers := AList.update cid (c_tx c) (subscribers state)\<rparr>)
                                         (read_shard st topic)))
                                   cid
                                   (c\<lparr>c_topics := AList.update topic (rq_explicit request) (c_topics c),
                                      c_explicit := c_explicit c + (if rq_explicit request then 1 else 0)\<rparr>));
                            cur = cursor_of state
                        in case rq_ack request of
                             None \<Rightarrow> (Inr cur, st, slow)
                           | Some ack \<Rightarrow>
                               let (sent, st) = try_send_to try_send (c_tx c) (ack cur) st
                               in (Inr cur, st, if sent then slow else slow @ [cid]))"

subsection \<open>Detaching and closing\<close>

definition drop_subscriber :: "('tx, 'w) inner \<Rightarrow> string \<Rightarrow> conn_id \<Rightarrow> ('tx, 'w) inner" where
  "drop_subscriber st topic cid =
     (case map_of (read_shard st topic) topic of
        None \<Rightarrow> st
      | Some state \<Rightarrow>
          let subs = AList.delete cid (subscribers state)
          in if subs = []
             then (let st = write_shard st topic (AList.delete topic (read_shard st topic))
                   in st\<lparr>world := br_unsubscribe (broker st) topic (world st)\<rparr>)
             else write_shard st topic
                    (AList.update topic (state\<lparr>subscribers := subs\<rparr>) (read_shard st topic)))"

fun drop_subscriptions :: "('tx, 'w) inner \<Rightarrow> string list \<Rightarrow> conn_id \<Rightarrow> ('tx, 'w) inner" where
  "drop_subscriptions st [] cid = st"
| "drop_subscriptions st (topic # rest) cid = drop_subscriptions (drop_subscriber st topic cid) rest cid"

definition dec_per_user :: "string option \<Rightarrow> (string, nat) hashmap \<Rightarrow> (string, nat) hashmap" where
  "dec_per_user u m =
     (case u of
        None \<Rightarrow> m
      | Some usr \<Rightarrow>
          (case map_of m usr of
             None \<Rightarrow> m
           | Some count \<Rightarrow>
               let count = count - 1
               in if count = 0 then AList.delete usr m else AList.update usr count m))"

definition release_device :: "(string \<times> string) option \<Rightarrow> conn_id \<Rightarrow> (string, conn_id) hashmap \<Rightarrow> (string, conn_id) hashmap" where
  "release_device dev cid m =
     (case dev of
        None \<Rightarrow> m
      | Some (d, _) \<Rightarrow> if map_of m d = Some cid then AList.delete d m else m)"

definition detach_locked :: "('tx, 'w) inner \<Rightarrow> conn_id \<Rightarrow> 'tx conn option \<times> ('tx, 'w) inner" where
  "detach_locked st cid =
     (case get_conn st cid of
        None \<Rightarrow> (None, st)
      | Some c \<Rightarrow>
          let cs = (conns st)\<lparr>by_id := AList.delete cid (by_id (conns st)),
                              per_user := dec_per_user (c_user c) (per_user (conns st)),
                              devices := release_device (c_device c) cid (devices (conns st))\<rparr>;
              st = st\<lparr>conns := cs\<rparr>;
              st = drop_subscriptions st (keys (c_topics c)) cid
          in (Some c, fail_pending_at st (c_client c)))"

definition detach :: "('tx, 'w) inner \<Rightarrow> conn_id \<Rightarrow> 'tx conn option \<times> ('tx, 'w) inner" where
  "detach st cid = detach_locked st cid"

definition close_conn :: "('tx, 'w) inner \<Rightarrow> conn_id \<Rightarrow> close_reason \<Rightarrow> ('tx, 'w) inner" where
  "close_conn st cid reason =
     (case detach st cid of
        (None, st) \<Rightarrow> st
      | (Some c, st) \<Rightarrow> signal_at st (c_closer c) reason)"

fun close_all :: "('tx, 'w) inner \<Rightarrow> conn_id list \<Rightarrow> close_reason \<Rightarrow> ('tx, 'w) inner" where
  "close_all st [] reason = st"
| "close_all st (cid # rest) reason = close_all (close_conn st cid reason) rest reason"

subsection \<open>Fan-out\<close>

text \<open>The loop over the subscribers: sends the frame to each and collects the slow ones.\<close>

fun send_each ::
  "('tx, 'w) sender \<Rightarrow> string \<Rightarrow> (conn_id, 'tx) hashmap \<Rightarrow> 'w \<Rightarrow> conn_id list \<Rightarrow> 'w \<times> conn_id list" where
  "send_each try_send frame [] w slow = (w, slow)"
| "send_each try_send frame ((cid, tx) # rest) w slow =
     (let (sent, w) = try_send tx frame w
      in send_each try_send frame rest w (if sent then slow else slow @ [cid]))"

definition fan_out_locked ::
  "('tx, 'w) sender \<Rightarrow> ('tx, 'w) inner \<Rightarrow> string \<Rightarrow> string \<Rightarrow> string \<Rightarrow> ('tx, 'w) inner \<times> conn_id list" where
  "fan_out_locked try_send st topic name params =
     (case map_of (read_shard st topic) topic of
        None \<Rightarrow> (st, [])
      | Some state \<Rightarrow>
          let cur = (cursor_of state)\<lparr>seq := (seq (cursor_of state) + 1) AND JS_SAFE\<rparr>;
              frame = publish_frame topic name params (epoch cur) (seq cur);
              (w, slow) = send_each try_send frame (subscribers state) (world st) [];
              st = write_shard st topic
                     (AList.update topic (state\<lparr>cursor_of := cur\<rparr>) (read_shard st topic))
          in (st\<lparr>world := w\<rparr>, slow))"

definition fan_out ::
  "('tx, 'w) sender \<Rightarrow> ('tx, 'w) inner \<Rightarrow> string \<Rightarrow> string \<Rightarrow> string \<Rightarrow> ('tx, 'w) inner" where
  "fan_out try_send st topic name params =
     (let (st, slow) = fan_out_locked try_send st topic name params
      in close_all st slow SlowConsumer)"

definition subscriber_ids :: "('tx, 'w) inner \<Rightarrow> string \<Rightarrow> conn_id list" where
  "subscriber_ids st topic =
     (case map_of (read_shard st topic) topic of None \<Rightarrow> [] | Some state \<Rightarrow> keys (subscribers state))"

subsection \<open>Kicking and closing topics\<close>

fun kick_each ::
  "('tx, 'w) sender \<Rightarrow> string \<Rightarrow> string \<Rightarrow> string \<Rightarrow> ('tx, 'w) inner \<Rightarrow> conn_id list \<Rightarrow> conn_id list \<Rightarrow>
     ('tx, 'w) inner \<times> conn_id list" where
  "kick_each try_send topic usr frame st [] slow = (st, slow)"
| "kick_each try_send topic usr frame st (cid # rest) slow =
     (case get_conn st cid of
        None \<Rightarrow> kick_each try_send topic usr frame st rest slow
      | Some c \<Rightarrow>
          if c_user c \<noteq> Some usr then kick_each try_send topic usr frame st rest slow
          else
            let c' = (case map_of (c_topics c) topic of
                        None \<Rightarrow> c\<lparr>c_topics := AList.delete topic (c_topics c)\<rparr>
                      | Some explicit \<Rightarrow>
                          c\<lparr>c_topics := AList.delete topic (c_topics c),
                            c_explicit := c_explicit c - (if explicit then 1 else 0)\<rparr>);
                st = put_conn st cid c';
                (sent, st) = try_send_to try_send (c_tx c') frame st;
                slow = (if sent then slow else slow @ [cid]);
                st = drop_subscriber st topic cid
            in kick_each try_send topic usr frame st rest slow)"

definition kick_locked ::
  "('tx, 'w) sender \<Rightarrow> ('tx, 'w) inner \<Rightarrow> string \<Rightarrow> string \<Rightarrow> ('tx, 'w) inner \<times> conn_id list" where
  "kick_locked try_send st topic usr =
     (let st = revoke st topic;
          ids = subscriber_ids st topic;
          frame = unsubscribed_frame topic ''kicked''
      in kick_each try_send topic usr frame st ids [])"

definition kick_local ::
  "('tx, 'w) sender \<Rightarrow> ('tx, 'w) inner \<Rightarrow> string \<Rightarrow> string \<Rightarrow> ('tx, 'w) inner" where
  "kick_local try_send st topic usr =
     (let (st, slow) = kick_locked try_send st topic usr in close_all st slow SlowConsumer)"

definition close_topic :: "('tx, 'w) inner \<Rightarrow> string \<Rightarrow> close_kind \<Rightarrow> ('tx, 'w) inner" where
  "close_topic st topic ck =
     (let ids = subscriber_ids st topic;
          reason = (case ck of Superseded \<Rightarrow> SupersededBy | Revoked \<Rightarrow> RevokedBy)
      in close_all st ids reason)"

fun find_holder :: "('tx, 'w) inner \<Rightarrow> string \<Rightarrow> conn_id list \<Rightarrow> nat option" where
  "find_holder st topic [] = None"
| "find_holder st topic (cid # rest) =
     (case get_conn st cid of
        None \<Rightarrow> find_holder st topic rest
      | Some c \<Rightarrow>
          if (case c_device c of None \<Rightarrow> False | Some (_, held) \<Rightarrow> held = topic)
          then Some (c_client c) else find_holder st topic rest)"

definition device_client :: "('tx, 'w) inner \<Rightarrow> string \<Rightarrow> nat option" where
  "device_client st topic =
     (case map_of (read_shard st topic) topic of
        None \<Rightarrow> None
      | Some state \<Rightarrow> find_holder st topic (keys (subscribers state)))"

subsection \<open>Broker reset\<close>

text \<open>The inner \<^verbatim>\<open>retain\<close> over a topic's subscribers: the kept subscribers, the state, the slow ones.\<close>

fun reset_subs ::
  "('tx, 'w) sender \<Rightarrow> string \<Rightarrow> string \<Rightarrow> string \<Rightarrow> (conn_id, 'tx) hashmap \<Rightarrow> ('tx, 'w) inner \<Rightarrow> conn_id list \<Rightarrow>
     (conn_id, 'tx) hashmap \<times> ('tx, 'w) inner \<times> conn_id list" where
  "reset_subs try_send topic reset_fr dropped [] st slow = ([], st, slow)"
| "reset_subs try_send topic reset_fr dropped ((cid, tx) # rest) st slow =
     (let c = get_conn st cid;
          explicit = (case c of
                        None \<Rightarrow> False
                      | Some c \<Rightarrow> (case map_of (c_topics c) topic of None \<Rightarrow> False | Some e \<Rightarrow> e));
          st = (case c of
                  None \<Rightarrow> st
                | Some c \<Rightarrow>
                    if explicit
                    then put_conn st cid (c\<lparr>c_topics := AList.delete topic (c_topics c),
                                            c_explicit := c_explicit c - 1\<rparr>)
                    else st);
          (sent, st) = try_send_to try_send tx (if explicit then dropped else reset_fr) st;
          slow = (if sent then slow else slow @ [cid]);
          (kept, st, slow) = reset_subs try_send topic reset_fr dropped rest st slow
      in (if explicit then kept else (cid, tx) # kept, st, slow))"

text \<open>The outer \<^verbatim>\<open>retain\<close> over one shard.\<close>

fun reset_topics ::
  "('tx, 'w) sender \<Rightarrow> (string, 'tx topic_state) hashmap \<Rightarrow> ('tx, 'w) inner \<Rightarrow> conn_id list \<Rightarrow>
     (string, 'tx topic_state) hashmap \<times> ('tx, 'w) inner \<times> conn_id list" where
  "reset_topics try_send [] st slow = ([], st, slow)"
| "reset_topics try_send ((topic, state) # rest) st slow =
     (let (e, st) = new_epoch st;
          reset_fr = reset_frame topic e;
          dropped = unsubscribed_frame topic ''reset'';
          (subs, st, slow) = reset_subs try_send topic reset_fr dropped (subscribers state) st slow;
          alive = (subs \<noteq> []);
          st = (if alive then st else st\<lparr>world := br_unsubscribe (broker st) topic (world st)\<rparr>);
          (kept, st, slow) = reset_topics try_send rest st slow
      in (if alive
          then (topic, \<lparr>subscribers = subs, cursor_of = \<lparr>epoch = e, seq = 0\<rparr>\<rparr>) # kept
          else kept, st, slow))"

fun reset_shards ::
  "('tx, 'w) sender \<Rightarrow> (string, 'tx topic_state) hashmap list \<Rightarrow> ('tx, 'w) inner \<Rightarrow> conn_id list \<Rightarrow>
     (string, 'tx topic_state) hashmap list \<times> ('tx, 'w) inner \<times> conn_id list" where
  "reset_shards try_send [] st slow = ([], st, slow)"
| "reset_shards try_send (shard # rest) st slow =
     (let (shard', st, slow) = reset_topics try_send shard st slow;
          (rest', st, slow) = reset_shards try_send rest st slow
      in (shard' # rest', st, slow))"

text \<open>The marks are moved slot by slot before the lock is taken, the walk runs under the lock.\<close>

definition reset_marks :: "('tx, 'w) inner \<Rightarrow> ('tx, 'w) inner" where
  "reset_marks st = st\<lparr>revocations := map (\<lambda>r. r + 1) (revocations st)\<rparr>"

definition reset_walk :: "('tx, 'w) sender \<Rightarrow> ('tx, 'w) inner \<Rightarrow> ('tx, 'w) inner \<times> conn_id list" where
  "reset_walk try_send st =
     (let (shs, st, slow) = reset_shards try_send (shards st) st [] in (st\<lparr>shards := shs\<rparr>, slow))"

definition reset :: "('tx, 'w) sender \<Rightarrow> ('tx, 'w) inner \<Rightarrow> ('tx, 'w) inner" where
  "reset try_send st =
     (let (st, slow) = reset_walk try_send (reset_marks st) in close_all st slow SlowConsumer)"

subsection \<open>Payloads from other nodes\<close>

definition deliver ::
  "('tx, 'w) sender \<Rightarrow> (string \<Rightarrow> incoming option) \<Rightarrow> ('tx, 'w) inner \<Rightarrow> string \<Rightarrow> string \<Rightarrow> ('tx, 'w) inner" where
  "deliver try_send from_slice st topic payload =
     (if \<not> has_topic st topic then st
      else
        case from_slice payload of
          None \<Rightarrow> st
        | Some inc \<Rightarrow>
            (case in_kick inc of
               Some usr \<Rightarrow> kick_local try_send st topic usr
             | None \<Rightarrow>
                 (case in_close inc of
                    Some ck \<Rightarrow> close_topic st topic ck
                  | None \<Rightarrow>
                      (case (in_name inc, in_params inc) of
                         (Some name, Some params) \<Rightarrow> fan_out try_send st topic name params
                       | _ \<Rightarrow> st))))"

subsection \<open>The hub's methods\<close>

text \<open>The parameters of a publish are what their \<^verbatim>\<open>Serialize\<close> implementation writes.\<close>

definition publish ::
  "('tx, 'w) sender \<Rightarrow> ('tx, 'w) inner \<Rightarrow> string \<Rightarrow> string \<Rightarrow> string + string \<Rightarrow>
     unit result \<times> ('tx, 'w) inner" where
  "publish try_send st topic name params =
     (case params of
        Inl err \<Rightarrow> (Inl (encode_err err), st)
      | Inr params \<Rightarrow>
          let payload = publish_payload name params
          in case br_validate (broker st) topic payload of
               Inl e \<Rightarrow> (Inl e, st)
             | Inr _ \<Rightarrow>
                 let st = fan_out try_send st topic name params;
                     (r, w) = br_publish (broker st) topic payload (world st)
                 in (r, st\<lparr>world := w\<rparr>))"

definition hand_to_broker :: "('tx, 'w) inner \<Rightarrow> string \<Rightarrow> string \<Rightarrow> unit result \<times> ('tx, 'w) inner" where
  "hand_to_broker st topic payload =
     (let (r, w) = br_publish (broker st) topic payload (world st) in (r, st\<lparr>world := w\<rparr>))"

definition kick_user ::
  "('tx, 'w) sender \<Rightarrow> ('tx, 'w) inner \<Rightarrow> string \<Rightarrow> string \<Rightarrow> unit result \<times> ('tx, 'w) inner" where
  "kick_user try_send st topic usr =
     hand_to_broker (kick_local try_send st topic usr) topic (kick_payload usr)"

definition close_user :: "('tx, 'w) inner \<Rightarrow> string \<Rightarrow> unit result \<times> ('tx, 'w) inner" where
  "close_user st usr =
     (case user_topic_of usr of
        Inl e \<Rightarrow> (Inl e, st)
      | Inr topic \<Rightarrow>
          let ids = map fst (filter (\<lambda>(_, c). c_user c = Some usr) (by_id (conns st)));
              st = close_all st ids RevokedBy
          in hand_to_broker st topic (close_payload Revoked))"

definition close_device :: "('tx, 'w) inner \<Rightarrow> string \<Rightarrow> string \<Rightarrow> unit result \<times> ('tx, 'w) inner" where
  "close_device st usr dev =
     (case device_topic_of usr dev of
        Inl e \<Rightarrow> (Inl e, st)
      | Inr topic \<Rightarrow> hand_to_broker (close_topic st topic Revoked) topic (close_payload Revoked))"

definition subscriber_count :: "('tx, 'w) inner \<Rightarrow> string \<Rightarrow> nat" where
  "subscriber_count st topic =
     (case map_of (read_shard st topic) topic of None \<Rightarrow> 0 | Some state \<Rightarrow> length (subscribers state))"

definition connection_count :: "('tx, 'w) inner \<Rightarrow> nat" where
  "connection_count st = length (by_id (conns st))"

definition register :: "('tx, 'w) inner \<Rightarrow> 'tx \<Rightarrow> nat \<Rightarrow> nat \<Rightarrow> conn_id \<times> ('tx, 'w) inner" where
  "register st tx client closer =
     (let cid = next_conn st;
          st = st\<lparr>next_conn := cid + 1\<rparr>;
          c = \<lparr>c_tx = tx, c_client = client, c_closer = closer, c_authenticated = False,
               c_user = None, c_device = None, c_topics = [], c_explicit = 0\<rparr>
      in (cid, put_conn st cid c))"

definition remove_conn :: "('tx, 'w) inner \<Rightarrow> conn_id \<Rightarrow> ('tx, 'w) inner" where
  "remove_conn st cid = snd (detach st cid)"

definition already_authenticated :: error where
  "already_authenticated = coded 409 ''conflict'' ''session already authenticated''"

definition too_many_connections :: error where
  "too_many_connections = coded 429 ''too_many_connections'' ''too many connections for this user''"

definition device_conflict :: error where
  "device_conflict = coded 409 ''device_conflict'' ''the device is held by another user''"

definition identity_topics ::
  "string option \<Rightarrow> string option \<Rightarrow> (string option \<times> string option) result" where
  "identity_topics usr dev =
     (case (case usr of
              None \<Rightarrow> Inr None
            | Some u \<Rightarrow> (case user_topic_of u of Inl e \<Rightarrow> Inl e | Inr t \<Rightarrow> Inr (Some t))) of
        Inl e \<Rightarrow> Inl e
      | Inr ut \<Rightarrow>
          (case dev of
             None \<Rightarrow> Inr (ut, None)
           | Some d \<Rightarrow>
               (case usr of
                  Some u \<Rightarrow>
                    (case device_topic_of u d of Inl e \<Rightarrow> Inl e | Inr t \<Rightarrow> Inr (ut, Some t))
                | None \<Rightarrow> Inl (coded 400 ''bad_request'' ''a device identity needs a user''))))"

definition auto_request :: subscribe_req where
  "auto_request = \<lparr>rq_explicit = False, rq_max = 2 ^ 64 - 1, rq_mark = None, rq_ack = None\<rparr>"

fun subscribe_auto ::
  "('tx, 'w) sender \<Rightarrow> conn_id \<Rightarrow> string list \<Rightarrow> ('tx, 'w) inner \<Rightarrow> conn_id list \<Rightarrow>
     unit result \<times> ('tx, 'w) inner \<times> conn_id list" where
  "subscribe_auto try_send cid [] st slow = (Inr (), st, slow)"
| "subscribe_auto try_send cid (topic # rest) st slow =
     (case subscribe_locked try_send st cid topic auto_request slow of
        (Inl e, st, slow) \<Rightarrow> (Inl e, st, slow)
      | (Inr _, st, slow) \<Rightarrow> subscribe_auto try_send cid rest st slow)"

text \<open>The part of \<^verbatim>\<open>authenticate\<close> that binds the identity, after the checks.\<close>

definition bind_identity ::
  "('tx, 'w) sender \<Rightarrow> ('tx, 'w) inner \<Rightarrow> conn_id \<Rightarrow> string option \<Rightarrow> string option \<Rightarrow>
     string option \<Rightarrow> string option \<Rightarrow> conn_id option \<Rightarrow>
     unit result \<times> ('tx, 'w) inner \<times> 'tx conn option \<times> conn_id list" where
  "bind_identity try_send st cid usr dev user_topic device_topic holder =
     (let (superseded, st) = (case holder of None \<Rightarrow> (None, st) | Some h \<Rightarrow> detach_locked st h);
          cs = conns st;
          cs = (case usr of
                  None \<Rightarrow> cs
                | Some u \<Rightarrow>
                    cs\<lparr>per_user := AList.update u
                         ((case map_of (per_user cs) u of None \<Rightarrow> 0 | Some n \<Rightarrow> n) + 1) (per_user cs)\<rparr>);
          dv = (case (dev, device_topic) of (Some d, Some t) \<Rightarrow> Some (d, t) | _ \<Rightarrow> None);
          cs = (case dv of
                  None \<Rightarrow> cs
                | Some (d, _) \<Rightarrow> cs\<lparr>devices := AList.update d cid (devices cs)\<rparr>);
          st = st\<lparr>conns := cs\<rparr>
      in case get_conn st cid of
           None \<Rightarrow> (Inl gone, st, superseded, [])
         | Some c \<Rightarrow>
             let st = put_conn st cid (c\<lparr>c_authenticated := True, c_user := usr, c_device := dv\<rparr>);
                 (r, st, slow) =
                   subscribe_auto try_send cid
                     (List.map_filter id [user_topic, device_topic]) st []
             in (r, st, superseded, slow))"

definition broadcast :: "('tx, 'w) inner \<Rightarrow> string \<Rightarrow> string \<Rightarrow> ('tx, 'w) inner" where
  "broadcast st topic payload = snd (hand_to_broker st topic payload)"

definition authenticate ::
  "('tx, 'w) sender \<Rightarrow> ('tx, 'w) inner \<Rightarrow> conn_id \<Rightarrow> identity \<Rightarrow> nat \<Rightarrow>
     unit result \<times> ('tx, 'w) inner" where
  "authenticate try_send st cid idn max_per_user =
     (let usr = id_user idn; dev = id_device idn
      in case identity_topics usr dev of
           Inl e \<Rightarrow> (Inl e, st)
         | Inr (user_topic, device_topic) \<Rightarrow>
             (case get_conn st cid of
                None \<Rightarrow> (Inl gone, st)
              | Some c \<Rightarrow>
                  if c_authenticated c then (Inl already_authenticated, st)
                  else if (case usr of
                             None \<Rightarrow> False
                           | Some u \<Rightarrow>
                               (case map_of (per_user (conns st)) u of None \<Rightarrow> 0 | Some n \<Rightarrow> n) \<ge> max_per_user)
                  then (Inl too_many_connections, st)
                  else
                    let holder = (case dev of None \<Rightarrow> None | Some d \<Rightarrow> map_of (devices (conns st)) d);
                        holder = (case holder of
                                    None \<Rightarrow> None
                                  | Some h \<Rightarrow> if h \<noteq> cid then Some h else None)
                    in if (case holder of
                             None \<Rightarrow> False
                           | Some h \<Rightarrow>
                               (case get_conn st h of None \<Rightarrow> None | Some hc \<Rightarrow> c_user hc) \<noteq> usr)
                       then (Inl device_conflict, st)
                       else
                         case bind_identity try_send st cid usr dev user_topic device_topic holder of
                           (Inl e, st, _, _) \<Rightarrow> (Inl e, st)
                         | (Inr _, st, superseded, slow) \<Rightarrow>
                             let st = (case superseded of
                                         None \<Rightarrow> st
                                       | Some sc \<Rightarrow> signal_at st (c_closer sc) SupersededBy);
                                 st = close_all st slow SlowConsumer;
                                 st = (case device_topic of
                                         None \<Rightarrow> st
                                       | Some t \<Rightarrow> broadcast st t (close_payload Superseded))
                             in (Inr (), st)))"

definition subscribe ::
  "('tx, 'w) sender \<Rightarrow> ('tx, 'w) inner \<Rightarrow> conn_id \<Rightarrow> string \<Rightarrow> subscribe_req \<Rightarrow>
     cursor result \<times> ('tx, 'w) inner" where
  "subscribe try_send st cid topic request =
     (let (r, st, slow) = subscribe_locked try_send st cid topic request []
      in (r, close_all st slow SlowConsumer))"

definition unsubscribe :: "('tx, 'w) inner \<Rightarrow> conn_id \<Rightarrow> string \<Rightarrow> bool \<times> ('tx, 'w) inner" where
  "unsubscribe st cid topic =
     (case get_conn st cid of
        None \<Rightarrow> (False, st)
      | Some c \<Rightarrow>
          (case map_of (c_topics c) topic of
             None \<Rightarrow> (False, st)
           | Some explicit \<Rightarrow>
               let st = put_conn st cid
                          (c\<lparr>c_topics := AList.delete topic (c_topics c),
                             c_explicit := c_explicit c - (if explicit then 1 else 0)\<rparr>)
               in (True, drop_subscriber st topic cid)))"

subsection \<open>Device calls\<close>

text \<open>Where a device call goes: to a local client handle, or through the broker.\<close>

datatype device_route = LocalCall nat | RemoteCall string string | RouteError error

definition client_call_device ::
  "(jvalue \<Rightarrow> string + string) \<Rightarrow> ('tx, 'w) inner \<Rightarrow> string \<Rightarrow> string \<Rightarrow> string \<Rightarrow> jvalue \<Rightarrow> device_route" where
  "client_call_device to_string st usr dev name params =
     (case device_topic_of usr dev of
        Inl e \<Rightarrow> RouteError e
      | Inr topic \<Rightarrow>
          (case device_client st topic of
             Some client \<Rightarrow> LocalCall client
           | None \<Rightarrow>
               (case to_string params of
                  Inl err \<Rightarrow> RouteError (encode_err err)
                | Inr txt \<Rightarrow>
                    let payload = publish_payload name txt
                    in case br_validate (broker st) topic payload of
                         Inl e \<Rightarrow> RouteError e
                       | Inr _ \<Rightarrow> RemoteCall topic payload)))"

text \<open>
  \<^verbatim>\<open>BrokerSink::call\<close> on the node asked: \<^term>\<open>None\<close> when it does not hold the device, else the
  error, or the client, name and parameters of the call to make.
\<close>

definition sink_call ::
  "(string \<Rightarrow> incoming option) \<Rightarrow> (string \<Rightarrow> string + jvalue) \<Rightarrow> ('tx, 'w) inner \<Rightarrow> string \<Rightarrow> string \<Rightarrow>
     (nat \<times> string \<times> jvalue) result option" where
  "sink_call from_slice from_str st topic payload =
     (case device_client st topic of
        None \<Rightarrow> None
      | Some client \<Rightarrow>
          Some (case from_slice payload of
                  None \<Rightarrow> Inl (coded 400 ''bad_request'' ''malformed broker call'')
                | Some inc \<Rightarrow>
                    let name = (case in_name inc of None \<Rightarrow> [] | Some n \<Rightarrow> n)
                    in case (case in_params inc of None \<Rightarrow> Inr JNull | Some raw \<Rightarrow> from_str raw) of
                         Inl err \<Rightarrow> Inl (decode err)
                       | Inr params \<Rightarrow> Inr (client, name, params)))"

end
