(* ===== verification/HubIndex.thy ===== *)
theory HubIndex
  imports Hub
begin

text \<open>
  The sharded topic index of the hub, seen as one map. \<^verbatim>\<open>tmap\<close> looks a topic up in its shard and
  \<^verbatim>\<open>sub_of\<close> the sender a connection is subscribed with; the lemmas of this theory say what the
  index operations do to these two views, so that no later proof looks at a shard.
\<close>

named_theorems frame_simps

definition tmap :: "('tx, 'w) inner \<Rightarrow> string \<Rightarrow> 'tx topic_state option" where
  "tmap st t = map_of (read_shard st t) t"

definition sub_of :: "('tx, 'w) inner \<Rightarrow> string \<Rightarrow> conn_id \<Rightarrow> 'tx option" where
  "sub_of st t i = (case tmap st t of None \<Rightarrow> None | Some s \<Rightarrow> map_of (subscribers s) i)"

definition topic_ok :: "'tx topic_state \<Rightarrow> bool" where
  "topic_ok s \<longleftrightarrow> hm_wf (subscribers s) \<and> subscribers s \<noteq> [] \<and>
     epoch (cursor_of s) \<le> JS_SAFE \<and> seq (cursor_of s) \<le> JS_SAFE"

text \<open>Every topic is in the shard its hash selects, once.\<close>

definition shards_ok :: "('tx, 'w) inner \<Rightarrow> bool" where
  "shards_ok st \<longleftrightarrow> length (shards st) = SHARDS \<and>
     (\<forall>k < SHARDS. hm_wf (shards st ! k) \<and> (\<forall>t s. map_of (shards st ! k) t = Some s \<longrightarrow> shard_index st t = k))"

definition index_ok :: "('tx, 'w) inner \<Rightarrow> bool" where
  "index_ok st \<longleftrightarrow> shards_ok st \<and> (\<forall>t s. tmap st t = Some s \<longrightarrow> topic_ok s)"

lemma shard_index_cong:
  "hasher st' = hasher st \<Longrightarrow> length (shards st') = length (shards st) \<Longrightarrow> shard_index st' = shard_index st"
  by (simp add: fun_eq_iff shard_index_def slot_def)

lemma shard_index_lt [simp]: "length (shards st) = SHARDS \<Longrightarrow> shard_index st t < SHARDS"
  by (simp add: shard_index_def slot_def SHARDS_def)

lemma shard_index_is_slot: "shards_ok st \<Longrightarrow> shard_index st t = unat (hasher st t) mod SHARDS"
  by (simp add: shards_ok_def shard_index_def slot_def SHARDS_def)

lemma index_frames [frame_simps, simp]:
  "tmap (st\<lparr>world := w\<rparr>) = tmap st" "tmap (st\<lparr>conns := c\<rparr>) = tmap st"
  "tmap (st\<lparr>next_epoch := e\<rparr>) = tmap st" "tmap (st\<lparr>revocations := r\<rparr>) = tmap st"
  "tmap (st\<lparr>clients := cl\<rparr>) = tmap st" "tmap (st\<lparr>closers := co\<rparr>) = tmap st"
  "tmap (st\<lparr>next_conn := n\<rparr>) = tmap st"
  by (simp_all add: fun_eq_iff tmap_def read_shard_def shard_index_def slot_def)

lemma sub_frames [frame_simps, simp]:
  "sub_of (st\<lparr>world := w\<rparr>) = sub_of st" "sub_of (st\<lparr>conns := c\<rparr>) = sub_of st"
  "sub_of (st\<lparr>next_epoch := e\<rparr>) = sub_of st" "sub_of (st\<lparr>revocations := r\<rparr>) = sub_of st"
  "sub_of (st\<lparr>clients := cl\<rparr>) = sub_of st" "sub_of (st\<lparr>closers := co\<rparr>) = sub_of st"
  "sub_of (st\<lparr>next_conn := n\<rparr>) = sub_of st"
  by (simp_all add: fun_eq_iff sub_of_def)

lemma index_ok_cong:
  "shards st' = shards st \<Longrightarrow> hasher st' = hasher st \<Longrightarrow> index_ok st' = index_ok st"
  by (simp add: index_ok_def shards_ok_def tmap_def read_shard_def shard_index_def slot_def)

lemma index_ok_frames [frame_simps, simp]:
  "index_ok (st\<lparr>world := w\<rparr>) = index_ok st" "index_ok (st\<lparr>conns := c\<rparr>) = index_ok st"
  "index_ok (st\<lparr>next_epoch := e\<rparr>) = index_ok st" "index_ok (st\<lparr>revocations := r\<rparr>) = index_ok st"
  "index_ok (st\<lparr>clients := cl\<rparr>) = index_ok st" "index_ok (st\<lparr>closers := co\<rparr>) = index_ok st"
  "index_ok (st\<lparr>next_conn := n\<rparr>) = index_ok st"
  by (rule index_ok_cong; simp)+

subsection \<open>Replacing one shard\<close>

lemma replace_shard:
  assumes ok: "shards_ok st" and k: "k < SHARDS" and wf: "hm_wf xs"
    and ix: "\<And>t s. map_of xs t = Some s \<Longrightarrow> shard_index st t = k"
  shows "shards_ok (st\<lparr>shards := (shards st)[k := xs]\<rparr>)"
    and "tmap (st\<lparr>shards := (shards st)[k := xs]\<rparr>) t = (if shard_index st t = k then map_of xs t else tmap st t)"
proof -
  let ?st = "st\<lparr>shards := (shards st)[k := xs]\<rparr>"
  have len: "length (shards st) = SHARDS" using ok by (simp add: shards_ok_def)
  have si: "shard_index ?st = shard_index st" by (rule shard_index_cong) simp_all
  show "shards_ok ?st"
    using ok k wf ix len unfolding shards_ok_def si by (auto simp: nth_list_update)
  show "tmap ?st t = (if shard_index st t = k then map_of xs t else tmap st t)"
    using len k shard_index_lt [OF len, of t] by (simp add: tmap_def read_shard_def si nth_list_update)
qed

lemma write_shard_eq:
  "write_shard st t xs = st\<lparr>shards := (shards st)[shard_index st t := xs]\<rparr>"
  by (simp add: write_shard_def)

lemma put_topic:
  assumes ok: "shards_ok st"
  shows "shards_ok (write_shard st t (AList.update t s (read_shard st t)))"
    and "tmap (write_shard st t (AList.update t s (read_shard st t))) = (tmap st)(t \<mapsto> s)"
proof -
  let ?xs = "AList.update t s (read_shard st t)"
  have len: "length (shards st) = SHARDS" using ok by (simp add: shards_ok_def)
  have k: "shard_index st t < SHARDS" using len by simp
  have wf: "hm_wf ?xs" using ok k by (simp add: shards_ok_def read_shard_def)
  have ix: "shard_index st t' = shard_index st t" if "map_of ?xs t' = Some s'" for t' s'
    using ok k that by (auto simp: shards_ok_def read_shard_def split: if_splits)
  show "shards_ok (write_shard st t ?xs)"
    unfolding write_shard_eq by (rule replace_shard [OF ok k wf ix])
  have "tmap (write_shard st t ?xs) t' =
      (if shard_index st t' = shard_index st t then map_of ?xs t' else tmap st t')" for t'
    unfolding write_shard_eq by (rule replace_shard(2) [OF ok k wf ix])
  moreover have "(if shard_index st t' = shard_index st t then map_of ?xs t' else tmap st t') =
      ((tmap st)(t \<mapsto> s)) t'" for t'
    by (simp add: tmap_def read_shard_def)
  ultimately have "tmap (write_shard st t ?xs) t' = ((tmap st)(t \<mapsto> s)) t'" for t' by simp
  then show "tmap (write_shard st t ?xs) = (tmap st)(t \<mapsto> s)" by (rule ext)
qed

lemma del_topic:
  assumes ok: "shards_ok st"
  shows "shards_ok (write_shard st t (AList.delete t (read_shard st t)))"
    and "tmap (write_shard st t (AList.delete t (read_shard st t))) = (tmap st)(t := None)"
proof -
  let ?xs = "AList.delete t (read_shard st t)"
  have len: "length (shards st) = SHARDS" using ok by (simp add: shards_ok_def)
  have k: "shard_index st t < SHARDS" using len by simp
  have wf: "hm_wf ?xs" using ok k by (simp add: shards_ok_def read_shard_def)
  have ix: "shard_index st t' = shard_index st t" if "map_of ?xs t' = Some s'" for t' s'
    using ok k that by (auto simp: shards_ok_def read_shard_def split: if_splits)
  show "shards_ok (write_shard st t ?xs)"
    unfolding write_shard_eq by (rule replace_shard [OF ok k wf ix])
  have "tmap (write_shard st t ?xs) t' =
      (if shard_index st t' = shard_index st t then map_of ?xs t' else tmap st t')" for t'
    unfolding write_shard_eq by (rule replace_shard(2) [OF ok k wf ix])
  moreover have "(if shard_index st t' = shard_index st t then map_of ?xs t' else tmap st t') =
      ((tmap st)(t := None)) t'" for t'
    by (simp add: tmap_def read_shard_def)
  ultimately have "tmap (write_shard st t ?xs) t' = ((tmap st)(t := None)) t'" for t' by simp
  then show "tmap (write_shard st t ?xs) = (tmap st)(t := None)" by (rule ext)
qed

lemma write_shard_fields [simp]:
  "conns (write_shard st t xs) = conns st" "hasher (write_shard st t xs) = hasher st"
  "revocations (write_shard st t xs) = revocations st" "next_conn (write_shard st t xs) = next_conn st"
  "broker (write_shard st t xs) = broker st" "world (write_shard st t xs) = world st"
  "clients (write_shard st t xs) = clients st" "closers (write_shard st t xs) = closers st"
  "next_epoch (write_shard st t xs) = next_epoch st" "epoch_base (write_shard st t xs) = epoch_base st"
  by (simp_all add: write_shard_def)

lemma index_ok_put:
  assumes "index_ok st" and "topic_ok s"
  shows "index_ok (write_shard st t (AList.update t s (read_shard st t)))"
  using assms put_topic [of st] by (auto simp: index_ok_def split: if_splits)

lemma index_ok_del:
  assumes "index_ok st"
  shows "index_ok (write_shard st t (AList.delete t (read_shard st t)))"
  using assms del_topic [of st] by (auto simp: index_ok_def split: if_splits)

lemma index_okD:
  "index_ok st \<Longrightarrow> shards_ok st"
  "index_ok st \<Longrightarrow> tmap st t = Some s \<Longrightarrow> topic_ok s"
  by (simp_all add: index_ok_def)

subsection \<open>Dropping subscribers\<close>

lemma drop_subscriber_fields [simp]:
  "conns (drop_subscriber st t i) = conns st" "hasher (drop_subscriber st t i) = hasher st"
  "revocations (drop_subscriber st t i) = revocations st" "next_conn (drop_subscriber st t i) = next_conn st"
  "broker (drop_subscriber st t i) = broker st" "clients (drop_subscriber st t i) = clients st"
  "closers (drop_subscriber st t i) = closers st" "next_epoch (drop_subscriber st t i) = next_epoch st"
  by (simp_all add: drop_subscriber_def Let_def split: option.splits)

lemma drop_subscriber_index:
  assumes ok: "index_ok st"
  shows "index_ok (drop_subscriber st t i)"
    and "sub_of (drop_subscriber st t i) t' i' = (if t' = t \<and> i' = i then None else sub_of st t' i')"
proof -
  have sh: "shards_ok st" using ok by (rule index_okD)
  have "index_ok (drop_subscriber st t i) \<and>
    sub_of (drop_subscriber st t i) t' i' = (if t' = t \<and> i' = i then None else sub_of st t' i')"
  proof (cases "tmap st t")
    case None
    then show ?thesis using ok by (simp add: drop_subscriber_def tmap_def [symmetric] sub_of_def)
  next
    case (Some s)
    have s: "topic_ok s" using ok Some by (rule index_okD)
    let ?subs = "AList.delete i (subscribers s)"
    show ?thesis
    proof (cases "?subs = []")
      case True
      then have "drop_subscriber st t i =
          (write_shard st t (AList.delete t (read_shard st t)))
            \<lparr>world := br_unsubscribe (broker st) t (world st)\<rparr>"
        using Some by (simp add: drop_subscriber_def tmap_def [symmetric] Let_def)
      moreover have "map_of (subscribers s) j = None" if "j \<noteq> i" for j
        using True that map_of_delete [of i "subscribers s"] by (metis fun_upd_apply map_of.simps(1))
      ultimately show ?thesis
        using ok Some by (auto simp: index_ok_del sub_of_def del_topic(2) [OF sh] split: option.splits)
    next
      case False
      then have "drop_subscriber st t i =
          write_shard st t (AList.update t (s\<lparr>subscribers := ?subs\<rparr>) (read_shard st t))"
        using Some by (simp add: drop_subscriber_def tmap_def [symmetric] Let_def)
      moreover have "topic_ok (s\<lparr>subscribers := ?subs\<rparr>)" using s False by (simp add: topic_ok_def)
      ultimately show ?thesis
        using ok Some by (auto simp: index_ok_put sub_of_def put_topic(2) [OF sh] split: option.splits)
    qed
  qed
  then show "index_ok (drop_subscriber st t i)"
    and "sub_of (drop_subscriber st t i) t' i' = (if t' = t \<and> i' = i then None else sub_of st t' i')"
    by simp_all
qed

lemma drop_subscriptions_fields [simp]:
  "conns (drop_subscriptions st ts i) = conns st" "hasher (drop_subscriptions st ts i) = hasher st"
  "revocations (drop_subscriptions st ts i) = revocations st"
  "next_conn (drop_subscriptions st ts i) = next_conn st"
  "broker (drop_subscriptions st ts i) = broker st" "clients (drop_subscriptions st ts i) = clients st"
  "closers (drop_subscriptions st ts i) = closers st" "next_epoch (drop_subscriptions st ts i) = next_epoch st"
  by (induction st ts i rule: drop_subscriptions.induct) simp_all

lemma drop_subscriptions_index:
  assumes "index_ok st"
  shows "index_ok (drop_subscriptions st ts i)"
    and "sub_of (drop_subscriptions st ts i) t' i' =
      (if t' \<in> set ts \<and> i' = i then None else sub_of st t' i')"
  using assms
  by (induction st ts i rule: drop_subscriptions.induct) (auto simp: drop_subscriber_index)

subsection \<open>Epochs\<close>

lemma masked_le: "w AND JS_SAFE \<le> JS_SAFE"
  by (rule word_and_le1)

lemma new_epoch_fields [simp]:
  "fst (new_epoch st) \<le> JS_SAFE"
  "snd (new_epoch st) = st\<lparr>next_epoch := next_epoch st + 1\<rparr>"
  by (simp_all add: new_epoch_def Let_def masked_le)

end
