(* ===== verification/HubInv.thy ===== *)
theory HubInv
  imports HubIndex
begin

text \<open>
  The hub's invariant and the proof that every operation keeps it: the index and the
  connections agree on who is subscribed to what, the per-connection, per-user and per-device
  bookkeeping is exact, and epochs and sequence numbers stay below \<^verbatim>\<open>2^53\<close>. Nothing is assumed
  of the broker or of the outgoing queues.
\<close>

definition explicit_topics :: "'tx conn \<Rightarrow> string set" where
  "explicit_topics c = {t. map_of (c_topics c) t = Some True}"

text \<open>A connection's own bookkeeping.\<close>

definition conn_ok :: "'tx conn \<Rightarrow> bool" where
  "conn_ok c \<longleftrightarrow>
     hm_wf (c_topics c) \<and> c_explicit c = card (explicit_topics c) \<and>
     (\<not> c_authenticated c \<longrightarrow> c_user c = None \<and> c_device c = None) \<and>
     (\<forall>d t. c_device c = Some (d, t) \<longrightarrow> (\<exists>u. c_user c = Some u \<and> device_topic_of u d = Inr t))"

definition conns_of_user :: "'tx conns \<Rightarrow> string \<Rightarrow> conn_id set" where
  "conns_of_user cs u = {i. \<exists>c. map_of (by_id cs) i = Some c \<and> c_user c = Some u}"

definition user_counts_ok :: "'tx conns \<Rightarrow> bool" where
  "user_counts_ok cs \<longleftrightarrow>
     (\<forall>u. map_of (per_user cs) u =
        (if conns_of_user cs u = {} then None else Some (card (conns_of_user cs u))))"

definition devices_ok :: "'tx conns \<Rightarrow> bool" where
  "devices_ok cs \<longleftrightarrow>
     (\<forall>d i. map_of (devices cs) d = Some i \<longleftrightarrow>
        (\<exists>c t. map_of (by_id cs) i = Some c \<and> c_device c = Some (d, t)))"

definition conns_ok :: "'tx conns \<Rightarrow> bool" where
  "conns_ok cs \<longleftrightarrow> hm_wf (by_id cs) \<and>
     (\<forall>i c. map_of (by_id cs) i = Some c \<longrightarrow> conn_ok c) \<and> user_counts_ok cs \<and> devices_ok cs"

text \<open>The sender a connection should be subscribed to a topic with, by its own record.\<close>

definition conn_sub :: "'tx conn option \<Rightarrow> string \<Rightarrow> 'tx option" where
  "conn_sub oc t =
     (case oc of None \<Rightarrow> None | Some c \<Rightarrow> if map_of (c_topics c) t = None then None else Some (c_tx c))"

definition linked :: "('tx, 'w) inner \<Rightarrow> bool" where
  "linked st \<longleftrightarrow> (\<forall>t i. sub_of st t i = conn_sub (get_conn st i) t)"

definition hub_inv :: "('tx, 'w) inner \<Rightarrow> bool" where
  "hub_inv st \<longleftrightarrow> index_ok st \<and> conns_ok (conns st) \<and> linked st \<and>
     (\<forall>i c. get_conn st i = Some c \<longrightarrow> i < next_conn st)"

subsection \<open>Connection records\<close>

lemma get_conn_frames [frame_simps, simp]:
  "get_conn (st\<lparr>world := w\<rparr>) = get_conn st" "get_conn (st\<lparr>shards := s\<rparr>) = get_conn st"
  "get_conn (st\<lparr>next_epoch := e\<rparr>) = get_conn st" "get_conn (st\<lparr>revocations := r\<rparr>) = get_conn st"
  "get_conn (st\<lparr>clients := cl\<rparr>) = get_conn st" "get_conn (st\<lparr>closers := co\<rparr>) = get_conn st"
  "get_conn (st\<lparr>next_conn := n\<rparr>) = get_conn st" "get_conn (write_shard st t xs) = get_conn st"
  "get_conn (drop_subscriber st t i) = get_conn st" "get_conn (drop_subscriptions st ts i) = get_conn st"
  by (simp_all add: fun_eq_iff get_conn_def)

lemma get_put_conn [simp]: "get_conn (put_conn st i c) = (get_conn st)(i \<mapsto> c)"
  by (simp add: fun_eq_iff get_conn_def put_conn_def set_by_id_def)

lemma put_conn_fields [simp]:
  "tmap (put_conn st i c) = tmap st" "sub_of (put_conn st i c) = sub_of st"
  "index_ok (put_conn st i c) = index_ok st" "next_conn (put_conn st i c) = next_conn st"
  "world (put_conn st i c) = world st" "broker (put_conn st i c) = broker st"
  "hasher (put_conn st i c) = hasher st" "revocations (put_conn st i c) = revocations st"
  "next_epoch (put_conn st i c) = next_epoch st" "shards (put_conn st i c) = shards st"
  "clients (put_conn st i c) = clients st" "closers (put_conn st i c) = closers st"
  "devices (conns (put_conn st i c)) = devices (conns st)"
  "per_user (conns (put_conn st i c)) = per_user (conns st)"
  by (simp_all add: put_conn_def set_by_id_def)

lemma finite_explicit [simp]: "finite (explicit_topics c)"
  by (rule finite_subset [OF _ finite_dom_map_of [of "c_topics c"]]) (auto simp: explicit_topics_def)

text \<open>Changing a connection without touching its user and device.\<close>

lemma conns_ok_put:
  assumes ok: "conns_ok (conns st)" and c: "get_conn st i = Some c" and c': "conn_ok c'"
    and same: "c_user c' = c_user c" "c_device c' = c_device c"
  shows "conns_ok (conns (put_conn st i c'))"
proof -
  let ?cs = "conns st" and ?cs' = "conns (put_conn st i c')"
  have by_id: "map_of (by_id ?cs') = (map_of (by_id ?cs))(i \<mapsto> c')"
    by (simp add: put_conn_def set_by_id_def)
  have i: "map_of (by_id ?cs) i = Some c" using c by (simp add: get_conn_def)
  have "conns_of_user ?cs' u = conns_of_user ?cs u" for u
    using i same by (auto simp: conns_of_user_def by_id)
  then have "user_counts_ok ?cs'" using ok by (simp add: conns_ok_def user_counts_ok_def)
  moreover have "devices_ok ?cs'"
  proof -
    have "devices_ok ?cs" using ok by (simp add: conns_ok_def)
    then show ?thesis using i same unfolding devices_ok_def by_id by auto
  qed
  moreover have "hm_wf (by_id ?cs')"
    using ok by (simp add: conns_ok_def put_conn_def set_by_id_def)
  ultimately show ?thesis using ok c' by (auto simp: conns_ok_def by_id)
qed

lemma conns_okD: "conns_ok (conns st) \<Longrightarrow> get_conn st i = Some c \<Longrightarrow> conn_ok c"
  by (simp add: conns_ok_def get_conn_def)

lemma conn_ok_drop_topic:
  assumes "conn_ok c"
  shows "conn_ok (c\<lparr>c_topics := AList.delete t (c_topics c),
                    c_explicit := c_explicit c - (if map_of (c_topics c) t = Some True then 1 else 0)\<rparr>)"
proof -
  have "explicit_topics (c\<lparr>c_topics := AList.delete t (c_topics c), c_explicit := n\<rparr>) =
      explicit_topics c - {t}" for n
    by (auto simp: explicit_topics_def)
  then show ?thesis using assms by (auto simp: conn_ok_def explicit_topics_def)
qed

lemma conn_ok_add_topic:
  assumes "conn_ok c" and "map_of (c_topics c) t = None"
  shows "conn_ok (c\<lparr>c_topics := AList.update t e (c_topics c),
                    c_explicit := c_explicit c + (if e then 1 else 0)\<rparr>)"
proof -
  have "explicit_topics (c\<lparr>c_topics := AList.update t e (c_topics c), c_explicit := n\<rparr>) =
      (if e then insert t (explicit_topics c) else explicit_topics c)" for n
    using assms(2) by (auto simp: explicit_topics_def)
  moreover have "t \<notin> explicit_topics c" using assms(2) by (simp add: explicit_topics_def)
  ultimately show ?thesis using assms by (simp add: conn_ok_def)
qed

lemma hub_invD:
  assumes "hub_inv st"
  shows "index_ok st" "conns_ok (conns st)" "linked st"
    "get_conn st i = Some c \<Longrightarrow> i < next_conn st" "get_conn st i = Some c \<Longrightarrow> conn_ok c"
    "sub_of st t i = conn_sub (get_conn st i) t"
  using assms by (auto simp: hub_inv_def linked_def dest: conns_okD)

lemma hub_inv_frames [frame_simps, simp]:
  "hub_inv (st\<lparr>world := w\<rparr>) = hub_inv st" "hub_inv (st\<lparr>next_epoch := e\<rparr>) = hub_inv st"
  "hub_inv (st\<lparr>revocations := r\<rparr>) = hub_inv st" "hub_inv (st\<lparr>clients := cl\<rparr>) = hub_inv st"
  "hub_inv (st\<lparr>closers := co\<rparr>) = hub_inv st"
  by (simp_all add: hub_inv_def linked_def)

lemma try_send_to_inv [simp]: "hub_inv (snd (try_send_to f tx fr st)) = hub_inv st"
  by (simp add: try_send_to_def case_prod_beta)

lemma try_send_to_fields [simp]:
  "get_conn (snd (try_send_to f tx fr st)) = get_conn st" "tmap (snd (try_send_to f tx fr st)) = tmap st"
  "conns (snd (try_send_to f tx fr st)) = conns st" "next_conn (snd (try_send_to f tx fr st)) = next_conn st"
  "shards (snd (try_send_to f tx fr st)) = shards st" "hasher (snd (try_send_to f tx fr st)) = hasher st"
  "index_ok (snd (try_send_to f tx fr st)) = index_ok st" "sub_of (snd (try_send_to f tx fr st)) = sub_of st"
  "revocations (snd (try_send_to f tx fr st)) = revocations st" "broker (snd (try_send_to f tx fr st)) = broker st"
  "clients (snd (try_send_to f tx fr st)) = clients st" "closers (snd (try_send_to f tx fr st)) = closers st"
  by (simp_all add: try_send_to_def case_prod_beta)

subsection \<open>Detaching\<close>

lemma conns_of_user_finite [simp]: "finite (conns_of_user cs u)"
  by (rule finite_subset [OF _ finite_dom_map_of [of "by_id cs"]]) (auto simp: conns_of_user_def)

lemma dec_per_user_counts:
  assumes counts: "\<And>u. map_of m u = (if S u = {} then None else Some (card (S u)))"
    and S': "\<And>u. S' u = (if usr = Some u then S u - {i} else S u)"
    and i: "\<And>u. usr = Some u \<Longrightarrow> i \<in> S u" and fin: "\<And>u. finite (S u)"
  shows "map_of (dec_per_user usr m) u = (if S' u = {} then None else Some (card (S' u)))"
proof (cases usr)
  case None
  then show ?thesis by (simp add: dec_per_user_def counts S')
next
  case (Some v)
  have iv: "i \<in> S v" using i Some by simp
  then have mv: "map_of m v = Some (card (S v))" using counts by auto
  have card: "card (S v - {i}) = card (S v) - 1" using iv fin by (simp add: card_Diff_singleton)
  have "(card (S v) - 1 = 0) = (S v - {i} = {})" using card fin by (metis card_eq_0_iff finite_Diff)
  then show ?thesis
    using mv card by (auto simp: dec_per_user_def Some S' counts Let_def)
qed

text \<open>The state of the connections after one of them is removed.\<close>

lemma conns_ok_remove:
  assumes ok: "conns_ok cs" and c: "map_of (by_id cs) i = Some c"
  shows "conns_ok (cs\<lparr>by_id := AList.delete i (by_id cs), per_user := dec_per_user (c_user c) (per_user cs),
                      devices := release_device (c_device c) i (devices cs)\<rparr>)"
    (is "conns_ok ?cs'")
proof -
  have by_id: "map_of (by_id ?cs') = (map_of (by_id cs))(i := None)" by simp
  have "user_counts_ok ?cs'"
    unfolding user_counts_ok_def
  proof
    fix u
    have S': "conns_of_user ?cs' v = (if c_user c = Some v then conns_of_user cs v - {i} else conns_of_user cs v)" for v
      using c by (auto simp: conns_of_user_def by_id)
    have i: "i \<in> conns_of_user cs v" if "c_user c = Some v" for v
      using c that by (simp add: conns_of_user_def)
    have counts: "map_of (per_user cs) v = (if conns_of_user cs v = {} then None else Some (card (conns_of_user cs v)))" for v
      using ok by (simp add: conns_ok_def user_counts_ok_def)
    show "map_of (per_user ?cs') u = (if conns_of_user ?cs' u = {} then None else Some (card (conns_of_user ?cs' u)))"
      using dec_per_user_counts [of "per_user cs" "conns_of_user cs" "conns_of_user ?cs'" "c_user c" i u] counts S' i
      by simp
  qed
  moreover have "devices_ok ?cs'"
    unfolding devices_ok_def
  proof (intro allI)
    fix d j
    have dv: "map_of (devices cs) d' = Some j' \<longleftrightarrow>
        (\<exists>c t. map_of (by_id cs) j' = Some c \<and> c_device c = Some (d', t))" for d' j'
      using ok by (simp add: conns_ok_def devices_ok_def)
    have rel: "map_of (devices ?cs') d = Some j \<longleftrightarrow> map_of (devices cs) d = Some j \<and> j \<noteq> i"
    proof (cases "c_device c")
      case None
      then have "map_of (devices cs) d \<noteq> Some i" using c by (simp add: dv)
      then show ?thesis using None by (auto simp: release_device_def)
    next
      case (Some p)
      obtain d0 t0 where p: "p = (d0, t0)" by (cases p)
      have "map_of (devices cs) d0 = Some i" using c Some p dv by blast
      moreover have "map_of (devices cs) d = Some i \<longleftrightarrow> d = d0" using c Some p by (auto simp: dv)
      ultimately show ?thesis using Some p by (auto simp: release_device_def)
    qed
    show "map_of (devices ?cs') d = Some j \<longleftrightarrow>
        (\<exists>c t. map_of (by_id ?cs') j = Some c \<and> c_device c = Some (d, t))"
      unfolding rel by_id dv by auto
  qed
  moreover have "hm_wf (by_id ?cs')" using ok by (simp add: conns_ok_def)
  ultimately show ?thesis using ok by (auto simp: conns_ok_def by_id split: if_splits)
qed

lemma detach_locked_None [simp]: "get_conn st i = None \<Longrightarrow> detach_locked st i = (None, st)"
  by (simp add: detach_locked_def)

lemma detach_locked_fst: "fst (detach_locked st i) = get_conn st i"
  by (simp add: detach_locked_def Let_def split: option.splits)

lemma detach_locked_fields [simp]:
  "get_conn (snd (detach_locked st i)) = (get_conn st)(i := None)"
  "hasher (snd (detach_locked st i)) = hasher st"
  "revocations (snd (detach_locked st i)) = revocations st"
  "next_conn (snd (detach_locked st i)) = next_conn st"
  "broker (snd (detach_locked st i)) = broker st" "closers (snd (detach_locked st i)) = closers st"
  by (auto simp: detach_locked_def Let_def fail_pending_at_def get_conn_def fun_eq_iff split: option.splits)

lemma detach_locked_sub_of:
  assumes inv: "hub_inv st"
  shows "sub_of (snd (detach_locked st i)) t j = (if j = i then None else sub_of st t j)"
proof (cases "get_conn st i")
  case None
  then show ?thesis using inv by (simp add: hub_invD(6) conn_sub_def)
next
  case (Some c)
  have "sub_of st t i = None" if "t \<notin> set (keys (c_topics c))"
    using that by (simp add: hub_invD(6) [OF inv] Some conn_sub_def map_of_None_keys del: set_map)
  then show ?thesis
    using hub_invD(1) [OF inv] Some
    by (auto simp: detach_locked_def Let_def fail_pending_at_def drop_subscriptions_index simp del: set_map)
qed

lemma detach_locked_inv:
  assumes inv: "hub_inv st"
  shows "hub_inv (snd (detach_locked st i))"
proof (cases "get_conn st i")
  case None
  then show ?thesis using inv by simp
next
  case (Some c)
  have "index_ok (snd (detach_locked st i))"
    using hub_invD(1) [OF inv] Some
    by (simp add: detach_locked_def Let_def fail_pending_at_def drop_subscriptions_index)
  moreover have "conns_ok (conns (snd (detach_locked st i)))"
    using conns_ok_remove [OF hub_invD(2) [OF inv], of i c] Some
    by (simp add: detach_locked_def Let_def fail_pending_at_def get_conn_def)
  moreover have "linked (snd (detach_locked st i))"
    using inv by (auto simp: linked_def detach_locked_sub_of hub_invD(6) conn_sub_def)
  ultimately show ?thesis using hub_invD(4) [OF inv] by (auto simp: hub_inv_def split: if_splits)
qed

lemma close_conn_fields [simp]:
  "get_conn (close_conn st i r) = (get_conn st)(i := None)"
  "hasher (close_conn st i r) = hasher st" "revocations (close_conn st i r) = revocations st"
  "next_conn (close_conn st i r) = next_conn st" "broker (close_conn st i r) = broker st"
  by (simp_all add: close_conn_def detach_def signal_at_def split: prod.splits option.splits)
     (metis detach_locked_fields snd_conv)+

lemma close_conn_eq:
  "close_conn st i r = (case get_conn st i of None \<Rightarrow> st
     | Some c \<Rightarrow> signal_at (snd (detach_locked st i)) (c_closer c) r)"
  by (cases "get_conn st i")
     (auto simp: close_conn_def detach_def detach_locked_def Let_def)

lemma close_conn_inv: "hub_inv st \<Longrightarrow> hub_inv (close_conn st i r)"
  by (auto simp: close_conn_eq signal_at_def detach_locked_inv split: option.splits)

lemma close_all_inv: "hub_inv st \<Longrightarrow> hub_inv (close_all st ids r)"
  by (induction st ids r rule: close_all.induct) (simp_all add: close_conn_inv)

lemma close_all_fields [simp]:
  "get_conn (close_all st ids r) j = (if j \<in> set ids then None else get_conn st j)"
  "hasher (close_all st ids r) = hasher st" "revocations (close_all st ids r) = revocations st"
  "next_conn (close_all st ids r) = next_conn st" "broker (close_all st ids r) = broker st"
  by (induction st ids r rule: close_all.induct) auto

end
