(* ===== verification/HubOps.thy ===== *)
theory HubOps
  imports HubInv
begin

text \<open>
  The hub's operations keep the invariant: subscribing and unsubscribing, fan-out, kicking,
  closing, registering and authenticating. For each operation the lemmas also say what it does
  to the connections and the subscriptions, which the properties of the hub rest on.
\<close>

subsection \<open>Subscribing\<close>

lemma ensure_topic_fields [simp]:
  "conns (ensure_topic st t) = conns st" "get_conn (ensure_topic st t) = get_conn st"
  "hasher (ensure_topic st t) = hasher st" "revocations (ensure_topic st t) = revocations st"
  "next_conn (ensure_topic st t) = next_conn st" "broker (ensure_topic st t) = broker st"
  "clients (ensure_topic st t) = clients st" "closers (ensure_topic st t) = closers st"
  by (simp_all add: ensure_topic_def Let_def case_prod_beta get_conn_def fun_eq_iff)

lemma ensure_topic_present: "tmap st t \<noteq> None \<Longrightarrow> ensure_topic st t = st"
  by (simp add: ensure_topic_def tmap_def)

lemma shards_ok_frames [frame_simps, simp]:
  "shards_ok (st\<lparr>world := w\<rparr>) = shards_ok st" "shards_ok (st\<lparr>next_epoch := e\<rparr>) = shards_ok st"
  "shards_ok (st\<lparr>conns := c\<rparr>) = shards_ok st"
  by (simp_all add: shards_ok_def shard_index_def slot_def)

lemma ensure_topic_absent:
  assumes "shards_ok st" and "tmap st t = None"
  shows "shards_ok (ensure_topic st t)"
    and "\<exists>e. e \<le> JS_SAFE \<and>
      tmap (ensure_topic st t) = (tmap st)(t \<mapsto> \<lparr>subscribers = [], cursor_of = \<lparr>epoch = e, seq = 0\<rparr>\<rparr>)"
proof -
  let ?st1 = "st\<lparr>world := br_subscribe (broker st) t (world st)\<rparr>"
  let ?st2 = "?st1\<lparr>next_epoch := next_epoch ?st1 + 1\<rparr>"
  let ?s = "\<lparr>subscribers = [], cursor_of = \<lparr>epoch = fst (new_epoch ?st1), seq = 0\<rparr>\<rparr>"
  have eq: "ensure_topic st t = write_shard ?st2 t (AList.update t ?s (read_shard ?st2 t))"
    using assms(2) by (simp add: ensure_topic_def tmap_def Let_def case_prod_beta)
  have ok: "shards_ok ?st2" using assms(1) by simp
  show "shards_ok (ensure_topic st t)" unfolding eq by (rule put_topic(1) [OF ok])
  have "tmap (ensure_topic st t) = (tmap ?st2)(t \<mapsto> ?s)" unfolding eq by (rule put_topic(2) [OF ok])
  then show "\<exists>e. e \<le> JS_SAFE \<and>
      tmap (ensure_topic st t) = (tmap st)(t \<mapsto> \<lparr>subscribers = [], cursor_of = \<lparr>epoch = e, seq = 0\<rparr>\<rparr>)"
    by (intro exI [of _ "fst (new_epoch ?st1)"]) simp
qed

text \<open>The guards of \<^const>\<open>subscribe_locked\<close>.\<close>

definition mark_moved :: "('tx, 'w) inner \<Rightarrow> string \<Rightarrow> subscribe_req \<Rightarrow> bool" where
  "mark_moved st t rq \<longleftrightarrow> (case rq_mark rq of None \<Rightarrow> False | Some mark \<Rightarrow> mark \<noteq> revocation_mark st t)"

definition over_limit :: "'tx conn \<Rightarrow> string \<Rightarrow> subscribe_req \<Rightarrow> bool" where
  "over_limit c t rq \<longleftrightarrow> map_of (c_topics c) t = None \<and> rq_explicit rq \<and> c_explicit c \<ge> rq_max rq"

definition subscribed_conn :: "'tx conn \<Rightarrow> string \<Rightarrow> subscribe_req \<Rightarrow> 'tx conn" where
  "subscribed_conn c t rq =
     (if map_of (c_topics c) t \<noteq> None then c
      else c\<lparr>c_topics := AList.update t (rq_explicit rq) (c_topics c),
             c_explicit := c_explicit c + (if rq_explicit rq then 1 else 0)\<rparr>)"

lemma subscribe_locked_gone:
  "get_conn st i = None \<Longrightarrow> subscribe_locked f st i t rq slow = (Inl gone, st, slow)"
  by (simp add: subscribe_locked_def)

lemma subscribe_locked_revoked:
  "get_conn st i = Some c \<Longrightarrow> mark_moved st t rq \<Longrightarrow>
   subscribe_locked f st i t rq slow = (Inl subscription_revoked, st, slow)"
  by (simp add: subscribe_locked_def mark_moved_def)

lemma subscribe_locked_limit:
  "get_conn st i = Some c \<Longrightarrow> \<not> mark_moved st t rq \<Longrightarrow> over_limit c t rq \<Longrightarrow>
   subscribe_locked f st i t rq slow = (Inl too_many_subscriptions, st, slow)"
  by (simp add: subscribe_locked_def mark_moved_def over_limit_def Let_def)

text \<open>The state after the index and the connection are updated, before the ack.\<close>

definition subscribed_state :: "('tx, 'w) inner \<Rightarrow> conn_id \<Rightarrow> string \<Rightarrow> subscribe_req \<Rightarrow> 'tx conn \<Rightarrow> 'tx topic_state \<Rightarrow> ('tx, 'w) inner" where
  "subscribed_state st i t rq c s =
     (if map_of (c_topics c) t \<noteq> None then st
      else put_conn
             (write_shard st t
                (AList.update t (s\<lparr>subscribers := AList.update i (c_tx c) (subscribers s)\<rparr>) (read_shard st t)))
             i (subscribed_conn c t rq))"

lemma subscribe_locked_pass:
  assumes "get_conn st i = Some c" "\<not> mark_moved st t rq" "\<not> over_limit c t rq"
    and "tmap (ensure_topic st t) t = Some s"
  shows "subscribe_locked f st i t rq slow =
     (let st' = subscribed_state (ensure_topic st t) i t rq c s
      in case rq_ack rq of
           None \<Rightarrow> (Inr (cursor_of s), st', slow)
         | Some ack \<Rightarrow>
             let (sent, st'') = try_send_to f (c_tx c) (ack (cursor_of s)) st'
             in (Inr (cursor_of s), st'', if sent then slow else slow @ [i]))"
  using assms
  by (cases "map_of (c_topics c) t")
     (auto simp: subscribe_locked_def mark_moved_def over_limit_def Let_def tmap_def
      subscribed_state_def subscribed_conn_def split: option.splits)

lemma update_nonempty: "AList.update k v m \<noteq> []"
  by (cases m) (auto split: prod.splits)

lemma subscribed_state_inv:
  assumes inv: "hub_inv st" and c: "get_conn st i = Some c"
  obtains s where "tmap (ensure_topic st t) t = Some s"
    and "hub_inv (subscribed_state (ensure_topic st t) i t rq c s)"
    and "get_conn (subscribed_state (ensure_topic st t) i t rq c s) = (get_conn st)(i \<mapsto> subscribed_conn c t rq)"
    and "dom (tmap (subscribed_state (ensure_topic st t) i t rq c s)) = insert t (dom (tmap st))"
    and "\<And>s0. tmap st t = Some s0 \<Longrightarrow> s = s0"
proof (cases "map_of (c_topics c) t")
  case (Some e)
  have "sub_of st t i = Some (c_tx c)" using Some c by (simp add: hub_invD(6) [OF inv] conn_sub_def)
  then obtain s where s: "tmap st t = Some s" by (auto simp: sub_of_def split: option.splits)
  then have "ensure_topic st t = st" by (simp add: ensure_topic_present)
  with Some s c inv show ?thesis
    by (intro that [of s]) (auto simp: subscribed_state_def subscribed_conn_def)
next
  case None
  let ?e = "ensure_topic st t"
  have ok: "index_ok st" "shards_ok st" using inv by (auto simp: hub_inv_def index_ok_def)
  obtain s where s: "tmap ?e t = Some s" and rest: "\<And>t'. t' \<noteq> t \<Longrightarrow> tmap ?e t' = tmap st t'"
    and sh: "shards_ok ?e" and wf: "hm_wf (subscribers s)"
    and cur: "epoch (cursor_of s) \<le> JS_SAFE" "seq (cursor_of s) \<le> JS_SAFE"
    and subs: "\<And>j. map_of (subscribers s) j = sub_of st t j"
    and same: "\<And>s0. tmap st t = Some s0 \<Longrightarrow> s = s0"
  proof (cases "tmap st t")
    case (Some s)
    then have "?e = st" by (simp add: ensure_topic_present)
    then show ?thesis
      using Some ok index_okD(2) [OF ok(1) Some] by (intro that [of s]) (auto simp: topic_ok_def sub_of_def)
  next
    case None
    from ensure_topic_absent(2) [OF ok(2) this] obtain e where
      e: "e \<le> JS_SAFE" "tmap ?e = (tmap st)(t \<mapsto> \<lparr>subscribers = [], cursor_of = \<lparr>epoch = e, seq = 0\<rparr>\<rparr>)"
      by blast
    show ?thesis
      using e ensure_topic_absent(1) [OF ok(2) None] None
      by (intro that [of "\<lparr>subscribers = [], cursor_of = \<lparr>epoch = e, seq = 0\<rparr>\<rparr>"])
         (auto simp: sub_of_def)
  qed
  let ?s = "s\<lparr>subscribers := AList.update i (c_tx c) (subscribers s)\<rparr>"
  let ?w = "write_shard ?e t (AList.update t ?s (read_shard ?e t))"
  let ?c = "subscribed_conn c t rq"
  have st': "subscribed_state ?e i t rq c s = put_conn ?w i ?c"
    using None by (simp add: subscribed_state_def)
  have s_ok: "topic_ok ?s"
    using wf cur by (simp add: topic_ok_def update_nonempty)
  have tm: "tmap ?w = (tmap ?e)(t \<mapsto> ?s)" by (rule put_topic(2) [OF sh])
  have "index_ok ?w"
    using put_topic(1) [OF sh] s_ok rest index_okD(2) [OF ok(1)] by (auto simp: index_ok_def tm)
  moreover have sub: "sub_of ?w t' j =
      (if t' = t \<and> j = i then Some (c_tx c) else sub_of st t' j)" for t' j
    using subs rest by (auto simp: sub_of_def tm split: option.splits)
  have user: "c_user ?c = c_user c" "c_device ?c = c_device c" "c_tx ?c = c_tx c"
    by (auto simp: subscribed_conn_def)
  have "conn_ok ?c"
    using conn_ok_add_topic [OF hub_invD(5) [OF inv c] None] None by (simp add: subscribed_conn_def)
  then have "conns_ok (conns (put_conn ?w i ?c))"
    using hub_invD(2) [OF inv] c user by (intro conns_ok_put [of _ _ c]) auto
  moreover have "linked (put_conn ?w i ?c)"
    unfolding linked_def
  proof (intro allI)
    fix t' j
    show "sub_of (put_conn ?w i ?c) t' j = conn_sub (get_conn (put_conn ?w i ?c) j) t'"
      using c None by (auto simp: sub hub_invD(6) [OF inv] conn_sub_def subscribed_conn_def)
  qed
  ultimately have "hub_inv (put_conn ?w i ?c)"
    using hub_invD(4) [OF inv] c by (auto simp: hub_inv_def split: if_splits)
  moreover have "dom (tmap (put_conn ?w i ?c)) = insert t (dom (tmap st))"
    using rest by (auto simp: tm dom_def split: if_splits) 
  ultimately show ?thesis using s same by (intro that [of s]) (auto simp: st')
qed

text \<open>
  The whole of \<^const>\<open>subscribe_locked\<close>: it fails in its three guards and leaves the state
  alone, or it subscribes the connection.
\<close>

lemma subscribe_locked_inv:
  assumes inv: "hub_inv st"
    and eq: "subscribe_locked f st i t rq slow = (r, st', slow')"
  shows "hub_inv st'"
    and "isl r \<Longrightarrow> st' = st \<and> slow' = slow"
    and "\<not> isl r \<Longrightarrow> \<exists>c. get_conn st i = Some c \<and> \<not> mark_moved st t rq \<and> \<not> over_limit c t rq \<and>
           get_conn st' = (get_conn st)(i \<mapsto> subscribed_conn c t rq)"
    and "set slow' \<subseteq> set slow \<union> {i}" and "rq_ack rq = None \<Longrightarrow> slow' = slow"
proof -
  have "hub_inv st' \<and> (isl r \<longrightarrow> st' = st \<and> slow' = slow) \<and>
    (\<not> isl r \<longrightarrow> (\<exists>c. get_conn st i = Some c \<and> \<not> mark_moved st t rq \<and> \<not> over_limit c t rq \<and>
           get_conn st' = (get_conn st)(i \<mapsto> subscribed_conn c t rq))) \<and>
    set slow' \<subseteq> set slow \<union> {i} \<and> (rq_ack rq = None \<longrightarrow> slow' = slow)"
  proof (cases "get_conn st i")
    case None
    then show ?thesis using inv eq by (auto simp: subscribe_locked_gone)
  next
    case (Some c)
    show ?thesis
    proof (cases "mark_moved st t rq \<or> over_limit c t rq")
      case True
      then have "\<exists>e. subscribe_locked f st i t rq slow = (Inl e, st, slow)"
        using subscribe_locked_revoked [OF Some, of t rq f slow]
          subscribe_locked_limit [OF Some, of t rq f slow] by (cases "mark_moved st t rq") simp_all
      then show ?thesis using inv eq by auto
    next
      case False
      from subscribed_state_inv [OF inv Some, of t rq] obtain s where
        s: "tmap (ensure_topic st t) t = Some s"
        and i: "hub_inv (subscribed_state (ensure_topic st t) i t rq c s)"
          "get_conn (subscribed_state (ensure_topic st t) i t rq c s) = (get_conn st)(i \<mapsto> subscribed_conn c t rq)"
        by metis
      show ?thesis
        using eq subscribe_locked_pass [OF Some _ _ s, of rq f slow] False i Some
        by (auto simp: Let_def case_prod_beta split: option.splits if_splits)
    qed
  qed
  then show "hub_inv st'"
    and "isl r \<Longrightarrow> st' = st \<and> slow' = slow"
    and "\<not> isl r \<Longrightarrow> \<exists>c. get_conn st i = Some c \<and> \<not> mark_moved st t rq \<and> \<not> over_limit c t rq \<and>
           get_conn st' = (get_conn st)(i \<mapsto> subscribed_conn c t rq)"
    and "set slow' \<subseteq> set slow \<union> {i}" and "rq_ack rq = None \<Longrightarrow> slow' = slow"
    by blast+
qed

lemma subscribe_inv: "hub_inv st \<Longrightarrow> hub_inv (snd (subscribe f st i t rq))"
  by (cases "subscribe_locked f st i t rq []")
     (auto simp: subscribe_def intro: close_all_inv subscribe_locked_inv(1))

subsection \<open>Unsubscribing\<close>

text \<open>Removing one topic from a connection and the connection from the topic.\<close>

lemma drop_topic_inv:
  assumes inv: "hub_inv st" and c: "get_conn st i = Some c" and c': "conn_ok c'"
    and topics: "map_of (c_topics c') = (map_of (c_topics c))(t := None)"
    and same: "c_user c' = c_user c" "c_device c' = c_device c" "c_tx c' = c_tx c"
  shows "hub_inv (drop_subscriber (put_conn st i c') t i)"
proof -
  let ?st = "drop_subscriber (put_conn st i c') t i"
  have ix: "index_ok (put_conn st i c')" using hub_invD(1) [OF inv] by simp
  have "index_ok ?st" by (rule drop_subscriber_index(1) [OF ix])
  moreover have "conns_ok (conns ?st)"
    using conns_ok_put [OF hub_invD(2) [OF inv] c c' same(1,2)] by simp
  moreover have "linked ?st"
    using c topics same
    by (auto simp: linked_def drop_subscriber_index(2) [OF ix] hub_invD(6) [OF inv] conn_sub_def)
  ultimately show ?thesis
    using hub_invD(4) [OF inv] c by (auto simp: hub_inv_def split: if_splits)
qed

lemma unsubscribe_inv: "hub_inv st \<Longrightarrow> hub_inv (snd (unsubscribe st i t))"
proof -
  assume inv: "hub_inv st"
  have "hub_inv (drop_subscriber (put_conn st i (c\<lparr>c_topics := AList.delete t (c_topics c),
      c_explicit := c_explicit c - (if e then 1 else 0)\<rparr>)) t i)"
    if c: "get_conn st i = Some c" and e: "map_of (c_topics c) t = Some e" for c e
    using conn_ok_drop_topic [OF hub_invD(5) [OF inv c], of t] e
    by (intro drop_topic_inv [OF inv c]) auto
  with inv show ?thesis by (auto simp: unsubscribe_def Let_def split: option.splits)
qed

subsection \<open>Fan-out\<close>

lemma fan_out_locked_inv:
  assumes inv: "hub_inv st" and eq: "fan_out_locked f st t name params = (st', slow)"
  shows "hub_inv st'" and "get_conn st' = get_conn st" and "sub_of st' = sub_of st"
    and "dom (tmap st') = dom (tmap st)"
proof -
  have "hub_inv st' \<and> get_conn st' = get_conn st \<and> sub_of st' = sub_of st \<and> dom (tmap st') = dom (tmap st)"
  proof (cases "tmap st t")
    case None
    then show ?thesis using inv eq by (simp add: fan_out_locked_def tmap_def)
  next
    case (Some s)
    let ?s = "s\<lparr>cursor_of := (cursor_of s)\<lparr>seq := (seq (cursor_of s) + 1) AND JS_SAFE\<rparr>\<rparr>"
    let ?w = "write_shard st t (AList.update t ?s (read_shard st t))"
    have st': "\<exists>w. st' = ?w\<lparr>world := w\<rparr>"
      using eq Some by (auto simp: fan_out_locked_def tmap_def [symmetric] Let_def split: prod.splits)
    have ok: "index_ok st" "shards_ok st" using inv by (auto simp: hub_inv_def index_ok_def)
    have "topic_ok ?s" using index_okD(2) [OF ok(1) Some] by (simp add: topic_ok_def masked_le)
    then have "index_ok ?w" by (rule index_ok_put [OF ok(1)])
    moreover have tm: "tmap ?w = (tmap st)(t \<mapsto> ?s)" by (rule put_topic(2) [OF ok(2)])
    moreover have sub: "sub_of ?w = sub_of st"
      using Some by (auto simp: fun_eq_iff sub_of_def tm)
    ultimately have "hub_inv ?w" using inv by (simp add: hub_inv_def linked_def)
    moreover have "dom (tmap ?w) = dom (tmap st)" using Some by (auto simp: tm)
    moreover from st' obtain w where "st' = ?w\<lparr>world := w\<rparr>" by blast
    ultimately show ?thesis using sub by simp
  qed
  then show "hub_inv st'" and "get_conn st' = get_conn st" and "sub_of st' = sub_of st"
    and "dom (tmap st') = dom (tmap st)" by simp_all
qed

lemma fan_out_inv: "hub_inv st \<Longrightarrow> hub_inv (fan_out f st t name params)"
  by (cases "fan_out_locked f st t name params")
     (auto simp: fan_out_def intro: close_all_inv fan_out_locked_inv(1))

subsection \<open>Kicking\<close>

text \<open>A kicked connection: its topic is gone, the rest is unchanged.\<close>

definition kicked_conn :: "'tx conn \<Rightarrow> string \<Rightarrow> 'tx conn" where
  "kicked_conn c t =
     c\<lparr>c_topics := AList.delete t (c_topics c),
       c_explicit := c_explicit c - (if map_of (c_topics c) t = Some True then 1 else 0)\<rparr>"

lemma kicked_conn_simps [simp]:
  "map_of (c_topics (kicked_conn c t)) = (map_of (c_topics c))(t := None)"
  "c_user (kicked_conn c t) = c_user c" "c_device (kicked_conn c t) = c_device c"
  "c_tx (kicked_conn c t) = c_tx c"
  by (simp_all add: kicked_conn_def)

lemma kick_each_step:
  assumes "get_conn st i = Some c" "c_user c = Some u"
  shows "kick_each f t u fr st (i # ids) slow =
    (let (sent, st1) = try_send_to f (c_tx c) fr (put_conn st i (kicked_conn c t))
     in kick_each f t u fr (drop_subscriber st1 t i) ids (if sent then slow else slow @ [i]))"
  using assms
  by (cases "map_of (c_topics c) t") (auto simp: kicked_conn_def Let_def case_prod_beta delete_id)

lemma kick_each_skip:
  "\<not> (\<exists>c. get_conn st i = Some c \<and> c_user c = Some u) \<Longrightarrow>
   kick_each f t u fr st (i # ids) slow = kick_each f t u fr st ids slow"
  by (auto split: option.splits)

lemma kicked_conn_ok: "conn_ok c \<Longrightarrow> conn_ok (kicked_conn c t)"
  unfolding kicked_conn_def by (rule conn_ok_drop_topic)

lemma kicked_conn_idem [simp]: "kicked_conn (kicked_conn c t) t = kicked_conn c t"
  by (simp add: kicked_conn_def AList.delete_idem)

definition kick_effect :: "conn_id list \<Rightarrow> string \<Rightarrow> string \<Rightarrow> (conn_id \<Rightarrow> 'tx conn option) \<Rightarrow> conn_id \<Rightarrow> 'tx conn option" where
  "kick_effect ids u t m j =
     map_option (\<lambda>c. if j \<in> set ids \<and> c_user c = Some u then kicked_conn c t else c) (m j)"

lemma kick_one_inv:
  assumes inv: "hub_inv st" and c: "get_conn st i = Some c"
  shows "hub_inv (drop_subscriber (snd (try_send_to f tx fr (put_conn st i (kicked_conn c t)))) t i)"
proof -
  have "hub_inv (drop_subscriber (put_conn (st\<lparr>world := w\<rparr>) i (kicked_conn c t)) t i)" for w
    by (rule drop_topic_inv [of _ _ c]) (use inv c hub_invD(5) [OF inv c] in \<open>auto intro: kicked_conn_ok\<close>)
  moreover have "(put_conn st i (kicked_conn c t))\<lparr>world := w\<rparr> = put_conn (st\<lparr>world := w\<rparr>) i (kicked_conn c t)" for w
    by (simp add: put_conn_def set_by_id_def)
  ultimately show ?thesis by (simp add: try_send_to_def case_prod_beta)
qed

lemma kick_each_inv:
  assumes "hub_inv st" and "kick_each f t u fr st ids slow = (st', slow')"
  shows "hub_inv st' \<and> get_conn st' = kick_effect ids u t (get_conn st) \<and> revocations st' = revocations st \<and>
    hasher st' = hasher st \<and> next_conn st' = next_conn st"
  using assms
proof (induction ids arbitrary: st slow)
  case Nil
  then show ?case by (auto simp: fun_eq_iff kick_effect_def option.map_ident)
next
  case (Cons i ids)
  show ?case
  proof (cases "\<exists>c. get_conn st i = Some c \<and> c_user c = Some u")
    case False
    then have "kick_effect (i # ids) u t (get_conn st) = kick_effect ids u t (get_conn st)"
      by (auto simp: fun_eq_iff kick_effect_def map_option_case split: option.splits)
    moreover have "kick_each f t u fr st ids slow = (st', slow')"
      using Cons.prems(2) kick_each_skip [OF False] by metis
    ultimately show ?thesis using Cons.IH Cons.prems(1) by metis
  next
    case True
    then obtain c where c: "get_conn st i = Some c" "c_user c = Some u" by blast
    obtain sent st1 where s: "try_send_to f (c_tx c) fr (put_conn st i (kicked_conn c t)) = (sent, st1)"
      by (cases "try_send_to f (c_tx c) fr (put_conn st i (kicked_conn c t))")
    have st1: "st1 = snd (try_send_to f (c_tx c) fr (put_conn st i (kicked_conn c t)))" by (simp add: s)
    let ?st2 = "drop_subscriber st1 t i"
    have "hub_inv ?st2" unfolding st1 by (rule kick_one_inv [OF Cons.prems(1) c(1)])
    moreover have "kick_each f t u fr ?st2 ids (if sent then slow else slow @ [i]) = (st', slow')"
      using Cons.prems(2) kick_each_step [OF c] s by simp
    moreover have "get_conn ?st2 = (get_conn st)(i \<mapsto> kicked_conn c t)" "revocations ?st2 = revocations st"
      "hasher ?st2 = hasher st" "next_conn ?st2 = next_conn st"
      by (simp_all add: st1)
    ultimately show ?thesis
      using Cons.IH [of ?st2] c by (auto simp: fun_eq_iff kick_effect_def)
  qed
qed

lemma revoke_fields [simp]:
  "get_conn (revoke st t) = get_conn st" "tmap (revoke st t) = tmap st" "hub_inv (revoke st t) = hub_inv st"
  "hasher (revoke st t) = hasher st" "next_conn (revoke st t) = next_conn st" "sub_of (revoke st t) = sub_of st"
  "shards (revoke st t) = shards st" "read_shard (revoke st t) = read_shard st"
  by (simp_all add: revoke_def fun_eq_iff read_shard_def shard_index_def slot_def split: option.splits)

lemma set_subscriber_ids: "i \<in> set (subscriber_ids st t) \<longleftrightarrow> sub_of st t i \<noteq> None"
proof (cases "tmap st t")
  case None
  then show ?thesis by (simp add: subscriber_ids_def sub_of_def tmap_def [symmetric])
next
  case (Some s)
  then show ?thesis
    using map_of_None_keys [of "subscribers s" i]
    by (simp add: subscriber_ids_def sub_of_def tmap_def [symmetric] del: set_map not_None_eq)
qed

lemma kick_locked_inv:
  assumes inv: "hub_inv st" and eq: "kick_locked f st t u = (st', slow)"
  shows "hub_inv st'"
    and "get_conn st' = kick_effect (subscriber_ids st t) u t (get_conn st)"
    and "revocations st' = revocations (revoke st t)" and "hasher st' = hasher st"
proof -
  have "subscriber_ids (revoke st t) t = subscriber_ids st t" by (simp add: subscriber_ids_def)
  then have "kick_each f t u (unsubscribed_frame t ''kicked'') (revoke st t) (subscriber_ids st t) [] = (st', slow)"
    using eq by (simp add: kick_locked_def Let_def)
  from kick_each_inv [OF _ this] inv show "hub_inv st'"
    and "get_conn st' = kick_effect (subscriber_ids st t) u t (get_conn st)"
    and "revocations st' = revocations (revoke st t)" and "hasher st' = hasher st"
    by simp_all
qed

lemma kick_local_inv: "hub_inv st \<Longrightarrow> hub_inv (kick_local f st t u)"
  by (cases "kick_locked f st t u")
     (auto simp: kick_local_def intro: close_all_inv kick_locked_inv(1))

lemma close_topic_inv: "hub_inv st \<Longrightarrow> hub_inv (close_topic st t ck)"
  by (simp add: close_topic_def Let_def close_all_inv)

subsection \<open>Registering\<close>

lemma register_inv:
  assumes inv: "hub_inv st" and room: "next_conn st + 1 \<noteq> 0"
  shows "hub_inv (snd (register st tx cl co))"
proof -
  let ?i = "next_conn st"
  let ?c = "\<lparr>c_tx = tx, c_client = cl, c_closer = co, c_authenticated = False,
             c_user = None, c_device = None, c_topics = [], c_explicit = 0\<rparr>"
  let ?st = "put_conn (st\<lparr>next_conn := ?i + 1\<rparr>) ?i ?c"
  have fresh: "get_conn st ?i = None"
    using hub_invD(4) [OF inv, of ?i] by (cases "get_conn st ?i") auto
  have by_id: "map_of (by_id (conns ?st)) = (map_of (by_id (conns st)))(?i \<mapsto> ?c)"
    by (simp add: put_conn_def set_by_id_def)
  have fresh': "map_of (by_id (conns st)) ?i = None" using fresh by (simp add: get_conn_def)
  have "conns_of_user (conns ?st) u = conns_of_user (conns st) u" for u
    using fresh' by (auto simp: conns_of_user_def by_id)
  moreover have "devices_ok (conns ?st)"
    using hub_invD(2) [OF inv] fresh' by (auto simp: conns_ok_def devices_ok_def by_id)
  moreover have "conn_ok ?c" by (simp add: conn_ok_def explicit_topics_def)
  ultimately have "conns_ok (conns ?st)"
    using hub_invD(2) [OF inv] by (auto simp: conns_ok_def user_counts_ok_def by_id put_conn_def set_by_id_def)
  moreover have "linked ?st"
    using inv fresh by (auto simp: linked_def hub_invD(6) conn_sub_def)
  moreover have "i < next_conn st + 1" if "i < next_conn st \<or> i = next_conn st" for i
    using that unatSuc [of "next_conn st"] room by (auto simp: word_less_nat_alt add.commute)
  ultimately have "hub_inv ?st"
    using hub_invD(1,4) [OF inv] by (auto simp: hub_inv_def split: if_splits)
  then show ?thesis by (simp add: register_def Let_def)
qed

end
