(* ===== verification/HubAuth.thy ===== *)
theory HubAuth
  imports HubOps
begin

text \<open>
  Authentication: \<^const>\<open>authenticate\<close> keeps the invariant, changes nothing when it fails, and
  when it succeeds binds the identity, subscribes its channels and supersedes the device's
  previous holder.
\<close>

subsection \<open>Subscribing the identity's channels\<close>

lemma auto_request_passes:
  "\<not> mark_moved st t auto_request" "\<not> over_limit c t auto_request" "rq_ack auto_request = None"
  by (simp_all add: mark_moved_def over_limit_def auto_request_def)

definition auto_conn :: "'tx conn \<Rightarrow> string list \<Rightarrow> 'tx conn" where
  "auto_conn c ts = foldl (\<lambda>c t. subscribed_conn c t auto_request) c ts"

lemma auto_conn_simps [simp]:
  "auto_conn c [] = c" "auto_conn c (t # ts) = auto_conn (subscribed_conn c t auto_request) ts"
  by (simp_all add: auto_conn_def)

lemma subscribed_conn_fields [simp]:
  "c_user (subscribed_conn c t rq) = c_user c" "c_device (subscribed_conn c t rq) = c_device c"
  "c_authenticated (subscribed_conn c t rq) = c_authenticated c" "c_tx (subscribed_conn c t rq) = c_tx c"
  "c_closer (subscribed_conn c t rq) = c_closer c" "c_client (subscribed_conn c t rq) = c_client c"
  by (simp_all add: subscribed_conn_def)

lemma auto_conn_fields [simp]:
  "c_user (auto_conn c ts) = c_user c" "c_device (auto_conn c ts) = c_device c"
  "c_authenticated (auto_conn c ts) = c_authenticated c" "c_tx (auto_conn c ts) = c_tx c"
  "c_explicit (auto_conn c ts) = c_explicit c" "c_closer (auto_conn c ts) = c_closer c"
  "c_client (auto_conn c ts) = c_client c"
  by (induction ts arbitrary: c) (simp_all add: subscribed_conn_def auto_request_def)

lemma auto_conn_topics:
  "map_of (c_topics (auto_conn c ts)) t \<noteq> None \<longleftrightarrow> t \<in> set ts \<or> map_of (c_topics c) t \<noteq> None"
proof (induction ts arbitrary: c)
  case (Cons u ts)
  have "map_of (c_topics (subscribed_conn c u auto_request)) t \<noteq> None \<longleftrightarrow> t = u \<or> map_of (c_topics c) t \<noteq> None"
    by (auto simp: subscribed_conn_def)
  with Cons [of "subscribed_conn c u auto_request"] show ?case by (simp del: not_None_eq) blast
qed simp

lemma subscribe_locked_ok:
  assumes inv: "hub_inv st" and c: "get_conn st i = Some c"
    and pass: "\<not> mark_moved st t rq" "\<not> over_limit c t rq" "rq_ack rq = None"
  obtains cur st' where "subscribe_locked f st i t rq slow = (Inr cur, st', slow)"
    and "hub_inv st'" and "get_conn st' = (get_conn st)(i \<mapsto> subscribed_conn c t rq)"
    and "dom (tmap st') = insert t (dom (tmap st))"
proof -
  from subscribed_state_inv [OF inv c, of t rq] obtain s where
    s: "tmap (ensure_topic st t) t = Some s"
    and st': "hub_inv (subscribed_state (ensure_topic st t) i t rq c s)"
      "get_conn (subscribed_state (ensure_topic st t) i t rq c s) = (get_conn st)(i \<mapsto> subscribed_conn c t rq)"
      "dom (tmap (subscribed_state (ensure_topic st t) i t rq c s)) = insert t (dom (tmap st))"
    by metis
  show ?thesis
    using subscribe_locked_pass [OF c pass(1,2) s, of f slow] st'
    by (intro that [of "cursor_of s" "subscribed_state (ensure_topic st t) i t rq c s"])
       (simp_all add: pass(3) Let_def)
qed

lemma subscribe_auto_ok:
  assumes "hub_inv st" and "get_conn st i = Some c"
  shows "\<exists>st'. subscribe_auto f i ts st slow = (Inr (), st', slow) \<and> hub_inv st' \<and>
    get_conn st' = (get_conn st)(i \<mapsto> auto_conn c ts)"
  using assms
proof (induction ts arbitrary: st c)
  case Nil
  then show ?case by (simp add: fun_upd_idem)
next
  case (Cons t ts)
  from subscribe_locked_ok [OF Cons.prems auto_request_passes, of f t slow] obtain cur st1 where
    s1: "subscribe_locked f st i t auto_request slow = (Inr cur, st1, slow)" "hub_inv st1"
      "get_conn st1 = (get_conn st)(i \<mapsto> subscribed_conn c t auto_request)"
    by metis
  have "get_conn st1 i = Some (subscribed_conn c t auto_request)" by (simp add: s1)
  from Cons.IH [OF s1(2) this] obtain st' where
    "subscribe_auto f i ts st1 slow = (Inr (), st', slow)" "hub_inv st'"
    "get_conn st' = (get_conn st1)(i \<mapsto> auto_conn (subscribed_conn c t auto_request) ts)" by blast
  then show ?case using s1 by (intro exI [of _ st']) (simp add: fun_eq_iff)
qed

subsection \<open>Binding an identity\<close>

lemma conns_ok_bind:
  fixes cs :: "'tx conns"
  assumes ok: "conns_ok cs" and c: "map_of (by_id cs) i = Some c"
    and fresh: "c_user c = None" "c_device c = None"
    and dev: "\<And>d t. dv = Some (d, t) \<Longrightarrow> (\<exists>u. usr = Some u \<and> device_topic_of u d = Inr t)"
    and free: "\<And>d t. dv = Some (d, t) \<Longrightarrow> map_of (devices cs) d = None"
    and cs': "by_id cs' = AList.update i (c\<lparr>c_authenticated := True, c_user := usr, c_device := dv\<rparr>) (by_id cs)"
      "per_user cs' = (case usr of None \<Rightarrow> per_user cs
         | Some u \<Rightarrow> AList.update u ((case map_of (per_user cs) u of None \<Rightarrow> 0 | Some n \<Rightarrow> n) + 1) (per_user cs))"
      "devices cs' = (case dv of None \<Rightarrow> devices cs | Some (d, _) \<Rightarrow> AList.update d i (devices cs))"
  shows "conns_ok cs'"
proof -
  let ?c = "c\<lparr>c_authenticated := True, c_user := usr, c_device := dv\<rparr>"
  have by_id: "map_of (by_id cs') = (map_of (by_id cs))(i \<mapsto> ?c)" by (simp add: cs')
  have conn_c: "conn_ok c" using ok c by (simp add: conns_ok_def)
  have "explicit_topics ?c = explicit_topics c" by (simp add: explicit_topics_def)
  then have "conn_ok ?c" using conn_c dev by (auto simp: conn_ok_def)
  have users: "conns_of_user cs' u = (if usr = Some u then insert i (conns_of_user cs u) else conns_of_user cs u)" for u
    using c fresh by (auto simp: conns_of_user_def by_id)
  have notin: "i \<notin> conns_of_user cs u" for u using c fresh by (simp add: conns_of_user_def)
  have counts: "map_of (per_user cs) u =
      (if conns_of_user cs u = {} then None else Some (card (conns_of_user cs u)))" for u
    using ok by (simp add: conns_ok_def user_counts_ok_def)
  have "user_counts_ok cs'"
    unfolding user_counts_ok_def users cs'(2)
    using notin counts by (auto split: option.splits)
  moreover have "devices_ok cs'"
    unfolding devices_ok_def
  proof (intro allI)
    fix d j
    have dv0: "map_of (devices cs) d = Some j \<longleftrightarrow>
        (\<exists>c t. map_of (by_id cs) j = Some c \<and> c_device c = Some (d, t))"
      using ok by (simp add: conns_ok_def devices_ok_def)
    show "map_of (devices cs') d = Some j \<longleftrightarrow>
        (\<exists>c t. map_of (by_id cs') j = Some c \<and> c_device c = Some (d, t))"
    proof (cases "\<exists>t. dv = Some (d, t)")
      case True
      then obtain t where t: "dv = Some (d, t)" by blast
      have "map_of (devices cs) d = None" using free t by blast
      with dv0 t show ?thesis by (auto simp: by_id cs'(3))
    next
      case False
      then have "map_of (devices cs') d = map_of (devices cs) d"
        by (auto simp: cs'(3) split: option.splits prod.splits)
      with dv0 False fresh c show ?thesis by (auto simp: by_id)
    qed
  qed
  moreover have "hm_wf (by_id cs')" using ok by (simp add: cs' conns_ok_def)
  ultimately show ?thesis
    using ok \<open>conn_ok ?c\<close> by (auto simp: conns_ok_def by_id)
qed

text \<open>The device's previous holder, as \<^const>\<open>authenticate\<close> computes it.\<close>

definition holder_of :: "('tx, 'w) inner \<Rightarrow> conn_id \<Rightarrow> string option \<Rightarrow> conn_id option" where
  "holder_of st i dev =
     (case (case dev of None \<Rightarrow> None | Some d \<Rightarrow> map_of (devices (conns st)) d) of
        None \<Rightarrow> None | Some h \<Rightarrow> if h \<noteq> i then Some h else None)"

definition after_holder :: "('tx, 'w) inner \<Rightarrow> conn_id option \<Rightarrow> ('tx, 'w) inner" where
  "after_holder st holder = (case holder of None \<Rightarrow> st | Some h \<Rightarrow> snd (detach_locked st h))"

lemma after_holder_inv: "hub_inv st \<Longrightarrow> hub_inv (after_holder st h)"
  by (simp add: after_holder_def detach_locked_inv split: option.splits)

lemma after_holder_conn:
  "get_conn (after_holder st h) = (\<lambda>j. if Some j = h then None else get_conn st j)"
  by (auto simp: after_holder_def fun_eq_iff split: option.splits)

lemma device_free:
  assumes inv: "hub_inv st" and c: "get_conn st i = Some c" "\<not> c_authenticated c"
  shows "map_of (devices (conns (after_holder st (holder_of st i (Some d))))) d = None"
proof (rule ccontr)
  let ?st = "after_holder st (holder_of st i (Some d))"
  assume "map_of (devices (conns ?st)) d \<noteq> None"
  then obtain j where j: "map_of (devices (conns ?st)) d = Some j" by blast
  have "devices_ok (conns ?st)" "devices_ok (conns st)"
    using inv after_holder_inv [OF inv, of "holder_of st i (Some d)"] by (simp_all add: hub_inv_def conns_ok_def)
  note dv = this [unfolded devices_ok_def, rule_format]
  from j dv(1) obtain cj t where cj: "get_conn ?st j = Some cj" "c_device cj = Some (d, t)"
    by (metis get_conn_def)
  then have "get_conn st j = Some cj" and nh: "Some j \<noteq> holder_of st i (Some d)"
    by (auto simp: after_holder_conn split: if_splits)
  then have "map_of (devices (conns st)) d = Some j" using dv(2) cj(2) by (metis get_conn_def)
  then have "j = i" using nh by (auto simp: holder_of_def split: if_splits)
  then show False using c \<open>get_conn st j = Some cj\<close> cj hub_invD(5) [OF inv c(1)] by (auto simp: conn_ok_def)
qed

lemma bind_identity_ok:
  fixes st :: "('tx, 'w) inner"
  assumes inv: "hub_inv st" and c: "get_conn st i = Some c" "\<not> c_authenticated c"
    and topics: "identity_topics usr dev = Inr (ut, dt)"
  defines "h \<equiv> holder_of st i dev"
  defines "dv \<equiv> (case (dev, dt) of (Some d, Some t) \<Rightarrow> Some (d, t) | _ \<Rightarrow> None)"
  obtains st' where "bind_identity f st i usr dev ut dt h = (Inr (), st', Option.bind h (get_conn st), [])"
    and "hub_inv st'"
    and "get_conn st' = (get_conn (after_holder st h))
       (i \<mapsto> auto_conn (c\<lparr>c_authenticated := True, c_user := usr, c_device := dv\<rparr>) (List.map_filter id [ut, dt]))"
proof -
  let ?st1 = "after_holder st h"
  let ?c = "c\<lparr>c_authenticated := True, c_user := usr, c_device := dv\<rparr>"
  let ?cs1 = "(case usr of None \<Rightarrow> conns ?st1
     | Some u \<Rightarrow> (conns ?st1)\<lparr>per_user := AList.update u
         ((case map_of (per_user (conns ?st1)) u of None \<Rightarrow> 0 | Some n \<Rightarrow> n) + 1) (per_user (conns ?st1))\<rparr>)"
  let ?cs2 = "(case dv of None \<Rightarrow> ?cs1 | Some (d, _) \<Rightarrow> ?cs1\<lparr>devices := AList.update d i (devices ?cs1)\<rparr>)"
  let ?st3 = "put_conn (?st1\<lparr>conns := ?cs2\<rparr>) i ?c"
  have inv1: "hub_inv ?st1" by (rule after_holder_inv [OF inv])
  have hi: "h \<noteq> Some i" by (auto simp: h_def holder_of_def split: option.splits)
  have c1: "get_conn ?st1 i = Some c" using c(1) hi by (simp add: after_holder_conn)
  have by_id2: "by_id ?cs2 = by_id (conns ?st1)" by (auto split: option.splits)
  have fresh: "c_user c = None" "c_device c = None"
    using hub_invD(5) [OF inv c(1)] c(2) by (simp_all add: conn_ok_def)
  have dev: "\<exists>u. usr = Some u \<and> device_topic_of u d = Inr t" if "dv = Some (d, t)" for d t
    using that topics by (auto simp: dv_def identity_topics_def split: option.splits sum.splits)
  have free: "map_of (devices (conns ?st1)) d = None" if "dv = Some (d, t)" for d t
    using that device_free [OF inv c, of d] by (auto simp: dv_def h_def split: option.splits)
  have conn2: "get_conn (?st1\<lparr>conns := ?cs2\<rparr>) = get_conn ?st1"
    by (simp add: fun_eq_iff get_conn_def by_id2)
  have "conns_ok (conns ?st3)"
    by (rule conns_ok_bind [OF hub_invD(2) [OF inv1], of i c dv usr])
       (use c1 fresh dev free by_id2 in \<open>auto simp: get_conn_def put_conn_def set_by_id_def split: option.splits\<close>)
  moreover have conn3: "get_conn ?st3 = (get_conn ?st1)(i \<mapsto> ?c)"
    using conn2 by simp
  moreover have "linked ?st3"
    using c1 unfolding linked_def conn3 by (auto simp: hub_invD(6) [OF inv1] conn_sub_def)
  ultimately have inv3: "hub_inv ?st3"
    using hub_invD(1,4) [OF inv1] c1 unfolding hub_inv_def conn3 by auto
  have c3: "get_conn ?st3 i = Some ?c" by (simp add: conn3)
  obtain st' where st': "subscribe_auto f i (List.map_filter id [ut, dt]) ?st3 [] = (Inr (), st', [])"
    "hub_inv st'" "get_conn st' = (get_conn ?st3)(i \<mapsto> auto_conn ?c (List.map_filter id [ut, dt]))"
    using subscribe_auto_ok [OF inv3 c3, of f "List.map_filter id [ut, dt]" "[]"] by blast
  have split_holder: "(case h of None \<Rightarrow> (None, st) | Some h \<Rightarrow> detach_locked st h) =
      (Option.bind h (get_conn st), ?st1)"
    by (auto simp: after_holder_def detach_locked_fst [symmetric] split: option.splits)
  have dv_eq: "dv = (case dev of None \<Rightarrow> None | Some d \<Rightarrow> (case dt of None \<Rightarrow> None | Some t \<Rightarrow> Some (d, t)))"
    by (simp add: dv_def)
  have g2: "get_conn (?st1\<lparr>conns := ?cs2\<rparr>) i = Some c"
    using c1 by (simp add: get_conn_def by_id2)
  have "bind_identity f st i usr dev ut dt h = (Inr (), st', Option.bind h (get_conn st), [])"
    using g2 st'(1)
    unfolding bind_identity_def Let_def split_holder prod.case dv_eq [symmetric] by simp
  moreover have "get_conn st' = (get_conn ?st1)(i \<mapsto> auto_conn ?c (List.map_filter id [ut, dt]))"
    unfolding st'(3) conn3 by simp
  ultimately show ?thesis using st'(2) that by blast
qed

text \<open>The guards of \<^const>\<open>authenticate\<close>: the error of the first one that fails.\<close>

definition auth_refusal :: "('tx, 'w) inner \<Rightarrow> conn_id \<Rightarrow> identity \<Rightarrow> nat \<Rightarrow> error option" where
  "auth_refusal st i idn m =
     (case identity_topics (id_user idn) (id_device idn) of
        Inl e \<Rightarrow> Some e
      | Inr _ \<Rightarrow>
          (case get_conn st i of
             None \<Rightarrow> Some gone
           | Some c \<Rightarrow>
               if c_authenticated c then Some already_authenticated
               else if (case id_user idn of None \<Rightarrow> False
                        | Some u \<Rightarrow> (case map_of (per_user (conns st)) u of None \<Rightarrow> 0 | Some n \<Rightarrow> n) \<ge> m)
               then Some too_many_connections
               else if (case holder_of st i (id_device idn) of None \<Rightarrow> False
                        | Some h \<Rightarrow> Option.bind (get_conn st h) c_user \<noteq> id_user idn)
               then Some device_conflict
               else None))"

lemma authenticate_refused:
  assumes "auth_refusal st i idn m = Some e"
  shows "authenticate f st i idn m = (Inl e, st)"
proof -
  have bind: "Option.bind oc c_user = (case oc of None \<Rightarrow> None | Some hc \<Rightarrow> c_user hc)" for oc :: "'tx conn option"
    by (cases oc) simp_all
  note defs = auth_refusal_def authenticate_def Let_def holder_of_def [symmetric] bind
  show ?thesis
  proof (cases "identity_topics (id_user idn) (id_device idn)")
    case (Inl e')
    then show ?thesis using assms unfolding defs by simp
  next
    case (Inr p)
    then show ?thesis
      using assms unfolding defs
      by (cases "get_conn st i") (simp_all add: case_prod_beta split: if_split_asm)
  qed
qed

text \<open>The identity's record and channels after a successful authentication.\<close>

definition bound_conn :: "'tx conn \<Rightarrow> identity \<Rightarrow> string option \<Rightarrow> string option \<Rightarrow> 'tx conn" where
  "bound_conn c idn ut dt =
     auto_conn (c\<lparr>c_authenticated := True, c_user := id_user idn,
                  c_device := (case (id_device idn, dt) of (Some d, Some t) \<Rightarrow> Some (d, t) | _ \<Rightarrow> None)\<rparr>)
       (List.map_filter id [ut, dt])"

lemma authenticate_accepted:
  assumes inv: "hub_inv st" and ok: "auth_refusal st i idn m = None"
  obtains c ut dt st' where "get_conn st i = Some c" "\<not> c_authenticated c"
    and "identity_topics (id_user idn) (id_device idn) = Inr (ut, dt)"
    and "authenticate f st i idn m = (Inr (), st')" and "hub_inv st'"
    and "get_conn st' = (get_conn (after_holder st (holder_of st i (id_device idn))))(i \<mapsto> bound_conn c idn ut dt)"
proof -
  let ?h = "holder_of st i (id_device idn)"
  obtain ut dt c where tp: "identity_topics (id_user idn) (id_device idn) = Inr (ut, dt)"
    and c: "get_conn st i = Some c" "\<not> c_authenticated c"
    and room: "\<not> (case id_user idn of None \<Rightarrow> False
         | Some u \<Rightarrow> (case map_of (per_user (conns st)) u of None \<Rightarrow> 0 | Some n \<Rightarrow> n) \<ge> m)"
    and same: "\<not> (case ?h of None \<Rightarrow> False | Some h \<Rightarrow> Option.bind (get_conn st h) c_user \<noteq> id_user idn)"
    using ok by (auto simp: auth_refusal_def split: sum.splits option.splits if_splits)
  have bind: "Option.bind oc c_user = (case oc of None \<Rightarrow> None | Some hc \<Rightarrow> c_user hc)" for oc :: "'tx conn option"
    by (cases oc) simp_all
  obtain st1 where st1: "bind_identity f st i (id_user idn) (id_device idn) ut dt ?h =
      (Inr (), st1, Option.bind ?h (get_conn st), [])" "hub_inv st1"
    "get_conn st1 = (get_conn (after_holder st ?h))(i \<mapsto> bound_conn c idn ut dt)"
    unfolding bound_conn_def by (rule bind_identity_ok [OF inv c tp, of f])
  let ?st2 = "case Option.bind ?h (get_conn st) of None \<Rightarrow> st1 | Some sc \<Rightarrow> signal_at st1 (c_closer sc) SupersededBy"
  let ?st3 = "case dt of None \<Rightarrow> ?st2 | Some t \<Rightarrow> broadcast ?st2 t (close_payload Superseded)"
  have "authenticate f st i idn m = (Inr (), ?st3)"
    using room same st1(1) c unfolding authenticate_def Let_def holder_of_def [symmetric] tp bind
    by (cases dt) simp_all
  moreover have "hub_inv ?st3" "get_conn ?st3 = get_conn st1"
    using st1(2) by (simp_all add: broadcast_def hand_to_broker_def signal_at_def case_prod_beta split: option.splits)
  ultimately show ?thesis using that [OF c tp, of ?st3] st1(3) by simp
qed

lemma authenticate_inv: "hub_inv st \<Longrightarrow> hub_inv (snd (authenticate f st i idn m))"
  by (cases "auth_refusal st i idn m")
     (auto simp: authenticate_refused elim: authenticate_accepted [of st i idn m f])

end
