(* ===== verification/HubReset.thy ===== *)
theory HubReset
  imports HubOps
begin

text \<open>
  The broker reset: \<^const>\<open>reset_walk\<close> visits every shard, drops the explicit subscriptions,
  keeps the channels of identities and restarts every cursor. The loops are described by their
  effect on the connections, \<^verbatim>\<open>reset_conn\<close> over the set of topics seen so far, and on the topics,
  \<^verbatim>\<open>reset_kept\<close>.
\<close>

subsection \<open>Effect on one connection\<close>

definition reset_conn :: "string set \<Rightarrow> 'tx conn \<Rightarrow> 'tx conn" where
  "reset_conn T c =
     c\<lparr>c_topics := filter (\<lambda>(t, e). \<not> (e \<and> t \<in> T)) (c_topics c),
       c_explicit := c_explicit c - card (explicit_topics c \<inter> T)\<rparr>"

lemma reset_conn_fields [simp]:
  "c_user (reset_conn T c) = c_user c" "c_device (reset_conn T c) = c_device c"
  "c_tx (reset_conn T c) = c_tx c" "c_authenticated (reset_conn T c) = c_authenticated c"
  "c_client (reset_conn T c) = c_client c" "c_closer (reset_conn T c) = c_closer c"
  by (simp_all add: reset_conn_def)

lemma reset_conn_topics:
  assumes "hm_wf (c_topics c)"
  shows "map_of (c_topics (reset_conn T c)) t =
     (if t \<in> T \<and> map_of (c_topics c) t = Some True then None else map_of (c_topics c) t)"
  using map_of_filter_wf [OF assms, of "\<lambda>(t, e). \<not> (e \<and> t \<in> T)" t]
  by (auto simp: reset_conn_def split: option.splits)

lemma reset_conn_empty [simp]: "reset_conn {} c = c"
  by (simp add: reset_conn_def)

lemma reset_conn_ok:
  assumes "conn_ok c"
  shows "conn_ok (reset_conn T c)"
proof -
  have wf: "hm_wf (c_topics c)" using assms by (simp add: conn_ok_def)
  have "explicit_topics (reset_conn T c) = explicit_topics c - T"
    unfolding explicit_topics_def reset_conn_topics [OF wf] by auto
  moreover have "card (explicit_topics c - T) = card (explicit_topics c) - card (explicit_topics c \<inter> T)"
    by (simp add: card_Diff_subset_Int)
  moreover have "hm_wf (c_topics (reset_conn T c))"
    using wf by (simp add: reset_conn_def distinct_map_filter)
  ultimately show ?thesis using assms by (simp add: conn_ok_def reset_conn_def)
qed

lemma reset_conn_insert:
  assumes ok: "conn_ok c" and t: "t \<notin> T"
  shows "reset_conn (insert t T) c =
    (let c' = reset_conn T c in
     if map_of (c_topics c) t = Some True
     then c'\<lparr>c_topics := AList.delete t (c_topics c'), c_explicit := c_explicit c' - 1\<rparr> else c')"
proof (cases "map_of (c_topics c) t = Some True")
  case True
  have wf: "distinct (map fst (c_topics c))" using ok by (simp add: conn_ok_def)
  have "\<not> (e \<and> t' \<in> insert t T) \<longleftrightarrow> \<not> (e \<and> t' \<in> T) \<and> t \<noteq> t'" if "(t', e) \<in> set (c_topics c)" for t' e
    using map_of_is_SomeI [OF wf that] True by auto
  then have "filter (\<lambda>(t', e). \<not> (e \<and> t' \<in> insert t T)) (c_topics c) =
      filter (\<lambda>(t', e). t \<noteq> t') (filter (\<lambda>(t', e). \<not> (e \<and> t' \<in> T)) (c_topics c))"
    by (auto simp: filter_filter intro!: filter_cong)
  moreover have "explicit_topics c \<inter> insert t T = insert t (explicit_topics c \<inter> T)"
    using True by (auto simp: explicit_topics_def)
  ultimately show ?thesis
    using True t by (simp add: reset_conn_def Let_def AList.delete_eq case_prod_beta)
next
  case False
  have wf: "distinct (map fst (c_topics c))" using ok by (simp add: conn_ok_def)
  have "\<not> (e \<and> t' \<in> insert t T) \<longleftrightarrow> \<not> (e \<and> t' \<in> T)" if "(t', e) \<in> set (c_topics c)" for t' e
    using map_of_is_SomeI [OF wf that] False by auto
  then have "filter (\<lambda>(t', e). \<not> (e \<and> t' \<in> insert t T)) (c_topics c) =
      filter (\<lambda>(t', e). \<not> (e \<and> t' \<in> T)) (c_topics c)"
    by (auto intro!: filter_cong)
  moreover have "explicit_topics c \<inter> insert t T = explicit_topics c \<inter> T"
    using False by (auto simp: explicit_topics_def)
  ultimately show ?thesis using False by (simp add: reset_conn_def)
qed

subsection \<open>What the loops keep\<close>

text \<open>
  \<^verbatim>\<open>reset_view st0 g st\<close>: \<^verbatim>\<open>st\<close> differs from \<^verbatim>\<open>st0\<close> in the connections, each mapped by \<^verbatim>\<open>g\<close>, and
  in the state of queues and broker and the epoch counter.
\<close>

definition reset_view :: "('tx, 'w) inner \<Rightarrow> (conn_id \<Rightarrow> 'tx conn \<Rightarrow> 'tx conn) \<Rightarrow> ('tx, 'w) inner \<Rightarrow> bool" where
  "reset_view st0 g st \<longleftrightarrow>
     (\<forall>j. get_conn st j = map_option (g j) (get_conn st0 j)) \<and> hm_wf (by_id (conns st)) \<and>
     per_user (conns st) = per_user (conns st0) \<and> devices (conns st) = devices (conns st0) \<and>
     hasher st = hasher st0 \<and> next_conn st = next_conn st0 \<and> revocations st = revocations st0 \<and>
     broker st = broker st0 \<and> shards st = shards st0 \<and> closers st = closers st0 \<and> clients st = clients st0"

lemma reset_view_frames [simp]:
  "reset_view st0 g (st\<lparr>world := w\<rparr>) = reset_view st0 g st"
  "reset_view st0 g (st\<lparr>next_epoch := n\<rparr>) = reset_view st0 g st"
  "reset_view st0 g (snd (try_send_to f tx fr st)) = reset_view st0 g st"
  by (simp_all add: reset_view_def try_send_to_def case_prod_beta)

lemma try_send_next_epoch [simp]: "next_epoch (snd (try_send_to f tx fr st)) = next_epoch st"
  by (simp add: try_send_to_def case_prod_beta)

lemma reset_view_put:
  assumes "reset_view st0 g st" and "get_conn st0 i = Some c0"
  shows "reset_view st0 (g(i := \<lambda>_. c)) (put_conn st i c)"
  using assms by (auto simp: reset_view_def put_conn_def set_by_id_def get_conn_def fun_eq_iff)

text \<open>A connection's explicit subscription to a topic, by the connection's own record.\<close>

definition holds_explicit :: "('tx, 'w) inner \<Rightarrow> string \<Rightarrow> conn_id \<Rightarrow> bool" where
  "holds_explicit st t i \<longleftrightarrow> (\<exists>c. get_conn st i = Some c \<and> map_of (c_topics c) t = Some True)"

text \<open>The effect after the topics \<^verbatim>\<open>T\<close> and, of topic \<^verbatim>\<open>t\<close>, the subscribers \<^verbatim>\<open>I\<close>.\<close>

definition reset_upto :: "string set \<Rightarrow> string \<Rightarrow> conn_id set \<Rightarrow> conn_id \<Rightarrow> 'tx conn \<Rightarrow> 'tx conn" where
  "reset_upto T t I j = reset_conn (if j \<in> I then insert t T else T)"

lemma reset_view_cong:
  "reset_view st0 g st \<Longrightarrow> (\<And>j c. get_conn st0 j = Some c \<Longrightarrow> g j c = g' j c) \<Longrightarrow> reset_view st0 g' st"
  by (auto simp: reset_view_def map_option_case split: option.splits)

lemma reset_subs_spec:
  assumes inv: "hub_inv st0" and t: "t \<notin> T"
    and view: "reset_view st0 (reset_upto T t I) st" and wf: "hm_wf subs" and fresh: "set (keys subs) \<inter> I = {}"
    and eq: "reset_subs f t fr1 fr2 subs st slow = (kept, st', slow')"
  shows "reset_view st0 (reset_upto T t (I \<union> set (keys subs))) st' \<and>
    kept = filter (\<lambda>(i, _). \<not> holds_explicit st0 t i) subs \<and> next_epoch st' = next_epoch st"
  using view wf fresh eq
proof (induction subs arbitrary: st slow I kept st' slow')
  case Nil
  then show ?case by simp
next
  case (Cons p subs)
  obtain i tx where p: "p = (i, tx)" by (cases p)
  have iI: "i \<notin> I" using Cons.prems(3) p by simp
  have ci: "get_conn st i = map_option (reset_conn T) (get_conn st0 i)"
    using Cons.prems(1) iI by (simp add: reset_view_def reset_upto_def)
  let ?ex = "case get_conn st i of None \<Rightarrow> False
    | Some c \<Rightarrow> (case map_of (c_topics c) t of None \<Rightarrow> False | Some e \<Rightarrow> e)"
  have ex: "?ex = holds_explicit st0 t i"
    using hub_invD(5) [OF inv, of i] t
    by (auto simp: ci holds_explicit_def conn_ok_def reset_conn_topics split: option.splits)
  let ?st1 = "case get_conn st i of None \<Rightarrow> st
    | Some c \<Rightarrow> if ?ex then put_conn st i (c\<lparr>c_topics := AList.delete t (c_topics c), c_explicit := c_explicit c - 1\<rparr>) else st"
  have view1: "reset_view st0 (reset_upto T t (insert i I)) ?st1"
  proof (cases "get_conn st0 i")
    case None
    then have st1: "?st1 = st" by (simp add: ci)
    show ?thesis unfolding st1
      by (rule reset_view_cong [OF Cons.prems(1)]) (use None in \<open>auto simp: reset_upto_def\<close>)
  next
    case (Some c)
    note ins = reset_conn_insert [OF hub_invD(5) [OF inv Some] t]
    have cs: "get_conn st i = Some (reset_conn T c)" by (simp add: ci Some)
    show ?thesis
    proof (cases ?ex)
      case True
      then have st1: "?st1 = put_conn st i (reset_conn (insert t T) c)"
        using ex ins cs Some by (simp add: holds_explicit_def Let_def)
      show ?thesis unfolding st1
        by (rule reset_view_cong [OF reset_view_put [OF Cons.prems(1) Some]])
           (use Some in \<open>auto simp: reset_upto_def\<close>)
    next
      case False
      then have st1: "?st1 = st" using cs by simp
      have "reset_conn (insert t T) c = reset_conn T c"
        using False ex ins Some by (simp add: holds_explicit_def)
      then show ?thesis unfolding st1
        by (intro reset_view_cong [OF Cons.prems(1)]) (use Some in \<open>auto simp: reset_upto_def\<close>)
    qed
  qed
  obtain sent st2 where s: "try_send_to f tx (if ?ex then fr2 else fr1) ?st1 = (sent, st2)" by fastforce
  have view2: "reset_view st0 (reset_upto T t (insert i I)) st2"
    using view1 reset_view_frames(3) [of st0 _ f tx "if ?ex then fr2 else fr1" ?st1]
    unfolding s snd_conv by simp
  have ne: "next_epoch st2 = next_epoch st"
    using try_send_next_epoch [of f tx "if ?ex then fr2 else fr1" ?st1] unfolding s snd_conv
    by (simp split: option.splits)
  obtain kept' where r: "reset_subs f t fr1 fr2 subs st2 (if sent then slow else slow @ [i]) = (kept', st', slow')"
    and kept: "kept = (if ?ex then kept' else (i, tx) # kept')"
    using Cons.prems(4) s unfolding p by (auto simp: Let_def split: prod.splits)
  have "reset_view st0 (reset_upto T t (insert i I \<union> set (keys subs))) st' \<and>
    kept' = filter (\<lambda>(i, _). \<not> holds_explicit st0 t i) subs \<and> next_epoch st' = next_epoch st2"
    using Cons.prems(2,3) p by (intro Cons.IH [OF view2 _ _ r]) auto
  then show ?case using kept ex ne p by simp
qed

subsection \<open>What is kept of the topics\<close>

definition auto_subs :: "('tx, 'w) inner \<Rightarrow> string \<Rightarrow> 'tx topic_state \<Rightarrow> (conn_id, 'tx) hashmap" where
  "auto_subs st t s = filter (\<lambda>(i, _). \<not> holds_explicit st t i) (subscribers s)"

definition kept_ok :: "('tx, 'w) inner \<Rightarrow> string \<Rightarrow> 'tx topic_state option \<Rightarrow> 'tx topic_state option \<Rightarrow> bool" where
  "kept_ok st t os os' \<longleftrightarrow>
     (case os of
        None \<Rightarrow> os' = None
      | Some s \<Rightarrow>
          if auto_subs st t s = [] then os' = None
          else \<exists>e \<le> JS_SAFE. os' = Some \<lparr>subscribers = auto_subs st t s, cursor_of = \<lparr>epoch = e, seq = 0\<rparr>\<rparr>)"

definition reset_kept :: "('tx, 'w) inner \<Rightarrow> (string, 'tx topic_state) hashmap \<Rightarrow> (string, 'tx topic_state) hashmap \<Rightarrow> bool" where
  "reset_kept st xs kept \<longleftrightarrow> hm_wf kept \<and> (\<forall>t. kept_ok st t (map_of xs t) (map_of kept t))"

lemma kept_ok_None [simp]: "kept_ok st t None os' \<longleftrightarrow> os' = None"
  by (simp add: kept_ok_def)

lemma reset_kept_None: "reset_kept st xs kept \<Longrightarrow> map_of xs t = None \<Longrightarrow> map_of kept t = None"
  unfolding reset_kept_def by (metis kept_ok_None)

lemma reset_kept_Cons:
  assumes kept: "reset_kept st xs kept" and t: "map_of xs t = None" and e: "e \<le> JS_SAFE"
  shows "reset_kept st ((t, s) # xs)
    (if auto_subs st t s \<noteq> [] then (t, \<lparr>subscribers = auto_subs st t s, cursor_of = \<lparr>epoch = e, seq = 0\<rparr>\<rparr>) # kept else kept)"
    (is "reset_kept st _ ?kept")
proof -
  have none: "map_of kept t = None" by (rule reset_kept_None [OF kept t])
  then have "t \<notin> set (keys kept)" by (simp add: map_of_eq_None_iff)
  then have "hm_wf ?kept" using kept by (simp add: reset_kept_def)
  moreover have "kept_ok st t' (map_of ((t, s) # xs) t') (map_of ?kept t')" for t'
  proof (cases "t' = t")
    case True
    then show ?thesis using none e by (auto simp: kept_ok_def)
  next
    case False
    then show ?thesis using kept unfolding reset_kept_def by simp
  qed
  ultimately show ?thesis unfolding reset_kept_def by blast
qed

lemma reset_topics_spec:
  assumes inv: "hub_inv st0" and view: "reset_view st0 (\<lambda>_. reset_conn T) st" and wf: "hm_wf xs"
    and xs: "\<And>t s. map_of xs t = Some s \<Longrightarrow> t \<notin> T \<and> tmap st0 t = Some s"
    and eq: "reset_topics f xs st slow = (kept, st', slow')"
  shows "reset_view st0 (\<lambda>_. reset_conn (T \<union> set (keys xs))) st' \<and> reset_kept st0 xs kept"
  using view wf xs eq
proof (induction xs arbitrary: T st slow kept st' slow')
  case Nil
  then show ?case by (auto simp: reset_kept_def)
next
  case (Cons p xs)
  obtain t s where p: "p = (t, s)" by (cases p)
  have t: "t \<notin> T" "tmap st0 t = Some s" using Cons.prems(3) [of t s] p by auto
  have fresh: "map_of xs t = None" using Cons.prems(2) p by (simp add: map_of_eq_None_iff)
  define e where "e = fst (new_epoch st)"
  have e: "e \<le> JS_SAFE" by (simp add: e_def)
  let ?st1 = "st\<lparr>next_epoch := next_epoch st + 1\<rparr>"
  have ne: "new_epoch st = (e, ?st1)" by (simp add: e_def prod_eq_iff)
  obtain subs st2 slow2 where r: "reset_subs f t (reset_frame t e) (unsubscribed_frame t ''reset'') (subscribers s) ?st1 slow = (subs, st2, slow2)"
    by (metis prod_cases3)
  have "reset_view st0 (reset_upto T t {}) ?st1"
    using Cons.prems(1) by (simp add: reset_upto_def [abs_def])
  moreover have "hm_wf (subscribers s)"
    using index_okD(2) [OF hub_invD(1) [OF inv] t(2)] by (simp add: topic_ok_def)
  ultimately have sub: "reset_view st0 (reset_upto T t (set (keys (subscribers s)))) st2"
    "subs = auto_subs st0 t s"
    using reset_subs_spec [OF inv t(1) _ _ _ r, of "{}"] by (simp_all add: auto_subs_def)
  have view2: "reset_view st0 (\<lambda>_. reset_conn (insert t T)) st2"
  proof (rule reset_view_cong [OF sub(1)])
    fix j c assume c: "get_conn st0 j = Some c"
    show "reset_upto T t (set (keys (subscribers s))) j c = reset_conn (insert t T) c"
    proof (cases "j \<in> set (keys (subscribers s))")
      case False
      then have "sub_of st0 t j = None" using t(2) map_of_None_keys [of "subscribers s" j] by (simp add: sub_of_def)
      then have "map_of (c_topics c) t = None"
        using c by (auto simp: hub_invD(6) [OF inv] conn_sub_def split: if_splits)
      then show ?thesis
        using False reset_conn_insert [OF hub_invD(5) [OF inv c] t(1)] by (simp add: reset_upto_def)
    qed (simp add: reset_upto_def)
  qed
  let ?st3 = "if subs \<noteq> [] then st2 else st2\<lparr>world := br_unsubscribe (broker st2) t (world st2)\<rparr>"
  have view3: "reset_view st0 (\<lambda>_. reset_conn (insert t T)) ?st3" using view2 by simp
  obtain kept' where r': "reset_topics f xs ?st3 slow2 = (kept', st', slow')"
    and kept: "kept = (if subs \<noteq> [] then (t, \<lparr>subscribers = subs, cursor_of = \<lparr>epoch = e, seq = 0\<rparr>\<rparr>) # kept' else kept')"
    using Cons.prems(4) unfolding p reset_topics.simps ne prod.case Let_def r
    by (auto split: prod.splits)
  have "reset_view st0 (\<lambda>_. reset_conn (insert t T \<union> set (keys xs))) st' \<and> reset_kept st0 xs kept'"
  proof (rule Cons.IH [OF view3 _ _ r'])
    show "hm_wf xs" using Cons.prems(2) by simp
    fix t' s' assume m: "map_of xs t' = Some s'"
    then have "t' \<noteq> t" using fresh by auto
    then show "t' \<notin> insert t T \<and> tmap st0 t' = Some s'" using Cons.prems(3) [of t' s'] m p by simp
  qed
  moreover from this have "reset_kept st0 (p # xs) kept"
    using reset_kept_Cons [OF _ fresh e, of st0 kept' s] unfolding kept sub(2) p by blast
  ultimately show ?case using p by simp
qed

lemma reset_shards_spec:
  assumes inv: "hub_inv st0" and view: "reset_view st0 (\<lambda>_. reset_conn T) st"
    and wf: "\<And>sh. sh \<in> set shs \<Longrightarrow> hm_wf sh"
    and xs: "\<And>sh t s. sh \<in> set shs \<Longrightarrow> map_of sh t = Some s \<Longrightarrow> t \<notin> T \<and> tmap st0 t = Some s"
    and disj: "sorted_wrt (\<lambda>a b. set (keys a) \<inter> set (keys b) = {}) shs"
    and eq: "reset_shards f shs st slow = (shs', st', slow')"
  shows "reset_view st0 (\<lambda>_. reset_conn (T \<union> (\<Union>sh\<in>set shs. set (keys sh)))) st' \<and> list_all2 (reset_kept st0) shs shs'"
  using view wf xs disj eq
proof (induction shs arbitrary: T st slow shs' st' slow')
  case Nil
  then show ?case by simp
next
  case (Cons sh shs)
  obtain sh' st1 slow1 where r: "reset_topics f sh st slow = (sh', st1, slow1)" by (metis prod_cases3)
  obtain rest' where r': "reset_shards f shs st1 slow1 = (rest', st', slow')" and shs': "shs' = sh' # rest'"
    using Cons.prems(5) r by (auto split: prod.splits)
  have one: "reset_view st0 (\<lambda>_. reset_conn (T \<union> set (keys sh))) st1" "reset_kept st0 sh sh'"
    using reset_topics_spec [OF inv Cons.prems(1) Cons.prems(2) Cons.prems(3) [of sh] r] by simp_all
  have "reset_view st0 (\<lambda>_. reset_conn ((T \<union> set (keys sh)) \<union> (\<Union>x\<in>set shs. set (keys x)))) st' \<and>
      list_all2 (reset_kept st0) shs rest'"
  proof (rule Cons.IH [OF one(1) _ _ _ r'])
    fix x t s assume x: "x \<in> set shs" "map_of x t = Some s"
    then have "t \<in> set (keys x)" using map_of_None_keys [of x t] by (simp del: set_map)
    moreover have "set (keys sh) \<inter> set (keys x) = {}" using Cons.prems(4) x(1) by simp
    ultimately have "t \<notin> set (keys sh)" by blast
    then show "t \<notin> T \<union> set (keys sh) \<and> tmap st0 t = Some s" using Cons.prems(3) [of x t s] x by simp
  next
    show "hm_wf x" if "x \<in> set shs" for x using Cons.prems(2) that by simp
    show "sorted_wrt (\<lambda>a b. set (keys a) \<inter> set (keys b) = {}) shs" using Cons.prems(4) by simp
  qed
  then show ?case using one(2) shs' by (simp add: Un_assoc)
qed

subsection \<open>The whole reset\<close>

lemma shards_okD:
  assumes "shards_ok st"
  shows "length (shards st) = SHARDS" "k < SHARDS \<Longrightarrow> hm_wf (shards st ! k)"
    "k < SHARDS \<Longrightarrow> map_of (shards st ! k) t = Some s \<Longrightarrow> shard_index st t = k"
  using assms unfolding shards_ok_def by blast+

lemma in_keys: "t \<in> set (keys m) \<longleftrightarrow> (\<exists>s. map_of m t = Some s)"
  using map_of_None_keys [of m t] by (simp del: set_map not_None_eq add: not_None_eq [symmetric])

lemma shards_disjoint:
  assumes ok: "shards_ok st"
  shows "sorted_wrt (\<lambda>a b. set (keys a) \<inter> set (keys b) = {}) (shards st)"
proof -
  have "set (keys (shards st ! i)) \<inter> set (keys (shards st ! j)) = {}" if "i < j" "j < SHARDS" for i j
  proof (rule ccontr)
    assume "set (keys (shards st ! i)) \<inter> set (keys (shards st ! j)) \<noteq> {}"
    then obtain t where "t \<in> set (keys (shards st ! i))" "t \<in> set (keys (shards st ! j))" by blast
    then obtain s s' where "map_of (shards st ! i) t = Some s" "map_of (shards st ! j) t = Some s'"
      unfolding in_keys by blast
    then have "shard_index st t = i" "shard_index st t = j"
      using that shards_okD(3) [OF ok, of i t s] shards_okD(3) [OF ok, of j t s'] by simp_all
    then show False using that by simp
  qed
  then show ?thesis by (simp add: sorted_wrt_iff_nth_less shards_okD(1) [OF ok] del: set_map)
qed

lemma shards_topics:
  assumes ok: "shards_ok st"
  shows "sh \<in> set (shards st) \<Longrightarrow> hm_wf sh"
    and "sh \<in> set (shards st) \<Longrightarrow> map_of sh t = Some s \<Longrightarrow> tmap st t = Some s"
    and "tmap st t = Some s \<Longrightarrow> t \<in> (\<Union>sh\<in>set (shards st). set (keys sh))"
proof -
  note len = shards_okD(1) [OF ok]
  show "hm_wf sh" if "sh \<in> set (shards st)"
    using that shards_okD(2) [OF ok] unfolding in_set_conv_nth len by blast
  show "tmap st t = Some s" if mem: "sh \<in> set (shards st)" and m: "map_of sh t = Some s"
  proof -
    obtain k where k: "k < SHARDS" "shards st ! k = sh" using mem len by (auto simp: in_set_conv_nth)
    then have "shard_index st t = k" using m shards_okD(3) [OF ok, of k t s] by simp
    then show ?thesis using k m by (simp add: tmap_def read_shard_def)
  qed
  show "t \<in> (\<Union>sh\<in>set (shards st). set (keys sh))" if "tmap st t = Some s"
  proof
    show "shards st ! shard_index st t \<in> set (shards st)" using len by simp
    show "t \<in> set (keys (shards st ! shard_index st t))"
      using that unfolding in_keys by (simp add: tmap_def read_shard_def)
  qed
qed

lemma reset_conn_UNIV:
  assumes "\<And>t e. (t, e) \<in> set (c_topics c) \<Longrightarrow> t \<in> T"
  shows "reset_conn T c = reset_conn UNIV c"
proof -
  have "filter (\<lambda>(t, e). \<not> (e \<and> t \<in> T)) (c_topics c) = filter (\<lambda>(t, e). \<not> (e \<and> t \<in> UNIV)) (c_topics c)"
    using assms by (intro filter_cong) auto
  moreover have "explicit_topics c \<inter> T = explicit_topics c \<inter> UNIV"
    using assms map_of_SomeD [of "c_topics c"] unfolding explicit_topics_def by blast
  ultimately show ?thesis unfolding reset_conn_def by presburger
qed

text \<open>Mapping every connection by a function that keeps users and devices.\<close>

lemma conns_ok_mapped:
  assumes ok: "conns_ok (conns st0)" and view: "reset_view st0 (\<lambda>_. reset_conn T) st"
  shows "conns_ok (conns st)"
proof -
  have by_id: "map_of (by_id (conns st)) j = map_option (reset_conn T) (map_of (by_id (conns st0)) j)" for j
    using view by (simp add: reset_view_def get_conn_def)
  have users: "conns_of_user (conns st) u = conns_of_user (conns st0) u" for u
    by (auto simp: conns_of_user_def by_id)
  have "user_counts_ok (conns st)"
    using ok view by (simp add: conns_ok_def user_counts_ok_def users reset_view_def)
  moreover have "devices_ok (conns st)"
    using ok view by (auto simp: conns_ok_def devices_ok_def by_id reset_view_def)
  moreover have "conn_ok c" if "map_of (by_id (conns st)) j = Some c" for j c
    using that ok by (auto simp: by_id conns_ok_def reset_conn_ok)
  moreover have "hm_wf (by_id (conns st))" using view by (simp add: reset_view_def)
  ultimately show ?thesis by (simp add: conns_ok_def)
qed

lemma auto_subs_lookup:
  assumes "hm_wf (subscribers s)"
  shows "map_of (auto_subs st t s) i = (if holds_explicit st t i then None else map_of (subscribers s) i)"
  unfolding auto_subs_def by (simp add: map_of_filter_wf [OF assms] split: option.splits)

lemma reset_all_topics:
  assumes inv: "hub_inv st0" and view: "reset_view st0 (\<lambda>_. reset_conn (\<Union>sh\<in>set (shards st0). set (keys sh))) st1"
  shows "get_conn st1 i = map_option (reset_conn UNIV) (get_conn st0 i)"
proof (cases "get_conn st0 i")
  case (Some c)
  let ?T = "\<Union>sh\<in>set (shards st0). set (keys sh)"
  have "t \<in> ?T" if "(t, e) \<in> set (c_topics c)" for t e
  proof -
    have "map_of (c_topics c) t = Some e"
      using that hub_invD(5) [OF inv Some] by (simp add: conn_ok_def)
    then have "sub_of st0 t i \<noteq> None" using Some inv by (simp add: hub_invD(6) conn_sub_def)
    then obtain s where "tmap st0 t = Some s" by (auto simp: sub_of_def split: option.splits)
    then show ?thesis by (rule shards_topics(3) [OF index_okD(1) [OF hub_invD(1) [OF inv]]])
  qed
  then have "reset_conn ?T c = reset_conn UNIV c" by (rule reset_conn_UNIV)
  then show ?thesis using view Some by (simp add: reset_view_def)
qed (use view in \<open>simp add: reset_view_def\<close>)

lemma reset_index:
  assumes sh: "shards_ok st0" and kept: "list_all2 (reset_kept st0) (shards st0) (shards st')"
    and hash: "hasher st' = hasher st0"
  shows "shards_ok st'" and "kept_ok st0 t (tmap st0 t) (tmap st' t)"
proof -
  note len0 = shards_okD(1) [OF sh]
  have len: "length (shards st') = SHARDS" using kept len0 by (simp add: list_all2_lengthD)
  have si: "shard_index st' = shard_index st0" using hash len len0 by (intro shard_index_cong) simp_all
  have kept_k: "reset_kept st0 (shards st0 ! k) (shards st' ! k)" if "k < SHARDS" for k
    using kept that len0 by (simp add: list_all2_nthD)
  have "reset_kept st0 (shards st0 ! shard_index st0 t) (shards st' ! shard_index st0 t)"
    by (intro kept_k shard_index_lt len0)
  then show "kept_ok st0 t (tmap st0 t) (tmap st' t)"
    unfolding reset_kept_def tmap_def read_shard_def si by blast
  have "shard_index st' t = k" if "k < SHARDS" "map_of (shards st' ! k) t = Some s" for k t s
    using shards_okD(3) [OF sh that(1), of t] reset_kept_None [OF kept_k [OF that(1)], of t] that(2)
    unfolding si by (cases "map_of (shards st0 ! k) t") auto
  then show "shards_ok st'" using kept_k len unfolding shards_ok_def reset_kept_def by simp
qed

lemma reset_sub_of:
  assumes inv: "hub_inv st0" and tm: "kept_ok st0 t (tmap st0 t) (tmap st' t)"
    and conn: "get_conn st' i = map_option (reset_conn UNIV) (get_conn st0 i)"
  shows "sub_of st' t i = conn_sub (get_conn st' i) t"
proof -
  have "sub_of st' t i = (if holds_explicit st0 t i then None else sub_of st0 t i)"
  proof (cases "tmap st0 t")
    case None
    then show ?thesis using tm by (simp add: sub_of_def)
  next
    case (Some s)
    have "hm_wf (subscribers s)"
      using index_okD(2) [OF hub_invD(1) [OF inv] Some] by (simp add: topic_ok_def)
    from auto_subs_lookup [OF this, of st0 t i] Some tm show ?thesis
      by (cases "auto_subs st0 t s = []") (auto simp: sub_of_def kept_ok_def)
  qed
  also have "\<dots> = conn_sub (get_conn st' i) t"
    using hub_invD(5) [OF inv, of i]
    by (auto simp: hub_invD(6) [OF inv] conn conn_sub_def holds_explicit_def conn_ok_def reset_conn_topics split: option.splits)
  finally show ?thesis .
qed

lemma reset_walk_spec:
  assumes inv: "hub_inv st0" and eq: "reset_walk f st0 = (st', slow)"
  shows "hub_inv st'"
    and "get_conn st' i = map_option (reset_conn UNIV) (get_conn st0 i)"
    and "kept_ok st0 t (tmap st0 t) (tmap st' t)"
    and "revocations st' = revocations st0" and "hasher st' = hasher st0"
proof -
  have sh: "shards_ok st0" using hub_invD(1) [OF inv] by (rule index_okD)
  obtain shs st1 where r: "reset_shards f (shards st0) st0 [] = (shs, st1, slow)" and st': "st' = st1\<lparr>shards := shs\<rparr>"
    using eq by (auto simp: reset_walk_def Let_def split: prod.splits)
  have "reset_view st0 (\<lambda>_. reset_conn {}) st0"
    using hub_invD(2) [OF inv] by (simp add: reset_view_def conns_ok_def option.map_ident [unfolded id_def] map_option_idI)
  from reset_shards_spec [OF inv this _ _ shards_disjoint [OF sh] r] shards_topics [OF sh]
  have view: "reset_view st0 (\<lambda>_. reset_conn (\<Union>sh\<in>set (shards st0). set (keys sh))) st1"
    and kept: "list_all2 (reset_kept st0) (shards st0) (shards st')"
    by (auto simp: st')
  show conn: "get_conn st' i = map_option (reset_conn UNIV) (get_conn st0 i)" for i
    using reset_all_topics [OF inv view] by (simp add: st')
  show rest: "revocations st' = revocations st0" "hasher st' = hasher st0"
    using view by (simp_all add: st' reset_view_def)
  note ix = reset_index [OF sh kept rest(2)]
  show tm: "kept_ok st0 t (tmap st0 t) (tmap st' t)" for t by (rule ix)
  have "topic_ok s'" if "tmap st' t = Some s'" for t s'
    using tm [of t] that index_okD(2) [OF hub_invD(1) [OF inv], of t]
    by (auto simp: kept_ok_def topic_ok_def auto_subs_def split: option.splits if_splits)
  then have "index_ok st'" using ix(1) by (simp add: index_ok_def)
  moreover have "conns_ok (conns st')" using conns_ok_mapped [OF hub_invD(2) [OF inv] view] by (simp add: st')
  moreover have "linked st'" unfolding linked_def using reset_sub_of [OF inv tm conn] by blast
  moreover have "next_conn st' = next_conn st0" using view by (simp add: st' reset_view_def)
  ultimately show "hub_inv st'"
    using hub_invD(4) [OF inv] by (auto simp: hub_inv_def conn)
qed

end
