(* ===== verification/HubReach.thy ===== *)
theory HubReach
  imports HubAuth HubReset
begin

text \<open>
  The hub as a state machine. A step is one lock-protected block of the code, and between two
  blocks of one caller any other block may run; so the blocks are the steps, and a method of the
  hub that takes the locks more than once is a sequence of them. Every reachable state satisfies
  the invariant of \<^verbatim>\<open>HubInv\<close> and the limits of the session configuration.
\<close>

text \<open>
  \<^term>\<open>env\<close> is what may happen to the world of queues and broker between two blocks: other nodes'
  work, frames taken from a queue, a payload handed to the broker.
\<close>

inductive hub_block ::
  "('w \<Rightarrow> 'w \<Rightarrow> bool) \<Rightarrow> session_config \<Rightarrow> ('tx, 'w) sender \<Rightarrow> ('tx, 'w) inner \<Rightarrow> ('tx, 'w) inner \<Rightarrow> bool"
  for env :: "'w \<Rightarrow> 'w \<Rightarrow> bool" and cfg :: session_config and f :: "('tx, 'w) sender" where
  step_register: "next_conn st + 1 \<noteq> 0 \<Longrightarrow> hub_block env cfg f st (snd (register st tx cl co))"
| step_authenticate: "hub_block env cfg f st (snd (authenticate f st i idn (max_connections_per_user cfg)))"
| step_subscribe: "rq_explicit rq \<longrightarrow> rq_max rq = max_subscriptions cfg \<Longrightarrow>
    hub_block env cfg f st (fst (snd (subscribe_locked f st i t rq [])))"
| step_unsubscribe: "hub_block env cfg f st (snd (unsubscribe st i t))"
| step_fan_out: "hub_block env cfg f st (fst (fan_out_locked f st t name params))"
| step_kick: "hub_block env cfg f st (fst (kick_locked f st t u))"
| step_mark: "hub_block env cfg f st (st\<lparr>revocations := (revocations st)[k := revocations st ! k + 1]\<rparr>)"
| step_reset: "hub_block env cfg f st (fst (reset_walk f st))"
| step_close: "hub_block env cfg f st (close_conn st i reason)"
| step_remove: "hub_block env cfg f st (remove_conn st i)"
| step_world: "env (world st) w \<Longrightarrow> hub_block env cfg f st (st\<lparr>world := w\<rparr>)"
| step_clients: "hub_block env cfg f st (st\<lparr>clients := cl\<rparr>)"
| step_closers: "hub_block env cfg f st (st\<lparr>closers := co\<rparr>)"

text \<open>With any change of the world allowed between two blocks.\<close>

abbreviation hub_step ::
  "session_config \<Rightarrow> ('tx, 'w) sender \<Rightarrow> ('tx, 'w) inner \<Rightarrow> ('tx, 'w) inner \<Rightarrow> bool" where
  "hub_step \<equiv> hub_block (\<lambda>_ _. True)"

definition hub_reachable :: "session_config \<Rightarrow> ('tx, 'w) sender \<Rightarrow> ('tx, 'w) inner \<Rightarrow> bool" where
  "hub_reachable cfg f st \<longleftrightarrow> (\<exists>brk w hash base. (hub_step cfg f)\<^sup>*\<^sup>* (inner_new brk w hash base) st)"

inductive_cases hub_blockE: "hub_block env cfg f st st'"

subsection \<open>The invariant\<close>

lemma inner_new_inv: "hub_inv (inner_new brk w hash base :: ('tx, 'w) inner)"
proof -
  let ?st = "inner_new brk w hash base :: ('tx, 'w) inner"
  have sh: "shards ?st = replicate SHARDS []" by (simp add: inner_new_def)
  then have "shard_index ?st t < SHARDS" for t by (intro shard_index_lt) simp
  then have tm: "tmap ?st t = None" for t by (simp add: tmap_def read_shard_def sh)
  then have "index_ok ?st" "\<And>t i. sub_of ?st t i = None"
    by (simp_all add: index_ok_def shards_ok_def sub_of_def sh)
  then show ?thesis
    by (simp add: hub_inv_def conns_ok_def linked_def conn_sub_def user_counts_ok_def devices_ok_def
        conns_of_user_def get_conn_def inner_new_def)
qed

lemma remove_conn_inv: "hub_inv st \<Longrightarrow> hub_inv (remove_conn st i)"
  by (simp add: remove_conn_def detach_def detach_locked_inv)

lemma hub_step_inv: "hub_block env cfg f st st' \<Longrightarrow> hub_inv st \<Longrightarrow> hub_inv st'"
proof (induction rule: hub_block.induct)
  case (step_subscribe rq st i t)
  then show ?case
    by (cases "subscribe_locked f st i t rq []") (auto intro: subscribe_locked_inv(1))
next
  case (step_fan_out st t name params)
  then show ?case by (cases "fan_out_locked f st t name params") (auto intro: fan_out_locked_inv(1))
next
  case (step_kick st t u)
  then show ?case by (cases "kick_locked f st t u") (auto intro: kick_locked_inv(1))
next
  case (step_reset st)
  then show ?case by (cases "reset_walk f st") (auto intro: reset_walk_spec(1))
qed (simp_all add: register_inv authenticate_inv unsubscribe_inv close_conn_inv remove_conn_inv)

subsection \<open>Limits\<close>

definition user_conns :: "('tx, 'w) inner \<Rightarrow> string \<Rightarrow> conn_id set" where
  "user_conns st u = {i. \<exists>c. get_conn st i = Some c \<and> c_user c = Some u}"

lemma user_conns_eq: "user_conns st u = conns_of_user (conns st) u"
  by (simp add: user_conns_def conns_of_user_def get_conn_def)

lemma user_conns_count:
  "hub_inv st \<Longrightarrow> (case map_of (per_user (conns st)) u of None \<Rightarrow> 0 | Some n \<Rightarrow> n) = card (user_conns st u)"
  by (auto simp: hub_inv_def conns_ok_def user_counts_ok_def user_conns_eq)

definition within_limits :: "session_config \<Rightarrow> ('tx, 'w) inner \<Rightarrow> bool" where
  "within_limits cfg st \<longleftrightarrow>
     (\<forall>u. card (user_conns st u) \<le> max_connections_per_user cfg) \<and>
     (\<forall>i c. get_conn st i = Some c \<longrightarrow> c_explicit c \<le> max_subscriptions cfg)"

text \<open>A step that binds no user and adds no explicit subscription keeps within the limits.\<close>

definition no_growth :: "'tx conn option \<Rightarrow> 'tx conn option \<Rightarrow> bool" where
  "no_growth oc oc' \<longleftrightarrow>
     (case oc' of None \<Rightarrow> True
      | Some c' \<Rightarrow>
          (case oc of None \<Rightarrow> c_user c' = None \<and> c_explicit c' = 0
           | Some c \<Rightarrow> c_user c' = c_user c \<and> c_explicit c' \<le> c_explicit c))"

lemma no_growth_simps [simp]:
  "no_growth oc oc" "no_growth oc None"
  "no_growth (Some c) (Some c') \<longleftrightarrow> c_user c' = c_user c \<and> c_explicit c' \<le> c_explicit c"
  "no_growth None (Some c') \<longleftrightarrow> c_user c' = None \<and> c_explicit c' = 0"
  by (auto simp: no_growth_def split: option.splits)

lemma within_limits_mono:
  assumes lim: "within_limits cfg st" and grow: "\<And>i. no_growth (get_conn st i) (get_conn st' i)"
  shows "within_limits cfg st'"
proof -
  have "user_conns st' u \<subseteq> user_conns st u" for u
    using grow by (force simp: user_conns_def no_growth_def split: option.splits)
  then have "card (user_conns st' u) \<le> card (user_conns st u)" for u
    by (intro card_mono) (simp_all add: user_conns_eq)
  moreover have "c_explicit c \<le> max_subscriptions cfg" if "get_conn st' i = Some c" for i c
    using grow [of i] that lim by (force simp: within_limits_def no_growth_def split: option.splits)
  ultimately show ?thesis using lim unfolding within_limits_def by (meson le_trans)
qed

lemma subscribe_limits:
  assumes inv: "hub_inv st" and lim: "within_limits cfg st" and rq: "rq_explicit rq \<Longrightarrow> rq_max rq = max_subscriptions cfg"
    and eq: "subscribe_locked f st i t rq [] = (r, st', slow)"
  shows "within_limits cfg st'"
proof (cases "isl r")
  case True
  then show ?thesis using subscribe_locked_inv(2) [OF inv eq] lim by simp
next
  case False
  from subscribe_locked_inv(3) [OF inv eq this] obtain c where c: "get_conn st i = Some c" "\<not> over_limit c t rq"
    and st': "get_conn st' = (get_conn st)(i \<mapsto> subscribed_conn c t rq)" by blast
  have "c_explicit (subscribed_conn c t rq) \<le> max_subscriptions cfg"
    using c rq lim by (auto simp: subscribed_conn_def over_limit_def within_limits_def)
  moreover have "user_conns st' u = user_conns st u" for u
    using c(1) by (auto simp: user_conns_def st' subscribed_conn_def)
  ultimately show ?thesis using lim by (auto simp: within_limits_def st')
qed

lemma authenticate_limits:
  assumes inv: "hub_inv st" and lim: "within_limits cfg st"
  shows "within_limits cfg (snd (authenticate f st i idn (max_connections_per_user cfg)))"
proof (cases "auth_refusal st i idn (max_connections_per_user cfg)")
  case (Some e)
  then show ?thesis using lim by (simp add: authenticate_refused)
next
  case None
  from authenticate_accepted [OF inv None, of f] obtain c ut dt st' where
    c: "get_conn st i = Some c"
    and auth: "authenticate f st i idn (max_connections_per_user cfg) = (Inr (), st')"
    and st': "get_conn st' = (get_conn (after_holder st (holder_of st i (id_device idn))))(i \<mapsto> bound_conn c idn ut dt)"
    by metis
  have sub: "user_conns st' u \<subseteq> (if id_user idn = Some u then insert i (user_conns st u) else user_conns st u)" for u
    by (auto simp: user_conns_def st' after_holder_conn bound_conn_def split: if_splits)
  have fin: "finite (user_conns st u)" for u by (simp add: user_conns_eq)
  have "card (user_conns st' u) \<le> max_connections_per_user cfg" for u
  proof (cases "id_user idn = Some u")
    case True
    then have "card (user_conns st u) < max_connections_per_user cfg"
      using None user_conns_count [OF inv, of u]
      by (auto simp: auth_refusal_def split: sum.splits option.splits if_splits)
    moreover have "card (user_conns st' u) \<le> card (insert i (user_conns st u))"
      using sub [of u] True fin by (intro card_mono) auto
    ultimately show ?thesis using card_insert_le_m1 [of "Suc (card (user_conns st u))" "user_conns st u" i] by simp
  next
    case False
    then have "card (user_conns st' u) \<le> card (user_conns st u)" using sub [of u] fin by (intro card_mono) auto
    then show ?thesis using lim by (meson le_trans within_limits_def)
  qed
  moreover have "c_explicit c' \<le> max_subscriptions cfg" if "get_conn st' j = Some c'" for j c'
    using that lim c by (auto simp: st' after_holder_conn bound_conn_def within_limits_def split: if_splits)
  ultimately show ?thesis using auth by (simp add: within_limits_def)
qed

lemma hub_step_limits:
  "hub_block env cfg f st st' \<Longrightarrow> hub_inv st \<Longrightarrow> within_limits cfg st \<Longrightarrow> within_limits cfg st'"
proof (induction rule: hub_block.induct)
  case (step_register st tx cl co)
  have "get_conn st (next_conn st) = None"
    using hub_invD(4) [OF step_register(2), of "next_conn st"] by (cases "get_conn st (next_conn st)") auto
  then show ?case by (intro within_limits_mono [OF step_register(3)]) (simp add: register_def Let_def)
next
  case (step_subscribe rq st i t)
  then show ?case
    by (cases "subscribe_locked f st i t rq []") (auto intro: subscribe_limits)
next
  case (step_fan_out st t name params)
  then show ?case
    by (cases "fan_out_locked f st t name params")
       (auto intro!: within_limits_mono [of cfg st] dest!: fan_out_locked_inv(2))
next
  case (step_kick st t u)
  obtain st' slow where k: "kick_locked f st t u = (st', slow)" by fastforce
  have "within_limits cfg st'"
  proof (rule within_limits_mono [OF step_kick(2)])
    show "no_growth (get_conn st i) (get_conn st' i)" for i
      by (cases "get_conn st i")
         (auto simp: kick_locked_inv(2) [OF step_kick(1) k] kick_effect_def kicked_conn_def)
  qed
  then show ?case by (simp add: k)
next
  case (step_reset st)
  obtain st' slow where k: "reset_walk f st = (st', slow)" by fastforce
  have "within_limits cfg st'"
  proof (rule within_limits_mono [OF step_reset(2)])
    show "no_growth (get_conn st i) (get_conn st' i)" for i
      by (cases "get_conn st i") (auto simp: reset_walk_spec(2) [OF step_reset(1) k] reset_conn_def)
  qed
  then show ?case by (simp add: k)
next
  case (step_unsubscribe st i t)
  then show ?case
    by (intro within_limits_mono [OF step_unsubscribe(2)])
       (auto simp: unsubscribe_def Let_def split: option.splits)
next
  case (step_authenticate st i idn)
  then show ?case by (rule authenticate_limits)
qed (auto simp: remove_conn_def detach_def elim!: within_limits_mono)

lemma hub_reachable_inv:
  assumes "hub_reachable cfg f st"
  shows "hub_inv st" "within_limits cfg st"
proof -
  from assms obtain brk w hash base where r: "(hub_step cfg f)\<^sup>*\<^sup>* (inner_new brk w hash base) st"
    by (auto simp: hub_reachable_def)
  have "within_limits cfg (inner_new brk w hash base)"
    by (simp add: within_limits_def user_conns_def get_conn_def inner_new_def)
  with r have "hub_inv st \<and> within_limits cfg st"
    by (induction rule: rtranclp_induct) (auto simp: inner_new_inv intro: hub_step_inv hub_step_limits)
  then show "hub_inv st" "within_limits cfg st" by simp_all
qed

subsection \<open>Revocation marks\<close>

lemma subscribe_locked_revocations:
  "revocations (fst (snd (subscribe_locked f st i t rq slow))) = revocations st"
  unfolding subscribe_locked_def Let_def
  by (simp add: case_prod_beta split: option.splits)

lemma subscribe_auto_revocations: "revocations (fst (snd (subscribe_auto f i ts st slow))) = revocations st"
proof (induction ts arbitrary: st slow)
  case (Cons t ts)
  then show ?case
    using subscribe_locked_revocations [of f st i t auto_request slow]
    by (auto split: prod.splits sum.splits)
qed simp

lemma bind_identity_revocations:
  "revocations (fst (snd (bind_identity f st i usr dev ut dt h))) = revocations st"
proof -
  let ?st1 = "after_holder st h"
  have h: "(case h of None \<Rightarrow> (None, st) | Some h \<Rightarrow> detach_locked st h) = (Option.bind h (get_conn st), ?st1)"
    by (auto simp: after_holder_def detach_locked_fst [symmetric] split: option.splits)
  have "revocations ?st1 = revocations st" by (simp add: after_holder_def split: option.splits)
  then show ?thesis
    unfolding bind_identity_def Let_def h
    by (auto simp: case_prod_beta subscribe_auto_revocations split: option.splits)
qed

lemma authenticate_revocations: "revocations (snd (authenticate f st i idn m)) = revocations st"
proof -
  have b: "revocations st1 = revocations st"
    if "bind_identity f st i (id_user idn) (id_device idn) ut dt h = (r, st1, sup, slow)" for ut dt h r st1 sup slow
    using bind_identity_revocations [of f st i "id_user idn" "id_device idn" ut dt h] that by simp
  show ?thesis
  proof (cases "\<exists>e. identity_topics (id_user idn) (id_device idn) = Inl e \<or> get_conn st i = None")
    case True
    then show ?thesis by (auto simp: authenticate_def Let_def split: sum.splits)
  next
    case False
    then obtain ut dt c where tp: "identity_topics (id_user idn) (id_device idn) = Inr (ut, dt)"
      and c: "get_conn st i = Some c" by (metis obj_sumE surj_pair not_Some_eq)
    let ?h = "holder_of st i (id_device idn)"
    obtain r st1 sup slow where bi: "bind_identity f st i (id_user idn) (id_device idn) ut dt ?h = (r, st1, sup, slow)"
      by (metis prod_cases4)
    show ?thesis
      using b [OF bi] unfolding authenticate_def Let_def holder_of_def [symmetric] tp c sum.case prod.case option.case bi
      by (cases r; cases sup; cases dt)
         (simp_all add: signal_at_def broadcast_def hand_to_broker_def case_prod_beta)
  qed
qed

lemma fan_out_revocations: "revocations (fst (fan_out_locked f st t name params)) = revocations st"
  by (simp add: fan_out_locked_def Let_def case_prod_beta split: option.splits)

lemma revoke_length: "length (revocations (revoke st t)) = length (revocations st)"
  by (simp add: revoke_def split: option.splits)

lemma unsubscribe_revocations: "revocations (snd (unsubscribe st i t)) = revocations st"
  by (simp add: unsubscribe_def Let_def split: option.splits)

lemma hub_step_revocations:
  "hub_step cfg f st st' \<Longrightarrow> hub_inv st \<Longrightarrow> length (revocations st') = length (revocations st)"
proof (induction rule: hub_block.induct)
  case (step_kick st t u)
  then show ?case by (cases "kick_locked f st t u") (auto simp: kick_locked_inv(3) revoke_length)
next
  case (step_reset st)
  then show ?case by (cases "reset_walk f st") (auto simp: reset_walk_spec(4))
qed (simp_all add: register_def Let_def authenticate_revocations subscribe_locked_revocations
     fan_out_revocations unsubscribe_revocations remove_conn_def detach_def)

lemma reachable_revocations: "hub_reachable cfg f st \<Longrightarrow> length (revocations st) = REVOCATION_SLOTS"
proof -
  assume "hub_reachable cfg f st"
  then obtain brk w hash base where "(hub_step cfg f)\<^sup>*\<^sup>* (inner_new brk w hash base) st"
    by (auto simp: hub_reachable_def)
  then have "hub_inv st \<and> length (revocations st) = REVOCATION_SLOTS"
  proof (induction rule: rtranclp_induct)
    case base
    then show ?case by (simp add: inner_new_inv) (simp add: inner_new_def)
  next
    case (step y z)
    then show ?case by (simp add: hub_step_inv hub_step_revocations)
  qed
  then show ?thesis by simp
qed

subsection \<open>Methods as sequences of blocks\<close>

lemma close_all_steps: "(hub_step cfg f)\<^sup>*\<^sup>* st (close_all st ids reason)"
  by (induction st ids reason rule: close_all.induct)
     (auto intro: converse_rtranclp_into_rtranclp step_close)

lemma close_all_after: "(hub_step cfg f)\<^sup>*\<^sup>* st st1 \<Longrightarrow> (hub_step cfg f)\<^sup>*\<^sup>* st (close_all st1 ids reason)"
  by (rule rtranclp_trans [OF _ close_all_steps])

lemma one_step: "hub_step cfg f st st' \<Longrightarrow> (hub_step cfg f)\<^sup>*\<^sup>* st st'"
  by (rule r_into_rtranclp)

lemma fan_out_steps: "(hub_step cfg f)\<^sup>*\<^sup>* st (fan_out f st t name params)"
  using one_step [OF step_fan_out [of _ cfg f st t name params]]
  by (auto simp: fan_out_def split: prod.splits intro!: close_all_after)

lemma kick_local_steps: "(hub_step cfg f)\<^sup>*\<^sup>* st (kick_local f st t u)"
  using one_step [OF step_kick [of _ cfg f st t u]]
  by (auto simp: kick_local_def split: prod.splits intro!: close_all_after)

lemma world_after: "(hub_step cfg f)\<^sup>*\<^sup>* st st1 \<Longrightarrow> (hub_step cfg f)\<^sup>*\<^sup>* st (st1\<lparr>world := w\<rparr>)"
  by (erule rtranclp_trans, rule one_step, rule step_world) simp

lemma hand_to_broker_after:
  "(hub_step cfg f)\<^sup>*\<^sup>* st st1 \<Longrightarrow> (hub_step cfg f)\<^sup>*\<^sup>* st (snd (hand_to_broker st1 t payload))"
  by (simp add: hand_to_broker_def case_prod_beta world_after)

lemmas method_steps = fan_out_steps kick_local_steps close_all_steps hand_to_broker_after world_after

lemma close_topic_steps: "(hub_step cfg f)\<^sup>*\<^sup>* st (close_topic st t ck)"
  by (simp add: close_topic_def Let_def close_all_steps)

lemma deliver_steps: "(hub_step cfg f)\<^sup>*\<^sup>* st (deliver f from_slice st t payload)"
  by (auto simp: deliver_def method_steps close_topic_steps split: option.splits)

text \<open>Moving every mark, one slot after the other.\<close>

lemma bump_all:
  assumes "n \<le> length rs"
  shows "foldl (\<lambda>rs k. rs[k := rs ! k + 1]) rs [0..<n] = map (\<lambda>r. r + (1 :: u64)) (take n rs) @ drop n rs"
  using assms
proof (induction n)
  case (Suc n)
  then have d: "drop n rs = rs ! n # drop (Suc n) rs" by (simp add: Cons_nth_drop_Suc)
  have "foldl (\<lambda>rs k. rs[k := rs ! k + 1]) rs [0..<Suc n] =
      (map (\<lambda>r. r + 1) (take n rs) @ drop n rs)[n := (map (\<lambda>r. r + 1) (take n rs) @ drop n rs) ! n + 1]"
    using Suc by simp
  also have "\<dots> = map (\<lambda>r. r + 1) (take n rs) @ (rs ! n + 1) # drop (Suc n) rs"
    unfolding d using Suc.prems by (simp add: list_update_append nth_append)
  finally show ?case using Suc.prems by (simp add: take_Suc_conv_app_nth)
qed simp

lemma mark_steps:
  "(hub_step cfg f)\<^sup>*\<^sup>* st (st\<lparr>revocations := foldl (\<lambda>rs k. rs[k := rs ! k + 1]) (revocations st) ks\<rparr>)"
proof (induction ks rule: rev_induct)
  case (snoc k ks)
  let ?st = "st\<lparr>revocations := foldl (\<lambda>rs k. rs[k := rs ! k + 1]) (revocations st) ks\<rparr>"
  from one_step [OF step_mark [of _ cfg f ?st k]] snoc show ?case by (auto dest: rtranclp_trans)
qed simp

lemma reset_marks_steps: "(hub_step cfg f)\<^sup>*\<^sup>* st (reset_marks st)"
  using mark_steps [of cfg f st "[0..<length (revocations st)]"] by (simp add: bump_all reset_marks_def)

lemma reachable_step: "hub_reachable cfg f st \<Longrightarrow> hub_step cfg f st st' \<Longrightarrow> hub_reachable cfg f st'"
  unfolding hub_reachable_def by (metis rtranclp.rtrancl_into_rtrancl)

lemma reachable_start: "hub_reachable cfg f (inner_new brk w hash base)"
  by (auto simp: hub_reachable_def)

end
