(* ===== verification/HubProps.thy ===== *)
theory HubProps
  imports HubReach
begin

text \<open>
  The properties of the hub, over all reachable states and with nothing assumed of the broker,
  the outgoing queues or the hash function. The example hub at the start is the concrete state
  the witnesses evaluate: three connections of two users, one of them with a device.
\<close>

subsection \<open>An example hub\<close>

definition ex_send :: "(nat, (nat \<times> string) list) sender" where
  "ex_send tx frame w = (tx \<noteq> 9, w @ [(tx, frame)])"

definition ex_broker :: "(nat \<times> string) list broker_ops" where
  "ex_broker = \<lparr>br_subscribe = (\<lambda>_ w. w), br_unsubscribe = (\<lambda>_ w. w),
     br_validate = default_validate, br_publish = (\<lambda>_ _ w. (Inr (), w))\<rparr>"

definition ex_start :: "(nat, (nat \<times> string) list) inner" where
  "ex_start = inner_new ex_broker [] (\<lambda>_. 5) 1000"

definition ex_registered :: "(nat, (nat \<times> string) list) inner" where
  "ex_registered = snd (register (snd (register ex_start 7 0 0)) 8 1 1)"

definition ex_bob :: "(nat, (nat \<times> string) list) inner" where
  "ex_bob = snd (authenticate ex_send ex_registered 1 (with_device (identity_for_user ''bob'') ''d1'')
     (max_connections_per_user default_session_config))"

definition ex_req :: subscribe_req where
  "ex_req = \<lparr>rq_explicit = True, rq_max = max_subscriptions default_session_config,
     rq_mark = Some (revocation_mark ex_bob ''room''), rq_ack = None\<rparr>"

definition ex_hub :: "(nat, (nat \<times> string) list) inner" where
  "ex_hub = fst (snd (subscribe_locked ex_send ex_bob 1 ''room'' ex_req []))"

lemma ex_reachable:
  "hub_reachable default_session_config ex_send ex_start"
  "hub_reachable default_session_config ex_send ex_registered"
  "hub_reachable default_session_config ex_send ex_bob"
  "hub_reachable default_session_config ex_send ex_hub"
proof -
  let ?r = "hub_reachable default_session_config ex_send"
  show 0: "?r ex_start" unfolding ex_start_def by (rule reachable_start)
  have "next_conn ex_start + 1 \<noteq> 0" "next_conn (snd (register ex_start 7 0 0)) + 1 \<noteq> 0"
    by (simp_all add: ex_start_def inner_new_def register_def Let_def put_conn_def set_by_id_def)
  then show 1: "?r ex_registered"
    unfolding ex_registered_def by (meson 0 reachable_step step_register)
  show 2: "?r ex_bob" unfolding ex_bob_def by (rule reachable_step [OF 1 step_authenticate])
  show "?r ex_hub"
    unfolding ex_hub_def by (rule reachable_step [OF 2 step_subscribe]) (simp add: ex_req_def)
qed

text \<open>What the example hub holds.\<close>

lemma ex_registered_conn:
  "get_conn ex_registered =
     [1 \<mapsto> \<lparr>c_tx = 7, c_client = 0, c_closer = 0, c_authenticated = False, c_user = None, c_device = None,
           c_topics = [], c_explicit = 0\<rparr>,
      2 \<mapsto> \<lparr>c_tx = 8, c_client = 1, c_closer = 1, c_authenticated = False, c_user = None, c_device = None,
           c_topics = [], c_explicit = 0\<rparr>]"
  by (simp add: fun_eq_iff get_conn_def ex_registered_def ex_start_def inner_new_def register_def Let_def
      put_conn_def set_by_id_def)

lemma ex_registered_maps: "per_user (conns ex_registered) = []" "devices (conns ex_registered) = []"
  by (simp_all add: ex_registered_def ex_start_def inner_new_def register_def Let_def put_conn_def set_by_id_def)

lemma ex_topics:
  "identity_topics (Some ''bob'') (Some ''d1'') = Inr (Some ''user:id=bob'', Some ''device:user=bob:id=d1'')"
  by code_simp

lemma ex_accepted:
  "auth_refusal ex_registered 1 (with_device (identity_for_user ''bob'') ''d1'')
     (max_connections_per_user default_session_config) = None"
  by (simp add: auth_refusal_def with_device_def identity_for_user_def ex_topics ex_registered_conn
      ex_registered_maps holder_of_def default_session_config_def)

lemma ex_bob_conn:
  "get_conn ex_bob = (get_conn ex_registered)(1 \<mapsto> \<lparr>c_tx = 7, c_client = 0, c_closer = 0, c_authenticated = True, c_user = Some ''bob'',
           c_device = Some (''d1'', ''device:user=bob:id=d1''),
           c_topics = [(''user:id=bob'', False), (''device:user=bob:id=d1'', False)], c_explicit = 0\<rparr>)"
proof (rule authenticate_accepted [OF hub_reachable_inv(1) [OF ex_reachable(2)] ex_accepted, of ex_send])
  let ?idn = "with_device (identity_for_user ''bob'') ''d1''"
  fix c ut dt st'
  assume c: "get_conn ex_registered 1 = Some c"
    and t: "identity_topics (id_user ?idn) (id_device ?idn) = Inr (ut, dt)"
    and auth: "authenticate ex_send ex_registered 1 ?idn (max_connections_per_user default_session_config) = (Inr (), st')"
    and st': "get_conn st' = (get_conn (after_holder ex_registered (holder_of ex_registered 1 (id_device ?idn))))
       (1 \<mapsto> bound_conn c ?idn ut dt)"
  have idn: "id_user ?idn = Some ''bob''" "id_device ?idn = Some ''d1''"
    by (simp_all add: with_device_def identity_for_user_def)
  have "ex_bob = st'" unfolding ex_bob_def auth by simp
  moreover have "holder_of ex_registered 1 (Some ''d1'') = None" by (simp add: holder_of_def ex_registered_maps)
  ultimately have "get_conn ex_bob = (get_conn ex_registered)(1 \<mapsto> bound_conn c ?idn ut dt)"
    using st' by (simp add: idn after_holder_def)
  moreover have "ut = Some ''user:id=bob''" "dt = Some ''device:user=bob:id=d1''"
    using t unfolding idn ex_topics by auto
  moreover have c: "c = \<lparr>c_tx = 7, c_client = 0, c_closer = 0, c_authenticated = False, c_user = None,
      c_device = None, c_topics = [], c_explicit = 0\<rparr>"
    using c by (simp add: ex_registered_conn)
  ultimately show ?thesis
    unfolding bound_conn_def idn c by (simp add: subscribed_conn_def auto_request_def)
qed

lemma ex_hub_conn:
  "get_conn ex_hub = (get_conn ex_registered)(1 \<mapsto> \<lparr>c_tx = 7, c_client = 0, c_closer = 0, c_authenticated = True, c_user = Some ''bob'',
           c_device = Some (''d1'', ''device:user=bob:id=d1''),
           c_topics = [(''user:id=bob'', False), (''device:user=bob:id=d1'', False), (''room'', True)],
           c_explicit = 1\<rparr>)"
proof -
  have inv: "hub_inv ex_bob" by (rule hub_reachable_inv(1) [OF ex_reachable(3)])
  have pass: "\<not> mark_moved ex_bob ''room'' ex_req"
    "\<not> over_limit (the (get_conn ex_bob 1)) ''room'' ex_req" "rq_ack ex_req = None"
    by (simp_all add: mark_moved_def over_limit_def ex_req_def ex_bob_conn default_session_config_def)
  obtain cur st' where "subscribe_locked ex_send ex_bob 1 ''room'' ex_req [] = (Inr cur, st', [])"
    and "get_conn st' = (get_conn ex_bob)(1 \<mapsto> subscribed_conn (the (get_conn ex_bob 1)) ''room'' ex_req)"
    using subscribe_locked_ok [OF inv _ pass, of 1 ex_send "[]"] by (metis ex_bob_conn fun_upd_same option.sel)
  then show ?thesis by (simp add: ex_hub_def ex_bob_conn subscribed_conn_def ex_req_def)
qed

subsection \<open>The index and the connections\<close>

lemma subscriber_ids_conn:
  assumes "hub_inv st"
  shows "i \<in> set (subscriber_ids st t) \<longleftrightarrow> (\<exists>c. get_conn st i = Some c \<and> map_of (c_topics c) t \<noteq> None)"
  by (auto simp: set_subscriber_ids hub_invD(6) [OF assms] conn_sub_def split: option.splits)

lemma has_topic_iff:
  assumes "hub_inv st"
  shows "has_topic st t \<longleftrightarrow> subscriber_ids st t \<noteq> []"
  using index_okD(2) [OF hub_invD(1) [OF assms], of t]
  by (auto simp: has_topic_def subscriber_ids_def tmap_def topic_ok_def split: option.splits)

text \<open>C1: In every reachable state the topic index and the connections agree: a connection is a
  subscriber of a topic exactly when its own record lists the topic, no subscriber is listed
  twice, and the index has an entry for a topic exactly while the topic has a subscriber.\<close>

theorem subscriptions_agree:
  assumes "hub_reachable cfg f st"
  shows "(i \<in> set (subscriber_ids st t) \<longleftrightarrow> (\<exists>c. get_conn st i = Some c \<and> map_of (c_topics c) t \<noteq> None)) \<and>
    distinct (subscriber_ids st t) \<and> (has_topic st t \<longleftrightarrow> subscriber_ids st t \<noteq> [])"
proof -
  have inv: "hub_inv st" by (rule hub_reachable_inv(1) [OF assms])
  have "distinct (subscriber_ids st t)"
    using index_okD(2) [OF hub_invD(1) [OF inv], of t]
    by (auto simp: subscriber_ids_def tmap_def topic_ok_def split: option.splits)
  then show ?thesis using subscriber_ids_conn [OF inv] has_topic_iff [OF inv] by simp
qed

theorem subscriptions_agree_witness:
  "1 \<in> set (subscriber_ids ex_hub ''room'') \<and> 2 \<notin> set (subscriber_ids ex_hub ''room'') \<and> has_topic ex_hub ''room''"
proof -
  have 1: "1 \<in> set (subscriber_ids ex_hub ''room'')"
    using subscriptions_agree [OF ex_reachable(4), of 1 "''room''"] by (simp add: ex_hub_conn del: not_None_eq)
  moreover have "has_topic ex_hub ''room''"
    using 1 subscriptions_agree [OF ex_reachable(4), of 1 "''room''"] by auto
  moreover have "2 \<notin> set (subscriber_ids ex_hub ''room'')"
    using subscriptions_agree [OF ex_reachable(4), of 2 "''room''"] by (simp add: ex_hub_conn ex_registered_conn)
  ultimately show ?thesis by simp
qed

subsection \<open>Limits\<close>

text \<open>C5: In every reachable state no user has more connections than \<^verbatim>\<open>max_connections_per_user\<close> and no
  connection has more explicit subscriptions than \<^verbatim>\<open>max_subscriptions\<close>, whatever the order in
  which connections, authentications and subscriptions interleave.\<close>

theorem limits_respected:
  assumes "hub_reachable cfg f st"
  shows "card {i. \<exists>c. get_conn st i = Some c \<and> c_user c = Some u} \<le> max_connections_per_user cfg \<and>
    (case get_conn st i of None \<Rightarrow> True
     | Some c \<Rightarrow> card {t. map_of (c_topics c) t = Some True} \<le> max_subscriptions cfg)"
proof -
  have inv: "hub_inv st" and lim: "within_limits cfg st" using hub_reachable_inv [OF assms] .
  have "card {t. map_of (c_topics c) t = Some True} \<le> max_subscriptions cfg" if "get_conn st i = Some c" for c
    using hub_invD(5) [OF inv that] lim that
    unfolding conn_ok_def explicit_topics_def within_limits_def by metis
  then show ?thesis using lim by (auto simp: within_limits_def user_conns_def split: option.splits)
qed

theorem limits_respected_witness:
  "card {i. \<exists>c. get_conn ex_hub i = Some c \<and> c_user c = Some ''bob''} \<le> 16 \<and>
   card {t. map_of (c_topics (the (get_conn ex_hub 1))) t = Some True} \<le> 128"
  using limits_respected [OF ex_reachable(4), of "''bob''" 1]
  by (simp add: ex_hub_conn default_session_config_def)

subsection \<open>Devices\<close>

text \<open>In every reachable state a device is held by at most one connection of the node, the
  device table names exactly that connection, and the holder is bound to a user whose device
  channel is the topic it holds.\<close>

theorem device_exclusive:
  assumes "hub_reachable cfg f st"
    and "get_conn st i = Some c" "c_device c = Some (d, t)"
  shows "map_of (devices (conns st)) d = Some i \<and>
    (\<forall>j c' t'. get_conn st j = Some c' \<and> c_device c' = Some (d, t') \<longrightarrow> j = i) \<and>
    (\<exists>u. c_user c = Some u \<and> device_topic_of u d = Inr t)"
proof -
  have inv: "hub_inv st" by (rule hub_reachable_inv(1) [OF assms(1)])
  have dv: "map_of (devices (conns st)) d = Some j \<longleftrightarrow>
      (\<exists>c t. get_conn st j = Some c \<and> c_device c = Some (d, t))" for j
    using hub_invD(2) [OF inv] by (simp add: conns_ok_def devices_ok_def get_conn_def)
  have "map_of (devices (conns st)) d = Some i" using assms(2,3) dv by blast
  moreover have "j = i" if "get_conn st j = Some c'" "c_device c' = Some (d, t')" for j c' t'
    using that dv [of j] calculation by auto
  ultimately show ?thesis using hub_invD(5) [OF inv assms(2)] assms(3) by (auto simp: conn_ok_def)
qed

theorem device_exclusive_witness: "map_of (devices (conns ex_hub)) ''d1'' = Some 1"
  using device_exclusive [OF ex_reachable(4), of 1] by (simp add: ex_hub_conn)

subsection \<open>Authentication\<close>

text \<open>C2: Authentication is all or nothing: when it fails, with whatever error, the hub's state,
  the queues and the broker included, is exactly what it was.\<close>

theorem authenticate_all_or_nothing:
  assumes "hub_reachable cfg f st" and "authenticate f st i idn m = (Inl e, st')"
  shows "st' = st"
proof (cases "auth_refusal st i idn m")
  case None
  then show ?thesis
    using authenticate_accepted [OF hub_reachable_inv(1) [OF assms(1)] None, of f] assms(2) by auto
next
  case (Some e')
  then show ?thesis using assms(2) authenticate_refused [OF Some, of f] by simp
qed

theorem authenticate_all_or_nothing_witness:
  "snd (authenticate ex_send ex_hub 1 (identity_for_user ''eve'') 16) = ex_hub"
proof -
  have "identity_topics (Some ''eve'') None = Inr (Some ''user:id=eve'', None)" by code_simp
  then have "auth_refusal ex_hub 1 (identity_for_user ''eve'') 16 = Some already_authenticated"
    by (simp add: auth_refusal_def identity_for_user_def ex_hub_conn)
  then have "authenticate ex_send ex_hub 1 (identity_for_user ''eve'') 16 = (Inl already_authenticated, ex_hub)"
    by (rule authenticate_refused)
  from authenticate_all_or_nothing [OF ex_reachable(4) this]
  show ?thesis using \<open>authenticate _ _ _ _ _ = _\<close> by simp
qed

text \<open>A successful authentication binds the identity to the connection, subscribes it to the
  user's and the device's channel without counting them as explicit subscriptions, removes the
  device's previous holder on this node, and leaves every other connection as it was.\<close>

theorem authenticate_binds:
  assumes "hub_reachable cfg f st" and "authenticate f st i idn m = (Inr (), st')"
  shows "\<exists>c c' ut dt. get_conn st i = Some c \<and> \<not> c_authenticated c \<and> get_conn st' i = Some c' \<and>
    c_authenticated c' \<and> c_user c' = id_user idn \<and> map_option fst (c_device c') = id_device idn \<and>
    c_explicit c' = c_explicit c \<and> c_tx c' = c_tx c \<and>
    identity_topics (id_user idn) (id_device idn) = Inr (ut, dt) \<and>
    {t. i \<in> set (subscriber_ids st' t)} =
      {t. i \<in> set (subscriber_ids st t)} \<union> set_option ut \<union> set_option dt \<and>
    (\<forall>j. j \<noteq> i \<longrightarrow> get_conn st' j =
       (if id_device idn \<noteq> None \<and> map_of (devices (conns st)) (the (id_device idn)) = Some j
        then None else get_conn st j))"
proof -
  have inv: "hub_inv st" by (rule hub_reachable_inv(1) [OF assms(1)])
  have "auth_refusal st i idn m = None"
    using assms(2) authenticate_refused [of st i idn m _ f] by (cases "auth_refusal st i idn m") auto
  from authenticate_accepted [OF inv this, of f] obtain c ut dt where
    c: "get_conn st i = Some c" "\<not> c_authenticated c"
    and tp: "identity_topics (id_user idn) (id_device idn) = Inr (ut, dt)"
    and inv': "hub_inv st'"
    and conn: "get_conn st' = (get_conn (after_holder st (holder_of st i (id_device idn))))(i \<mapsto> bound_conn c idn ut dt)"
    using assms(2) by (metis prod.inject)
  have dt: "dt = None \<longleftrightarrow> id_device idn = None"
    using tp by (auto simp: identity_topics_def split: option.splits sum.splits)
  have topics: "{t. i \<in> set (subscriber_ids st' t)} =
      {t. i \<in> set (subscriber_ids st t)} \<union> set_option ut \<union> set_option dt"
    unfolding subscriber_ids_conn [OF inv] subscriber_ids_conn [OF inv'] conn
    by (auto simp: c bound_conn_def auto_conn_topics List.map_filter_def split: if_splits option.splits simp del: not_None_eq)
  have "c_device (bound_conn c idn ut dt) = (case id_device idn of None \<Rightarrow> None | Some d \<Rightarrow> map_option (Pair d) dt)"
    by (auto simp: bound_conn_def split: option.splits)
  then have "map_option fst (c_device (bound_conn c idn ut dt)) = id_device idn"
    using dt by (auto split: option.splits)
  moreover have "\<forall>j. j \<noteq> i \<longrightarrow> get_conn st' j =
       (if id_device idn \<noteq> None \<and> map_of (devices (conns st)) (the (id_device idn)) = Some j
        then None else get_conn st j)"
    by (auto simp: conn after_holder_conn holder_of_def split: option.splits if_splits)
  ultimately show ?thesis
    using c tp topics by (intro exI [of _ c] exI [of _ "bound_conn c idn ut dt"] exI [of _ ut] exI [of _ dt])
      (simp add: conn bound_conn_def)
qed

lemma ex_auth: "authenticate ex_send ex_registered 1 (with_device (identity_for_user ''bob'') ''d1'')
    (max_connections_per_user default_session_config) = (Inr (), ex_bob)"
  using authenticate_accepted [OF hub_reachable_inv(1) [OF ex_reachable(2)] ex_accepted, of ex_send]
  by (metis ex_bob_def snd_conv)

theorem authenticate_binds_witness:
  "{t. 1 \<in> set (subscriber_ids ex_bob t)} =
   {t. 1 \<in> set (subscriber_ids ex_registered t)} \<union> {''user:id=bob'', ''device:user=bob:id=d1''}"
proof -
  have idn: "id_user (with_device (identity_for_user ''bob'') ''d1'') = Some ''bob''"
    "id_device (with_device (identity_for_user ''bob'') ''d1'') = Some ''d1''"
    by (simp_all add: with_device_def identity_for_user_def)
  from authenticate_binds [OF ex_reachable(2) ex_auth, unfolded idn ex_topics] show ?thesis by auto
qed

subsection \<open>Kicking\<close>

lemma revoke_mark:
  assumes "length (revocations st) = REVOCATION_SLOTS"
  shows "revocation_mark (revoke st t) t = revocation_mark st t + 1"
proof -
  have "slot st t REVOCATION_SLOTS < REVOCATION_SLOTS" by (simp add: slot_def REVOCATION_SLOTS_def)
  then show ?thesis
    using assms by (simp add: revocation_mark_def revoke_def revocation_def slot_def Let_def)
qed

lemma revocation_mark_cong:
  "hasher st = hasher st' \<Longrightarrow> revocations st = revocations st' \<Longrightarrow> revocation_mark st t = revocation_mark st' t"
  by (simp add: revocation_mark_def revocation_def slot_def Let_def)



subsection \<open>Fan-out\<close>

text \<open>A sender that records what was sent and whether the queue took it.\<close>

definition logged :: "('tx, 'w) sender \<Rightarrow> ('tx, ('tx \<times> string \<times> bool) list \<times> 'w) sender" where
  "logged f tx frame lw =
     (let (sent, w) = f tx frame (snd lw) in (sent, (fst lw @ [(tx, frame, sent)], w)))"

lemma send_each_logged:
  "send_each (logged f) fr subs lw slow = (lw', slow') \<Longrightarrow>
   \<exists>bs. length bs = length subs \<and> fst lw' = fst lw @ map (\<lambda>((_, tx), b). (tx, fr, b)) (zip subs bs) \<and>
        slow' = slow @ map (fst \<circ> fst) (filter (\<lambda>(_, b). \<not> b) (zip subs bs))"
proof (induction subs arbitrary: lw slow)
  case Nil
  then show ?case by simp
next
  case (Cons p subs)
  obtain i tx where p: "p = (i, tx)" by (cases p)
  obtain sent w where s: "f tx fr (snd lw) = (sent, w)" by fastforce
  have log: "logged f tx fr lw = (sent, fst lw @ [(tx, fr, sent)], w)" by (simp add: logged_def s)
  have "send_each (logged f) fr subs (fst lw @ [(tx, fr, sent)], w) (if sent then slow else slow @ [i]) = (lw', slow')"
    using Cons.prems log by (simp add: p)
  from Cons.IH [OF this] obtain bs where
    "length bs = length subs" "fst lw' = (fst lw @ [(tx, fr, sent)]) @ map (\<lambda>((_, tx), b). (tx, fr, b)) (zip subs bs)"
    "slow' = (if sent then slow else slow @ [i]) @ map (fst \<circ> fst) (filter (\<lambda>(_, b). \<not> b) (zip subs bs))"
    by auto
  then show ?case by (intro exI [of _ "sent # bs"]) (simp add: p)
qed

text \<open>C4: One fan-out sends exactly one frame to each subscriber of the topic, through the queue of
  that subscriber's connection, and to nobody else; all get the same frame, whose sequence number
  is the successor of the topic's last one (modulo \<^verbatim>\<open>2^53\<close>) in the same epoch; the cursor moves to it;
  and exactly the subscribers whose queue refused the frame are reported slow.\<close>

theorem fan_out_once:
  assumes "hub_reachable cfg (logged f) st" and "map_of (read_shard st t) t = Some s"
    and "fan_out_locked (logged f) st t name params = (st', slow)"
  defines "n \<equiv> (seq (cursor_of s) + 1) AND JS_SAFE"
  defines "fr \<equiv> publish_frame t name params (epoch (cursor_of s)) n"
  shows "\<exists>bs. length bs = length (subscriber_ids st t) \<and> distinct (subscriber_ids st t) \<and>
    fst (world st') = fst (world st) @
      map (\<lambda>(i, b). (c_tx (the (get_conn st i)), fr, b)) (zip (subscriber_ids st t) bs) \<and>
    slow = map fst (filter (\<lambda>(_, b). \<not> b) (zip (subscriber_ids st t) bs)) \<and>
    map_of (read_shard st' t) t = Some (s\<lparr>cursor_of := \<lparr>epoch = epoch (cursor_of s), seq = n\<rparr>\<rparr>)"
proof -
  have inv: "hub_inv st" by (rule hub_reachable_inv(1) [OF assms(1)])
  have tm: "tmap st t = Some s" using assms(2) by (simp add: tmap_def)
  have wf: "hm_wf (subscribers s)"
    using index_okD(2) [OF hub_invD(1) [OF inv] tm] by (simp add: topic_ok_def)
  have ids: "subscriber_ids st t = map fst (subscribers s)" by (simp add: subscriber_ids_def assms(2))
  have tx: "c_tx (the (get_conn st i)) = x" if "(i, x) \<in> set (subscribers s)" for i x
  proof -
    have "sub_of st t i = Some x" using that wf by (simp add: sub_of_def tm)
    then show ?thesis
      unfolding hub_invD(6) [OF inv] by (auto simp: conn_sub_def split: option.splits if_splits)
  qed
  let ?cur = "(cursor_of s)\<lparr>seq := n\<rparr>"
  have cur: "?cur = \<lparr>epoch = epoch (cursor_of s), seq = n\<rparr>" by simp
  obtain lw where se: "send_each (logged f) fr (subscribers s) (world st) [] = (lw, slow)"
    and st': "st' = (write_shard st t (AList.update t (s\<lparr>cursor_of := ?cur\<rparr>) (read_shard st t)))\<lparr>world := lw\<rparr>"
    using assms(3) by (auto simp: fan_out_locked_def assms(2) Let_def n_def fr_def split: prod.splits)
  from send_each_logged [OF se] obtain bs where bs: "length bs = length (subscribers s)"
    "fst lw = fst (world st) @ map (\<lambda>((_, tx), b). (tx, fr, b)) (zip (subscribers s) bs)"
    "slow = map (fst \<circ> fst) (filter (\<lambda>(_, b). \<not> b) (zip (subscribers s) bs))" by auto
  have z: "zip (map fst (subscribers s)) bs = map (\<lambda>(p, b). (fst p, b)) (zip (subscribers s) bs)"
    by (simp add: zip_map1 case_prod_beta)
  have "map (\<lambda>((_, tx), b). (tx, fr, b)) (zip (subscribers s) bs) =
      map (\<lambda>(i, b). (c_tx (the (get_conn st i)), fr, b)) (zip (map fst (subscribers s)) bs)"
    unfolding z using tx by (auto dest!: set_zip_leftD)
  moreover have "map (fst \<circ> fst) (filter (\<lambda>(_, b). \<not> b) (zip (subscribers s) bs)) =
      map fst (filter (\<lambda>(_, b). \<not> b) (zip (map fst (subscribers s)) bs))"
    unfolding z by (simp add: filter_map o_def case_prod_unfold)
  moreover have "tmap st' t = Some (s\<lparr>cursor_of := ?cur\<rparr>)"
    unfolding st' using put_topic(2) [OF index_okD(1) [OF hub_invD(1) [OF inv]]] by simp
  moreover have "world st' = lw" by (simp add: st')
  ultimately show ?thesis
    using bs wf by (intro exI [of _ bs]) (simp add: ids tmap_def cur del: set_map)
qed

text \<open>The example for a recording sender: two subscribers, the second of which is slow.\<close>

definition ex_log_send :: "(nat, unit) sender" where
  "ex_log_send tx frame w = (tx \<noteq> 9, w)"

definition ex_null_broker :: "'w broker_ops" where
  "ex_null_broker = \<lparr>br_subscribe = (\<lambda>_ w. w), br_unsubscribe = (\<lambda>_ w. w),
     br_validate = default_validate, br_publish = (\<lambda>_ _ w. (Inr (), w))\<rparr>"

definition ex_log_req :: subscribe_req where
  "ex_log_req = \<lparr>rq_explicit = True, rq_max = 3, rq_mark = None, rq_ack = None\<rparr>"

definition ex_log_cfg :: session_config where
  "ex_log_cfg = default_session_config\<lparr>max_subscriptions := 3\<rparr>"

definition ex_log_start :: "(nat, (nat \<times> string \<times> bool) list \<times> unit) inner" where
  "ex_log_start = snd (register (snd (register (inner_new ex_null_broker ([], ()) (\<lambda>_. 5) 1000) 7 0 0)) 9 1 1)"

definition ex_log_one :: "(nat, (nat \<times> string \<times> bool) list \<times> unit) inner" where
  "ex_log_one = fst (snd (subscribe_locked (logged ex_log_send) ex_log_start 1 ''a'' ex_log_req []))"

definition ex_log_hub :: "(nat, (nat \<times> string \<times> bool) list \<times> unit) inner" where
  "ex_log_hub = fst (snd (subscribe_locked (logged ex_log_send) ex_log_one 2 ''a'' ex_log_req []))"

lemma ex_log_reachable: "hub_reachable ex_log_cfg (logged ex_log_send) ex_log_hub"
proof -
  let ?st0 = "inner_new ex_null_broker ([], ()) (\<lambda>_. 5) 1000 :: (nat, (nat \<times> string \<times> bool) list \<times> unit) inner"
  have "next_conn ?st0 + 1 \<noteq> 0" "next_conn (snd (register ?st0 7 0 0)) + 1 \<noteq> 0"
    by (simp_all add: inner_new_def register_def Let_def put_conn_def set_by_id_def)
  then have "hub_reachable ex_log_cfg (logged ex_log_send) ex_log_start"
    unfolding ex_log_start_def by (meson reachable_start reachable_step step_register)
  then have "hub_reachable ex_log_cfg (logged ex_log_send) ex_log_one"
    unfolding ex_log_one_def
    by (rule reachable_step [OF _ step_subscribe]) (simp add: ex_log_req_def ex_log_cfg_def)
  then show ?thesis
    unfolding ex_log_hub_def
    by (rule reachable_step [OF _ step_subscribe]) (simp add: ex_log_req_def ex_log_cfg_def)
qed

lemma ex_log_topic:
  "map_of (read_shard ex_log_hub ''a'') ''a'' =
     Some \<lparr>subscribers = [(1, 7), (2, 9)], cursor_of = \<lparr>epoch = 1000, seq = 0\<rparr>\<rparr>"
  by code_simp

theorem fan_out_once_witness:
  "\<exists>bs. fst (world (fst (fan_out_locked (logged ex_log_send) ex_log_hub ''a'' ''n'' ''{}''))) =
     fst (world ex_log_hub) @
       map (\<lambda>(i, b). (c_tx (the (get_conn ex_log_hub i)), publish_frame ''a'' ''n'' ''{}'' 1000 1, b)) (zip [1, 2] bs)"
proof -
  obtain st' slow where k: "fan_out_locked (logged ex_log_send) ex_log_hub ''a'' ''n'' ''{}'' = (st', slow)" by fastforce
  have "subscriber_ids ex_log_hub ''a'' = [1, 2]" by (simp add: subscriber_ids_def ex_log_topic)
  with fan_out_once [OF ex_log_reachable ex_log_topic k] show ?thesis by (auto simp: k JS_SAFE_def)
qed

subsection \<open>Reset\<close>

text \<open>A reset after the broker lost messages drops every explicit subscription and keeps exactly
  the channels of identities, restarts the cursor of every surviving topic at sequence number 0,
  and moves every revocation mark, so that an access check made before the reset cannot be used
  after it.\<close>

theorem reset_restarts:
  assumes "hub_reachable cfg f st" and "reset_walk f (reset_marks st) = (st', slow)"
  shows "(i \<in> set (subscriber_ids st' t) \<longleftrightarrow> (\<exists>c. get_conn st i = Some c \<and> map_of (c_topics c) t = Some False)) \<and>
    map_option c_explicit (get_conn st' i) = map_option (\<lambda>_. 0) (get_conn st i) \<and>
    (case map_of (read_shard st' t) t of None \<Rightarrow> True | Some s \<Rightarrow> seq (cursor_of s) = 0) \<and>
    revocation_mark st' t = revocation_mark st t + 1"
proof -
  have inv: "hub_inv st" by (rule hub_reachable_inv(1) [OF assms(1)])
  have "hub_inv (reset_marks st)" using inv by (simp add: reset_marks_def)
  note r0 = reset_walk_spec [OF this assms(2)]
  have conn: "get_conn (reset_marks st) = get_conn st" by (simp add: reset_marks_def)
  note r = r0(1) r0(2) [unfolded conn] r0(3-)
  have ok: "conn_ok c" if "get_conn st i = Some c" for c by (rule hub_invD(5) [OF inv that])
  have "i \<in> set (subscriber_ids st' t) \<longleftrightarrow> (\<exists>c. get_conn st i = Some c \<and> map_of (c_topics c) t = Some False)"
  proof (cases "get_conn st i")
    case (Some c)
    have wf: "hm_wf (c_topics c)" using ok [OF Some] unfolding conn_ok_def by blast
    show ?thesis
      unfolding subscriber_ids_conn [OF r(1)] r(2) Some option.map option.inject
      by (cases "map_of (c_topics c) t") (auto simp: reset_conn_topics [OF wf] split: if_splits)
  qed (simp add: subscriber_ids_conn [OF r(1)] r(2))
  moreover have "map_option c_explicit (get_conn st' i) = map_option (\<lambda>_. 0) (get_conn st i)"
    using ok by (cases "get_conn st i") (simp_all add: r(2) reset_conn_def conn_ok_def)
  moreover have "case tmap st' t of None \<Rightarrow> True | Some s \<Rightarrow> seq (cursor_of s) = 0"
    using r(3) [of t] by (auto simp: kept_ok_def split: option.splits if_splits)
  moreover have "revocation_mark st' t = revocation_mark st t + 1"
  proof -
    have "slot st t REVOCATION_SLOTS < REVOCATION_SLOTS" by (simp add: slot_def REVOCATION_SLOTS_def)
    then show ?thesis
      using r(4,5) reachable_revocations [OF assms(1)]
      by (simp add: revocation_mark_def revocation_def slot_def Let_def reset_marks_def)
  qed
  ultimately show ?thesis by (simp add: tmap_def)
qed

theorem reset_restarts_witness:
  "1 \<notin> set (subscriber_ids (fst (reset_walk ex_send (reset_marks ex_hub))) ''room'') \<and>
   1 \<in> set (subscriber_ids (fst (reset_walk ex_send (reset_marks ex_hub))) ''user:id=bob'')"
proof -
  obtain st' slow where k: "reset_walk ex_send (reset_marks ex_hub) = (st', slow)" by fastforce
  note r = reset_restarts [OF ex_reachable(4) k, of 1]
  show ?thesis using r [of "''room''"] r [of "''user:id=bob''"] by (simp add: k ex_hub_conn)
qed

subsection \<open>Closing\<close>

text \<open>Closing a connection leaves nothing of it behind: it is in no topic's subscribers, its
  device is free, its user's count is one less, its pending calls are failed and its closer is
  signalled with the first reason given, while every other connection and subscription stays.\<close>

theorem close_conn_complete:
  assumes "hub_reachable cfg f st" and "get_conn st i = Some c"
  shows "get_conn (close_conn st i reason) = (get_conn st)(i := None) \<and>
    (\<forall>t. set (subscriber_ids (close_conn st i reason) t) = set (subscriber_ids st t) - {i}) \<and>
    closers (close_conn st i reason) (c_closer c) = signal (closers st (c_closer c)) reason \<and>
    clients (close_conn st i reason) (c_client c) = fail_pending (clients st (c_client c)) \<and>
    (\<forall>d t. c_device c = Some (d, t) \<longrightarrow> map_of (devices (conns (close_conn st i reason))) d = None) \<and>
    (\<forall>u. c_user c = Some u \<longrightarrow>
       (case map_of (per_user (conns (close_conn st i reason))) u of None \<Rightarrow> 0 | Some n \<Rightarrow> n) + 1 =
       (case map_of (per_user (conns st)) u of None \<Rightarrow> 0 | Some n \<Rightarrow> n))"
proof -
  let ?st = "close_conn st i reason"
  have inv: "hub_inv st" by (rule hub_reachable_inv(1) [OF assms(1)])
  have inv': "hub_inv ?st" by (rule close_conn_inv [OF inv])
  have subs: "set (subscriber_ids ?st t) = set (subscriber_ids st t) - {i}" for t
    using subscriber_ids_conn [OF inv, of _ t] subscriber_ids_conn [OF inv', of _ t] by (auto split: if_splits)
  have cl: "closers ?st (c_closer c) = signal (closers st (c_closer c)) reason"
    "clients ?st (c_client c) = fail_pending (clients st (c_client c))"
    using assms(2) by (simp_all add: close_conn_eq signal_at_def detach_locked_def Let_def fail_pending_at_def)
  have "map_of (devices (conns ?st)) d = None" if d: "c_device c = Some (d, t)" for d t
  proof (rule ccontr)
    assume "map_of (devices (conns ?st)) d \<noteq> None"
    then obtain j where j: "map_of (devices (conns ?st)) d = Some j" by blast
    have dv: "devices_ok (conns ?st)" "devices_ok (conns st)" using inv inv' by (simp_all add: hub_inv_def conns_ok_def)
    from j dv(1) obtain c' t' where "get_conn ?st j = Some c'" "c_device c' = Some (d, t')"
      unfolding devices_ok_def get_conn_def by blast
    then have "j \<noteq> i" "map_of (devices (conns st)) d = Some j"
      using dv(2) unfolding devices_ok_def get_conn_def [symmetric] by (auto split: if_splits)
    moreover have "map_of (devices (conns st)) d = Some i"
      using dv(2) assms(2) d unfolding devices_ok_def get_conn_def by blast
    ultimately show False by simp
  qed
  moreover have "card (user_conns ?st u) + 1 = card (user_conns st u)" if "c_user c = Some u" for u
  proof -
    have "user_conns ?st u = user_conns st u - {i}" "i \<in> user_conns st u"
      using assms(2) that by (auto simp: user_conns_def split: if_splits)
    moreover have "finite (user_conns st u)" by (simp add: user_conns_eq)
    ultimately show ?thesis using card_Suc_Diff1 [of "user_conns st u" i] by simp
  qed
  ultimately show ?thesis
    using subs cl unfolding user_conns_count [OF inv] user_conns_count [OF inv'] by auto
qed

theorem close_conn_complete_witness:
  "map_of (devices (conns (close_conn ex_hub 1 Idle))) ''d1'' = None \<and>
   1 \<notin> set (subscriber_ids (close_conn ex_hub 1 Idle) ''room'')"
proof -
  have "get_conn ex_hub 1 = Some (the (get_conn ex_hub 1))" "c_device (the (get_conn ex_hub 1)) = Some (''d1'', ''device:user=bob:id=d1'')"
    by (simp_all add: ex_hub_conn)
  with close_conn_complete [OF ex_reachable(4), of 1 "the (get_conn ex_hub 1)" Idle] show ?thesis by auto
qed

subsection \<open>Methods\<close>



end
