(* ===== verification/SchemaModel.thy ===== *)
theory SchemaModel
  imports Prelude
begin

text \<open>
  The schema snapshot of the migration tool, \<^verbatim>\<open>crates/orm-cli/src/model.rs\<close>, and the two
  enumerations it shares with the derive macros, \<^verbatim>\<open>crates/orm-schema-support/src/lib.rs\<close>.
\<close>

record foreign_key =
  fk_table :: string
  fk_column :: string
  fk_on_delete :: string

record column =
  col_name :: string
  sql_type :: string
  nullable :: bool
  pk :: bool
  uniq :: bool
  col_index :: bool
  index_method :: "string option"
  opclass :: "string option"
  generated :: "string option"
  default :: "string option"
  references :: "foreign_key option"

definition type_differs :: "column \<Rightarrow> column \<Rightarrow> bool" where
  "type_differs c c' \<longleftrightarrow> sql_type c \<noteq> sql_type c' \<or> nullable c \<noteq> nullable c'"

datatype policy_command = PcAll | PcSelect | PcInsert | PcUpdate | PcDelete

fun policy_command_sql :: "policy_command \<Rightarrow> string" where
  "policy_command_sql PcAll = ''all''"
| "policy_command_sql PcSelect = ''select''"
| "policy_command_sql PcInsert = ''insert''"
| "policy_command_sql PcUpdate = ''update''"
| "policy_command_sql PcDelete = ''delete''"

datatype privilege = PrAll | PrSelect | PrInsert | PrUpdate | PrDelete

fun privilege_sql :: "privilege \<Rightarrow> string" where
  "privilege_sql PrAll = ''all privileges''"
| "privilege_sql PrSelect = ''select''"
| "privilege_sql PrInsert = ''insert''"
| "privilege_sql PrUpdate = ''update''"
| "privilege_sql PrDelete = ''delete''"

text \<open>The derived order of the enumeration: declaration order.\<close>

fun privilege_rank :: "privilege \<Rightarrow> nat" where
  "privilege_rank PrAll = 0"
| "privilege_rank PrSelect = 1"
| "privilege_rank PrInsert = 2"
| "privilege_rank PrUpdate = 3"
| "privilege_rank PrDelete = 4"

lemma privilege_rank_inj: "privilege_rank p = privilege_rank q \<Longrightarrow> p = q"
  by (cases p; cases q) simp_all

instantiation privilege :: linorder
begin

definition less_eq_privilege :: "privilege \<Rightarrow> privilege \<Rightarrow> bool" where
  "less_eq_privilege p q \<longleftrightarrow> privilege_rank p \<le> privilege_rank q"

definition less_privilege :: "privilege \<Rightarrow> privilege \<Rightarrow> bool" where
  "less_privilege p q \<longleftrightarrow> privilege_rank p < privilege_rank q"

instance
  by standard (auto simp: less_eq_privilege_def less_privilege_def dest: privilege_rank_inj)

end

record policy =
  pol_name :: string
  pol_command :: policy_command
  pol_roles :: "string list"
  pol_using :: "string option"
  pol_check :: "string option"

record grant =
  grant_role :: string
  grant_privileges :: "privilege list"

record index =
  ix_name :: string
  ix_columns :: "string list"
  ix_unique :: bool
  ix_method :: "string option"
  ix_predicate :: "string option"

record role =
  role_name :: string
  login :: bool
  createdb :: bool
  createrole :: bool
  bypassrls :: bool

record table =
  tab_name :: string
  columns :: "column list"
  rls :: bool
  force_rls :: bool
  policies :: "policy list"
  grants :: "grant list"
  indexes :: "index list"

record schema =
  tables :: "table list"
  roles :: "role list"

subsection \<open>Lookups by name\<close>

definition column_of :: "table \<Rightarrow> string \<Rightarrow> column option" where
  "column_of t n = List.find (\<lambda>c. col_name c = n) (columns t)"

definition policy_of :: "table \<Rightarrow> string \<Rightarrow> policy option" where
  "policy_of t n = List.find (\<lambda>p. pol_name p = n) (policies t)"

definition grant_of :: "table \<Rightarrow> string \<Rightarrow> grant option" where
  "grant_of t r = List.find (\<lambda>g. grant_role g = r) (grants t)"

definition index_of :: "table \<Rightarrow> string \<Rightarrow> index option" where
  "index_of t n = List.find (\<lambda>i. ix_name i = n) (indexes t)"

definition table_of :: "schema \<Rightarrow> string \<Rightarrow> table option" where
  "table_of s n = List.find (\<lambda>t. tab_name t = n) (tables s)"

definition role_of :: "schema \<Rightarrow> string \<Rightarrow> role option" where
  "role_of s n = List.find (\<lambda>r. role_name r = n) (roles s)"

text \<open>Names are unique in a snapshot: per table for columns, policies, grants and indexes.\<close>

definition wf_table :: "table \<Rightarrow> bool" where
  "wf_table t \<longleftrightarrow> distinct (map col_name (columns t)) \<and> distinct (map pol_name (policies t)) \<and>
     distinct (map grant_role (grants t)) \<and> distinct (map ix_name (indexes t))"

definition wf_schema :: "schema \<Rightarrow> bool" where
  "wf_schema s \<longleftrightarrow> distinct (map tab_name (tables s)) \<and> distinct (map role_name (roles s)) \<and>
     (\<forall>t \<in> set (tables s). wf_table t)"

subsection \<open>Finding by a key\<close>

lemma find_key_Some:
  assumes "distinct (map k xs)"
  shows "List.find (\<lambda>x. k x = n) xs = Some x \<longleftrightarrow> x \<in> set xs \<and> k x = n"
  using assms by (induction xs) auto

lemma find_key_None: "List.find (\<lambda>x. k x = n) xs = None \<longleftrightarrow> n \<notin> k ` set xs"
  by (induction xs) auto

lemma find_key_self: "distinct (map k xs) \<Longrightarrow> x \<in> set xs \<Longrightarrow> List.find (\<lambda>y. k y = k x) xs = Some x"
  by (simp add: find_key_Some)

end
