(* ===== verification/SchemaDiff.thy ===== *)
theory SchemaDiff
  imports SchemaModel
begin

text \<open>
  The schema diff of the migration tool, \<^verbatim>\<open>crates/orm-cli/src/diff.rs\<close>, lines 1 to 380. The
  resolver is interactive: it is a function with a state, an argument of the diff.
\<close>

datatype change =
    CreateTable table
  | DropTable table
  | AddColumn string column
  | DropColumn string column
  | AlterType string column column
  | RenameColumn string string string column column
  | CreateRole role
  | DropRole role
  | AlterRole role role
  | SetRls string bool
  | SetForceRls string bool
  | Grant string string "privilege list"
  | Revoke string string "privilege list"
  | CreatePolicy string policy
  | DropPolicy string policy
  | CreateIndex string index
  | DropIndex string index

type_synonym 'r resolver = "string \<Rightarrow> column \<Rightarrow> column list \<Rightarrow> 'r \<Rightarrow> string option \<times> 'r"

text \<open>\<^verbatim>\<open>Iterator::position\<close> and \<^verbatim>\<open>Vec::remove\<close>.\<close>

fun position :: "('a \<Rightarrow> bool) \<Rightarrow> 'a list \<Rightarrow> nat option" where
  "position P [] = None"
| "position P (x # xs) = (if P x then Some 0 else map_option Suc (position P xs))"

definition remove_at :: "nat \<Rightarrow> 'a list \<Rightarrow> 'a list" where
  "remove_at i xs = take i xs @ drop (Suc i) xs"

lemma position_Some:
  "position P xs = Some i \<Longrightarrow> i < length xs \<and> P (xs ! i) \<and> (\<forall>j < i. \<not> P (xs ! j))"
proof (induction xs arbitrary: i)
  case (Cons x xs)
  show ?case
  proof (cases "P x")
    case False
    with Cons.prems obtain k where k: "position P xs = Some k" "i = Suc k" by auto
    with Cons.IH [OF k(1)] False show ?thesis by (auto simp: nth_Cons split: nat.splits)
  qed (use Cons.prems in simp)
qed simp

lemma position_None: "position P xs = None \<longleftrightarrow> (\<forall>x \<in> set xs. \<not> P x)"
  by (induction xs) auto

lemma remove_at_length [simp]: "i < length xs \<Longrightarrow> length (remove_at i xs) = length xs - 1"
  by (simp add: remove_at_def)

lemma remove_at_split: "i < length xs \<Longrightarrow> \<exists>as bs. xs = as @ xs ! i # bs \<and> remove_at i xs = as @ bs"
  by (metis id_take_nth_drop remove_at_def)

subsection \<open>Creation order\<close>

definition depends_on_unplaced :: "string list \<Rightarrow> table \<Rightarrow> string list \<Rightarrow> bool" where
  "depends_on_unplaced in_set table placed =
     list_ex (\<lambda>c. case references c of
                    None \<Rightarrow> False
                  | Some fk \<Rightarrow>
                      fk_table fk \<noteq> tab_name table \<and> fk_table fk \<in> set in_set \<and> fk_table fk \<notin> set placed)
       (columns table)"

function topo_loop :: "string list \<Rightarrow> table list \<Rightarrow> string list \<Rightarrow> table list \<Rightarrow> table list" where
  "topo_loop in_set remaining placed ordered =
     (if remaining = [] then ordered
      else
        let nxt = position (\<lambda>t. \<not> depends_on_unplaced in_set t placed) remaining;
            index = (case nxt of None \<Rightarrow> 0 | Some i \<Rightarrow> i);
            table = remaining ! index
        in topo_loop in_set (remove_at index remaining) (placed @ [tab_name table]) (ordered @ [table]))"
  by pat_completeness auto
termination
proof (relation "measure (\<lambda>(_, remaining, _, _). length remaining)", goal_cases)
  case (2 in_set remaining placed ordered nxt index table)
  have "index < length remaining"
    using 2(1,3) position_Some [of "\<lambda>t. \<not> depends_on_unplaced in_set t placed" remaining] 2(2)
    by (auto split: option.splits)
  then show ?case by simp
qed simp

declare topo_loop.simps [simp del]

definition topo_sort_creates :: "table list \<Rightarrow> table list" where
  "topo_sort_creates ts = topo_loop (map tab_name ts) ts [] []"

subsection \<open>Tables present in both schemas\<close>

definition rename_keep_type :: "column \<Rightarrow> string \<Rightarrow> column" where
  "rename_keep_type old new_name = old\<lparr>col_name := new_name\<rparr>"

text \<open>The loop over the added columns: the changes, the columns still removed, the resolver.\<close>

fun diff_added ::
  "'r resolver \<Rightarrow> string \<Rightarrow> column list \<Rightarrow> column list \<Rightarrow> 'r \<Rightarrow> change list \<times> column list \<times> 'r" where
  "diff_added resolver table [] removed r = ([], removed, r)"
| "diff_added resolver table (column # added) removed r =
     (let (target, r) = (if removed = [] then (None, r) else resolver table column removed r)
      in case (case target of None \<Rightarrow> None | Some name \<Rightarrow> position (\<lambda>c. col_name c = name) removed) of
           Some index \<Rightarrow>
             let old_column = removed ! index;
                 (changes, left, r) = diff_added resolver table added (remove_at index removed) r
             in (RenameColumn table (col_name old_column) (col_name column) column old_column #
                 (if type_differs old_column column
                  then [AlterType table (rename_keep_type old_column (col_name column)) column] else []) @
                 changes, left, r)
         | None \<Rightarrow>
             let (changes, left, r) = diff_added resolver table added removed r
             in (AddColumn table column # changes, left, r))"

definition diff_altered :: "table \<Rightarrow> table \<Rightarrow> change list" where
  "diff_altered old new =
     concat (map (\<lambda>c. case column_of old (col_name c) of
                        None \<Rightarrow> []
                      | Some o_c \<Rightarrow> if type_differs c o_c then [AlterType (tab_name new) o_c c] else [])
               (columns new))"

definition diff_table :: "'r resolver \<Rightarrow> table \<Rightarrow> table \<Rightarrow> 'r \<Rightarrow> change list \<times> 'r" where
  "diff_table resolver old new r =
     (let removed = filter (\<lambda>c. column_of new (col_name c) = None) (columns old);
          added = filter (\<lambda>c. column_of old (col_name c) = None) (columns new);
          (changes, left, r) = diff_added resolver (tab_name new) added removed r
      in (diff_altered old new @ changes @ map (DropColumn (tab_name new)) left, r))"

definition canonical_privileges :: "privilege list \<Rightarrow> privilege list" where
  "canonical_privileges ps =
     (if PrAll \<in> set ps then [PrAll] else remdups_adj (sort ps))"

definition diff_grants :: "table \<Rightarrow> table \<Rightarrow> change list" where
  "diff_grants old new =
     concat (map (\<lambda>g.
       let new_privileges = canonical_privileges (grant_privileges g)
       in case grant_of old (grant_role g) of
            None \<Rightarrow> [Grant (tab_name new) (grant_role g) new_privileges]
          | Some previous \<Rightarrow>
              let old_privileges = canonical_privileges (grant_privileges previous)
              in if old_privileges \<noteq> new_privileges
                 then [Revoke (tab_name new) (grant_role g) old_privileges,
                       Grant (tab_name new) (grant_role g) new_privileges]
                 else []) (grants new)) @
     concat (map (\<lambda>g.
       if grant_of new (grant_role g) = None
       then [Revoke (tab_name new) (grant_role g) (canonical_privileges (grant_privileges g))]
       else []) (grants old))"

definition diff_policies :: "table \<Rightarrow> table \<Rightarrow> change list" where
  "diff_policies old new =
     map (DropPolicy (tab_name new)) (filter (\<lambda>p. policy_of new (pol_name p) \<noteq> Some p) (policies old)) @
     map (CreatePolicy (tab_name new)) (filter (\<lambda>p. policy_of old (pol_name p) \<noteq> Some p) (policies new))"

definition diff_table_rls :: "table \<Rightarrow> table \<Rightarrow> change list" where
  "diff_table_rls old new =
     (if rls old \<noteq> rls new then [SetRls (tab_name new) (rls new)] else []) @
     (if force_rls old \<noteq> force_rls new then [SetForceRls (tab_name new) (force_rls new)] else []) @
     diff_grants old new @ diff_policies old new"

definition diff_table_indexes :: "table \<Rightarrow> table \<Rightarrow> change list" where
  "diff_table_indexes old new =
     map (DropIndex (tab_name new)) (filter (\<lambda>i. index_of new (ix_name i) \<noteq> Some i) (indexes old)) @
     map (CreateIndex (tab_name new)) (filter (\<lambda>i. index_of old (ix_name i) \<noteq> Some i) (indexes new))"

subsection \<open>The whole diff\<close>

definition diff_roles :: "schema \<Rightarrow> schema \<Rightarrow> change list" where
  "diff_roles old new =
     concat (map (\<lambda>r. case role_of old (role_name r) of
                        None \<Rightarrow> [CreateRole r]
                      | Some previous \<Rightarrow> if previous \<noteq> r then [AlterRole previous r] else [])
               (roles new))"

fun diff_existing :: "'r resolver \<Rightarrow> schema \<Rightarrow> table list \<Rightarrow> 'r \<Rightarrow> change list \<times> 'r" where
  "diff_existing resolver old [] r = ([], r)"
| "diff_existing resolver old (new_table # rest) r =
     (case table_of old (tab_name new_table) of
        None \<Rightarrow> diff_existing resolver old rest r
      | Some old_table \<Rightarrow>
          let (cs, r) = diff_table resolver old_table new_table r;
              (more, r) = diff_existing resolver old rest r
          in (cs @ diff_table_rls old_table new_table @ diff_table_indexes old_table new_table @ more, r))"

definition diff :: "'r resolver \<Rightarrow> schema \<Rightarrow> schema \<Rightarrow> 'r \<Rightarrow> change list \<times> 'r" where
  "diff resolver old new r =
     (let to_drop = filter (\<lambda>t. table_of new (tab_name t) = None) (tables old);
          to_create = filter (\<lambda>t. table_of old (tab_name t) = None) (tables new);
          (existing, r) = diff_existing resolver old (tables new) r
      in (diff_roles old new @ map DropTable (rev (topo_sort_creates to_drop)) @
          map CreateTable (topo_sort_creates to_create) @ existing @
          map DropRole (filter (\<lambda>x. role_of new (role_name x) = None) (roles old)), r))"

text \<open>The warnings; strings are UTF-8 bytes, and the dash of the messages is three of them.\<close>

definition em_dash :: string where
  "em_dash = [CHR 0xE2, CHR 0x80, CHR 0x94]"

definition widening_warning :: "change \<Rightarrow> string option" where
  \<open>widening_warning c =
     (case c of
        SetRls table enabled \<Rightarrow>
          if enabled then None
          else Some (''disables row-level security on "'' @ table @ ''" '' @ em_dash @
                     '' every row becomes visible to anyone with table access'')
      | SetForceRls table forced \<Rightarrow>
          if forced then None
          else Some (''un-forces row-level security on "'' @ table @ ''" '' @ em_dash @
                     '' the table owner now bypasses all policies'')
      | _ \<Rightarrow> None)\<close>

definition widening_warnings :: "change list \<Rightarrow> string list" where
  "widening_warnings changes = List.map_filter widening_warning changes"

end
