(* ===== verification/Catalog.thy ===== *)
theory Catalog
  imports SchemaDiff
begin

text \<open>
  What a migration does, independent of its SQL text: a database catalog as maps from names to
  definitions, the effect of one change on it, and the inverse of a change. A change applies only
  to the state it records as the one before it: a column is altered only from the type the change
  names, privileges are granted only when none of them is held, and so on; so a list of changes
  that applies is consistent and can be undone.

  Of a column the catalog keeps the type and the nullability, the two attributes the diff tracks.
\<close>

record cat_table =
  ct_cols :: "string \<rightharpoonup> string \<times> bool"
  ct_rls :: bool
  ct_force :: bool
  ct_policies :: "string \<rightharpoonup> policy"
  ct_grants :: "string \<Rightarrow> privilege set"
  ct_indexes :: "string \<rightharpoonup> index"

record catalog =
  cat_tables :: "string \<rightharpoonup> cat_table"
  cat_roles :: "string \<rightharpoonup> role"

definition col_view :: "column \<Rightarrow> string \<times> bool" where
  "col_view c = (sql_type c, nullable c)"

text \<open>\<^verbatim>\<open>ALL\<close> stands for every privilege.\<close>

definition held :: "privilege list \<Rightarrow> privilege set" where
  "held ps = (if PrAll \<in> set ps then UNIV else set ps)"

definition cat_of_table :: "table \<Rightarrow> cat_table" where
  "cat_of_table t =
     \<lparr>ct_cols = (\<lambda>n. map_option col_view (column_of t n)), ct_rls = rls t, ct_force = force_rls t,
      ct_policies = policy_of t,
      ct_grants = (\<lambda>r. case grant_of t r of None \<Rightarrow> {} | Some g \<Rightarrow> held (grant_privileges g)),
      ct_indexes = index_of t\<rparr>"

definition cat_of :: "schema \<Rightarrow> catalog" where
  "cat_of s = \<lparr>cat_tables = (\<lambda>n. map_option cat_of_table (table_of s n)), cat_roles = role_of s\<rparr>"

subsection \<open>The effect of a change\<close>

text \<open>Replacing the value of a key: from an expected old value to a new one.\<close>

definition swap :: "'k \<Rightarrow> 'v option \<Rightarrow> 'v option \<Rightarrow> ('k \<rightharpoonup> 'v) \<Rightarrow> ('k \<rightharpoonup> 'v) option" where
  "swap k a b m = (if m k = a then Some (m(k := b)) else None)"

fun table_change :: "change \<Rightarrow> cat_table \<Rightarrow> cat_table option" where
  "table_change (AddColumn t c) ct =
     map_option (\<lambda>m. ct\<lparr>ct_cols := m\<rparr>) (swap (col_name c) None (Some (col_view c)) (ct_cols ct))"
| "table_change (DropColumn t c) ct =
     map_option (\<lambda>m. ct\<lparr>ct_cols := m\<rparr>) (swap (col_name c) (Some (col_view c)) None (ct_cols ct))"
| "table_change (AlterType t from to) ct =
     (if col_name from = col_name to
      then map_option (\<lambda>m. ct\<lparr>ct_cols := m\<rparr>)
             (swap (col_name to) (Some (col_view from)) (Some (col_view to)) (ct_cols ct))
      else None)"
| "table_change (RenameColumn t from to to_def from_def) ct =
     (if from \<noteq> to \<and> ct_cols ct to = None \<and> ct_cols ct from \<noteq> None
      then Some (ct\<lparr>ct_cols := (ct_cols ct)(from := None, to := ct_cols ct from)\<rparr>) else None)"
| "table_change (SetRls t b) ct = (if ct_rls ct = (\<not> b) then Some (ct\<lparr>ct_rls := b\<rparr>) else None)"
| "table_change (SetForceRls t b) ct = (if ct_force ct = (\<not> b) then Some (ct\<lparr>ct_force := b\<rparr>) else None)"
| "table_change (Grant t r ps) ct =
     (if ct_grants ct r \<inter> held ps = {}
      then Some (ct\<lparr>ct_grants := (ct_grants ct)(r := ct_grants ct r \<union> held ps)\<rparr>) else None)"
| "table_change (Revoke t r ps) ct =
     (if held ps \<subseteq> ct_grants ct r
      then Some (ct\<lparr>ct_grants := (ct_grants ct)(r := ct_grants ct r - held ps)\<rparr>) else None)"
| "table_change (CreatePolicy t p) ct =
     map_option (\<lambda>m. ct\<lparr>ct_policies := m\<rparr>) (swap (pol_name p) None (Some p) (ct_policies ct))"
| "table_change (DropPolicy t p) ct =
     map_option (\<lambda>m. ct\<lparr>ct_policies := m\<rparr>) (swap (pol_name p) (Some p) None (ct_policies ct))"
| "table_change (CreateIndex t i) ct =
     map_option (\<lambda>m. ct\<lparr>ct_indexes := m\<rparr>) (swap (ix_name i) None (Some i) (ct_indexes ct))"
| "table_change (DropIndex t i) ct =
     map_option (\<lambda>m. ct\<lparr>ct_indexes := m\<rparr>) (swap (ix_name i) (Some i) None (ct_indexes ct))"
| "table_change _ ct = None"

fun changed_table :: "change \<Rightarrow> string option" where
  "changed_table (CreateTable t) = None"
| "changed_table (DropTable t) = None"
| "changed_table (CreateRole r) = None"
| "changed_table (DropRole r) = None"
| "changed_table (AlterRole r r') = None"
| "changed_table (AddColumn t c) = Some t"
| "changed_table (DropColumn t c) = Some t"
| "changed_table (AlterType t c c') = Some t"
| "changed_table (RenameColumn t a b c c') = Some t"
| "changed_table (SetRls t b) = Some t"
| "changed_table (SetForceRls t b) = Some t"
| "changed_table (Grant t r ps) = Some t"
| "changed_table (Revoke t r ps) = Some t"
| "changed_table (CreatePolicy t p) = Some t"
| "changed_table (DropPolicy t p) = Some t"
| "changed_table (CreateIndex t i) = Some t"
| "changed_table (DropIndex t i) = Some t"

fun apply_change :: "change \<Rightarrow> catalog \<Rightarrow> catalog option" where
  "apply_change (CreateTable t) C =
     map_option (\<lambda>m. C\<lparr>cat_tables := m\<rparr>) (swap (tab_name t) None (Some (cat_of_table t)) (cat_tables C))"
| "apply_change (DropTable t) C =
     map_option (\<lambda>m. C\<lparr>cat_tables := m\<rparr>) (swap (tab_name t) (Some (cat_of_table t)) None (cat_tables C))"
| "apply_change (CreateRole r) C =
     map_option (\<lambda>m. C\<lparr>cat_roles := m\<rparr>) (swap (role_name r) None (Some r) (cat_roles C))"
| "apply_change (DropRole r) C =
     map_option (\<lambda>m. C\<lparr>cat_roles := m\<rparr>) (swap (role_name r) (Some r) None (cat_roles C))"
| "apply_change (AlterRole from to) C =
     (if role_name from = role_name to
      then map_option (\<lambda>m. C\<lparr>cat_roles := m\<rparr>) (swap (role_name to) (Some from) (Some to) (cat_roles C))
      else None)"
| "apply_change c C =
     (case changed_table c of
        None \<Rightarrow> None
      | Some t \<Rightarrow>
          (case cat_tables C t of
             None \<Rightarrow> None
           | Some ct \<Rightarrow> map_option (\<lambda>ct'. C\<lparr>cat_tables := (cat_tables C)(t \<mapsto> ct')\<rparr>) (table_change c ct)))"

fun apply_all :: "change list \<Rightarrow> catalog \<Rightarrow> catalog option" where
  "apply_all [] C = Some C"
| "apply_all (c # cs) C = Option.bind (apply_change c C) (apply_all cs)"

fun table_all :: "change list \<Rightarrow> cat_table \<Rightarrow> cat_table option" where
  "table_all [] ct = Some ct"
| "table_all (c # cs) ct = Option.bind (table_change c ct) (table_all cs)"

lemma apply_all_append: "apply_all (cs @ ds) C = Option.bind (apply_all cs C) (apply_all ds)"
  by (induction cs arbitrary: C) (auto split: Option.bind_splits)

lemma table_all_append: "table_all (cs @ ds) ct = Option.bind (table_all cs ct) (table_all ds)"
  by (induction cs arbitrary: ct) (auto split: Option.bind_splits)

lemma apply_table_change:
  assumes "changed_table c = Some t" and "cat_tables C t = Some ct"
  shows "apply_change c C = map_option (\<lambda>ct'. C\<lparr>cat_tables := (cat_tables C)(t \<mapsto> ct')\<rparr>) (table_change c ct)"
  using assms by (cases c) simp_all

text \<open>A list of changes of one table acts on that table alone.\<close>

lemma apply_all_table:
  assumes "\<And>c. c \<in> set cs \<Longrightarrow> changed_table c = Some t" and "cat_tables C t = Some ct"
    and "table_all cs ct = Some ct'"
  shows "apply_all cs C = Some (C\<lparr>cat_tables := (cat_tables C)(t \<mapsto> ct')\<rparr>)"
  using assms
proof (induction cs arbitrary: C ct)
  case Nil
  then show ?case by (simp add: fun_upd_idem)
next
  case (Cons c cs)
  then obtain ct1 where ct1: "table_change c ct = Some ct1" "table_all cs ct1 = Some ct'"
    by (cases "table_change c ct") auto
  let ?C = "C\<lparr>cat_tables := (cat_tables C)(t \<mapsto> ct1)\<rparr>"
  have "apply_change c C = Some ?C"
    using apply_table_change [of c t C ct] Cons.prems(1,2) ct1(1) by simp
  moreover have "apply_all cs ?C = Some (?C\<lparr>cat_tables := (cat_tables ?C)(t \<mapsto> ct')\<rparr>)"
    using Cons.prems(1) ct1(2) by (intro Cons.IH [of ?C ct1]) simp_all
  ultimately show ?case by (simp del: fun_upd_apply)
qed

subsection \<open>Undoing\<close>

fun undo :: "change \<Rightarrow> change" where
  "undo (CreateTable t) = DropTable t"
| "undo (DropTable t) = CreateTable t"
| "undo (AddColumn t c) = DropColumn t c"
| "undo (DropColumn t c) = AddColumn t c"
| "undo (AlterType t from to) = AlterType t to from"
| "undo (RenameColumn t from to to_def from_def) = RenameColumn t to from from_def to_def"
| "undo (CreateRole r) = DropRole r"
| "undo (DropRole r) = CreateRole r"
| "undo (AlterRole from to) = AlterRole to from"
| "undo (SetRls t b) = SetRls t (\<not> b)"
| "undo (SetForceRls t b) = SetForceRls t (\<not> b)"
| "undo (Grant t r ps) = Revoke t r ps"
| "undo (Revoke t r ps) = Grant t r ps"
| "undo (CreatePolicy t p) = DropPolicy t p"
| "undo (DropPolicy t p) = CreatePolicy t p"
| "undo (CreateIndex t i) = DropIndex t i"
| "undo (DropIndex t i) = CreateIndex t i"

lemma changed_table_undo [simp]: "changed_table (undo c) = changed_table c"
  by (cases c) simp_all

lemma grants_undo:
  "A \<inter> E = {} \<Longrightarrow> (g(r := A \<union> E))(r := (A \<union> E) - E) = g(r := A)"
  "E \<subseteq> A \<Longrightarrow> (g(r := A - E))(r := (A - E) \<union> E) = g(r := A)"
  for A E :: "privilege set"
  by (auto simp: fun_eq_iff)

lemma table_change_undo:
  assumes "table_change c ct = Some ct'"
  shows "table_change (undo c) ct' = Some ct"
proof (cases c)
  case (RenameColumn t a b d e)
  have "(ct_cols ct)(b := None, a := ct_cols ct a) = ct_cols ct" if "ct_cols ct b = None"
    using that by (auto simp: fun_eq_iff)
  then show ?thesis using assms RenameColumn by (auto simp: fun_upd_twist split: if_splits)
next
  case (Grant t r ps)
  then show ?thesis
    using assms grants_undo(1) [of "ct_grants ct r" "held ps" "ct_grants ct" r]
    by (auto simp del: fun_upd_apply simp add: fun_upd_same split: if_splits)
next
  case (Revoke t r ps)
  then show ?thesis
    using assms grants_undo(2) [of "held ps" "ct_grants ct r" "ct_grants ct" r]
    by (auto simp del: fun_upd_apply simp add: fun_upd_same split: if_splits)
qed (use assms in \<open>auto simp: swap_def fun_upd_idem split: if_splits\<close>)

lemma apply_change_undo:
  assumes "apply_change c C = Some C'"
  shows "apply_change (undo c) C' = Some C"
proof (cases "changed_table c")
  case None
  then show ?thesis
    using assms by (cases c) (auto simp: swap_def fun_upd_idem split: if_splits)
next
  case (Some t)
  then obtain ct where ct: "cat_tables C t = Some ct" using assms by (cases c) (auto split: option.splits)
  with assms apply_table_change [OF Some ct] obtain ct' where
    ct': "table_change c ct = Some ct'" "C' = C\<lparr>cat_tables := (cat_tables C)(t \<mapsto> ct')\<rparr>" by auto
  have "apply_change (undo c) C' = Some (C'\<lparr>cat_tables := (cat_tables C')(t \<mapsto> ct)\<rparr>)"
    using apply_table_change [of "undo c" t C' ct'] Some ct'(2) table_change_undo [OF ct'(1)] by simp
  then show ?thesis using ct ct'(2) by (simp add: fun_upd_idem)
qed

lemma apply_all_undo: "apply_all cs C = Some C' \<Longrightarrow> apply_all (map undo (rev cs)) C' = Some C"
proof (induction cs arbitrary: C)
  case (Cons c cs)
  then obtain C1 where "apply_change c C = Some C1" "apply_all cs C1 = Some C'"
    by (cases "apply_change c C") auto
  with Cons.IH [of C1] apply_change_undo [of c C C1] show ?case by (simp add: apply_all_append)
qed simp

end
