(* ===== verification/SchemaSql.thy ===== *)
theory SchemaSql
  imports SchemaDiff
begin

text \<open>
  The SQL of a migration, \<^verbatim>\<open>crates/orm-cli/src/diff.rs\<close> from \<^verbatim>\<open>quote\<close> to \<^verbatim>\<open>down_sql\<close>.
\<close>

fun quote_chars :: "string \<Rightarrow> string" where
  "quote_chars [] = []"
| "quote_chars (c # cs) = (if c = CHR 0x22 then CHR 0x22 # c # quote_chars cs else c # quote_chars cs)"

definition quote :: "string \<Rightarrow> string" where
  "quote name = CHR 0x22 # quote_chars name @ [CHR 0x22]"

definition column_ddl :: "column \<Rightarrow> string" where
  "column_ddl c =
     quote (col_name c) @ '' '' @ sql_type c @
     (if nullable c then [] else '' not null'') @
     (if uniq c then '' unique'' else []) @
     (case generated c of
        Some expr \<Rightarrow> '' generated always as ('' @ expr @ '') stored''
      | None \<Rightarrow> (case default c of Some d \<Rightarrow> '' default '' @ d | None \<Rightarrow> [])) @
     (case references c of
        None \<Rightarrow> []
      | Some fk \<Rightarrow>
          '' references '' @ quote (fk_table fk) @ '' ('' @ quote (fk_column fk) @ '') on delete '' @ fk_on_delete fk)"

definition index_name :: "string \<Rightarrow> string \<Rightarrow> string" where
  "index_name table column = ''idx_'' @ table @ ''_'' @ column"

definition create_index_sql :: "string \<Rightarrow> column \<Rightarrow> string" where
  "create_index_sql table c =
     (let using = (case index_method c of None \<Rightarrow> [] | Some method \<Rightarrow> '' using '' @ method);
          opcls = (case opclass c of None \<Rightarrow> [] | Some oc \<Rightarrow> '' '' @ oc)
      in ''create index '' @ quote (index_name table (col_name c)) @ '' on '' @ quote table @ using @ '' ('' @
         quote (col_name c) @ opcls @ '');'')"

definition create_table_index_sql :: "string \<Rightarrow> index \<Rightarrow> string" where
  "create_table_index_sql table i =
     (let unique = (if ix_unique i then ''unique '' else []);
          using = (case ix_method i of None \<Rightarrow> [] | Some method \<Rightarrow> '' using '' @ method);
          cols = join '', '' (map quote (ix_columns i))
      in ''create '' @ unique @ ''index '' @ quote (ix_name i) @ '' on '' @ quote table @ using @ '' ('' @ cols @ '')'' @
         (case ix_predicate i of None \<Rightarrow> [] | Some p \<Rightarrow> '' where '' @ p) @ '';'')"

definition drop_index_sql :: "index \<Rightarrow> string" where
  "drop_index_sql i = ''drop index '' @ quote (ix_name i) @ '';''"

definition newline :: string where "newline = [CHR 0x0A]"

definition create_table_sql :: "table \<Rightarrow> string" where
  "create_table_sql t =
     (let lines = map (\<lambda>c. ''    '' @ column_ddl c) (columns t);
          pks = map (\<lambda>c. quote (col_name c)) (filter pk (columns t));
          lines = (if pks = [] then lines else lines @ [''    primary key ('' @ join '', '' pks @ '')''])
      in ''create table '' @ quote (tab_name t) @ '' ('' @ newline @ join ('','' @ newline) lines @ newline @ '');'')"

definition alter_type_sql :: "string \<Rightarrow> column \<Rightarrow> string" where
  "alter_type_sql table c =
     (let name = quote (col_name c)
      in ''alter table '' @ quote table @ '' alter column '' @ name @ '' type '' @ sql_type c @ '' using '' @ name @
         ''::'' @ sql_type c @ '';'' @ newline @
         ''alter table '' @ quote table @ '' alter column '' @ name @ '' '' @
         (if nullable c then ''drop'' else ''set'') @ '' not null;'')"

definition privilege_list :: "privilege list \<Rightarrow> string" where
  "privilege_list ps = join '', '' (map privilege_sql (canonical_privileges ps))"

fun double_quotes :: "string \<Rightarrow> string" where
  "double_quotes [] = []"
| "double_quotes (c # cs) = (if c = CHR 0x27 then CHR 0x27 # CHR 0x27 # double_quotes cs else c # double_quotes cs)"

definition quote_literal :: "string \<Rightarrow> string" where
  "quote_literal value = CHR 0x27 # double_quotes value @ [CHR 0x27]"

subsection \<open>Dollar quoting\<close>

fun contains :: "string \<Rightarrow> string \<Rightarrow> bool" where
  "contains [] needle = (needle = [])"
| "contains (c # cs) needle = (take (length needle) (c # cs) = needle \<or> contains cs needle)"

lemma contains_length: "contains body needle \<Longrightarrow> length needle \<le> length body"
proof (induction body)
  case (Cons c cs)
  show ?case
  proof (cases "contains cs needle")
    case False
    then have "take (length needle) (c # cs) = needle" using Cons.prems by simp
    then show ?thesis by (metis length_take min.cobounded1 min.commute)
  qed (use Cons.IH in simp)
qed simp

text \<open>The loop inserts one more underscore while the tag occurs in the body.\<close>

function dollar_loop :: "string \<Rightarrow> string \<Rightarrow> string" where
  "dollar_loop body tag =
     (if contains body tag
      then dollar_loop body (take (length tag - 1) tag @ ''_'' @ drop (length tag - 1) tag) else tag)"
  by pat_completeness auto
termination
proof (relation "measure (\<lambda>(body, tag). Suc (length body) - length tag)", goal_cases)
  case (2 body tag)
  have "length (take (length tag - 1) tag @ ''_'' @ drop (length tag - 1) tag) = Suc (length tag)" by simp
  then show ?case using contains_length [OF 2] by simp
qed simp

declare dollar_loop.simps [simp del]

definition dollar_tag :: "string \<Rightarrow> string" where
  "dollar_tag body = dollar_loop body ''$role$''"

subsection \<open>Roles, row-level security, grants and policies\<close>

definition create_role_body :: "role \<Rightarrow> string" where
  "create_role_body r =
     (let create = ''create role '' @ quote (role_name r) @
            (if login r then '' login'' else []) @ (if createdb r then '' createdb'' else []) @
            (if createrole r then '' createrole'' else []) @ (if bypassrls r then '' bypassrls'' else []);
          name = quote_literal (role_name r);
          q = [CHR 0x27]
      in newline @ ''begin'' @ newline @ ''    if exists (select from pg_roles where rolname = '' @ name @ '') then'' @ newline @
         ''        raise notice '' @ q @ ''role % already exists, keeping its attributes'' @ q @ '', '' @ name @ '';'' @ newline @
         ''    else'' @ newline @ ''        '' @ create @ '';'' @ newline @ ''    end if;'' @ newline @
         ''exception when insufficient_privilege then'' @ newline @
         ''    raise exception '' @ q @ ''role % does not exist and this role may not create it (%): create it first'' @ q @
         '', '' @ name @ '', sqlerrm;'' @ newline @ ''end'' @ newline)"

definition create_role_sql :: "role \<Rightarrow> string" where
  "create_role_sql r =
     (let body = create_role_body r; tag = dollar_tag body in ''do '' @ tag @ body @ tag @ '';'')"

definition alter_role_sql :: "role \<Rightarrow> string" where
  "alter_role_sql r =
     ''alter role '' @ quote (role_name r) @ '' with '' @ (if login r then ''login'' else ''nologin'') @ '' '' @
     (if createdb r then ''createdb'' else ''nocreatedb'') @ '' '' @
     (if createrole r then ''createrole'' else ''nocreaterole'') @ '' '' @
     (if bypassrls r then ''bypassrls'' else ''nobypassrls'') @ '';''"

definition set_rls_sql :: "string \<Rightarrow> bool \<Rightarrow> string" where
  "set_rls_sql table enabled =
     ''alter table '' @ quote table @ '' '' @ (if enabled then ''enable'' else ''disable'') @ '' row level security;''"

definition force_rls_sql :: "string \<Rightarrow> bool \<Rightarrow> string" where
  "force_rls_sql table forced =
     ''alter table '' @ quote table @ '' '' @ (if forced then ''force'' else ''no force'') @ '' row level security;''"

definition grant_sql :: "string \<Rightarrow> string \<Rightarrow> privilege list \<Rightarrow> string" where
  "grant_sql table r ps = ''grant '' @ privilege_list ps @ '' on '' @ quote table @ '' to '' @ quote r @ '';''"

definition revoke_sql :: "string \<Rightarrow> string \<Rightarrow> privilege list \<Rightarrow> string" where
  "revoke_sql table r ps = ''revoke '' @ privilege_list ps @ '' on '' @ quote table @ '' from '' @ quote r @ '';''"

definition create_policy_sql :: "string \<Rightarrow> policy \<Rightarrow> string" where
  "create_policy_sql table p =
     ''create policy '' @ quote (pol_name p) @ '' on '' @ quote table @ '' for '' @ policy_command_sql (pol_command p) @
     (if pol_roles p = [] then [] else '' to '' @ join '', '' (map quote (pol_roles p))) @
     (case pol_using p of None \<Rightarrow> [] | Some e \<Rightarrow> '' using ('' @ e @ '')'') @
     (case pol_check p of None \<Rightarrow> [] | Some e \<Rightarrow> '' with check ('' @ e @ '')'') @ '';''"

definition drop_policy_sql :: "string \<Rightarrow> policy \<Rightarrow> string" where
  "drop_policy_sql table p = ''drop policy '' @ quote (pol_name p) @ '' on '' @ quote table @ '';''"

definition create_object_sql :: "table \<Rightarrow> string" where
  "create_object_sql t =
     create_table_sql t @
     concat (map (\<lambda>c. newline @ create_index_sql (tab_name t) c) (filter col_index (columns t))) @
     concat (map (\<lambda>i. newline @ create_table_index_sql (tab_name t) i) (indexes t)) @
     concat (map (\<lambda>g. newline @ grant_sql (tab_name t) (grant_role g) (grant_privileges g)) (grants t)) @
     (if rls t then newline @ set_rls_sql (tab_name t) True else []) @
     (if force_rls t then newline @ force_rls_sql (tab_name t) True else []) @
     concat (map (\<lambda>p. newline @ create_policy_sql (tab_name t) p) (policies t))"

definition add_column_sql :: "string \<Rightarrow> column \<Rightarrow> string" where
  "add_column_sql table c =
     ''alter table '' @ quote table @ '' add column '' @ column_ddl c @ '';'' @
     (if col_index c then newline @ create_index_sql table c else [])"

definition drop_column_sql :: "string \<Rightarrow> string \<Rightarrow> string" where
  "drop_column_sql table column = ''alter table '' @ quote table @ '' drop column '' @ quote column @ '';''"

definition rename_sql :: "string \<Rightarrow> string \<Rightarrow> string \<Rightarrow> string" where
  "rename_sql table from to =
     ''alter table '' @ quote table @ '' rename column '' @ quote from @ '' to '' @ quote to @ '';''"

fun up :: "change \<Rightarrow> string" where
  "up (CreateTable t) = create_object_sql t"
| "up (DropTable t) = ''drop table '' @ quote (tab_name t) @ '';''"
| "up (AddColumn table c) = add_column_sql table c"
| "up (DropColumn table c) = drop_column_sql table (col_name c)"
| "up (AlterType table from to) = alter_type_sql table to"
| "up (RenameColumn table from to to_def from_def) = rename_sql table from to"
| "up (CreateRole r) = create_role_sql r"
| "up (DropRole r) = ''drop role '' @ quote (role_name r) @ '';''"
| "up (AlterRole from to) = alter_role_sql to"
| "up (SetRls table enabled) = set_rls_sql table enabled"
| "up (SetForceRls table forced) = force_rls_sql table forced"
| "up (Grant table r ps) = grant_sql table r ps"
| "up (Revoke table r ps) = revoke_sql table r ps"
| "up (CreatePolicy table p) = create_policy_sql table p"
| "up (DropPolicy table p) = drop_policy_sql table p"
| "up (CreateIndex table i) = create_table_index_sql table i"
| "up (DropIndex table i) = drop_index_sql i"

fun down :: "change \<Rightarrow> string" where
  "down (CreateTable t) = ''drop table '' @ quote (tab_name t) @ '';''"
| "down (DropTable t) = create_object_sql t"
| "down (AddColumn table c) = drop_column_sql table (col_name c)"
| "down (DropColumn table c) = add_column_sql table c"
| "down (AlterType table from to) = alter_type_sql table from"
| "down (RenameColumn table from to to_def from_def) = rename_sql table to from"
| "down (CreateRole r) = ''drop role '' @ quote (role_name r) @ '';''"
| "down (DropRole r) = create_role_sql r"
| "down (AlterRole from to) = alter_role_sql from"
| "down (SetRls table enabled) = set_rls_sql table (\<not> enabled)"
| "down (SetForceRls table forced) = force_rls_sql table (\<not> forced)"
| "down (Grant table r ps) = revoke_sql table r ps"
| "down (Revoke table r ps) = grant_sql table r ps"
| "down (CreatePolicy table p) = drop_policy_sql table p"
| "down (DropPolicy table p) = create_policy_sql table p"
| "down (CreateIndex table i) = drop_index_sql i"
| "down (DropIndex table i) = create_table_index_sql table i"

definition up_sql :: "change list \<Rightarrow> string" where
  "up_sql changes = join newline (map up changes)"

definition down_sql :: "change list \<Rightarrow> string" where
  "down_sql changes = join newline (map down (rev changes))"

end
