(* ===== verification/Migration.thy ===== *)
theory Migration
  imports Catalog SchemaSql "HOL-Library.Multiset"
begin

text \<open>
  The schema diff is correct: applied to the catalog of the old schema its changes give the
  catalog of the new one, undone in reverse order they give the old one back, tables are created
  after the tables they reference, and the SQL of the down migration is the SQL of the undone
  changes.
\<close>

subsection \<open>Replacing many keys\<close>

fun swap_all :: "('k \<times> 'v option \<times> 'v option) list \<Rightarrow> ('k \<rightharpoonup> 'v) \<Rightarrow> ('k \<rightharpoonup> 'v) option" where
  "swap_all [] m = Some m"
| "swap_all ((k, a, b) # xs) m = Option.bind (swap k a b m) (swap_all xs)"

lemma swap_all_append: "swap_all (xs @ ys) m = Option.bind (swap_all xs m) (swap_all ys)"
  by (induction xs arbitrary: m) (auto split: Option.bind_splits)

lemma swap_all_updates:
  assumes "distinct (map key xs)" and "\<And>x. x \<in> set xs \<Longrightarrow> m (key x) = old x"
  shows "swap_all (map (\<lambda>x. (key x, old x, new x)) xs) m =
    Some (\<lambda>n. case List.find (\<lambda>x. key x = n) xs of None \<Rightarrow> m n | Some x \<Rightarrow> new x)"
  using assms
proof (induction xs arbitrary: m)
  case (Cons x xs)
  have "swap_all (map (\<lambda>x. (key x, old x, new x)) xs) (m(key x := new x)) =
    Some (\<lambda>n. case List.find (\<lambda>x. key x = n) xs of None \<Rightarrow> (m(key x := new x)) n | Some x \<Rightarrow> new x)"
  proof (rule Cons.IH)
    show "distinct (map key xs)" using Cons.prems(1) by simp
    fix y assume y: "y \<in> set xs"
    then have "key y \<noteq> key x" using Cons.prems(1) by (auto simp: image_iff)
    then show "(m(key x := new x)) (key y) = old y" using Cons.prems(2) y by simp
  qed
  moreover have "List.find (\<lambda>y. key y = key x) xs = None"
    using Cons.prems(1) by (simp add: find_key_None)
  ultimately show ?case
    using Cons.prems by (auto simp: swap_def fun_eq_iff split: option.splits)
qed simp

text \<open>Dropping what is gone or changed, then creating what is new or changed.\<close>

lemma find_filter_key:
  assumes "distinct (map key xs)"
  shows "List.find (\<lambda>x. key x = n) (filter P xs) =
    (case List.find (\<lambda>x. key x = n) xs of None \<Rightarrow> None | Some x \<Rightarrow> if P x then Some x else None)"
  using assms
proof (induction xs)
  case (Cons a xs)
  have "List.find (\<lambda>x. key x = n) xs = None" if "key a = n"
    using Cons.prems that by (auto simp: find_key_None)
  with Cons show ?case by (auto split: option.splits)
qed simp

lemma swap_all_replace:
  fixes xs ys :: "'x list" and key :: "'x \<Rightarrow> 'k"
  assumes dx: "distinct (map key xs)" and dy: "distinct (map key ys)"
  defines "D \<equiv> filter (\<lambda>x. List.find (\<lambda>y. key y = key x) ys \<noteq> Some x) xs"
    and "K \<equiv> filter (\<lambda>y. List.find (\<lambda>x. key x = key y) xs \<noteq> Some y) ys"
  shows "swap_all (map (\<lambda>x. (key x, Some x, None)) D @ map (\<lambda>y. (key y, None, Some y)) K)
      (\<lambda>n. List.find (\<lambda>x. key x = n) xs) = Some (\<lambda>n. List.find (\<lambda>y. key y = n) ys)"
proof -
  let ?m = "\<lambda>n. List.find (\<lambda>x. key x = n) xs"
  let ?m1 = "\<lambda>n. case List.find (\<lambda>x. key x = n) D of None \<Rightarrow> ?m n | Some x \<Rightarrow> None"
  have d: "distinct (map key D)" "distinct (map key K)" using dx dy by (simp_all add: D_def K_def distinct_map_filter)
  have 1: "swap_all (map (\<lambda>x. (key x, Some x, None)) D) ?m = Some ?m1"
    using d(1) by (intro swap_all_updates) (auto simp: D_def find_key_self [OF dx])
  have f1: "List.find (\<lambda>x. key x = n) D =
      (case ?m n of None \<Rightarrow> None | Some x \<Rightarrow> if List.find (\<lambda>y. key y = key x) ys \<noteq> Some x then Some x else None)" for n
    unfolding D_def by (rule find_filter_key [OF dx])
  have f2: "List.find (\<lambda>y. key y = n) K =
      (case List.find (\<lambda>y. key y = n) ys of None \<Rightarrow> None
       | Some y \<Rightarrow> if List.find (\<lambda>x. key x = key y) xs \<noteq> Some y then Some y else None)" for n
    unfolding K_def by (rule find_filter_key [OF dy])
  have key: "key x = n" if "List.find (\<lambda>x. key x = n) zs = Some x" for x n and zs :: "'x list"
    using that by (auto simp: find_Some_iff)
  have "?m1 (key y) = None" if "y \<in> set K" for y
  proof (cases "?m (key y)")
    case (Some x)
    have "List.find (\<lambda>z. key z = key x) ys = Some y"
      using that key [OF Some] by (simp add: K_def find_key_self [OF dy])
    moreover have "x \<noteq> y" using that Some by (auto simp: K_def)
    ultimately show ?thesis by (simp add: f1 Some)
  qed (simp add: f1)
  then have 2: "swap_all (map (\<lambda>y. (key y, None, Some y)) K) ?m1 =
      Some (\<lambda>n. case List.find (\<lambda>y. key y = n) K of None \<Rightarrow> ?m1 n | Some y \<Rightarrow> Some y)"
    using d(2) by (intro swap_all_updates) auto
  have "(case List.find (\<lambda>y. key y = n) K of None \<Rightarrow> ?m1 n | Some y \<Rightarrow> Some y) = List.find (\<lambda>y. key y = n) ys" for n
  proof (cases "List.find (\<lambda>y. key y = n) ys")
    case None
    then show ?thesis using key [of n xs] by (auto simp: f1 f2 split: option.splits)
  next
    case (Some y)
    then show ?thesis using key [of n xs] key [OF Some] by (auto simp: f1 f2 split: option.splits)
  qed
  with 1 2 show ?thesis by (simp add: swap_all_append)
qed

subsection \<open>Policies, indexes and flags\<close>

lemma policies_swap:
  "table_all (map (DropPolicy t) D @ map (CreatePolicy t) K) ct =
   map_option (\<lambda>m. ct\<lparr>ct_policies := m\<rparr>)
     (swap_all (map (\<lambda>x. (pol_name x, Some x, None)) D @ map (\<lambda>y. (pol_name y, None, Some y)) K) (ct_policies ct))"
proof (induction D arbitrary: ct)
  case Nil
  show ?case
    by (induction K arbitrary: ct) (auto simp: swap_def simp del: fun_upd_apply split: Option.bind_splits)
next
  case (Cons x D)
  then show ?case by (auto simp: swap_def simp del: fun_upd_apply split: Option.bind_splits)
qed

lemma diff_policies_ok:
  assumes "wf_table old" "wf_table new" and "ct_policies ct = policy_of old"
  shows "table_all (diff_policies old new) ct = Some (ct\<lparr>ct_policies := policy_of new\<rparr>)"
  using assms swap_all_replace [of pol_name "policies old" "policies new"]
  unfolding diff_policies_def policies_swap wf_table_def policy_of_def [abs_def] by simp

lemma indexes_swap:
  "table_all (map (DropIndex t) D @ map (CreateIndex t) K) ct =
   map_option (\<lambda>m. ct\<lparr>ct_indexes := m\<rparr>)
     (swap_all (map (\<lambda>x. (ix_name x, Some x, None)) D @ map (\<lambda>y. (ix_name y, None, Some y)) K) (ct_indexes ct))"
proof (induction D arbitrary: ct)
  case Nil
  show ?case
    by (induction K arbitrary: ct) (auto simp: swap_def simp del: fun_upd_apply split: Option.bind_splits)
next
  case (Cons x D)
  then show ?case by (auto simp: swap_def simp del: fun_upd_apply split: Option.bind_splits)
qed

lemma diff_indexes_ok:
  assumes "wf_table old" "wf_table new" and "ct_indexes ct = index_of old"
  shows "table_all (diff_table_indexes old new) ct = Some (ct\<lparr>ct_indexes := index_of new\<rparr>)"
  using assms swap_all_replace [of ix_name "indexes old" "indexes new"]
  unfolding diff_table_indexes_def indexes_swap wf_table_def index_of_def [abs_def] by simp

subsection \<open>Grants\<close>

lemma held_canonical [simp]: "held (canonical_privileges ps) = held ps"
  by (auto simp: held_def canonical_privileges_def)

lemma canonical_eq_held: "canonical_privileges ps = canonical_privileges qs \<Longrightarrow> held ps = held qs"
  by (metis held_canonical)

definition grants_map :: "grant list \<Rightarrow> string \<Rightarrow> privilege set" where
  "grants_map gs r =
     (case List.find (\<lambda>g. grant_role g = r) gs of None \<Rightarrow> {} | Some g \<Rightarrow> held (grant_privileges g))"

lemma grants_new_loop:
  assumes "distinct (map grant_role gs)"
    and "\<And>g. g \<in> set gs \<Longrightarrow> ct_grants ct (grant_role g) =
      (case grant_of old (grant_role g) of None \<Rightarrow> {} | Some p \<Rightarrow> held (grant_privileges p))"
  shows "table_all (concat (map (\<lambda>g.
       let new_privileges = canonical_privileges (grant_privileges g)
       in case grant_of old (grant_role g) of
            None \<Rightarrow> [Grant t (grant_role g) new_privileges]
          | Some previous \<Rightarrow>
              let old_privileges = canonical_privileges (grant_privileges previous)
              in if old_privileges \<noteq> new_privileges
                 then [Revoke t (grant_role g) old_privileges, Grant t (grant_role g) new_privileges]
                 else []) gs)) ct =
    Some (ct\<lparr>ct_grants := \<lambda>r. case List.find (\<lambda>g. grant_role g = r) gs of
        None \<Rightarrow> ct_grants ct r | Some g \<Rightarrow> held (grant_privileges g)\<rparr>)"
  using assms
proof (induction gs arbitrary: ct)
  case (Cons g gs)
  let ?ct = "ct\<lparr>ct_grants := (ct_grants ct)(grant_role g := held (grant_privileges g))\<rparr>"
  let ?one = "let new_privileges = canonical_privileges (grant_privileges g)
       in case grant_of old (grant_role g) of
            None \<Rightarrow> [Grant t (grant_role g) new_privileges]
          | Some previous \<Rightarrow>
              let old_privileges = canonical_privileges (grant_privileges previous)
              in if old_privileges \<noteq> new_privileges
                 then [Revoke t (grant_role g) old_privileges, Grant t (grant_role g) new_privileges]
                 else []"
  have old: "ct_grants ct (grant_role g) =
      (case grant_of old (grant_role g) of None \<Rightarrow> {} | Some p \<Rightarrow> held (grant_privileges p))"
    using Cons.prems(2) by simp
  have one: "table_all ?one ct = Some ?ct"
  proof (cases "grant_of old (grant_role g)")
    case None
    then show ?thesis using old by (simp add: Let_def)
  next
    case (Some p)
    then show ?thesis
      using old canonical_eq_held [of "grant_privileges p" "grant_privileges g"]
      by (auto simp: Let_def fun_upd_idem)
  qed
  have fresh: "List.find (\<lambda>x. grant_role x = grant_role g) gs = None"
    using Cons.prems(1) by (simp add: find_key_None)
  have gs: "ct_grants ?ct (grant_role x) =
      (case grant_of old (grant_role x) of None \<Rightarrow> {} | Some p \<Rightarrow> held (grant_privileges p))" if "x \<in> set gs" for x
  proof -
    have "grant_role x \<noteq> grant_role g" using Cons.prems(1) that by (auto simp: image_iff)
    then show ?thesis using Cons.prems(2) [of x] that by simp
  qed
  have "(\<lambda>r. case List.find (\<lambda>x. grant_role x = r) gs of
        None \<Rightarrow> ct_grants ?ct r | Some x \<Rightarrow> held (grant_privileges x)) =
    (\<lambda>r. case List.find (\<lambda>x. grant_role x = r) (g # gs) of
        None \<Rightarrow> ct_grants ct r | Some x \<Rightarrow> held (grant_privileges x))"
    using fresh by (auto simp: fun_eq_iff split: option.splits)
  then show ?case
    using one Cons.IH [of ?ct] gs Cons.prems(1) by (simp add: table_all_append del: fun_upd_apply)
qed simp

lemma grants_old_loop:
  assumes "distinct (map grant_role gs)"
    and "\<And>g. g \<in> set gs \<Longrightarrow> grant_of new (grant_role g) = None \<Longrightarrow>
      ct_grants ct (grant_role g) = held (grant_privileges g)"
  shows "table_all (concat (map (\<lambda>g.
       if grant_of new (grant_role g) = None
       then [Revoke t (grant_role g) (canonical_privileges (grant_privileges g))] else []) gs)) ct =
    Some (ct\<lparr>ct_grants := \<lambda>r. if r \<in> grant_role ` set gs \<and> grant_of new r = None then {} else ct_grants ct r\<rparr>)"
  using assms
proof (induction gs arbitrary: ct)
  case (Cons g gs)
  show ?case
  proof (cases "grant_of new (grant_role g) = None")
    case True
    let ?ct = "ct\<lparr>ct_grants := (ct_grants ct)(grant_role g := {})\<rparr>"
    have gs: "ct_grants ?ct (grant_role x) = held (grant_privileges x)"
      if "x \<in> set gs" "grant_of new (grant_role x) = None" for x
    proof -
      have "grant_role x \<noteq> grant_role g" using Cons.prems(1) that by (auto simp: image_iff)
      then show ?thesis using Cons.prems(2) [of x] that by simp
    qed
    have "(\<lambda>r. if r \<in> grant_role ` set gs \<and> grant_of new r = None then {} else ct_grants ?ct r) =
      (\<lambda>r. if r \<in> grant_role ` set (g # gs) \<and> grant_of new r = None then {} else ct_grants ct r)"
      using True by (auto simp: fun_eq_iff)
    then show ?thesis
      using True Cons.IH [of ?ct] gs Cons.prems by (simp del: fun_upd_apply)
  next
    case False
    have "(\<lambda>r. if r \<in> grant_role ` set gs \<and> grant_of new r = None then {} else ct_grants ct r) =
      (\<lambda>r. if r \<in> grant_role ` set (g # gs) \<and> grant_of new r = None then {} else ct_grants ct r)"
      using False by (auto simp: fun_eq_iff)
    then show ?thesis using False Cons.IH [of ct] Cons.prems by (simp del: not_None_eq)
  qed
qed simp

lemma diff_grants_ok:
  assumes wf: "wf_table old" "wf_table new" and ct: "ct_grants ct = grants_map (grants old)"
  shows "table_all (diff_grants old new) ct = Some (ct\<lparr>ct_grants := grants_map (grants new)\<rparr>)"
proof -
  have d: "distinct (map grant_role (grants old))" "distinct (map grant_role (grants new))"
    using wf by (simp_all add: wf_table_def)
  let ?g1 = "\<lambda>r. case List.find (\<lambda>g. grant_role g = r) (grants new) of
        None \<Rightarrow> ct_grants ct r | Some g \<Rightarrow> held (grant_privileges g)"
  let ?g2 = "\<lambda>r. if r \<in> grant_role ` set (grants old) \<and> grant_of new r = None then {} else ?g1 r"
  have old: "?g1 (grant_role g) = held (grant_privileges g)"
    if "g \<in> set (grants old)" "grant_of new (grant_role g) = None" for g
    using that find_key_self [OF d(1) that(1)] by (simp add: ct grants_map_def grant_of_def)
  have "?g2 = grants_map (grants new)"
    by (auto simp: fun_eq_iff ct grants_map_def grant_of_def find_key_None split: option.splits)
       (auto simp: find_key_None [symmetric])
  moreover have "table_all (diff_grants old new) ct = Some (ct\<lparr>ct_grants := ?g2\<rparr>)"
    unfolding diff_grants_def table_all_append
    by (subst grants_new_loop [OF d(2)], simp add: ct grants_map_def grant_of_def)
       (simp add: grants_old_loop [OF d(1)] old cong: if_cong)
  ultimately show ?thesis by simp
qed

subsection \<open>Columns\<close>

definition views :: "column list \<Rightarrow> string \<rightharpoonup> string \<times> bool" where
  "views cs = map_of (map (\<lambda>c. (col_name c, col_view c)) cs)"

lemma views_simps [simp]: "views [] = Map.empty" "views (c # cs) = (views cs)(col_name c \<mapsto> col_view c)"
  by (simp_all add: views_def)

lemma views_None: "views cs n = None \<longleftrightarrow> n \<notin> col_name ` set cs"
  by (auto simp: views_def map_of_eq_None_iff image_iff)

lemma views_find: "views cs n = map_option col_view (List.find (\<lambda>c. col_name c = n) cs)"
  by (induction cs) auto

lemma views_filter: "views (filter (\<lambda>c. P (col_name c)) cs) n = (if P n then views cs n else None)"
  by (induction cs) auto

lemma type_differs_view: "\<not> type_differs c c' \<longleftrightarrow> col_view c = col_view c'"
  by (auto simp: type_differs_def col_view_def)

lemma alter_loop:
  assumes "distinct (map col_name cs)"
    and "\<And>c p. c \<in> set cs \<Longrightarrow> column_of old (col_name c) = Some p \<Longrightarrow> ct_cols ct (col_name c) = Some (col_view p)"
  shows "table_all (concat (map (\<lambda>c. case column_of old (col_name c) of
       None \<Rightarrow> [] | Some p \<Rightarrow> if type_differs c p then [AlterType t p c] else []) cs)) ct =
     Some (ct\<lparr>ct_cols := ct_cols ct ++ views (filter (\<lambda>c. column_of old (col_name c) \<noteq> None) cs)\<rparr>)"
  using assms
proof (induction cs arbitrary: ct)
  case (Cons c cs)
  show ?case
  proof (cases "column_of old (col_name c)")
    case None
    then show ?thesis using Cons by simp
  next
    case (Some p)
    let ?ct = "ct\<lparr>ct_cols := (ct_cols ct)(col_name c \<mapsto> col_view c)\<rparr>"
    have p: "col_name p = col_name c" "ct_cols ct (col_name c) = Some (col_view p)"
      using Some Cons.prems(2) [of c p] by (auto simp: column_of_def find_Some_iff)
    have one: "table_all (if type_differs c p then [AlterType t p c] else []) ct = Some ?ct"
      using p type_differs_view [of c p] by (auto simp: swap_def fun_upd_idem)
    have cs: "ct_cols ?ct (col_name x) = Some (col_view q)"
      if "x \<in> set cs" "column_of old (col_name x) = Some q" for x q
    proof -
      have "col_name x \<noteq> col_name c" using Cons.prems(1) that(1) by (auto simp: image_iff)
      then show ?thesis using Cons.prems(2) [of x q] that by simp
    qed
    let ?F = "filter (\<lambda>c. column_of old (col_name c) \<noteq> None) cs"
    have "views ?F (col_name c) = None" using Cons.prems(1) by (auto simp: views_None)
    then have "ct_cols ?ct ++ views ?F = ct_cols ct ++ views (c # ?F)"
      by (auto simp: fun_eq_iff map_add_def split: option.splits)
    then show ?thesis
      using one Some Cons.IH [of ?ct] cs Cons.prems(1) by (simp add: table_all_append del: fun_upd_apply)
  qed
qed simp

lemma drop_loop:
  assumes "distinct (map col_name cs)" and "\<And>c. c \<in> set cs \<Longrightarrow> ct_cols ct (col_name c) = Some (col_view c)"
  shows "table_all (map (DropColumn t) cs) ct = Some (ct\<lparr>ct_cols := ct_cols ct |` (- col_name ` set cs)\<rparr>)"
  using assms
proof (induction cs arbitrary: ct)
  case (Cons c cs)
  let ?ct = "ct\<lparr>ct_cols := (ct_cols ct)(col_name c := None)\<rparr>"
  have cs: "ct_cols ?ct (col_name x) = Some (col_view x)" if "x \<in> set cs" for x
  proof -
    have "col_name x \<noteq> col_name c" using Cons.prems(1) that by (auto simp: image_iff)
    then show ?thesis using Cons.prems(2) [of x] that by simp
  qed
  have "ct_cols ?ct |` (- col_name ` set cs) = ct_cols ct |` (- col_name ` set (c # cs))"
    by (auto simp: fun_eq_iff restrict_map_def)
  then show ?case
    using Cons.IH [of ?ct] cs Cons.prems by (simp add: swap_def del: fun_upd_apply)
qed (simp add: restrict_map_def)

lemma distinct_map_append_mid:
  assumes "distinct (map f rem)" and "rem = as @ x # bs" and "rem' = as @ bs"
  shows "set rem' \<subseteq> set rem" "f x \<notin> f ` set rem'" "distinct (map f rem')" "f ` set rem = insert (f x) (f ` set rem')"
  using assms by auto

lemma added_step:
  assumes "n \<notin> col_name ` set rem" and "views added n = None"
  shows "((m(k := None, n \<mapsto> v)) |` (- col_name ` set rem)) ++ views added =
    (m |` (- insert k (col_name ` set rem))) ++ (views added)(n \<mapsto> v)"
  using assms by (auto simp: fun_eq_iff map_add_def restrict_map_def split: option.splits)

lemma diff_added_ok:
  assumes "distinct (map col_name added)" and "distinct (map col_name rem)"
    and "\<And>c. c \<in> set rem \<Longrightarrow> ct_cols ct (col_name c) = Some (col_view c)"
    and "\<And>c. c \<in> set added \<Longrightarrow> ct_cols ct (col_name c) = None"
    and "diff_added res t added rem r = (cs, left, r')"
  shows "table_all (cs @ map (DropColumn t) left) ct =
    Some (ct\<lparr>ct_cols := (ct_cols ct |` (- col_name ` set rem)) ++ views added\<rparr>)"
  using assms
proof (induction added arbitrary: rem ct r cs)
  case Nil
  then show ?case by (simp add: drop_loop)
next
  case (Cons c added)
  have fresh: "views added (col_name c) = None" using Cons.prems(1) by (simp add: views_None)
  have notin: "col_name c \<notin> col_name ` set rem" using Cons.prems(3,4) by force
  have other: "col_name x \<noteq> col_name c" if "x \<in> set added" for x
    using Cons.prems(1) that by (auto simp: image_iff)
  obtain target r1 where tg: "(if rem = [] then (None, r) else res t c rem r) = (target, r1)" by fastforce
  show ?case
  proof (cases "case target of None \<Rightarrow> None | Some name \<Rightarrow> position (\<lambda>c. col_name c = name) rem")
    case None
    let ?ct = "ct\<lparr>ct_cols := (ct_cols ct)(col_name c \<mapsto> col_view c)\<rparr>"
    from None tg Cons.prems(5) obtain cs' where cs: "cs = AddColumn t c # cs'"
      and rec: "diff_added res t added rem r1 = (cs', left, r')" by (auto split: prod.splits)
    have "table_all (cs' @ map (DropColumn t) left) ?ct =
        Some (?ct\<lparr>ct_cols := (ct_cols ?ct |` (- col_name ` set rem)) ++ views added\<rparr>)"
      using Cons.prems notin other by (intro Cons.IH [OF _ _ _ _ rec]) (auto simp: image_iff)
    moreover have "(ct_cols ?ct |` (- col_name ` set rem)) ++ views added =
        (ct_cols ct |` (- col_name ` set rem)) ++ views (c # added)"
      using fresh notin by (auto simp: fun_eq_iff map_add_def restrict_map_def split: option.splits)
    ultimately show ?thesis using Cons.prems(4) [of c] cs by (simp add: swap_def del: fun_upd_apply)
  next
    case (Some i)
    let ?o = "rem ! i"
    from Some have i: "i < length rem"
      using position_Some [of _ rem i] by (auto split: option.splits)
    then obtain as bs where split: "rem = as @ ?o # bs" "remove_at i rem = as @ bs"
      using remove_at_split [OF i] by blast
    have o: "ct_cols ct (col_name ?o) = Some (col_view ?o)" "col_name ?o \<noteq> col_name c"
      using Cons.prems(3) [of ?o] nth_mem [OF i] notin by (auto simp: image_iff)
    let ?alter = "if type_differs ?o c then [AlterType t (rename_keep_type ?o (col_name c)) c] else []"
    from Some tg Cons.prems(5) obtain cs' where
      cs: "cs = RenameColumn t (col_name ?o) (col_name c) c ?o # ?alter @ cs'"
      and rec: "diff_added res t added (remove_at i rem) r1 = (cs', left, r')"
      by (auto simp: Let_def split: prod.splits)
    let ?ct = "ct\<lparr>ct_cols := (ct_cols ct)(col_name ?o := None, col_name c \<mapsto> col_view c)\<rparr>"
    have one: "table_all (RenameColumn t (col_name ?o) (col_name c) c ?o # ?alter) ct = Some ?ct"
      using o Cons.prems(4) [of c] type_differs_view [of ?o c]
      by (auto simp: swap_def rename_keep_type_def col_view_def)
    have sub: "set (remove_at i rem) \<subseteq> set rem" and no: "col_name ?o \<notin> col_name ` set (remove_at i rem)"
      and dr: "distinct (map col_name (remove_at i rem))"
      and names: "col_name ` set rem = insert (col_name ?o) (col_name ` set (remove_at i rem))"
      using distinct_map_append_mid [OF Cons.prems(2) split] by simp_all
    have "table_all (cs' @ map (DropColumn t) left) ?ct =
        Some (?ct\<lparr>ct_cols := (ct_cols ?ct |` (- col_name ` set (remove_at i rem))) ++ views added\<rparr>)"
    proof (rule Cons.IH [OF _ dr _ _ rec])
      show "distinct (map col_name added)" using Cons.prems(1) by simp
      show "ct_cols ?ct (col_name x) = Some (col_view x)" if "x \<in> set (remove_at i rem)" for x
      proof -
        have "x \<in> set rem" using that sub by blast
        moreover from this have "col_name x \<noteq> col_name ?o" "col_name x \<noteq> col_name c"
          using that no notin by (auto simp: image_iff)
        ultimately show ?thesis using Cons.prems(3) [of x] by simp
      qed
      show "ct_cols ?ct (col_name x) = None" if "x \<in> set added" for x
        using Cons.prems(4) [of x] other [OF that] that by simp
    qed
    moreover have "(ct_cols ?ct |` (- col_name ` set (remove_at i rem))) ++ views added =
        (ct_cols ct |` (- col_name ` set rem)) ++ views (c # added)"
      using added_step [of "col_name c" "remove_at i rem" added "ct_cols ct" "col_name ?o" "col_view c"] fresh notin names
      by (simp del: fun_upd_apply)
    moreover have "table_all (cs @ map (DropColumn t) left) ct = table_all (cs' @ map (DropColumn t) left) ?ct"
      using one table_all_append [of "RenameColumn t (col_name ?o) (col_name c) c ?o # ?alter" "cs' @ map (DropColumn t) left" ct]
      by (simp add: cs del: fun_upd_apply)
    ultimately show ?thesis by (simp del: fun_upd_apply)
  qed
qed

lemma diff_table_ok:
  assumes wf: "wf_table old" "wf_table new" and ct: "ct_cols ct = views (columns old)"
    and eq: "diff_table res old new r = (cs, r')"
  shows "table_all cs ct = Some (ct\<lparr>ct_cols := views (columns new)\<rparr>)"
proof -
  let ?rem = "filter (\<lambda>c. column_of new (col_name c) = None) (columns old)"
  let ?add = "filter (\<lambda>c. column_of old (col_name c) = None) (columns new)"
  let ?keep = "filter (\<lambda>c. column_of old (col_name c) \<noteq> None) (columns new)"
  have d: "distinct (map col_name (columns old))" "distinct (map col_name (columns new))"
    using wf by (simp_all add: wf_table_def)
  obtain ch left where da: "diff_added res (tab_name new) ?add ?rem r = (ch, left, r')"
    and cs: "cs = diff_altered old new @ ch @ map (DropColumn (tab_name new)) left"
    using eq by (auto simp: diff_table_def Let_def split: prod.splits)
  let ?m = "views (columns old) ++ views ?keep"
  have 1: "table_all (diff_altered old new) ct = Some (ct\<lparr>ct_cols := ?m\<rparr>)"
    unfolding diff_altered_def ct [symmetric]
    by (rule alter_loop [OF d(2)]) (simp add: ct views_find column_of_def)
  have cols: "column_of new n = List.find (\<lambda>c. col_name c = n) (columns new)"
    "column_of old n = List.find (\<lambda>c. col_name c = n) (columns old)" for n by (simp_all add: column_of_def)
  have keep: "views ?keep n = (if column_of old n = None then None else views (columns new) n)" for n
    using views_filter [of "\<lambda>n. column_of old n \<noteq> None" "columns new" n] by simp
  have add: "views ?add n = (if column_of old n = None then views (columns new) n else None)" for n
    using views_filter [of "\<lambda>n. column_of old n = None" "columns new" n] by simp
  have rem: "n \<in> col_name ` set ?rem \<longleftrightarrow> column_of old n \<noteq> None \<and> column_of new n = None" for n
    by (auto simp: cols find_key_None image_iff)
  have mrem: "?m (col_name c) = Some (col_view c)" if "c \<in> set ?rem" for c
    using that find_key_self [OF d(1), of c] unfolding map_add_def keep by (simp add: views_find cols)
  have madd: "?m (col_name c) = None" if "c \<in> set ?add" for c
    using that unfolding map_add_def keep by (simp add: views_find cols)
  have "table_all (ch @ map (DropColumn (tab_name new)) left) (ct\<lparr>ct_cols := ?m\<rparr>) =
      Some (ct\<lparr>ct_cols := ?m\<rparr>\<lparr>ct_cols := (?m |` (- col_name ` set ?rem)) ++ views ?add\<rparr>)"
    using diff_added_ok [OF distinct_map_filter [OF d(2)] distinct_map_filter [OF d(1)] _ _ da,
        of "ct\<lparr>ct_cols := ?m\<rparr>"] mrem madd by simp
  moreover have "(?m |` (- col_name ` set ?rem)) ++ views ?add = views (columns new)"
  proof
    fix n
    show "((?m |` (- col_name ` set ?rem)) ++ views ?add) n = views (columns new) n"
      unfolding map_add_def add restrict_map_def Compl_iff rem keep
      by (cases "List.find (\<lambda>c. col_name c = n) (columns new)"; cases "List.find (\<lambda>c. col_name c = n) (columns old)")
         (simp_all add: views_find cols)
  qed
  ultimately show ?thesis using 1 by (simp add: cs table_all_append)
qed

lemma cat_of_table_cols: "ct_cols (cat_of_table t) = views (columns t)"
  by (simp add: cat_of_table_def views_find fun_eq_iff column_of_def)

lemma cat_of_table_grants: "ct_grants (cat_of_table t) = grants_map (grants t)"
  by (simp add: cat_of_table_def grants_map_def fun_eq_iff grant_of_def)

lemma diff_one_table:
  assumes wf: "wf_table old" "wf_table new" and eq: "diff_table res old new r = (cs, r')"
  shows "table_all (cs @ diff_table_rls old new @ diff_table_indexes old new) (cat_of_table old) =
    Some (cat_of_table new)"
proof -
  let ?c0 = "cat_of_table old"
  let ?c1 = "?c0\<lparr>ct_cols := views (columns new)\<rparr>"
  let ?c2 = "?c1\<lparr>ct_rls := rls new, ct_force := force_rls new\<rparr>"
  let ?c3 = "?c2\<lparr>ct_grants := grants_map (grants new)\<rparr>"
  let ?c4 = "?c3\<lparr>ct_policies := policy_of new\<rparr>"
  have 1: "table_all cs ?c0 = Some ?c1" by (rule diff_table_ok [OF wf cat_of_table_cols eq])
  have f: "ct_rls ?c1 = rls old" "ct_force ?c1 = force_rls old" by (simp_all add: cat_of_table_def)
  have 2: "table_all ((if rls old \<noteq> rls new then [SetRls (tab_name new) (rls new)] else []) @
      (if force_rls old \<noteq> force_rls new then [SetForceRls (tab_name new) (force_rls new)] else [])) ?c1 = Some ?c2"
    using f by (cases "rls old"; cases "force_rls old"; cases "rls new"; cases "force_rls new")
      (simp_all add: cat_of_table_def)
  have 3: "table_all (diff_grants old new) ?c2 = Some ?c3"
    by (rule diff_grants_ok [OF wf]) (simp add: cat_of_table_grants)
  have 4: "table_all (diff_policies old new) ?c3 = Some ?c4"
    by (rule diff_policies_ok [OF wf]) (simp add: cat_of_table_def)
  have 5: "table_all (diff_table_indexes old new) ?c4 = Some (?c4\<lparr>ct_indexes := index_of new\<rparr>)"
    by (rule diff_indexes_ok [OF wf]) (simp add: cat_of_table_def)
  have "?c4\<lparr>ct_indexes := index_of new\<rparr> = cat_of_table new"
    using cat_of_table_cols [of new] cat_of_table_grants [of new] by (simp add: cat_of_table_def)
  then show ?thesis
    using 1 2 3 4 5 by (simp add: diff_table_rls_def table_all_append append_assoc [symmetric] del: append_assoc)
qed

subsection \<open>Creation order\<close>

lemma topo_loop_step:
  assumes "remaining \<noteq> []"
  obtains i as bs where "i < length remaining" "remaining = as @ remaining ! i # bs"
    "position (\<lambda>t. \<not> depends_on_unplaced S t placed) remaining = Some i \<or>
     position (\<lambda>t. \<not> depends_on_unplaced S t placed) remaining = None \<and> i = 0"
    "topo_loop S remaining placed ordered =
     topo_loop S (as @ bs) (placed @ [tab_name (remaining ! i)]) (ordered @ [remaining ! i])"
proof -
  let ?p = "position (\<lambda>t. \<not> depends_on_unplaced S t placed) remaining"
  let ?i = "case ?p of None \<Rightarrow> 0 | Some i \<Rightarrow> i"
  have i: "?i < length remaining"
    using assms position_Some [of _ remaining] by (auto split: option.splits)
  from remove_at_split [OF i] obtain as bs where
    s: "remaining = as @ remaining ! ?i # bs" "remove_at ?i remaining = as @ bs" by blast
  have "topo_loop S remaining placed ordered =
     topo_loop S (as @ bs) (placed @ [tab_name (remaining ! ?i)]) (ordered @ [remaining ! ?i])"
    using assms s(2) by (subst topo_loop.simps) (simp add: Let_def)
  then show ?thesis using that [OF i s(1)] by (auto split: option.splits)
qed

lemma topo_loop_mset: "mset (topo_loop S remaining placed ordered) = mset ordered + mset remaining"
proof (induction "length remaining" arbitrary: remaining placed ordered)
  case 0
  then show ?case by (simp add: topo_loop.simps)
next
  case (Suc n)
  then have "remaining \<noteq> []" by auto
  then obtain i as bs where s: "remaining = as @ remaining ! i # bs"
    "topo_loop S remaining placed ordered =
     topo_loop S (as @ bs) (placed @ [tab_name (remaining ! i)]) (ordered @ [remaining ! i])"
    using topo_loop_step [of remaining S placed ordered] by metis
  have "length (as @ bs) = n" using Suc.hyps(2) s(1) by (metis add_Suc_right length_Cons length_append nat.inject)
  then have "mset (topo_loop S (as @ bs) (placed @ [tab_name (remaining ! i)]) (ordered @ [remaining ! i])) =
      mset (ordered @ [remaining ! i]) + mset (as @ bs)" using Suc.hyps(1) by metis
  moreover have "mset remaining = add_mset (remaining ! i) (mset (as @ bs))" by (subst s(1)) simp
  ultimately show ?case using s(2) by simp
qed

lemma topo_sort_mset: "mset (topo_sort_creates ts) = mset ts"
  by (simp add: topo_sort_creates_def topo_loop_mset)

text \<open>The tables a table references, other than itself.\<close>

definition targets :: "table \<Rightarrow> string set" where
  "targets t = {fk_table fk | c fk. c \<in> set (columns t) \<and> references c = Some fk \<and> fk_table fk \<noteq> tab_name t}"

lemma depends_targets:
  "depends_on_unplaced S t placed \<longleftrightarrow> (\<exists>n \<in> targets t. n \<in> set S \<and> n \<notin> set placed)"
  unfolding depends_on_unplaced_def targets_def list_ex_iff
  by (auto split: option.splits)

text \<open>A list of tables in which every table comes after those of the list it references.\<close>

definition parents_first :: "string set \<Rightarrow> table list \<Rightarrow> bool" where
  "parents_first S ts \<longleftrightarrow>
     (\<forall>i < length ts. \<forall>n \<in> targets (ts ! i). n \<in> S \<longrightarrow> n \<in> tab_name ` set (take i ts))"

lemma parents_first_snoc:
  "parents_first S ts \<Longrightarrow> (\<And>n. n \<in> targets t \<Longrightarrow> n \<in> S \<Longrightarrow> n \<in> tab_name ` set ts) \<Longrightarrow> parents_first S (ts @ [t])"
  by (auto simp: parents_first_def nth_append less_Suc_eq)

lemma topo_loop_order:
  fixes rank :: "string \<Rightarrow> nat"
  assumes rank: "\<And>t n. t \<in> set remaining \<Longrightarrow> n \<in> targets t \<Longrightarrow> n \<in> set S \<Longrightarrow> rank n < rank (tab_name t)"
    and names: "set S = tab_name ` set ordered \<union> tab_name ` set remaining"
    and placed: "placed = map tab_name ordered" and pf: "parents_first (set S) ordered"
  shows "parents_first (set S) (topo_loop S remaining placed ordered)"
  using assms
proof (induction "length remaining" arbitrary: remaining placed ordered)
  case 0
  then show ?case by (simp add: topo_loop.simps)
next
  case (Suc n)
  then have ne: "remaining \<noteq> []" by auto
  let ?P = "\<lambda>t. \<not> depends_on_unplaced S t placed"
  have "\<exists>t \<in> set remaining. ?P t"
  proof -
    obtain t where t: "t \<in> set remaining" "\<And>u. u \<in> set remaining \<Longrightarrow> rank (tab_name t) \<le> rank (tab_name u)"
      using ne arg_min_if_finite(1) [of "set remaining" "rank \<circ> tab_name"] arg_min_least [of "set remaining" _ "rank \<circ> tab_name"]
      by (metis List.finite_set comp_apply set_empty)
    have "n \<in> set placed" if n: "n \<in> targets t" "n \<in> set S" for n
    proof (rule ccontr)
      assume "n \<notin> set placed"
      then obtain u where "u \<in> set remaining" "tab_name u = n" using Suc.prems(2,3) n(2) by auto
      then show False using t(2) [of u] Suc.prems(1) [OF t(1) n] by simp
    qed
    then show ?thesis using t(1) by (auto simp: depends_targets)
  qed
  then have some: "position ?P remaining \<noteq> None" by (auto simp: position_None)
  obtain i as bs where i: "position ?P remaining = Some i" "remaining = as @ remaining ! i # bs"
    and step: "topo_loop S remaining placed ordered =
     topo_loop S (as @ bs) (placed @ [tab_name (remaining ! i)]) (ordered @ [remaining ! i])"
    using topo_loop_step [OF ne, of S placed ordered] some by metis
  let ?t = "remaining ! i"
  have t: "?P ?t" using position_Some [OF i(1)] by blast
  have len: "n = length (as @ bs)" using Suc.hyps(2) i(2) by (metis add_Suc_right length_Cons length_append nat.inject)
  have set: "set remaining = insert ?t (set (as @ bs))" by (subst i(2)) auto
  have "parents_first (set S) (ordered @ [?t])"
    using t Suc.prems(3,4) by (intro parents_first_snoc) (auto simp: depends_targets)
  then show ?case
    unfolding step using Suc.prems(1-3) set by (intro Suc.hyps(1) [OF len]) auto
qed

subsection \<open>The whole schema\<close>

lemma diff_added_table: "diff_added res t added rem r = (cs, left, r') \<Longrightarrow> c \<in> set cs \<Longrightarrow> changed_table c = Some t"
proof (induction added arbitrary: rem r cs)
  case (Cons a added)
  then show ?case by (auto simp: Let_def split: prod.splits option.splits if_splits)
qed simp

lemma diff_table_changes:
  assumes "diff_table res old new r = (cs, r')"
    and "c \<in> set (cs @ diff_table_rls old new @ diff_table_indexes old new)"
  shows "changed_table c = Some (tab_name new)"
proof -
  have "changed_table c = Some (tab_name new)" if "c \<in> set cs"
    using assms(1) that diff_added_table
    by (auto simp: diff_table_def diff_altered_def Let_def split: prod.splits option.splits if_splits)
  moreover have "changed_table c = Some (tab_name new)" if "c \<in> set (diff_grants old new)"
    using that by (auto simp: diff_grants_def Let_def split: option.splits if_splits)
  ultimately show ?thesis
    using assms(2) by (auto simp: diff_table_rls_def diff_policies_def diff_table_indexes_def split: if_splits)
qed

lemma tables_swap:
  "apply_all (map DropTable ds @ map CreateTable ks) C =
   map_option (\<lambda>m. C\<lparr>cat_tables := m\<rparr>)
     (swap_all (map (\<lambda>t. (tab_name t, Some (cat_of_table t), None)) ds @
        map (\<lambda>t. (tab_name t, None, Some (cat_of_table t))) ks) (cat_tables C))"
proof (induction ds arbitrary: C)
  case Nil
  show ?case
    by (induction ks arbitrary: C) (auto simp: swap_def simp del: fun_upd_apply split: Option.bind_splits)
next
  case (Cons t ds)
  then show ?case by (auto simp: swap_def simp del: fun_upd_apply split: Option.bind_splits)
qed

lemma drop_roles_swap:
  "apply_all (map DropRole ds) C =
   map_option (\<lambda>m. C\<lparr>cat_roles := m\<rparr>) (swap_all (map (\<lambda>r. (role_name r, Some r, None)) ds) (cat_roles C))"
  by (induction ds arbitrary: C) (auto simp: swap_def simp del: fun_upd_apply split: Option.bind_splits)

lemma diff_roles_swap:
  "apply_all (diff_roles old new) C =
   map_option (\<lambda>m. C\<lparr>cat_roles := m\<rparr>)
     (swap_all (map (\<lambda>r. (role_name r, role_of old (role_name r), Some r))
        (filter (\<lambda>r. role_of old (role_name r) \<noteq> Some r) (roles new))) (cat_roles C))"
proof -
  have name: "role_name p = n" if "role_of old n = Some p" for p n
    using that by (auto simp: role_of_def find_Some_iff)
  have "apply_all (concat (map (\<lambda>r. case role_of old (role_name r) of None \<Rightarrow> [CreateRole r]
          | Some previous \<Rightarrow> if previous \<noteq> r then [AlterRole previous r] else []) rs)) C =
      map_option (\<lambda>m. C\<lparr>cat_roles := m\<rparr>)
        (swap_all (map (\<lambda>r. (role_name r, role_of old (role_name r), Some r))
          (filter (\<lambda>r. role_of old (role_name r) \<noteq> Some r) rs)) (cat_roles C))" for rs
  proof (induction rs arbitrary: C)
    case (Cons r rs)
    show ?case
    proof (cases "role_of old (role_name r)")
      case None
      then show ?thesis using Cons by (auto simp: swap_def simp del: fun_upd_apply split: Option.bind_splits)
    next
      case (Some p)
      then show ?thesis using Cons name [OF Some]
        by (auto simp: swap_def simp del: fun_upd_apply split: Option.bind_splits)
    qed
  qed simp
  then show ?thesis unfolding diff_roles_def .
qed

lemma roles_result:
  assumes "distinct (map role_name (roles old))" and "distinct (map role_name (roles new))"
    and "cat_roles C = role_of old"
  shows "apply_all (diff_roles old new) C = Some (C\<lparr>cat_roles := \<lambda>n. case role_of new n of None \<Rightarrow> role_of old n | Some r \<Rightarrow> Some r\<rparr>)"
proof -
  let ?F = "filter (\<lambda>r. role_of old (role_name r) \<noteq> Some r) (roles new)"
  have d: "distinct (map role_name ?F)" using assms(2) by (simp add: distinct_map_filter)
  have "swap_all (map (\<lambda>r. (role_name r, role_of old (role_name r), Some r)) ?F) (cat_roles C) =
      Some (\<lambda>n. case List.find (\<lambda>r. role_name r = n) ?F of None \<Rightarrow> cat_roles C n | Some r \<Rightarrow> Some r)"
    using assms(3) by (intro swap_all_updates [OF d]) simp
  moreover have "(case List.find (\<lambda>r. role_name r = n) ?F of None \<Rightarrow> cat_roles C n | Some r \<Rightarrow> Some r) =
      (case role_of new n of None \<Rightarrow> role_of old n | Some r \<Rightarrow> Some r)" for n
  proof (cases "role_of new n")
    case None
    then have "List.find (\<lambda>r. role_name r = n) ?F = None" by (auto simp: find_key_None role_of_def)
    then show ?thesis using None assms(3) by simp
  next
    case (Some r)
    then have "role_name r = n" by (auto simp: role_of_def find_Some_iff)
    then show ?thesis
      using Some assms(3) find_filter_key [OF assms(2), of n "\<lambda>r. role_of old (role_name r) \<noteq> Some r"]
      by (simp add: role_of_def [of new])
  qed
  ultimately show ?thesis by (simp add: diff_roles_swap)
qed

lemma diff_existing_ok:
  assumes "distinct (map tab_name ts)" and "\<And>t. t \<in> set ts \<Longrightarrow> wf_table t"
    and "\<And>n t. table_of old n = Some t \<Longrightarrow> wf_table t"
    and "\<And>t t0. t \<in> set ts \<Longrightarrow> table_of old (tab_name t) = Some t0 \<Longrightarrow> cat_tables C (tab_name t) = Some (cat_of_table t0)"
    and "diff_existing res old ts r = (cs, r')"
  shows "apply_all cs C = Some (C\<lparr>cat_tables := \<lambda>n.
     case List.find (\<lambda>t. tab_name t = n) ts of None \<Rightarrow> cat_tables C n
     | Some t \<Rightarrow> if table_of old n = None then cat_tables C n else Some (cat_of_table t)\<rparr>)"
  using assms
proof (induction ts arbitrary: C r cs)
  case (Cons t ts)
  have fresh: "List.find (\<lambda>x. tab_name x = tab_name t) ts = None" using Cons.prems(1) by (simp add: find_key_None)
  have other: "tab_name x \<noteq> tab_name t" if "x \<in> set ts" for x using Cons.prems(1) that by (auto simp: image_iff)
  let ?res = "\<lambda>C ts n. case List.find (\<lambda>t. tab_name t = n) ts of None \<Rightarrow> cat_tables C n
     | Some t \<Rightarrow> if table_of old n = None then cat_tables C n else Some (cat_of_table t)"
  show ?case
  proof (cases "table_of old (tab_name t)")
    case None
    have "?res C ts = ?res C (t # ts)" using None fresh by (auto simp: fun_eq_iff)
    then show ?thesis using Cons.IH [of C r cs] Cons.prems None by simp
  next
    case (Some t0)
    obtain c1 r1 where dt: "diff_table res t0 t r = (c1, r1)" by fastforce
    obtain more where de: "diff_existing res old ts r1 = (more, r')"
      and cs: "cs = (c1 @ diff_table_rls t0 t @ diff_table_indexes t0 t) @ more"
      using Cons.prems(5) Some dt by (auto split: prod.splits)
    let ?C = "C\<lparr>cat_tables := (cat_tables C)(tab_name t \<mapsto> cat_of_table t)\<rparr>"
    have "apply_all (c1 @ diff_table_rls t0 t @ diff_table_indexes t0 t) C = Some ?C"
      using Some Cons.prems(2,3,4) by (intro apply_all_table [OF diff_table_changes [OF dt] _ diff_one_table [OF _ _ dt]]) auto
    moreover have "apply_all more ?C = Some (?C\<lparr>cat_tables := ?res ?C ts\<rparr>)"
      using Cons.prems other by (intro Cons.IH [OF _ _ _ _ de]) auto
    moreover have "?res ?C ts = ?res C (t # ts)" using Some fresh by (auto simp: fun_eq_iff split: option.splits)
    ultimately show ?thesis
      unfolding cs apply_all_append [of "c1 @ diff_table_rls t0 t @ diff_table_indexes t0 t"]
      by (simp del: fun_upd_apply append_assoc)
  qed
qed simp

lemma find_SomeD: "List.find P xs = Some x \<Longrightarrow> P x" "List.find P xs = Some x \<Longrightarrow> x \<in> set xs"
  by (auto simp: find_Some_iff)

lemma table_of_name: "table_of s n = Some t \<Longrightarrow> tab_name t = n" "table_of s n = Some t \<Longrightarrow> t \<in> set (tables s)"
  by (auto simp: table_of_def find_Some_iff)

lemma find_key_perm:
  assumes "distinct (map k xs)" "distinct (map k ys)" "set xs = set ys"
  shows "List.find (\<lambda>x. k x = n) xs = List.find (\<lambda>x. k x = n) ys"
  using find_key_Some [OF assms(1), of n] find_key_Some [OF assms(2), of n] assms(3)
  by (cases "List.find (\<lambda>x. k x = n) xs"; cases "List.find (\<lambda>x. k x = n) ys") auto

lemma tables_swapped:
  assumes dt: "distinct (map tab_name (tables old))" "distinct (map tab_name (tables new))"
    and dks: "distinct (map tab_name ds)" "distinct (map tab_name ks)"
    and ds: "set ds = set (filter (\<lambda>t. table_of new (tab_name t) = None) (tables old))"
    and ks: "set ks = set (filter (\<lambda>t. table_of old (tab_name t) = None) (tables new))"
  shows "swap_all (map (\<lambda>t. (tab_name t, Some (cat_of_table t), None)) ds @
        map (\<lambda>t. (tab_name t, None, Some (cat_of_table t))) ks) (\<lambda>n. map_option cat_of_table (table_of old n)) =
    Some (\<lambda>n. case table_of old n of None \<Rightarrow> map_option cat_of_table (table_of new n)
      | Some t \<Rightarrow> if table_of new n = None then None else Some (cat_of_table t))"
proof -
  let ?m = "\<lambda>n. map_option cat_of_table (table_of old n)"
  let ?m1 = "\<lambda>n. case List.find (\<lambda>t. tab_name t = n) ds of None \<Rightarrow> ?m n | Some t \<Rightarrow> None"
  have find_ds: "List.find (\<lambda>t. tab_name t = n) ds =
      (case table_of old n of None \<Rightarrow> None | Some t \<Rightarrow> if table_of new (tab_name t) = None then Some t else None)" for n
    unfolding table_of_def [of old] find_filter_key [OF dt(1), symmetric]
    using dt(1) by (intro find_key_perm [OF dks(1) _ ds]) (simp add: distinct_map_filter)
  have find_ks: "List.find (\<lambda>t. tab_name t = n) ks =
      (case table_of new n of None \<Rightarrow> None | Some t \<Rightarrow> if table_of old (tab_name t) = None then Some t else None)" for n
    unfolding table_of_def [of new] find_filter_key [OF dt(2), symmetric]
    using dt(2) by (intro find_key_perm [OF dks(2) _ ks]) (simp add: distinct_map_filter)
  have old: "?m (tab_name t) = Some (cat_of_table t)" if "t \<in> set ds" for t
    using that ds find_key_self [OF dt(1), of t] by (simp add: table_of_def [of old])
  have 1: "swap_all (map (\<lambda>t. (tab_name t, Some (cat_of_table t), None)) ds) ?m = Some ?m1"
    using old by (intro swap_all_updates [OF dks(1)]) simp
  have new: "?m1 (tab_name t) = None" if "t \<in> set ks" for t
    using that ks by (simp add: find_ds)
  have 2: "swap_all (map (\<lambda>t. (tab_name t, None, Some (cat_of_table t))) ks) ?m1 =
      Some (\<lambda>n. case List.find (\<lambda>t. tab_name t = n) ks of None \<Rightarrow> ?m1 n | Some t \<Rightarrow> Some (cat_of_table t))"
    using new by (intro swap_all_updates [OF dks(2)]) simp
  have "(case List.find (\<lambda>t. tab_name t = n) ks of None \<Rightarrow> ?m1 n | Some t \<Rightarrow> Some (cat_of_table t)) =
      (case table_of old n of None \<Rightarrow> map_option cat_of_table (table_of new n)
      | Some t \<Rightarrow> if table_of new n = None then None else Some (cat_of_table t))" for n
  proof (cases "table_of old n")
    case None
    show ?thesis
    proof (cases "table_of new n")
      case (Some t)
      then show ?thesis using None table_of_name(1) [OF Some] by (simp add: find_ks)
    qed (simp add: find_ks find_ds None)
  next
    case (Some t0)
    note o = Some table_of_name(1) [OF Some]
    show ?thesis
    proof (cases "table_of new n")
      case (Some t)
      then show ?thesis using o table_of_name(1) [OF Some] by (simp add: find_ks find_ds)
    qed (simp add: find_ks find_ds o)
  qed
  then show ?thesis using 1 2 by (simp add: swap_all_append)
qed

text \<open>The roles after creation and alteration, the tables after drops and creations.\<close>

definition roles_mid :: "schema \<Rightarrow> schema \<Rightarrow> string \<rightharpoonup> role" where
  "roles_mid old new n = (case role_of new n of None \<Rightarrow> role_of old n | Some r \<Rightarrow> Some r)"

definition tables_mid :: "schema \<Rightarrow> schema \<Rightarrow> string \<rightharpoonup> cat_table" where
  "tables_mid old new n =
     (case table_of old n of None \<Rightarrow> map_option cat_of_table (table_of new n)
      | Some t \<Rightarrow> if table_of new n = None then None else Some (cat_of_table t))"

lemma existing_result:
  assumes wf: "wf_schema old" "wf_schema new" and de: "diff_existing res old (tables new) r = (ex, r')"
    and C: "cat_tables C = tables_mid old new"
  shows "apply_all ex C = Some (C\<lparr>cat_tables := \<lambda>n. map_option cat_of_table (table_of new n)\<rparr>)"
proof -
  have dt: "distinct (map tab_name (tables new))" using wf by (simp add: wf_schema_def)
  have "cat_tables C (tab_name t) = Some (cat_of_table t0)"
    if "t \<in> set (tables new)" "table_of old (tab_name t) = Some t0" for t t0
    using that find_key_self [OF dt, of t] by (simp add: C tables_mid_def table_of_def [of new])
  then have "apply_all ex C = Some (C\<lparr>cat_tables := \<lambda>n.
     case List.find (\<lambda>t. tab_name t = n) (tables new) of None \<Rightarrow> cat_tables C n
     | Some t \<Rightarrow> if table_of old n = None then cat_tables C n else Some (cat_of_table t)\<rparr>)"
    using wf table_of_name(2) [of old] by (intro diff_existing_ok [OF dt _ _ _ de]) (auto simp: wf_schema_def)
  moreover have "(case List.find (\<lambda>t. tab_name t = n) (tables new) of None \<Rightarrow> cat_tables C n
     | Some t \<Rightarrow> if table_of old n = None then cat_tables C n else Some (cat_of_table t)) =
     map_option cat_of_table (table_of new n)" for n
    by (auto simp: C tables_mid_def table_of_def [of new] split: option.splits)
  ultimately show ?thesis by simp
qed

lemma drop_roles_result:
  assumes dr: "distinct (map role_name (roles old))" and C: "cat_roles C = roles_mid old new"
  shows "apply_all (map DropRole (filter (\<lambda>x. role_of new (role_name x) = None) (roles old))) C =
    Some (C\<lparr>cat_roles := role_of new\<rparr>)"
proof -
  let ?gone = "filter (\<lambda>x. role_of new (role_name x) = None) (roles old)"
  have d: "distinct (map role_name ?gone)" using dr by (simp add: distinct_map_filter)
  have "cat_roles C (role_name x) = Some x" if "x \<in> set ?gone" for x
    using that find_key_self [OF dr, of x] by (simp add: C roles_mid_def role_of_def [of old])
  then have "swap_all (map (\<lambda>r. (role_name r, Some r, None)) ?gone) (cat_roles C) =
      Some (\<lambda>n. case List.find (\<lambda>r. role_name r = n) ?gone of None \<Rightarrow> cat_roles C n | Some r \<Rightarrow> None)"
    by (intro swap_all_updates [OF d]) simp
  moreover have "(case List.find (\<lambda>r. role_name r = n) ?gone of None \<Rightarrow> cat_roles C n | Some r \<Rightarrow> None) = role_of new n" for n
  proof (cases "role_of old n")
    case None
    then show ?thesis
      by (simp add: find_filter_key [OF dr] C roles_mid_def role_of_def [of old] split: option.splits)
  next
    case (Some x)
    then have "role_name x = n" by (auto simp: role_of_def find_Some_iff)
    then show ?thesis
      using Some by (auto simp: find_filter_key [OF dr] C roles_mid_def role_of_def [of old] split: option.splits)
  qed
  ultimately show ?thesis by (simp add: drop_roles_swap)
qed

lemma diff_applies:
  assumes wf: "wf_schema old" "wf_schema new"
  shows "apply_all (fst (diff res old new r)) (cat_of old) = Some (cat_of new)"
proof -
  let ?drop = "filter (\<lambda>t. table_of new (tab_name t) = None) (tables old)"
  let ?create = "filter (\<lambda>t. table_of old (tab_name t) = None) (tables new)"
  let ?ds = "rev (topo_sort_creates ?drop)" and ?ks = "topo_sort_creates ?create"
  let ?gone = "filter (\<lambda>x. role_of new (role_name x) = None) (roles old)"
  let ?C1 = "cat_of old\<lparr>cat_roles := roles_mid old new\<rparr>"
  let ?C2 = "?C1\<lparr>cat_tables := tables_mid old new\<rparr>"
  let ?C3 = "?C2\<lparr>cat_tables := \<lambda>n. map_option cat_of_table (table_of new n)\<rparr>"
  obtain ex r' where de: "diff_existing res old (tables new) r = (ex, r')" by fastforce
  have cs: "fst (diff res old new r) =
      diff_roles old new @ (map DropTable ?ds @ map CreateTable ?ks) @ ex @ map DropRole ?gone"
    by (simp add: diff_def Let_def de)
  have dt: "distinct (map tab_name (tables old))" "distinct (map tab_name (tables new))"
    and dr: "distinct (map role_name (roles old))" "distinct (map role_name (roles new))"
    using wf by (auto simp: wf_schema_def)
  have 1: "apply_all (diff_roles old new) (cat_of old) = Some ?C1"
    using roles_result [OF dr, of "cat_of old"] by (simp add: roles_mid_def [abs_def] cat_of_def)
  have perm: "mset ?ds = mset ?drop" "mset ?ks = mset ?create" by (simp_all add: topo_sort_mset)
  have dks: "distinct (map tab_name ?ds)" "distinct (map tab_name ?ks)"
    using mset_eq_imp_distinct_iff [of "map tab_name ?ds" "map tab_name ?drop"]
      mset_eq_imp_distinct_iff [of "map tab_name ?ks" "map tab_name ?create"] perm dt
    by (simp_all add: distinct_map_filter)
  have sets: "set ?ds = set ?drop" "set ?ks = set ?create"
    using mset_eq_setD [OF perm(1)] mset_eq_setD [OF perm(2)] by simp_all
  have 2: "apply_all (map DropTable ?ds @ map CreateTable ?ks) ?C1 = Some ?C2"
    unfolding tables_swap tables_mid_def [abs_def] by (simp add: tables_swapped [OF dt dks sets] cat_of_def)
  have 3: "apply_all ex ?C2 = Some ?C3" by (rule existing_result [OF wf de]) simp
  have 4: "apply_all (map DropRole ?gone) ?C3 = Some (?C3\<lparr>cat_roles := role_of new\<rparr>)"
    by (rule drop_roles_result [OF dr(1)]) simp
  show ?thesis
    unfolding cs apply_all_append 1 Option.bind.simps 2 [unfolded apply_all_append] 3 4 by (simp add: cat_of_def)
qed

end
