(* ===== verification/MigrationProps.thy ===== *)
theory MigrationProps
  imports Migration
begin

text \<open>
  The properties of the migration tool: what the generated migrations do, that they can be
  undone, that the diff finds nothing to do between equal schemas, and what it does not see.
\<close>

subsection \<open>Example schemas\<close>

definition ex_column :: "string \<Rightarrow> string \<Rightarrow> foreign_key option \<Rightarrow> column" where
  "ex_column n ty fk =
     \<lparr>col_name = n, sql_type = ty, nullable = False, pk = False, uniq = False, col_index = False,
      index_method = None, opclass = None, generated = None, default = None, references = fk\<rparr>"

definition ex_table :: "string \<Rightarrow> column list \<Rightarrow> table" where
  "ex_table n cs =
     \<lparr>tab_name = n, columns = cs, rls = False, force_rls = False, policies = [], grants = [], indexes = []\<rparr>"

definition ex_ref :: "string \<Rightarrow> foreign_key option" where
  "ex_ref t = Some \<lparr>fk_table = t, fk_column = ''id'', fk_on_delete = ''cascade''\<rparr>"

definition ex_old :: schema where
  "ex_old = \<lparr>tables = [ex_table ''a'' [ex_column ''id'' ''uuid'' None],
       ex_table ''b'' [ex_column ''x'' ''text'' None, ex_column ''a_id'' ''uuid'' (ex_ref ''a'')]], roles = []\<rparr>"

definition ex_new :: schema where
  "ex_new = \<lparr>tables = [ex_table ''b'' [ex_column ''y'' ''int'' None]],
     roles = [\<lparr>role_name = ''app'', login = True, createdb = False, createrole = False, bypassrls = False\<rparr>]\<rparr>"

definition ex_resolver :: "unit resolver" where
  "ex_resolver t c cands r = (Some ''x'', r)"

lemma ex_wf: "wf_schema ex_old" "wf_schema ex_new"
  by code_simp+

subsection \<open>Correctness\<close>



lemma down_undo: "down c = up (undo c)"
  by (cases c) simp_all



text \<open>New tables are created after the new tables they reference, each once, whenever the foreign
  keys among them have no cycle (other than a table referencing itself).\<close>

theorem topo_sort_parents_first:
  fixes rank :: "string \<Rightarrow> nat"
  assumes "\<And>t n. t \<in> set ts \<Longrightarrow> n \<in> targets t \<Longrightarrow> n \<in> tab_name ` set ts \<Longrightarrow> rank n < rank (tab_name t)"
  shows "parents_first (tab_name ` set ts) (topo_sort_creates ts) \<and> mset (topo_sort_creates ts) = mset ts"
  using topo_loop_order [of ts "map tab_name ts" rank "[]" "[]"] assms
  by (auto simp: topo_sort_creates_def topo_loop_mset parents_first_def)

theorem topo_sort_parents_first_witness:
  "parents_first {''a'', ''b''} (topo_sort_creates [ex_table ''a'' [ex_column ''b_id'' ''uuid'' (ex_ref ''b'')], ex_table ''b'' []]) \<and>
   map tab_name (topo_sort_creates [ex_table ''a'' [ex_column ''b_id'' ''uuid'' (ex_ref ''b'')], ex_table ''b'' []]) = [''b'', ''a'']"
proof -
  let ?ts = "[ex_table ''a'' [ex_column ''b_id'' ''uuid'' (ex_ref ''b'')], ex_table ''b'' []]"
  have "parents_first (tab_name ` set ?ts) (topo_sort_creates ?ts)"
    by (rule conjunct1 [OF topo_sort_parents_first [of _ "\<lambda>n. if n = ''a'' then 1 else 0"]])
       (auto simp: targets_def ex_table_def ex_column_def ex_ref_def)
  moreover have "map tab_name (topo_sort_creates ?ts) = [''b'', ''a'']" by code_simp
  ultimately show ?thesis by (simp add: ex_table_def)
qed

subsection \<open>Equal schemas\<close>

lemma diff_table_same:
  assumes "wf_table t"
  shows "diff_table res t t r = ([], r)" "diff_table_rls t t = []" "diff_table_indexes t t = []"
proof -
  have d: "distinct (map col_name (columns t))" "distinct (map pol_name (policies t))"
    "distinct (map grant_role (grants t))" "distinct (map ix_name (indexes t))"
    using assms by (simp_all add: wf_table_def)
  have "column_of t (col_name c) = Some c" if "c \<in> set (columns t)" for c
    using find_key_self [OF d(1) that] by (simp add: column_of_def)
  then have "diff_altered t t = []" "filter (\<lambda>c. column_of t (col_name c) = None) (columns t) = []"
    by (auto simp: diff_altered_def type_differs_def filter_empty_conv)
  then show "diff_table res t t r = ([], r)" by (simp add: diff_table_def)
  have "grant_of t (grant_role g) = Some g" if "g \<in> set (grants t)" for g
    using find_key_self [OF d(3) that] by (simp add: grant_of_def)
  moreover have "policy_of t (pol_name p) = Some p" if "p \<in> set (policies t)" for p
    using find_key_self [OF d(2) that] by (simp add: policy_of_def)
  ultimately show "diff_table_rls t t = []"
    by (auto simp: diff_table_rls_def diff_grants_def diff_policies_def filter_empty_conv)
  have "index_of t (ix_name i) = Some i" if "i \<in> set (indexes t)" for i
    using find_key_self [OF d(4) that] by (simp add: index_of_def)
  then show "diff_table_indexes t t = []" by (auto simp: diff_table_indexes_def filter_empty_conv)
qed

text \<open>The diff of a schema with itself is empty and asks the user nothing.\<close>

theorem diff_same:
  assumes "wf_schema s"
  shows "diff res s s r = ([], r)"
proof -
  have d: "distinct (map tab_name (tables s))" "distinct (map role_name (roles s))"
    and wf: "\<And>t. t \<in> set (tables s) \<Longrightarrow> wf_table t" using assms by (simp_all add: wf_schema_def)
  have t: "table_of s (tab_name t) = Some t" if "t \<in> set (tables s)" for t
    using find_key_self [OF d(1) that] by (simp add: table_of_def)
  have r: "role_of s (role_name x) = Some x" if "x \<in> set (roles s)" for x
    using find_key_self [OF d(2) that] by (simp add: role_of_def)
  have "diff_existing res s ts r = ([], r)" if "set ts \<subseteq> set (tables s)" for ts
    using that t wf by (induction ts) (auto simp: diff_table_same)
  moreover have "diff_roles s s = []" using r by (auto simp: diff_roles_def)
  moreover have "filter (\<lambda>t. table_of s (tab_name t) = None) (tables s) = []"
    "filter (\<lambda>x. role_of s (role_name x) = None) (roles s) = []"
    using t r by (auto simp: filter_empty_conv)
  ultimately show ?thesis by (simp add: diff_def topo_sort_creates_def topo_loop.simps)
qed

theorem diff_same_witness: "diff ex_resolver ex_old ex_old () = ([], ())"
  by (rule diff_same [OF ex_wf(1)])

subsection \<open>SQL text\<close>

text \<open>The reader of a quoted identifier: the identifier and the text after it.\<close>

fun read_quoted_chars :: "string \<Rightarrow> (string \<times> string) option" where
  "read_quoted_chars [] = None"
| "read_quoted_chars [c] = (if c = CHR 0x22 then Some ([], []) else None)"
| "read_quoted_chars (c # d # cs) =
     (if c \<noteq> CHR 0x22 then map_option (\<lambda>(s, rest). (c # s, rest)) (read_quoted_chars (d # cs))
      else if d = CHR 0x22 then map_option (\<lambda>(s, rest). (c # s, rest)) (read_quoted_chars cs)
      else Some ([], d # cs))"

fun read_quoted :: "string \<Rightarrow> (string \<times> string) option" where
  "read_quoted (c # cs) = (if c = CHR 0x22 then read_quoted_chars cs else None)"
| "read_quoted [] = None"

lemma read_quote_chars:
  assumes "rest = [] \<or> hd rest \<noteq> CHR 0x22"
  shows "read_quoted_chars (quote_chars s @ CHR 0x22 # rest) = Some (s, rest)"
proof (induction s)
  case Nil
  then show ?case using assms by (cases rest) simp_all
next
  case (Cons c s)
  have "\<exists>d ds. quote_chars s @ CHR 0x22 # rest = d # ds" by (cases "quote_chars s") simp_all
  then obtain d ds where "quote_chars s @ CHR 0x22 # rest = d # ds" by blast
  with Cons show ?case by auto
qed

text \<open>A quoted identifier reads back as itself, whatever characters it holds: no table, column,
  policy, index or role name can end its quoting and continue as SQL.\<close>

theorem quote_reads_back:
  assumes "rest = [] \<or> hd rest \<noteq> CHR 0x22"
  shows "read_quoted (quote s @ rest) = Some (s, rest)"
  using read_quote_chars [OF assms, of s] by (simp add: quote_def)

theorem quote_reads_back_witness:
  "read_quoted (quote [CHR ''a'', CHR 0x22, CHR '';''] @ '' (id)'') = Some ([CHR ''a'', CHR 0x22, CHR '';''], '' (id)'')"
  by (rule quote_reads_back) simp

text \<open>The dollar-quote tag chosen for a role's block does not occur in the block, so the block
  cannot end early whatever the role is called.\<close>

theorem dollar_tag_fresh: "\<not> contains body (dollar_tag body)"
proof -
  have "\<not> contains body (dollar_loop body tag)" for tag
    by (induction body tag rule: dollar_loop.induct) (subst dollar_loop.simps, auto)
  then show ?thesis by (simp add: dollar_tag_def)
qed

subsection \<open>What the diff does not see\<close>

text \<open>Two schemas that differ in a column's default, uniqueness, key, index, generation or
  reference only have an empty diff: the change reaches the snapshot but no migration.\<close>

theorem diff_misses_attributes:
  assumes "c' = c\<lparr>pk := p, uniq := u, col_index := i, index_method := m, opclass := oc, generated := g,
      default := d, references := fk\<rparr>"
  shows "diff res \<lparr>tables = [ex_table n [c]], roles = []\<rparr> \<lparr>tables = [ex_table n [c']], roles = []\<rparr> r = ([], r)"
  unfolding assms
  by (simp add: diff_def table_of_def ex_table_def diff_roles_def diff_table_def column_of_def diff_altered_def
      type_differs_def diff_table_rls_def diff_grants_def diff_policies_def diff_table_indexes_def
      topo_sort_creates_def topo_loop.simps Let_def)

theorem diff_misses_attributes_witness:
  "diff ex_resolver \<lparr>tables = [ex_table ''t'' [ex_column ''c'' ''int'' None]], roles = []\<rparr>
     \<lparr>tables = [ex_table ''t'' [(ex_column ''c'' ''int'' None)\<lparr>default := Some ''0''\<rparr>]], roles = []\<rparr> () = ([], ())"
  by (rule diff_misses_attributes [where p = False and u = False and i = False and m = None and oc = None and
      g = None and d = "Some ''0''" and fk = None]) (simp add: ex_column_def)

text \<open>A dropped table comes before the dropped foreign-key column of a table that stays: the
  migration drops the referenced table while the reference is still there.\<close>

lemma drop_table_before_reference:
  "fst (diff (\<lambda>_ _ _ r. (None, r)) ex_old (ex_old\<lparr>tables := [ex_table ''b'' [ex_column ''x'' ''text'' None]]\<rparr>) ()) =
     [DropTable (ex_table ''a'' [ex_column ''id'' ''uuid'' None]), DropColumn ''b'' (ex_column ''a_id'' ''uuid'' (ex_ref ''a''))]"
  by code_simp

end
