(* ===== verification/Wire.thy ===== *)
theory Wire
  imports Frames Channel
begin

text \<open>
  The signed envelopes of the Postgres bus, \<^verbatim>\<open>crates/pubsub-postgres/src/wire.rs\<close>: sealing,
  opening, the size limit, and what the signature covers.

  Three packages do part of the work and are not read here: HMAC-SHA256 (\<^verbatim>\<open>hmac\<close>, \<^verbatim>\<open>sha2\<close>), and
  \<^verbatim>\<open>serde_json\<close> for printing and parsing. They are the fields of the record \<^verbatim>\<open>wire_lib\<close>, which
  every operation takes; what the code relies on of them is the predicate \<^verbatim>\<open>lib_ok\<close>.
\<close>

definition MAX_NOTIFY_BYTES :: nat where
  "MAX_NOTIFY_BYTES = 7999"

definition MAX_SKEW_MS :: u64 where
  "MAX_SKEW_MS = 30000"

definition ENVELOPE_OVERHEAD :: nat where
  \<open>ENVELOPE_OVERHEAD = length ''{"o":,"n":,"t":,"m":"","b":}'' + 3 * 20 + 64\<close>

record failure =
  fail_code :: u16
  fail_message :: string

text \<open>A raw value (\<^verbatim>\<open>RawValue\<close>) is its JSON text.\<close>

datatype body =
    Publish (body_topic: string) (body_p: string)
  | Call (body_id: u64) (body_topic: string) (body_p: string)
  | Reply (body_to: u64) (body_id: u64) (body_ok: "jvalue option") (body_err: "failure option")

record opened =
  op_origin :: u64
  op_counter :: u64
  op_body :: body

record outer =
  o_field :: u64
  n_field :: u64
  t_field :: u64
  m_field :: string
  b_field :: string

text \<open>
  The packages: \<^verbatim>\<open>mac_new\<close> is \<^verbatim>\<open>new_from_slice\<close> and \<^verbatim>\<open>mac_of\<close> the finished MAC of a byte string;
  a \<^verbatim>\<open>to_json\<close> is \<^verbatim>\<open>serde_json::to_string\<close>, a \<^verbatim>\<open>from_json\<close> is \<^verbatim>\<open>from_str\<close> (or \<^verbatim>\<open>from_slice\<close>); the
  left of a sum is the message of the package's error.
\<close>

record 'k wire_lib =
  mac_new :: "u8 list \<Rightarrow> 'k option"
  mac_of :: "'k \<Rightarrow> string \<Rightarrow> u8 list"
  str_to_json :: "string \<Rightarrow> string + string"
  body_to_json :: "body \<Rightarrow> string + string"
  outer_from_json :: "string \<Rightarrow> outer option"
  body_from_json :: "string \<Rightarrow> body option"
  raw_from_json :: "string \<Rightarrow> string + string"

subsection \<open>Keys and MACs\<close>

definition key_new :: "'k wire_lib \<Rightarrow> u8 list \<Rightarrow> 'k result" where
  "key_new lib secret =
     (if length secret < 32 then Inl (internal ''pub/sub bus secret must be at least 32 bytes'')
      else case mac_new lib secret of
             Some k \<Rightarrow> Inr k
           | None \<Rightarrow> Inl (internal ''invalid pub/sub bus secret''))"

definition mac_input :: "u64 \<Rightarrow> u64 \<Rightarrow> u64 \<Rightarrow> string \<Rightarrow> string" where
  "mac_input origin counter time body =
     show_u64 origin @ ''.'' @ show_u64 counter @ ''.'' @ show_u64 time @ ''.'' @ body"

definition mac :: "'k wire_lib \<Rightarrow> 'k \<Rightarrow> u64 \<Rightarrow> u64 \<Rightarrow> u64 \<Rightarrow> string \<Rightarrow> u8 list" where
  "mac lib key origin counter time body = mac_of lib key (mac_input origin counter time body)"

subsection \<open>Sizes\<close>

text \<open>\<^verbatim>\<open>usize::MAX / 2\<close> on a 64-bit target.\<close>

definition publish_len :: "'k wire_lib \<Rightarrow> string \<Rightarrow> string \<Rightarrow> nat" where
  \<open>publish_len lib topic payload =
     (let topic' = (case str_to_json lib topic of Inl _ \<Rightarrow> (2 ^ 64 - 1) div 2 | Inr txt \<Rightarrow> length txt)
      in ENVELOPE_OVERHEAD + length ''{"p":{"topic":,"p":}}'' + topic' + length payload)\<close>

definition check_len :: "nat \<Rightarrow> unit result" where
  "check_len len =
     (if len > MAX_NOTIFY_BYTES
      then Inl (coded 413 ''payload_too_large''
        ''pub/sub payload exceeds the Postgres NOTIFY limit (8000 bytes); publish ids and fetch the data instead'')
      else Inr ())"

subsection \<open>Sealing\<close>

text \<open>The format \<^verbatim>\<open>{byte:02x}\<close>.\<close>

definition hex2 :: "u8 \<Rightarrow> string" where
  "hex2 byte = [hex_digit (unat byte div 16), hex_digit (unat byte mod 16)]"

fun hex_tag :: "u8 list \<Rightarrow> string" where
  "hex_tag [] = []"
| "hex_tag (byte # tag) = hex2 byte @ hex_tag tag"

definition envelope :: "u64 \<Rightarrow> u64 \<Rightarrow> u64 \<Rightarrow> string \<Rightarrow> string \<Rightarrow> string" where
  \<open>envelope origin counter time hex body =
     ''{"o":'' @ show_u64 origin @ '',"n":'' @ show_u64 counter @ '',"t":'' @ show_u64 time @
     '',"m":"'' @ hex @ ''","b":'' @ body @ ''}''\<close>

definition seal :: "'k wire_lib \<Rightarrow> 'k \<Rightarrow> u64 \<Rightarrow> u64 \<Rightarrow> u64 \<Rightarrow> body \<Rightarrow> string result" where
  "seal lib key origin counter time b =
     (case body_to_json lib b of
        Inl e \<Rightarrow> Inl (encode_err e)
      | Inr txt \<Rightarrow>
          (case check_len (ENVELOPE_OVERHEAD + length txt) of
             Inl e \<Rightarrow> Inl e
           | Inr _ \<Rightarrow>
               Inr (envelope origin counter time (hex_tag (mac lib key origin counter time txt)) txt)))"

subsection \<open>Opening\<close>

text \<open>
  \<^verbatim>\<open>u8::from_str_radix\<close> of two characters: a leading plus sign is accepted. A pair that is not
  on a character boundary holds a byte above 0x7f and is refused either way.
\<close>

definition hex_pair :: "char \<Rightarrow> char \<Rightarrow> u8 option" where
  "hex_pair a b =
     (if a = CHR ''+'' then map_option of_nat (hex_val b)
      else case (hex_val a, hex_val b) of
             (Some x, Some y) \<Rightarrow> Some (of_nat (16 * x + y))
           | _ \<Rightarrow> None)"

fun hex_pairs :: "string \<Rightarrow> u8 list option" where
  "hex_pairs (a # b # rest) =
     (case hex_pair a b of
        None \<Rightarrow> None
      | Some byte \<Rightarrow> map_option (Cons byte) (hex_pairs rest))"
| "hex_pairs _ = Some []"

definition decode_hex :: "string \<Rightarrow> u8 list option" where
  "decode_hex txt = (if length txt \<noteq> 64 then None else hex_pairs txt)"

definition abs_diff :: "u64 \<Rightarrow> u64 \<Rightarrow> u64" where
  "abs_diff a b = (if a < b then b - a else a - b)"

definition open_envelope :: "'k wire_lib \<Rightarrow> 'k \<Rightarrow> string \<Rightarrow> u64 \<Rightarrow> opened option" where
  "open_envelope lib key txt now =
     (case outer_from_json lib txt of
        None \<Rightarrow> None
      | Some out \<Rightarrow>
          (case decode_hex (m_field out) of
             None \<Rightarrow> None
           | Some tag \<Rightarrow>
               if mac lib key (o_field out) (n_field out) (t_field out) (b_field out) \<noteq> tag then None
               else if abs_diff now (t_field out) > MAX_SKEW_MS then None
               else (case body_from_json lib (b_field out) of
                       None \<Rightarrow> None
                     | Some b \<Rightarrow>
                         Some \<lparr>op_origin = o_field out, op_counter = n_field out, op_body = b\<rparr>)))"

definition raw :: "'k wire_lib \<Rightarrow> string \<Rightarrow> string result" where
  "raw lib payload = (case raw_from_json lib payload of Inl e \<Rightarrow> Inl (decode e) | Inr p \<Rightarrow> Inr p)"

subsection \<open>What the code relies on of the packages\<close>

text \<open>
  \<^verbatim>\<open>Some(Value::Null)\<close> and \<^verbatim>\<open>None\<close> are both printed \<^verbatim>\<open>null\<close>, which \<^verbatim>\<open>serde\<close> reads as \<^verbatim>\<open>None\<close>; every
  other body reads back as itself.
\<close>

fun null_none :: "jvalue option \<Rightarrow> jvalue option" where
  "null_none (Some JNull) = None"
| "null_none v = v"

fun wire_form :: "body \<Rightarrow> body" where
  "wire_form (Reply to i ok err) = Reply to i (null_none ok) err"
| "wire_form b = b"

text \<open>
  A text is a raw value when it parses to itself. A term of \<^typ>\<open>body\<close> that is no value of the
  Rust type (a payload that is not JSON, a number whose text is no number) is not printed.

  The MAC has 32 bytes; a printed body parses to its wire form; the envelope's five fields are
  read back; a publish is printed with its fields in order, the topic as a JSON string and the
  raw payload as it is; a parsed payload is a raw value no longer than the payload.
\<close>

definition raw_value :: "'k wire_lib \<Rightarrow> string \<Rightarrow> bool" where
  "raw_value lib p \<longleftrightarrow> raw_from_json lib p = Inr p"

definition lib_ok :: "'k wire_lib \<Rightarrow> bool" where
  \<open>lib_ok lib \<longleftrightarrow>
     (\<forall>k s. length (mac_of lib k s) = 32) \<and>
     (\<forall>b txt. body_to_json lib b = Inr txt \<longrightarrow> body_from_json lib txt = Some (wire_form b)) \<and>
     (\<forall>b txt org n t tag. body_to_json lib b = Inr txt \<longrightarrow> length tag = 32 \<longrightarrow>
        outer_from_json lib (envelope org n t (hex_tag tag) txt) =
          Some \<lparr>o_field = org, n_field = n, t_field = t, m_field = hex_tag tag, b_field = txt\<rparr>) \<and>
     (\<forall>topic p. raw_value lib p \<longrightarrow> body_to_json lib (Publish topic p) =
        (case str_to_json lib topic of
           Inl e \<Rightarrow> Inl e
         | Inr j \<Rightarrow> Inr (''{"p":{"topic":'' @ j @ '',"p":'' @ p @ ''}}''))) \<and>
     (\<forall>payload p. raw_from_json lib payload = Inr p \<longrightarrow> raw_value lib p \<and> length p \<le> length payload)\<close>


named_theorems lib_laws

lemma lib_mac_length [lib_laws]: "lib_ok lib \<Longrightarrow> length (mac lib k org n t txt) = 32"
  by (simp add: lib_ok_def mac_def)

lemma lib_body [lib_laws]:
  "lib_ok lib \<Longrightarrow> body_to_json lib b = Inr txt \<Longrightarrow> body_from_json lib txt = Some (wire_form b)"
  by (simp add: lib_ok_def)

lemma lib_outer [lib_laws]:
  "lib_ok lib \<Longrightarrow> body_to_json lib b = Inr txt \<Longrightarrow> length tag = 32 \<Longrightarrow>
     outer_from_json lib (envelope org n t (hex_tag tag) txt) =
       Some \<lparr>o_field = org, n_field = n, t_field = t, m_field = hex_tag tag, b_field = txt\<rparr>"
  unfolding lib_ok_def by blast

lemma lib_publish:
  \<open>lib_ok lib \<Longrightarrow> raw_value lib p \<Longrightarrow> str_to_json lib topic = Inr j \<Longrightarrow>
     body_to_json lib (Publish topic p) = Inr (''{"p":{"topic":'' @ j @ '',"p":'' @ p @ ''}}'')\<close>
  by (simp add: lib_ok_def)

lemma lib_raw:
  "lib_ok lib \<Longrightarrow> raw_from_json lib payload = Inr p \<Longrightarrow> raw_value lib p \<and> length p \<le> length payload"
  by (simp add: lib_ok_def)

subsection \<open>Hexadecimal tags\<close>

lemma hex_digit_not_plus: "d < 16 \<Longrightarrow> hex_digit d \<noteq> CHR ''+''"
proof
  assume "d < 16" "hex_digit d = CHR ''+''"
  with hex_val_digit [of d] have "hex_val (CHR ''+'') = Some d" by simp
  then show False by (simp add: hex_val_def)
qed

lemma hex_pair_hex2: "hex_pair (hex_digit (unat b div 16)) (hex_digit (unat (b :: u8) mod 16)) = Some b"
proof -
  have "unat b < 256" using unsigned_less [of b, where ?'a = nat] by simp
  then have "unat b div 16 < 16" by (simp add: less_mult_imp_div_less)
  then show ?thesis by (simp add: hex_pair_def hex_digit_not_plus hex_val_digit)
qed

lemma hex_tag_length [simp]: "length (hex_tag tag) = 2 * length tag"
  by (induction tag) (simp_all add: hex2_def)

lemma hex_pairs_tag: "hex_pairs (hex_tag tag) = Some tag"
  by (induction tag) (simp_all add: hex2_def hex_pair_hex2)

lemma decode_hex_tag: "length tag = 32 \<Longrightarrow> decode_hex (hex_tag tag) = Some tag"
  by (simp add: decode_hex_def hex_pairs_tag)

subsection \<open>What the signature covers\<close>

lemma show_u64_dot: "CHR ''.'' \<notin> set (show_u64 w)"
  using show_u64_digits [of w] by (auto simp: is_digit_def)

lemma show_u64_dot_split:
  assumes "show_u64 v @ CHR ''.'' # a = show_u64 w @ CHR ''.'' # b"
  shows "v = w \<and> a = b"
  using sep_append_inj [OF assms show_u64_dot show_u64_dot] show_u64_inj by blast

lemma mac_input_inj:
  assumes "mac_input org n t b = mac_input org' n' t' b'"
  shows "org = org' \<and> n = n' \<and> t = t' \<and> b = b'"
  using assms unfolding mac_input_def by (auto dest!: show_u64_dot_split)

subsection \<open>Sealing and opening\<close>

lemma seal_Inr:
  "seal lib key org n t b = Inr env \<longleftrightarrow>
     (\<exists>js. body_to_json lib b = Inr js \<and> ENVELOPE_OVERHEAD + length js \<le> MAX_NOTIFY_BYTES \<and>
        env = envelope org n t (hex_tag (mac lib key org n t js)) js)"
  by (auto simp: seal_def check_len_def split: sum.splits)

lemma open_sealed:
  assumes "lib_ok lib" and "seal lib key org n t b = Inr env" and "abs_diff now t \<le> MAX_SKEW_MS"
  shows "open_envelope lib key env now =
    Some \<lparr>op_origin = org, op_counter = n, op_body = wire_form b\<rparr>"
proof -
  from assms(2) obtain js where js: "body_to_json lib b = Inr js"
    and env: "env = envelope org n t (hex_tag (mac lib key org n t js)) js"
    by (auto simp: seal_Inr)
  note laws = lib_mac_length [OF assms(1)] lib_body [OF assms(1) js]
  have "outer_from_json lib env = Some \<lparr>o_field = org, n_field = n, t_field = t,
      m_field = hex_tag (mac lib key org n t js), b_field = js\<rparr>"
    unfolding env by (rule lib_outer [OF assms(1) js laws(1)])
  with assms(3) show ?thesis
    by (simp add: open_envelope_def decode_hex_tag laws not_less)
qed

lemma open_stale:
  assumes "lib_ok lib" and "seal lib key org n t b = Inr env" and "abs_diff now t > MAX_SKEW_MS"
  shows "open_envelope lib key env now = None"
proof -
  from assms(2) obtain js where js: "body_to_json lib b = Inr js"
    and env: "env = envelope org n t (hex_tag (mac lib key org n t js)) js"
    by (auto simp: seal_Inr)
  note laws = lib_mac_length [OF assms(1)]
  show ?thesis
    using assms(3)
    by (simp add: open_envelope_def env lib_outer [OF assms(1) js laws] decode_hex_tag laws)
qed

lemma envelope_length:
  "length (envelope org n t (hex_tag tag) js) \<le> ENVELOPE_OVERHEAD - 64 + 2 * length tag + length js"
  using show_u64_length [of org] show_u64_length [of n] show_u64_length [of t]
  by (simp add: envelope_def ENVELOPE_OVERHEAD_def)

lemma sealed_length:
  assumes "lib_ok lib" and "seal lib key org n t b = Inr env"
  shows "length env \<le> MAX_NOTIFY_BYTES"
proof -
  from assms(2) obtain js where len: "ENVELOPE_OVERHEAD + length js \<le> MAX_NOTIFY_BYTES"
    and env: "env = envelope org n t (hex_tag (mac lib key org n t js)) js"
    by (auto simp: seal_Inr)
  have "length env \<le> ENVELOPE_OVERHEAD + length js"
    using envelope_length [of org n t "mac lib key org n t js" js]
    unfolding env lib_mac_length [OF assms(1)] by (simp add: ENVELOPE_OVERHEAD_def)
  with len show ?thesis by simp
qed

lemma abs_diff_commute: "abs_diff a b = abs_diff b a"
  by (auto simp: abs_diff_def)

lemma abs_diff_nat: "unat (abs_diff a b) = (if a < b then unat b - unat a else unat a - unat b)"
  by (auto simp: abs_diff_def unat_sub_if_size word_less_nat_alt word_size not_less)

end
