(* ===== verification/PgBroker.thy ===== *)
theory PgBroker
  imports Wire Broker
begin

text \<open>
  The Postgres \<^verbatim>\<open>LISTEN\<close>/\<^verbatim>\<open>NOTIFY\<close> broker, \<^verbatim>\<open>crates/pubsub-postgres/src/lib.rs\<close>: one node's state,
  sending, the replay guard, the handling of a received notification, cross-node calls and the
  reconnect schedule.

  The outgoing queue is \<^verbatim>\<open>tokio\<close>'s bounded channel, a parameter: its state type is \<^verbatim>\<open>'q\<close> and its
  operations the record \<^verbatim>\<open>queue_lib\<close>; what the code relies on is \<^verbatim>\<open>queue_ok\<close>. The clock's value is an
  argument. What \<^verbatim>\<open>handle\<close> makes the node do is a value of \<^verbatim>\<open>effect\<close>: a delivery to the hub's sink,
  a call started on it, an answer sent to the one-shot channel of a waiting call. Arithmetic
  wraps, as in the release profile.
\<close>

definition OUTBOX :: nat where
  "OUTBOX = 4096"

definition BATCH :: nat where
  "BATCH = 256"

definition MAX_INBOUND_CALLS :: nat where
  "MAX_INBOUND_CALLS = 64"

text \<open>In milliseconds.\<close>

definition RETRY_MIN :: nat where
  "RETRY_MIN = 250"

definition RETRY_MAX :: nat where
  "RETRY_MAX = 30000"

record 'q queue_lib =
  q_channel :: "nat \<Rightarrow> 'q"
  q_try_send :: "string \<Rightarrow> 'q \<Rightarrow> try_send_error option \<times> 'q"
  q_recv_many :: "nat \<Rightarrow> 'q \<Rightarrow> string list \<times> 'q"

text \<open>A one-shot channel is an address; \<^verbatim>\<open>pg_calls\<close> counts the free permits.\<close>

record ('k, 'q) pg_inner =
  pg_key :: 'k
  pg_node :: u64
  pg_counter :: u64
  pg_sink :: bool
  pg_outbox :: 'q
  pg_pending :: "(u64, nat) hashmap"
  pg_next_call :: u64
  pg_seen :: "(u64, u64) hashmap"
  pg_calls :: nat

datatype effect =
    Ignored
  | Delivered string string
  | CallStarted u64 u64 string string
  | Answered nat "jvalue result"
  | HubReset

definition connect_on ::
  "'k wire_lib \<Rightarrow> 'q queue_lib \<Rightarrow> (string + unit) \<Rightarrow> (string + u64) \<Rightarrow> u8 list \<Rightarrow> ('k, 'q) pg_inner result" where
  "connect_on lib ql listen random_node secret =
     (case key_new lib secret of
        Inl e \<Rightarrow> Inl e
      | Inr key \<Rightarrow>
          (case listen of
             Inl e \<Rightarrow> Inl (internal e)
           | Inr _ \<Rightarrow>
               (case random_node of
                  Inl e \<Rightarrow> Inl (internal e)
                | Inr node \<Rightarrow>
                    Inr \<lparr>pg_key = key, pg_node = node, pg_counter = 0, pg_sink = False,
                         pg_outbox = q_channel ql OUTBOX, pg_pending = [], pg_next_call = 0,
                         pg_seen = [], pg_calls = MAX_INBOUND_CALLS\<rparr>)))"

subsection \<open>Sending\<close>

text \<open>
  \<^verbatim>\<open>send\<close> takes its counter, then seals and queues the message. Other tasks may send between the
  two, so each is an operation of its own.
\<close>

definition take_counter :: "('k, 'q) pg_inner \<Rightarrow> u64 \<times> ('k, 'q) pg_inner" where
  "take_counter st = (pg_counter st, st\<lparr>pg_counter := pg_counter st + 1\<rparr>)"

definition seal_and_queue ::
  "'k wire_lib \<Rightarrow> 'q queue_lib \<Rightarrow> u64 \<Rightarrow> u64 \<Rightarrow> body \<Rightarrow> ('k, 'q) pg_inner \<Rightarrow>
     unit result \<times> ('k, 'q) pg_inner" where
  "seal_and_queue lib ql now counter b st =
     (case seal lib (pg_key st) (pg_node st) counter now b of
        Inl e \<Rightarrow> (Inl e, st)
      | Inr env \<Rightarrow>
          (case q_try_send ql env (pg_outbox st) of
             (None, q) \<Rightarrow> (Inr (), st\<lparr>pg_outbox := q\<rparr>)
           | (Some Full, q) \<Rightarrow>
               (Inl (coded 503 ''unavailable'' ''pub/sub backlog full''), st\<lparr>pg_outbox := q\<rparr>)
           | (Some Closed, q) \<Rightarrow>
               (Inl (coded 503 ''unavailable'' ''pub/sub broker stopped''), st\<lparr>pg_outbox := q\<rparr>)))"

definition send ::
  "'k wire_lib \<Rightarrow> 'q queue_lib \<Rightarrow> u64 \<Rightarrow> body \<Rightarrow> ('k, 'q) pg_inner \<Rightarrow> unit result \<times> ('k, 'q) pg_inner" where
  "send lib ql now b st =
     (let (counter, st) = take_counter st in seal_and_queue lib ql now counter b st)"

text \<open>
  One turn of the publisher task: a batch of queued messages, in queue order, is sent in one
  round trip; when the statement fails the batch is dropped.
\<close>

definition publish_turn ::
  "'q queue_lib \<Rightarrow> bool \<Rightarrow> ('k, 'q) pg_inner \<Rightarrow> string list \<times> ('k, 'q) pg_inner" where
  "publish_turn ql notify_ok st =
     (let (batch, q) = q_recv_many ql BATCH (pg_outbox st);
          sent = (if notify_ok then batch else [])
      in (sent, st\<lparr>pg_outbox := q\<rparr>))"

subsection \<open>Receiving\<close>

definition fresh :: "u64 \<Rightarrow> u64 \<Rightarrow> ('k, 'q) pg_inner \<Rightarrow> bool \<times> ('k, 'q) pg_inner" where
  "fresh origin counter st =
     (let last = (case map_of (pg_seen st) origin of None \<Rightarrow> 0 | Some l \<Rightarrow> l);
          is_fresh = (counter \<ge> last);
          last' = (if is_fresh then counter + 1 else last)
      in (is_fresh, st\<lparr>pg_seen := AList.update origin last' (pg_seen st)\<rparr>))"

text \<open>The checks \<^verbatim>\<open>handle\<close> makes before it looks at the body.\<close>

definition accept ::
  "'k wire_lib \<Rightarrow> u64 \<Rightarrow> string \<Rightarrow> ('k, 'q) pg_inner \<Rightarrow> opened option \<times> ('k, 'q) pg_inner" where
  "accept lib now payload st =
     (case open_envelope lib (pg_key st) payload now of
        None \<Rightarrow> (None, st)
      | Some opn \<Rightarrow>
          if op_origin opn = pg_node st then (None, st)
          else (let (is_fresh, st) = fresh (op_origin opn) (op_counter opn) st
                in (if is_fresh then Some opn else None, st)))"

fun reply_result :: "jvalue option \<Rightarrow> failure option \<Rightarrow> jvalue result" where
  "reply_result ok None = Inr (case ok of Some v \<Rightarrow> v | None \<Rightarrow> JNull)"
| "reply_result ok (Some f) = Inl (new_error (fail_code f) (fail_message f))"

fun dispatch_body :: "u64 \<Rightarrow> body \<Rightarrow> ('k, 'q) pg_inner \<Rightarrow> effect \<times> ('k, 'q) pg_inner" where
  "dispatch_body origin (Publish topic p) st = (Delivered topic p, st)"
| "dispatch_body origin (Call i topic p) st =
     (if pg_calls st = 0 then (Ignored, st)
      else (CallStarted origin i topic p, st\<lparr>pg_calls := pg_calls st - 1\<rparr>))"
| "dispatch_body origin (Reply to i ok err) st =
     (if to = pg_node st then
        (let waiter = map_of (pg_pending st) i;
             st = st\<lparr>pg_pending := AList.delete i (pg_pending st)\<rparr>
         in case waiter of
              Some chan \<Rightarrow> (Answered chan (reply_result ok err), st)
            | None \<Rightarrow> (Ignored, st))
      else (Ignored, st))"

definition handle ::
  "'k wire_lib \<Rightarrow> u64 \<Rightarrow> string \<Rightarrow> ('k, 'q) pg_inner \<Rightarrow> effect \<times> ('k, 'q) pg_inner" where
  "handle lib now payload st =
     (case accept lib now payload st of
        (None, st) \<Rightarrow> (Ignored, st)
      | (Some opn, st) \<Rightarrow>
          if \<not> pg_sink st then (Ignored, st)
          else dispatch_body (op_origin opn) (op_body opn) st)"

definition reset_once :: "('k, 'q) pg_inner \<Rightarrow> effect" where
  "reset_once st = (if pg_sink st then HubReset else Ignored)"

subsection \<open>Answering a call\<close>

definition reply_body :: "u64 \<Rightarrow> u64 \<Rightarrow> jvalue result \<Rightarrow> body" where
  "reply_body to i result =
     (case result of
        Inr v \<Rightarrow> Reply to i (Some v) None
      | Inl e \<Rightarrow> Reply to i None (Some \<lparr>fail_code = code e, fail_message = message e\<rparr>))"

definition pg_reply ::
  "'k wire_lib \<Rightarrow> 'q queue_lib \<Rightarrow> u64 \<Rightarrow> u64 \<Rightarrow> u64 \<Rightarrow> jvalue result \<Rightarrow> ('k, 'q) pg_inner \<Rightarrow> ('k, 'q) pg_inner" where
  "pg_reply lib ql now to i result st =
     (case send lib ql now (reply_body to i result) st of
        (Inr _, st) \<Rightarrow> st
      | (Inl e, st) \<Rightarrow> snd (send lib ql now (reply_body to i (Inl e)) st))"

text \<open>
  The end of the task a call started: the sink's answer, if this node holds the device, is sent
  back; the permit is released.
\<close>

definition call_task_end ::
  "'k wire_lib \<Rightarrow> 'q queue_lib \<Rightarrow> u64 \<Rightarrow> u64 \<Rightarrow> u64 \<Rightarrow> jvalue result option \<Rightarrow>
     ('k, 'q) pg_inner \<Rightarrow> ('k, 'q) pg_inner" where
  "call_task_end lib ql now origin i answer st =
     (let st = (case answer of Some result \<Rightarrow> pg_reply lib ql now origin i result st | None \<Rightarrow> st)
      in st\<lparr>pg_calls := pg_calls st + 1\<rparr>)"

subsection \<open>The broker's methods\<close>

definition attach :: "('k, 'q) pg_inner \<Rightarrow> ('k, 'q) pg_inner" where
  "attach st = st\<lparr>pg_sink := True\<rparr>"

definition pg_subscribe :: "string \<Rightarrow> ('k, 'q) pg_inner \<Rightarrow> ('k, 'q) pg_inner" where
  "pg_subscribe topic st = st"

definition pg_unsubscribe :: "string \<Rightarrow> ('k, 'q) pg_inner \<Rightarrow> ('k, 'q) pg_inner" where
  "pg_unsubscribe topic st = st"

definition pg_validate :: "'k wire_lib \<Rightarrow> string \<Rightarrow> string \<Rightarrow> unit result" where
  "pg_validate lib topic payload = check_len (publish_len lib topic payload)"

definition pg_publish ::
  "'k wire_lib \<Rightarrow> 'q queue_lib \<Rightarrow> u64 \<Rightarrow> string \<Rightarrow> string \<Rightarrow> ('k, 'q) pg_inner \<Rightarrow>
     unit result \<times> ('k, 'q) pg_inner" where
  "pg_publish lib ql now topic payload st =
     (case raw lib payload of
        Inl e \<Rightarrow> (Inl e, st)
      | Inr p \<Rightarrow> send lib ql now (Publish topic p) st)"

definition pg_broker :: "'k wire_lib \<Rightarrow> 'q queue_lib \<Rightarrow> u64 \<Rightarrow> ('k, 'q) pg_inner broker_ops" where
  "pg_broker lib ql now =
     \<lparr>br_subscribe = pg_subscribe, br_unsubscribe = pg_unsubscribe,
      br_validate = pg_validate lib, br_publish = pg_publish lib ql now\<rparr>"

text \<open>
  A call up to where it suspends: its id, and an immediate error or the wait for the one-shot
  channel \<^term>\<open>chan\<close>; and its end, at which the guard's \<^verbatim>\<open>drop\<close> removes the pending entry.
\<close>

definition guard_drop_pg :: "u64 \<Rightarrow> ('k, 'q) pg_inner \<Rightarrow> ('k, 'q) pg_inner" where
  "guard_drop_pg i st = st\<lparr>pg_pending := AList.delete i (pg_pending st)\<rparr>"

definition pg_call_start ::
  "'k wire_lib \<Rightarrow> 'q queue_lib \<Rightarrow> u64 \<Rightarrow> nat \<Rightarrow> string \<Rightarrow> string \<Rightarrow> ('k, 'q) pg_inner \<Rightarrow>
     u64 \<times> unit result \<times> ('k, 'q) pg_inner" where
  "pg_call_start lib ql now chan topic payload st =
     (let i = pg_next_call st;
          st = st\<lparr>pg_next_call := i + 1, pg_pending := AList.update i chan (pg_pending st)\<rparr>
      in case raw lib payload of
           Inl e \<Rightarrow> (i, Inl e, guard_drop_pg i st)
         | Inr p \<Rightarrow>
             (case send lib ql now (Call i topic p) st of
                (Inl e, st) \<Rightarrow> (i, Inl e, guard_drop_pg i st)
              | (Inr _, st) \<Rightarrow> (i, Inr (), st)))"

datatype wait_end = GotAnswer "jvalue result" | ChannelDropped | TimedOut

fun wait_result :: "wait_end \<Rightarrow> jvalue result" where
  "wait_result (GotAnswer result) = result"
| "wait_result ChannelDropped = Inl (internal ''pub/sub broker dropped the call'')"
| "wait_result TimedOut = Inl (coded 504 ''timeout'' ''client action timed out'')"

definition pg_call_end :: "u64 \<Rightarrow> wait_end \<Rightarrow> ('k, 'q) pg_inner \<Rightarrow> jvalue result \<times> ('k, 'q) pg_inner" where
  "pg_call_end i outcome st = (wait_result outcome, guard_drop_pg i st)"

subsection \<open>Listening\<close>

text \<open>
  Reconnecting: the outcomes of the successive attempts to listen. The result is the delays
  slept, in order, and whether an attempt succeeded; a run whose attempts all fail goes on
  sleeping.
\<close>

fun reconnect :: "bool list \<Rightarrow> nat \<Rightarrow> nat list \<times> bool" where
  "reconnect [] delay = ([], False)"
| "reconnect (True # attempts) delay = ([], True)"
| "reconnect (False # attempts) delay =
     (let (slept, done) = reconnect attempts (min (delay * 2) RETRY_MAX) in (delay # slept, done))"

text \<open>What the listener task meets: a notification, the loss of the connection, a new one.\<close>

datatype listen_event = Notification u64 string | ConnectionLost | Reconnected

fun listen_step :: "'k wire_lib \<Rightarrow> listen_event \<Rightarrow> ('k, 'q) pg_inner \<Rightarrow> effect \<times> ('k, 'q) pg_inner" where
  "listen_step lib (Notification now payload) st = handle lib now payload st"
| "listen_step lib ConnectionLost st = (reset_once st, st)"
| "listen_step lib Reconnected st = (reset_once st, st)"

fun listen_loop :: "'k wire_lib \<Rightarrow> listen_event list \<Rightarrow> ('k, 'q) pg_inner \<Rightarrow> effect list \<times> ('k, 'q) pg_inner" where
  "listen_loop lib [] st = ([], st)"
| "listen_loop lib (e # es) st =
     (let (eff, st) = listen_step lib e st;
          (effs, st) = listen_loop lib es st
      in (eff # effs, st))"

end
