(* ===== verification/WireExample.thy ===== *)
theory WireExample
  imports Wire
begin

text \<open>
  A concrete printer and reader of the bus's JSON, for the form the nodes themselves print: it
  shows that what \<^verbatim>\<open>lib_ok\<close> asks of the packages can be met, and the theorems about envelopes are
  applied to it. The MAC is the byte string cut or padded to 32 bytes; the raw values are the
  JSON string literals, and replies carry a null, a boolean or an error.
\<close>

fun strip :: "string \<Rightarrow> string \<Rightarrow> string option" where
  "strip [] s = Some s"
| "strip (p # ps) (c # cs) = (if p = c then strip ps cs else None)"
| "strip (p # ps) [] = None"

lemma strip_append [simp]: "strip p (p @ s) = Some s"
  by (induction p) simp_all

text \<open>Reads the digits of a number and the separator after it.\<close>

definition read_u64 :: "string \<Rightarrow> string \<Rightarrow> (u64 \<times> string) option" where
  "read_u64 sep s =
     map_option (Pair (of_nat (read_nat (takeWhile is_digit s)))) (strip sep (dropWhile is_digit s))"

lemma read_shown:
  assumes "\<not> is_digit x"
  shows "read_u64 (x # sep) (show_u64 w @ x # sep @ rest) = Some (w, rest)"
proof -
  have dig: "\<And>c. c \<in> set (show_u64 w) \<Longrightarrow> is_digit c" using show_u64_digits by blast
  have "takeWhile is_digit (show_u64 w @ x # sep @ rest) = show_u64 w"
    and "dropWhile is_digit (show_u64 w @ x # sep @ rest) = x # sep @ rest"
    using assms dig by (simp_all add: takeWhile_append dropWhile_append)
  then show ?thesis by (simp add: read_u64_def show_u64_def read_show_nat)
qed

lemma not_digit_sep [simp]: "\<not> is_digit (CHR '','')" "\<not> is_digit (CHR ''}'')"
  by (simp_all add: is_digit_def)

definition ex_outer :: "string \<Rightarrow> outer option" where
  \<open>ex_outer s =
     Option.bind (strip ''{"o":'' s) (\<lambda>s.
     Option.bind (read_u64 '',"n":'' s) (\<lambda>(org, s).
     Option.bind (read_u64 '',"t":'' s) (\<lambda>(n, s).
     Option.bind (read_u64 '',"m":"'' s) (\<lambda>(t, s).
     let hex = takeWhile (\<lambda>c. c \<noteq> CHR 0x22) s in
     Option.bind (strip ''","b":'' (drop (length hex) s)) (\<lambda>s.
     Some \<lparr>o_field = org, n_field = n, t_field = t, m_field = hex, b_field = butlast s\<rparr>)))))\<close>

lemma hex_digit_no_quote: "d < 16 \<Longrightarrow> hex_digit d \<noteq> CHR 0x22"
  using hex_val_digit [of d] by (auto simp: hex_val_def)

lemma hex_tag_no_quote: "c \<in> set (hex_tag tag) \<Longrightarrow> c \<noteq> CHR 0x22"
proof (induction tag)
  case (Cons b tag)
  have "unat b div 16 < 16" using unsigned_less [of b, where ?'a = nat] by (simp add: less_mult_imp_div_less)
  then have "hex_digit (unat b div 16) \<noteq> CHR 0x22" "hex_digit (unat b mod 16) \<noteq> CHR 0x22"
    by (simp_all add: hex_digit_no_quote)
  with Cons show ?case by (auto simp: hex2_def)
qed simp

lemma ex_outer_envelope:
  "ex_outer (envelope org n t (hex_tag tag) js) =
     Some \<lparr>o_field = org, n_field = n, t_field = t, m_field = hex_tag tag, b_field = js\<rparr>"
proof -
  have hex: "takeWhile (\<lambda>c. c \<noteq> CHR 0x22) (hex_tag tag @ CHR 0x22 # rest) = hex_tag tag" for rest
    by (subst takeWhile_append2) (auto dest: hex_tag_no_quote)
  note read = read_shown [OF not_digit_sep(1), of \<open>''"n":''\<close>, simplified]
    read_shown [OF not_digit_sep(1), of \<open>''"t":''\<close>, simplified]
    read_shown [OF not_digit_sep(1), of \<open>''"m":"''\<close>, simplified]
  show ?thesis
    by (simp add: ex_outer_def envelope_def read Let_def hex)
qed

text \<open>The printer and reader of bodies.\<close>

fun ex_value :: "jvalue option \<Rightarrow> failure option \<Rightarrow> string option" where
  "ex_value (Some (JBool b)) None = Some (if b then ''true}}'' else ''false}}'')"
| "ex_value (Some JNull) None = Some ''null}}''"
| "ex_value None None = Some ''null}}''"
| \<open>ex_value None (Some f) =
     Some (''{"err":'' @ show_nat (fail_code f) @ '','' @ push_json_str [] (fail_message f) @ ''}}'')\<close>
| "ex_value _ _ = None"

fun ex_raw :: "string \<Rightarrow> string + string" where
  "ex_raw p = (case read_json_str p of Some (_, []) \<Rightarrow> Inr p | _ \<Rightarrow> Inl ''not a JSON text'')"

fun ex_print :: "body \<Rightarrow> string + string" where
  \<open>ex_print (Publish topic p) =
     Inr (''{"p":{"topic":'' @ push_json_str [] topic @ '',"p":'' @ p @ ''}}'')\<close>
| \<open>ex_print (Call i topic p) =
     Inr (''{"c":{"id":'' @ show_u64 i @ '',"topic":'' @ push_json_str [] topic @ '',"p":'' @ p @ ''}}'')\<close>
| \<open>ex_print (Reply to i ok err) =
     (case ex_value ok err of
        None \<Rightarrow> Inl ''not printed''
      | Some v \<Rightarrow> Inr (''{"r":{"to":'' @ show_u64 to @ '',"id":'' @ show_u64 i @ '',"ok":'' @ v))\<close>

definition ex_read_topic :: "string \<Rightarrow> (string \<times> string) option" where
  \<open>ex_read_topic s =
     Option.bind (read_json_str s) (\<lambda>(topic, s).
     map_option (\<lambda>p. (topic, butlast (butlast p))) (strip '',"p":'' s))\<close>

definition ex_read_value :: "string \<Rightarrow> (jvalue option \<times> failure option) option" where
  \<open>ex_read_value s =
     (if s = ''true}}'' then Some (Some (JBool True), None)
      else if s = ''false}}'' then Some (Some (JBool False), None)
      else if s = ''null}}'' then Some (None, None)
      else Option.bind (strip ''{"err":'' s) (\<lambda>s.
        Option.bind (strip '','' (dropWhile is_digit s)) (\<lambda>r.
        map_option (\<lambda>(m, _). (None, Some \<lparr>fail_code = read_nat (takeWhile is_digit s), fail_message = m\<rparr>))
          (read_json_str r))))\<close>

definition ex_read :: "string \<Rightarrow> body option" where
  \<open>ex_read s =
     (case strip ''{"p":{"topic":'' s of
        Some s \<Rightarrow> map_option (\<lambda>(topic, p). Publish topic p) (ex_read_topic s)
      | None \<Rightarrow>
        (case strip ''{"c":{"id":'' s of
           Some s \<Rightarrow> Option.bind (read_u64 '',"topic":'' s) (\<lambda>(i, s).
             map_option (\<lambda>(topic, p). Call i topic p) (ex_read_topic s))
         | None \<Rightarrow>
             Option.bind (strip ''{"r":{"to":'' s) (\<lambda>s.
             Option.bind (read_u64 '',"id":'' s) (\<lambda>(to, s).
             Option.bind (read_u64 '',"ok":'' s) (\<lambda>(i, s).
             map_option (\<lambda>(ok, err). Reply to i ok err) (ex_read_value s))))))\<close>

lemma ex_read_topic_print: \<open>ex_read_topic (push_json_str [] topic @ '',"p":'' @ p @ ''}}'') = Some (topic, p)\<close>
  by (simp add: ex_read_topic_def read_pushed butlast_append)

lemma show_nat_digits_split:
  assumes "\<not> is_digit x"
  shows "takeWhile is_digit (show_nat n @ x # rest) = show_nat n"
    and "dropWhile is_digit (show_nat n @ x # rest) = x # rest"
  using assms show_nat_digits [of n] by (simp_all add: takeWhile_append dropWhile_append)

lemma ex_read_value_print: "ex_value ok err = Some v \<Longrightarrow> ex_read_value v = Some (null_none ok, err)"
proof (induction ok err rule: ex_value.induct)
  case (1 b)
  then show ?case by (cases b) (auto simp: ex_read_value_def)
next
  case (4 f)
  then have v: \<open>v = ''{"err":'' @ show_nat (fail_code f) @ CHR '','' # push_json_str [] (fail_message f) @ ''}}''\<close>
    by simp
  show ?case
    unfolding v ex_read_value_def
    by (simp add: show_nat_digits_split read_pushed read_show_nat)
qed (auto simp: ex_read_value_def)

lemma ex_read_print: "ex_print b = Inr js \<Longrightarrow> ex_read js = Some (wire_form b)"
proof (cases b)
  case (Publish topic p)
  assume "ex_print b = Inr js"
  with Publish show ?thesis
    using ex_read_topic_print [of topic p] by (auto simp: ex_read_def)
next
  case (Call i topic p)
  assume "ex_print b = Inr js"
  with Call show ?thesis
    using ex_read_topic_print [of topic p] read_shown [OF not_digit_sep(1), of \<open>''"topic":''\<close> i]
    by (auto simp: ex_read_def)
next
  case (Reply to i ok err)
  assume "ex_print b = Inr js"
  with Reply obtain v where "ex_value ok err = Some v"
    and js: \<open>js = ''{"r":{"to":'' @ show_u64 to @ '',"id":'' @ show_u64 i @ '',"ok":'' @ v\<close>
    by (auto split: option.splits)
  then show ?thesis
    using ex_read_value_print [of ok err v] read_shown [OF not_digit_sep(1), of \<open>''"id":''\<close> to]
      read_shown [OF not_digit_sep(1), of \<open>''"ok":''\<close> i] Reply
    by (simp add: ex_read_def)
qed

definition ex_lib :: "u8 list wire_lib" where
  "ex_lib = \<lparr>mac_new = Some,
     mac_of = (\<lambda>k s. take 32 (map (\<lambda>c. of_nat (of_char c)) s @ k @ replicate 32 0)),
     str_to_json = (\<lambda>s. Inr (push_json_str [] s)), body_to_json = ex_print,
     outer_from_json = ex_outer, body_from_json = ex_read, raw_from_json = ex_raw\<rparr>"

lemma ex_lib_ok: "lib_ok ex_lib"
  unfolding lib_ok_def
  by (auto simp: ex_lib_def ex_read_print ex_outer_envelope raw_value_def split: option.splits list.splits)

end
