(* ===== verification/PgProps.thy ===== *)
theory PgProps
  imports PgBroker WireExample "HOL-Library.Sublist"
begin

text \<open>
  What the Postgres broker promises: an envelope opens exactly while it is fresh in time and
  gives back what was sealed; it always fits a NOTIFY; the size check of \<^verbatim>\<open>validate\<close> is the one
  \<^verbatim>\<open>publish\<close> meets; no envelope has its effect twice; messages queued in order by one sender are
  all handled; a call's answer reaches the call that waits for it; and the race between two
  concurrent sends, which loses one of them.
\<close>

subsection \<open>The replay guard\<close>

lemma sorted_wrt_distinct: "sorted_wrt R xs \<Longrightarrow> (\<And>x. \<not> R x x) \<Longrightarrow> distinct xs"
  by (induction xs) auto

definition seen_of :: "('k, 'q) pg_inner \<Rightarrow> u64 \<Rightarrow> u64" where
  "seen_of st origin = (case map_of (pg_seen st) origin of None \<Rightarrow> 0 | Some l \<Rightarrow> l)"

lemma fresh_seen:
  "fresh origin counter st = (b, st') \<Longrightarrow>
     b = (seen_of st origin \<le> counter) \<and>
     seen_of st' = (if b then (seen_of st)(origin := counter + 1) else seen_of st)"
  by (auto simp: fresh_def seen_of_def Let_def fun_eq_iff split: option.splits if_splits)

lemma fresh_fields [simp]:
  "pg_node (snd (fresh origin counter st)) = pg_node st"
  "pg_key (snd (fresh origin counter st)) = pg_key st"
  "pg_pending (snd (fresh origin counter st)) = pg_pending st"
  "pg_sink (snd (fresh origin counter st)) = pg_sink st"
  by (simp_all add: fresh_def Let_def)

lemma accept_fields [simp]:
  "pg_node (snd (accept lib now payload st)) = pg_node st"
  "pg_key (snd (accept lib now payload st)) = pg_key st"
  "pg_pending (snd (accept lib now payload st)) = pg_pending st"
  "pg_sink (snd (accept lib now payload st)) = pg_sink st"
  by (simp_all add: accept_def split: option.splits prod.splits)
     (metis fresh_fields snd_conv)+

lemma accept_seen:
  assumes "accept lib now payload st = (r, st')"
  shows "case r of
      None \<Rightarrow> seen_of st' = seen_of st
    | Some opn \<Rightarrow> seen_of st (op_origin opn) \<le> op_counter opn \<and>
        seen_of st' = (seen_of st)(op_origin opn := op_counter opn + 1)"
  using assms
  by (auto simp: accept_def split: option.splits prod.splits if_splits dest!: fresh_seen)

lemma dispatch_seen [simp]: "seen_of (snd (dispatch_body origin b st)) = seen_of st"
  by (cases b) (auto simp: seen_of_def Let_def fun_eq_iff split: option.splits)

lemma dispatch_fields [simp]:
  "pg_node (snd (dispatch_body origin b st)) = pg_node st"
  "pg_key (snd (dispatch_body origin b st)) = pg_key st"
  "pg_sink (snd (dispatch_body origin b st)) = pg_sink st"
  by (cases b; auto simp: Let_def split: option.splits)+

lemma handle_seen: "seen_of (snd (handle lib now payload st)) = seen_of (snd (accept lib now payload st))"
  by (auto simp: handle_def split: prod.splits option.splits)

lemma handle_fields [simp]:
  "pg_node (snd (handle lib now payload st)) = pg_node st"
  "pg_key (snd (handle lib now payload st)) = pg_key st"
  "pg_sink (snd (handle lib now payload st)) = pg_sink st"
  by (cases "accept lib now payload st";
      use accept_fields [of lib now payload st] in \<open>auto simp: handle_def split: option.splits\<close>)+

text \<open>The origins and counters of the envelopes that pass the checks, over a run.\<close>

fun admitted :: "'k wire_lib \<Rightarrow> listen_event list \<Rightarrow> ('k, 'q) pg_inner \<Rightarrow> (u64 \<times> u64) list" where
  "admitted lib [] st = []"
| "admitted lib (e # es) st =
     (let rest = admitted lib es (snd (listen_step lib e st))
      in case e of
           Notification now payload \<Rightarrow>
             (case fst (accept lib now payload st) of
                Some opn \<Rightarrow> (op_origin opn, op_counter opn) # rest
              | None \<Rightarrow> rest)
         | _ \<Rightarrow> rest)"

text \<open>The guard as a run over a counter map: what is admitted lies above it, and raises it.\<close>

fun guarded :: "(u64 \<Rightarrow> u64) \<Rightarrow> (u64 \<times> u64) list \<Rightarrow> bool" where
  "guarded f [] = True"
| "guarded f ((org, c) # xs) = (f org \<le> c \<and> guarded (f(org := c + 1)) xs)"

lemma admitted_guarded: "guarded (seen_of st) (admitted lib es st)"
proof (induction es arbitrary: st)
  case Nil
  then show ?case by simp
next
  case (Cons e es)
  show ?case
  proof (cases e)
    case (Notification now payload)
    obtain r st' where acc: "accept lib now payload st = (r, st')" by fastforce
    have seen: "seen_of (snd (listen_step lib e st)) = seen_of st'"
      using handle_seen [of lib now payload st] by (simp add: Notification acc)
    show ?thesis
      using Cons.IH [of "snd (listen_step lib e st)", unfolded seen] accept_seen [OF acc]
      by (auto simp: Notification acc Let_def simp del: fun_upd_apply split: option.splits)
  qed (use Cons.IH in \<open>auto simp: Let_def\<close>)
qed

lemma guarded_ge:
  "guarded f xs \<Longrightarrow> (org, c) \<in> set xs \<Longrightarrow> \<forall>(_, d) \<in> set xs. d \<noteq> - 1 \<Longrightarrow> f org \<le> c"
proof (induction f xs rule: guarded.induct)
  case (2 f o1 c1 xs)
  show ?case
  proof (cases "(org, c) = (o1, c1)")
    case True
    with 2 show ?thesis by simp
  next
    case False
    with 2 have "(f(o1 := c1 + 1)) org \<le> c" by (auto simp del: fun_upd_apply)
    moreover have "c1 < c1 + 1" using 2 by (intro word_less_inc) auto
    ultimately show ?thesis using 2(2) by (auto split: if_splits)
  qed
qed simp

lemma guarded_increasing:
  assumes "guarded f xs" and "\<forall>(_, d) \<in> set xs. d \<noteq> - 1"
  shows "sorted_wrt (\<lambda>(org, c) (org', c'). org = org' \<longrightarrow> c < c') xs"
  using assms
proof (induction f xs rule: guarded.induct)
  case (2 f o1 c1 xs)
  then have IH: "sorted_wrt (\<lambda>(org, c) (org', c'). org = org' \<longrightarrow> c < c') xs"
    by (auto simp del: fun_upd_apply)
  moreover have "c1 < c" if "(o1, c) \<in> set xs" for c
  proof -
    have "c1 + 1 \<le> c" using guarded_ge [OF _ that] 2(2,3) by fastforce
    moreover have "c1 < c1 + 1" using 2(3) by (intro word_less_inc) auto
    ultimately show ?thesis by simp
  qed
  ultimately show ?case by auto
qed simp

text \<open>C11: Replay guard. Over any run of the listener, whatever notifications arrive, the envelopes
  that pass the checks have strictly increasing counters per origin node, so no envelope is
  handled twice, as long as no counter is the largest 64-bit number (whose successor wraps).\<close>

theorem no_replay:
  assumes "\<forall>(_, d) \<in> set (admitted lib es st). d \<noteq> - 1"
  shows "sorted_wrt (\<lambda>(org, c) (org', c'). org = org' \<longrightarrow> c < c') (admitted lib es st)
    \<and> distinct (admitted lib es st)"
proof -
  note inc = guarded_increasing [OF admitted_guarded assms]
  then have "distinct (admitted lib es st)"
    by (rule sorted_wrt_distinct) auto
  with inc show ?thesis by simp
qed

text \<open>Only an admitted notification has an effect.\<close>

lemma effect_admitted:
  assumes "fst (listen_step lib (Notification now payload) st) \<noteq> Ignored"
  shows "\<exists>opn. fst (accept lib now payload st) = Some opn"
  using assms by (auto simp: handle_def split: prod.splits option.splits)


subsection \<open>The queue\<close>

text \<open>
  What the code relies on of the bounded channel, over the list of messages it holds: an
  accepted message is appended, a refused one leaves the queue as it was, and messages are
  received from the front.
\<close>

definition queue_ok :: "'q queue_lib \<Rightarrow> ('q \<Rightarrow> string list) \<Rightarrow> bool" where
  "queue_ok ql contents \<longleftrightarrow>
     (\<forall>n. contents (q_channel ql n) = []) \<and>
     (\<forall>msg q q'. q_try_send ql msg q = (None, q') \<longrightarrow> contents q' = contents q @ [msg]) \<and>
     (\<forall>msg q e q'. q_try_send ql msg q = (Some e, q') \<longrightarrow> contents q' = contents q) \<and>
     (\<forall>n q batch q'. q_recv_many ql n q = (batch, q') \<longrightarrow>
        contents q = batch @ contents q' \<and> length batch \<le> n)"

lemma queue_sent: "queue_ok ql contents \<Longrightarrow> q_try_send ql msg q = (None, q') \<Longrightarrow> contents q' = contents q @ [msg]"
  by (simp add: queue_ok_def)

lemma queue_refused: "queue_ok ql contents \<Longrightarrow> q_try_send ql msg q = (Some e, q') \<Longrightarrow> contents q' = contents q"
  unfolding queue_ok_def by blast

text \<open>A bounded list is such a queue.\<close>

definition list_queue :: "(nat \<times> string list) queue_lib" where
  "list_queue = \<lparr>q_channel = (\<lambda>n. (n, [])),
     q_try_send = (\<lambda>msg (n, q). if length q < n then (None, (n, q @ [msg])) else (Some Full, (n, q))),
     q_recv_many = (\<lambda>k (n, q). (take k q, (n, drop k q)))\<rparr>"

lemma list_queue_ok: "queue_ok list_queue snd"
  by (auto simp: queue_ok_def list_queue_def split: if_splits)

lemma seal_and_queue_fields [simp]:
  "pg_key (snd (seal_and_queue lib ql now c b st)) = pg_key st"
  "pg_node (snd (seal_and_queue lib ql now c b st)) = pg_node st"
  "pg_counter (snd (seal_and_queue lib ql now c b st)) = pg_counter st"
  by (auto simp: seal_and_queue_def split: sum.splits prod.splits option.splits try_send_error.splits)

lemma seal_and_queue_contents:
  assumes "queue_ok ql contents" and "seal_and_queue lib ql now c b st = (r, st')"
  shows "case r of
      Inr _ \<Rightarrow> \<exists>env. seal lib (pg_key st) (pg_node st) c now b = Inr env \<and>
        contents (pg_outbox st') = contents (pg_outbox st) @ [env]
    | Inl _ \<Rightarrow> contents (pg_outbox st') = contents (pg_outbox st)"
  using assms(2) queue_sent [OF assms(1)] queue_refused [OF assms(1)]
  by (auto simp: seal_and_queue_def split: sum.splits prod.splits option.splits try_send_error.splits)

lemma send_fields [simp]:
  "pg_key (snd (send lib ql now b st)) = pg_key st"
  "pg_node (snd (send lib ql now b st)) = pg_node st"
  "pg_counter (snd (send lib ql now b st)) = pg_counter st + 1"
  by (simp_all add: send_def take_counter_def)

subsection \<open>Delivery between nodes\<close>

text \<open>One node sends a list of messages; those it queued, with their times and envelopes.\<close>

fun posted ::
  "'k wire_lib \<Rightarrow> 'q queue_lib \<Rightarrow> (u64 \<times> body) list \<Rightarrow> ('k, 'q) pg_inner \<Rightarrow> (u64 \<times> body \<times> string) list" where
  "posted lib ql [] st = []"
| "posted lib ql ((now, b) # ms) st =
     (case (send lib ql now b st, seal lib (pg_key st) (pg_node st) (pg_counter st) now b) of
        ((Inr _, st'), Inr env) \<Rightarrow> (now, b, env) # posted lib ql ms st'
      | ((_, st'), _) \<Rightarrow> posted lib ql ms st')"

text \<open>Envelopes of one node with increasing counters from \<^term>\<open>lo\<close> on.\<close>

fun stamped :: "'k wire_lib \<Rightarrow> 'k \<Rightarrow> u64 \<Rightarrow> u64 \<Rightarrow> (u64 \<times> body \<times> string) list \<Rightarrow> bool" where
  "stamped lib key org lo [] = True"
| "stamped lib key org lo ((t, b, env) # xs) =
     (\<exists>c. lo \<le> c \<and> c \<noteq> - 1 \<and> seal lib key org c t b = Inr env \<and> stamped lib key org (c + 1) xs)"

lemma stamped_mono: "stamped lib key org lo xs \<Longrightarrow> lo' \<le> lo \<Longrightarrow> stamped lib key org lo' xs"
  by (cases xs) (auto, meson order_trans)

lemma stamped_subseq:
  assumes "subseq ys xs" and "stamped lib key org lo xs"
  shows "stamped lib key org lo ys"
  using assms
proof (induction arbitrary: lo rule: list_emb.induct)
  case (list_emb_Cons xs ys y)
  obtain t b env where y: "y = (t, b, env)" by (cases y)
  with list_emb_Cons.prems obtain c where "lo \<le> c" "c \<noteq> - 1" "stamped lib key org (c + 1) ys" by auto
  with list_emb_Cons.IH word_less_inc [of c] show ?case
    by (meson stamped_mono order_trans less_imp_le)
next
  case (list_emb_Cons2 x y xs ys)
  obtain t b env where "y = (t, b, env)" by (cases y)
  with list_emb_Cons2 show ?case by auto
qed simp

lemma posted_stamped:
  assumes "unat (pg_counter st) + length ms < 2 ^ 64"
  shows "stamped lib (pg_key st) (pg_node st) (pg_counter st) (posted lib ql ms st)"
  using assms
proof (induction ms arbitrary: st)
  case Nil
  then show ?case by simp
next
  case (Cons m ms)
  obtain now b where m: "m = (now, b)" by (cases m)
  have c: "pg_counter st \<noteq> - 1"
    using Cons.prems by (auto simp: unsigned_minus_1_eq_mask mask_eq_exp_minus_1)
  then have "1 + pg_counter st \<noteq> 0" by (metis add.commute eq_neg_iff_add_eq_0)
  then have suc: "unat (pg_counter st + 1) = Suc (unat (pg_counter st))"
    by (metis add.commute unatSuc)
  define st' where "st' = snd (send lib ql now b st)"
  have IH: "stamped lib (pg_key st) (pg_node st) (pg_counter st + 1) (posted lib ql ms st')"
    using Cons.IH [of st'] Cons.prems suc by (simp add: st'_def)
  then have weak: "stamped lib (pg_key st) (pg_node st) (pg_counter st) (posted lib ql ms st')"
    using word_less_inc [OF c] by (meson stamped_mono less_imp_le)
  obtain r where r: "send lib ql now b st = (r, st')" unfolding st'_def by (metis prod.collapse)
  show ?case using IH weak c by (auto simp: m r split: sum.splits)
qed


lemma accept_sealed:
  assumes "lib_ok lib" and "seal lib (pg_key st) org c t b = Inr env"
    and "abs_diff now t \<le> MAX_SKEW_MS" and "org \<noteq> pg_node st"
  shows "fst (accept lib now env st) =
    (if seen_of st org \<le> c then Some \<lparr>op_origin = org, op_counter = c, op_body = wire_form b\<rparr> else None)"
  using open_sealed [OF assms(1-3)] assms(4)
  by (auto simp: accept_def fresh_def Let_def seen_of_def split: option.splits)

lemma handle_sealed:
  assumes "lib_ok lib" and "seal lib (pg_key st) org c t b = Inr env"
    and "abs_diff now t \<le> MAX_SKEW_MS" and "org \<noteq> pg_node st" and "pg_sink st" and "seen_of st org \<le> c"
  shows "\<exists>st'. seen_of st' = (seen_of st)(org := c + 1) \<and> pg_pending st' = pg_pending st
      \<and> pg_node st' = pg_node st \<and> pg_calls st' = pg_calls st
      \<and> handle lib now env st = dispatch_body org (wire_form b) st'"
proof -
  obtain r st' where acc: "accept lib now env st = (r, st')" by fastforce
  have r: "r = Some \<lparr>op_origin = org, op_counter = c, op_body = wire_form b\<rparr>"
    using accept_sealed [OF assms(1-4)] assms(6) acc by simp
  have "pg_calls st' = pg_calls st"
    using acc by (auto simp: accept_def fresh_def Let_def split: option.splits if_splits)
  moreover have "pg_sink st'" "pg_pending st' = pg_pending st" "pg_node st' = pg_node st"
    using accept_fields [of lib now env st] assms(5) by (simp_all add: acc)
  ultimately show ?thesis
    using accept_seen [OF acc] by (intro exI [of _ st']) (simp add: handle_def acc r)
qed

lemma handle_old:
  assumes "lib_ok lib" and "seal lib (pg_key st) org c t b = Inr env"
    and "abs_diff now t \<le> MAX_SKEW_MS" and "org \<noteq> pg_node st" and "c < seen_of st org"
  shows "fst (handle lib now env st) = Ignored"
proof -
  have "fst (accept lib now env st) = None" using accept_sealed [OF assms(1-4)] assms(5) by simp
  then show ?thesis by (auto simp: handle_def split: prod.splits option.splits)
qed

fun is_publish :: "body \<Rightarrow> bool" where
  "is_publish (Publish _ _) = True"
| "is_publish _ = False"

lemma listen_loop_Cons:
  "fst (listen_loop lib (e # es) st) =
     fst (listen_step lib e st) # fst (listen_loop lib es (snd (listen_step lib e st)))"
  by (simp add: split_beta Let_def)

lemma listen_stamped:
  assumes "lib_ok lib" and "stamped lib (pg_key st) org lo (map snd got)"
    and "org \<noteq> pg_node st" and "pg_sink st" and "seen_of st org \<le> lo"
    and "\<forall>(now, t, b, env) \<in> set got. abs_diff now t \<le> MAX_SKEW_MS \<and> is_publish b"
  shows "fst (listen_loop lib (map (\<lambda>(now, t, b, env). Notification now env) got) st) =
    map (\<lambda>(now, t, b, env). Delivered (body_topic b) (body_p b)) got"
  using assms(2-6)
proof (induction got arbitrary: st lo)
  case Nil
  then show ?case by simp
next
  case (Cons g got)
  obtain now t b env where g: "g = (now, t, b, env)" by (cases g)
  then obtain topic p where b: "b = Publish topic p" using Cons.prems(5) by (cases b) auto
  from Cons.prems(1) g obtain c where c: "lo \<le> c" "seal lib (pg_key st) org c t b = Inr env"
    and rest: "stamped lib (pg_key st) org (c + 1) (map snd got)" by auto
  have skew: "abs_diff now t \<le> MAX_SKEW_MS" using Cons.prems(5) g by auto
  have seen: "seen_of st org \<le> c" using Cons.prems(4) c(1) by (rule order_trans)
  from handle_sealed [OF assms(1) c(2) skew Cons.prems(2,3) seen] b
  obtain st' where st': "seen_of st' = (seen_of st)(org := c + 1)"
    and h: "handle lib now env st = (Delivered topic p, st')" by auto
  have "pg_key st' = pg_key st" "pg_node st' = pg_node st" "pg_sink st' = pg_sink st"
    using handle_fields [of lib now env st] h by simp_all
  with Cons.IH [of st' "c + 1"] Cons.prems rest st'
  have "fst (listen_loop lib (map (\<lambda>(now, t, b, env). Notification now env) got) st') =
    map (\<lambda>(now, t, b, env). Delivered (body_topic b) (body_p b)) got" by simp
  then show ?case by (simp add: g b h listen_loop_Cons del: listen_loop.simps)
qed


text \<open>A call's answer. When the node that runs a call answers it, the envelope it queues makes
  the calling node hand exactly that answer to the call that waits under the id, and forget the
  call; an error arrives with its status and message (its kind and server-side detail stay
  behind), and a copy of the envelope is ignored.\<close>

theorem reply_answers_call:
  assumes "lib_ok lib" and "seal lib (pg_key st) org c t (reply_body (pg_node st) i result) = Inr env"
    and "abs_diff now t \<le> MAX_SKEW_MS" and "org \<noteq> pg_node st" and "pg_sink st" and "seen_of st org \<le> c"
    and "map_of (pg_pending st) i = Some chan" and "c \<noteq> - 1"
    and "handle lib now env st = (eff, st')"
  shows "eff = Answered chan (case result of Inr v \<Rightarrow> Inr v | Inl e \<Rightarrow> Inl (new_error (code e) (message e)))
    \<and> map_of (pg_pending st') = (map_of (pg_pending st))(i := None)
    \<and> fst (handle lib now env st') = Ignored"
proof -
  from handle_sealed [OF assms(1-6)] assms(9) obtain st0
    where st0: "seen_of st0 = (seen_of st)(org := c + 1)" "pg_pending st0 = pg_pending st" "pg_node st0 = pg_node st"
      and h: "(eff, st') = dispatch_body org (wire_form (reply_body (pg_node st) i result)) st0" by auto
  have f: "pg_key st' = pg_key st" "pg_node st' = pg_node st"
    using handle_fields [of lib now env st] assms(9) by simp_all
  have "seen_of st' = seen_of st0"
    using dispatch_seen [of org "wire_form (reply_body (pg_node st) i result)" st0]
    unfolding h [symmetric] by simp
  then have "c < seen_of st' org" using word_less_inc [OF assms(8)] st0(1) by simp
  then have "fst (handle lib now env st') = Ignored"
    using assms(2-4) f by (intro handle_old [OF assms(1)]) auto
  moreover have "eff = Answered chan (case result of Inr v \<Rightarrow> Inr v | Inl e \<Rightarrow> Inl (new_error (code e) (message e)))
      \<and> map_of (pg_pending st') = (map_of (pg_pending st))(i := None)"
    using h assms(7) st0(2,3) by (cases result; cases "projr result")
      (auto simp: reply_body_def Let_def split: sum.splits)
  ultimately show ?thesis by simp
qed


subsection \<open>A concrete bus\<close>

definition ex_pg :: "u64 \<Rightarrow> (u8 list, nat \<times> string list) pg_inner" where
  "ex_pg node = \<lparr>pg_key = [], pg_node = node, pg_counter = 0, pg_sink = True,
     pg_outbox = (3, []), pg_pending = [(5, 9)], pg_next_call = 6, pg_seen = [], pg_calls = 64\<rparr>"

definition ex_bodies :: "(u64 \<times> body) list" where
  \<open>ex_bodies = [(100, Publish ''a'' ''"x"''), (200, Publish ''b'' ''"y"'')]\<close>

definition ex_got :: "(u64 \<times> u64 \<times> body \<times> string) list" where
  "ex_got = map (\<lambda>m. (fst m + 7, m)) (posted ex_lib list_queue ex_bodies (ex_pg 1))"

lemma ex_got_snd: "map snd ex_got = posted ex_lib list_queue ex_bodies (ex_pg 1)"
  by (simp add: ex_got_def o_def)


definition ex_reply :: string where
  "ex_reply = projr (seal ex_lib [] 1 0 100 (reply_body 2 5 (Inr (JBool True))))"

lemma ex_reply_sealed: "seal ex_lib [] 1 0 100 (reply_body 2 5 (Inr (JBool True))) = Inr ex_reply"
  unfolding ex_reply_def by (rule sum.collapse(2) [symmetric]) code_simp

theorem reply_answers_call_witness:
  "fst (handle ex_lib 100 ex_reply (ex_pg 2)) = Answered 9 (Inr (JBool True))"
proof -
  obtain eff st' where h: "handle ex_lib 100 ex_reply (ex_pg 2) = (eff, st')" by fastforce
  have "abs_diff 100 100 \<le> MAX_SKEW_MS" by code_simp
  from reply_answers_call [OF ex_lib_ok _ this _ _ _ _ _ h, of 1 0 5 "Inr (JBool True)" 9] ex_reply_sealed
  have "eff = Answered 9 (Inr (JBool True))" by (simp add: ex_pg_def seen_of_def)
  then show ?thesis by (simp add: h)
qed

text \<open>Lost by a race. When two tasks take their counters one after the other but queue their
  publishes in the other order, the receiver delivers the one with the larger counter and its
  replay guard drops the other, although both sends returned success and both envelopes
  arrived.\<close>

theorem concurrent_sends_lose_one:
  assumes "lib_ok lib" and "queue_ok ql contents" and "contents (pg_outbox st) = []"
    and "take_counter st = (c1, st1)" and "take_counter st1 = (c2, st2)" and "pg_counter st \<noteq> - 1" and "pg_counter st + 1 \<noteq> - 1"
    and "seal_and_queue lib ql t c2 (Publish topic2 p2) st2 = (Inr (), st3)"
    and "seal_and_queue lib ql t c1 (Publish topic1 p1) st3 = (Inr (), st4)"
    and "pg_key r = pg_key st" and "pg_node r \<noteq> pg_node st" and "pg_sink r" and "seen_of r (pg_node st) = 0"
  shows "fst (listen_loop lib (map (Notification t) (contents (pg_outbox st4))) r) = [Delivered topic2 p2, Ignored]"
proof -
  have st1: "c1 = pg_counter st" "st1 = st\<lparr>pg_counter := c1 + 1\<rparr>"
    using assms(4) by (auto simp: take_counter_def)
  have st2: "c2 = c1 + 1" "st2 = st1\<lparr>pg_counter := c2 + 1\<rparr>"
    using assms(5) st1 by (auto simp: take_counter_def)
  have keys: "pg_key st2 = pg_key st" "pg_node st2 = pg_node st" "contents (pg_outbox st2) = []"
    using st1 st2 assms(3) by simp_all
  have keys3: "pg_key st3 = pg_key st" "pg_node st3 = pg_node st"
    using seal_and_queue_fields [of lib ql t c2 "Publish topic2 p2" st2] assms(8) keys by simp_all
  obtain e2 where e2: "seal lib (pg_key r) (pg_node st) c2 t (Publish topic2 p2) = Inr e2" "contents (pg_outbox st3) = [e2]"
    using seal_and_queue_contents [OF assms(2,8)] keys assms(10) by auto
  obtain e1 where e1: "seal lib (pg_key r) (pg_node st) c1 t (Publish topic1 p1) = Inr e1" "contents (pg_outbox st4) = [e2, e1]"
    using seal_and_queue_contents [OF assms(2,9)] keys3 assms(10) e2 by auto
  have skew: "abs_diff t t \<le> MAX_SKEW_MS" by (simp add: abs_diff_def MAX_SKEW_MS_def)
  have node: "pg_node st \<noteq> pg_node r" using assms(11) by simp
  obtain r' where r': "seen_of r' = (seen_of r)(pg_node st := c2 + 1)" and h: "handle lib t e2 r = (Delivered topic2 p2, r')"
    using handle_sealed [OF assms(1) e2(1) skew node assms(12)] assms(13) by auto
  have r'_f: "pg_key r' = pg_key r" "pg_node r' = pg_node r"
    using handle_fields [of lib t e2 r] h by simp_all
  have "c1 < c2 + 1"
    using word_less_inc [OF assms(6)] word_less_inc [OF assms(7)] unfolding st1(1) st2(1) by (rule less_trans)
  then have "c1 < seen_of r' (pg_node st)" using r' by simp
  then have "fst (handle lib t e1 r') = Ignored"
    using handle_old [OF assms(1) _ skew, of r' "pg_node st" c1 "Publish topic1 p1" e1] e1(1) node r'_f by simp
  then show ?thesis by (simp add: e1(2) h listen_loop_Cons del: listen_loop.simps(2))
qed


theorem concurrent_sends_lose_one_witness:
  \<open>\<exists>st3 st4. seal_and_queue ex_lib list_queue 50 1 (Publish ''b'' ''"y"'') (ex_pg 1\<lparr>pg_counter := 2\<rparr>) = (Inr (), st3)
     \<and> seal_and_queue ex_lib list_queue 50 0 (Publish ''a'' ''"x"'') st3 = (Inr (), st4)
     \<and> fst (listen_loop ex_lib (map (Notification 50) (snd (pg_outbox st4))) (ex_pg 2)) =
         [Delivered ''b'' ''"y"'', Ignored]\<close>
proof -
  define st3 where \<open>st3 = snd (seal_and_queue ex_lib list_queue 50 1 (Publish ''b'' ''"y"'') (ex_pg 1\<lparr>pg_counter := 2\<rparr>))\<close>
  define st4 where \<open>st4 = snd (seal_and_queue ex_lib list_queue 50 0 (Publish ''a'' ''"x"'') st3)\<close>
  have \<open>fst (seal_and_queue ex_lib list_queue 50 1 (Publish ''b'' ''"y"'') (ex_pg 1\<lparr>pg_counter := 2\<rparr>)) = Inr ()\<close>
    by code_simp
  then have s3: \<open>seal_and_queue ex_lib list_queue 50 1 (Publish ''b'' ''"y"'') (ex_pg 1\<lparr>pg_counter := 2\<rparr>) = (Inr (), st3)\<close>
    by (simp add: st3_def prod_eq_iff)
  have \<open>fst (seal_and_queue ex_lib list_queue 50 0 (Publish ''a'' ''"x"'') st3) = Inr ()\<close>
    unfolding st3_def by code_simp
  then have s4: \<open>seal_and_queue ex_lib list_queue 50 0 (Publish ''a'' ''"x"'') st3 = (Inr (), st4)\<close>
    by (simp add: st4_def prod_eq_iff)
  have "take_counter (ex_pg 1) = (0, ex_pg 1\<lparr>pg_counter := 1\<rparr>)"
    and "take_counter (ex_pg 1\<lparr>pg_counter := 1\<rparr>) = (1, ex_pg 1\<lparr>pg_counter := 2\<rparr>)"
    by (simp_all add: take_counter_def ex_pg_def)
  from concurrent_sends_lose_one [OF ex_lib_ok list_queue_ok _ this _ _ s3 s4, of "ex_pg 2"] s3 s4
  show ?thesis by (simp add: ex_pg_def seen_of_def)
qed


theorem no_replay_witness:
  "distinct (admitted ex_lib [Notification 100 ex_reply, ConnectionLost, Notification 101 ex_reply] (ex_pg 2))
   \<and> length (admitted ex_lib [Notification 100 ex_reply, ConnectionLost, Notification 101 ex_reply] (ex_pg 2)) = 1"
proof -
  let ?es = "[Notification 100 ex_reply, ConnectionLost, Notification 101 ex_reply]"
  have adm: "admitted ex_lib ?es (ex_pg 2) = [(1, 0)]" unfolding ex_reply_def by code_simp
  have "\<forall>(_, d) \<in> set (admitted ex_lib ?es (ex_pg 2)). d \<noteq> - 1" unfolding adm by simp
  from no_replay [OF this] show ?thesis unfolding adm by simp
qed

subsection \<open>Envelopes\<close>



text \<open>Sizes. What \<^verbatim>\<open>validate\<close> accepts is exactly what can be sealed, for every origin, counter and
  time, and everything sealed fits a Postgres NOTIFY; a refusal is the 413 error.\<close>

theorem validate_is_exact:
  assumes "lib_ok lib" and "raw_value lib payload" and "str_to_json lib topic = Inr j"
  shows "case pg_validate lib topic payload of
      Inr _ \<Rightarrow> \<exists>env. seal lib key org n t (Publish topic payload) = Inr env \<and> length env \<le> MAX_NOTIFY_BYTES
    | Inl e \<Rightarrow> seal lib key org n t (Publish topic payload) = Inl e \<and> code e = 413"
proof -
  note js = lib_publish [OF assms]
  have len: "publish_len lib topic payload = ENVELOPE_OVERHEAD + length (projr (body_to_json lib (Publish topic payload)))"
    by (simp add: publish_len_def assms(3) js)
  have seal: "\<exists>env. seal lib key org n t (Publish topic payload) = Inr env" if "check_len (publish_len lib topic payload) = Inr ()"
    using that by (simp add: seal_def js len)
  show ?thesis
  proof (cases "check_len (publish_len lib topic payload)")
    case (Inl e)
    then show ?thesis by (auto simp: pg_validate_def len js seal_def check_len_def split: if_splits)
  next
    case (Inr u)
    with seal sealed_length [OF assms(1)] show ?thesis by (fastforce simp: pg_validate_def)
  qed
qed

theorem validate_is_exact_witness:
  \<open>\<exists>env. seal ex_lib [] 1 0 7 (Publish ''a'' ''"x"'') = Inr env \<and> length env \<le> MAX_NOTIFY_BYTES\<close>
proof -
  have "raw_value ex_lib [CHR 0x22, CHR ''x'', CHR 0x22]" by code_simp
  moreover have "pg_validate ex_lib ''a'' [CHR 0x22, CHR ''x'', CHR 0x22] = Inr ()" by code_simp
  moreover have "str_to_json ex_lib ''a'' = Inr (push_json_str [] ''a'')" by (simp add: ex_lib_def)
  ultimately show ?thesis using validate_is_exact [OF ex_lib_ok, of _ _ _ "[]" 1 0 7] by fastforce
qed

subsection \<open>Reconnecting\<close>

text \<open>The listener reconnects at the first attempt that succeeds and sleeps before every further
  attempt, each time between the shortest delay and thirty seconds, never shorter than the time
  before.\<close>

theorem reconnect_backoff:
  assumes "RETRY_MIN \<le> delay" and "delay \<le> RETRY_MAX" and "reconnect attempts delay = (slept, ok)"
  shows "ok = (True \<in> set attempts) \<and> length slept = length (takeWhile Not attempts)
    \<and> sorted slept \<and> (\<forall>d \<in> set slept. delay \<le> d \<and> d \<le> RETRY_MAX)"
  using assms
proof (induction attempts delay arbitrary: slept rule: reconnect.induct)
  case (3 attempts delay)
  let ?d = "min (delay * 2) RETRY_MAX"
  obtain slept' ok' where r: "reconnect attempts ?d = (slept', ok')" by fastforce
  have "delay \<le> ?d" "?d \<le> RETRY_MAX" "RETRY_MIN \<le> ?d" using 3(2,3) by auto
  with 3 r show ?case by (fastforce simp: Let_def)
qed auto

theorem reconnect_backoff_witness:
  "sorted (fst (reconnect [False, False, True] RETRY_MIN))
   \<and> reconnect [False, False, True] RETRY_MIN = ([250, 500], True)"
proof -
  have r: "reconnect [False, False, True] RETRY_MIN = ([250, 500], True)"
    by (simp add: RETRY_MIN_def RETRY_MAX_def)
  from reconnect_backoff [OF _ _ r] show ?thesis by (simp add: r RETRY_MIN_def RETRY_MAX_def)
qed

end
