(* ===== verification/Reply.thy ===== *)
theory Reply
  imports RouterError
begin

text \<open>
  Replies and frames, \<^verbatim>\<open>crates/router/src/reply.rs\<close>, with the rest of \<^verbatim>\<open>error.rs\<close>: how an error
  becomes what a client sees. A unary reply is built by hand (\<^verbatim>\<open>into_value\<close>), a duplex reply
  through the derived \<^verbatim>\<open>Serialize\<close>; the theorem is that both give the same error object, and that
  it holds nothing of the server-side detail.
\<close>

definition default_kind :: string where
  "default_kind = ''error''"

definition is_default_kind :: "string \<Rightarrow> bool" where
  "is_default_kind k \<longleftrightarrow> k = ''error''"

record error_body =
  eb_code :: u16
  eb_kind :: string
  eb_message :: string
  eb_fields :: "(string \<times> string list) list option"
  eb_data :: "jvalue option"

definition error_body_from :: "error \<Rightarrow> error_body" where
  "error_body_from e = \<lparr>eb_code = code e, eb_kind = kind e, eb_message = message e,
     eb_fields = error_fields e, eb_data = data e\<rparr>"

text \<open>The JSON of the per-field messages; \<^verbatim>\<open>to_value\<close> of it never fails.\<close>

definition fields_value :: "(string \<times> string list) list \<Rightarrow> jvalue" where
  "fields_value fs = json_object (map (\<lambda>(path, msgs). (path, JArray (map JString msgs))) fs)"

definition body_into_value :: "error_body \<Rightarrow> jvalue" where
  "body_into_value b =
     (let object = jmap_insert ''code'' (jnum (eb_code b)) [];
          object = (if \<not> is_default_kind (eb_kind b)
                    then jmap_insert ''type'' (JString (eb_kind b)) object else object);
          object = jmap_insert ''message'' (JString (eb_message b)) object;
          object = (case eb_fields b of
                      Some fs \<Rightarrow> jmap_insert ''fields'' (fields_value fs) object
                    | None \<Rightarrow> object);
          object = (case eb_data b of Some d \<Rightarrow> jmap_insert ''data'' d object | None \<Rightarrow> object)
      in JObject object)"

text \<open>
  What the \<^verbatim>\<open>Serialize\<close> derived from the struct's attributes writes: the fields in declaration
  order, renamed, those with a true \<^verbatim>\<open>skip_serializing_if\<close> left out.
\<close>

definition body_serialized :: "error_body \<Rightarrow> jvalue" where
  "body_serialized b = json_object
     ([(''code'', jnum (eb_code b))]
      @ (if is_default_kind (eb_kind b) then [] else [(''type'', JString (eb_kind b))])
      @ [(''message'', JString (eb_message b))]
      @ (case eb_fields b of None \<Rightarrow> [] | Some fs \<Rightarrow> [(''fields'', fields_value fs)])
      @ (case eb_data b of None \<Rightarrow> [] | Some d \<Rightarrow> [(''data'', d)]))"

definition is_validation :: "error_body \<Rightarrow> bool" where
  "is_validation b \<longleftrightarrow> eb_kind b = ''validation''"

datatype reply = ReplyOk jvalue | ReplyError error_body

definition reply_error :: "error \<Rightarrow> reply" where
  "reply_error e = ReplyError \<lparr>eb_code = code e, eb_kind = kind e, eb_message = message e,
     eb_fields = error_fields e, eb_data = data e\<rparr>"

fun reply_code :: "reply \<Rightarrow> u16" where
  "reply_code (ReplyOk _) = 200"
| "reply_code (ReplyError b) = eb_code b"

fun reply_into_value :: "reply \<Rightarrow> jvalue" where
  "reply_into_value (ReplyOk d) =
     JObject (jmap_insert ''data'' d (jmap_insert ''status'' (JString ''ok'') []))"
| "reply_into_value (ReplyError b) =
     JObject (jmap_insert ''error'' (body_into_value b) (jmap_insert ''status'' (JString ''error'') []))"

datatype frame =
    FrameNext nat string jvalue
  | FrameError nat string error_body
  | FrameEnd nat string

text \<open>What the derived \<^verbatim>\<open>Serialize\<close> writes for a frame.\<close>

fun frame_value :: "frame \<Rightarrow> jvalue" where
  "frame_value (FrameNext index action d) =
     json_object [(''type'', JString ''next''), (''index'', jnum index), (''action'', JString action), (''data'', d)]"
| "frame_value (FrameError index action b) =
     json_object [(''type'', JString ''error''), (''index'', jnum index), (''action'', JString action), (''error'', body_serialized b)]"
| "frame_value (FrameEnd index action) =
     json_object [(''type'', JString ''end''), (''index'', jnum index), (''action'', JString action)]"

definition frame_error :: "nat \<Rightarrow> string \<Rightarrow> error \<Rightarrow> frame" where
  "frame_error index action e = FrameError index action (error_body_from e)"

subsection \<open>The rest of the error type\<close>

definition error_display :: "error \<Rightarrow> string" where
  "error_display e =
     ''['' @ show_nat (code e) @ ''] '' @ message e @
     (case detail e of None \<Rightarrow> [] | Some d \<Rightarrow> '' (detail: '' @ d @ '')'')"

text \<open>
  An application's error type: its status, its machine code, its message and the text it
  displays as (\<^verbatim>\<open>ResponseError\<close>), and the conversion into the router's error.
\<close>

record response_error =
  re_status :: u16
  re_code :: string
  re_message :: string
  re_display :: string

definition error_from_response :: "response_error \<Rightarrow> error" where
  "error_from_response r =
     (if re_status r \<ge> 500
      then \<lparr>code = re_status r, kind = re_code r, message = INTERNAL_MESSAGE,
            error_fields = None, data = None, detail = Some (re_display r)\<rparr>
      else \<lparr>code = re_status r, kind = re_code r, message = re_message r,
            error_fields = None, data = None, detail = None\<rparr>)"

definition BUILTIN_ERROR_CODES :: "string list" where
  "BUILTIN_ERROR_CODES = [''error'', ''bad_request'', ''not_found'', ''validation'', ''internal'']"

text \<open>A panic's payload: a string slice, a string, or something else.\<close>

datatype panic_payload = PanicStr string | PanicString string | PanicOther

fun panic_message :: "panic_payload \<Rightarrow> string" where
  "panic_message (PanicStr s) = s"
| "panic_message (PanicString s) = s"
| "panic_message PanicOther = ''panic''"

definition panicked :: "panic_payload \<Rightarrow> error" where
  "panicked p = internal (''action panicked: '' @ panic_message p)"

subsection \<open>Lemmas\<close>

lemma body_into_value_serialized: "body_into_value b = body_serialized b"
  by (simp add: body_into_value_def body_serialized_def json_object_def split: option.splits)

lemma reply_error_body: "reply_error e = ReplyError (error_body_from e)"
  by (simp add: reply_error_def error_body_from_def)

text \<open>What a client sees of an error. The hand-built error object of a unary reply is the one the
  derived serializer writes for duplex replies; it is the same whatever the server-side detail
  is, and an application error with a status of 500 or more shows neither its message nor its
  text.\<close>

theorem error_reply_hides_detail:
  "body_into_value (error_body_from e) = body_serialized (error_body_from e)
   \<and> reply_into_value (reply_error (e\<lparr>detail := d\<rparr>)) = reply_into_value (reply_error e)
   \<and> (re_status r \<ge> 500 \<longrightarrow>
        reply_into_value (reply_error (error_from_response (r\<lparr>re_message := m, re_display := t\<rparr>))) =
        reply_into_value (reply_error (error_from_response r)))"
  by (simp add: body_into_value_serialized reply_error_body error_body_from_def error_from_response_def)

theorem error_reply_hides_detail_witness:
  "reply_into_value (reply_error (error_from_response
      \<lparr>re_status = 503, re_code = ''db'', re_message = ''secret'', re_display = ''secret''\<rparr>)) =
   reply_into_value (reply_error (error_from_response
      \<lparr>re_status = 503, re_code = ''db'', re_message = '''', re_display = ''''\<rparr>))"
  using error_reply_hides_detail
    [of undefined undefined "\<lparr>re_status = 503, re_code = ''db'', re_message = '''', re_display = ''''\<rparr>" "''secret''" "''secret''"]
  by simp

end
