(* ===== verification/Actions.thy ===== *)
theory Actions
  imports Reply
begin

text \<open>
  Actions and their pipelines, \<^verbatim>\<open>crates/router/src/action.rs\<close>, and middleware guards,
  \<^verbatim>\<open>crates/router/src/middleware.rs\<close>.

  What an application supplies (its hooks, its body, the deserializer, validator and serializer
  of its types) is a record of functions. Its effects are on a state \<^verbatim>\<open>'s\<close> that every step
  threads, so the order of the steps shows in the result; a step that panics gives
  \<^verbatim>\<open>Panicked\<close> instead of a value.
\<close>

datatype 'a outcome = Returned 'a | Panicked panic_payload

type_synonym ('s, 'a) step = "'s \<Rightarrow> 'a result outcome \<times> 's"

record ('cx, 's, 'i, 'o) action =
  act_name :: string
  act_before :: "'cx \<Rightarrow> ('s, unit) step"
  act_decode :: "jvalue \<Rightarrow> (string + 'i) outcome"
  act_validate :: "'i \<Rightarrow> ((string \<times> string) list + unit) outcome"
  act_run :: "'cx \<Rightarrow> 'i \<Rightarrow> ('s, 'o) step"
  act_after :: "'cx \<Rightarrow> 's \<Rightarrow> unit outcome \<times> 's"
  act_encode :: "'o \<Rightarrow> (string + jvalue) outcome"

text \<open>The question mark after an awaited step: an error or a panic ends the pipeline.\<close>

definition and_then :: "('s, 'a) step \<Rightarrow> ('a \<Rightarrow> ('s, 'b) step) \<Rightarrow> ('s, 'b) step" where
  "and_then m f s =
     (case m s of
        (Returned (Inr v), s') \<Rightarrow> f v s'
      | (Returned (Inl e), s') \<Rightarrow> (Returned (Inl e), s')
      | (Panicked p, s') \<Rightarrow> (Panicked p, s'))"

text \<open>A step without effect whose own error is converted.\<close>

definition pure_step :: "('e \<Rightarrow> error) \<Rightarrow> ('e + 'a) outcome \<Rightarrow> ('s, 'a) step" where
  "pure_step conv r s =
     (case r of
        Returned (Inr v) \<Rightarrow> (Returned (Inr v), s)
      | Returned (Inl e) \<Rightarrow> (Returned (Inl (conv e)), s)
      | Panicked p \<Rightarrow> (Panicked p, s))"

definition unary_work :: "('cx, 's, 'i, 'o) action \<Rightarrow> 'cx \<Rightarrow> jvalue \<Rightarrow> ('s, jvalue) step" where
  "unary_work a cx params =
     and_then (act_before a cx) (\<lambda>_.
     and_then (pure_step decode (act_decode a params)) (\<lambda>input.
     and_then (pure_step validation (act_validate a input)) (\<lambda>_ s.
       case act_run a cx input s of
         (Panicked p, s) \<Rightarrow> (Panicked p, s)
       | (Returned result, s) \<Rightarrow>
           (case act_after a cx s of
              (Panicked p, s) \<Rightarrow> (Panicked p, s)
            | (Returned _, s) \<Rightarrow>
                and_then (\<lambda>s. (Returned result, s)) (\<lambda>v. pure_step encode_err (act_encode a v)) s))))"

definition catch_unwind :: "('s, 'a) step \<Rightarrow> 's \<Rightarrow> 'a result \<times> 's" where
  "catch_unwind work s =
     (case work s of (Returned r, s) \<Rightarrow> (r, s) | (Panicked p, s) \<Rightarrow> (Inl (panicked p), s))"

definition run_unary :: "('cx, 's, 'i, 'o) action \<Rightarrow> 'cx \<Rightarrow> jvalue \<Rightarrow> 's \<Rightarrow> jvalue result \<times> 's" where
  "run_unary a cx params = catch_unwind (unary_work a cx params)"

subsection \<open>Streams\<close>

text \<open>
  One run of a streaming action: what its hooks returned and what each poll of its item stream
  gave, up to the end of the stream. The guard, every poll and \<^verbatim>\<open>after\<close> are caught one by one.
\<close>

record ('cx, 'i, 'o) stream_action =
  st_name :: string
  st_before :: "'cx \<Rightarrow> unit result outcome"
  st_decode :: "jvalue \<Rightarrow> string + 'i"
  st_validate :: "'i \<Rightarrow> (string \<times> string) list + unit"
  st_run :: "'cx \<Rightarrow> 'i \<Rightarrow> 'o result outcome list"
  st_after :: "'cx \<Rightarrow> unit outcome"
  st_encode :: "'o \<Rightarrow> string + jvalue"

definition stream_item :: "('o \<Rightarrow> string + jvalue) \<Rightarrow> 'o result \<Rightarrow> jvalue result" where
  "stream_item enc item =
     (case item of
        Inl e \<Rightarrow> Inl e
      | Inr v \<Rightarrow> (case enc v of Inl e \<Rightarrow> Inl (encode_err e) | Inr j \<Rightarrow> Inr j))"

fun stream_items ::
  "('o \<Rightarrow> string + jvalue) \<Rightarrow> unit outcome \<Rightarrow> 'o result outcome list \<Rightarrow> jvalue result list" where
  "stream_items enc after [] = (case after of Panicked p \<Rightarrow> [Inl (panicked p)] | Returned _ \<Rightarrow> [])"
| "stream_items enc after (Returned item # polls) = stream_item enc item # stream_items enc after polls"
| "stream_items enc after (Panicked p # polls) = [Inl (panicked p)]"

definition stream_dispatch :: "('cx, 'i, 'o) stream_action \<Rightarrow> 'cx \<Rightarrow> jvalue \<Rightarrow> jvalue result list" where
  "stream_dispatch a cx params =
     (case st_before a cx of
        Returned (Inl e) \<Rightarrow> [Inl e]
      | Panicked p \<Rightarrow> [Inl (panicked p)]
      | Returned (Inr _) \<Rightarrow>
          (case st_decode a params of
             Inl e \<Rightarrow> [Inl (decode e)]
           | Inr input \<Rightarrow>
               (case st_validate a input of
                  Inl errs \<Rightarrow> [Inl (validation errs)]
                | Inr _ \<Rightarrow> stream_items (st_encode a) (st_after a cx) (st_run a cx input))))"

subsection \<open>Middleware\<close>

record ('cx, 's) middleware =
  mw_before :: "'cx \<Rightarrow> ('s, unit) step"
  mw_after :: "'cx \<Rightarrow> 's \<Rightarrow> unit outcome \<times> 's"

definition guarded_before ::
  "('cx \<Rightarrow> ('s, unit) step) \<Rightarrow> ('cx \<Rightarrow> ('s, unit) step) \<Rightarrow> 'cx \<Rightarrow> ('s, unit) step" where
  "guarded_before inner outer cx = and_then (inner cx) (\<lambda>_. outer cx)"

definition guarded_after ::
  "('cx \<Rightarrow> 's \<Rightarrow> unit outcome \<times> 's) \<Rightarrow> ('cx \<Rightarrow> 's \<Rightarrow> unit outcome \<times> 's) \<Rightarrow> 'cx \<Rightarrow> 's \<Rightarrow> unit outcome \<times> 's" where
  "guarded_after inner outer cx s =
     (case outer cx s of (Panicked p, s) \<Rightarrow> (Panicked p, s) | (Returned _, s) \<Rightarrow> inner cx s)"

definition with_middleware ::
  "('cx, 's, 'i, 'o) action \<Rightarrow> ('cx, 's) middleware \<Rightarrow> ('cx, 's, 'i, 'o) action" where
  "with_middleware a mw =
     a\<lparr>act_before := guarded_before (act_before a) (mw_before mw),
       act_after := guarded_after (act_after a) (mw_after mw)\<rparr>"

text \<open>On a streaming action, with what the guard's hooks return in the run.\<close>

definition with_stream_middleware ::
  "('cx, 'i, 'o) stream_action \<Rightarrow> ('cx \<Rightarrow> unit result outcome) \<Rightarrow> ('cx \<Rightarrow> unit outcome) \<Rightarrow> ('cx, 'i, 'o) stream_action" where
  "with_stream_middleware a before after =
     a\<lparr>st_before := (\<lambda>cx. case st_before a cx of Returned (Inr _) \<Rightarrow> before cx | r \<Rightarrow> r),
       st_after := (\<lambda>cx. case after cx of Returned _ \<Rightarrow> st_after a cx | Panicked p \<Rightarrow> Panicked p)\<rparr>"

subsection \<open>Lemmas\<close>

lemma stream_guard_refuses:
  assumes "st_before a cx = Returned (Inr ())" and "before cx = Returned (Inl e)"
  shows "stream_dispatch (with_stream_middleware a before after) cx params = [Inl e]"
  using assms by (simp add: stream_dispatch_def with_stream_middleware_def)

lemma and_then_short:
  "m s = (Returned (Inl e), s') \<Longrightarrow> and_then m f s = (Returned (Inl e), s')"
  "m s = (Panicked p, s') \<Longrightarrow> and_then m f s = (Panicked p, s')"
  "m s = (Returned (Inr v), s') \<Longrightarrow> and_then m f s = f v s'"
  by (simp_all add: and_then_def)

lemma and_then_assoc: "and_then (and_then m f) g = and_then m (\<lambda>v. and_then (f v) g)"
  by (simp add: and_then_def fun_eq_iff split: prod.splits outcome.splits sum.splits)

text \<open>The guard comes first. When the guard of a middleware refuses (or panics), the caller gets its
  error (or a generic 500), the state is the one the guards left, and nothing depends on the
  parameters: they are not deserialized or validated, neither the body nor any \<^verbatim>\<open>after\<close> hook runs.
  Middleware added later is asked after the guards inside it.\<close>

theorem guard_refuses_first:
  assumes "act_before a cx s = (Returned (Inr ()), s1)" and "mw_before mw cx s1 = (answer, s2)"
  shows "(\<forall>e. answer = Returned (Inl e) \<longrightarrow> run_unary (with_middleware a mw) cx params s = (Inl e, s2))
    \<and> (\<forall>p. answer = Panicked p \<longrightarrow> run_unary (with_middleware a mw) cx params s = (Inl (panicked p), s2))"
proof -
  have "act_before (with_middleware a mw) cx s = (answer, s2)"
    using assms by (simp add: with_middleware_def guarded_before_def and_then_def)
  then show ?thesis
    by (simp add: run_unary_def catch_unwind_def unary_work_def and_then_short)
qed

text \<open>An action that counts its runs, behind a guard that refuses.\<close>

definition ex_action :: "(unit, nat, jvalue, jvalue) action" where
  "ex_action = \<lparr>act_name = ''n'', act_before = (\<lambda>_ s. (Returned (Inr ()), s)),
     act_decode = (\<lambda>v. Returned (Inr v)), act_validate = (\<lambda>_. Returned (Inr ())),
     act_run = (\<lambda>_ v s. (Returned (Inr v), s + 1)), act_after = (\<lambda>_ s. (Returned (), s + 10)),
     act_encode = (\<lambda>v. Returned (Inr v))\<rparr>"

definition ex_guard :: "(unit, nat) middleware" where
  "ex_guard = \<lparr>mw_before = (\<lambda>_ s. (Returned (Inl (new_error 403 ''no'')), s)),
     mw_after = (\<lambda>_ s. (Returned (), s + 100))\<rparr>"

theorem guard_refuses_first_witness:
  "run_unary (with_middleware ex_action ex_guard) () JNull 5 = (Inl (new_error 403 ''no''), 5)"
  using guard_refuses_first [of ex_action "()" 5 5 ex_guard "Returned (Inl (new_error 403 ''no''))" 5 JNull]
  by (simp add: ex_action_def ex_guard_def)

text \<open>
  Past the guard, \<^verbatim>\<open>after\<close> runs exactly when the body ran without a panic, whether it returned a
  value or an error.
\<close>

lemma unary_after_body:
  assumes "act_before a cx s = (Returned (Inr ()), s1)" and "act_decode a params = Returned (Inr input)"
    and "act_validate a input = Returned (Inr ())" and "act_run a cx input s1 = (Returned result, s2)"
    and "act_after a cx s2 = (Returned (), s3)"
  shows "run_unary a cx params s =
    (case result of
       Inl e \<Rightarrow> (Inl e, s3)
     | Inr v \<Rightarrow> (case act_encode a v of
                   Returned (Inl e) \<Rightarrow> (Inl (encode_err e), s3)
                 | Returned (Inr j) \<Rightarrow> (Inr j, s3)
                 | Panicked p \<Rightarrow> (Inl (panicked p), s3)))"
  using assms
  by (simp add: run_unary_def catch_unwind_def unary_work_def and_then_def pure_step_def
      split: outcome.splits sum.splits)

end
