(* ===== verification/Session.thy ===== *)
theory Session
  imports Hub Actions
begin

text \<open>
  A duplex session, \<^verbatim>\<open>crates/router/src/session.rs\<close> with its inbound frames
  (\<^verbatim>\<open>session/inbound.rs\<close>) and its timer task (\<^verbatim>\<open>session/lifecycle.rs\<close>).

  The state is the pair of the node's hub and the session's own cells, the record \<^verbatim>\<open>sys\<close>. An
  inbound frame is handled at once up to the task it spawns; the task is a value of \<^verbatim>\<open>task\<close>, and
  what it does when it ends (or, for a subscribe, at each attempt) is an operation of its own,
  since other tasks run in between. The server's side of a session, the router's settings and
  the packages it uses (tokio's queue, \<^verbatim>\<open>serde_json\<close>), is the record \<^verbatim>\<open>server\<close>. Times are milliseconds
  since the session was opened.
\<close>

definition MAX_INFLIGHT_CALLS :: nat where
  "MAX_INFLIGHT_CALLS = 512"

definition SUBSCRIBE_ATTEMPTS :: nat where
  "SUBSCRIBE_ATTEMPTS = 3"

definition MAX_CLIENT_ERROR_CHARS :: nat where
  "MAX_CLIENT_ERROR_CHARS = 256"

record ('tx, 'w) server =
  srv_config :: session_config
  srv_auth :: bool
  srv_on_error :: "error \<Rightarrow> error"
  srv_channels :: "string list"
  srv_queue :: "nat \<Rightarrow> 'w \<Rightarrow> 'tx \<times> 'w"
  srv_try_send :: "'tx \<Rightarrow> string \<Rightarrow> 'w \<Rightarrow> try_send_error option \<times> 'w"
  srv_encode :: "jvalue \<Rightarrow> string"
  srv_from_slice :: "string \<Rightarrow> jvalue option"

record ('tx, 'r) session =
  s_req :: 'r
  s_conn :: conn_id
  s_client :: nat
  s_tx :: 'tx
  s_inflight :: nat
  s_closer :: nat
  s_authenticated :: bool
  s_authenticating :: bool
  s_last_seen :: u64
  s_rate :: u64

record ('tx, 'w, 'r) sys =
  sy_hub :: "('tx, 'w) inner"
  sy :: "('tx, 'r) session"

text \<open>
  A call takes the request context when it is spawned; an authentication and a subscribe read it
  in their task.
\<close>

datatype 'r task =
    TCall u64 string jvalue 'r
  | TAuth u64 jvalue
  | TSubscribe u64 string jvalue

text \<open>The hub sees of a send whether it succeeded.\<close>

definition hub_send :: "('tx, 'w) server \<Rightarrow> ('tx, 'w) sender" where
  "hub_send srv tx frame w = (let (e, w) = srv_try_send srv tx frame w in (e = None, w))"

subsection \<open>The shared cells\<close>

definition sess_authenticate ::
  "('tx, 'w) server \<Rightarrow> 'r \<Rightarrow> identity \<Rightarrow> ('tx, 'w, 'r) sys \<Rightarrow> unit result \<times> ('tx, 'w, 'r) sys" where
  "sess_authenticate srv req idn y =
     (let limit = max_connections_per_user (srv_config srv)
      in case authenticate (hub_send srv) (sy_hub y) (s_conn (sy y)) idn limit of
           (Inl e, h) \<Rightarrow> (Inl e, y\<lparr>sy_hub := h\<rparr>)
         | (Inr _, h) \<Rightarrow>
             (Inr (), y\<lparr>sy_hub := h, sy := (sy y)\<lparr>s_req := req, s_authenticated := True\<rparr>\<rparr>))"

definition is_closed :: "('tx, 'w, 'r) sys \<Rightarrow> bool" where
  "is_closed y \<longleftrightarrow> closers (sy_hub y) (s_closer (sy y)) \<noteq> None"

definition sess_close :: "close_reason \<Rightarrow> ('tx, 'w, 'r) sys \<Rightarrow> ('tx, 'w, 'r) sys" where
  "sess_close reason y =
     (let h = close_conn (sy_hub y) (s_conn (sy y)) reason;
          h = signal_at h (s_closer (sy y)) reason;
          h = fail_pending_at h (s_client (sy y))
      in y\<lparr>sy_hub := h\<rparr>)"

definition touch :: "u64 \<Rightarrow> u64 \<Rightarrow> ('tx, 'r) session \<Rightarrow> bool \<times> ('tx, 'r) session" where
  "touch limit now s =
     (let s = s\<lparr>s_last_seen := now\<rparr>;
          second = now div 1000;
          window = s_rate s;
          s = s\<lparr>s_rate := window + 1\<rparr>
      in if drop_bit 32 window \<noteq> second
         then (True, s\<lparr>s_rate := push_bit 32 second OR 1\<rparr>)
         else (window AND mask 32 < limit, s))"

definition idle_for :: "u64 \<Rightarrow> ('tx, 'r) session \<Rightarrow> nat" where
  "idle_for now s = unat now - unat (s_last_seen s)"

definition send_now :: "('tx, 'w) server \<Rightarrow> string \<Rightarrow> ('tx, 'w, 'r) sys \<Rightarrow> ('tx, 'w, 'r) sys" where
  "send_now srv frame y =
     (let (e, w) = srv_try_send srv (s_tx (sy y)) frame (world (sy_hub y));
          y = y\<lparr>sy_hub := (sy_hub y)\<lparr>world := w\<rparr>\<rparr>
      in if e = Some Full then sess_close SlowConsumer y else y)"

definition result_value :: "u64 \<Rightarrow> jvalue result \<Rightarrow> jvalue" where
  "result_value i result =
     (case result of
        Inr d \<Rightarrow> json_object [(''kind'', JString ''result''), (''id'', jnum (unat i)),
                              (''status'', JString ''ok''), (''data'', d)]
      | Inl e \<Rightarrow> json_object [(''kind'', JString ''result''), (''id'', jnum (unat i)),
                              (''status'', JString ''error''),
                              (''error'', body_serialized (error_body_from e))])"

definition result_frame :: "('tx, 'w) server \<Rightarrow> u64 \<Rightarrow> jvalue result \<Rightarrow> string" where
  "result_frame srv i result = srv_encode srv (result_value i result)"

definition hooked :: "('tx, 'w) server \<Rightarrow> 'a result \<Rightarrow> 'a result" where
  "hooked srv result = (case result of Inl e \<Rightarrow> Inl (srv_on_error srv e) | Inr v \<Rightarrow> Inr v)"

definition reply_now :: "('tx, 'w) server \<Rightarrow> u64 \<Rightarrow> jvalue result \<Rightarrow> ('tx, 'w, 'r) sys \<Rightarrow> ('tx, 'w, 'r) sys" where
  "reply_now srv i result = send_now srv (result_frame srv i (hooked srv result))"

text \<open>Opening a session; the addresses of its client handle and closer are arguments.\<close>

definition session_new ::
  "('tx, 'w) server \<Rightarrow> 'r \<Rightarrow> nat \<Rightarrow> nat \<Rightarrow> ('tx, 'w) inner \<Rightarrow> ('tx, 'w, 'r) sys" where
  "session_new srv req client closer h =
     (let (tx, w) = srv_queue srv (max (outgoing_buffer (srv_config srv)) 1) (world h);
          h = h\<lparr>world := w, clients := (clients h)(client := Connected connected),
                closers := (closers h)(closer := None)\<rparr>;
          (conn, h) = register h tx client closer
      in \<lparr>sy_hub = h,
          sy = \<lparr>s_req = req, s_conn = conn, s_client = client, s_tx = tx,
                s_inflight = MAX_INFLIGHT_CALLS, s_closer = closer,
                s_authenticated = \<not> srv_auth srv, s_authenticating = False,
                s_last_seen = 0, s_rate = 0\<rparr>\<rparr>)"

text \<open>The adapter's own operations.\<close>

definition sess_subscribe :: "('tx, 'w) server \<Rightarrow> string \<Rightarrow> ('tx, 'w, 'r) sys \<Rightarrow> (u64 \<times> u64) result \<times> ('tx, 'w, 'r) sys" where
  "sess_subscribe srv topic y =
     (case subscribe (hub_send srv) (sy_hub y) (s_conn (sy y)) topic auto_request of
        (Inl e, h) \<Rightarrow> (Inl e, y\<lparr>sy_hub := h\<rparr>)
      | (Inr cur, h) \<Rightarrow> (Inr (epoch cur, seq cur), y\<lparr>sy_hub := h\<rparr>))"

definition sess_unsubscribe :: "string \<Rightarrow> ('tx, 'w, 'r) sys \<Rightarrow> bool \<times> ('tx, 'w, 'r) sys" where
  "sess_unsubscribe topic y =
     (let (was, h) = unsubscribe (sy_hub y) (s_conn (sy y)) topic in (was, y\<lparr>sy_hub := h\<rparr>))"

definition sess_drop :: "('tx, 'w, 'r) sys \<Rightarrow> ('tx, 'w, 'r) sys" where
  "sess_drop y =
     y\<lparr>sy_hub := fail_pending_at (remove_conn (sy_hub y) (s_conn (sy y))) (s_client (sy y))\<rparr>"

definition closed_reason :: "('tx, 'w, 'r) sys \<Rightarrow> close_reason option" where
  "closed_reason y = closers (sy_hub y) (s_closer (sy y))"

subsection \<open>Inbound frames\<close>

definition permit :: "('tx, 'w) server \<Rightarrow> u64 \<Rightarrow> ('tx, 'w, 'r) sys \<Rightarrow> bool \<times> ('tx, 'w, 'r) sys" where
  "permit srv i y =
     (if s_inflight (sy y) = 0
      then (False, reply_now srv i (Inl (new_error 429 ''too many in-flight requests'')) y)
      else (True, y\<lparr>sy := (sy y)\<lparr>s_inflight := s_inflight (sy y) - 1\<rparr>\<rparr>))"

definition release :: "('tx, 'w, 'r) sys \<Rightarrow> ('tx, 'w, 'r) sys" where
  "release y = y\<lparr>sy := (sy y)\<lparr>s_inflight := s_inflight (sy y) + 1\<rparr>\<rparr>"

definition str_field :: "string \<Rightarrow> jvalue \<Rightarrow> string" where
  "str_field k fr = (case Option.bind (jget fr k) as_str of Some s \<Rightarrow> s | None \<Rightarrow> [])"

definition val_field :: "string \<Rightarrow> jvalue \<Rightarrow> jvalue" where
  "val_field k fr = (case jget fr k of Some v \<Rightarrow> v | None \<Rightarrow> JNull)"

definition spawn_call ::
  "('tx, 'w) server \<Rightarrow> u64 \<Rightarrow> jvalue \<Rightarrow> ('tx, 'w, 'r) sys \<Rightarrow> 'r task list \<times> ('tx, 'w, 'r) sys" where
  "spawn_call srv i fr y =
     (case permit srv i y of
        (False, y) \<Rightarrow> ([], y)
      | (True, y) \<Rightarrow> ([TCall i (str_field ''action'' fr) (val_field ''params'' fr) (s_req (sy y))], y))"

definition set_authenticating :: "bool \<Rightarrow> ('tx, 'w, 'r) sys \<Rightarrow> ('tx, 'w, 'r) sys" where
  "set_authenticating b y = y\<lparr>sy := (sy y)\<lparr>s_authenticating := b\<rparr>\<rparr>"

definition spawn_auth ::
  "('tx, 'w) server \<Rightarrow> u64 \<Rightarrow> jvalue \<Rightarrow> ('tx, 'w, 'r) sys \<Rightarrow> 'r task list \<times> ('tx, 'w, 'r) sys" where
  "spawn_auth srv i fr y =
     (if \<not> srv_auth srv
      then ([], reply_now srv i (Inl (coded 404 ''not_found'' ''authentication is not configured'')) y)
      else
        let claimed = (\<not> s_authenticating (sy y));
            y = set_authenticating True y
        in if s_authenticated (sy y) \<or> \<not> claimed
           then
             let y = (if claimed then set_authenticating False y else y)
             in ([], reply_now srv i (Inl (coded 409 ''conflict'' ''session already authenticated'')) y)
           else
             case permit srv i y of
               (False, y) \<Rightarrow> ([], set_authenticating False y)
             | (True, y) \<Rightarrow> ([TAuth i (val_field ''params'' fr)], y))"

definition spawn_subscribe ::
  "('tx, 'w) server \<Rightarrow> u64 \<Rightarrow> jvalue \<Rightarrow> ('tx, 'w, 'r) sys \<Rightarrow> 'r task list \<times> ('tx, 'w, 'r) sys" where
  "spawn_subscribe srv i fr y =
     (let name = str_field ''channel'' fr
      in if name \<notin> set (srv_channels srv)
         then ([], reply_now srv i (Inl (coded 404 ''not_found'' ''unknown channel'')) y)
         else
           case permit srv i y of
             (False, y) \<Rightarrow> ([], y)
           | (True, y) \<Rightarrow> ([TSubscribe i name (val_field ''key'' fr)], y))"

text \<open>
  \<^verbatim>\<open>chars().take(n)\<close> on UTF-8 text: a byte that does not continue a character starts one.
\<close>

definition continues_char :: "char \<Rightarrow> bool" where
  "continues_char c \<longleftrightarrow> 128 \<le> (of_char c :: nat) \<and> (of_char c :: nat) < 192"

fun take_chars :: "nat \<Rightarrow> string \<Rightarrow> string" where
  "take_chars n [] = []"
| "take_chars n (c # cs) =
     (if continues_char c then c # take_chars n cs
      else case n of 0 \<Rightarrow> [] | Suc k \<Rightarrow> c # take_chars k cs)"

definition client_error :: "jvalue \<Rightarrow> error" where
  "client_error err =
     (let c = (case Option.bind (jget err ''code'') as_u64 of
                 Some cd \<Rightarrow> if unat cd < 2 ^ 16 \<and> 400 \<le> unat cd \<and> unat cd \<le> 599 then unat cd else 500
               | None \<Rightarrow> 500);
          msg = (case Option.bind (jget err ''message'') as_str of Some s \<Rightarrow> s | None \<Rightarrow> ''client error'')
      in new_error c (take_chars MAX_CLIENT_ERROR_CHARS msg))"

definition resolve_client :: "u64 \<Rightarrow> jvalue \<Rightarrow> ('tx, 'w, 'r) sys \<Rightarrow> ('tx, 'w, 'r) sys" where
  "resolve_client i fr y =
     (let result = (case jget fr ''error'' of Some e \<Rightarrow> Inl (client_error e) | None \<Rightarrow> Inr (val_field ''data'' fr));
          h = sy_hub y; a = s_client (sy y)
      in y\<lparr>sy_hub := h\<lparr>clients := (clients h)(a := resolve (clients h a) i result)\<rparr>\<rparr>)"

definition unauthorized :: error where
  "unauthorized = coded 401 ''unauthorized'' ''authenticate first''"

text \<open>The dispatch of \<^verbatim>\<open>handle\<close> on the frame's kind and id.\<close>

definition dispatch_frame ::
  "('tx, 'w) server \<Rightarrow> jvalue \<Rightarrow> ('tx, 'w, 'r) sys \<Rightarrow> 'r task list \<times> ('tx, 'w, 'r) sys" where
  "dispatch_frame srv fr y =
     (case (Option.bind (jget fr ''kind'') as_str, Option.bind (jget fr ''id'') as_u64) of
        (Some knd, Some i) \<Rightarrow>
          if knd = ''client_result'' then ([], resolve_client i fr y)
          else if knd = ''auth'' then spawn_auth srv i fr y
          else if knd \<in> {''call'', ''subscribe'', ''unsubscribe''} \<and> \<not> s_authenticated (sy y)
          then ([], reply_now srv i (Inl unauthorized) y)
          else if knd = ''call'' then spawn_call srv i fr y
          else if knd = ''subscribe'' then spawn_subscribe srv i fr y
          else if knd = ''unsubscribe'' then
            (let (was, y) = sess_unsubscribe (str_field ''topic'' fr) y
             in ([], reply_now srv i (Inr (JBool was)) y))
          else ([], y)
      | _ \<Rightarrow> ([], y))"

definition sess_handle ::
  "('tx, 'w) server \<Rightarrow> u64 \<Rightarrow> jvalue \<Rightarrow> ('tx, 'w, 'r) sys \<Rightarrow> 'r task list \<times> ('tx, 'w, 'r) sys" where
  "sess_handle srv now fr y =
     (if is_closed y then ([], y)
      else
        let (within, s) = touch (of_nat (max_frames_per_second (srv_config srv))) now (sy y);
            y = y\<lparr>sy := s\<rparr>
        in if \<not> within then ([], sess_close RateLimited y) else dispatch_frame srv fr y)"

definition handle_bytes ::
  "('tx, 'w) server \<Rightarrow> u64 \<Rightarrow> string \<Rightarrow> ('tx, 'w, 'r) sys \<Rightarrow> 'r task list \<times> ('tx, 'w, 'r) sys" where
  "handle_bytes srv now bytes y =
     (if length bytes > max_frame_bytes (srv_config srv) then ([], sess_close FrameTooLarge y)
      else
        case srv_from_slice srv bytes of
          Some fr \<Rightarrow> sess_handle srv now fr y
        | None \<Rightarrow> ([], y))"

subsection \<open>The tasks\<close>

text \<open>The frames a call's task sends, in order; \<^verbatim>\<open>None\<close> for an unknown action.\<close>

datatype call_outcome = Unary "jvalue result" | Items "jvalue result list" | UnknownAction

definition stream_item_value :: "u64 \<Rightarrow> jvalue \<Rightarrow> jvalue" where
  "stream_item_value i d =
     json_object [(''kind'', JString ''result''), (''id'', jnum (unat i)), (''status'', JString ''ok''),
                  (''data'', d), (''more'', JBool True)]"

fun item_values :: "('tx, 'w) server \<Rightarrow> u64 \<Rightarrow> jvalue result list \<Rightarrow> jvalue list" where
  "item_values srv i [] = [json_object [(''kind'', JString ''end''), (''id'', jnum (unat i))]]"
| "item_values srv i (Inr d # items) = stream_item_value i d # item_values srv i items"
| "item_values srv i (Inl e # items) = [result_value i (Inl (srv_on_error srv e))]"

definition call_values :: "('tx, 'w) server \<Rightarrow> u64 \<Rightarrow> string \<Rightarrow> call_outcome \<Rightarrow> jvalue list" where
  "call_values srv i name out =
     (case out of
        Unary result \<Rightarrow> [result_value i (hooked srv result)]
      | Items items \<Rightarrow> item_values srv i items
      | UnknownAction \<Rightarrow> [result_value i (Inl (srv_on_error srv (not_found name)))])"

text \<open>The end of an auth task, with what the hook returned.\<close>

definition auth_end ::
  "('tx, 'w) server \<Rightarrow> u64 \<Rightarrow> ('r \<times> identity) result outcome \<Rightarrow> ('tx, 'w, 'r) sys \<Rightarrow> ('tx, 'w, 'r) sys" where
  "auth_end srv i hook y =
     (let (out, y) =
            (case hook of
               Panicked p \<Rightarrow> (Inl (panicked p), y)
             | Returned (Inl e) \<Rightarrow> (Inl e, y)
             | Returned (Inr (req, idn)) \<Rightarrow> sess_authenticate srv req idn y);
          y = set_authenticating False y
      in release
           (case out of
              Inr _ \<Rightarrow> reply_now srv i (Inr JNull) y
            | Inl e \<Rightarrow>
                sess_close (if code e = 429 then TooManyConnections else Unauthorized)
                  (reply_now srv i (Inl e) y)))"

text \<open>
  The subscribe task: each attempt resolves the channel (which runs the application's
  authorization) and then subscribes. Between attempts, and while the channel resolves, other
  tasks run: \<^term>\<open>g\<close> is what they did to the state. The result is \<^verbatim>\<open>None\<close> while attempts are left to run.
\<close>

definition subscribe_request :: "('tx, 'w) server \<Rightarrow> u64 \<Rightarrow> string \<Rightarrow> u64 \<Rightarrow> subscribe_req" where
  "subscribe_request srv i topic mark =
     \<lparr>rq_explicit = True, rq_max = max_subscriptions (srv_config srv), rq_mark = Some mark,
      rq_ack = Some (\<lambda>cur. result_frame srv i
        (Inr (json_object [(''topic'', JString topic), (''epoch'', jnum (unat (epoch cur))),
                           (''seq'', jnum (unat (seq cur)))])))\<rparr>"

fun subscribe_loop ::
  "('tx, 'w) server \<Rightarrow> u64 \<Rightarrow> nat \<Rightarrow>
     ((('tx, 'w, 'r) sys \<Rightarrow> ('tx, 'w, 'r) sys) \<times> (string \<times> u64) result outcome) list \<Rightarrow>
     ('tx, 'w, 'r) sys \<Rightarrow> unit result option \<times> ('tx, 'w, 'r) sys" where
  "subscribe_loop srv i attempts [] y = (None, y)"
| "subscribe_loop srv i attempts ((g, resolved) # rest) y =
     (let y = g y; attempts = attempts + 1
      in case resolved of
           Panicked p \<Rightarrow> (Some (Inl (panicked p)), y)
         | Returned (Inl e) \<Rightarrow> (Some (Inl e), y)
         | Returned (Inr (topic, mark)) \<Rightarrow>
             (case subscribe (hub_send srv) (sy_hub y) (s_conn (sy y)) topic (subscribe_request srv i topic mark) of
                (Inr _, h) \<Rightarrow> (Some (Inr ()), y\<lparr>sy_hub := h\<rparr>)
              | (Inl e, h) \<Rightarrow>
                  if kind e = ''subscription_revoked'' \<and> attempts < SUBSCRIBE_ATTEMPTS
                  then subscribe_loop srv i attempts rest (y\<lparr>sy_hub := h\<rparr>)
                  else (Some (Inl e), y\<lparr>sy_hub := h\<rparr>)))"

definition subscribe_end :: "('tx, 'w) server \<Rightarrow> u64 \<Rightarrow> unit result \<Rightarrow> ('tx, 'w, 'r) sys \<Rightarrow> ('tx, 'w, 'r) sys" where
  "subscribe_end srv i out y =
     release (case out of Inl e \<Rightarrow> reply_now srv i (Inl e) y | Inr _ \<Rightarrow> y)"

subsection \<open>Timers\<close>

definition PING :: string where
  \<open>PING = ''{"kind":"ping"}''\<close>

definition auth_deadline :: "('tx, 'w, 'r) sys \<Rightarrow> ('tx, 'w, 'r) sys" where
  "auth_deadline y = (if \<not> s_authenticated (sy y) then sess_close AuthTimeout y else y)"

text \<open>The first tick comes after the heartbeat and a jitter of up to a tenth of it.\<close>

definition heartbeat_jitter :: "nat \<Rightarrow> nat \<Rightarrow> nat" where
  "heartbeat_jitter beat hash = hash mod max (beat div 10) 1"

text \<open>One tick; the result says whether the timer goes on.\<close>

definition tick :: "('tx, 'w) server \<Rightarrow> u64 \<Rightarrow> ('tx, 'w, 'r) sys \<Rightarrow> bool \<times> ('tx, 'w, 'r) sys" where
  "tick srv now y =
     (if is_closed y then (False, y)
      else if idle_for now (sy y) \<ge> idle_timeout (srv_config srv) then (False, sess_close Idle y)
      else (True, send_now srv PING y))"

end
