(* ===== verification/SessionProps.thy ===== *)
theory SessionProps
  imports Session HubReach
begin

text \<open>
  What a session promises: its tasks are bounded and never run before authentication, one
  authentication runs at a time, the hub stays within its state machine whatever sessions do,
  frames are limited per second, a subscribe ends after three attempts, a close is final, and
  what a client reports as an error is bounded.
\<close>

subsection \<open>Closing and sending\<close>

lemma sess_close_sy [simp]: "sy (sess_close reason y) = sy y"
  by (simp add: sess_close_def Let_def)

lemma send_now_sy [simp]: "sy (send_now srv frame y) = sy y"
  by (simp add: send_now_def Let_def split: prod.splits)

lemma reply_now_sy [simp]: "sy (reply_now srv i result y) = sy y"
  by (simp add: reply_now_def)

lemma set_authenticating_sy [simp]: "sy (set_authenticating b y) = (sy y)\<lparr>s_authenticating := b\<rparr>"
  by (simp add: set_authenticating_def)

lemma touch_cells [simp]:
  "s_inflight (snd (touch limit now s)) = s_inflight s"
  "s_authenticated (snd (touch limit now s)) = s_authenticated s"
  "s_authenticating (snd (touch limit now s)) = s_authenticating s"
  "s_conn (snd (touch limit now s)) = s_conn s"
  by (simp_all add: touch_def Let_def)

subsection \<open>Sessions as a state machine\<close>

record ('tx, 'w, 'r) srun =
  run_sys :: "('tx, 'w, 'r) sys"
  run_tasks :: "'r task list"

fun is_auth_task :: "'r task \<Rightarrow> bool" where
  "is_auth_task (TAuth _ _) = True"
| "is_auth_task _ = False"

text \<open>
  The steps of one session: inbound frames, the ends of its tasks, the attempts of a subscribe,
  the timers, the adapter's own operations, and any block of the hub run on behalf of others.
\<close>

inductive sess_step :: "('tx, 'w) server \<Rightarrow> ('tx, 'w, 'r) srun \<Rightarrow> ('tx, 'w, 'r) srun \<Rightarrow> bool"
  for srv :: "('tx, 'w) server" where
  in_frame: "sess_handle srv now fr y = (ts, y') \<Longrightarrow>
     sess_step srv \<lparr>run_sys = y, run_tasks = rt\<rparr> \<lparr>run_sys = y', run_tasks = rt @ ts\<rparr>"
| in_bytes: "handle_bytes srv now bytes y = (ts, y') \<Longrightarrow>
     sess_step srv \<lparr>run_sys = y, run_tasks = rt\<rparr> \<lparr>run_sys = y', run_tasks = rt @ ts\<rparr>"
| auth_done: "TAuth i p \<in> set rt \<Longrightarrow>
     sess_step srv \<lparr>run_sys = y, run_tasks = rt\<rparr>
       \<lparr>run_sys = auth_end srv i hook y, run_tasks = remove1 (TAuth i p) rt\<rparr>"
| call_done: "TCall i name p req \<in> set rt \<Longrightarrow>
     sess_step srv \<lparr>run_sys = y, run_tasks = rt\<rparr>
       \<lparr>run_sys = release y, run_tasks = remove1 (TCall i name p req) rt\<rparr>"
| sub_try: "TSubscribe i name p \<in> set rt \<Longrightarrow>
     sess_step srv \<lparr>run_sys = y, run_tasks = rt\<rparr>
       \<lparr>run_sys = y\<lparr>sy_hub := snd (subscribe (hub_send srv) (sy_hub y) (s_conn (sy y)) topic
                              (subscribe_request srv i topic mark))\<rparr>, run_tasks = rt\<rparr>"
| sub_done: "TSubscribe i name p \<in> set rt \<Longrightarrow>
     sess_step srv \<lparr>run_sys = y, run_tasks = rt\<rparr>
       \<lparr>run_sys = subscribe_end srv i out y, run_tasks = remove1 (TSubscribe i name p) rt\<rparr>"
| deadline: "sess_step srv \<lparr>run_sys = y, run_tasks = rt\<rparr> \<lparr>run_sys = auth_deadline y, run_tasks = rt\<rparr>"
| ticked: "sess_step srv \<lparr>run_sys = y, run_tasks = rt\<rparr> \<lparr>run_sys = snd (tick srv now y), run_tasks = rt\<rparr>"
| adapter_auth: "sess_step srv \<lparr>run_sys = y, run_tasks = rt\<rparr>
     \<lparr>run_sys = snd (sess_authenticate srv req idn y), run_tasks = rt\<rparr>"
| adapter_sub: "sess_step srv \<lparr>run_sys = y, run_tasks = rt\<rparr>
     \<lparr>run_sys = snd (sess_subscribe srv topic y), run_tasks = rt\<rparr>"
| adapter_unsub: "sess_step srv \<lparr>run_sys = y, run_tasks = rt\<rparr>
     \<lparr>run_sys = snd (sess_unsubscribe topic y), run_tasks = rt\<rparr>"
| others: "hub_step (srv_config srv) (hub_send srv) (sy_hub y) h \<Longrightarrow>
     sess_step srv \<lparr>run_sys = y, run_tasks = rt\<rparr> \<lparr>run_sys = y\<lparr>sy_hub := h\<rparr>, run_tasks = rt\<rparr>"

definition sess_reachable :: "('tx, 'w) server \<Rightarrow> ('tx, 'w, 'r) srun \<Rightarrow> bool" where
  "sess_reachable srv r \<longleftrightarrow>
     (\<exists>h req client closer. hub_reachable (srv_config srv) (hub_send srv) h \<and> next_conn h + 1 \<noteq> 0 \<and>
        (sess_step srv)\<^sup>*\<^sup>* \<lparr>run_sys = session_new srv req client closer h, run_tasks = []\<rparr> r)"

subsection \<open>The session's own cells\<close>

definition tasks_ok :: "('tx, 'r) session \<Rightarrow> 'r task list \<Rightarrow> bool" where
  "tasks_ok s rt \<longleftrightarrow>
     s_inflight s + length rt = MAX_INFLIGHT_CALLS \<and>
     length (filter is_auth_task rt) = of_bool (s_authenticating s) \<and>
     (\<not> s_authenticated s \<longrightarrow> list_all is_auth_task rt)"

lemma permit_cells:
  "permit srv i y = (b, y') \<Longrightarrow>
     (if b then s_inflight (sy y) = Suc (s_inflight (sy y')) else s_inflight (sy y') = s_inflight (sy y)) \<and>
     s_authenticated (sy y') = s_authenticated (sy y) \<and> s_authenticating (sy y') = s_authenticating (sy y)"
  by (auto simp: permit_def split: if_splits)

lemma spawn_auth_tasks:
  "spawn_auth srv i fr y = (ts, y') \<Longrightarrow> tasks_ok (sy y) rt \<Longrightarrow> tasks_ok (sy y') (rt @ ts)"
  by (auto simp: spawn_auth_def Let_def tasks_ok_def split: if_splits prod.splits bool.splits dest!: permit_cells)

lemma spawn_call_tasks:
  "spawn_call srv i fr y = (ts, y') \<Longrightarrow> tasks_ok (sy y) rt \<Longrightarrow> s_authenticated (sy y) \<Longrightarrow> tasks_ok (sy y') (rt @ ts)"
  by (auto simp: spawn_call_def tasks_ok_def split: prod.splits bool.splits dest!: permit_cells)

lemma spawn_subscribe_tasks:
  "spawn_subscribe srv i fr y = (ts, y') \<Longrightarrow> tasks_ok (sy y) rt \<Longrightarrow> s_authenticated (sy y) \<Longrightarrow> tasks_ok (sy y') (rt @ ts)"
  by (auto simp: spawn_subscribe_def Let_def tasks_ok_def split: if_splits prod.splits bool.splits dest!: permit_cells)

lemma dispatch_frame_tasks:
  assumes "dispatch_frame srv fr y = (ts, y')" and "tasks_ok (sy y) rt"
  shows "tasks_ok (sy y') (rt @ ts)"
  using assms
  by (auto simp: dispatch_frame_def resolve_client_def sess_unsubscribe_def Let_def
      split: option.splits if_splits prod.splits
      intro: spawn_auth_tasks spawn_call_tasks spawn_subscribe_tasks)


lemma sess_handle_tasks:
  assumes "sess_handle srv now fr y = (ts, y')" and "tasks_ok (sy y) rt"
  shows "tasks_ok (sy y') (rt @ ts)"
proof (cases "is_closed y")
  case True
  with assms show ?thesis by (simp add: sess_handle_def)
next
  case False
  obtain within s where t: "touch (of_nat (max_frames_per_second (srv_config srv))) now (sy y) = (within, s)"
    by fastforce
  then have ok: "tasks_ok s rt"
    using assms(2) touch_cells [of "of_nat (max_frames_per_second (srv_config srv))" now "sy y"]
    by (simp add: tasks_ok_def)
  with assms(1) False t show ?thesis
    by (auto simp: sess_handle_def Let_def split: if_splits intro: dispatch_frame_tasks)
qed

lemma handle_bytes_tasks:
  assumes "handle_bytes srv now bytes y = (ts, y')" and "tasks_ok (sy y) rt"
  shows "tasks_ok (sy y') (rt @ ts)"
  using assms by (auto simp: handle_bytes_def split: if_splits option.splits intro: sess_handle_tasks)

lemma sess_authenticate_cells:
  "sess_authenticate srv req idn y = (r, y') \<Longrightarrow>
     s_inflight (sy y') = s_inflight (sy y) \<and> s_authenticating (sy y') = s_authenticating (sy y) \<and>
     (s_authenticated (sy y) \<longrightarrow> s_authenticated (sy y'))"
  by (auto simp: sess_authenticate_def Let_def split: prod.splits sum.splits)

lemma auth_end_cells:
  "s_inflight (sy (auth_end srv i hook y)) = Suc (s_inflight (sy y))"
  "\<not> s_authenticating (sy (auth_end srv i hook y))"
  "s_authenticated (sy y) \<Longrightarrow> s_authenticated (sy (auth_end srv i hook y))"
  by (auto simp: auth_end_def release_def Let_def split: prod.splits sum.splits outcome.splits
      dest!: sess_authenticate_cells)

lemma remove1_counts:
  "x \<in> set xs \<Longrightarrow> Suc (length (remove1 x xs)) = length xs"
  "x \<in> set xs \<Longrightarrow> P x \<Longrightarrow> Suc (length (filter P (remove1 x xs))) = length (filter P xs)"
  "\<not> P x \<Longrightarrow> length (filter P (remove1 x xs)) = length (filter P xs)"
  "list_all P xs \<Longrightarrow> list_all P (remove1 x xs)"
  by (induction xs) (auto simp: list_all_iff)

lemma tasks_ok_remove:
  assumes "tasks_ok s rt" and "x \<in> set rt" and "\<not> is_auth_task x"
    and "s_inflight s' = Suc (s_inflight s)" and "s_authenticating s' = s_authenticating s"
    and "s_authenticated s \<longrightarrow> s_authenticated s'"
  shows "tasks_ok s' (remove1 x rt)"
  using assms remove1_counts(1) [OF assms(2)] remove1_counts(3) [of is_auth_task x rt] remove1_counts(4) [of is_auth_task rt x]
  by (auto simp: tasks_ok_def)

lemma tasks_ok_auth_done:
  assumes "tasks_ok s rt" and "x \<in> set rt" and "is_auth_task x"
    and "s_inflight s' = Suc (s_inflight s)" and "\<not> s_authenticating s'"
    and "s_authenticated s \<longrightarrow> s_authenticated s'"
  shows "tasks_ok s' (remove1 x rt)"
  using assms remove1_counts(1) [OF assms(2)] remove1_counts(2) [OF assms(2), of is_auth_task] remove1_counts(4) [of is_auth_task rt x]
  by (cases "s_authenticating s") (auto simp: tasks_ok_def)

lemma sess_step_tasks:
  "sess_step srv r r' \<Longrightarrow> tasks_ok (sy (run_sys r)) (run_tasks r) \<Longrightarrow> tasks_ok (sy (run_sys r')) (run_tasks r')"
proof (induction rule: sess_step.induct)
  case (auth_done i p rt y hook)
  then show ?case by (auto intro!: tasks_ok_auth_done [of "sy y"] simp: auth_end_cells)
next
  case (call_done i name p req rt y)
  then show ?case by (auto intro!: tasks_ok_remove [of "sy y"] simp: release_def)
next
  case (sub_done i name p rt y out)
  then show ?case by (auto intro!: tasks_ok_remove [of "sy y"] simp: subscribe_end_def release_def split: sum.splits)
next
  case (adapter_auth y rt req idn)
  obtain r y' where "sess_authenticate srv req idn y = (r, y')" by fastforce
  with sess_authenticate_cells [OF this] adapter_auth show ?case by (auto simp: tasks_ok_def)
next
  case (adapter_sub y rt topic)
  then show ?case by (auto simp: sess_subscribe_def split: prod.splits sum.splits)
next
  case (adapter_unsub y rt topic)
  then show ?case by (auto simp: sess_unsubscribe_def split: prod.splits)
qed (auto simp: auth_deadline_def tick_def intro: sess_handle_tasks handle_bytes_tasks)


subsection \<open>The hub under sessions\<close>

abbreviation hub_steps :: "('tx, 'w) server \<Rightarrow> ('tx, 'w) inner \<Rightarrow> ('tx, 'w) inner \<Rightarrow> bool" where
  "hub_steps srv \<equiv> (hub_step (srv_config srv) (hub_send srv))\<^sup>*\<^sup>*"

lemma clients_after: "hub_steps srv h h1 \<Longrightarrow> hub_steps srv h (h1\<lparr>clients := cl\<rparr>)"
  by (erule rtranclp_trans, rule one_step, rule step_clients)

lemma closers_after: "hub_steps srv h h1 \<Longrightarrow> hub_steps srv h (h1\<lparr>closers := co\<rparr>)"
  by (erule rtranclp_trans, rule one_step, rule step_closers)

lemma sess_close_after: "hub_steps srv h (sy_hub y) \<Longrightarrow> hub_steps srv h (sy_hub (sess_close reason y))"
proof -
  assume "hub_steps srv h (sy_hub y)"
  then have "hub_steps srv h (close_conn (sy_hub y) (s_conn (sy y)) reason)"
    by (rule rtranclp.rtrancl_into_rtrancl) (rule step_close)
  then show ?thesis
    by (simp add: sess_close_def Let_def signal_at_def fail_pending_at_def clients_after closers_after)
qed

lemma send_now_after: "hub_steps srv h (sy_hub y) \<Longrightarrow> hub_steps srv h (sy_hub (send_now srv frame y))"
  by (auto simp: send_now_def Let_def world_after intro!: sess_close_after split: prod.splits)

lemma reply_now_after: "hub_steps srv h (sy_hub y) \<Longrightarrow> hub_steps srv h (sy_hub (reply_now srv i result y))"
  by (simp add: reply_now_def send_now_after)

lemma permit_after: "hub_steps srv h (sy_hub y) \<Longrightarrow> hub_steps srv h (sy_hub (snd (permit srv i y)))"
  by (simp add: permit_def reply_now_after)

lemma permit_after': "permit srv i y = (b, y') \<Longrightarrow> hub_steps srv h (sy_hub y) \<Longrightarrow> hub_steps srv h (sy_hub y')"
  using permit_after [of srv h y i] by simp

lemma set_authenticating_hub [simp]: "sy_hub (set_authenticating b y) = sy_hub y"
  by (simp add: set_authenticating_def)

lemma release_hub [simp]: "sy_hub (release y) = sy_hub y"
  by (simp add: release_def)

named_theorems session_after

lemmas [session_after] = sess_close_after send_now_after reply_now_after world_after clients_after closers_after

lemma spawns_after [session_after]:
  assumes "hub_steps srv h (sy_hub y)"
  shows "hub_steps srv h (sy_hub (snd (spawn_call srv i fr y)))"
    and "hub_steps srv h (sy_hub (snd (spawn_auth srv i fr y)))"
    and "hub_steps srv h (sy_hub (snd (spawn_subscribe srv i fr y)))"
  using assms
  by (auto simp: spawn_call_def spawn_auth_def spawn_subscribe_def Let_def reply_now_after
      split: prod.splits bool.splits dest: permit_after')

lemma subscribe_after [session_after]:
  assumes "hub_steps srv h h1" and "rq_explicit rq \<longrightarrow> rq_max rq = max_subscriptions (srv_config srv)"
  shows "hub_steps srv h (snd (subscribe (hub_send srv) h1 cid topic rq))"
proof -
  have "hub_steps srv h1 (snd (subscribe (hub_send srv) h1 cid topic rq))"
    using one_step [OF step_subscribe [OF assms(2), of _ "hub_send srv" h1 cid topic]]
    by (auto simp: subscribe_def split: prod.splits intro!: close_all_after)
  with assms(1) show ?thesis by (rule rtranclp_trans)
qed

lemma unsubscribe_after [session_after]:
  "hub_steps srv h h1 \<Longrightarrow> hub_steps srv h (snd (unsubscribe h1 cid topic))"
  by (erule rtranclp.rtrancl_into_rtrancl) (rule step_unsubscribe)

lemma sess_authenticate_after [session_after]:
  assumes "hub_steps srv h (sy_hub y)"
  shows "hub_steps srv h (sy_hub (snd (sess_authenticate srv req idn y)))"
proof -
  let ?r = "authenticate (hub_send srv) (sy_hub y) (s_conn (sy y)) idn (max_connections_per_user (srv_config srv))"
  have "hub_steps srv h (snd ?r)"
    using assms by (rule rtranclp.rtrancl_into_rtrancl) (rule step_authenticate)
  moreover have "sy_hub (snd (sess_authenticate srv req idn y)) = snd ?r"
    by (simp add: sess_authenticate_def Let_def split: prod.splits sum.splits)
  ultimately show ?thesis by simp
qed

lemma sess_unsubscribe_hub:
  "sy_hub (snd (sess_unsubscribe topic y)) = snd (unsubscribe (sy_hub y) (s_conn (sy y)) topic)"
  by (simp add: sess_unsubscribe_def split: prod.splits)

lemma dispatch_frame_after [session_after]:
  assumes "hub_steps srv h (sy_hub y)"
  shows "hub_steps srv h (sy_hub (snd (dispatch_frame srv fr y)))"
proof -
  have "hub_steps srv h (sy_hub (snd (sess_unsubscribe topic y)))" for topic
    by (simp add: sess_unsubscribe_hub unsubscribe_after [OF assms])
  then have unsub: "sess_unsubscribe topic y = (was, y') \<Longrightarrow> hub_steps srv h (sy_hub y')" for topic was y'
    by (metis snd_conv)
  show ?thesis
    using assms
    by (auto simp: dispatch_frame_def resolve_client_def Let_def session_after intro: unsub
        split: option.splits prod.splits intro!: reply_now_after)
qed

lemma sess_handle_after [session_after]:
  assumes "hub_steps srv h (sy_hub y)"
  shows "hub_steps srv h (sy_hub (snd (sess_handle srv now fr y)))"
  using assms by (auto simp: sess_handle_def Let_def session_after split: prod.splits)

lemma auth_end_after [session_after]:
  assumes "hub_steps srv h (sy_hub y)"
  shows "hub_steps srv h (sy_hub (auth_end srv i hook y))"
proof -
  have "hub_steps srv h (sy_hub y')" if "sess_authenticate srv req idn y = (r, y')" for req idn r y'
    using sess_authenticate_after [OF assms, of req idn] that by simp
  with assms show ?thesis
    by (auto simp: auth_end_def Let_def session_after split: prod.splits sum.splits outcome.splits)
qed

lemma sess_step_hub:
  "sess_step srv r r' \<Longrightarrow> hub_steps srv (sy_hub (run_sys r)) (sy_hub (run_sys r'))"
proof (induction rule: sess_step.induct)
  case (in_frame now fr y ts y' rt)
  with sess_handle_after [of srv "sy_hub y" y now fr] show ?case by simp
next
  case (in_bytes now bytes y ts y' rt)
  then have "snd (handle_bytes srv now bytes y) = y'" by simp
  moreover have "hub_steps srv (sy_hub y) (sy_hub (snd (handle_bytes srv now bytes y)))"
    by (auto simp: handle_bytes_def session_after split: option.splits)
  ultimately show ?case by simp
next
  case (sub_try i name p rt y topic mark)
  show ?case by (simp add: subscribe_after subscribe_request_def)
next
  case (adapter_sub y rt topic)
  have "sy_hub (snd (sess_subscribe srv topic y)) =
      snd (subscribe (hub_send srv) (sy_hub y) (s_conn (sy y)) topic auto_request)"
    by (simp add: sess_subscribe_def split: prod.splits sum.splits)
  then show ?case by (simp add: subscribe_after auto_request_def)
next
  case (adapter_unsub y rt topic)
  show ?case by (simp add: sess_unsubscribe_hub unsubscribe_after)
qed (auto simp: session_after subscribe_end_def auth_deadline_def tick_def split: sum.splits)


lemma session_new_hub:
  assumes "hub_reachable (srv_config srv) (hub_send srv) h" and "next_conn h + 1 \<noteq> 0"
  shows "hub_reachable (srv_config srv) (hub_send srv) (sy_hub (session_new srv req client closer h))"
proof -
  obtain tx w where q: "srv_queue srv (max (outgoing_buffer (srv_config srv)) 1) (world h) = (tx, w)"
    by fastforce
  let ?h = "h\<lparr>world := w, clients := (clients h)(client := Connected connected), closers := (closers h)(closer := None)\<rparr>"
  have "hub_reachable (srv_config srv) (hub_send srv) ?h"
  proof -
    have "hub_step (srv_config srv) (hub_send srv) h (h\<lparr>world := w\<rparr>)" by (rule step_world) simp
    from reachable_step [OF reachable_step [OF reachable_step [OF assms(1) this] step_clients] step_closers]
    show ?thesis by simp
  qed
  moreover have "hub_step (srv_config srv) (hub_send srv) ?h (snd (register ?h tx client closer))"
    using assms(2) by (intro step_register) simp
  ultimately have "hub_reachable (srv_config srv) (hub_send srv) (snd (register ?h tx client closer))"
    by (rule reachable_step)
  then show ?thesis using q by (simp add: session_new_def case_prod_beta Let_def)
qed

lemma session_new_tasks: "tasks_ok (sy (session_new srv req client closer h)) []"
  by (simp add: session_new_def tasks_ok_def split: prod.splits)

text \<open>C13: Sessions. In every reachable state of a session, under any interleaving of inbound frames, task
  ends, timers, the adapter's calls and other sessions' work on the hub: the running tasks and the
  free slots add up to 512; at most one authentication runs, exactly when the flag is set; before
  the session is authenticated no call and no subscribe runs; and the hub is in a reachable state
  of its own, so everything proved of the hub holds under sessions.\<close>

theorem session_invariant:
  assumes "sess_reachable srv r"
  shows "s_inflight (sy (run_sys r)) + length (run_tasks r) = MAX_INFLIGHT_CALLS
    \<and> length (filter is_auth_task (run_tasks r)) = of_bool (s_authenticating (sy (run_sys r)))
    \<and> (\<not> s_authenticated (sy (run_sys r)) \<longrightarrow> list_all is_auth_task (run_tasks r))
    \<and> hub_reachable (srv_config srv) (hub_send srv) (sy_hub (run_sys r))"
proof -
  from assms obtain h req client closer where h: "hub_reachable (srv_config srv) (hub_send srv) h" "next_conn h + 1 \<noteq> 0"
    and steps: "(sess_step srv)\<^sup>*\<^sup>* \<lparr>run_sys = session_new srv req client closer h, run_tasks = []\<rparr> r"
    by (auto simp: sess_reachable_def)
  from steps have "tasks_ok (sy (run_sys r)) (run_tasks r) \<and>
      hub_reachable (srv_config srv) (hub_send srv) (sy_hub (run_sys r))"
  proof (induction rule: rtranclp_induct)
    case base
    then show ?case by (simp add: session_new_tasks session_new_hub [OF h])
  next
    case (step r1 r2)
    then show ?case
      using sess_step_tasks sess_step_hub [OF step(2)] unfolding hub_reachable_def by (meson rtranclp_trans)
  qed
  then show ?thesis by (simp add: tasks_ok_def)
qed

definition ex_srv :: "(nat, string list) server" where
  "ex_srv = \<lparr>srv_config = default_session_config, srv_auth = True, srv_on_error = id, srv_channels = [''room''],
     srv_queue = (\<lambda>n w. (0, w)), srv_try_send = (\<lambda>tx m w. (None, w @ [m])), srv_encode = (\<lambda>v. ''x''),
     srv_from_slice = (\<lambda>_. None)\<rparr>"

definition ex_bus :: "(nat, string list) inner" where
  "ex_bus = inner_new \<lparr>br_subscribe = (\<lambda>_ w. w), br_unsubscribe = (\<lambda>_ w. w), br_validate = (\<lambda>_ _. Inr ()),
     br_publish = (\<lambda>_ _ w. (Inr (), w))\<rparr> [] (\<lambda>_. 0) 0"

definition ex_sys :: "(nat, string list, unit) sys" where
  "ex_sys = session_new ex_srv () 0 0 ex_bus"

definition ex_auth_frame :: jvalue where
  "ex_auth_frame = JObject [(''kind'', JString ''auth''), (''id'', jnum 1)]"

lemma ex_sess_reachable:
  "sess_reachable ex_srv \<lparr>run_sys = snd (sess_handle ex_srv 0 ex_auth_frame ex_sys),
     run_tasks = fst (sess_handle ex_srv 0 ex_auth_frame ex_sys)\<rparr>"
proof -
  have "sess_step ex_srv \<lparr>run_sys = ex_sys, run_tasks = []\<rparr>
      \<lparr>run_sys = snd (sess_handle ex_srv 0 ex_auth_frame ex_sys),
       run_tasks = [] @ fst (sess_handle ex_srv 0 ex_auth_frame ex_sys)\<rparr>"
    by (rule in_frame) simp
  then have "(sess_step ex_srv)\<^sup>*\<^sup>* \<lparr>run_sys = session_new ex_srv () 0 0 ex_bus, run_tasks = []\<rparr>
      \<lparr>run_sys = snd (sess_handle ex_srv 0 ex_auth_frame ex_sys),
       run_tasks = fst (sess_handle ex_srv 0 ex_auth_frame ex_sys)\<rparr>"
    by (simp add: ex_sys_def r_into_rtranclp)
  moreover have "hub_reachable (srv_config ex_srv) (hub_send ex_srv) ex_bus"
    unfolding ex_bus_def by (rule reachable_start)
  moreover have "next_conn ex_bus + 1 \<noteq> 0" by (simp add: ex_bus_def inner_new_def)
  ultimately show ?thesis unfolding sess_reachable_def by blast
qed


lemma ex_auth_handled: "fst (sess_handle ex_srv 0 ex_auth_frame ex_sys) = [TAuth 1 JNull]"
proof -
  have open_: "\<not> is_closed ex_sys"
    by (simp add: ex_sys_def ex_bus_def is_closed_def session_new_def ex_srv_def register_def inner_new_def
        put_conn_def set_by_id_def Let_def)
  have cells: "sy ex_sys = \<lparr>s_req = (), s_conn = 1, s_client = 0, s_tx = 0, s_inflight = MAX_INFLIGHT_CALLS,
      s_closer = 0, s_authenticated = False, s_authenticating = False, s_last_seen = 0, s_rate = 0\<rparr>"
    by (simp add: ex_sys_def ex_bus_def session_new_def ex_srv_def register_def inner_new_def Let_def)
  have t: "touch (of_nat (max_frames_per_second (srv_config ex_srv))) 0 (sy ex_sys) =
      (True, (sy ex_sys)\<lparr>s_rate := 1\<rparr>)"
    by (simp add: cells touch_def ex_srv_def default_session_config_def)
  have "as_u64 (jnum 1) = Some 1" using as_u64_jnum [of 1] by simp
  then show ?thesis
    using open_ t cells
    by (simp add: sess_handle_def dispatch_frame_def ex_auth_frame_def spawn_auth_def permit_def val_field_def
        set_authenticating_def ex_srv_def MAX_INFLIGHT_CALLS_def Let_def)
qed

theorem session_invariant_witness:
  "length (fst (sess_handle ex_srv 0 ex_auth_frame ex_sys)) = 1
   \<and> s_inflight (sy (snd (sess_handle ex_srv 0 ex_auth_frame ex_sys))) + 1 = MAX_INFLIGHT_CALLS"
  using session_invariant [OF ex_sess_reachable] by (simp add: ex_auth_handled)


subsection \<open>The frame budget\<close>

fun touches :: "u64 \<Rightarrow> u64 list \<Rightarrow> ('tx, 'r) session \<Rightarrow> bool list" where
  "touches limit [] s = []"
| "touches limit (now # nows) s = (let (ok, s) = touch limit now s in ok # touches limit nows s)"

lemma window_unat:
  fixes sec :: u64
  assumes "unat sec < 2 ^ 32" and "k < 2 ^ 32"
  shows "unat (push_bit 32 sec + of_nat k) = unat sec * 2 ^ 32 + k"
proof -
  have "unat sec * 2 ^ 32 + k < 2 ^ 64" using assms by simp
  moreover have "unat (push_bit 32 sec) = unat sec * 2 ^ 32"
    using assms(1) unfolding unsigned_push_bit_eq by (simp add: push_bit_eq_mult take_bit_eq_mod)
  moreover have "unat (of_nat k :: u64) = k" using assms(2) by (simp add: unat_of_nat)
  ultimately show ?thesis by (simp add: unat_word_ariths)
qed

lemma window_parts:
  fixes sec :: u64
  assumes "unat sec < 2 ^ 32" and "k < 2 ^ 32"
  shows "drop_bit 32 (push_bit 32 sec + of_nat k) = sec"
    and "(push_bit 32 sec + of_nat k) AND mask 32 = of_nat k"
proof -
  show "drop_bit 32 (push_bit 32 sec + of_nat k) = sec"
  proof (rule unsigned_word_eqI)
    show "unat (drop_bit 32 (push_bit 32 sec + of_nat k)) = unat sec"
      unfolding unat_drop_bit_eq window_unat [OF assms] using assms(2) by (simp add: drop_bit_eq_div)
  qed
  show "(push_bit 32 sec + of_nat k) AND mask 32 = of_nat k"
    unfolding take_bit_eq_mask [symmetric]
  proof (rule unsigned_word_eqI)
    show "unat (take_bit 32 (push_bit 32 sec + of_nat k)) = unat (of_nat k :: u64)"
      unfolding unsigned_take_bit_eq window_unat [OF assms] using assms(2) by (simp add: take_bit_eq_mod unat_of_nat)
  qed
qed

lemma touches_window:
  assumes "unat sec < 2 ^ 32" and "\<forall>now \<in> set nows. now div 1000 = sec"
    and "s_rate s = push_bit 32 sec + of_nat k" and "k + length nows < 2 ^ 32"
  shows "touches limit nows s = map (\<lambda>i. k + i < unat limit) [0..<length nows]"
  using assms(2-4)
proof (induction nows arbitrary: s k)
  case Nil
  then show ?case by simp
next
  case (Cons now nows)
  have k: "k < 2 ^ 32" using Cons.prems(3) by simp
  note parts = window_parts [OF assms(1) k]
  obtain s' where t: "touch limit now s = (of_nat k < limit, s')" and rate: "s_rate s' = push_bit 32 sec + of_nat (Suc k)"
    using Cons.prems(1) by (simp add: touch_def parts Let_def Cons.prems(2) algebra_simps parts [unfolded add.commute [of "push_bit 32 sec"]])
  have lt: "(of_nat k < limit) = (k < unat limit)"
    using k by (simp add: word_less_nat_alt unat_of_nat)
  have "map (\<lambda>i. k + i < unat limit) [0..<length (now # nows)] =
      (k < unat limit) # map (\<lambda>i. Suc k + i < unat limit) [0..<length nows]"
    by (simp add: upt_conv_Cons map_Suc_upt [symmetric] del: upt_Suc)
  with Cons.IH [OF _ rate] Cons.prems show ?case by (simp add: t lt)
qed

text \<open>The frame budget. When a new second begins, its frames pass until the limit of frames per
  second is used up and no longer; the first frame always passes, also with a limit of zero.\<close>

theorem frame_budget:
  assumes "\<forall>now \<in> set nows. now div 1000 = sec" and "unat sec < 2 ^ 32" and "length nows < 2 ^ 32"
    and "drop_bit 32 (s_rate s) \<noteq> sec"
  shows "touches limit nows s = map (\<lambda>i. i < max 1 (unat limit)) [0..<length nows]"
proof (cases nows)
  case Nil
  then show ?thesis by simp
next
  case (Cons now rest)
  have "push_bit 32 sec OR 1 = push_bit 32 sec + (1 :: u64)"
    by (simp add: or_one_eq even_push_bit_iff)
  then obtain s' where t: "touch limit now s = (True, s')" "s_rate s' = push_bit 32 sec + of_nat 1"
    using assms(1,4) by (simp add: Cons touch_def Let_def)
  have "touches limit rest s' = map (\<lambda>i. 1 + i < unat limit) [0..<length rest]"
    using assms(1-3) by (intro touches_window [OF assms(2) _ t(2)]) (simp_all add: Cons)
  moreover have "map (\<lambda>i. i < max 1 (unat limit)) [0..<length nows] =
      True # map (\<lambda>i. 1 + i < unat limit) [0..<length rest]"
    by (simp add: Cons upt_conv_Cons map_Suc_upt [symmetric] less_max_iff_disj del: upt_Suc)
  ultimately show ?thesis by (simp add: Cons t(1))
qed

theorem frame_budget_witness:
  "touches 2 [5000, 5001, 5999] (sy ex_sys) = [True, True, False]"
proof -
  have "s_rate (sy ex_sys) = 0"
    by (simp add: ex_sys_def ex_bus_def session_new_def ex_srv_def register_def inner_new_def Let_def)
  with frame_budget [of "[5000, 5001, 5999]" 5 "sy ex_sys" 2] show ?thesis
    by (simp add: upt_conv_Cons)
qed


subsection \<open>Subscribing\<close>

text \<open>A subscribe ends. Whatever the application's authorization returns and whatever other tasks do to
  the hub between the attempts, the subscribe task gives an answer after at most three attempts.\<close>

theorem subscribe_ends:
  assumes "SUBSCRIBE_ATTEMPTS \<le> length script"
  shows "\<exists>out y'. subscribe_loop srv i 0 script y = (Some out, y')"
proof -
  have "\<exists>out y'. subscribe_loop srv i attempts script y = (Some out, y')"
    if "attempts < SUBSCRIBE_ATTEMPTS" and "SUBSCRIBE_ATTEMPTS \<le> attempts + length script" for attempts
    using that
  proof (induction script arbitrary: attempts y)
    case Nil
    then show ?case by simp
  next
    case (Cons a script)
    obtain g resolved where a: "a = (g, resolved)" by (cases a)
    have IH: "\<exists>out y'. subscribe_loop srv i (attempts + 1) script y1 = (Some out, y')"
      if "attempts + 1 < SUBSCRIBE_ATTEMPTS" for y1
      using Cons.IH [OF that] Cons.prems(2) by simp
    then show ?case
      by (auto simp: a Let_def split: outcome.splits sum.splits prod.splits)
  qed
  from this [of 0] assms show ?thesis by (simp add: SUBSCRIBE_ATTEMPTS_def)
qed

theorem subscribe_ends_witness:
  "\<exists>out y'. subscribe_loop ex_srv 7 0
     [(id, Returned (Inr (''room'', 9))), (id, Returned (Inr (''room'', 9))), (id, Returned (Inl unauthorized))] ex_sys
       = (Some out, y')"
  by (rule subscribe_ends) (simp add: SUBSCRIBE_ATTEMPTS_def)

subsection \<open>Closing\<close>

lemma closers_close_conn:
  "closers (close_conn h cid reason) a = closers h a \<or>
   closers (close_conn h cid reason) a = signal (closers h a) reason"
  by (auto simp: close_conn_eq signal_at_def split: option.splits)

text \<open>C14: A close is final. Closing an open session records the reason, takes the connection out of the hub
  and fails every waiting client call; after that the reason never changes through another close,
  frames of any kind at any time do nothing, and the timer stops.\<close>

theorem close_is_final:
  assumes "\<not> is_closed y" and "y' = sess_close reason y"
  shows "closed_reason y' = Some reason
    \<and> get_conn (sy_hub y') (s_conn (sy y')) = None
    \<and> closed_reason (sess_close reason' y') = Some reason
    \<and> (\<forall>inner. clients (sy_hub y') (s_client (sy y')) = Connected inner \<longrightarrow> closed inner \<and> pending inner = [])
    \<and> sess_handle srv now fr y' = ([], y') \<and> tick srv now y' = (False, y')"
proof -
  have open_: "closers (sy_hub y) (s_closer (sy y)) = None" using assms(1) by (simp add: is_closed_def)
  have rsn: "closed_reason y' = Some reason"
    using closers_close_conn [of "sy_hub y" "s_conn (sy y)" reason "s_closer (sy y)"] open_
    by (auto simp: assms(2) closed_reason_def sess_close_def Let_def signal_at_def fail_pending_at_def signal_def)
  moreover have "closed_reason (sess_close reason' y') = Some reason"
    using closers_close_conn [of "sy_hub y'" "s_conn (sy y')" reason' "s_closer (sy y')"] rsn
    by (auto simp: closed_reason_def sess_close_def Let_def signal_at_def fail_pending_at_def signal_def)
  moreover have "is_closed y'" using rsn by (simp add: is_closed_def closed_reason_def)
  moreover have "get_conn (sy_hub y') (s_conn (sy y')) = None"
    by (simp add: assms(2) sess_close_def Let_def signal_at_def fail_pending_at_def)
  moreover have "clients (sy_hub y') (s_client (sy y')) = Connected inner \<longrightarrow> closed inner \<and> pending inner = []" for inner
    by (cases "clients (signal_at (close_conn (sy_hub y) (s_conn (sy y)) reason) (s_closer (sy y)) reason) (s_client (sy y))")
       (auto simp: assms(2) sess_close_def Let_def fail_pending_at_def)
  ultimately show ?thesis by (simp add: sess_handle_def tick_def)
qed

theorem close_is_final_witness:
  "closed_reason (sess_close Idle (sess_close SlowConsumer ex_sys)) = Some SlowConsumer"
proof -
  have "\<not> is_closed ex_sys"
    by (simp add: ex_sys_def ex_bus_def is_closed_def session_new_def ex_srv_def register_def inner_new_def
        put_conn_def set_by_id_def Let_def)
  from close_is_final [OF this refl] show ?thesis by blast
qed

subsection \<open>What a client reports\<close>

definition char_count :: "string \<Rightarrow> nat" where
  "char_count s = length (filter (\<lambda>c. \<not> continues_char c) s)"

lemma take_chars_count: "char_count (take_chars n s) \<le> n"
  by (induction n s rule: take_chars.induct) (auto simp: char_count_def split: nat.splits)

lemma take_chars_prefix: "\<exists>rest. s = take_chars n s @ rest"
  by (induction n s rule: take_chars.induct) (auto split: nat.splits)

text \<open>A client's error is sanitized: whatever JSON the client sends, the caller sees a status between 400
  and 599, at most 256 characters of the message it was given, and nothing else of it.\<close>

theorem client_error_bounded:
  "400 \<le> code (client_error v) \<and> code (client_error v) \<le> 599
   \<and> char_count (message (client_error v)) \<le> MAX_CLIENT_ERROR_CHARS
   \<and> kind (client_error v) = ''error'' \<and> data (client_error v) = None \<and> detail (client_error v) = None"
  using take_chars_count [of MAX_CLIENT_ERROR_CHARS]
  by (simp add: client_error_def new_error_def Let_def split: option.splits)

end
