(* ===== verification/Router.thy ===== *)
theory Router
  imports Actions
begin

text \<open>
  The router, \<^verbatim>\<open>crates/router/src/router.rs\<close>: its registries and builder, unary and streaming
  dispatch of a payload.

  A registered handler is a value of \<^verbatim>\<open>'h\<close> (\<^verbatim>\<open>'b\<close> for the borrowing ones, \<^verbatim>\<open>'t\<close> for streams). The calls of one
  payload run concurrently, so what the call at position \<^verbatim>\<open>i\<close> returns in a run is an argument,
  \<^verbatim>\<open>disp i handler params\<close>: the theorems hold for every way the calls interleave. The \<^verbatim>\<open>serde_json\<close>
  readers of a raw body are arguments too.
\<close>

record ('h, 'b, 't) router =
  actions :: "(string, 'h) hashmap"
  borrow_actions :: "(string, 'b) hashmap"
  streams :: "(string, 't) hashmap"
  on_error :: "error \<Rightarrow> error"

subsection \<open>Unary requests\<close>

definition reply_of :: "('h, 'b, 't) router \<Rightarrow> jvalue result \<Rightarrow> reply" where
  "reply_of r result = (case result of Inr d \<Rightarrow> ReplyOk d | Inl e \<Rightarrow> reply_error (on_error r e))"

definition dispatch_one ::
  "('h, 'b, 't) router \<Rightarrow> ('h \<Rightarrow> jvalue \<Rightarrow> jvalue result) \<Rightarrow> string \<Rightarrow> jvalue \<Rightarrow> reply" where
  "dispatch_one r disp action params =
     (case map_of (actions r) action of
        None \<Rightarrow> reply_error (on_error r (not_found action))
      | Some handler \<Rightarrow> reply_of r (disp handler params))"

definition run_all ::
  "('h, 'b, 't) router \<Rightarrow> (nat \<Rightarrow> 'h \<Rightarrow> jvalue \<Rightarrow> jvalue result) \<Rightarrow> (string \<times> jvalue) list \<Rightarrow> (string \<times> reply) list" where
  "run_all r disp entries =
     map (\<lambda>(i, action, params). (action, dispatch_one r (disp i) action params)) (enumerate 0 entries)"

fun parse_element :: "jvalue \<Rightarrow> string \<times> jvalue" where
  "parse_element (JArray pair) =
     ((case pair of v # _ \<Rightarrow> (case as_str v of Some s \<Rightarrow> s | None \<Rightarrow> []) | [] \<Rightarrow> []),
      (case pair of _ # v # _ \<Rightarrow> v | _ \<Rightarrow> JNull))"
| "parse_element _ = ([], JNull)"

definition parse_array :: "jvalue list \<Rightarrow> (string \<times> jvalue) list" where
  "parse_array items = map parse_element items"

definition insert_replies :: "(string \<times> reply) list \<Rightarrow> jvalue" where
  "insert_replies replies = json_object (map (apsnd reply_into_value) replies)"

definition on_request ::
  "('h, 'b, 't) router \<Rightarrow> (nat \<Rightarrow> 'h \<Rightarrow> jvalue \<Rightarrow> jvalue result) \<Rightarrow> jvalue \<Rightarrow> jvalue" where
  "on_request r disp payload =
     (case payload of
        JObject m \<Rightarrow>
          if length m \<le> 1 then
            (case m of
               (action, params) # _ \<Rightarrow>
                 JObject (jmap_insert action (reply_into_value (dispatch_one r (disp 0) action params)) [])
             | [] \<Rightarrow> JObject [])
          else insert_replies (run_all r disp m)
      | JArray items \<Rightarrow> JArray (map (reply_into_value \<circ> snd) (run_all r disp (parse_array items)))
      | _ \<Rightarrow> JObject [])"

subsection \<open>Borrowed requests\<close>

definition dispatch_one_borrowed ::
  "('h, 'b, 't) router \<Rightarrow> ('h \<Rightarrow> jvalue \<Rightarrow> jvalue result) \<Rightarrow> ('b \<Rightarrow> string \<Rightarrow> jvalue result) \<Rightarrow>
     (string \<Rightarrow> string + jvalue) \<Rightarrow> string \<Rightarrow> string \<Rightarrow> reply" where
  "dispatch_one_borrowed r disp bdisp from_str action params =
     (case map_of (borrow_actions r) action of
        Some handler \<Rightarrow> reply_of r (bdisp handler params)
      | None \<Rightarrow>
          (case map_of (actions r) action of
             Some handler \<Rightarrow>
               (case from_str params of
                  Inl e \<Rightarrow> reply_error (on_error r (decode e))
                | Inr v \<Rightarrow> reply_of r (disp handler v))
           | None \<Rightarrow> reply_error (on_error r (not_found action))))"

text \<open>
  \<^term>\<open>obj\<close> and \<^term>\<open>arr\<close> are the readers of the two envelope forms: an object as an ordered map
  from borrowed keys to raw values, an array as a list of pairs.
\<close>

definition on_request_borrowed ::
  "('h, 'b, 't) router \<Rightarrow> (nat \<Rightarrow> 'h \<Rightarrow> jvalue \<Rightarrow> jvalue result) \<Rightarrow> (nat \<Rightarrow> 'b \<Rightarrow> string \<Rightarrow> jvalue result) \<Rightarrow>
     (string \<Rightarrow> string + jvalue) \<Rightarrow> (string \<Rightarrow> (string \<times> string) list option) \<Rightarrow>
     (string \<Rightarrow> (string \<times> string) list option) \<Rightarrow> string \<Rightarrow> jvalue" where
  "on_request_borrowed r disp bdisp from_str obj arr body =
     (case obj body of
        Some m \<Rightarrow>
          insert_replies
            (map (\<lambda>(i, action, raw). (action, dispatch_one_borrowed r (disp i) (bdisp i) from_str action raw))
               (enumerate 0 m))
      | None \<Rightarrow>
          (case arr body of
             Some items \<Rightarrow>
               JArray (map (\<lambda>(i, action, raw).
                         reply_into_value (dispatch_one_borrowed r (disp i) (bdisp i) from_str action raw))
                         (enumerate 0 items))
           | None \<Rightarrow> JObject []))"

subsection \<open>Streaming requests\<close>

fun stream_frames :: "(error \<Rightarrow> error) \<Rightarrow> nat \<Rightarrow> string \<Rightarrow> jvalue result list \<Rightarrow> frame list" where
  "stream_frames hook index action [] = [FrameEnd index action]"
| "stream_frames hook index action (Inr v # items) = FrameNext index action v # stream_frames hook index action items"
| "stream_frames hook index action (Inl e # items) = [frame_error index action (hook e)]"

definition action_stream ::
  "('t \<Rightarrow> jvalue \<Rightarrow> jvalue result list) \<Rightarrow> (error \<Rightarrow> error) \<Rightarrow> nat \<Rightarrow> string \<Rightarrow> jvalue \<Rightarrow> 't option \<Rightarrow> frame list" where
  "action_stream sdisp hook index action params handler =
     (case handler of
        None \<Rightarrow> [frame_error index action (hook (not_found action))]
      | Some h \<Rightarrow> stream_frames hook index action (sdisp h params))"

definition stream_entries :: "jvalue \<Rightarrow> (string \<times> jvalue) list" where
  "stream_entries payload =
     (case payload of JArray items \<Rightarrow> parse_array items | JObject m \<Rightarrow> m | _ \<Rightarrow> [])"

text \<open>The frames of each call; the response is some interleaving of these lists.\<close>

definition on_stream ::
  "('h, 'b, 't) router \<Rightarrow> (nat \<Rightarrow> 't \<Rightarrow> jvalue \<Rightarrow> jvalue result list) \<Rightarrow> jvalue \<Rightarrow> frame list list" where
  "on_stream r sdisp payload =
     map (\<lambda>(index, action, params).
            action_stream (sdisp index) (on_error r) index action params (map_of (streams r) action))
       (enumerate 0 (stream_entries payload))"

subsection \<open>Lemmas\<close>

lemma run_all_nth:
  "i < length entries \<Longrightarrow>
     run_all r disp entries ! i =
       (fst (entries ! i), dispatch_one r (disp i) (fst (entries ! i)) (snd (entries ! i)))"
  by (simp add: run_all_def nth_enumerate_eq split_beta)

lemma run_all_length [simp]: "length (run_all r disp entries) = length entries"
  by (simp add: run_all_def)

lemma run_all_keys: "map fst (run_all r disp entries) = map fst entries"
  by (rule nth_equalityI) (simp_all add: run_all_nth)

lemma fold_sorted_append:
  assumes "jmap_sorted (m @ kvs)"
  shows "fold (\<lambda>(k, v). jmap_insert k v) kvs m = m @ kvs"
  using assms
proof (induction kvs arbitrary: m)
  case Nil
  then show ?case by simp
next
  case (Cons kv kvs)
  obtain k v where kv: "kv = (k, v)" by (cases kv)
  have "jmap_insert k v m = m @ [(k, v)]"
    using Cons.prems by (intro jmap_insert_greatest) (auto simp: kv sorted_wrt_append)
  with Cons.IH [of "m @ [(k, v)]"] Cons.prems show ?case by (simp add: kv)
qed

lemma json_object_sorted: "jmap_sorted kvs \<Longrightarrow> json_object kvs = JObject kvs"
  using fold_sorted_append [of "[]" kvs] by (simp add: json_object_def)

lemma insert_replies_sorted:
  assumes "jmap_sorted entries" and "map fst replies = map fst entries"
  shows "insert_replies replies = JObject (map (apsnd reply_into_value) replies)"
  using assms by (simp add: insert_replies_def json_object_sorted)

lemma on_request_object:
  assumes "jmap_sorted m"
  shows "on_request r disp (JObject m) = JObject (map (apsnd reply_into_value) (run_all r disp m))"
proof (cases "length m \<le> 1")
  case True
  then show ?thesis
    by (cases m) (auto simp: on_request_def run_all_def)
next
  case False
  with insert_replies_sorted [OF assms run_all_keys, of r disp] show ?thesis
    by (simp add: on_request_def)
qed


lemma jmap_sorted_head:
  assumes "jmap_sorted ((k, v) # m)" and "jmap_sorted ((k', v') # m')"
    and "map_of ((k, v) # m) = map_of ((k', v') # m')"
  shows "k = k'"
proof (rule ccontr)
  assume ne: "k \<noteq> k'"
  have "k \<in> dom (map_of ((k, v) # m))" "k' \<in> dom (map_of ((k', v') # m'))" by auto
  with assms(3) have "k \<in> dom (map_of ((k', v') # m'))" "k' \<in> dom (map_of ((k, v) # m))" by metis+
  with ne have "k \<in> set (map fst m')" "k' \<in> set (map fst m)"
    by (auto simp: dom_map_of_conv_image_fst)
  with assms(1,2) have "str_less k' k" "str_less k k'" by auto
  then show False using str_less_trans str_less_irrefl by blast
qed

lemma jmap_sorted_ext:
  "jmap_sorted m \<Longrightarrow> jmap_sorted m' \<Longrightarrow> map_of m = map_of m' \<Longrightarrow> m = m'"
proof (induction m arbitrary: m')
  case Nil
  then show ?case by (metis map_of.simps(1) map_of_eq_empty_iff)
next
  case (Cons kv m)
  obtain k v where kv: "kv = (k, v)" by (cases kv)
  have "m' \<noteq> []" using Cons.prems(3) by (metis list.distinct(1) map_of.simps(1) map_of_eq_empty_iff)
  then obtain k' v' m1 where m': "m' = (k', v') # m1" by (metis neq_Nil_conv surj_pair)
  have k: "k = k'" by (rule jmap_sorted_head [OF Cons.prems [unfolded kv m']])
  have "v = v'" using fun_cong [OF Cons.prems(3), of k] by (simp add: kv m' k)
  moreover have "map_of m = map_of m1"
  proof
    fix x
    have "k \<notin> set (map fst m)" "k \<notin> set (map fst m1)"
      using Cons.prems(1,2) by (auto simp: kv m' k)
    then have "map_of m k = None" "map_of m1 k = None" by (simp_all add: map_of_eq_None_iff)
    with fun_cong [OF Cons.prems(3), of x] show "map_of m x = map_of m1 x"
      by (cases "x = k") (simp_all add: kv m' k)
  qed
  ultimately show ?case using Cons.IH [of m1] Cons.prems(1,2) by (simp add: kv m' k)
qed

lemma stream_frames_conv:
  "stream_frames hook i action items =
     map (FrameNext i action \<circ> projr) (takeWhile (\<lambda>x. \<not> isl x) items) @
     [case find isl items of Some (Inl e) \<Rightarrow> frame_error i action (hook e) | _ \<Rightarrow> FrameEnd i action]"
proof (induction items)
  case (Cons x items)
  then show ?case by (cases x) auto
qed simp

text \<open>A unary response mirrors its payload. For an object the response has the same keys in the same
  order, each with the reply of its own call, whether or not the single-call path is taken; for
  an array it has one reply per element, in order, a malformed element included.\<close>

theorem response_mirrors_payload:
  assumes "jmap_sorted m"
  shows "(\<exists>out. on_request r disp (JObject m) = JObject out \<and> map fst out = map fst m \<and>
      (\<forall>i < length m. snd (out ! i) =
         reply_into_value (dispatch_one r (disp i) (fst (m ! i)) (snd (m ! i)))))
    \<and> (\<exists>out. on_request r disp (JArray items) = JArray out \<and> length out = length items \<and>
      (\<forall>i < length items. out ! i =
         reply_into_value (dispatch_one r (disp i) (fst (parse_element (items ! i))) (snd (parse_element (items ! i))))))"
proof (intro conjI)
  show "\<exists>out. on_request r disp (JObject m) = JObject out \<and> map fst out = map fst m \<and>
      (\<forall>i < length m. snd (out ! i) = reply_into_value (dispatch_one r (disp i) (fst (m ! i)) (snd (m ! i))))"
    unfolding on_request_object [OF assms]
    by (rule exI [of _ "map (apsnd reply_into_value) (run_all r disp m)"]) (simp add: run_all_keys run_all_nth)
  show "\<exists>out. on_request r disp (JArray items) = JArray out \<and> length out = length items \<and>
      (\<forall>i < length items. out ! i =
         reply_into_value (dispatch_one r (disp i) (fst (parse_element (items ! i))) (snd (parse_element (items ! i)))))"
    by (simp add: on_request_def run_all_nth parse_array_def)
qed

text \<open>Streaming. Each call of a streaming payload contributes its items in order, up to the first
  error, and then exactly one closing frame: the end marker when no item failed, otherwise that
  error after the error hook; an unknown action gives the single 404 frame.\<close>

theorem stream_call_closes_once:
  assumes "i < length (stream_entries payload)" and "stream_entries payload ! i = (action, params)"
  shows "on_stream r sdisp payload ! i =
    (case map_of (streams r) action of
       None \<Rightarrow> [frame_error i action (on_error r (not_found action))]
     | Some h \<Rightarrow>
         map (FrameNext i action \<circ> projr) (takeWhile (\<lambda>x. \<not> isl x) (sdisp i h params)) @
         [case find isl (sdisp i h params) of
            Some (Inl e) \<Rightarrow> frame_error i action (on_error r e)
          | _ \<Rightarrow> FrameEnd i action])"
  using assms
  by (simp add: on_stream_def nth_enumerate_eq action_stream_def stream_frames_conv split: option.splits)


theorem stream_call_closes_once_witness:
  "on_stream \<lparr>actions = [], borrow_actions = [], streams = [(''s'', ())], on_error = id\<rparr>
     (\<lambda>_ _ _. [Inr JNull, Inl (new_error 400 ''x''), Inr JNull]) (JObject [(''s'', JNull)]) ! 0 =
   [FrameNext 0 ''s'' JNull, frame_error 0 ''s'' (new_error 400 ''x'')]"
  using stream_call_closes_once
    [of 0 "JObject [(''s'', JNull)]" "''s''" JNull "\<lparr>actions = [], borrow_actions = [], streams = [(''s'', ())], on_error = id\<rparr>"
      "\<lambda>_ _ _. [Inr JNull, Inl (new_error 400 ''x''), Inr JNull]"]
  by (simp add: stream_entries_def)

theorem response_mirrors_payload_witness:
  "jmap_sorted [(''a'', JNull), (''b'', JNull)] \<and>
   (\<exists>out. on_request \<lparr>actions = [(''a'', ())], borrow_actions = [], streams = [], on_error = id\<rparr> (\<lambda>_ _ v. Inr v)
      (JObject [(''a'', JNull), (''b'', JNull)]) = JObject out \<and> map fst out = [''a'', ''b''])"
  using response_mirrors_payload
    [of "[(''a'', JNull), (''b'', JNull)]" "\<lparr>actions = [(''a'', ())], borrow_actions = [], streams = [], on_error = id\<rparr>" "\<lambda>_ _ v. Inr v" "[]"]
  by auto

subsection \<open>The borrowed entry point\<close>

lemma jmap_sorted_insert_replies:
  "\<exists>out. insert_replies replies = JObject out \<and> jmap_sorted out \<and>
     map_of out = map_of (rev (map (apsnd reply_into_value) replies))"
  by (simp add: insert_replies_def json_object_def map_of_fold_jmap fold_jmap_sorted)

lemma map_of_rev_distinct: "distinct (map fst m) \<Longrightarrow> map_of (rev m) = map_of m"
  by (rule map_of_inject_set [THEN iffD2]) (simp_all add: rev_map [symmetric])


lemma borrowed_plain:
  assumes "map_of (borrow_actions r) action = None" and "from_str raw = Inr p"
  shows "dispatch_one_borrowed r d bd from_str action raw = dispatch_one r d action p"
  using assms by (simp add: dispatch_one_borrowed_def dispatch_one_def split: option.splits)

lemma map_enumerate_snd: "map (\<lambda>(i, x). f x) (enumerate n xs) = map f xs"
  by (rule nth_equalityI) (simp_all add: nth_enumerate_eq)

lemma map_of_keyed_fst: "map_of (map (\<lambda>x. (fst x, g (fst x) (snd x))) m) a = map_option (g a) (map_of m a)"
  by (induction m) auto

lemma map_of_keyed: "map_of (map (\<lambda>(a, x). (a, g a x)) m) a = map_option (g a) (map_of m a)"
  by (induction m) auto

lemma run_all_uniform: "run_all r (\<lambda>_. d) m = map (\<lambda>(a, p). (a, dispatch_one r d a p)) m"
  unfolding run_all_def using map_enumerate_snd [of "\<lambda>(a, p). (a, dispatch_one r d a p)" 0 m] by simp

lemma keyed_replies:
  "map (apsnd reply_into_value) (map (\<lambda>(a, x). (a, dispatch_one r d a (g x))) m) =
     map (\<lambda>(a, x). (a, reply_into_value (dispatch_one r d a (g x)))) m"
  by (induction m) auto

lemma borrowed_replies:
  assumes "\<forall>a. map_of (borrow_actions r) a = None" and "\<forall>(a, raw) \<in> set raws. \<not> isl (from_str raw)"
  shows "map (\<lambda>(i, a, raw). (a, dispatch_one_borrowed r d (bd i) from_str a raw)) (enumerate n raws) =
    map (\<lambda>(a, raw). (a, dispatch_one r d a (projr (from_str raw)))) raws"
proof (rule nth_equalityI)
  fix i assume "i < length (map (\<lambda>(i, a, raw). (a, dispatch_one_borrowed r d (bd i) from_str a raw)) (enumerate n raws))"
  then have i: "i < length raws" by simp
  obtain a raw where e: "raws ! i = (a, raw)" by (cases "raws ! i")
  with assms(2) i have "from_str raw = Inr (projr (from_str raw))"
    using nth_mem [OF i] by (cases "from_str raw") fastforce+
  with borrowed_plain [OF assms(1) [rule_format]] i e
  show "map (\<lambda>(i, a, raw). (a, dispatch_one_borrowed r d (bd i) from_str a raw)) (enumerate n raws) ! i =
      map (\<lambda>(a, raw). (a, dispatch_one r d a (projr (from_str raw)))) raws ! i"
    by (simp add: nth_enumerate_eq)
qed simp



text \<open>They differ on a malformed array. An element that is not a pair costs the owned entry point one
  404 reply in its place; the borrowed one, whose readers refuse the whole body, answers with an
  empty object and runs none of the calls.\<close>

theorem borrowed_drops_malformed:
  assumes "obj body = None" and "arr body = None" and "map_of (actions r) [] = None"
    and "map_of (actions r) a = Some h"
  shows "on_request_borrowed r disp bd from_str obj arr body = JObject []
    \<and> on_request r disp (JArray [JArray [JString a, p], JNull]) =
        JArray [reply_into_value (reply_of r (disp 0 h p)),
                reply_into_value (reply_error (on_error r (not_found [])))]"
  using assms
  by (simp add: on_request_borrowed_def on_request_def run_all_def parse_array_def dispatch_one_def)

theorem borrowed_drops_malformed_witness:
  "on_request_borrowed (\<lparr>actions = [(''a'', ())], borrow_actions = [], streams = [], on_error = id\<rparr> :: (unit, unit, unit) router)
     (\<lambda>_ _ v. Inr v) (\<lambda>_ _ _. Inr JNull) (\<lambda>_. Inr JNull) (\<lambda>_. None) (\<lambda>_. None) ''[[...],null]'' = JObject []"
  using borrowed_drops_malformed
    [of "\<lambda>_. None" "''[[...],null]''" "\<lambda>_. None" "(\<lparr>actions = [(''a'', ())], borrow_actions = [], streams = [], on_error = id\<rparr> :: (unit, unit, unit) router)" "''a''" "()" "\<lambda>_ _ v. Inr v" "\<lambda>_ _ _. Inr JNull" "\<lambda>_. Inr JNull" JNull]
  by simp

end
