(* ===== verification/RouterBuilder.thy ===== *)
theory RouterBuilder
  imports Router SessionConfig Channel
begin

text \<open>
  The builder of a router, \<^verbatim>\<open>Builder\<close> in \<^verbatim>\<open>crates/router/src/router.rs\<close>. The handlers, the channel
  resolvers \<^verbatim>\<open>'c\<close>, the auth hook \<^verbatim>\<open>'a\<close>, the application state \<^verbatim>\<open>'g\<close> and the hub \<^verbatim>\<open>'u\<close> are opaque. The two
  panics, a reserved channel name and a missing context, are \<^verbatim>\<open>None\<close>.
\<close>

record client_meta =
  cm_name :: string
  cm_params_ref :: string
  cm_return_ref :: string
  cm_decls :: "(string \<times> string) list"

record ('h, 'b, 't, 'g, 'u, 'c, 'a) full_router = "('h, 'b, 't) router" +
  app :: 'g
  client_actions :: "client_meta list"
  client_call_timeout :: nat
  hub :: 'u
  channels :: "(string, 'c) hashmap"
  channel_meta :: "client_meta list"
  sess_config :: session_config
  auth :: "'a option"

record ('h, 'b, 't, 'g, 'u, 'c, 'a) builder =
  bd_app :: "'g option"
  bd_actions :: "(string, 'h) hashmap"
  bd_borrow_actions :: "(string, 'b) hashmap"
  bd_streams :: "(string, 't) hashmap"
  bd_client_actions :: "client_meta list"
  bd_client_call_timeout :: nat
  bd_on_error :: "error \<Rightarrow> error"
  bd_hub :: "'u option"
  bd_channels :: "(string, 'c) hashmap"
  bd_channel_meta :: "client_meta list"
  bd_session_config :: session_config
  bd_auth :: "'a option"

text \<open>In milliseconds.\<close>

definition DEFAULT_CLIENT_CALL_TIMEOUT :: nat where
  "DEFAULT_CLIENT_CALL_TIMEOUT = 30000"

definition builder_new :: "('h, 'b, 't, 'g, 'u, 'c, 'a) builder" where
  "builder_new = \<lparr>bd_app = None, bd_actions = [], bd_borrow_actions = [], bd_streams = [],
     bd_client_actions = [], bd_client_call_timeout = DEFAULT_CLIENT_CALL_TIMEOUT,
     bd_on_error = (\<lambda>e. e), bd_hub = None, bd_channels = [], bd_channel_meta = [],
     bd_session_config = default_session_config, bd_auth = None\<rparr>"

definition ctx :: "'g \<Rightarrow> ('h, 'b, 't, 'g, 'u, 'c, 'a) builder \<Rightarrow> ('h, 'b, 't, 'g, 'u, 'c, 'a) builder" where
  "ctx g b = b\<lparr>bd_app := Some g\<rparr>"

definition register_action ::
  "string \<Rightarrow> 'h \<Rightarrow> ('h, 'b, 't, 'g, 'u, 'c, 'a) builder \<Rightarrow> ('h, 'b, 't, 'g, 'u, 'c, 'a) builder" where
  "register_action name h b = b\<lparr>bd_actions := AList.update name h (bd_actions b)\<rparr>"

definition register_borrow ::
  "string \<Rightarrow> 'b \<Rightarrow> ('h, 'b, 't, 'g, 'u, 'c, 'a) builder \<Rightarrow> ('h, 'b, 't, 'g, 'u, 'c, 'a) builder" where
  "register_borrow name h b = b\<lparr>bd_borrow_actions := AList.update name h (bd_borrow_actions b)\<rparr>"

definition register_stream ::
  "string \<Rightarrow> 't \<Rightarrow> ('h, 'b, 't, 'g, 'u, 'c, 'a) builder \<Rightarrow> ('h, 'b, 't, 'g, 'u, 'c, 'a) builder" where
  "register_stream name h b = b\<lparr>bd_streams := AList.update name h (bd_streams b)\<rparr>"

definition set_client_call_timeout ::
  "nat \<Rightarrow> ('h, 'b, 't, 'g, 'u, 'c, 'a) builder \<Rightarrow> ('h, 'b, 't, 'g, 'u, 'c, 'a) builder" where
  "set_client_call_timeout t b = b\<lparr>bd_client_call_timeout := t\<rparr>"

definition set_on_error ::
  "(error \<Rightarrow> error) \<Rightarrow> ('h, 'b, 't, 'g, 'u, 'c, 'a) builder \<Rightarrow> ('h, 'b, 't, 'g, 'u, 'c, 'a) builder" where
  "set_on_error f b = b\<lparr>bd_on_error := f\<rparr>"

text \<open>The TypeScript references and declarations of the parameter and return types are arguments.\<close>

definition client_action ::
  "client_meta \<Rightarrow> ('h, 'b, 't, 'g, 'u, 'c, 'a) builder \<Rightarrow> ('h, 'b, 't, 'g, 'u, 'c, 'a) builder" where
  "client_action meta b = b\<lparr>bd_client_actions := bd_client_actions b @ [meta]\<rparr>"

definition set_hub :: "'u \<Rightarrow> ('h, 'b, 't, 'g, 'u, 'c, 'a) builder \<Rightarrow> ('h, 'b, 't, 'g, 'u, 'c, 'a) builder" where
  "set_hub h b = b\<lparr>bd_hub := Some h\<rparr>"

definition channel ::
  "string \<Rightarrow> string \<Rightarrow> (string \<times> string) list \<Rightarrow> 'c \<Rightarrow> ('h, 'b, 't, 'g, 'u, 'c, 'a) builder \<Rightarrow>
     ('h, 'b, 't, 'g, 'u, 'c, 'a) builder option" where
  "channel name ts_ref decls c b =
     (if name \<in> set RESERVED_NAMES then None
      else Some (b\<lparr>bd_channel_meta := bd_channel_meta b @
                     [\<lparr>cm_name = name, cm_params_ref = ts_ref, cm_return_ref = [], cm_decls = decls\<rparr>],
                   bd_channels := AList.update name c (bd_channels b)\<rparr>))"

definition set_session_config ::
  "session_config \<Rightarrow> ('h, 'b, 't, 'g, 'u, 'c, 'a) builder \<Rightarrow> ('h, 'b, 't, 'g, 'u, 'c, 'a) builder" where
  "set_session_config cfg b = b\<lparr>bd_session_config := cfg\<rparr>"

definition on_auth :: "'a \<Rightarrow> ('h, 'b, 't, 'g, 'u, 'c, 'a) builder \<Rightarrow> ('h, 'b, 't, 'g, 'u, 'c, 'a) builder" where
  "on_auth hook b = b\<lparr>bd_auth := Some hook\<rparr>"

definition build :: "'u \<Rightarrow> ('h, 'b, 't, 'g, 'u, 'c, 'a) builder \<Rightarrow> ('h, 'b, 't, 'g, 'u, 'c, 'a) full_router option" where
  "build default_hub b =
     (case bd_app b of
        None \<Rightarrow> None
      | Some g \<Rightarrow>
          Some \<lparr>actions = bd_actions b, borrow_actions = bd_borrow_actions b, streams = bd_streams b,
                on_error = bd_on_error b, app = g, client_actions = bd_client_actions b,
                client_call_timeout = bd_client_call_timeout b,
                hub = (case bd_hub b of Some h \<Rightarrow> h | None \<Rightarrow> default_hub),
                channels = bd_channels b, channel_meta = bd_channel_meta b,
                sess_config = bd_session_config b, auth = bd_auth b\<rparr>)"

text \<open>No channel a client can subscribe to has a built-in name.\<close>

definition no_reserved :: "('h, 'b, 't, 'g, 'u, 'c, 'a) builder \<Rightarrow> bool" where
  "no_reserved b \<longleftrightarrow> set (keys (bd_channels b)) \<inter> set RESERVED_NAMES = {}"

lemma channel_no_reserved:
  "no_reserved b \<Longrightarrow> channel name ts_ref decls c b = Some b' \<Longrightarrow> no_reserved b'"
  by (auto simp: no_reserved_def channel_def keys_update_set split: if_splits simp del: set_map)

end
