(* ===== verification/SqlWriter.thy ===== *)
theory SqlWriter
  imports Prelude
begin

text \<open>
  The SQL writer of the ORM (\<^verbatim>\<open>orm/src/value.rs\<close>, \<^verbatim>\<open>ident.rs\<close>, \<^verbatim>\<open>dialect/\<close>, \<^verbatim>\<open>sql.rs\<close>):
  backend-neutral values, identifier quoting, the four dialects and the writer that
  assembles one statement.

  A statement is assembled by a sequence of writer actions. An action takes the writer and
  returns it changed, or the error of an identifier that cannot be rendered; the code's
  \<^verbatim>\<open>?\<close> after each fallible call is \<^verbatim>\<open>do_all\<close> over the list of actions.

  Payloads of library types (floats, UUIDs, dates) are a type parameter: the writer never
  looks at them. Their decimal forms are arguments where the code prints them.
\<close>

subsection \<open>Values\<close>

datatype value_kind =
    KI16 | KI32 | KI64 | KF32 | KF64 | KBool | KText | KBytes | KUuid | KTimestamptz
  | KNaiveDateTime | KDate | KNaiveTime | KJson | KVector | KGeo | KArray value_kind

datatype 'x sql_value =
    Null value_kind
  | I16 "16 word" | I32 "32 word" | I64 "64 word"
  | F32 'x | F64 'x
  | Bool bool
  | Text string
  | Bytes "u8 list"
  | Uuid 'x | Timestamptz 'x | NaiveDateTime 'x | Date 'x | NaiveTime 'x
  | Json jvalue
  | Vector "'x list"
  | Geo string "32 word option"
  | Array value_kind "'x sql_value list"
  | Cast string "'x sql_value"

definition with_cast :: "'x sql_value \<Rightarrow> string option \<Rightarrow> 'x sql_value" where
  "with_cast v cast = (case cast of Some c \<Rightarrow> Cast c v | None \<Rightarrow> v)"

text \<open>Rust's \<^verbatim>\<open>Display\<close> of a signed integer.\<close>

definition show_signed :: "'a::len word \<Rightarrow> string" where
  "show_signed w =
     (if sint w < 0 then CHR ''-'' # show_nat (nat (- sint w)) else show_nat (nat (sint w)))"

subsection \<open>Identifiers\<close>

definition MAX_IDENT_LEN :: nat where
  "MAX_IDENT_LEN = 63"

datatype ident_error = Empty | ContainsNul | TooLong nat

definition validate :: "string \<Rightarrow> ident_error + unit" where
  "validate name =
     (if name = [] then Inl Empty
      else if CHR 0x00 \<in> set name then Inl ContainsNul
      else if length name > MAX_IDENT_LEN then Inl (TooLong (length name))
      else Inr ())"

text \<open>The character loop of the quoting, which copies a name without quotes unchanged.\<close>

fun doubled :: "char \<Rightarrow> string \<Rightarrow> string" where
  "doubled q [] = []"
| "doubled q (c # cs) = (if c = q then q # c # doubled q cs else c # doubled q cs)"

definition write_quoted_with :: "string \<Rightarrow> string \<Rightarrow> char \<Rightarrow> ident_error + string" where
  "write_quoted_with out name q =
     (case validate name of
        Inl e \<Rightarrow> Inl e
      | Inr _ \<Rightarrow>
          Inr (out @ [q] @ (if q \<in> set name then doubled q name else name) @ [q]))"

subsection \<open>Dialects\<close>

datatype distance = L2 | Cosine | InnerProduct

datatype distance_sql = Operator string | Function string

datatype full_text = Fts5Match | TsQuery string

record dialect =
  d_name :: string
  d_placeholder_prefix :: char
  d_numbered_placeholders :: bool
  d_supports_any_array :: bool
  d_quote_char :: char
  d_supports_returning :: bool
  d_upsert_on_duplicate_key :: bool
  d_vector_bind :: "string \<times> string"
  d_vector_distance :: "distance \<Rightarrow> distance_sql"
  d_geo_bind :: "string \<times> string"
  d_full_text :: full_text
  d_supports_cast :: bool
  d_supports_spatial :: bool

text \<open>The provided methods of the trait: what a dialect has unless it overrides it.\<close>

fun default_vector_distance :: "distance \<Rightarrow> distance_sql" where
  "default_vector_distance Cosine = Function ''vec_distance_cosine''"
| "default_vector_distance _ = Function ''vec_distance_l2''"

definition dialect_defaults :: "string \<Rightarrow> char \<Rightarrow> bool \<Rightarrow> bool \<Rightarrow> dialect" where
  "dialect_defaults name prefix numbered any_array =
     \<lparr>d_name = name, d_placeholder_prefix = prefix, d_numbered_placeholders = numbered,
      d_supports_any_array = any_array, d_quote_char = CHR 0x22, d_supports_returning = True,
      d_upsert_on_duplicate_key = False, d_vector_bind = ([], []),
      d_vector_distance = default_vector_distance, d_geo_bind = ([], []),
      d_full_text = Fts5Match, d_supports_cast = False, d_supports_spatial = False\<rparr>"

fun postgres_vector_distance :: "distance \<Rightarrow> distance_sql" where
  "postgres_vector_distance L2 = Operator '' <-> ''"
| "postgres_vector_distance Cosine = Operator '' <=> ''"
| "postgres_vector_distance InnerProduct = Operator '' <#> ''"

definition PostgresDialect :: dialect where
  "PostgresDialect =
     (dialect_defaults ''postgres'' (CHR ''$'') True True)
       \<lparr>d_vector_bind := ([], ''::vector''), d_geo_bind := ([], ''::geometry''),
        d_vector_distance := postgres_vector_distance, d_full_text := TsQuery ''english'',
        d_supports_spatial := True, d_supports_cast := True\<rparr>"

definition SqliteDialect :: dialect where
  "SqliteDialect = dialect_defaults ''sqlite'' (CHR ''?'') True False"

definition MySqlDialect :: dialect where
  "MySqlDialect =
     (dialect_defaults ''mysql'' (CHR ''?'') False False)
       \<lparr>d_quote_char := CHR 0x60, d_supports_returning := False, d_upsert_on_duplicate_key := True\<rparr>"

fun turso_vector_distance :: "distance \<Rightarrow> distance_sql" where
  "turso_vector_distance L2 = Function ''vector_distance_l2''"
| "turso_vector_distance Cosine = Function ''vector_distance_cos''"
| "turso_vector_distance InnerProduct = Function ''vector_distance_dot''"

definition TursoDialect :: dialect where
  "TursoDialect =
     (dialect_defaults ''turso'' (CHR ''?'') True False)
       \<lparr>d_vector_bind := (''vector32('', '')''), d_vector_distance := turso_vector_distance\<rparr>"

definition default_dialect :: dialect where
  "default_dialect = PostgresDialect"

text \<open>The dialects of the program.\<close>

definition dialects :: "dialect set" where
  "dialects = {PostgresDialect, SqliteDialect, MySqlDialect, TursoDialect}"

lemmas dialect_defs = PostgresDialect_def SqliteDialect_def MySqlDialect_def TursoDialect_def
  dialect_defaults_def

subsection \<open>The writer\<close>

record 'x sql_writer =
  w_sql :: string
  w_binds :: "'x sql_value list"
  w_placeholder_prefix :: char
  w_numbered_placeholders :: bool
  w_quote_char :: char
  w_supports_any_array :: bool
  w_supports_spatial :: bool
  w_supports_cast :: bool
  w_vector_bind :: "string \<times> string"
  w_geo_bind :: "string \<times> string"
  w_unsupported :: "string option"
  w_dialect :: dialect

type_synonym 'x write_action = "'x sql_writer \<Rightarrow> ident_error + 'x sql_writer"

definition with_dialect :: "dialect \<Rightarrow> 'x sql_writer" where
  "with_dialect d =
     \<lparr>w_sql = [], w_binds = [], w_placeholder_prefix = d_placeholder_prefix d,
      w_numbered_placeholders = d_numbered_placeholders d, w_quote_char = d_quote_char d,
      w_supports_any_array = d_supports_any_array d, w_supports_spatial = d_supports_spatial d,
      w_supports_cast = d_supports_cast d, w_vector_bind = d_vector_bind d,
      w_geo_bind = d_geo_bind d, w_unsupported = None, w_dialect = d\<rparr>"

definition add_text :: "string \<Rightarrow> 'x sql_writer \<Rightarrow> 'x sql_writer" where
  "add_text t w = w\<lparr>w_sql := w_sql w @ t\<rparr>"

definition mark :: "string \<Rightarrow> 'x sql_writer \<Rightarrow> 'x sql_writer" where
  "mark feature w = (if w_unsupported w = None then w\<lparr>w_unsupported := Some feature\<rparr> else w)"

definition push :: "string \<Rightarrow> 'x write_action" where
  "push t w = Inr (add_text t w)"

definition mark_unsupported :: "string \<Rightarrow> 'x write_action" where
  "mark_unsupported feature w = Inr (mark feature w)"

definition push_ident :: "string \<Rightarrow> 'x write_action" where
  "push_ident name w =
     (case write_quoted_with (w_sql w) name (w_quote_char w) of
        Inl e \<Rightarrow> Inl e
      | Inr s \<Rightarrow> Inr (w\<lparr>w_sql := s\<rparr>))"

text \<open>Running fallible actions one after the other.\<close>

fun do_all :: "'x write_action list \<Rightarrow> 'x write_action" where
  "do_all [] w = Inr w"
| "do_all (a # as) w = (case a w of Inl e \<Rightarrow> Inl e | Inr w' \<Rightarrow> do_all as w')"

definition push_qualified :: "string \<Rightarrow> string \<Rightarrow> 'x write_action" where
  "push_qualified table column = do_all [push_ident table, push ''.'', push_ident column]"

text \<open>Digits are written into a buffer from its end.\<close>

fun itoa_loop :: "nat \<Rightarrow> string \<Rightarrow> string" where
  "itoa_loop remaining buffer =
     (if remaining = 0 then buffer
      else itoa_loop (remaining div 10) (digit_char (remaining mod 10) # buffer))"

declare itoa_loop.simps [simp del]

definition itoa :: "nat \<Rightarrow> string" where
  "itoa v = (if v = 0 then ''0'' else itoa_loop v [])"

definition push_placeholder :: "nat \<Rightarrow> 'x sql_writer \<Rightarrow> 'x sql_writer" where
  "push_placeholder position w =
     add_text ([w_placeholder_prefix w] @
       (if w_numbered_placeholders w then itoa position else [])) w"

text \<open>Queue a bind; its position is the number of binds then.\<close>

definition add_bind :: "'x sql_value \<Rightarrow> 'x sql_writer \<Rightarrow> 'x sql_writer" where
  "add_bind v w = w\<lparr>w_binds := w_binds w @ [v]\<rparr>"

definition placeholder :: "'x sql_writer \<Rightarrow> 'x sql_writer" where
  "placeholder w = push_placeholder (length (w_binds w)) w"

definition push_geo_bind :: "'x sql_value \<Rightarrow> 32 word option \<Rightarrow> 'x sql_writer \<Rightarrow> 'x sql_writer" where
  "push_geo_bind v srid w =
     (let (pre, suf) = w_geo_bind w;
          set_srid = (if pre \<noteq> [] \<or> suf \<noteq> [] then srid else None);
          w = add_bind v w;
          w = (if set_srid \<noteq> None then add_text ''ST_SetSRID('' w else w);
          w = add_text pre w;
          w = placeholder w;
          w = add_text suf w
      in case set_srid of
           Some s \<Rightarrow> add_text ('', '' @ show_signed s @ '')'') w
         | None \<Rightarrow> w)"

definition add_bound :: "'x sql_value \<Rightarrow> 'x sql_writer \<Rightarrow> 'x sql_writer" where
  "add_bound v w =
     (case v of
        Cast cast inner \<Rightarrow>
          if w_supports_cast w then add_text cast (add_text ''::'' (placeholder (add_bind inner w)))
          else placeholder (add_bind inner (mark cast w))
      | Geo _ srid \<Rightarrow> push_geo_bind v srid w
      | Vector _ \<Rightarrow>
          add_text (snd (w_vector_bind w)) (placeholder (add_text (fst (w_vector_bind w)) (add_bind v w)))
      | _ \<Rightarrow> placeholder (add_bind v w))"

definition push_bind :: "'x sql_value \<Rightarrow> 'x write_action" where
  "push_bind v w = Inr (add_bound v w)"

definition bind_count :: "'x sql_writer \<Rightarrow> nat" where
  "bind_count w = length (w_binds w)"

definition into_parts :: "'x sql_writer \<Rightarrow> string \<times> 'x sql_value list" where
  "into_parts w = (w_sql w, w_binds w)"

subsection \<open>Finishing a statement\<close>

datatype orm_error =
    NotFound | TooManyRows | Ident ident_error | Transaction string | Decode string | Unsupported string
  | DbError string

definition finish :: "'x sql_writer \<Rightarrow> orm_error + (string \<times> 'x sql_value list)" where
  "finish w = (case w_unsupported w of Some f \<Rightarrow> Inl (Unsupported f) | None \<Rightarrow> Inr (into_parts w))"

text \<open>An assembled statement: the actions from an empty writer, then \<^const>\<open>finish\<close>.\<close>

definition assemble :: "dialect \<Rightarrow> 'x write_action \<Rightarrow> orm_error + (string \<times> 'x sql_value list)" where
  "assemble d a = (case a (with_dialect d) of Inl e \<Rightarrow> Inl (Ident e) | Inr w \<Rightarrow> finish w)"

subsection \<open>Basic facts\<close>

lemma itoa_loop_show: "n \<noteq> 0 \<Longrightarrow> itoa_loop n acc = show_nat n @ acc"
proof (induction n acc rule: itoa_loop.induct)
  case (1 n acc)
  show ?case
  proof (cases "n < 10")
    case True
    with 1(2) show ?thesis
      by (subst itoa_loop.simps, subst show_nat.simps) (simp add: itoa_loop.simps)
  next
    case False
    then have "itoa_loop (n div 10) (digit_char (n mod 10) # acc) =
        show_nat (n div 10) @ digit_char (n mod 10) # acc"
      using 1 by simp
    with False show ?thesis
      by (subst itoa_loop.simps, subst show_nat.simps) simp
  qed
qed

lemma show_nat_0: "show_nat 0 = ''0''"
  by code_simp

lemma itoa_show [simp]: "itoa n = show_nat n"
  unfolding itoa_def by (simp add: itoa_loop_show show_nat_0)

text \<open>The digits of every 64-bit position fit the 20-byte buffer.\<close>

lemma itoa_buffer_fits: "n < 2 ^ 64 \<Longrightarrow> length (itoa n) \<le> 20"
  using show_nat_length [of n 20] by simp

lemma doubled_plain: "q \<notin> set name \<Longrightarrow> doubled q name = name"
  by (induction name) auto

text \<open>The fast path of the quoting agrees with the character loop.\<close>

lemma write_quoted_with_eq:
  "write_quoted_with out name q =
     (case validate name of Inl e \<Rightarrow> Inl e | Inr _ \<Rightarrow> Inr (out @ [q] @ doubled q name @ [q]))"
  by (auto simp: write_quoted_with_def doubled_plain split: sum.splits)

lemma push_ident_eq:
  "push_ident name w =
     (case validate name of
        Inl e \<Rightarrow> Inl e
      | Inr _ \<Rightarrow> Inr (add_text ([w_quote_char w] @ doubled (w_quote_char w) name @ [w_quote_char w]) w))"
  by (simp add: push_ident_def write_quoted_with_eq add_text_def split: sum.splits)

lemma do_all_append:
  "do_all (as @ bs) w = (case do_all as w of Inl e \<Rightarrow> Inl e | Inr w' \<Rightarrow> do_all bs w')"
  by (induction as arbitrary: w) (auto split: sum.splits)

lemma do_all_concat_single [simp]: "do_all [a] = a"
  by (rule ext) (simp split: sum.splits)

declare do_all.simps [simp del]

end
