(* ===== verification/Predicates.thy ===== *)
theory Predicates
  imports SqlWriter
begin

text \<open>
  Typed expressions of the ORM (\<^verbatim>\<open>orm/src/expr.rs\<close>): operands, predicates and order terms as
  trees, the functions that build them, and how they are rendered. Names of tables and
  columns, operators, text-search configurations, function names and raw fragments are
  \<^verbatim>\<open>&'static str\<close> of the application; everything else is a value and is bound.
\<close>

subsection \<open>Trees\<close>

record col =
  col_table :: string
  col_name :: string

datatype 'x operand =
    Column string string
  | Value "'x sql_value"
  | Excluded string
  | Case "'x pred_expr" "'x operand" "'x operand"
  | DatabaseNow "64 word option"
  | Arith "'x operand" string "'x operand"
and 'x pred_expr =
    Binary string string string "'x operand"
  | IsNull string string
  | AnyOf string string "'x sql_value"
  | AndP "'x pred_expr" "'x pred_expr"
  | OrP "'x pred_expr" "'x pred_expr"
  | NotP "'x pred_expr"
  | Match string string string "string option" bool
  | Like string string "'x sql_value"
  | Spatial string string string "'x sql_value" "'x option"
  | RawP string

type_synonym 'x predicate = "'x pred_expr"

subsection \<open>Rendering\<close>

definition write_tsvector :: "string \<Rightarrow> string \<Rightarrow> string \<Rightarrow> bool \<Rightarrow> 'x write_action" where
  "write_tsvector table name config stored =
     (if stored then push_qualified table name
      else do_all [push ''to_tsvector('', push [CHR 0x27], push config, push (CHR 0x27 # '', ''),
                   push_qualified table name, push '')''])"

definition write_match ::
  "string \<Rightarrow> string \<Rightarrow> string \<Rightarrow> string option \<Rightarrow> bool \<Rightarrow> 'x write_action" where
  "write_match table name query config stored w =
     (case d_full_text (w_dialect w) of
        Fts5Match \<Rightarrow> do_all [push_qualified table name, push '' match '', push_bind (Text query)] w
      | TsQuery default_config \<Rightarrow>
          let config = (case config of Some c \<Rightarrow> c | None \<Rightarrow> default_config)
          in do_all [write_tsvector table name config stored,
                     push ('' @@ plainto_tsquery('' @ [CHR 0x27]), push config,
                     push (CHR 0x27 # '', ''), push_bind (Text query), push '')''] w)"

definition write_ts_rank ::
  "string \<Rightarrow> string \<Rightarrow> string \<Rightarrow> string option \<Rightarrow> bool \<Rightarrow> 'x write_action" where
  "write_ts_rank table name query config stored w =
     (case d_full_text (w_dialect w) of
        TsQuery default_config \<Rightarrow>
          let config = (case config of Some c \<Rightarrow> c | None \<Rightarrow> default_config)
          in do_all [push ''ts_rank('', write_tsvector table name config stored,
                     push ('', plainto_tsquery('' @ [CHR 0x27]), push config,
                     push (CHR 0x27 # '', ''), push_bind (Text query), push ''))''] w
      | Fts5Match \<Rightarrow>
          do_all [mark_unsupported ''ts_rank (Postgres full-text only)'', push ''ts_rank('',
                  push_qualified table name, push '', '', push_bind (Text query), push '')''] w)"

definition write_like :: "string \<Rightarrow> string \<Rightarrow> 'x sql_value \<Rightarrow> 'x write_action" where
  "write_like table name pattern =
     do_all [push_qualified table name, push '' like '', push_bind pattern,
             push ('' escape '' @ [CHR 0x27, CHR 0x5C, CHR 0x27])]"

definition write_spatial ::
  "string \<Rightarrow> string \<Rightarrow> string \<Rightarrow> 'x sql_value \<Rightarrow> 'x option \<Rightarrow> 'x write_action" where
  "write_spatial func table name geom dist w =
     do_all ((if w_supports_spatial w then [] else [mark_unsupported ''PostGIS'']) @
             [push func, push ''('', push_qualified table name, push '', '', push_bind geom] @
             (case dist of None \<Rightarrow> [] | Some m \<Rightarrow> [push '', '', push_bind (F64 m)]) @
             [push '')'']) w"

text \<open>The items of a loop that writes a separator before every item but the first.\<close>

fun separated :: "string \<Rightarrow> 'x write_action list \<Rightarrow> 'x write_action list" where
  "separated sep [] = []"
| "separated sep [a] = [a]"
| "separated sep (a # b # as) = a # push sep # separated sep (b # as)"

definition write_any_of :: "string \<Rightarrow> string \<Rightarrow> 'x sql_value \<Rightarrow> 'x write_action" where
  "write_any_of table name values w =
     (if w_supports_any_array w
      then do_all [push_qualified table name, push '' = any('', push_bind values, push '')''] w
      else
        case values of
          Array _ items \<Rightarrow>
            if items = [] then push ''1 = 0'' w
            else do_all ([push_qualified table name, push '' in (''] @
                         separated '', '' (map push_bind items) @ [push '')'']) w
        | _ \<Rightarrow> do_all [push_qualified table name, push '' in ('', push_bind values, push '')''] w)"

definition write_excluded :: "string \<Rightarrow> 'x write_action" where
  "write_excluded name w =
     (if d_upsert_on_duplicate_key (w_dialect w)
      then do_all [push ''values('', push_ident name, push '')''] w
      else do_all [push ''excluded.'', push_ident name] w)"

definition write_now :: "64 word option \<Rightarrow> 'x write_action" where
  "write_now seconds w =
     do_all ((if d_name (w_dialect w) \<noteq> ''postgres''
              then [mark_unsupported ''database timestamp expressions (Postgres only)''] else []) @
             [push ''now()''] @
             (case seconds of
                None \<Rightarrow> []
              | Some s \<Rightarrow>
                  [push '' - ('', push_bind (I64 s),
                   push (''::bigint * interval '' @ [CHR 0x27] @ ''1 second'' @ [CHR 0x27] @ '')'')])) w"

fun write_into :: "'x operand \<Rightarrow> 'x write_action"
and write_pred_expr :: "'x predicate \<Rightarrow> 'x write_action" where
  "write_into (Column table name) = push_qualified table name"
| "write_into (Excluded name) = write_excluded name"
| "write_into (Case condition then_value else_value) =
     do_all [push ''case when '', write_pred_expr condition, push '' then '', write_into then_value,
             push '' else '', write_into else_value, push '' end'']"
| "write_into (DatabaseNow seconds) = write_now seconds"
| "write_into (Value v) = push_bind v"
| "write_into (Arith lhs op rhs) =
     do_all [push ''('', write_into lhs, push op, write_into rhs, push '')'']"
| "write_pred_expr (Binary table name op rhs) =
     do_all [push_qualified table name, push op, write_into rhs]"
| "write_pred_expr (IsNull table name) = do_all [push_qualified table name, push '' is null'']"
| "write_pred_expr (AnyOf table name values) = write_any_of table name values"
| "write_pred_expr (AndP left right) =
     do_all [push ''('', write_pred_expr left, push '' and '', write_pred_expr right, push '')'']"
| "write_pred_expr (OrP left right) =
     do_all [push ''('', write_pred_expr left, push '' or '', write_pred_expr right, push '')'']"
| "write_pred_expr (NotP inner) = do_all [push ''not ('', write_pred_expr inner, push '')'']"
| "write_pred_expr (Match table name query config stored) = write_match table name query config stored"
| "write_pred_expr (Like table name pattern) = write_like table name pattern"
| "write_pred_expr (Spatial func table name geom dist) = write_spatial func table name geom dist"
| "write_pred_expr (RawP fragment) = push fragment"

abbreviation write_predicate :: "'x predicate \<Rightarrow> 'x write_action" where
  "write_predicate \<equiv> write_pred_expr"

subsection \<open>Building predicates\<close>

definition raw_pred :: "string \<Rightarrow> 'x predicate" where
  "raw_pred fragment = RawP fragment"

definition eq_value :: "string \<Rightarrow> string \<Rightarrow> 'x sql_value \<Rightarrow> 'x predicate" where
  "eq_value table name v = Binary table name '' = '' (Value v)"

definition column_operand :: "col \<Rightarrow> 'x operand" where
  "column_operand c = Column (col_table c) (col_name c)"

definition binary :: "col \<Rightarrow> string \<Rightarrow> 'x operand \<Rightarrow> 'x predicate" where
  "binary left op right = Binary (col_table left) (col_name left) op right"

definition eq_p :: "col \<Rightarrow> 'x operand \<Rightarrow> 'x predicate" where "eq_p l r = binary l '' = '' r"
definition ne_p :: "col \<Rightarrow> 'x operand \<Rightarrow> 'x predicate" where "ne_p l r = binary l '' <> '' r"
definition gt_p :: "col \<Rightarrow> 'x operand \<Rightarrow> 'x predicate" where "gt_p l r = binary l '' > '' r"
definition lt_p :: "col \<Rightarrow> 'x operand \<Rightarrow> 'x predicate" where "lt_p l r = binary l '' < '' r"
definition gte_p :: "col \<Rightarrow> 'x operand \<Rightarrow> 'x predicate" where "gte_p l r = binary l '' >= '' r"
definition lte_p :: "col \<Rightarrow> 'x operand \<Rightarrow> 'x predicate" where "lte_p l r = binary l '' <= '' r"

definition like_p :: "col \<Rightarrow> string \<Rightarrow> 'x predicate" where
  "like_p l pattern = binary l '' like '' (Value (Text pattern))"

definition any_of :: "col \<Rightarrow> value_kind \<Rightarrow> 'x sql_value list \<Rightarrow> 'x predicate" where
  "any_of c kind values = AnyOf (col_table c) (col_name c) (Array kind values)"

definition is_null :: "col \<Rightarrow> 'x predicate" where
  "is_null c = IsNull (col_table c) (col_name c)"

definition and_p :: "'x predicate \<Rightarrow> 'x predicate \<Rightarrow> 'x predicate" where "and_p l r = AndP l r"
definition or_p :: "'x predicate \<Rightarrow> 'x predicate \<Rightarrow> 'x predicate" where "or_p l r = OrP l r"
definition not_p :: "'x predicate \<Rightarrow> 'x predicate" where "not_p p = NotP p"

definition add_expr :: "'x operand \<Rightarrow> 'x operand \<Rightarrow> 'x operand" where
  "add_expr l r = Arith l '' + '' r"

definition sub_expr :: "'x operand \<Rightarrow> 'x operand \<Rightarrow> 'x operand" where
  "sub_expr l r = Arith l '' - '' r"

definition case_when :: "'x predicate \<Rightarrow> 'x operand \<Rightarrow> 'x operand \<Rightarrow> 'x operand" where
  "case_when condition then_value else_value = Case condition then_value else_value"

text \<open>The incoming row of an upsert and the database's clock.\<close>

definition excluded :: "col \<Rightarrow> 'x operand" where
  "excluded c = Excluded (col_name c)"

definition db_now :: "'x operand" where
  "db_now = DatabaseNow None"

definition db_now_minus_seconds :: "64 word \<Rightarrow> 'x operand" where
  "db_now_minus_seconds seconds = DatabaseNow (Some seconds)"

definition full_text_p :: "col \<Rightarrow> string \<Rightarrow> string option \<Rightarrow> bool \<Rightarrow> 'x predicate" where
  "full_text_p c query config stored = Match (col_table c) (col_name c) query config stored"

definition matches :: "col \<Rightarrow> string \<Rightarrow> 'x predicate" where
  "matches c query = full_text_p c query None False"

definition matches_in :: "col \<Rightarrow> string \<Rightarrow> string \<Rightarrow> 'x predicate" where
  "matches_in c query config = full_text_p c query (Some config) False"

definition matches_tsv :: "col \<Rightarrow> string \<Rightarrow> 'x predicate" where
  "matches_tsv c query = full_text_p c query None True"

definition matches_tsv_in :: "col \<Rightarrow> string \<Rightarrow> string \<Rightarrow> 'x predicate" where
  "matches_tsv_in c query config = full_text_p c query (Some config) True"

fun escape_like :: "string \<Rightarrow> string" where
  "escape_like [] = []"
| "escape_like (ch # rest) =
     (if ch = CHR 0x5C \<or> ch = CHR ''%'' \<or> ch = CHR ''_'' then CHR 0x5C # ch # escape_like rest
      else ch # escape_like rest)"

definition contains :: "col \<Rightarrow> string \<Rightarrow> 'x predicate" where
  "contains c needle = Like (col_table c) (col_name c) (Text (''%'' @ escape_like needle @ ''%''))"

subsection \<open>Order terms\<close>

datatype direction = Asc | Desc

record order_term =
  ord_table :: string
  ord_column :: string
  ord_direction :: direction

definition write_order :: "order_term \<Rightarrow> 'x write_action" where
  "write_order ordr =
     do_all [push_qualified (ord_table ordr) (ord_column ordr),
             push (case ord_direction ordr of Asc \<Rightarrow> '' asc'' | Desc \<Rightarrow> '' desc'')]"

definition asc :: "col \<Rightarrow> order_term" where
  "asc c = \<lparr>ord_table = col_table c, ord_column = col_name c, ord_direction = Asc\<rparr>"

definition desc :: "col \<Rightarrow> order_term" where
  "desc c = \<lparr>ord_table = col_table c, ord_column = col_name c, ord_direction = Desc\<rparr>"

end
