(* ===== verification/Statements.thy ===== *)
theory Statements
  imports Predicates
begin

text \<open>
  The statements of the ORM: projections (\<^verbatim>\<open>orm/src/projection.rs\<close>, \<^verbatim>\<open>vector.rs\<close>), \<^verbatim>\<open>SELECT\<close>
  (\<^verbatim>\<open>query.rs\<close>), \<^verbatim>\<open>UPDATE\<close> and \<^verbatim>\<open>DELETE\<close> (\<^verbatim>\<open>mutation.rs\<close>). A builder's executor
  is represented by its dialect, the only thing rendering uses of it; \<^const>\<open>None\<close> is a
  builder without executor.
\<close>

definition exec_dialect :: "dialect option \<Rightarrow> dialect" where
  "exec_dialect exec = (case exec of Some d \<Rightarrow> d | None \<Rightarrow> default_dialect)"

subsection \<open>Projections\<close>

record ts_rank =
  tr_table :: string
  tr_name :: string
  tr_query :: string
  tr_config :: "string option"
  tr_stored :: bool

datatype on_delete = Cascade | Restrict | SetNull | NoAction

fun on_delete_sql :: "on_delete \<Rightarrow> string" where
  "on_delete_sql Cascade = ''cascade''"
| "on_delete_sql Restrict = ''restrict''"
| "on_delete_sql SetNull = ''set null''"
| "on_delete_sql NoAction = ''no action''"

record column_reference =
  cr_table :: string
  cr_column :: string
  cr_on_delete :: on_delete

text \<open>A column's metadata, with the kind its field's type decodes as.\<close>

record table_column =
  tc_name :: string
  tc_sql_type :: string
  tc_is_pk :: bool
  tc_is_unique :: bool
  tc_is_index :: bool
  tc_index_method :: "string option"
  tc_index_opclass :: "string option"
  tc_is_nullable :: bool
  tc_default :: "string option"
  tc_references :: "column_reference option"
  tc_read_cast :: "string option"
  tc_kind :: value_kind

definition create_index_sql :: "table_column \<Rightarrow> string \<Rightarrow> string option" where
  "create_index_sql c table =
     (if \<not> tc_is_index c then None
      else
        let using = (case tc_index_method c of None \<Rightarrow> [] | Some meth \<Rightarrow> '' using '' @ meth);
            opclass = (case tc_index_opclass c of None \<Rightarrow> [] | Some oc \<Rightarrow> '' '' @ oc)
        in Some (''create index '' @ [CHR 0x22] @ ''idx_'' @ table @ ''_'' @ tc_name c @ [CHR 0x22] @ '' on '' @
                 [CHR 0x22] @ table @ [CHR 0x22] @ using @ '' ('' @ [CHR 0x22] @ tc_name c @ [CHR 0x22] @ opclass @ '')''))"

record table_meta =
  tm_table :: string
  tm_columns :: "table_column list"

datatype 'x projection =
    PCol string string value_kind "string option"
  | PCount
  | PAgg string string string bool value_kind
  | PSqlExpr string value_kind
  | PTsRank ts_rank
  | PDistance string string "'x list" distance
  | PAll table_meta bool
  | PTuple "'x projection list"

text \<open>The constructors of aggregates, raw fragments, ranks and distances.\<close>

definition min_col :: "col \<Rightarrow> value_kind \<Rightarrow> 'x projection" where
  "min_col c out = PAgg ''min'' (col_table c) (col_name c) False out"

definition max_col :: "col \<Rightarrow> value_kind \<Rightarrow> 'x projection" where
  "max_col c out = PAgg ''max'' (col_table c) (col_name c) False out"

definition count_col :: "col \<Rightarrow> 'x projection" where
  "count_col c = PAgg ''count'' (col_table c) (col_name c) False KI64"

definition sum_col :: "col \<Rightarrow> value_kind \<Rightarrow> 'x projection" where
  "sum_col c out = PAgg ''sum'' (col_table c) (col_name c) True out"

definition avg_col :: "col \<Rightarrow> value_kind \<Rightarrow> 'x projection" where
  "avg_col c out = PAgg ''avg'' (col_table c) (col_name c) True out"

definition sql_expr :: "string \<Rightarrow> value_kind \<Rightarrow> 'x projection" where
  "sql_expr fragment out = PSqlExpr fragment out"

definition ts_rank_new :: "col \<Rightarrow> string \<Rightarrow> ts_rank" where
  "ts_rank_new c query =
     \<lparr>tr_table = col_table c, tr_name = col_name c, tr_query = query, tr_config = None, tr_stored = False\<rparr>"

definition ts_rank_stored :: "col \<Rightarrow> string \<Rightarrow> ts_rank" where
  "ts_rank_stored c query =
     \<lparr>tr_table = col_table c, tr_name = col_name c, tr_query = query, tr_config = None, tr_stored = True\<rparr>"

definition ts_rank_in :: "col \<Rightarrow> string \<Rightarrow> string \<Rightarrow> ts_rank" where
  "ts_rank_in c query config =
     \<lparr>tr_table = col_table c, tr_name = col_name c, tr_query = query, tr_config = Some config, tr_stored = False\<rparr>"

definition distance_score :: "col \<Rightarrow> 'x list \<Rightarrow> distance \<Rightarrow> 'x projection" where
  "distance_score c query metric = PDistance (col_table c) (col_name c) query metric"

fun arity :: "'x projection \<Rightarrow> nat" where
  "arity (PAll t _) = length (tm_columns t)"
| "arity (PTuple ps) = sum_list (map arity ps)"
| "arity _ = 1"

fun numeric_cast :: "value_kind \<Rightarrow> string option" where
  "numeric_cast KI16 = Some ''smallint''"
| "numeric_cast KI32 = Some ''integer''"
| "numeric_cast KI64 = Some ''bigint''"
| "numeric_cast KF32 = Some ''real''"
| "numeric_cast KF64 = Some ''double precision''"
| "numeric_cast _ = None"

definition push_read_cast :: "string option \<Rightarrow> 'x write_action" where
  "push_read_cast cast w =
     (case cast of
        Some c \<Rightarrow> if w_supports_cast w then do_all [push ''::'', push c] w else Inr w
      | None \<Rightarrow> Inr w)"

definition write_rank :: "ts_rank \<Rightarrow> 'x write_action" where
  "write_rank r = write_ts_rank (tr_table r) (tr_name r) (tr_query r) (tr_config r) (tr_stored r)"

text \<open>A vector distance, selected or ordered by.\<close>

definition write_distance :: "string \<Rightarrow> string \<Rightarrow> 'x list \<Rightarrow> distance \<Rightarrow> 'x write_action" where
  "write_distance table name query metric w =
     (case d_vector_distance (w_dialect w) metric of
        Operator op \<Rightarrow> do_all [push_qualified table name, push op, push_bind (Vector query)] w
      | Function f \<Rightarrow>
          do_all [push f, push ''('', push_qualified table name, push '', '',
                  push_bind (Vector query), push '')''] w)"

definition write_all_columns :: "table_meta \<Rightarrow> 'x write_action" where
  "write_all_columns t =
     do_all (separated '', ''
       (map (\<lambda>c. do_all [push_qualified (tm_table t) (tc_name c), push_read_cast (tc_read_cast c)])
          (tm_columns t)))"

fun write_columns :: "'x projection \<Rightarrow> 'x write_action" where
  "write_columns (PCol table name kind cast) = do_all [push_qualified table name, push_read_cast cast]"
| "write_columns PCount = push ''count(*)''"
| "write_columns (PAgg func table name widened kind) =
     do_all [push func, push ''('', push_qualified table name, push '')'',
             push_read_cast (if widened then numeric_cast kind else None)]"
| "write_columns (PSqlExpr fragment kind) = push fragment"
| "write_columns (PTsRank r) = write_rank r"
| "write_columns (PDistance table name query metric) = write_distance table name query metric"
| "write_columns (PAll t nullable) = write_all_columns t"
| "write_columns (PTuple ps) = do_all (separated '', '' (map write_columns ps))"

text \<open>
  A result row: a cell read as a kind, and whether a cell is \<^verbatim>\<open>NULL\<close>. Decoding gives the
  cells' values in the shape of the projection.
\<close>

record 'x row =
  try_value :: "nat \<Rightarrow> value_kind \<Rightarrow> orm_error + 'x sql_value"
  cell_is_null :: "nat \<Rightarrow> orm_error + bool"

datatype 'x decoded = Cell "'x sql_value" | WholeRow "'x sql_value list" | NoRow | Tup "'x decoded list"

fun outer_absent_loop :: "'x row \<Rightarrow> nat list \<Rightarrow> orm_error + bool" where
  "outer_absent_loop row [] = Inr True"
| "outer_absent_loop row (i # is) =
     (case cell_is_null row i of
        Inl e \<Rightarrow> Inl e
      | Inr True \<Rightarrow> outer_absent_loop row is
      | Inr False \<Rightarrow> Inr False)"

fun pk_position :: "table_column list \<Rightarrow> nat option" where
  "pk_position [] = None"
| "pk_position (c # cs) = (if tc_is_pk c then Some 0 else map_option Suc (pk_position cs))"

definition outer_join_absent :: "table_meta \<Rightarrow> 'x row \<Rightarrow> nat \<Rightarrow> orm_error + bool" where
  "outer_join_absent t row start =
     (case pk_position (tm_columns t) of
        Some pk \<Rightarrow> cell_is_null row (start + pk)
      | None \<Rightarrow> outer_absent_loop row (map (\<lambda>i. start + i) [0..<length (tm_columns t)]))"

fun from_row_at :: "table_column list \<Rightarrow> 'x row \<Rightarrow> nat \<Rightarrow> orm_error + 'x sql_value list" where
  "from_row_at [] row start = Inr []"
| "from_row_at (c # cs) row start =
     (case try_value row start (tc_kind c) of
        Inl e \<Rightarrow> Inl e
      | Inr v \<Rightarrow> (case from_row_at cs row (Suc start) of Inl e \<Rightarrow> Inl e | Inr vs \<Rightarrow> Inr (v # vs)))"

definition decode_all :: "table_meta \<Rightarrow> bool \<Rightarrow> 'x row \<Rightarrow> nat \<Rightarrow> orm_error + 'x decoded" where
  "decode_all t nullable row start =
     (case (if nullable then outer_join_absent t row start else Inr False) of
        Inl e \<Rightarrow> Inl e
      | Inr True \<Rightarrow> Inr NoRow
      | Inr False \<Rightarrow>
          (case from_row_at (tm_columns t) row start of Inl e \<Rightarrow> Inl e | Inr vs \<Rightarrow> Inr (WholeRow vs)))"

definition decode_cell :: "'x row \<Rightarrow> nat \<Rightarrow> value_kind \<Rightarrow> orm_error + 'x decoded" where
  "decode_cell row start kind =
     (case try_value row start kind of Inl e \<Rightarrow> Inl e | Inr v \<Rightarrow> Inr (Cell v))"

text \<open>The elements of a tuple, each with its decoder and its arity, one after the other.\<close>

fun decode_tuple :: "((nat \<Rightarrow> orm_error + 'x decoded) \<times> nat) list \<Rightarrow> nat \<Rightarrow> orm_error + 'x decoded list" where
  "decode_tuple [] offset = Inr []"
| "decode_tuple ((element, width) # ps) offset =
     (case element offset of
        Inl e \<Rightarrow> Inl e
      | Inr v \<Rightarrow>
          (case decode_tuple ps (offset + width) of Inl e \<Rightarrow> Inl e | Inr vs \<Rightarrow> Inr (v # vs)))"

fun decode :: "'x projection \<Rightarrow> 'x row \<Rightarrow> nat \<Rightarrow> orm_error + 'x decoded" where
  "decode (PCol table name kind cast) row start = decode_cell row start kind"
| "decode PCount row start = decode_cell row start KI64"
| "decode (PAgg func table name widened kind) row start = decode_cell row start kind"
| "decode (PSqlExpr fragment kind) row start = decode_cell row start kind"
| "decode (PTsRank r) row start = decode_cell row start KF32"
| "decode (PDistance table name query metric) row start = decode_cell row start KF64"
| "decode (PAll t nullable) row start = decode_all t nullable row start"
| "decode (PTuple ps) row start =
     (case decode_tuple (map (\<lambda>p. (decode p row, arity p)) ps) start of Inl e \<Rightarrow> Inl e | Inr vs \<Rightarrow> Inr (Tup vs))"

subsection \<open>Select\<close>

datatype group_term = GroupColumn string string | GroupSql string

record 'x join =
  j_keyword :: string
  j_table :: string
  j_on :: "'x predicate"

record 'x nearest_order =
  no_table :: string
  no_name :: string
  no_query :: "'x list"
  no_metric :: distance

record 'x nearest_geo =
  ng_table :: string
  ng_name :: string
  ng_geom :: "'x sql_value"

record 'x select =
  sel_projection :: "'x projection"
  sel_exec :: "dialect option"
  sel_from :: string
  sel_joins :: "'x join list"
  sel_filter :: "'x predicate option"
  sel_group :: "group_term list"
  sel_having :: "'x predicate option"
  sel_order :: "order_term list"
  sel_nearest :: "'x nearest_order option"
  sel_nearest_geo :: "'x nearest_geo option"
  sel_rank_order :: "ts_rank option"
  sel_limit :: "64 word option"
  sel_offset :: "64 word option"

definition select_new :: "'x projection \<Rightarrow> 'x select" where
  "select_new projection =
     \<lparr>sel_projection = projection, sel_exec = None, sel_from = [], sel_joins = [], sel_filter = None,
      sel_group = [], sel_having = None, sel_order = [], sel_nearest = None, sel_nearest_geo = None,
      sel_rank_order = None, sel_limit = None, sel_offset = None\<rparr>"

definition add_join :: "string \<Rightarrow> string \<Rightarrow> 'x predicate \<Rightarrow> 'x select \<Rightarrow> 'x select" where
  "add_join keyword table on s =
     s\<lparr>sel_joins := sel_joins s @ [\<lparr>j_keyword = keyword, j_table = table, j_on = on\<rparr>]\<rparr>"

definition inner_join :: "string \<Rightarrow> 'x predicate \<Rightarrow> 'x select \<Rightarrow> 'x select" where
  "inner_join table on s = add_join ''inner join'' table on s"

definition left_join :: "string \<Rightarrow> 'x predicate \<Rightarrow> 'x select \<Rightarrow> 'x select" where
  "left_join table on s = add_join ''left join'' table on s"

definition right_join :: "string \<Rightarrow> 'x predicate \<Rightarrow> 'x select \<Rightarrow> 'x select" where
  "right_join table on s = add_join ''right join'' table on s"

text \<open>A further filter is conjoined with the filters so far.\<close>

definition conjoin :: "'x predicate option \<Rightarrow> 'x predicate \<Rightarrow> 'x predicate option" where
  "conjoin existing predicate =
     Some (case existing of Some e \<Rightarrow> and_p e predicate | None \<Rightarrow> predicate)"

definition select_filter :: "'x predicate \<Rightarrow> 'x select \<Rightarrow> 'x select" where
  "select_filter predicate s = s\<lparr>sel_filter := conjoin (sel_filter s) predicate\<rparr>"

definition select_group_by :: "col \<Rightarrow> 'x select \<Rightarrow> 'x select" where
  "select_group_by c s = s\<lparr>sel_group := sel_group s @ [GroupColumn (col_table c) (col_name c)]\<rparr>"

definition select_group_by_sql :: "string \<Rightarrow> 'x select \<Rightarrow> 'x select" where
  "select_group_by_sql fragment s = s\<lparr>sel_group := sel_group s @ [GroupSql fragment]\<rparr>"

definition select_having :: "'x predicate \<Rightarrow> 'x select \<Rightarrow> 'x select" where
  "select_having predicate s = s\<lparr>sel_having := Some predicate\<rparr>"

definition select_order_by_rank :: "ts_rank \<Rightarrow> 'x select \<Rightarrow> 'x select" where
  "select_order_by_rank r s = s\<lparr>sel_rank_order := Some r\<rparr>"

definition select_order_by :: "order_term \<Rightarrow> 'x select \<Rightarrow> 'x select" where
  "select_order_by ordr s = s\<lparr>sel_order := sel_order s @ [ordr]\<rparr>"

definition select_nearest :: "col \<Rightarrow> 'x list \<Rightarrow> distance \<Rightarrow> 'x select \<Rightarrow> 'x select" where
  "select_nearest c query metric s =
     s\<lparr>sel_nearest := Some \<lparr>no_table = col_table c, no_name = col_name c, no_query = query, no_metric = metric\<rparr>\<rparr>"

definition select_nearest_geo :: "col \<Rightarrow> 'x sql_value \<Rightarrow> 'x select \<Rightarrow> 'x select" where
  "select_nearest_geo c geom s =
     s\<lparr>sel_nearest_geo := Some \<lparr>ng_table = col_table c, ng_name = col_name c, ng_geom = geom\<rparr>\<rparr>"

definition select_limit :: "64 word \<Rightarrow> 'x select \<Rightarrow> 'x select" where
  "select_limit n s = s\<lparr>sel_limit := Some n\<rparr>"

definition select_offset :: "64 word \<Rightarrow> 'x select \<Rightarrow> 'x select" where
  "select_offset n s = s\<lparr>sel_offset := Some n\<rparr>"

definition write_group_term :: "group_term \<Rightarrow> 'x write_action" where
  "write_group_term term =
     (case term of GroupColumn table column \<Rightarrow> push_qualified table column | GroupSql fragment \<Rightarrow> push fragment)"

definition opt_clause :: "string \<Rightarrow> ('a \<Rightarrow> 'x write_action) \<Rightarrow> 'a option \<Rightarrow> 'x write_action list" where
  "opt_clause keyword f x = (case x of None \<Rightarrow> [] | Some y \<Rightarrow> [push keyword, f y])"

definition list_clause :: "string \<Rightarrow> ('a \<Rightarrow> 'x write_action) \<Rightarrow> 'a list \<Rightarrow> 'x write_action list" where
  "list_clause keyword f xs = (if xs = [] then [] else push keyword # separated '', '' (map f xs))"

definition write_join :: "'x join \<Rightarrow> 'x write_action" where
  "write_join j =
     do_all [push '' '', push (j_keyword j), push '' '', push_ident (j_table j), push '' on '',
             write_predicate (j_on j)]"

definition write_nearest :: "'x nearest_order \<Rightarrow> 'x write_action" where
  "write_nearest n =
     do_all [write_distance (no_table n) (no_name n) (no_query n) (no_metric n), push '' asc'']"

definition write_nearest_geo :: "bool \<Rightarrow> 'x nearest_geo \<Rightarrow> 'x write_action" where
  "write_nearest_geo order_started g w =
     do_all ((if w_supports_spatial w then [] else [mark_unsupported ''PostGIS'']) @
             [push (if order_started then '', '' else '' order by ''),
              push_qualified (ng_table g) (ng_name g), push '' <-> '', push_bind (ng_geom g), push '' asc'']) w"

definition order_sep :: "bool \<Rightarrow> string" where
  "order_sep started = (if started then '', '' else '' order by '')"

definition write_select :: "'x select \<Rightarrow> 'x write_action" where
  "write_select s =
     (let ordered = sel_order s \<noteq> [];
          near = ordered \<or> sel_nearest s \<noteq> None;
          geo = near \<or> sel_nearest_geo s \<noteq> None
      in do_all
           ([push ''select '', write_columns (sel_projection s), push '' from '', push_ident (sel_from s)] @
            map write_join (sel_joins s) @
            opt_clause '' where '' write_predicate (sel_filter s) @
            list_clause '' group by '' write_group_term (sel_group s) @
            opt_clause '' having '' write_predicate (sel_having s) @
            list_clause '' order by '' write_order (sel_order s) @
            opt_clause (order_sep ordered) write_nearest (sel_nearest s) @
            (case sel_nearest_geo s of None \<Rightarrow> [] | Some g \<Rightarrow> [write_nearest_geo near g]) @
            (case sel_rank_order s of
               None \<Rightarrow> []
             | Some r \<Rightarrow> [push (order_sep geo), write_rank r, push '' desc'']) @
            opt_clause '' limit '' (\<lambda>n. push_bind (I64 n)) (sel_limit s) @
            opt_clause '' offset '' (\<lambda>n. push_bind (I64 n)) (sel_offset s)))"

definition select_into_sql :: "'x select \<Rightarrow> orm_error + (string \<times> 'x sql_value list)" where
  "select_into_sql s = assemble (exec_dialect (sel_exec s)) (write_select s)"

text \<open>The query a count or an existence test wraps: paging and ordering are dropped.\<close>

definition unpaged :: "'x select \<Rightarrow> 'x select" where
  "unpaged s =
     s\<lparr>sel_limit := None, sel_offset := None, sel_order := [], sel_nearest := None,
       sel_nearest_geo := None, sel_rank_order := None\<rparr>"

definition wrapped_scalar ::
  "string \<Rightarrow> string \<Rightarrow> 'x select \<Rightarrow> orm_error + (string \<times> 'x sql_value list)" where
  "wrapped_scalar prefix suffix s =
     (if sel_exec s = None then Inl NotFound
      else case select_into_sql (unpaged s) of
             Inl e \<Rightarrow> Inl e
           | Inr (inner, arguments) \<Rightarrow> Inr (prefix @ inner @ suffix, arguments))"

definition select_count :: "'x select \<Rightarrow> orm_error + (string \<times> 'x sql_value list)" where
  "select_count s = wrapped_scalar ''select count(*) from ('' '') as __count'' s"

definition select_exists :: "'x select \<Rightarrow> orm_error + (string \<times> 'x sql_value list)" where
  "select_exists s = wrapped_scalar ''select exists('' '')'' s"

subsection \<open>Update and delete\<close>

record 'x update =
  up_exec :: "dialect option"
  up_table :: string
  up_sets :: "(string \<times> 'x operand) list"
  up_filter :: "'x predicate option"

definition update_new :: "string \<Rightarrow> 'x update" where
  "update_new table = \<lparr>up_exec = None, up_table = table, up_sets = [], up_filter = None\<rparr>"

definition update_set :: "col \<Rightarrow> 'x operand \<Rightarrow> 'x update \<Rightarrow> 'x update" where
  "update_set column v u = u\<lparr>up_sets := up_sets u @ [(col_name column, v)]\<rparr>"

definition update_set_null :: "col \<Rightarrow> value_kind \<Rightarrow> 'x update \<Rightarrow> 'x update" where
  "update_set_null column kind u = u\<lparr>up_sets := up_sets u @ [(col_name column, Value (Null kind))]\<rparr>"

definition update_filter :: "'x predicate \<Rightarrow> 'x update \<Rightarrow> 'x update" where
  "update_filter predicate u = u\<lparr>up_filter := conjoin (up_filter u) predicate\<rparr>"

definition write_set :: "string \<times> 'x operand \<Rightarrow> 'x write_action" where
  "write_set = (\<lambda>(column, v). do_all [push_ident column, push '' = '', write_into v])"

definition update_into_sql :: "'x update \<Rightarrow> orm_error + (string \<times> 'x sql_value list)" where
  "update_into_sql u =
     (if up_sets u = [] then Inl NotFound
      else assemble (exec_dialect (up_exec u))
             (do_all ([push ''update '', push_ident (up_table u), push '' set ''] @
                      separated '', '' (map write_set (up_sets u)) @
                      opt_clause '' where '' write_predicate (up_filter u))))"

record 'x delete =
  del_exec :: "dialect option"
  del_table :: string
  del_filter :: "'x predicate option"

definition delete_new :: "string \<Rightarrow> 'x delete" where
  "delete_new table = \<lparr>del_exec = None, del_table = table, del_filter = None\<rparr>"

definition delete_filter :: "'x predicate \<Rightarrow> 'x delete \<Rightarrow> 'x delete" where
  "delete_filter predicate d = d\<lparr>del_filter := conjoin (del_filter d) predicate\<rparr>"

definition delete_into_sql :: "'x delete \<Rightarrow> orm_error + (string \<times> 'x sql_value list)" where
  "delete_into_sql d =
     assemble (exec_dialect (del_exec d))
       (do_all ([push ''delete from '', push_ident (del_table d)] @
                opt_clause '' where '' write_predicate (del_filter d)))"

end
