(* ===== verification/Inserts.thy ===== *)
theory Inserts
  imports Statements
begin

text \<open>
  \<^verbatim>\<open>INSERT\<close> and upserts (\<^verbatim>\<open>orm/src/insert.rs\<close>). A row type's constants and the methods
  \<^verbatim>\<open>optional_present\<close> and \<^verbatim>\<open>bind_values\<close> are what \<^verbatim>\<open>#[derive(Table)]\<close> emits for it
  (\<^verbatim>\<open>orm-derive/src/lib.rs\<close>, \<^verbatim>\<open>emit_insertable\<close>): a required column always has a value, a column
  with a default has one or none.
\<close>

subsection \<open>Rows\<close>

record insertable =
  in_table :: string
  in_required :: "(string \<times> string option) list"
  in_optional :: "(string \<times> value_kind \<times> string option) list"

record 'x new_row =
  nr_required :: "'x sql_value list"
  nr_optional :: "'x sql_value option list"

definition optional_present :: "'x new_row \<Rightarrow> bool list" where
  "optional_present r = map (\<lambda>v. v \<noteq> None) (nr_optional r)"

definition boxed_bind :: "'x sql_value \<Rightarrow> string option \<Rightarrow> 'x sql_value" where
  "boxed_bind v write_cast = with_cast v write_cast"

definition optional_bind :: "string \<times> value_kind \<times> string option \<Rightarrow> 'x sql_value option \<Rightarrow> 'x sql_value" where
  "optional_bind = (\<lambda>(name, kind, cast) v. boxed_bind (case v of Some x \<Rightarrow> x | None \<Rightarrow> Null kind) cast)"

text \<open>The values a row binds: all required columns, then the optional columns included.\<close>

definition row_values :: "insertable \<Rightarrow> bool list \<Rightarrow> 'x new_row \<Rightarrow> 'x sql_value list" where
  "row_values N included r =
     map2 (\<lambda>(name, cast) v. boxed_bind v cast) (in_required N) (nr_required r) @
     map (\<lambda>(i, c, v). optional_bind c v)
       (filter fst (zip included (zip (in_optional N) (nr_optional r))))"

definition bind_values :: "insertable \<Rightarrow> bool list \<Rightarrow> 'x new_row \<Rightarrow> 'x write_action" where
  "bind_values N included r = do_all (separated '', '' (map push_bind (row_values N included r)))"

subsection \<open>Conflicts\<close>

datatype 'x update_mode = ExcludedMode | Expression "'x operand" | CoalesceExisting | AddExcluded

record 'x column_update =
  cu_column :: string
  cu_mode :: "'x update_mode"

datatype 'x conflict_action =
    Nothing
  | UpdateAll
  | UpdateAllExcept "string list"
  | UpdateColumns "'x column_update list"

record 'x conflict =
  cf_targets :: "string list"
  cf_action :: "'x conflict_action"
  cf_predicate :: "'x predicate option"

record 'x insert =
  ins_exec :: "dialect option"
  ins_rows :: "'x new_row list"
  ins_conflict :: "'x conflict option"

definition insert_new :: "'x new_row list \<Rightarrow> 'x insert" where
  "insert_new rows = \<lparr>ins_exec = None, ins_rows = rows, ins_conflict = None\<rparr>"

definition on_conflict_do_nothing :: "col \<Rightarrow> 'x insert \<Rightarrow> 'x insert" where
  "on_conflict_do_nothing column i =
     i\<lparr>ins_conflict := Some \<lparr>cf_targets = [col_name column], cf_action = Nothing, cf_predicate = None\<rparr>\<rparr>"

definition on_conflict_do_update :: "col \<Rightarrow> 'x insert \<Rightarrow> 'x insert" where
  "on_conflict_do_update column i =
     i\<lparr>ins_conflict := Some \<lparr>cf_targets = [col_name column], cf_action = UpdateAll, cf_predicate = None\<rparr>\<rparr>"

record 'x upsert =
  ups_insert :: "'x insert"
  ups_targets :: "string list"
  ups_updates :: "'x column_update list"
  ups_predicate :: "'x predicate option"

definition on_conflict :: "string list \<Rightarrow> 'x insert \<Rightarrow> 'x upsert" where
  "on_conflict key i = \<lparr>ups_insert = i, ups_targets = key, ups_updates = [], ups_predicate = None\<rparr>"

definition add_update :: "col \<Rightarrow> 'x update_mode \<Rightarrow> 'x upsert \<Rightarrow> 'x upsert" where
  "add_update column mode u =
     u\<lparr>ups_updates := ups_updates u @ [\<lparr>cu_column = col_name column, cu_mode = mode\<rparr>]\<rparr>"

definition set_expr :: "col \<Rightarrow> 'x operand \<Rightarrow> 'x upsert \<Rightarrow> 'x upsert" where
  "set_expr column e u = add_update column (Expression e) u"

definition set_excluded :: "col \<Rightarrow> 'x upsert \<Rightarrow> 'x upsert" where
  "set_excluded column u = add_update column ExcludedMode u"

definition set_coalesce :: "col \<Rightarrow> 'x upsert \<Rightarrow> 'x upsert" where
  "set_coalesce column u = add_update column CoalesceExisting u"

definition set_add :: "col \<Rightarrow> 'x upsert \<Rightarrow> 'x upsert" where
  "set_add column u = add_update column AddExcluded u"

definition where_conflict :: "'x predicate \<Rightarrow> 'x upsert \<Rightarrow> 'x upsert" where
  "where_conflict predicate u = u\<lparr>ups_predicate := conjoin (ups_predicate u) predicate\<rparr>"

definition with_conflict :: "'x conflict_action \<Rightarrow> 'x predicate option \<Rightarrow> 'x upsert \<Rightarrow> 'x insert" where
  "with_conflict a predicate u =
     (ups_insert u)\<lparr>ins_conflict := Some \<lparr>cf_targets = ups_targets u, cf_action = a, cf_predicate = predicate\<rparr>\<rparr>"

definition do_nothing :: "'x upsert \<Rightarrow> 'x insert" where
  "do_nothing u = with_conflict Nothing None u"

definition do_update_all :: "'x upsert \<Rightarrow> 'x insert" where
  "do_update_all u = with_conflict UpdateAll (ups_predicate u) u"

definition do_update_all_except :: "string list \<Rightarrow> 'x upsert \<Rightarrow> 'x insert" where
  "do_update_all_except columns u = with_conflict (UpdateAllExcept columns) (ups_predicate u) u"

definition into_insert :: "'x upsert \<Rightarrow> 'x insert" where
  "into_insert u =
     with_conflict (if ups_updates u = [] then Nothing else UpdateColumns (ups_updates u)) (ups_predicate u) u"

subsection \<open>Writing the conflict clause\<close>

definition write_incoming :: "bool \<Rightarrow> string \<Rightarrow> 'x write_action" where
  "write_incoming mysql column =
     (if mysql then do_all [push ''values('', push_ident column, push '')'']
      else do_all [push ''excluded.'', push_ident column])"

definition write_stored :: "bool \<Rightarrow> string \<Rightarrow> string \<Rightarrow> 'x write_action" where
  "write_stored mysql table column = (if mysql then push_ident column else push_qualified table column)"

definition write_update :: "string \<Rightarrow> bool \<Rightarrow> 'x column_update \<Rightarrow> 'x write_action" where
  "write_update table mysql upd =
     (let column = cu_column upd
      in do_all ([push_ident column, push '' = ''] @
           (case cu_mode upd of
              ExcludedMode \<Rightarrow> [write_incoming mysql column]
            | Expression e \<Rightarrow> [write_into e]
            | CoalesceExisting \<Rightarrow>
                [push ''coalesce('', write_incoming mysql column, push '', '',
                 write_stored mysql table column, push '')'']
            | AddExcluded \<Rightarrow>
                [write_stored mysql table column, push '' + '', write_incoming mysql column])))"

definition excluded_updates :: "string list \<Rightarrow> 'x column_update list" where
  "excluded_updates columns = map (\<lambda>c. \<lparr>cu_column = c, cu_mode = ExcludedMode\<rparr>) columns"

definition resolved_updates :: "'x conflict \<Rightarrow> string list \<Rightarrow> 'x column_update list" where
  "resolved_updates cf columns =
     (case cf_action cf of
        Nothing \<Rightarrow> []
      | UpdateAll \<Rightarrow> excluded_updates (filter (\<lambda>c. c \<notin> set (cf_targets cf)) columns)
      | UpdateAllExcept skip \<Rightarrow>
          excluded_updates (filter (\<lambda>c. c \<notin> set (cf_targets cf) \<and> c \<notin> set skip) columns)
      | UpdateColumns updates \<Rightarrow> updates)"

definition write_conflict :: "'x conflict \<Rightarrow> string \<Rightarrow> string list \<Rightarrow> 'x write_action" where
  "write_conflict cf table columns w =
     (let resolved = resolved_updates cf columns; do_nothing = resolved = []
      in if d_upsert_on_duplicate_key (w_dialect w)
         then do_all
                ((if \<not> do_nothing \<and> cf_predicate cf \<noteq> None
                  then [mark_unsupported ''guarded conflict update (unsupported by MySQL)''] else []) @
                 [push '' on duplicate key update ''] @
                 (if do_nothing
                  then (case cf_targets cf @ columns of
                          [] \<Rightarrow> []
                        | column # _ \<Rightarrow> [push_ident column, push '' = '', push_ident column])
                  else separated '', '' (map (write_update table True) resolved))) w
         else do_all
                ([push '' on conflict (''] @ separated '', '' (map push_ident (cf_targets cf)) @ [push '')''] @
                 (if do_nothing then [push '' do nothing'']
                  else [push '' do update set ''] @
                       separated '', '' (map (write_update table False) resolved) @
                       opt_clause '' where '' write_predicate (cf_predicate cf))) w)"

subsection \<open>Rendering an insert\<close>

text \<open>An optional column is included when some row gives it a value.\<close>

definition optional_included :: "insertable \<Rightarrow> 'x new_row list \<Rightarrow> bool list" where
  "optional_included N rows =
     foldl (\<lambda>included r. map2 (\<or>) included (optional_present r) @ drop (length (optional_present r)) included)
       (replicate (length (in_optional N)) False) rows"

definition column_names :: "insertable \<Rightarrow> bool list \<Rightarrow> string list" where
  "column_names N included =
     map fst (in_required N) @ map (\<lambda>(c, _). fst c) (filter snd (zip (in_optional N) included))"

definition write_head :: "insertable \<Rightarrow> string list \<Rightarrow> 'x write_action list" where
  "write_head N columns =
     [push ''insert into '', push_ident (in_table N), push '' (''] @
     separated '', '' (map push_ident columns) @ [push '') values '']"

definition write_row :: "insertable \<Rightarrow> bool list \<Rightarrow> 'x new_row \<Rightarrow> 'x write_action" where
  "write_row N included r = do_all [push ''('', bind_values N included r, push '')'']"

definition insert_render :: "insertable \<Rightarrow> 'x insert \<Rightarrow> 'x projection option \<Rightarrow> 'x write_action" where
  "insert_render N i returning =
     (let included = (if in_optional N = [] then [] else optional_included N (ins_rows i));
          columns = column_names N included
      in do_all
           (write_head N columns @
            separated '', '' (map (write_row N included) (ins_rows i)) @
            (case ins_conflict i of None \<Rightarrow> [] | Some cf \<Rightarrow> [write_conflict cf (in_table N) columns]) @
            opt_clause '' returning '' write_columns returning))"

text \<open>
  \<^verbatim>\<open>to_sql\<close> gives the text only; \<^verbatim>\<open>exec\<close> and the \<^verbatim>\<open>RETURNING\<close> terminals give a statement to run. Without
  rows nothing is run: \<^const>\<open>None\<close>.
\<close>

definition insert_to_sql :: "insertable \<Rightarrow> 'x insert \<Rightarrow> orm_error + string" where
  "insert_to_sql N i =
     (if ins_rows i = [] then Inr []
      else case assemble (exec_dialect (ins_exec i)) (insert_render N i None) of
             Inl e \<Rightarrow> Inl e
           | Inr (sql, _) \<Rightarrow> Inr sql)"

definition insert_build ::
  "insertable \<Rightarrow> 'x insert \<Rightarrow> 'x projection option \<Rightarrow> orm_error + (string \<times> 'x sql_value list)" where
  "insert_build N i returning =
     (case insert_render N i returning (with_dialect (exec_dialect (ins_exec i))) of
        Inl e \<Rightarrow> Inl (Ident e)
      | Inr w \<Rightarrow> if ins_exec i = None then Inl NotFound else finish w)"

definition insert_exec :: "insertable \<Rightarrow> 'x insert \<Rightarrow> orm_error + (string \<times> 'x sql_value list) option" where
  "insert_exec N i =
     (if ins_rows i = [] then Inr None
      else case insert_build N i None of Inl e \<Rightarrow> Inl e | Inr s \<Rightarrow> Inr (Some s))"

definition ensure_returning_supported :: "'x insert \<Rightarrow> orm_error + unit" where
  "ensure_returning_supported i =
     (case ins_exec i of
        Some d \<Rightarrow> if \<not> d_supports_returning d then Inl (Unsupported ''RETURNING'') else Inr ()
      | None \<Rightarrow> Inr ())"

definition returned_rows ::
  "insertable \<Rightarrow> 'x insert \<Rightarrow> 'x projection \<Rightarrow> orm_error + (string \<times> 'x sql_value list)" where
  "returned_rows N i projection =
     (case ensure_returning_supported i of
        Inl e \<Rightarrow> Inl e
      | Inr _ \<Rightarrow> insert_build N i (Some projection))"

end
