(* ===== verification/WriterContract.thy ===== *)
theory WriterContract
  imports Inserts
begin

text \<open>
  Reasoning about rendered statements. Every statement is a sequence of writer actions, so
  a property of the writer that the primitive actions keep is kept by every statement. The
  locale \<^verbatim>\<open>writer_contract\<close> proves this once, for all operands, predicates, projections and
  statements; \<^verbatim>\<open>SqlProps\<close> interprets it for the properties of the program.
\<close>

subsection \<open>What a statement is made of\<close>

text \<open>
  The application's own texts in a statement satisfy \<^term>\<open>T\<close> and the names it quotes satisfy
  \<^term>\<open>N\<close>. Values are not restricted, except for the type name of a cast. Operators and function
  names do not start with a digit.
\<close>

definition starts :: "string \<Rightarrow> bool" where
  "starts t \<longleftrightarrow> t = [] \<or> \<not> is_digit (hd t)"

fun value_ok :: "(string \<Rightarrow> bool) \<Rightarrow> 'x sql_value \<Rightarrow> bool" where
  "value_ok T (Cast c v) = T c"
| "value_ok T (Array k items) = list_all (value_ok T) items"
| "value_ok T _ = True"

definition opt_ok :: "('a \<Rightarrow> bool) \<Rightarrow> 'a option \<Rightarrow> bool" where
  "opt_ok P x = (case x of None \<Rightarrow> True | Some y \<Rightarrow> P y)"

lemma opt_ok_simps [simp]: "opt_ok P None" "opt_ok P (Some y) = P y"
  by (simp_all add: opt_ok_def)

lemma opt_ok_cong [fundef_cong]:
  "x = y \<Longrightarrow> (\<And>z. y = Some z \<Longrightarrow> P z = Q z) \<Longrightarrow> opt_ok P x = opt_ok Q y"
  by (cases y) auto

fun into_ok :: "(string \<Rightarrow> bool) \<Rightarrow> (string \<Rightarrow> bool) \<Rightarrow> 'x operand \<Rightarrow> bool"
and pred_ok :: "(string \<Rightarrow> bool) \<Rightarrow> (string \<Rightarrow> bool) \<Rightarrow> 'x predicate \<Rightarrow> bool" where
  "into_ok T N (Column t n) = (N t \<and> N n)"
| "into_ok T N (Value v) = value_ok T v"
| "into_ok T N (Excluded n) = N n"
| "into_ok T N (Case c a b) = (pred_ok T N c \<and> into_ok T N a \<and> into_ok T N b)"
| "into_ok T N (DatabaseNow s) = True"
| "into_ok T N (Arith a op b) = (into_ok T N a \<and> T op \<and> starts op \<and> into_ok T N b)"
| "pred_ok T N (Binary t n op rhs) = (N t \<and> N n \<and> T op \<and> starts op \<and> into_ok T N rhs)"
| "pred_ok T N (IsNull t n) = (N t \<and> N n)"
| "pred_ok T N (AnyOf t n v) = (N t \<and> N n \<and> value_ok T v)"
| "pred_ok T N (AndP p q) = (pred_ok T N p \<and> pred_ok T N q)"
| "pred_ok T N (OrP p q) = (pred_ok T N p \<and> pred_ok T N q)"
| "pred_ok T N (NotP p) = pred_ok T N p"
| "pred_ok T N (Match t n query config stored) = (N t \<and> N n \<and> opt_ok T config)"
| "pred_ok T N (Like t n pat) = (N t \<and> N n \<and> value_ok T pat)"
| "pred_ok T N (Spatial f t n g d) = (T f \<and> starts f \<and> N t \<and> N n \<and> value_ok T g)"
| "pred_ok T N (RawP fragment) = T fragment"

definition rank_ok :: "(string \<Rightarrow> bool) \<Rightarrow> (string \<Rightarrow> bool) \<Rightarrow> ts_rank \<Rightarrow> bool" where
  "rank_ok T N r = (N (tr_table r) \<and> N (tr_name r) \<and> opt_ok T (tr_config r))"

definition table_ok :: "(string \<Rightarrow> bool) \<Rightarrow> (string \<Rightarrow> bool) \<Rightarrow> table_meta \<Rightarrow> bool" where
  "table_ok T N t =
     (N (tm_table t) \<and> (\<forall>c \<in> set (tm_columns t). N (tc_name c) \<and> opt_ok T (tc_read_cast c)))"

fun proj_ok :: "(string \<Rightarrow> bool) \<Rightarrow> (string \<Rightarrow> bool) \<Rightarrow> 'x projection \<Rightarrow> bool" where
  "proj_ok T N (PCol t n k cast) = (N t \<and> N n \<and> opt_ok T cast)"
| "proj_ok T N PCount = True"
| "proj_ok T N (PAgg f t n widened k) = (T f \<and> starts f \<and> N t \<and> N n)"
| "proj_ok T N (PSqlExpr fragment k) = T fragment"
| "proj_ok T N (PTsRank r) = rank_ok T N r"
| "proj_ok T N (PDistance t n query metric) = (N t \<and> N n)"
| "proj_ok T N (PAll t nullable) = table_ok T N t"
| "proj_ok T N (PTuple ps) = list_all (proj_ok T N) ps"

definition group_ok :: "(string \<Rightarrow> bool) \<Rightarrow> (string \<Rightarrow> bool) \<Rightarrow> group_term \<Rightarrow> bool" where
  "group_ok T N g = (case g of GroupColumn t n \<Rightarrow> N t \<and> N n | GroupSql s \<Rightarrow> T s)"

definition select_ok :: "(string \<Rightarrow> bool) \<Rightarrow> (string \<Rightarrow> bool) \<Rightarrow> 'x select \<Rightarrow> bool" where
  "select_ok T N s =
     (proj_ok T N (sel_projection s) \<and> N (sel_from s) \<and>
      (\<forall>j \<in> set (sel_joins s). T (j_keyword j) \<and> starts (j_keyword j) \<and> N (j_table j) \<and> pred_ok T N (j_on j)) \<and>
      opt_ok (pred_ok T N) (sel_filter s) \<and>
      (\<forall>g \<in> set (sel_group s). group_ok T N g) \<and>
      opt_ok (pred_ok T N) (sel_having s) \<and>
      (\<forall>r \<in> set (sel_order s). N (ord_table r) \<and> N (ord_column r)) \<and>
      opt_ok (\<lambda>n. N (no_table n) \<and> N (no_name n)) (sel_nearest s) \<and>
      opt_ok (\<lambda>g. N (ng_table g) \<and> N (ng_name g) \<and> value_ok T (ng_geom g)) (sel_nearest_geo s) \<and>
      opt_ok (rank_ok T N) (sel_rank_order s))"

definition update_ok :: "(string \<Rightarrow> bool) \<Rightarrow> (string \<Rightarrow> bool) \<Rightarrow> 'x update \<Rightarrow> bool" where
  "update_ok T N u =
     (N (up_table u) \<and> (\<forall>(c, v) \<in> set (up_sets u). N c \<and> into_ok T N v) \<and>
      opt_ok (pred_ok T N) (up_filter u))"

definition delete_ok :: "(string \<Rightarrow> bool) \<Rightarrow> (string \<Rightarrow> bool) \<Rightarrow> 'x delete \<Rightarrow> bool" where
  "delete_ok T N d = (N (del_table d) \<and> opt_ok (pred_ok T N) (del_filter d))"

definition update_col_ok :: "(string \<Rightarrow> bool) \<Rightarrow> (string \<Rightarrow> bool) \<Rightarrow> 'x column_update \<Rightarrow> bool" where
  "update_col_ok T N u =
     (N (cu_column u) \<and> (case cu_mode u of Expression e \<Rightarrow> into_ok T N e | _ \<Rightarrow> True))"

definition conflict_ok :: "(string \<Rightarrow> bool) \<Rightarrow> (string \<Rightarrow> bool) \<Rightarrow> 'x conflict \<Rightarrow> bool" where
  "conflict_ok T N cf =
     ((\<forall>n \<in> set (cf_targets cf). N n) \<and> opt_ok (pred_ok T N) (cf_predicate cf) \<and>
      (case cf_action cf of UpdateColumns us \<Rightarrow> \<forall>u \<in> set us. update_col_ok T N u | _ \<Rightarrow> True))"

definition insertable_ok :: "(string \<Rightarrow> bool) \<Rightarrow> (string \<Rightarrow> bool) \<Rightarrow> insertable \<Rightarrow> bool" where
  "insertable_ok T N M =
     (N (in_table M) \<and> (\<forall>(n, c) \<in> set (in_required M). N n \<and> opt_ok T c) \<and>
      (\<forall>(n, k, c) \<in> set (in_optional M). N n \<and> opt_ok T c))"

definition row_ok :: "(string \<Rightarrow> bool) \<Rightarrow> 'x new_row \<Rightarrow> bool" where
  "row_ok T r =
     ((\<forall>v \<in> set (nr_required r). value_ok T v) \<and> (\<forall>v \<in> set (nr_optional r). opt_ok (value_ok T) v))"

definition insert_ok ::
  "(string \<Rightarrow> bool) \<Rightarrow> (string \<Rightarrow> bool) \<Rightarrow> insertable \<Rightarrow> 'x insert \<Rightarrow> 'x projection option \<Rightarrow> bool" where
  "insert_ok T N M i returning =
     (insertable_ok T N M \<and> (\<forall>r \<in> set (ins_rows i). row_ok T r) \<and>
      opt_ok (conflict_ok T N) (ins_conflict i) \<and> opt_ok (proj_ok T N) returning)"

text \<open>Texts without a quote or a placeholder character, not starting with a digit.\<close>

definition plain :: "string \<Rightarrow> bool" where
  "plain t \<longleftrightarrow>
     (\<forall>c \<in> set t. c \<noteq> CHR ''$'' \<and> c \<noteq> CHR ''?'' \<and> c \<noteq> CHR 0x22 \<and> c \<noteq> CHR 0x60) \<and>
     starts t"

lemmas plain_simps = plain_def starts_def is_digit_def

text \<open>The writer's cached flags are those of its dialect.\<close>

definition cached :: "'x sql_writer \<Rightarrow> bool" where
  "cached w \<longleftrightarrow>
     w_placeholder_prefix w = d_placeholder_prefix (w_dialect w) \<and>
     w_numbered_placeholders w = d_numbered_placeholders (w_dialect w) \<and>
     w_quote_char w = d_quote_char (w_dialect w) \<and>
     w_supports_any_array w = d_supports_any_array (w_dialect w) \<and>
     w_supports_spatial w = d_supports_spatial (w_dialect w) \<and>
     w_supports_cast w = d_supports_cast (w_dialect w) \<and>
     w_vector_bind w = d_vector_bind (w_dialect w) \<and>
     w_geo_bind w = d_geo_bind (w_dialect w)"

subsection \<open>The contract\<close>

locale writer_contract =
  fixes I :: "'x sql_writer \<Rightarrow> bool"
    and T :: "string \<Rightarrow> bool"
    and N :: "string \<Rightarrow> bool"
    and bad :: "ident_error \<Rightarrow> bool"
  assumes dialect: "I w \<Longrightarrow> w_dialect w \<in> dialects \<and> cached w"
    and plain_text: "plain t \<Longrightarrow> T t"
    and one_text: "T ''1''"
    and joined: "T s \<Longrightarrow> T t \<Longrightarrow> T (s @ t)"
    and texted: "I w \<Longrightarrow> T t \<Longrightarrow> starts t \<Longrightarrow> I (add_text t w)"
    and quoted: "I w \<Longrightarrow> validate n = Inr () \<Longrightarrow>
      I (add_text (w_quote_char w # doubled (w_quote_char w) n @ [w_quote_char w]) w)"
    and refused: "N n \<Longrightarrow> validate n = Inl e \<Longrightarrow> bad e"
    and bound: "I w \<Longrightarrow> value_ok T v \<Longrightarrow> I (add_bound v w)"
    and marked: "I w \<Longrightarrow> w_dialect w \<noteq> PostgresDialect \<Longrightarrow> I (mark f w)"
begin

definition good :: "ident_error + 'x sql_writer \<Rightarrow> bool" where
  "good r = (case r of Inl e \<Rightarrow> bad e | Inr w \<Rightarrow> I w)"

definition ok :: "'x write_action \<Rightarrow> bool" where
  "ok a \<longleftrightarrow> (\<forall>w. I w \<longrightarrow> good (a w))"

lemma okI: "(\<And>w. I w \<Longrightarrow> good (a w)) \<Longrightarrow> ok a"
  by (simp add: ok_def)

lemma okD: "ok a \<Longrightarrow> I w \<Longrightarrow> good (a w)"
  by (simp add: ok_def)

lemma good_simps [simp]: "good (Inl e) = bad e" "good (Inr w) = I w"
  by (simp_all add: good_def)

lemma ok_text: "T t \<Longrightarrow> starts t \<Longrightarrow> ok (push t)"
  by (simp add: ok_def push_def texted)

lemma ok_plain: "plain t \<Longrightarrow> ok (push t)"
  by (simp add: ok_text plain_text plain_def)

lemma ok_ident: "N n \<Longrightarrow> ok (push_ident n)"
  by (auto simp: ok_def push_ident_eq quoted refused split: sum.splits)

lemma ok_bind: "value_ok T v \<Longrightarrow> ok (push_bind v)"
  by (simp add: ok_def push_bind_def bound)

lemma ok_nil: "ok (do_all [])"
  by (simp add: ok_def do_all.simps)

lemma ok_cons: "ok a \<Longrightarrow> ok (do_all as) \<Longrightarrow> ok (do_all (a # as))"
  by (rule okI, drule (1) okD) (auto simp: do_all.simps okD split: sum.splits)

lemma ok_append: "ok (do_all as) \<Longrightarrow> ok (do_all bs) \<Longrightarrow> ok (do_all (as @ bs))"
  by (rule okI, drule (1) okD) (auto simp: do_all_append okD split: sum.splits)

text \<open>Actions whose text may start with a digit, for places where it follows a fixed text.\<close>

definition follows :: "'x write_action \<Rightarrow> bool" where
  "follows a \<longleftrightarrow> (\<forall>u. plain u \<longrightarrow> u \<noteq> [] \<longrightarrow> ok (do_all [push u, a]))"

lemma ok_follows: "ok a \<Longrightarrow> follows a"
  by (simp add: follows_def ok_cons ok_nil ok_plain)

lemma follows_text: "T t \<Longrightarrow> follows (push t)"
proof (unfold follows_def, intro allI impI)
  fix u
  assume "T t" "plain u" "u \<noteq> []"
  then have "T (u @ t)" "starts (u @ t)" by (auto simp: joined plain_text plain_def starts_def)
  then show "ok (do_all [push u, push t])"
    using ok_text [of "u @ t"] by (simp add: ok_def do_all.simps push_def add_text_def)
qed

lemma ok_after: "plain u \<Longrightarrow> u \<noteq> [] \<Longrightarrow> follows a \<Longrightarrow> ok (do_all as) \<Longrightarrow> ok (do_all (push u # a # as))"
  using ok_append [of "[push u, a]" as] by (simp add: follows_def)

lemma follows_cons: "follows a \<Longrightarrow> ok (do_all as) \<Longrightarrow> follows (do_all (a # as))"
proof (unfold follows_def, intro allI impI)
  fix u
  assume a: "\<forall>u. plain u \<longrightarrow> u \<noteq> [] \<longrightarrow> ok (do_all [push u, a])" and as: "ok (do_all as)"
    and u: "plain u" "u \<noteq> []"
  from a u have "ok (do_all [push u, a])" by simp
  then have "ok (do_all ([push u, a] @ as))" using as by (rule ok_append)
  moreover have "do_all ([push u, a] @ as) = do_all [push u, do_all (a # as)]"
    by (rule ext) (auto simp: do_all.simps split: sum.splits)
  ultimately show "ok (do_all [push u, do_all (a # as)])" by simp
qed

lemma ok_after_separated:
  "plain u \<Longrightarrow> u \<noteq> [] \<Longrightarrow> plain sep \<Longrightarrow> sep \<noteq> [] \<Longrightarrow> list_all follows as \<Longrightarrow> ok (do_all bs) \<Longrightarrow>
   ok (do_all (push u # separated sep as @ bs))"
proof (induction sep as arbitrary: u rule: separated.induct)
  case (1 sep)
  then show ?case by (simp add: ok_cons ok_plain)
next
  case (2 sep a)
  then show ?case by (simp add: ok_after)
next
  case (3 sep a b as)
  then show ?case by (simp add: ok_after)
qed

lemma ok_marked:
  assumes "\<And>w. I w \<Longrightarrow> c w \<Longrightarrow> w_dialect w \<noteq> PostgresDialect" "ok (do_all as)"
  shows "ok (\<lambda>w. do_all ((if c w then [mark_unsupported f] else []) @ as) w)"
proof (rule okI)
  fix w
  assume w: "I w"
  then have "I (if c w then mark f w else w)" using assms(1) marked by simp
  from okD [OF assms(2) this]
  show "good (do_all ((if c w then [mark_unsupported f] else []) @ as) w)"
    by (simp add: do_all.simps mark_unsupported_def split: if_splits)
qed

lemmas ok_intros = ok_after ok_cons ok_nil ok_ident ok_bind ok_plain

subsection \<open>Expressions\<close>

lemma ok_qualified: "N t \<Longrightarrow> N n \<Longrightarrow> ok (push_qualified t n)"
  unfolding push_qualified_def by (intro ok_intros) (simp_all add: plain_simps)

lemma ok_tsvector: "N t \<Longrightarrow> N n \<Longrightarrow> T c \<Longrightarrow> ok (write_tsvector t n c stored)"
  unfolding write_tsvector_def
  by (auto intro!: ok_qualified ok_cons [of "push ''to_tsvector(''"] ok_plain ok_after follows_text
        ok_cons [of "push (CHR 0x27 # '', '')"] ok_cons [of "push_qualified t n"] ok_cons [of "push '')''"] ok_nil
      simp: plain_simps)

lemma default_config: "I w \<Longrightarrow> d_full_text (w_dialect w) = TsQuery c \<Longrightarrow> T c"
  using dialect [of w] by (auto simp: dialects_def dialect_defs intro!: plain_text simp: plain_simps)

lemma spatial_dialect: "I w \<Longrightarrow> \<not> w_supports_spatial w \<Longrightarrow> w_dialect w \<noteq> PostgresDialect"
  using dialect [of w] by (auto simp: cached_def PostgresDialect_def)

lemma ok_fts: "N t \<Longrightarrow> N n \<Longrightarrow> ok (do_all [push_qualified t n, push '' match '', push_bind (Text q)])"
  by (intro ok_cons ok_nil ok_qualified ok_plain ok_bind) (simp_all add: plain_simps)

lemma ok_tsquery:
  "T c \<Longrightarrow> plain u \<Longrightarrow> u \<noteq> [] \<Longrightarrow> plain v \<Longrightarrow>
   ok (do_all [push u, push c, push (CHR 0x27 # '', ''), push_bind (Text q), push v])"
  by (intro ok_after ok_cons ok_nil follows_text ok_plain ok_bind) (simp_all add: plain_simps)

lemma ok_match: "N t \<Longrightarrow> N n \<Longrightarrow> opt_ok T c \<Longrightarrow> ok (write_match t n query c stored)"
proof (rule okI)
  fix w
  assume *: "N t" "N n" "opt_ok T c" "I w"
  show "good (write_match t n query c stored w)"
  proof (cases "d_full_text (w_dialect w)")
    case Fts5Match
    with * show ?thesis by (simp add: write_match_def okD ok_fts)
  next
    case (TsQuery d)
    define c' where "c' = (case c of Some x \<Rightarrow> x | None \<Rightarrow> d)"
    have "T c'" using * default_config [OF _ TsQuery] by (auto simp: c'_def split: option.split)
    with * have "ok (do_all [write_tsvector t n c' stored, push ('' @@ plainto_tsquery('' @ [CHR 0x27]),
        push c', push (CHR 0x27 # '', ''), push_bind (Text query), push '')''])"
      by (intro ok_cons [OF ok_tsvector] ok_tsquery) (simp_all add: plain_simps)
    with * TsQuery show ?thesis by (simp add: write_match_def okD c'_def Let_def)
  qed
qed

lemma ok_rank: "N t \<Longrightarrow> N n \<Longrightarrow> opt_ok T c \<Longrightarrow> ok (write_ts_rank t n query c stored)"
proof (rule okI)
  fix w
  assume *: "N t" "N n" "opt_ok T c" "I w"
  show "good (write_ts_rank t n query c stored w)"
  proof (cases "d_full_text (w_dialect w)")
    case Fts5Match
    let ?as = "[push ''ts_rank('', push_qualified t n, push '', '', push_bind (Text query), push '')'']"
    have as: "ok (do_all ?as)"
      using * by (intro ok_cons ok_nil ok_qualified ok_plain ok_bind) (simp_all add: plain_simps)
    have "w_dialect w \<noteq> PostgresDialect" using Fts5Match by (auto simp: PostgresDialect_def)
    then have "good (do_all ?as (mark ''ts_rank (Postgres full-text only)'' w))"
      using * by (intro okD [OF as] marked)
    with Fts5Match show ?thesis by (simp add: write_ts_rank_def do_all.simps mark_unsupported_def)
  next
    case (TsQuery d)
    define c' where "c' = (case c of Some x \<Rightarrow> x | None \<Rightarrow> d)"
    have "T c'" using * default_config [OF _ TsQuery] by (auto simp: c'_def split: option.split)
    with * have "ok (do_all [push ''ts_rank('', write_tsvector t n c' stored, push ('', plainto_tsquery('' @ [CHR 0x27]),
        push c', push (CHR 0x27 # '', ''), push_bind (Text query), push ''))''])"
      by (intro ok_cons [of "push ''ts_rank(''", OF ok_plain] ok_cons [OF ok_tsvector] ok_tsquery)
         (simp_all add: plain_simps)
    with * TsQuery show ?thesis by (simp add: write_ts_rank_def okD c'_def Let_def)
  qed
qed

lemma ok_like: "N t \<Longrightarrow> N n \<Longrightarrow> value_ok T v \<Longrightarrow> ok (write_like t n v)"
  unfolding write_like_def by (intro ok_cons ok_nil ok_qualified ok_plain ok_bind) (simp_all add: plain_simps)

lemma ok_spatial:
  assumes "T f" "starts f" "N t" "N n" "value_ok T g"
  shows "ok (write_spatial f t n g d)"
proof -
  let ?as = "[push f, push ''('', push_qualified t n, push '', '', push_bind g] @
             (case d of None \<Rightarrow> [] | Some m \<Rightarrow> [push '', '', push_bind (F64 m)]) @ [push '')'']"
  have "ok (do_all ?as)"
    using assms by (intro ok_append ok_cons ok_nil ok_qualified ok_plain ok_bind ok_text)
      (auto simp: plain_simps split: option.split intro!: ok_cons ok_nil ok_plain ok_bind)
  from ok_marked [of "\<lambda>w. \<not> w_supports_spatial w", OF spatial_dialect this]
  show ?thesis
    by (rule back_subst [of ok]) (auto simp: write_spatial_def fun_eq_iff)
qed

lemma follows_any_of:
  assumes "N t" "N n" "value_ok T v"
  shows "follows (write_any_of t n v)"
proof -
  have single: "ok (do_all [push_qualified t n, push u, push_bind v, push '')''])" if "plain u" for u
    using that assms by (intro ok_cons ok_nil ok_qualified ok_plain ok_bind) (simp_all add: plain_simps)
  have many: "ok (do_all ([push_qualified t n, push '' in (''] @ separated '', '' (map push_bind items) @ [push '')'']))"
    if "list_all (value_ok T) items" for items
    using that assms unfolding append_Cons append_Nil
    by (intro ok_cons [OF ok_qualified] ok_after_separated ok_cons [OF ok_plain] ok_nil)
       (simp_all add: plain_simps list_all_iff ok_follows ok_bind)
  have false: "follows (push ''1 = 0'')"
  proof (rule follows_text)
    show "T ''1 = 0''" using joined [OF one_text, of "'' = 0''"] by (simp add: plain_text plain_simps)
  qed
  show ?thesis
  proof (cases "\<exists>k. v = Array k []")
    case True
    then obtain k where v: "v = Array k []" by blast
    show ?thesis
    proof (unfold follows_def, intro allI impI, rule okI)
      fix u w
      assume u: "plain u" "u \<noteq> []" and w: "I w"
      have "good (do_all [push u, push ''1 = 0''] w)" using false u w by (simp add: follows_def okD)
      moreover have "good (do_all [push u, do_all [push_qualified t n, push '' = any('', push_bind v, push '')'']] w)"
        using u w by (intro okD [OF _ w] ok_cons ok_nil single ok_plain) (simp_all add: plain_simps)
      ultimately show "good (do_all [push u, write_any_of t n v] w)"
        by (auto simp: do_all.simps push_def write_any_of_def v add_text_def split: if_splits)
    qed
  next
    case False
    have "ok (write_any_of t n v)"
    proof (rule okI)
      fix w
      assume w: "I w"
      show "good (write_any_of t n v w)"
        using False assms(3) okD [OF single w] okD [OF many w]
        by (cases v) (auto simp: write_any_of_def plain_simps)
    qed
    then show ?thesis by (rule ok_follows)
  qed
qed

lemma ok_excluded: "N n \<Longrightarrow> ok (write_excluded n)"
proof (rule okI)
  fix w
  assume "N n" "I w"
  then show "good (write_excluded n w)"
    unfolding write_excluded_def
    by (auto intro!: okD [where w = w] ok_cons ok_nil ok_ident ok_plain simp: plain_simps)
qed

lemma ok_now: "ok (write_now s)"
proof -
  have "ok (do_all ([push ''now()''] @ (case s of None \<Rightarrow> [] | Some s \<Rightarrow>
          [push '' - ('', push_bind (I64 s),
           push (''::bigint * interval '' @ [CHR 0x27] @ ''1 second'' @ [CHR 0x27] @ '')'')])))"
    by (intro ok_append ok_cons ok_nil ok_plain)
       (auto simp: plain_simps split: option.split intro!: ok_cons ok_nil ok_plain ok_bind)
  from ok_marked [of "\<lambda>w. d_name (w_dialect w) \<noteq> ''postgres''", OF _ this]
  show ?thesis
    by (rule back_subst [of ok]) (auto simp: write_now_def fun_eq_iff PostgresDialect_def dialect_defaults_def)
qed

lemma ok_wrapped: "plain u \<Longrightarrow> u \<noteq> [] \<Longrightarrow> follows a \<Longrightarrow> plain v \<Longrightarrow> ok (do_all [push u, a, push v])"
  by (rule ok_after) (simp_all add: ok_cons ok_nil ok_plain)

lemma ok_infix:
  "plain u \<Longrightarrow> u \<noteq> [] \<Longrightarrow> follows a \<Longrightarrow> plain v \<Longrightarrow> v \<noteq> [] \<Longrightarrow> follows b \<Longrightarrow> plain z \<Longrightarrow>
   ok (do_all [push u, a, push v, b, push z])"
  by (rule ok_after) (simp_all add: ok_wrapped)

lemma ok_operand: "into_ok T N x \<Longrightarrow> ok (write_into x)"
  and follows_predicate: "pred_ok T N p \<Longrightarrow> follows (write_predicate p)"
proof (induction x and p rule: write_into_write_pred_expr.induct)
  case (3 c a b)
  then show ?case unfolding write_into.simps
    by - (rule ok_after, simp_all add: plain_simps ok_infix ok_follows)
next
  case (6 a op b)
  then show ?case unfolding write_into.simps
    by (intro ok_cons ok_nil ok_text ok_plain) (simp_all add: plain_simps plain_text)
next
  case (7 t n op rhs)
  then show ?case unfolding write_pred_expr.simps
    by (intro ok_follows ok_cons ok_nil ok_text ok_qualified) simp_all
next
  case (8 t n)
  then show ?case unfolding write_pred_expr.simps
    by (intro ok_follows ok_cons ok_nil ok_plain ok_qualified) (simp_all add: plain_simps)
next
  case (10 l r)
  then show ?case unfolding write_pred_expr.simps
    by - (rule ok_follows, rule ok_infix, simp_all add: plain_simps)
next
  case (11 l r)
  then show ?case unfolding write_pred_expr.simps
    by - (rule ok_follows, rule ok_infix, simp_all add: plain_simps)
next
  case (12 p)
  then show ?case unfolding write_pred_expr.simps
    by - (rule ok_follows, rule ok_wrapped, simp_all add: plain_simps)
qed (simp_all add: ok_qualified ok_excluded ok_now ok_bind follows_any_of ok_follows ok_match ok_like
      ok_spatial follows_text)

subsection \<open>Projections\<close>

lemma ok_read_cast: "opt_ok T c \<Longrightarrow> ok (push_read_cast c)"
proof (rule okI)
  fix w
  assume "opt_ok T c" "I w"
  moreover have "ok (do_all [push ''::'', push x])" if "T x" for x
    using that by (intro ok_after follows_text ok_nil) (simp_all add: plain_simps)
  ultimately show "good (push_read_cast c w)"
    by (auto simp: push_read_cast_def okD split: option.split)
qed

lemma ok_distance: "N t \<Longrightarrow> N n \<Longrightarrow> ok (write_distance t n query metric)"
proof (rule okI)
  fix w
  assume *: "N t" "N n" "I w"
  have op: "good (do_all [push_qualified t n, push op, push_bind (Vector query)] w)" if "plain op" for op
    using * that by (intro okD [OF _ *(3)] ok_cons ok_nil ok_qualified ok_plain ok_bind) simp_all
  have f: "good (do_all [push f, push ''('', push_qualified t n, push '', '', push_bind (Vector query), push '')''] w)"
    if "plain f" for f
    using * that by (intro okD [OF _ *(3)] ok_cons ok_nil ok_qualified ok_plain ok_bind) (simp_all add: plain_simps)
  show "good (write_distance t n query metric w)"
    using dialect [OF *(3)] op f
    by (cases metric) (auto simp: write_distance_def dialects_def dialect_defs plain_simps)
qed

lemma follows_separated:
  "list_all follows as \<Longrightarrow> plain sep \<Longrightarrow> sep \<noteq> [] \<Longrightarrow> follows (do_all (separated sep as))"
proof (unfold follows_def [of "do_all (separated sep as)"], intro allI impI)
  fix u
  assume "list_all follows as" "plain sep" "sep \<noteq> []" and u: "plain u" "u \<noteq> []"
  then have "ok (do_all (push u # separated sep as @ []))"
    by (intro ok_after_separated ok_nil)
  moreover have "do_all (push u # separated sep as @ []) = do_all [push u, do_all (separated sep as)]"
    by (rule ext) (simp add: do_all.simps push_def split: sum.splits)
  ultimately show "ok (do_all [push u, do_all (separated sep as)])" by simp
qed

lemma numeric_cast_plain: "opt_ok plain (numeric_cast k)"
  by (cases k) (simp_all add: plain_simps)

lemma follows_columns: "proj_ok T N p \<Longrightarrow> follows (write_columns p)"
proof (induction p rule: write_columns.induct)
  case (1 t n k c)
  then show ?case by (simp add: ok_follows ok_cons ok_nil ok_qualified ok_read_cast)
next
  case 2
  show ?case by (simp add: ok_follows ok_plain plain_simps)
next
  case (3 f t n widened k)
  have "opt_ok T (if widened then numeric_cast k else None)"
    using numeric_cast_plain [of k] by (cases "numeric_cast k") (simp_all add: plain_text)
  with 3 show ?case unfolding write_columns.simps
    by (intro ok_follows ok_cons ok_nil ok_text ok_qualified ok_plain ok_read_cast) (simp_all add: plain_simps plain_text)
next
  case (5 r)
  then show ?case by (simp add: ok_follows write_rank_def ok_rank rank_ok_def)
next
  case (7 t nullable)
  have "follows (do_all (separated '', '' (map (\<lambda>c. do_all [push_qualified (tm_table t) (tc_name c),
      push_read_cast (tc_read_cast c)]) (tm_columns t))))"
    using 7 by (intro follows_separated)
      (auto simp: list_all_iff table_ok_def plain_simps intro!: ok_follows ok_cons ok_nil ok_qualified ok_read_cast)
  then show ?case by (simp add: write_all_columns_def)
next
  case (8 ps)
  then show ?case unfolding write_columns.simps
    by (intro follows_separated) (auto simp: list_all_iff plain_simps)
qed (simp_all add: follows_text ok_follows ok_distance)

subsection \<open>Statements\<close>

lemma ok_opt_clause:
  "plain u \<Longrightarrow> u \<noteq> [] \<Longrightarrow> (\<And>y. x = Some y \<Longrightarrow> follows (f y)) \<Longrightarrow> ok (do_all (opt_clause u f x))"
  by (cases x) (simp_all add: opt_clause_def ok_nil ok_after)

lemma ok_list_clause:
  "plain u \<Longrightarrow> u \<noteq> [] \<Longrightarrow> (\<And>y. y \<in> set xs \<Longrightarrow> follows (f y)) \<Longrightarrow> ok (do_all (list_clause u f xs))"
  using ok_after_separated [of u "'', ''" "map f xs" "[]"]
  by (auto simp: list_clause_def ok_nil list_all_iff plain_simps)

lemma follows_group: "group_ok T N g \<Longrightarrow> follows (write_group_term g)"
  by (cases g) (simp_all add: group_ok_def write_group_term_def follows_text ok_follows ok_qualified)

lemma ok_order: "N (ord_table r) \<Longrightarrow> N (ord_column r) \<Longrightarrow> ok (write_order r)"
  unfolding write_order_def
  by (intro ok_cons ok_nil ok_qualified ok_plain) (simp_all add: plain_simps split: direction.split)

lemma ok_nearest: "N (no_table n) \<Longrightarrow> N (no_name n) \<Longrightarrow> ok (write_nearest n)"
  unfolding write_nearest_def by (intro ok_cons ok_nil ok_distance ok_plain) (simp_all add: plain_simps)

lemma ok_nearest_geo:
  assumes "N (ng_table g)" "N (ng_name g)" "value_ok T (ng_geom g)"
  shows "ok (write_nearest_geo started g)"
proof -
  have "ok (do_all [push (if started then '', '' else '' order by ''), push_qualified (ng_table g) (ng_name g),
      push '' <-> '', push_bind (ng_geom g), push '' asc''])"
    using assms by (intro ok_cons ok_nil ok_qualified ok_plain ok_bind) (simp_all add: plain_simps)
  from ok_marked [of "\<lambda>w. \<not> w_supports_spatial w", OF spatial_dialect this]
  show ?thesis by (rule back_subst [of ok]) (auto simp: write_nearest_geo_def fun_eq_iff)
qed

lemma ok_write_rank: "rank_ok T N r \<Longrightarrow> ok (write_rank r)"
  by (simp add: write_rank_def rank_ok_def ok_rank)

lemma ok_join:
  "T (j_keyword j) \<Longrightarrow> starts (j_keyword j) \<Longrightarrow> N (j_table j) \<Longrightarrow> pred_ok T N (j_on j) \<Longrightarrow> ok (write_join j)"
  unfolding write_join_def
  by (intro ok_cons [OF ok_plain] ok_cons [OF ok_text] ok_cons [OF ok_ident] ok_after ok_nil follows_predicate)
     (simp_all add: plain_simps)

lemma ok_all: "(\<And>a. a \<in> set as \<Longrightarrow> ok a) \<Longrightarrow> ok (do_all as)"
  by (induction as) (simp_all add: ok_nil ok_cons)

lemma ok_pred_clause:
  "plain u \<Longrightarrow> u \<noteq> [] \<Longrightarrow> opt_ok (pred_ok T N) p \<Longrightarrow> ok (do_all (opt_clause u write_predicate p))"
  by (rule ok_opt_clause) (auto simp: follows_predicate)

lemma ok_bind_clause: "plain u \<Longrightarrow> u \<noteq> [] \<Longrightarrow> ok (do_all (opt_clause u (\<lambda>n. push_bind (I64 n)) x))"
  by (rule ok_opt_clause) (simp_all add: ok_follows ok_bind)

lemma plain_order_sep: "plain (order_sep b)" "order_sep b \<noteq> []"
  by (simp_all add: order_sep_def plain_simps)

lemma ok_ordering:
  assumes "select_ok T N s"
  shows "ok (do_all (opt_clause (order_sep b) write_nearest (sel_nearest s)))"
    and "ok (do_all (case sel_nearest_geo s of None \<Rightarrow> [] | Some g \<Rightarrow> [write_nearest_geo b g]))"
    and "ok (do_all (case sel_rank_order s of None \<Rightarrow> []
               | Some r \<Rightarrow> [push (order_sep b), write_rank r, push '' desc'']))"
proof -
  show "ok (do_all (opt_clause (order_sep b) write_nearest (sel_nearest s)))"
    by (rule ok_opt_clause) (use assms in \<open>auto simp: select_ok_def plain_order_sep ok_follows ok_nearest\<close>)
  show "ok (do_all (case sel_nearest_geo s of None \<Rightarrow> [] | Some g \<Rightarrow> [write_nearest_geo b g]))"
    using assms by (cases "sel_nearest_geo s") (simp_all add: select_ok_def ok_nil ok_nearest_geo)
  show "ok (do_all (case sel_rank_order s of None \<Rightarrow> []
               | Some r \<Rightarrow> [push (order_sep b), write_rank r, push '' desc'']))"
  proof (cases "sel_rank_order s")
    case (Some r)
    then have "ok (write_rank r)" using assms by (simp add: select_ok_def ok_write_rank)
    then have "ok (do_all [push (order_sep b), write_rank r, push '' desc''])"
      by (intro ok_cons ok_nil ok_plain) (simp_all add: plain_order_sep, simp add: plain_simps)
    with Some show ?thesis by simp
  qed (simp add: ok_nil)
qed

lemma ok_select:
  assumes "select_ok T N s"
  shows "ok (write_select s)"
proof -
  have "ok (do_all [push ''select '', write_columns (sel_projection s), push '' from '', push_ident (sel_from s)])"
    using assms by (intro ok_after follows_columns ok_cons ok_nil ok_ident ok_plain)
      (simp_all add: select_ok_def plain_simps)
  moreover have "ok (do_all (map write_join (sel_joins s)))"
    using assms by (intro ok_all) (auto simp: select_ok_def ok_join)
  moreover have "ok (do_all (opt_clause '' where '' write_predicate (sel_filter s)))"
    "ok (do_all (opt_clause '' having '' write_predicate (sel_having s)))"
    using assms by (auto simp: select_ok_def plain_simps intro!: ok_pred_clause)
  moreover have "ok (do_all (list_clause '' group by '' write_group_term (sel_group s)))"
    using assms by (intro ok_list_clause follows_group) (simp_all add: select_ok_def plain_simps)
  moreover have "ok (do_all (list_clause '' order by '' write_order (sel_order s)))"
    using assms by (intro ok_list_clause ok_follows ok_order) (simp_all add: select_ok_def plain_simps)
  moreover have "ok (do_all (opt_clause '' limit '' (\<lambda>n. push_bind (I64 n)) (sel_limit s)))"
    "ok (do_all (opt_clause '' offset '' (\<lambda>n. push_bind (I64 n)) (sel_offset s)))"
    by (simp_all add: ok_bind_clause plain_simps)
  ultimately show ?thesis
    unfolding write_select_def Let_def by (intro ok_append ok_ordering [OF assms])
qed

lemma ok_set: "N c \<Longrightarrow> into_ok T N v \<Longrightarrow> ok (write_set (c, v))"
  unfolding write_set_def by (simp add: ok_cons ok_nil ok_ident ok_plain ok_operand plain_simps)

lemma ok_delete:
  "delete_ok T N d \<Longrightarrow> ok (do_all ([push ''delete from '', push_ident (del_table d)] @
     opt_clause '' where '' write_predicate (del_filter d)))"
  by (intro ok_append ok_opt_clause ok_cons ok_nil ok_plain ok_ident)
     (simp_all add: delete_ok_def plain_simps follows_predicate)

lemma ok_update:
  assumes "update_ok T N u"
  shows "ok (do_all ([push ''update '', push_ident (up_table u), push '' set ''] @
     separated '', '' (map write_set (up_sets u)) @ opt_clause '' where '' write_predicate (up_filter u)))"
proof -
  have "ok (do_all (push '' set '' # separated '', '' (map write_set (up_sets u)) @
      opt_clause '' where '' write_predicate (up_filter u)))"
    using assms
    by (intro ok_after_separated ok_opt_clause)
       (auto simp: update_ok_def plain_simps list_all_iff follows_predicate intro!: ok_follows ok_set)
  with assms show ?thesis
    by (simp add: ok_cons ok_plain ok_ident update_ok_def plain_simps)
qed

subsection \<open>Inserts\<close>

lemma value_ok_cast: "value_ok T v \<Longrightarrow> opt_ok T c \<Longrightarrow> value_ok T (boxed_bind v c)"
  by (cases c) (simp_all add: boxed_bind_def with_cast_def)

lemma row_values_ok:
  assumes "insertable_ok T N M" "row_ok T r" "v \<in> set (row_values M included r)"
  shows "value_ok T v"
proof -
  from assms(3) consider
      (req) n c x where "((n, c), x) \<in> set (zip (in_required M) (nr_required r))" "v = boxed_bind x c"
    | (opt) b c x where "(b, c, x) \<in> set (zip included (zip (in_optional M) (nr_optional r)))" "v = optional_bind c x"
    by (auto simp: row_values_def)
  then show ?thesis
  proof cases
    case req
    then have "(n, c) \<in> set (in_required M)" "x \<in> set (nr_required r)"
      by (auto dest: set_zip_leftD set_zip_rightD)
    with assms req show ?thesis by (auto simp: insertable_ok_def row_ok_def intro!: value_ok_cast)
  next
    case opt
    then have "c \<in> set (in_optional M)" "x \<in> set (nr_optional r)"
      by (auto dest!: set_zip_rightD [of _ _ included] dest: set_zip_leftD set_zip_rightD)
    with assms opt show ?thesis
      by (auto simp: insertable_ok_def row_ok_def optional_bind_def split: prod.splits option.splits
        intro!: value_ok_cast)
  qed
qed

lemma ok_row:
  assumes "insertable_ok T N M" "row_ok T r"
  shows "ok (write_row M included r)"
proof -
  have "follows (bind_values M included r)"
    unfolding bind_values_def
    by (intro follows_separated) (auto simp: list_all_iff plain_simps intro!: ok_follows ok_bind row_values_ok [OF assms])
  then show ?thesis unfolding write_row_def by (intro ok_wrapped) (simp_all add: plain_simps)
qed

lemma ok_incoming: "N c \<Longrightarrow> ok (write_incoming mysql c)"
  unfolding write_incoming_def by (auto simp: plain_simps intro!: ok_cons ok_nil ok_plain ok_ident)

lemma ok_stored: "N t \<Longrightarrow> N c \<Longrightarrow> ok (write_stored mysql t c)"
  by (simp add: write_stored_def ok_ident ok_qualified)

lemma ok_column_update: "N t \<Longrightarrow> update_col_ok T N u \<Longrightarrow> ok (write_update t mysql u)"
  unfolding write_update_def Let_def
  by (cases "cu_mode u")
     (auto simp: update_col_ok_def plain_simps
       intro!: ok_cons ok_nil ok_ident ok_plain ok_incoming ok_stored ok_operand)

lemma resolved_ok:
  "conflict_ok T N cf \<Longrightarrow> (\<And>c. c \<in> set columns \<Longrightarrow> N c) \<Longrightarrow> u \<in> set (resolved_updates cf columns) \<Longrightarrow>
   update_col_ok T N u"
  by (cases "cf_action cf")
     (auto simp: conflict_ok_def resolved_updates_def excluded_updates_def update_col_ok_def)

lemma follows_updates:
  assumes "N t" "conflict_ok T N cf" "\<And>c. c \<in> set columns \<Longrightarrow> N c"
  shows "list_all follows (map (write_update t mysql) (resolved_updates cf columns))"
  using assms by (auto simp: list_all_iff intro!: ok_follows ok_column_update resolved_ok [OF assms(2,3)])

lemma ok_on_duplicate:
  assumes "N t" "conflict_ok T N cf" "\<And>c. c \<in> set columns \<Longrightarrow> N c"
  shows "ok (do_all ([push '' on duplicate key update ''] @
     (if resolved_updates cf columns = []
      then (case cf_targets cf @ columns of
              [] \<Rightarrow> []
            | column # _ \<Rightarrow> [push_ident column, push '' = '', push_ident column])
      else separated '', '' (map (write_update t True) (resolved_updates cf columns)))))"
proof (cases "resolved_updates cf columns = []")
  case True
  have names: "N c" if "c \<in> set (cf_targets cf @ columns)" for c
    using that assms by (auto simp: conflict_ok_def)
  have "ok (do_all (case cf_targets cf @ columns of
      [] \<Rightarrow> [] | column # _ \<Rightarrow> [push_ident column, push '' = '', push_ident column]))"
  proof (cases "cf_targets cf @ columns")
    case (Cons c cs)
    then have "N c" using names [of c] by (metis list.set_intros(1))
    then have "ok (do_all [push_ident c, push '' = '', push_ident c])"
      by (intro ok_cons ok_nil ok_ident ok_plain) (simp_all add: plain_simps)
    then show ?thesis unfolding Cons by simp
  qed (simp add: ok_nil)
  then show ?thesis using True by (simp add: ok_cons ok_plain plain_simps)
next
  case False
  then show ?thesis
    using ok_after_separated [of "'' on duplicate key update ''" "'', ''" _ "[]", OF _ _ _ _ follows_updates [OF assms] ok_nil]
    by (simp add: plain_simps)
qed

lemma ok_on_conflict:
  assumes "N t" "conflict_ok T N cf" "\<And>c. c \<in> set columns \<Longrightarrow> N c"
  shows "ok (do_all ([push '' on conflict (''] @ separated '', '' (map push_ident (cf_targets cf)) @ [push '')''] @
     (if resolved_updates cf columns = [] then [push '' do nothing'']
      else [push '' do update set ''] @
           separated '', '' (map (write_update t False) (resolved_updates cf columns)) @
           opt_clause '' where '' write_predicate (cf_predicate cf))))"
proof -
  have "ok (do_all (push '' do update set '' #
      separated '', '' (map (write_update t False) (resolved_updates cf columns)) @
      opt_clause '' where '' write_predicate (cf_predicate cf)))"
    using assms by (intro ok_after_separated follows_updates [OF assms] ok_pred_clause)
      (simp_all add: plain_simps conflict_ok_def)
  then have rest: "ok (do_all ([push '')''] @
     (if resolved_updates cf columns = [] then [push '' do nothing'']
      else [push '' do update set ''] @
           separated '', '' (map (write_update t False) (resolved_updates cf columns)) @
           opt_clause '' where '' write_predicate (cf_predicate cf))))"
    by (simp add: ok_cons ok_nil ok_plain plain_simps)
  have "list_all follows (map push_ident (cf_targets cf))"
    using assms(2) by (auto simp: list_all_iff conflict_ok_def intro!: ok_follows ok_ident)
  from ok_after_separated [OF _ _ _ _ this rest, of "'' on conflict (''" "'', ''"]
  show ?thesis by (simp add: plain_simps)
qed

lemma duplicate_dialect: "d_upsert_on_duplicate_key (w_dialect w) \<Longrightarrow> w_dialect w \<noteq> PostgresDialect"
  by (auto simp: PostgresDialect_def dialect_defaults_def)

lemma ok_conflict:
  assumes "N t" "conflict_ok T N cf" "\<And>c. c \<in> set columns \<Longrightarrow> N c"
  shows "ok (write_conflict cf t columns)"
proof (rule okI)
  fix w
  assume w: "I w"
  let ?c = "\<lambda>w. d_upsert_on_duplicate_key (w_dialect w) \<and> resolved_updates cf columns \<noteq> [] \<and> cf_predicate cf \<noteq> None"
  have "good (do_all ((if ?c w then [mark_unsupported ''guarded conflict update (unsupported by MySQL)''] else []) @
      [push '' on duplicate key update ''] @
      (if resolved_updates cf columns = []
       then (case cf_targets cf @ columns of
               [] \<Rightarrow> []
             | column # _ \<Rightarrow> [push_ident column, push '' = '', push_ident column])
       else separated '', '' (map (write_update t True) (resolved_updates cf columns)))) w)"
    by (rule okD [OF ok_marked w]) (use ok_on_duplicate [OF assms] duplicate_dialect in auto)
  then show "good (write_conflict cf t columns w)"
    using okD [OF ok_on_conflict [OF assms] w]
    by (cases "d_upsert_on_duplicate_key (w_dialect w)") (simp_all add: write_conflict_def Let_def)
qed

lemma column_names_ok: "insertable_ok T N M \<Longrightarrow> c \<in> set (column_names M included) \<Longrightarrow> N c"
  by (fastforce simp: insertable_ok_def column_names_def dest: set_zip_leftD)

lemma ok_insert_tail:
  assumes "insert_ok T N M i returning" "\<And>c. c \<in> set columns \<Longrightarrow> N c"
  shows "ok (do_all ([push '') values ''] @ separated '', '' (map (write_row M included) (ins_rows i)) @
      (case ins_conflict i of None \<Rightarrow> [] | Some cf \<Rightarrow> [write_conflict cf (in_table M) columns]) @
      opt_clause '' returning '' write_columns returning))"
proof -
  have table: "N (in_table M)" using assms(1) by (simp add: insert_ok_def insertable_ok_def)
  have "ok (do_all (case ins_conflict i of None \<Rightarrow> [] | Some cf \<Rightarrow> [write_conflict cf (in_table M) columns]))"
    using assms table by (cases "ins_conflict i") (auto simp: insert_ok_def ok_nil intro!: ok_conflict)
  moreover have "ok (do_all (opt_clause '' returning '' write_columns returning))"
    using assms(1) by (intro ok_opt_clause) (auto simp: insert_ok_def plain_simps follows_columns)
  ultimately have tail: "ok (do_all
      ((case ins_conflict i of None \<Rightarrow> [] | Some cf \<Rightarrow> [write_conflict cf (in_table M) columns]) @
       opt_clause '' returning '' write_columns returning))"
    by (rule ok_append)
  have "list_all follows (map (write_row M included) (ins_rows i))"
    using assms(1) by (auto simp: list_all_iff insert_ok_def intro!: ok_follows ok_row)
  from ok_after_separated [OF _ _ _ _ this tail, of "'') values ''" "'', ''"]
  show ?thesis by (simp add: plain_simps)
qed

lemma ok_insert:
  assumes "insert_ok T N M i returning"
  shows "ok (insert_render M i returning)"
proof -
  define included where "included = (if in_optional M = [] then [] else optional_included M (ins_rows i))"
  define columns where "columns = column_names M included"
  have M: "insertable_ok T N M" using assms by (simp add: insert_ok_def)
  then have table: "N (in_table M)" by (simp add: insertable_ok_def)
  have names: "N c" if "c \<in> set columns" for c
    using column_names_ok [OF M] that by (simp add: columns_def)
  then have "list_all follows (map push_ident columns)"
    by (simp add: list_all_iff ok_follows ok_ident)
  then have "ok (do_all (push '' ('' # separated '', '' (map push_ident columns) @
      [push '') values ''] @ separated '', '' (map (write_row M included) (ins_rows i)) @
      (case ins_conflict i of None \<Rightarrow> [] | Some cf \<Rightarrow> [write_conflict cf (in_table M) columns]) @
      opt_clause '' returning '' write_columns returning))"
    by (intro ok_after_separated ok_insert_tail [OF assms names]) (simp_all add: plain_simps)
  then have "ok (do_all (push ''insert into '' # push_ident (in_table M) #
      push '' ('' # separated '', '' (map push_ident columns) @
      [push '') values ''] @ separated '', '' (map (write_row M included) (ins_rows i)) @
      (case ins_conflict i of None \<Rightarrow> [] | Some cf \<Rightarrow> [write_conflict cf (in_table M) columns]) @
      opt_clause '' returning '' write_columns returning))"
    using table by - (rule ok_cons [OF ok_plain], simp add: plain_simps, rule ok_cons [OF ok_ident])
  then show ?thesis
    unfolding insert_render_def Let_def included_def [symmetric] columns_def [symmetric] write_head_def
    by simp
qed

end

end
