(* ===== verification/SqlBlank.thy ===== *)
theory SqlBlank
  imports Inserts
begin

text \<open>
  Value independence. Blanking replaces every value in a statement by a fixed value of its kind
  and keeps what the application's code determines: tables, columns, operators, fragments,
  the length of lists, the spatial reference of a geometry and the type of a cast. Rendering
  commutes with blanking, so values reach the database only as binds.
\<close>

subsection \<open>Blanking\<close>

fun blank :: "'x \<Rightarrow> 'x sql_value \<Rightarrow> 'x sql_value" where
  "blank u (Null k) = Null k"
| "blank u (I16 _) = I16 0"
| "blank u (I32 _) = I32 0"
| "blank u (I64 _) = I64 0"
| "blank u (F32 _) = F32 u"
| "blank u (F64 _) = F64 u"
| "blank u (Bool _) = Bool False"
| "blank u (Text _) = Text []"
| "blank u (Bytes _) = Bytes []"
| "blank u (Uuid _) = Uuid u"
| "blank u (Timestamptz _) = Timestamptz u"
| "blank u (NaiveDateTime _) = NaiveDateTime u"
| "blank u (Date _) = Date u"
| "blank u (NaiveTime _) = NaiveTime u"
| "blank u (Json _) = Json JNull"
| "blank u (Vector _) = Vector []"
| "blank u (Geo _ srid) = Geo [] srid"
| "blank u (Array k vs) = Array k (map (blank u) vs)"
| "blank u (Cast c v) = Cast c (blank u v)"

fun blank_into :: "'x \<Rightarrow> 'x operand \<Rightarrow> 'x operand"
and blank_pred :: "'x \<Rightarrow> 'x predicate \<Rightarrow> 'x predicate" where
  "blank_into u (Column t n) = Column t n"
| "blank_into u (Value v) = Value (blank u v)"
| "blank_into u (Excluded n) = Excluded n"
| "blank_into u (Case c a b) = Case (blank_pred u c) (blank_into u a) (blank_into u b)"
| "blank_into u (DatabaseNow s) = DatabaseNow (map_option (\<lambda>_. 0) s)"
| "blank_into u (Arith a op b) = Arith (blank_into u a) op (blank_into u b)"
| "blank_pred u (Binary t n op rhs) = Binary t n op (blank_into u rhs)"
| "blank_pred u (IsNull t n) = IsNull t n"
| "blank_pred u (AnyOf t n v) = AnyOf t n (blank u v)"
| "blank_pred u (AndP p q) = AndP (blank_pred u p) (blank_pred u q)"
| "blank_pred u (OrP p q) = OrP (blank_pred u p) (blank_pred u q)"
| "blank_pred u (NotP p) = NotP (blank_pred u p)"
| "blank_pred u (Match t n query config stored) = Match t n [] config stored"
| "blank_pred u (Like t n pat) = Like t n (blank u pat)"
| "blank_pred u (Spatial f t n g d) = Spatial f t n (blank u g) (map_option (\<lambda>_. u) d)"
| "blank_pred u (RawP fragment) = RawP fragment"

definition blank_rank :: "ts_rank \<Rightarrow> ts_rank" where
  "blank_rank r = r\<lparr>tr_query := []\<rparr>"

fun blank_proj :: "'x projection \<Rightarrow> 'x projection" where
  "blank_proj (PTsRank r) = PTsRank (blank_rank r)"
| "blank_proj (PDistance t n query metric) = PDistance t n [] metric"
| "blank_proj (PTuple ps) = PTuple (map blank_proj ps)"
| "blank_proj p = p"

definition blank_select :: "'x \<Rightarrow> 'x select \<Rightarrow> 'x select" where
  "blank_select u s =
     s\<lparr>sel_projection := blank_proj (sel_projection s),
       sel_joins := map (\<lambda>j. j\<lparr>j_on := blank_pred u (j_on j)\<rparr>) (sel_joins s),
       sel_filter := map_option (blank_pred u) (sel_filter s),
       sel_having := map_option (blank_pred u) (sel_having s),
       sel_nearest := map_option (\<lambda>n. n\<lparr>no_query := []\<rparr>) (sel_nearest s),
       sel_nearest_geo := map_option (\<lambda>g. g\<lparr>ng_geom := blank u (ng_geom g)\<rparr>) (sel_nearest_geo s),
       sel_rank_order := map_option blank_rank (sel_rank_order s),
       sel_limit := map_option (\<lambda>_. 0) (sel_limit s),
       sel_offset := map_option (\<lambda>_. 0) (sel_offset s)\<rparr>"

definition blank_update :: "'x \<Rightarrow> 'x update \<Rightarrow> 'x update" where
  "blank_update u s =
     s\<lparr>up_sets := map (\<lambda>(c, v). (c, blank_into u v)) (up_sets s),
       up_filter := map_option (blank_pred u) (up_filter s)\<rparr>"

definition blank_delete :: "'x \<Rightarrow> 'x delete \<Rightarrow> 'x delete" where
  "blank_delete u s = s\<lparr>del_filter := map_option (blank_pred u) (del_filter s)\<rparr>"

fun blank_mode :: "'x \<Rightarrow> 'x update_mode \<Rightarrow> 'x update_mode" where
  "blank_mode u (Expression e) = Expression (blank_into u e)"
| "blank_mode u m = m"

definition blank_column_update :: "'x \<Rightarrow> 'x column_update \<Rightarrow> 'x column_update" where
  "blank_column_update u c = c\<lparr>cu_mode := blank_mode u (cu_mode c)\<rparr>"

fun blank_conflict_action :: "'x \<Rightarrow> 'x conflict_action \<Rightarrow> 'x conflict_action" where
  "blank_conflict_action u (UpdateColumns us) = UpdateColumns (map (blank_column_update u) us)"
| "blank_conflict_action u a = a"

definition blank_conflict :: "'x \<Rightarrow> 'x conflict \<Rightarrow> 'x conflict" where
  "blank_conflict u c =
     c\<lparr>cf_action := blank_conflict_action u (cf_action c),
       cf_predicate := map_option (blank_pred u) (cf_predicate c)\<rparr>"

definition blank_row :: "'x \<Rightarrow> 'x new_row \<Rightarrow> 'x new_row" where
  "blank_row u r =
     r\<lparr>nr_required := map (blank u) (nr_required r), nr_optional := map (map_option (blank u)) (nr_optional r)\<rparr>"

definition blank_insert :: "'x \<Rightarrow> 'x insert \<Rightarrow> 'x insert" where
  "blank_insert u i =
     i\<lparr>ins_rows := map (blank_row u) (ins_rows i), ins_conflict := map_option (blank_conflict u) (ins_conflict i)\<rparr>"

subsection \<open>Rendering commutes with blanking\<close>

definition blankw :: "'x \<Rightarrow> 'x sql_writer \<Rightarrow> 'x sql_writer" where
  "blankw u w = w\<lparr>w_binds := map (blank u) (w_binds w)\<rparr>"

lemma blankw_simps [simp]:
  "w_sql (blankw u w) = w_sql w" "w_binds (blankw u w) = map (blank u) (w_binds w)"
  "w_dialect (blankw u w) = w_dialect w" "w_unsupported (blankw u w) = w_unsupported w"
  "w_supports_any_array (blankw u w) = w_supports_any_array w"
  "w_supports_spatial (blankw u w) = w_supports_spatial w"
  "w_supports_cast (blankw u w) = w_supports_cast w" "w_quote_char (blankw u w) = w_quote_char w"
  "w_vector_bind (blankw u w) = w_vector_bind w" "w_geo_bind (blankw u w) = w_geo_bind w"
  "w_placeholder_prefix (blankw u w) = w_placeholder_prefix w"
  "w_numbered_placeholders (blankw u w) = w_numbered_placeholders w"
  by (simp_all add: blankw_def)

definition blanked :: "'x \<Rightarrow> 'x write_action \<Rightarrow> 'x write_action \<Rightarrow> bool" where
  "blanked u a b \<longleftrightarrow> (\<forall>w. b (blankw u w) = map_sum id (blankw u) (a w))"

lemma blankedI: "(\<And>w. b (blankw u w) = map_sum id (blankw u) (a w)) \<Longrightarrow> blanked u a b"
  by (simp add: blanked_def)

lemma blankedD: "blanked u a b \<Longrightarrow> b (blankw u w) = map_sum id (blankw u) (a w)"
  by (simp add: blanked_def)

lemma blankw_add_text: "add_text t (blankw u w) = blankw u (add_text t w)"
  by (simp add: add_text_def blankw_def)

lemma blankw_mark: "mark f (blankw u w) = blankw u (mark f w)"
  by (simp add: mark_def blankw_def)

lemma blankw_placeholder: "placeholder (blankw u w) = blankw u (placeholder w)"
  by (simp add: placeholder_def push_placeholder_def blankw_add_text)

lemma blankw_add_bind: "add_bind (blank u v) (blankw u w) = blankw u (add_bind v w)"
  by (simp add: add_bind_def blankw_def)

lemmas blankw_prims = blankw_add_text blankw_mark blankw_placeholder

lemma blankw_geo: "push_geo_bind (blank u v) srid (blankw u w) = blankw u (push_geo_bind v srid w)"
  by (simp add: push_geo_bind_def Let_def blankw_add_bind blankw_prims split: prod.split option.split)

lemma blankw_bound: "add_bound (blank u v) (blankw u w) = blankw u (add_bound v w)"
  using blankw_add_bind [of u v w] blankw_geo [of u v _ w]
  by (cases v) (simp_all add: add_bound_def blankw_prims blankw_add_bind)

lemma blanked_push [simp]: "blanked u (push t) (push t)"
  by (simp add: blanked_def push_def blankw_add_text)

lemma blanked_mark [simp]: "blanked u (mark_unsupported f) (mark_unsupported f)"
  by (simp add: blanked_def mark_unsupported_def blankw_mark)

lemma blanked_ident [simp]: "blanked u (push_ident n) (push_ident n)"
  by (simp add: blanked_def push_ident_eq blankw_add_text split: sum.split)

lemma blanked_bind [simp]: "blanked u (push_bind v) (push_bind (blank u v))"
  by (simp add: blanked_def push_bind_def blankw_bound)

lemma blanked_text [simp]: "blanked u (push_bind (Text s)) (push_bind (Text []))"
  and blanked_i64 [simp]: "blanked u (push_bind (I64 n)) (push_bind (I64 0))"
  and blanked_f64 [simp]: "blanked u (push_bind (F64 x)) (push_bind (F64 u))"
  and blanked_vector [simp]: "blanked u (push_bind (Vector xs)) (push_bind (Vector []))"
  using blanked_bind [of u "Text s"] blanked_bind [of u "I64 n"] blanked_bind [of u "F64 x"]
    blanked_bind [of u "Vector xs"] by simp_all

lemma do_all_blankw:
  "list_all2 (blanked u) as bs \<Longrightarrow> do_all bs (blankw u w) = map_sum id (blankw u) (do_all as w)"
proof (induction as bs arbitrary: w rule: list_all2_induct)
  case Nil
  then show ?case by (simp add: do_all.simps)
next
  case (Cons a as b bs)
  then show ?case by (cases "a w") (simp_all add: do_all.simps blankedD)
qed

lemma blanked_do_all: "list_all2 (blanked u) as bs \<Longrightarrow> blanked u (do_all as) (do_all bs)"
  by (simp add: blanked_def do_all_blankw)

lemma blanked_separated:
  "list_all2 (blanked u) as bs \<Longrightarrow> list_all2 (blanked u) (separated sep as) (separated sep bs)"
proof (induction sep as arbitrary: bs rule: separated.induct)
  case (2 sep a)
  then show ?case by (auto simp: list_all2_Cons1)
next
  case (3 sep a b as)
  then show ?case by (auto simp: list_all2_Cons1)
qed simp

lemma list_all2_same_map: "(\<And>x. x \<in> set xs \<Longrightarrow> P (f x) (g x)) \<Longrightarrow> list_all2 P (map f xs) (map g xs)"
  by (induction xs) auto

lemma blanked_qualified [simp]: "blanked u (push_qualified t n) (push_qualified t n)"
  unfolding push_qualified_def by (rule blanked_do_all) simp

lemma blanked_tsvector [simp]: "blanked u (write_tsvector t n c stored) (write_tsvector t n c stored)"
  unfolding write_tsvector_def by (auto intro!: blanked_do_all)

lemma blanked_match [simp]: "blanked u (write_match t n q c stored) (write_match t n [] c stored)"
  by (rule blankedI) (simp add: write_match_def Let_def do_all_blankw split: full_text.split)

lemma blanked_rank [simp]: "blanked u (write_ts_rank t n q c stored) (write_ts_rank t n [] c stored)"
  by (rule blankedI) (simp add: write_ts_rank_def Let_def do_all_blankw split: full_text.split)

lemma blanked_like [simp]: "blanked u (write_like t n v) (write_like t n (blank u v))"
  unfolding write_like_def by (rule blanked_do_all) simp

lemma blanked_spatial [simp]:
  "blanked u (write_spatial f t n g d) (write_spatial f t n (blank u g) (map_option (\<lambda>_. u) d))"
  by (rule blankedI) (auto simp: write_spatial_def intro!: do_all_blankw split: option.split)

lemma blanked_any_of [simp]: "blanked u (write_any_of t n v) (write_any_of t n (blank u v))"
proof (rule blankedI)
  fix w
  have single: "do_all [push_qualified t n, push s, push_bind (blank u v), push '')''] (blankw u w) =
      map_sum id (blankw u) (do_all [push_qualified t n, push s, push_bind v, push '')''] w)" for s
    by (rule do_all_blankw) simp
  have many: "do_all ([push_qualified t n, push '' in (''] @
        separated '', '' (map push_bind (map (blank u) items)) @ [push '')'']) (blankw u w) =
      map_sum id (blankw u) (do_all ([push_qualified t n, push '' in (''] @
        separated '', '' (map push_bind items) @ [push '')'']) w)" for items
    by (rule do_all_blankw)
       (auto simp: comp_def intro!: list_all2_appendI blanked_separated list_all2_same_map)
  show "write_any_of t n (blank u v) (blankw u w) = map_sum id (blankw u) (write_any_of t n v w)"
    using single many blankedD [OF blanked_push [of u "''1 = 0''"]]
    by (cases v) (auto simp: write_any_of_def)
qed

lemma blanked_excluded [simp]: "blanked u (write_excluded n) (write_excluded n)"
  by (rule blankedI) (simp add: write_excluded_def do_all_blankw)

lemma blanked_now [simp]: "blanked u (write_now s) (write_now (map_option (\<lambda>_. 0) s))"
  by (rule blankedI) (auto simp: write_now_def blankedD [OF blanked_push] intro!: do_all_blankw split: option.split)

lemma blanked_operand [simp]: "blanked u (write_into x) (write_into (blank_into u x))"
  and blanked_predicate [simp]: "blanked u (write_predicate p) (write_predicate (blank_pred u p))"
  by (induction x and p rule: write_into_write_pred_expr.induct) (simp_all add: blanked_do_all)

subsection \<open>Statements\<close>

lemma blanked_read_cast [simp]: "blanked u (push_read_cast c) (push_read_cast c)"
  by (rule blankedI) (auto simp: push_read_cast_def do_all_blankw split: option.split)

lemma blanked_write_rank [simp]: "blanked u (write_rank r) (write_rank (blank_rank r))"
  by (simp add: write_rank_def blank_rank_def)

lemma blanked_distance [simp]: "blanked u (write_distance t n q m) (write_distance t n [] m)"
  by (rule blankedI) (simp add: write_distance_def do_all_blankw split: distance_sql.split)

lemma blanked_all_columns [simp]: "blanked u (write_all_columns t) (write_all_columns t)"
  unfolding write_all_columns_def
  by (intro blanked_do_all blanked_separated list_all2_same_map) simp

lemma blanked_columns [simp]: "blanked u (write_columns p) (write_columns (blank_proj p))"
proof (induction p rule: write_columns.induct)
  case (8 ps)
  then have "list_all2 (blanked u) (map write_columns ps) (map (\<lambda>p. write_columns (blank_proj p)) ps)"
    by (intro list_all2_same_map) simp
  then show ?case by (simp add: comp_def blanked_do_all blanked_separated)
qed (simp_all add: blanked_do_all)

lemma opt_clause_None [simp]: "opt_clause k f None = []"
  by (simp add: opt_clause_def)

lemma blanked_opt_clause:
  "(\<And>y. blanked u (f y) (f' (g y))) \<Longrightarrow>
   list_all2 (blanked u) (opt_clause k f x) (opt_clause k f' (map_option g x))"
  by (cases x) (simp_all add: opt_clause_def)

lemma blanked_list_clause:
  "(\<And>y. blanked u (f y) (f y)) \<Longrightarrow> list_all2 (blanked u) (list_clause k f xs) (list_clause k f xs)"
  by (auto simp: list_clause_def intro!: blanked_separated list_all2_same_map)

lemma blanked_join: "blanked u (write_join j) (write_join (j\<lparr>j_on := blank_pred u (j_on j)\<rparr>))"
  unfolding write_join_def by (rule blanked_do_all) simp

lemma blanked_order: "blanked u (write_order r) (write_order r)"
  unfolding write_order_def by (rule blanked_do_all) simp

lemma blanked_group: "blanked u (write_group_term g) (write_group_term g)"
  by (cases g) (simp_all add: write_group_term_def)

lemma blanked_nearest: "blanked u (write_nearest n) (write_nearest (n\<lparr>no_query := []\<rparr>))"
  unfolding write_nearest_def by (rule blanked_do_all) simp

lemma blanked_nearest_geo:
  "blanked u (write_nearest_geo b g) (write_nearest_geo b (g\<lparr>ng_geom := blank u (ng_geom g)\<rparr>))"
  by (rule blankedI) (auto simp: write_nearest_geo_def intro!: do_all_blankw)

lemma blank_select_fields [simp]:
  "sel_projection (blank_select u s) = blank_proj (sel_projection s)"
  "sel_exec (blank_select u s) = sel_exec s"
  "sel_from (blank_select u s) = sel_from s"
  "sel_joins (blank_select u s) = map (\<lambda>j. j\<lparr>j_on := blank_pred u (j_on j)\<rparr>) (sel_joins s)"
  "sel_filter (blank_select u s) = map_option (blank_pred u) (sel_filter s)"
  "sel_group (blank_select u s) = sel_group s"
  "sel_having (blank_select u s) = map_option (blank_pred u) (sel_having s)"
  "sel_order (blank_select u s) = sel_order s"
  "sel_nearest (blank_select u s) = map_option (\<lambda>n. n\<lparr>no_query := []\<rparr>) (sel_nearest s)"
  "sel_nearest_geo (blank_select u s) = map_option (\<lambda>g. g\<lparr>ng_geom := blank u (ng_geom g)\<rparr>) (sel_nearest_geo s)"
  "sel_rank_order (blank_select u s) = map_option blank_rank (sel_rank_order s)"
  "sel_limit (blank_select u s) = map_option (\<lambda>_. 0) (sel_limit s)"
  "sel_offset (blank_select u s) = map_option (\<lambda>_. 0) (sel_offset s)"
  by (simp_all add: blank_select_def)

lemma blanked_geo_clause:
  "list_all2 (blanked u)
     (case x of None \<Rightarrow> [] | Some g \<Rightarrow> [write_nearest_geo b g])
     (case map_option (\<lambda>g. g\<lparr>ng_geom := blank u (ng_geom g)\<rparr>) x of None \<Rightarrow> [] | Some g \<Rightarrow> [write_nearest_geo b g])"
  by (cases x) (simp_all add: blanked_nearest_geo)

lemma blanked_rank_clause:
  "list_all2 (blanked u)
     (case x of None \<Rightarrow> [] | Some r \<Rightarrow> [push k, write_rank r, push '' desc''])
     (case map_option blank_rank x of None \<Rightarrow> [] | Some r \<Rightarrow> [push k, write_rank r, push '' desc''])"
  by (cases x) simp_all

lemma blanked_select: "blanked u (write_select s) (write_select (blank_select u s))"
proof -
  have joins: "list_all2 (blanked u) (map write_join xs)
      (map write_join (map (\<lambda>j. j\<lparr>j_on := blank_pred u (j_on j)\<rparr>) xs))" for xs
    by (simp add: comp_def list_all2_same_map blanked_join)
  show ?thesis
    unfolding write_select_def Let_def blank_select_fields option.map_disc_iff
    by (intro blanked_do_all list_all2_appendI joins blanked_opt_clause blanked_list_clause
          blanked_geo_clause blanked_rank_clause blanked_order blanked_group blanked_nearest)
       simp_all
qed

lemma blanked_set: "blanked u (write_set (c, v)) (write_set (c, blank_into u v))"
  unfolding write_set_def by (simp add: blanked_do_all)

lemma assemble_blanked:
  assumes "blanked u a b"
  shows "assemble d b = map_sum id (apsnd (map (blank u))) (assemble d a)"
proof -
  have "blankw u (with_dialect d) = with_dialect d" by (simp add: blankw_def with_dialect_def)
  then have "b (with_dialect d) = map_sum id (blankw u) (a (with_dialect d))"
    using blankedD [OF assms, of "with_dialect d"] by simp
  then show ?thesis
    by (cases "a (with_dialect d)") (simp_all add: assemble_def finish_def into_parts_def split: option.split)
qed

lemma select_blanked:
  "select_into_sql (blank_select u s) = map_sum id (apsnd (map (blank u))) (select_into_sql s)"
  using assemble_blanked [OF blanked_select, of "exec_dialect (sel_exec s)" u s]
  by (simp add: select_into_sql_def)

lemma update_blanked:
  "update_into_sql (blank_update u s) = map_sum id (apsnd (map (blank u))) (update_into_sql s)"
proof -
  let ?f = "\<lambda>(c, v). (c, blank_into u v)"
  have sets: "list_all2 (blanked u) (map write_set xs) (map write_set (map ?f xs))" for xs
    by (auto simp: comp_def intro!: list_all2_same_map blanked_set)
  have "blanked u
     (do_all ([push ''update '', push_ident (up_table s), push '' set ''] @
        separated '', '' (map write_set (up_sets s)) @ opt_clause '' where '' write_predicate (up_filter s)))
     (do_all ([push ''update '', push_ident (up_table s), push '' set ''] @
        separated '', '' (map write_set (map ?f (up_sets s))) @
        opt_clause '' where '' write_predicate (map_option (blank_pred u) (up_filter s))))"
    by (intro blanked_do_all list_all2_appendI blanked_separated sets blanked_opt_clause) simp_all
  from assemble_blanked [OF this]
  show ?thesis by (simp add: update_into_sql_def blank_update_def)
qed

lemma delete_blanked:
  "delete_into_sql (blank_delete u s) = map_sum id (apsnd (map (blank u))) (delete_into_sql s)"
proof -
  have "blanked u
     (do_all ([push ''delete from '', push_ident (del_table s)] @
        opt_clause '' where '' write_predicate (del_filter s)))
     (do_all ([push ''delete from '', push_ident (del_table s)] @
        opt_clause '' where '' write_predicate (map_option (blank_pred u) (del_filter s))))"
    by (intro blanked_do_all list_all2_appendI blanked_opt_clause) simp_all
  from assemble_blanked [OF this]
  show ?thesis by (simp add: delete_into_sql_def blank_delete_def)
qed

subsection \<open>Inserts\<close>

lemma blank_boxed: "blank u (boxed_bind v c) = boxed_bind (blank u v) c"
  by (cases c) (simp_all add: boxed_bind_def with_cast_def)

lemma blank_optional_bind: "blank u (optional_bind c v) = optional_bind c (map_option (blank u) v)"
  by (cases v) (auto simp: optional_bind_def blank_boxed split: prod.split)

lemma map_map2: "map f (map2 g xs ys) = map2 (\<lambda>x y. f (g x y)) xs ys"
  by (simp add: split_def comp_def)

lemma row_values_blank: "row_values N inc (blank_row u r) = map (blank u) (row_values N inc r)"
proof -
  have "map (blank u) (map2 (\<lambda>(n, c) v. boxed_bind v c) ns vs) =
      map2 (\<lambda>(n, c) v. boxed_bind v c) ns (map (blank u) vs)" for ns :: "(string \<times> string option) list" and vs
    by (induction ns vs rule: list_induct2') (auto simp: blank_boxed)
  moreover have "map (blank u) (map (\<lambda>(i, c, v). optional_bind c v) (filter fst (zip inc (zip cs vs)))) =
      map (\<lambda>(i, c, v). optional_bind c v) (filter fst (zip inc (zip cs (map (map_option (blank u)) vs))))" for cs vs
  proof (induction inc arbitrary: cs vs)
    case (Cons i inc)
    then show ?case by (cases cs; cases vs) (auto simp: blank_optional_bind)
  qed simp
  ultimately show ?thesis by (simp only: row_values_def blank_row_def map_append) simp
qed

lemma blanked_row: "blanked u (write_row N inc r) (write_row N inc (blank_row u r))"
proof -
  have "blanked u (bind_values N inc r) (bind_values N inc (blank_row u r))"
    unfolding bind_values_def row_values_blank
    by (auto simp: comp_def intro!: blanked_do_all blanked_separated list_all2_same_map)
  then show ?thesis unfolding write_row_def by (intro blanked_do_all) simp
qed

lemma optional_included_blank:
  "optional_included N (map (blank_row u) rows) = optional_included N rows"
proof -
  have p: "optional_present (blank_row u r) = optional_present r" for r
    by (simp add: optional_present_def blank_row_def comp_def)
  have "foldl (\<lambda>inc r. map2 (\<or>) inc (optional_present r) @ drop (length (optional_present r)) inc) acc
      (map (blank_row u) rows) =
    foldl (\<lambda>inc r. map2 (\<or>) inc (optional_present r) @ drop (length (optional_present r)) inc) acc rows" for acc
    by (induction rows arbitrary: acc) (simp_all add: p)
  then show ?thesis by (simp add: optional_included_def)
qed

lemma blanked_incoming [simp]: "blanked u (write_incoming m c) (write_incoming m c)"
  unfolding write_incoming_def by (auto intro!: blanked_do_all)

lemma blanked_stored [simp]: "blanked u (write_stored m t c) (write_stored m t c)"
  by (simp add: write_stored_def)

lemma blanked_write_update:
  "blanked u (write_update t m c) (write_update t m (blank_column_update u c))"
  unfolding write_update_def Let_def blank_column_update_def
  by (cases "cu_mode c") (auto intro!: blanked_do_all)

lemma resolved_blank:
  "resolved_updates (blank_conflict u cf) cols = map (blank_column_update u) (resolved_updates cf cols)"
  by (cases "cf_action cf")
     (simp_all add: resolved_updates_def blank_conflict_def excluded_updates_def blank_column_update_def)

lemma blanked_conflict: "blanked u (write_conflict cf t cols) (write_conflict (blank_conflict u cf) t cols)"
proof (rule blankedI)
  fix w
  have upds: "list_all2 (blanked u) (map (write_update t m) us) (map (write_update t m) (map (blank_column_update u) us))" for m us
    by (auto simp: comp_def intro!: list_all2_same_map blanked_write_update)
  have fields: "cf_targets (blank_conflict u cf) = cf_targets cf"
      "cf_predicate (blank_conflict u cf) = map_option (blank_pred u) (cf_predicate cf)"
    by (simp_all add: blank_conflict_def)
  have same: "list_all2 (blanked u) (case xs of [] \<Rightarrow> [] | c # _ \<Rightarrow> [push_ident c, push '' = '', push_ident c])
      (case xs of [] \<Rightarrow> [] | c # _ \<Rightarrow> [push_ident c, push '' = '', push_ident c])" for xs
    by (cases xs) simp_all
  have targets: "list_all2 (blanked u) (map push_ident xs) (map push_ident xs)" for xs
    by (simp add: list_all2_same_map)
  show "write_conflict (blank_conflict u cf) t cols (blankw u w) =
      map_sum id (blankw u) (write_conflict cf t cols w)"
    unfolding write_conflict_def Let_def resolved_blank fields blankw_simps
    by (auto intro!: do_all_blankw list_all2_appendI blanked_separated [OF upds, simplified] same
          blanked_separated [OF targets] blanked_opt_clause)
qed

lemma blanked_insert:
  "blanked u (insert_render N i r) (insert_render N (blank_insert u i) (map_option blank_proj r))"
proof -
  define inc where "inc = (if in_optional N = [] then [] else optional_included N (ins_rows i))"
  have rows: "list_all2 (blanked u) (map (write_row N inc) xs) (map (write_row N inc) (map (blank_row u) xs))" for xs
    by (auto simp: comp_def intro!: list_all2_same_map blanked_row)
  have conflict: "list_all2 (blanked u)
      (case x of None \<Rightarrow> [] | Some cf \<Rightarrow> [write_conflict cf (in_table N) cols])
      (case map_option (blank_conflict u) x of None \<Rightarrow> [] | Some cf \<Rightarrow> [write_conflict cf (in_table N) cols])" for x cols
    by (cases x) (simp_all add: blanked_conflict)
  have head: "list_all2 (blanked u) (write_head N cols) (write_head N cols)" for cols
    unfolding write_head_def
    by (auto intro!: list_all2_appendI blanked_separated list_all2_same_map)
  have fields: "ins_rows (blank_insert u i) = map (blank_row u) (ins_rows i)"
      "ins_conflict (blank_insert u i) = map_option (blank_conflict u) (ins_conflict i)"
    by (simp_all add: blank_insert_def)
  show ?thesis
    unfolding insert_render_def Let_def fields optional_included_blank inc_def [symmetric]
    by (intro blanked_do_all list_all2_appendI head rows blanked_separated conflict blanked_opt_clause
        blanked_columns)
qed

lemma insert_blanked:
  "insert_build N (blank_insert u i) (map_option blank_proj r) =
     map_sum id (apsnd (map (blank u))) (insert_build N i r)"
proof -
  let ?d = "exec_dialect (ins_exec i)"
  have e: "ins_exec (blank_insert u i) = ins_exec i" by (simp add: blank_insert_def)
  have "blankw u (with_dialect ?d) = with_dialect ?d" by (simp add: blankw_def with_dialect_def)
  then have "insert_render N (blank_insert u i) (map_option blank_proj r) (with_dialect ?d) =
      map_sum id (blankw u) (insert_render N i r (with_dialect ?d))"
    using blankedD [OF blanked_insert, of N u i r "with_dialect ?d"] by simp
  then show ?thesis
    by (cases "insert_render N i r (with_dialect ?d)")
       (simp_all add: insert_build_def e finish_def into_parts_def split: option.split)
qed

end
