(* ===== verification/SqlProps.thy ===== *)
theory SqlProps
  imports WriterContract SqlBlank
begin

text \<open>
  Properties of rendered statements: the placeholders of the text are numbered like the binds,
  the text does not depend on the values of a statement, and what a statement can fail with.
\<close>

subsection \<open>Reading the placeholders of a statement\<close>

text \<open>
  A scanner over SQL text. Outside quoted identifiers, the placeholder character starts a
  placeholder, and the digits after it are its number.
\<close>

datatype scan_mode = Outside | Quoted | Number string

definition scan_outside :: "char \<Rightarrow> char \<Rightarrow> string list \<Rightarrow> char \<Rightarrow> string list \<times> scan_mode" where
  "scan_outside q p found c =
     (found, if c = q then Quoted else if c = p then Number [] else Outside)"

fun scan_step :: "char \<Rightarrow> char \<Rightarrow> string list \<times> scan_mode \<Rightarrow> char \<Rightarrow> string list \<times> scan_mode" where
  "scan_step q p (found, Outside) c = scan_outside q p found c"
| "scan_step q p (found, Quoted) c = (found, if c = q then Outside else Quoted)"
| "scan_step q p (found, Number ds) c =
     (if is_digit c then (found, Number (ds @ [c])) else scan_outside q p (found @ [ds]) c)"

fun closed :: "string list \<times> scan_mode \<Rightarrow> string list" where
  "closed (found, Number ds) = found @ [ds]"
| "closed (found, _) = found"

definition scan :: "dialect \<Rightarrow> string list \<times> scan_mode \<Rightarrow> string \<Rightarrow> string list \<times> scan_mode" where
  "scan d = foldl (scan_step (d_quote_char d) (d_placeholder_prefix d))"

definition placeholders :: "dialect \<Rightarrow> string \<Rightarrow> string list" where
  "placeholders d sql = closed (scan d ([], Outside) sql)"

text \<open>The placeholders a statement with \<^term>\<open>n\<close> binds should have, in order.\<close>

definition numbering :: "dialect \<Rightarrow> nat \<Rightarrow> string list" where
  "numbering d n = map (\<lambda>i. if d_numbered_placeholders d then show_nat (Suc i) else []) [0..<n]"

definition clean :: "string \<Rightarrow> bool" where
  "clean t \<longleftrightarrow> (\<forall>c \<in> set t. c \<noteq> CHR ''$'' \<and> c \<noteq> CHR ''?'' \<and> c \<noteq> CHR 0x22 \<and> c \<noteq> CHR 0x60)"

lemma plain_clean: "plain t \<longleftrightarrow> clean t \<and> starts t"
  by (simp add: plain_def clean_def)

lemma clean_append [simp]: "clean (s @ t) \<longleftrightarrow> clean s \<and> clean t"
  by (auto simp: clean_def)

text \<open>What the scanner needs of a dialect.\<close>

definition scannable :: "dialect \<Rightarrow> bool" where
  "scannable d \<longleftrightarrow>
     d_quote_char d \<in> {CHR 0x22, CHR 0x60} \<and> d_placeholder_prefix d \<in> {CHR ''$'', CHR ''?''}"

lemma dialects_scannable: "d \<in> dialects \<Longrightarrow> scannable d"
  by (auto simp: dialects_def dialect_defs scannable_def)

lemma scan_append: "scan d st (s @ t) = scan d (scan d st s) t"
  by (simp add: scan_def)

lemma scan_clean_outside: "scannable d \<Longrightarrow> clean t \<Longrightarrow> scan d (found, Outside) t = (found, Outside)"
  by (induction t arbitrary: found) (auto simp: scan_def scan_outside_def clean_def scannable_def)

lemma step_closes:
  "snd st \<noteq> Quoted \<Longrightarrow> \<not> is_digit c \<Longrightarrow> scan_step q p st c = scan_outside q p (closed st) c"
  by (cases st; cases "snd st") auto

lemma scan_text:
  assumes "scannable d" "clean t" "starts t" "snd st \<noteq> Quoted"
  shows "scan d st t = (if t = [] then st else (closed st, Outside))"
proof (cases t)
  case Nil
  then show ?thesis by (simp add: scan_def)
next
  case (Cons c cs)
  then have "scan d st t = scan d (scan_outside (d_quote_char d) (d_placeholder_prefix d) (closed st) c) cs"
    using assms step_closes [of st c] by (simp add: scan_def starts_def)
  also have "scan_outside (d_quote_char d) (d_placeholder_prefix d) (closed st) c = (closed st, Outside)"
    using assms Cons by (auto simp: scan_outside_def clean_def scannable_def)
  finally show ?thesis
    using assms Cons scan_clean_outside [of d cs "closed st"] by (simp add: clean_def)
qed

lemma scan_doubled: "scan d (found, Quoted) (doubled (d_quote_char d) n) = (found, Quoted)"
  by (induction n) (auto simp: scan_def scan_outside_def)

lemma scan_quoted:
  assumes "scannable d" "snd st \<noteq> Quoted"
  shows "scan d st (d_quote_char d # doubled (d_quote_char d) n @ [d_quote_char d]) = (closed st, Outside)"
proof -
  let ?q = "d_quote_char d"
  have "scan d st [?q] = (closed st, Quoted)"
    using assms step_closes [of st ?q] by (auto simp: scan_def scan_outside_def scannable_def is_digit_def)
  then have "scan d st ([?q] @ doubled ?q n @ [?q]) = scan d (closed st, Quoted) [?q]"
    by (simp only: scan_append scan_doubled)
  then show ?thesis by (simp add: scan_def)
qed

lemma scan_digits: "\<forall>c \<in> set ds. is_digit c \<Longrightarrow> scan d (found, Number es) ds = (found, Number (es @ ds))"
  by (induction ds arbitrary: es) (auto simp: scan_def)

lemma scan_placeholder:
  assumes "scannable d" "snd st \<noteq> Quoted" "\<forall>c \<in> set ds. is_digit c"
  shows "scan d st (d_placeholder_prefix d # ds) = (closed st, Number ds)"
proof -
  have "scan d st [d_placeholder_prefix d] = (closed st, Number [])"
    using assms step_closes [of st "d_placeholder_prefix d"]
    by (auto simp: scan_def scan_outside_def scannable_def is_digit_def)
  then have "scan d st ([d_placeholder_prefix d] @ ds) = (closed st, Number ds)"
    using assms(3) by (simp only: scan_append) (simp add: scan_digits)
  then show ?thesis by simp
qed

subsection \<open>The placeholder invariant\<close>

definition placed :: "dialect \<Rightarrow> 'x sql_writer \<Rightarrow> bool" where
  "placed d w \<longleftrightarrow>
     w_dialect w = d \<and> d \<in> dialects \<and> cached w \<and>
     snd (scan d ([], Outside) (w_sql w)) \<noteq> Quoted \<and>
     closed (scan d ([], Outside) (w_sql w)) = numbering d (length (w_binds w))"

lemma placed_with_dialect: "d \<in> dialects \<Longrightarrow> placed d (with_dialect d)"
  by (simp add: placed_def with_dialect_def cached_def scan_def numbering_def)

lemma placed_text: "placed d w \<Longrightarrow> clean t \<Longrightarrow> starts t \<Longrightarrow> placed d (add_text t w)"
  by (auto simp: placed_def add_text_def cached_def scan_append scan_text dialects_scannable)

lemma placed_mark: "placed d w \<Longrightarrow> placed d (mark f w)"
  by (simp add: placed_def mark_def cached_def)

lemma placed_quoted:
  "placed d w \<Longrightarrow> placed d (add_text (w_quote_char w # doubled (w_quote_char w) n @ [w_quote_char w]) w)"
  by (auto simp: placed_def add_text_def cached_def scan_append scan_quoted dialects_scannable)

text \<open>Every bind renders as a clean text, the placeholder, and a clean text.\<close>

lemma numbering_Suc:
  "numbering d (Suc n) = numbering d n @ [if d_numbered_placeholders d then show_nat (Suc n) else []]"
  by (simp add: numbering_def)

lemma placed_bind:
  assumes "placed d w" "clean pre" "starts pre" "clean suf" "starts suf"
  shows "placed d (add_text suf (placeholder (add_text pre (add_bind v w))))"
proof -
  let ?ds = "if d_numbered_placeholders d then show_nat (Suc (length (w_binds w))) else []"
  let ?st = "scan d ([], Outside) (w_sql w @ pre)"
  have d: "scannable d" using assms(1) by (simp add: placed_def dialects_scannable)
  have st: "snd ?st \<noteq> Quoted" "closed ?st = numbering d (length (w_binds w))"
    using assms d by (auto simp: placed_def scan_append scan_text)
  have "placed d (placeholder (add_text pre (add_bind v w)))"
    using assms(1) d scan_placeholder [OF d st(1), of ?ds] st(2) show_nat_digits
    by (auto simp: placed_def placeholder_def push_placeholder_def add_text_def add_bind_def cached_def
      numbering_Suc scan_append)
  then show ?thesis using assms by (intro placed_text)
qed

lemma add_text_add_text: "add_text t (add_text s w) = add_text (s @ t) w"
  by (simp add: add_text_def)

lemma add_text_Nil: "add_text [] w = w"
  by (simp add: add_text_def)

lemma clean_show_signed: "clean (show_signed s)"
proof -
  have "clean (show_nat n)" for n
    using show_nat_digits [of n] by (auto simp: clean_def is_digit_def)
  then show ?thesis by (simp add: show_signed_def clean_def)
qed

lemma dialect_binds:
  assumes "d \<in> dialects"
  shows "plain (fst (d_vector_bind d))" "plain (snd (d_vector_bind d))"
    "fst (d_geo_bind d) = []" "plain (snd (d_geo_bind d))"
  using assms unfolding dialects_def
  by (elim insertE emptyE; simp add: dialect_defs plain_simps)+

lemma placed_geo: "placed d w \<Longrightarrow> placed d (push_geo_bind v srid w)"
proof -
  assume w: "placed d w"
  then have geo: "fst (w_geo_bind w) = []" "clean (snd (w_geo_bind w))" "starts (snd (w_geo_bind w))"
    using dialect_binds(3,4) [of d] by (auto simp: placed_def cached_def plain_clean)
  define suf where "suf = snd (w_geo_bind w)"
  have plain: "placed d (add_text suf (placeholder (add_text [] (add_bind v w))))"
    using w geo by (intro placed_bind) (auto simp: suf_def clean_def starts_def)
  have "placed d (add_text (suf @ '', '' @ show_signed s @ '')'')
      (placeholder (add_text ''ST_SetSRID('' (add_bind v w))))" if "suf \<noteq> []" for s
    using w geo that clean_show_signed [of s]
    by (intro placed_bind) (auto simp: suf_def clean_def starts_def is_digit_def)
  with plain geo show ?thesis
    by (cases srid)
       (auto simp: push_geo_bind_def Let_def suf_def add_text_Nil add_text_add_text split: prod.splits)
qed

lemma placed_bound:
  assumes w: "placed d w" and v: "value_ok clean v"
  shows "placed d (add_bound v w)"
proof -
  have simple: "placed d (placeholder (add_bind x w))" for x
    using placed_bind [OF w, of "[]" "[]" x] by (simp add: add_text_Nil clean_def starts_def)
  have marked: "placed d (placeholder (add_bind x (mark c w)))" for x c
    using placed_bind [OF placed_mark [OF w], of "[]" "[]" x c] by (simp add: add_text_Nil clean_def starts_def)
  have cast: "placed d (add_text c (add_text ''::'' (placeholder (add_bind x w))))" if "clean c" for x c
    using placed_bind [OF w, of "[]" "''::'' @ c" x] that
    by (simp add: add_text_Nil add_text_add_text clean_def starts_def is_digit_def)
  have vector: "placed d (add_text (snd (w_vector_bind w)) (placeholder (add_text (fst (w_vector_bind w)) (add_bind x w))))" for x
    using w dialect_binds(1,2) [of d] by (intro placed_bind) (auto simp: placed_def cached_def plain_clean)
  show ?thesis
    using v simple marked cast vector placed_geo [OF w] by (cases v) (auto simp: add_bound_def)
qed

text \<open>The writer contract holds of the placeholder invariant, for clean texts and any names.\<close>

interpretation placing: writer_contract "placed d" clean "\<lambda>_. True" "\<lambda>_. True" for d
proof
  show "\<And>w. placed d w \<Longrightarrow> w_dialect w \<in> dialects \<and> cached w" by (simp add: placed_def)
  show "\<And>t. plain t \<Longrightarrow> clean t" by (simp add: plain_clean)
  show "clean ''1''" by (simp add: clean_def)
qed (simp_all add: placed_text placed_quoted placed_bound placed_mark)

subsection \<open>Statements\<close>

text \<open>The four statements, with what each sends to the database.\<close>

datatype 'x statement =
    SelectStmt "'x select"
  | UpdateStmt "'x update"
  | DeleteStmt "'x delete"
  | InsertStmt insertable "'x insert" "'x projection option"

fun statement_sql :: "'x statement \<Rightarrow> orm_error + (string \<times> 'x sql_value list)" where
  "statement_sql (SelectStmt s) = select_into_sql s"
| "statement_sql (UpdateStmt s) = update_into_sql s"
| "statement_sql (DeleteStmt s) = delete_into_sql s"
| "statement_sql (InsertStmt N i r) = insert_build N i r"

fun statement_dialect :: "'x statement \<Rightarrow> dialect" where
  "statement_dialect (SelectStmt s) = exec_dialect (sel_exec s)"
| "statement_dialect (UpdateStmt s) = exec_dialect (up_exec s)"
| "statement_dialect (DeleteStmt s) = exec_dialect (del_exec s)"
| "statement_dialect (InsertStmt N i r) = exec_dialect (ins_exec i)"

fun statement_ok :: "(string \<Rightarrow> bool) \<Rightarrow> (string \<Rightarrow> bool) \<Rightarrow> 'x statement \<Rightarrow> bool" where
  "statement_ok T N (SelectStmt s) = select_ok T N s"
| "statement_ok T N (UpdateStmt s) = update_ok T N s"
| "statement_ok T N (DeleteStmt s) = delete_ok T N s"
| "statement_ok T N (InsertStmt M i r) = insert_ok T N M i r"

fun blank_statement :: "'x \<Rightarrow> 'x statement \<Rightarrow> 'x statement" where
  "blank_statement u (SelectStmt s) = SelectStmt (blank_select u s)"
| "blank_statement u (UpdateStmt s) = UpdateStmt (blank_update u s)"
| "blank_statement u (DeleteStmt s) = DeleteStmt (blank_delete u s)"
| "blank_statement u (InsertStmt M i r) = InsertStmt M (blank_insert u i) (map_option blank_proj r)"

lemma assemble_ok:
  assumes "placing.ok d a" "d \<in> dialects" "assemble d a = Inr (sql, binds)"
  shows "placeholders d sql = numbering d (length binds)"
proof -
  obtain w where w: "a (with_dialect d) = Inr w" and f: "finish w = Inr (sql, binds)"
    using assms(3) by (auto simp: assemble_def split: sum.splits)
  have "placed d w"
    using placing.okD [OF assms(1) placed_with_dialect [OF assms(2)]] w by (simp add: placing.good_simps)
  with f show ?thesis
    by (auto simp: finish_def into_parts_def placed_def placeholders_def split: option.splits)
qed

lemma insert_build_assemble:
  "insert_build N i r = Inr x \<Longrightarrow> assemble (exec_dialect (ins_exec i)) (insert_render N i r) = Inr x"
  by (auto simp: insert_build_def assemble_def split: sum.splits if_splits)

text \<open>C16: In every rendered statement the placeholders outside quoted identifiers are numbered in order from
  \<^verbatim>\<open>$1\<close> (\<^verbatim>\<open>?1\<close>, or bare \<^verbatim>\<open>?\<close>, as the dialect has them), each once, and there are
  exactly as many as there are binds. This holds for every select, update, delete and insert, for every
  dialect, whatever names and values the statement has; the fragments the application writes itself must
  not contain quotes or placeholders.
\<close>

theorem placeholders_match_binds:
  assumes "statement_dialect s \<in> dialects" "statement_ok clean (\<lambda>_. True) s"
    and "statement_sql s = Inr (sql, binds)"
  shows "placeholders (statement_dialect s) sql = numbering (statement_dialect s) (length binds)"
proof (cases s)
  case (SelectStmt q)
  with assms show ?thesis
    using assemble_ok [OF placing.ok_select] by (simp add: select_into_sql_def)
next
  case (UpdateStmt q)
  with assms show ?thesis
    using assemble_ok [OF placing.ok_update] by (simp add: update_into_sql_def split: if_splits)
next
  case (DeleteStmt q)
  with assms show ?thesis
    using assemble_ok [OF placing.ok_delete] by (simp add: delete_into_sql_def)
next
  case (InsertStmt N i r)
  with assms show ?thesis
    using assemble_ok [OF placing.ok_insert, of N i r _ sql binds] insert_build_assemble [of N i r] by simp
qed

text \<open>A search in the program's style, on Turso: a filter with a list, a text and a vector order.\<close>

definition example_select :: "string \<Rightarrow> 64 word \<Rightarrow> unit statement" where
  "example_select needle n =
     SelectStmt
       (select_filter (contains \<lparr>col_table = ''doc'', col_name = ''body''\<rparr> needle)
         (select_filter (any_of \<lparr>col_table = ''doc'', col_name = ''id''\<rparr> KI64 [I64 7, I64 n])
           ((select_new (PCol ''doc'' ''id'' KI64 None))
             \<lparr>sel_exec := Some TursoDialect, sel_from := ''doc'', sel_limit := Some n,
              sel_nearest := Some \<lparr>no_table = ''doc'', no_name = ''emb'', no_query = [()], no_metric = Cosine\<rparr>\<rparr>)))"

lemmas example_select_simps = example_select_def select_filter_def conjoin_def and_p_def contains_def any_of_def
  select_new_def exec_dialect_def

lemma example_select_text:
  \<open>statement_sql (example_select ''50%'' 9) =
     Inr (''select "doc"."id" from "doc" where ("doc"."id" in (?1, ?2) and "doc"."body" like ?3 escape '' @
            [CHR 0x27, CHR 0x5C, CHR 0x27] @
            '') order by vector_distance_cos("doc"."emb", vector32(?4)) asc limit ?5'',
          [I64 7, I64 9, Text (''%50'' @ [CHR 0x5C] @ ''%%''), Vector [()], I64 9])\<close>
  by code_simp

theorem placeholders_match_binds_witness:
  \<open>placeholders TursoDialect
     (''select "doc"."id" from "doc" where ("doc"."id" in (?1, ?2) and "doc"."body" like ?3 escape '' @
            [CHR 0x27, CHR 0x5C, CHR 0x27] @
            '') order by vector_distance_cos("doc"."emb", vector32(?4)) asc limit ?5'') =
   [''1'', ''2'', ''3'', ''4'', ''5'']\<close>
proof -
  have "statement_dialect (example_select ''50%'' 9) \<in> dialects"
    by (simp add: example_select_simps dialects_def)
  moreover have "statement_ok clean (\<lambda>_. True) (example_select ''50%'' 9)"
    by code_simp
  moreover have "statement_dialect (example_select ''50%'' 9) = TursoDialect"
    by (simp add: example_select_simps)
  moreover have "numbering TursoDialect (Suc (Suc (Suc (Suc (Suc 0))))) = [''1'', ''2'', ''3'', ''4'', ''5'']"
    by code_simp
  ultimately show ?thesis
    using placeholders_match_binds [OF _ _ example_select_text] by simp
qed



subsection \<open>Postgres renders everything\<close>

definition valid_name :: "string \<Rightarrow> bool" where
  "valid_name n \<longleftrightarrow> validate n = Inr ()"

definition on_postgres :: "'x sql_writer \<Rightarrow> bool" where
  "on_postgres w \<longleftrightarrow> w_dialect w = PostgresDialect \<and> cached w \<and> w_unsupported w = None"

lemma on_postgres_text: "on_postgres w \<Longrightarrow> on_postgres (add_text t w)"
  by (simp add: on_postgres_def add_text_def cached_def)

lemma on_postgres_bind: "on_postgres w \<Longrightarrow> on_postgres (add_bind v w)"
  by (simp add: on_postgres_def add_bind_def cached_def)

lemma on_postgres_placeholder: "on_postgres w \<Longrightarrow> on_postgres (placeholder w)"
  by (simp add: placeholder_def push_placeholder_def on_postgres_text)

lemma on_postgres_bound: "on_postgres w \<Longrightarrow> on_postgres (add_bound v w)"
proof -
  assume w: "on_postgres w"
  then have "w_supports_cast w" by (simp add: on_postgres_def cached_def PostgresDialect_def)
  with w show ?thesis
    by (cases v)
       (simp_all add: add_bound_def push_geo_bind_def Let_def on_postgres_text on_postgres_bind
          on_postgres_placeholder split: prod.split option.split)
qed

interpretation postgres: writer_contract on_postgres "\<lambda>_. True" valid_name "\<lambda>_. False"
proof
  show "\<And>w. on_postgres w \<Longrightarrow> w_dialect w \<in> dialects \<and> cached w"
    by (simp add: on_postgres_def dialects_def)
  show "\<And>w f. on_postgres w \<Longrightarrow> w_dialect w \<noteq> PostgresDialect \<Longrightarrow> on_postgres (mark f w)"
    by (simp add: on_postgres_def)
qed (simp_all add: on_postgres_text on_postgres_bound valid_name_def)

lemma assemble_postgres:
  assumes "postgres.ok a"
  shows "\<exists>sql binds. assemble PostgresDialect a = Inr (sql, binds)"
proof -
  have "on_postgres (with_dialect PostgresDialect)"
    by (simp add: on_postgres_def with_dialect_def cached_def)
  from postgres.okD [OF assms this]
  show ?thesis
    by (auto simp: assemble_def finish_def into_parts_def on_postgres_def postgres.good_def split: sum.splits)
qed

text \<open>An update assigns something, and an insert has an executor.\<close>

fun runnable :: "'x statement \<Rightarrow> bool" where
  "runnable (UpdateStmt s) = (up_sets s \<noteq> [])"
| "runnable (InsertStmt N i r) = (ins_exec i \<noteq> None)"
| "runnable _ = True"

text \<open>On Postgres every statement whose names are valid identifiers is rendered: nothing the builders
  offer is unsupported there, and rendering cannot fail otherwise.
\<close>

theorem postgres_renders:
  assumes "statement_dialect s = PostgresDialect" "statement_ok (\<lambda>_. True) valid_name s" "runnable s"
  shows "\<exists>sql binds. statement_sql s = Inr (sql, binds)"
proof (cases s)
  case (SelectStmt q)
  with assms show ?thesis using assemble_postgres [OF postgres.ok_select] by (simp add: select_into_sql_def)
next
  case (UpdateStmt q)
  with assms show ?thesis using assemble_postgres [OF postgres.ok_update] by (simp add: update_into_sql_def)
next
  case (DeleteStmt q)
  with assms show ?thesis using assemble_postgres [OF postgres.ok_delete] by (simp add: delete_into_sql_def)
next
  case (InsertStmt N i r)
  with assms have "\<exists>sql binds. assemble PostgresDialect (insert_render N i r) = Inr (sql, binds)"
    using assemble_postgres [OF postgres.ok_insert] by simp
  with InsertStmt assms show ?thesis
    by (auto simp: insert_build_def assemble_def split: sum.splits)
qed

theorem postgres_renders_witness:
  "\<exists>sql binds. statement_sql (UpdateStmt \<lparr>up_exec = None, up_table = ''account'',
      up_sets = [(''balance'', sub_expr (Column ''account'' ''balance'') (Value (I64 5)))],
      up_filter = Some (Spatial ''st_within'' ''account'' ''place'' (Geo ''POINT(1 2)'' (Some 4326)) (Some ()))\<rparr>) =
    Inr (sql, binds)"
proof (rule postgres_renders)
  show "statement_ok (\<lambda>_. True) valid_name (UpdateStmt \<lparr>up_exec = None, up_table = ''account'',
      up_sets = [(''balance'', sub_expr (Column ''account'' ''balance'') (Value (I64 5)))],
      up_filter = Some (Spatial ''st_within'' ''account'' ''place'' (Geo ''POINT(1 2)'' (Some 4326)) (Some ()))\<rparr>)"
    by code_simp
qed (simp_all add: exec_dialect_def default_dialect_def)

subsection \<open>Literal substring search\<close>

text \<open>
  SQL's \<^verbatim>\<open>LIKE\<close> with a backslash as escape character: \<^verbatim>\<open>%\<close> matches any text, \<^verbatim>\<open>_\<close> one character, an escaped
  character itself.
\<close>

fun like_match :: "string \<Rightarrow> string \<Rightarrow> bool" where
  "like_match [] s = (s = [])"
| "like_match (c # p) s =
     (if c = CHR ''%'' then like_match p s \<or> (case s of [] \<Rightarrow> False | _ # s' \<Rightarrow> like_match (c # p) s')
      else case s of
             [] \<Rightarrow> False
           | x # s' \<Rightarrow>
               if c = CHR ''_'' then like_match p s'
               else if c = CHR 0x5C then (case p of [] \<Rightarrow> False | d # p' \<Rightarrow> x = d \<and> like_match p' s')
               else x = c \<and> like_match p s')"

lemma like_percent: "like_match (CHR ''%'' # p) s \<longleftrightarrow> (\<exists>a b. s = a @ b \<and> like_match p b)"
proof (induction s)
  case Nil
  then show ?case by simp
next
  case (Cons c s)
  have "like_match (CHR ''%'' # p) (c # s) \<longleftrightarrow> like_match p (c # s) \<or> like_match (CHR ''%'' # p) s"
    by simp
  also have "\<dots> \<longleftrightarrow> (\<exists>a b. c # s = a @ b \<and> like_match p b)"
    unfolding Cons.IH by (metis append_Cons append_Nil append_eq_Cons_conv)
  finally show ?case .
qed

lemma like_escaped: "like_match (escape_like n @ p) s \<longleftrightarrow> (\<exists>b. s = n @ b \<and> like_match p b)"
proof (induction n arbitrary: s)
  case Nil
  then show ?case by simp
next
  case (Cons c n)
  show ?case
    by (cases s) (auto simp: Cons.IH)
qed


subsection \<open>Guards and keys of upserts\<close>

definition kept :: "dialect \<Rightarrow> 'x sql_writer \<Rightarrow> bool" where
  "kept d w \<longleftrightarrow> w_dialect w = d \<and> d \<in> dialects \<and> cached w"

definition flagged :: "dialect \<Rightarrow> 'x sql_writer \<Rightarrow> bool" where
  "flagged d w \<longleftrightarrow> kept d w \<and> w_unsupported w \<noteq> None"

lemma kept_prims:
  "kept d w \<Longrightarrow> kept d (add_text t w)" "kept d w \<Longrightarrow> kept d (add_bind v w)"
  "kept d w \<Longrightarrow> kept d (placeholder w)" "kept d w \<Longrightarrow> kept d (mark f w)"
  by (simp_all add: kept_def add_text_def add_bind_def placeholder_def push_placeholder_def mark_def cached_def)

lemma kept_bound: "kept d w \<Longrightarrow> kept d (add_bound v w)"
  by (cases v) (simp_all add: add_bound_def push_geo_bind_def Let_def kept_prims split: prod.split option.split)

lemma flagged_prims:
  "w_unsupported w \<noteq> None \<Longrightarrow> w_unsupported (add_text t w) \<noteq> None"
  "w_unsupported w \<noteq> None \<Longrightarrow> w_unsupported (add_bind v w) \<noteq> None"
  "w_unsupported w \<noteq> None \<Longrightarrow> w_unsupported (placeholder w) \<noteq> None"
  "w_unsupported (mark f w) \<noteq> None"
  by (simp_all add: add_text_def add_bind_def placeholder_def push_placeholder_def mark_def)

lemma flagged_bound: "flagged d w \<Longrightarrow> flagged d (add_bound v w)"
proof -
  assume w: "flagged d w"
  then have u: "w_unsupported w \<noteq> None" by (simp add: flagged_def)
  then have "w_unsupported (push_geo_bind x srid w) \<noteq> None" for x srid
    unfolding push_geo_bind_def Let_def
    by (auto split: prod.split option.split simp del: not_None_eq simp: flagged_prims)
  with u have "w_unsupported (add_bound v w) \<noteq> None"
    by (cases v) (simp_all add: add_bound_def flagged_prims del: not_None_eq)
  with w show ?thesis by (simp add: flagged_def kept_bound)
qed

interpretation keeping: writer_contract "kept d" "\<lambda>_. True" "\<lambda>_. True" "\<lambda>_. True" for d
  by unfold_locales (simp_all add: kept_prims kept_bound, simp add: kept_def)

lemma flagged_text: "flagged d w \<Longrightarrow> flagged d (add_text t w)"
  using flagged_prims(1) [of w t] by (simp add: flagged_def kept_prims del: not_None_eq)

lemma flagged_mark: "kept d w \<Longrightarrow> flagged d (mark f w)"
  by (simp add: flagged_def kept_prims flagged_prims del: not_None_eq)

interpretation flagging: writer_contract "flagged d" "\<lambda>_. True" "\<lambda>_. True" "\<lambda>_. True" for d
proof
  show "\<And>w. flagged d w \<Longrightarrow> w_dialect w \<in> dialects \<and> cached w" by (simp add: flagged_def kept_def)
  show "\<And>w f. flagged d w \<Longrightarrow> flagged d (mark f w)" using flagged_mark by (auto simp only: flagged_def)
qed (simp_all add: flagged_text flagged_bound)

text \<open>A guarded conflict update marks a MySQL statement unsupported.\<close>

lemma write_conflict_flags:
  assumes "kept MySqlDialect w" "conflict_ok (\<lambda>_. True) (\<lambda>_. True) cf"
    and "cf_predicate cf \<noteq> None" "resolved_updates cf columns \<noteq> []" "write_conflict cf t columns w = Inr w'"
  shows "flagged MySqlDialect w'"
proof -
  let ?m = "mark ''guarded conflict update (unsupported by MySQL)'' w"
  let ?as = "[push '' on duplicate key update ''] @
     (if resolved_updates cf columns = []
      then (case cf_targets cf @ columns of
              [] \<Rightarrow> []
            | column # _ \<Rightarrow> [push_ident column, push '' = '', push_ident column])
      else separated '', '' (map (write_update t True) (resolved_updates cf columns)))"
  have "d_upsert_on_duplicate_key (w_dialect w)"
    using assms(1) by (simp add: kept_def MySqlDialect_def)
  then have "do_all ?as ?m = Inr w'"
    using assms(3-5) by (simp add: write_conflict_def do_all.simps mark_unsupported_def)
  then show ?thesis
    using flagging.okD [OF flagging.ok_on_duplicate [OF _ assms(2)] flagged_mark [OF assms(1)],
        of columns t "''guarded conflict update (unsupported by MySQL)''"]
    by (simp only: flagging.good_simps)
qed

text \<open>C19: A guarded conflict update is never sent to MySQL without its guard: MySQL has no syntax for it,
  and rendering such an insert fails.
\<close>

theorem mysql_keeps_guards:
  assumes "insert_ok (\<lambda>_. True) (\<lambda>_. True) N i r" "ins_exec i = Some MySqlDialect" "ins_conflict i = Some cf"
    and guard: "cf_predicate cf \<noteq> None"
    and updates: "resolved_updates cf
      (column_names N (if in_optional N = [] then [] else optional_included N (ins_rows i))) \<noteq> []"
  shows "\<exists>e. insert_build N i r = Inl e"
proof (rule ccontr)
  define included where "included = (if in_optional N = [] then [] else optional_included N (ins_rows i))"
  define columns where "columns = column_names N included"
  define before where "before = write_head N columns @ separated '', '' (map (write_row N included) (ins_rows i))"
  assume "\<not> (\<exists>e. insert_build N i r = Inl e)"
  then obtain sql binds w where w: "insert_render N i r (with_dialect MySqlDialect) = Inr w"
    and fin: "finish w = Inr (sql, binds)"
    using assms(2) by (cases "finish (projr (insert_render N i r (with_dialect MySqlDialect)))")
      (auto simp: insert_build_def exec_dialect_def split: sum.splits)
  from w obtain w1 w2 where steps: "do_all before (with_dialect MySqlDialect) = Inr w1"
      "write_conflict cf (in_table N) columns w1 = Inr w2"
      "do_all (opt_clause '' returning '' write_columns r) w2 = Inr w"
    using assms(3)
    by (auto simp: insert_render_def Let_def included_def [symmetric] columns_def [symmetric] before_def
      do_all_append do_all.simps split: sum.splits)
  have "kept MySqlDialect (with_dialect MySqlDialect)"
    by (simp add: kept_def with_dialect_def cached_def dialects_def)
  moreover have "insert_render N (i\<lparr>ins_conflict := None\<rparr>) None = do_all before"
    by (simp add: insert_render_def Let_def included_def columns_def before_def opt_clause_def)
  then have "keeping.ok MySqlDialect (do_all before)"
    using assms(1) keeping.ok_insert [of N "i\<lparr>ins_conflict := None\<rparr>" None MySqlDialect]
    by (simp add: insert_ok_def)
  ultimately have "kept MySqlDialect w1"
    using steps(1) keeping.okD [of MySqlDialect "do_all before"] by (fastforce simp: keeping.good_def)
  then have "flagged MySqlDialect w2"
    using assms updates steps(2)
    by (intro write_conflict_flags [of w1 cf columns]) (auto simp: insert_ok_def columns_def included_def)
  moreover have "flagging.ok MySqlDialect (do_all (opt_clause '' returning '' write_columns r))"
    using assms(1) by (intro flagging.ok_opt_clause) (auto simp: insert_ok_def plain_simps flagging.follows_columns)
  ultimately have "flagged MySqlDialect w"
    using steps(3) flagging.okD by (fastforce simp: flagging.good_def)
  with fin show False by (auto simp: finish_def flagged_def)
qed

definition counter_table :: insertable where
  "counter_table = \<lparr>in_table = ''counter'', in_required = [(''id'', None)], in_optional = [(''hits'', KI64, None)]\<rparr>"

definition guarded_upsert :: "dialect \<Rightarrow> unit insert" where
  "guarded_upsert d =
     into_insert (where_conflict (is_null \<lparr>col_table = ''counter'', col_name = ''locked''\<rparr>)
       (set_add \<lparr>col_table = ''counter'', col_name = ''hits''\<rparr>
         (on_conflict [''id'']
           \<lparr>ins_exec = Some d, ins_rows = [\<lparr>nr_required = [I64 1], nr_optional = [Some (I64 2)]\<rparr>],
            ins_conflict = None\<rparr>)))"

lemmas guarded_upsert_simps = guarded_upsert_def into_insert_def where_conflict_def set_add_def on_conflict_def
  add_update_def with_conflict_def conjoin_def is_null_def counter_table_def

theorem mysql_keeps_guards_witness:
  "\<exists>e. insert_build counter_table (guarded_upsert MySqlDialect) None = Inl e"
proof (rule mysql_keeps_guards [where cf =
    "\<lparr>cf_targets = [''id''], cf_action = UpdateColumns [\<lparr>cu_column = ''hits'', cu_mode = AddExcluded\<rparr>],
      cf_predicate = Some (IsNull ''counter'' ''locked'')\<rparr>"])
  show "insert_ok (\<lambda>_. True) (\<lambda>_. True) counter_table (guarded_upsert MySqlDialect) None"
    by code_simp
qed (simp_all add: guarded_upsert_simps resolved_updates_def)

text \<open>The same upsert on Postgres has its guard.\<close>

lemma postgres_guarded_upsert:
  \<open>insert_build counter_table (guarded_upsert PostgresDialect) None =
     Inr (''insert into "counter" ("id", "hits") values ($1, $2) on conflict ("id") do update set '' @
          ''"hits" = "counter"."hits" + excluded."hits" where "counter"."locked" is null'', [I64 1, I64 2])\<close>
  by code_simp

end
