(* ===== verification/InsertProps.thy ===== *)
theory InsertProps
  imports SqlProps
begin

text \<open>
  Inserts: which columns a batch names, and that every row binds one value for each of them, in
  their order.
\<close>

subsection \<open>What an action binds\<close>

definition payload :: "'x sql_value \<Rightarrow> 'x sql_value" where
  "payload v = (case v of Cast c x \<Rightarrow> x | _ \<Rightarrow> v)"

definition binds_add :: "'x write_action \<Rightarrow> 'x sql_value list \<Rightarrow> bool" where
  "binds_add a bs \<longleftrightarrow> (\<forall>w w'. a w = Inr w' \<longrightarrow> w_binds w' = w_binds w @ bs)"

lemma binds_add_push: "binds_add (push t) []"
  by (auto simp: binds_add_def push_def add_text_def)

lemma binds_add_ident: "binds_add (push_ident n) []"
  by (auto simp: binds_add_def push_ident_eq add_text_def split: sum.splits)

lemma add_bound_binds: "w_binds (add_bound v w) = w_binds w @ [payload v]"
  by (cases v)
     (auto simp: add_bound_def push_geo_bind_def Let_def payload_def add_text_def add_bind_def placeholder_def
       push_placeholder_def mark_def split: prod.split option.split)

lemma binds_add_bind: "binds_add (push_bind v) [payload v]"
  by (auto simp: binds_add_def push_bind_def add_bound_binds)

lemma binds_add_do_all: "list_all2 binds_add as bss \<Longrightarrow> binds_add (do_all as) (concat bss)"
proof (induction as bss rule: list_all2_induct)
  case Nil
  then show ?case by (simp add: binds_add_def do_all.simps)
next
  case (Cons a as bs bss)
  then show ?case by (auto simp: binds_add_def do_all.simps split: sum.splits)
qed

lemma binds_add_append:
  "binds_add (do_all as) bs \<Longrightarrow> binds_add (do_all as') bs' \<Longrightarrow> binds_add (do_all (as @ as')) (bs @ bs')"
  by (auto simp: binds_add_def do_all_append split: sum.splits)

lemma binds_add_separated:
  "list_all2 binds_add as bss \<Longrightarrow> binds_add (do_all (separated sep as)) (concat bss)"
proof (induction sep as arbitrary: bss rule: separated.induct)
  case (1 sep)
  then show ?case by (simp add: binds_add_def do_all.simps)
next
  case (2 sep a)
  then show ?case using binds_add_do_all [of "[a]" bss] by (auto simp: list_all2_Cons1)
next
  case (3 sep a b as)
  then obtain bs bss' where *: "bss = bs # bss'" "binds_add a bs" "list_all2 binds_add (b # as) bss'"
    by (auto simp: list_all2_Cons1)
  then have "binds_add (do_all (separated sep (b # as))) (concat bss')" by (simp add: 3)
  moreover have "binds_add (do_all [a, push sep]) (bs @ [])"
    using binds_add_do_all [of "[a, push sep]" "[bs, []]"] *(2) by (simp add: binds_add_push)
  ultimately show ?case
    using binds_add_append [of "[a, push sep]" bs "separated sep (b # as)" "concat bss'"] *(1) by simp
qed

lemma list_all2_map_fun: "(\<And>x. x \<in> set xs \<Longrightarrow> P (f x) (g x)) \<Longrightarrow> list_all2 P (map f xs) (map g xs)"
  by (induction xs) auto

lemma concat_Nil: "concat (map (\<lambda>_. []) xs) = []"
  by (induction xs) auto

lemma binds_add_head: "binds_add (do_all (write_head N columns)) []"
proof -
  have "binds_add (do_all (separated '', '' (map push_ident columns))) []"
    using binds_add_separated [OF list_all2_map_fun [of columns binds_add push_ident "\<lambda>_. []"]]
    by (simp add: binds_add_ident concat_Nil)
  then have "binds_add (do_all (separated '', '' (map push_ident columns) @ [push '') values ''])) ([] @ [])"
    using binds_add_do_all [of "[push '') values '']" "[[]]"] by (intro binds_add_append) (simp_all add: binds_add_push)
  moreover have "binds_add (do_all [push ''insert into '', push_ident (in_table N), push '' ('']) []"
    using binds_add_do_all [of "[push ''insert into '', push_ident (in_table N), push '' ('']" "[[], [], []]"]
    by (simp add: binds_add_push binds_add_ident)
  ultimately show ?thesis
    unfolding write_head_def by (metis append_Nil binds_add_append)
qed

lemma binds_add_row: "binds_add (write_row N included r) (map payload (row_values N included r))"
proof -
  have "binds_add (bind_values N included r) (map payload (row_values N included r))"
    unfolding bind_values_def
    using binds_add_separated [OF list_all2_map_fun [of "row_values N included r" binds_add push_bind "\<lambda>v. [payload v]"]]
    by (simp add: binds_add_bind concat_map_singleton)
  then show ?thesis
    unfolding write_row_def
    using binds_add_do_all [of "[push ''('', bind_values N included r, push '')'']"
        "[[], map payload (row_values N included r), []]"]
    by (simp add: binds_add_push)
qed

subsection \<open>Which columns an insert names\<close>

definition rows_fit :: "insertable \<Rightarrow> 'x new_row list \<Rightarrow> bool" where
  "rows_fit N rows \<longleftrightarrow>
     (\<forall>r \<in> set rows. length (nr_required r) = length (in_required N) \<and> length (nr_optional r) = length (in_optional N))"

lemma included_fold:
  assumes "rows_fit N rows" "length acc = length (in_optional N)"
  shows "foldl (\<lambda>inc r. map2 (\<or>) inc (optional_present r) @ drop (length (optional_present r)) inc) acc rows =
     map (\<lambda>j. acc ! j \<or> (\<exists>r \<in> set rows. nr_optional r ! j \<noteq> None)) [0..<length (in_optional N)]"
  using assms
proof (induction rows arbitrary: acc)
  case Nil
  then show ?case using map_nth [of acc] by simp
next
  case (Cons r rows)
  then have len: "length (nr_optional r) = length (in_optional N)" by (simp add: rows_fit_def)
  let ?acc = "map2 (\<or>) acc (optional_present r) @ drop (length (optional_present r)) acc"
  have "?acc = map2 (\<or>) acc (optional_present r)" and "length ?acc = length (in_optional N)"
    using len Cons.prems(2) by (simp_all add: optional_present_def)
  moreover have "map2 (\<or>) acc (optional_present r) ! j = (acc ! j \<or> nr_optional r ! j \<noteq> None)"
    if "j < length (in_optional N)" for j
    using that len Cons.prems(2) by (simp add: optional_present_def)
  ultimately show ?case
    using Cons by (auto simp: rows_fit_def intro!: map_cong)
qed

lemma optional_included_eq:
  "rows_fit N rows \<Longrightarrow>
   optional_included N rows =
     map (\<lambda>j. \<exists>r \<in> set rows. nr_optional r ! j \<noteq> None) [0..<length (in_optional N)]"
  using included_fold [of N rows "replicate (length (in_optional N)) False"]
  by (simp add: optional_included_def cong: map_cong)

lemma filter_zip_upt:
  "map (\<lambda>(c, _). f c) (filter snd (zip cs (map P [n..<n + length cs]))) =
   map (\<lambda>j. f (cs ! (j - n))) (filter P [n..<n + length cs])"
proof (induction cs arbitrary: n)
  case Nil
  then show ?case by simp
next
  case (Cons c cs)
  have "map (\<lambda>j. f ((c # cs) ! (j - n))) (filter P [Suc n..<Suc n + length cs]) =
      map (\<lambda>j. f (cs ! (j - Suc n))) (filter P [Suc n..<Suc n + length cs])"
    by (rule map_cong [OF refl]) (auto simp: nth_Cons')
  moreover have "[n..<n + length (c # cs)] = n # [Suc n..<Suc n + length cs]"
    by (simp add: upt_conv_Cons del: upt_Suc)
  ultimately show ?case using Cons.IH [of "Suc n"] by (simp del: upt_Suc)
qed

lemma row_values_length:
  assumes "rows_fit N rows" "r \<in> set rows" "length included = length (in_optional N)"
  shows "length (row_values N included r) = length (column_names N included)"
proof -
  have "length (filter fst (zip included (zip cs vs))) = length (filter snd (zip cs included))"
    if "length included = length cs" "length cs = length vs" for cs :: "(string \<times> value_kind \<times> string option) list"
      and vs :: "'a sql_value option list"
    using that
  proof (induction included cs vs rule: list_induct3)
    case Nil
    then show ?case by simp
  next
    case (Cons b bs c cs v vs)
    then show ?case by simp
  qed
  with assms show ?thesis by (simp add: rows_fit_def row_values_def column_names_def)
qed

text \<open>A batch insert names the required columns and exactly those defaulted columns for which some row
  has a value, and every row binds one value per named column: the statement's binds are the rows'
  values one row after the other.
\<close>

theorem insert_rows_match_columns:
  assumes "rows_fit N (ins_rows i)" "ins_conflict i = None" "insert_build N i None = Inr (sql, binds)"
  shows "let included = (if in_optional N = [] then [] else optional_included N (ins_rows i))
     in column_names N included =
          map fst (in_required N) @
          map (\<lambda>j. fst (in_optional N ! j))
            (filter (\<lambda>j. \<exists>r \<in> set (ins_rows i). nr_optional r ! j \<noteq> None) [0..<length (in_optional N)]) \<and>
        binds = concat (map (\<lambda>r. map payload (row_values N included r)) (ins_rows i)) \<and>
        (\<forall>r \<in> set (ins_rows i). length (row_values N included r) = length (column_names N included))"
proof -
  define included where "included = (if in_optional N = [] then [] else optional_included N (ins_rows i))"
  let ?P = "\<lambda>j. \<exists>r \<in> set (ins_rows i). nr_optional r ! j \<noteq> None"
  have inc: "included = map ?P [0..<length (in_optional N)]"
    using assms(1) by (simp add: included_def optional_included_eq)
  have cols: "column_names N included = map fst (in_required N) @
      map (\<lambda>j. fst (in_optional N ! j)) (filter ?P [0..<length (in_optional N)])"
    using filter_zip_upt [of fst "in_optional N" ?P 0] by (simp add: column_names_def inc)
  have rows: "\<forall>r \<in> set (ins_rows i). length (row_values N included r) = length (column_names N included)"
    using row_values_length [OF assms(1)] by (simp add: inc)
  have "binds_add (do_all (separated '', '' (map (write_row N included) (ins_rows i))))
      (concat (map (\<lambda>r. map payload (row_values N included r)) (ins_rows i)))"
    by (intro binds_add_separated list_all2_map_fun binds_add_row)
  from binds_add_append [OF binds_add_head this]
  have "binds_add (insert_render N i None) (concat (map (\<lambda>r. map payload (row_values N included r)) (ins_rows i)))"
    by (simp add: insert_render_def Let_def included_def [symmetric] assms(2) opt_clause_def)
  then have "binds = concat (map (\<lambda>r. map payload (row_values N included r)) (ins_rows i))"
    using assms(3)
    by (auto simp: binds_add_def insert_build_def finish_def into_parts_def with_dialect_def
      split: sum.splits if_splits option.splits)
  with cols rows show ?thesis by (simp add: Let_def included_def)
qed

definition counter_rows :: "unit insert" where
  "counter_rows =
     \<lparr>ins_exec = Some PostgresDialect,
      ins_rows = [\<lparr>nr_required = [I64 1], nr_optional = [None]\<rparr>, \<lparr>nr_required = [I64 2], nr_optional = [Some (I64 5)]\<rparr>],
      ins_conflict = None\<rparr>"

lemma counter_rows_sql:
  \<open>insert_build counter_table counter_rows None =
     Inr (''insert into "counter" ("id", "hits") values ($1, $2), ($3, $4)'', [I64 1, Null KI64, I64 2, I64 5])\<close>
  by code_simp

theorem insert_rows_match_columns_witness:
  "column_names counter_table [True] = [''id'', ''hits''] \<and>
   [I64 1, Null KI64, I64 2, I64 5] = concat (map (\<lambda>r. map payload (row_values counter_table [True] r)) (ins_rows counter_rows))"
proof -
  have inc: "(if in_optional counter_table = [] then [] else optional_included counter_table (ins_rows counter_rows)) = [True]"
    by code_simp
  have "rows_fit counter_table (ins_rows counter_rows)" by code_simp
  moreover have "ins_conflict counter_rows = None" by (simp add: counter_rows_def)
  ultimately show ?thesis
    using insert_rows_match_columns [OF _ _ counter_rows_sql] unfolding Let_def inc
    by (simp add: column_names_def counter_table_def)
qed

end
