(* ===== verification/Composite.thy ===== *)
theory Composite
  imports SqlWriter
begin

text \<open>
  The text codec of Postgres composite values (\<^verbatim>\<open>orm/src/composite.rs\<close>). How the library prints
  floats, UUIDs, dates and JSON is the argument \<^term>\<open>disp\<close>; how it reads them is
  \<^term>\<open>lib_parse\<close>, by kind.
\<close>

subsection \<open>Encoding\<close>

text \<open>
  \<^verbatim>\<open>char::is_whitespace\<close> on UTF-8: the ASCII blanks, U+0085, U+00A0, U+1680, U+2000 to U+200A, U+2028,
  U+2029, U+202F, U+205F and U+3000.
\<close>

definition ascii_space :: "char \<Rightarrow> bool" where
  "ascii_space c \<longleftrightarrow> (9 \<le> (of_char c :: nat) \<and> (of_char c :: nat) \<le> 13) \<or> c = CHR '' ''"

definition space2 :: "char \<Rightarrow> char \<Rightarrow> bool" where
  "space2 a b \<longleftrightarrow> a = CHR 0xC2 \<and> (b = CHR 0x85 \<or> b = CHR 0xA0)"

definition space3 :: "char \<Rightarrow> char \<Rightarrow> char \<Rightarrow> bool" where
  "space3 a b c \<longleftrightarrow>
     (a = CHR 0xE1 \<and> b = CHR 0x9A \<and> c = CHR 0x80) \<or>
     (a = CHR 0xE2 \<and> b = CHR 0x80 \<and>
        ((of_char c :: nat) \<in> {0x80..0x8A} \<or> c = CHR 0xA8 \<or> c = CHR 0xA9 \<or> c = CHR 0xAF)) \<or>
     (a = CHR 0xE2 \<and> b = CHR 0x81 \<and> c = CHR 0x9F) \<or>
     (a = CHR 0xE3 \<and> b = CHR 0x80 \<and> c = CHR 0x80)"

fun has_whitespace :: "string \<Rightarrow> bool" where
  "has_whitespace [] = False"
| "has_whitespace (a # rest) =
     (ascii_space a \<or>
      (case rest of
         [] \<Rightarrow> False
       | b # rest' \<Rightarrow> space2 a b \<or> (case rest' of [] \<Rightarrow> False | c # _ \<Rightarrow> space3 a b c)) \<or>
      has_whitespace rest)"

definition special :: "char \<Rightarrow> bool" where
  "special c \<longleftrightarrow> c = CHR '','' \<or> c = CHR ''('' \<or> c = CHR '')'' \<or> c = CHR 0x22 \<or> c = CHR 0x5C"

fun escape_text :: "string \<Rightarrow> string" where
  "escape_text [] = []"
| "escape_text (c # cs) = (if c = CHR 0x22 \<or> c = CHR 0x5C then c # c # escape_text cs else c # escape_text cs)"

definition encode_text :: "string \<Rightarrow> string" where
  "encode_text txt =
     (if txt \<noteq> [] \<and> \<not> list_ex special txt \<and> \<not> has_whitespace txt then txt
      else [CHR 0x22] @ escape_text txt @ [CHR 0x22])"

fun scalar_text :: "('x sql_value \<Rightarrow> string) \<Rightarrow> 'x sql_value \<Rightarrow> string" where
  "scalar_text disp (Timestamptz t) = disp (Timestamptz t)"
| "scalar_text disp (NaiveDateTime t) = disp (NaiveDateTime t)"
| "scalar_text disp (Date t) = disp (Date t)"
| "scalar_text disp (NaiveTime t) = disp (NaiveTime t)"
| "scalar_text disp (Json j) = disp (Json j)"
| "scalar_text disp _ = []"

fun encode_field :: "('x sql_value \<Rightarrow> string) \<Rightarrow> 'x sql_value \<Rightarrow> string" where
  "encode_field disp (Null k) = []"
| "encode_field disp (Bool b) = (if b then ''t'' else ''f'')"
| "encode_field disp (I16 n) = show_signed n"
| "encode_field disp (I32 n) = show_signed n"
| "encode_field disp (I64 n) = show_signed n"
| "encode_field disp (F32 x) = disp (F32 x)"
| "encode_field disp (F64 x) = disp (F64 x)"
| "encode_field disp (Uuid x) = disp (Uuid x)"
| "encode_field disp (Text s) = encode_text s"
| "encode_field disp other = encode_text (scalar_text disp other)"

definition encode :: "('x sql_value \<Rightarrow> string) \<Rightarrow> 'x sql_value list \<Rightarrow> string" where
  "encode disp flds = ''('' @ join '','' (map (encode_field disp) flds) @ '')''"

subsection \<open>Parsing\<close>

definition finish_field :: "string \<Rightarrow> bool \<Rightarrow> string option" where
  "finish_field buffer was_quoted = (if \<not> was_quoted \<and> buffer = [] then None else Some buffer)"

fun parse_fields :: "string \<Rightarrow> string option list \<Rightarrow> string \<Rightarrow> bool \<Rightarrow> bool \<Rightarrow> string option list" where
  "parse_fields [] flds buffer in_quote was_quoted = flds @ [finish_field buffer was_quoted]"
| "parse_fields (c # chars) flds buffer in_quote was_quoted =
     (if in_quote then
        if c = CHR 0x22 then
          (case chars of
             d # chars' \<Rightarrow>
               if d = CHR 0x22 then parse_fields chars' flds (buffer @ [CHR 0x22]) True was_quoted
               else parse_fields chars flds buffer False was_quoted
           | [] \<Rightarrow> parse_fields chars flds buffer False was_quoted)
        else if c = CHR 0x5C then
          (case chars of
             d # chars' \<Rightarrow> parse_fields chars' flds (buffer @ [d]) True was_quoted
           | [] \<Rightarrow> parse_fields [] flds buffer True was_quoted)
        else parse_fields chars flds (buffer @ [c]) True was_quoted
      else if c = CHR '','' then
        parse_fields chars (flds @ [finish_field buffer was_quoted]) [] False False
      else if c = CHR 0x22 then parse_fields chars flds buffer True True
      else if c = CHR 0x5C then
        (case chars of
           d # chars' \<Rightarrow> parse_fields chars' flds (buffer @ [d]) False was_quoted
         | [] \<Rightarrow> parse_fields [] flds buffer False was_quoted)
      else parse_fields chars flds (buffer @ [c]) False was_quoted)"

definition strip_parens :: "string \<Rightarrow> string option" where
  "strip_parens txt =
     (if txt \<noteq> [] \<and> hd txt = CHR ''('' \<and> tl txt \<noteq> [] \<and> last (tl txt) = CHR '')''
      then Some (butlast (tl txt)) else None)"

definition parse :: "string \<Rightarrow> nat \<Rightarrow> orm_error + string option list" where
  "parse txt expected =
     (case strip_parens txt of
        None \<Rightarrow> Inl (Decode ''composite: missing surrounding parentheses'')
      | Some inner \<Rightarrow>
          let flds = parse_fields inner [] [] False False
          in if length flds \<noteq> expected
             then Inl (Decode (''composite: expected '' @ show_nat expected @ '' fields, got '' @ show_nat (length flds)))
             else Inr flds)"

text \<open>\<^verbatim>\<open>str::parse\<close> of a signed integer.\<close>

definition parse_int :: "string \<Rightarrow> int option" where
  "parse_int s =
     (let digits = (if s \<noteq> [] \<and> (hd s = CHR ''-'' \<or> hd s = CHR ''+'') then tl s else s)
      in if digits = [] \<or> \<not> list_all is_digit digits then None
         else Some (if hd s = CHR ''-'' then - int (read_nat digits) else int (read_nat digits)))"

definition parse_signed :: "nat \<Rightarrow> string \<Rightarrow> 'a::len word option" where
  "parse_signed bits s =
     (case parse_int s of
        Some n \<Rightarrow> if - (2 ^ (bits - 1)) \<le> n \<and> n < 2 ^ (bits - 1) then Some (word_of_int n) else None
      | None \<Rightarrow> None)"

definition decoded_as :: "string \<Rightarrow> 'a option \<Rightarrow> ('a \<Rightarrow> 'x sql_value) \<Rightarrow> orm_error + 'x sql_value" where
  "decoded_as what x f =
     (case x of Some v \<Rightarrow> Inr (f v) | None \<Rightarrow> Inl (Decode (''composite field: bad '' @ what)))"

fun field_value ::
  "(value_kind \<Rightarrow> string \<Rightarrow> 'x option) \<Rightarrow> (string \<Rightarrow> jvalue option) \<Rightarrow> string option \<Rightarrow> value_kind \<Rightarrow>
     orm_error + 'x sql_value" where
  "field_value lib_parse parse_json None kind = Inr (Null kind)"
| "field_value lib_parse parse_json (Some txt) kind =
     (case kind of
        KBool \<Rightarrow> Inr (Bool (txt = ''t'' \<or> txt = ''true'' \<or> txt = ''T'' \<or> txt = ''1''))
      | KI16 \<Rightarrow> decoded_as ''i16'' (parse_signed 16 txt) I16
      | KI32 \<Rightarrow> decoded_as ''i32'' (parse_signed 32 txt) I32
      | KI64 \<Rightarrow> decoded_as ''i64'' (parse_signed 64 txt) I64
      | KF32 \<Rightarrow> decoded_as ''f32'' (lib_parse KF32 txt) F32
      | KF64 \<Rightarrow> decoded_as ''f64'' (lib_parse KF64 txt) F64
      | KUuid \<Rightarrow> decoded_as ''uuid'' (lib_parse KUuid txt) Uuid
      | KJson \<Rightarrow> decoded_as ''json'' (parse_json txt) Json
      | _ \<Rightarrow> Inr (Text txt))"

subsection \<open>Round trip\<close>

text \<open>What the parser gives back for a field.\<close>

fun field_text :: "('x sql_value \<Rightarrow> string) \<Rightarrow> 'x sql_value \<Rightarrow> string option" where
  "field_text disp (Null k) = None"
| "field_text disp (Bool b) = Some (if b then ''t'' else ''f'')"
| "field_text disp (I16 n) = Some (show_signed n)"
| "field_text disp (I32 n) = Some (show_signed n)"
| "field_text disp (I64 n) = Some (show_signed n)"
| "field_text disp (F32 x) = Some (disp (F32 x))"
| "field_text disp (F64 x) = Some (disp (F64 x))"
| "field_text disp (Uuid x) = Some (disp (Uuid x))"
| "field_text disp (Text s) = Some s"
| "field_text disp other = Some (scalar_text disp other)"

text \<open>A text the parser copies as it is.\<close>

definition bare :: "string \<Rightarrow> bool" where
  "bare s \<longleftrightarrow> \<not> list_ex special s"

lemma parse_bare:
  "bare s \<Longrightarrow> parse_fields (s @ rest) flds buffer False was = parse_fields rest flds (buffer @ s) False was"
  by (induction s arbitrary: buffer) (auto simp: bare_def special_def)

lemma parse_escaped:
  "parse_fields (escape_text s @ CHR 0x22 # rest) flds buffer True was =
   parse_fields (CHR 0x22 # rest) flds (buffer @ s) True was"
  by (induction s arbitrary: buffer) (auto split: list.split)

definition ends_field :: "string \<Rightarrow> bool" where
  "ends_field rest \<longleftrightarrow> rest = [] \<or> hd rest = CHR '',''"

lemma parse_close_quote:
  "ends_field rest \<Longrightarrow> parse_fields (CHR 0x22 # rest) flds buffer True was = parse_fields rest flds buffer False was"
  by (cases rest) (auto simp: ends_field_def)

lemma parse_encoded_text:
  assumes "ends_field rest"
  shows "\<exists>was. parse_fields (encode_text s @ rest) flds [] False False = parse_fields rest flds s False was \<and>
    finish_field s was = Some s"
proof (cases "s \<noteq> [] \<and> \<not> list_ex special s \<and> \<not> has_whitespace s")
  case True
  then have "parse_fields (encode_text s @ rest) flds [] False False = parse_fields rest flds s False False"
    using parse_bare [of s rest flds "[]"] by (simp add: encode_text_def bare_def)
  moreover have "finish_field s False = Some s" using True by (simp add: finish_field_def)
  ultimately show ?thesis by blast
next
  case False
  then have "parse_fields (encode_text s @ rest) flds [] False False =
      parse_fields (CHR 0x22 # rest) flds s True True"
    using parse_escaped [of s rest flds "[]" True] by (auto simp: encode_text_def)
  moreover have "finish_field s True = Some s" by (simp add: finish_field_def)
  ultimately show ?thesis using parse_close_quote [OF assms] by metis
qed

lemma bare_show_signed: "bare (show_signed n)" "show_signed n \<noteq> []"
proof -
  have "bare (show_nat k)" for k
    using show_nat_digits [of k] by (fastforce simp: bare_def special_def list_ex_iff is_digit_def)
  then show "bare (show_signed n)" by (simp add: show_signed_def bare_def special_def)
  show "show_signed n \<noteq> []" by (simp add: show_signed_def)
qed

text \<open>
  What the codec needs of the library for a value: a float or UUID is printed as a nonempty text
  without separators, quotes or backslashes, and reads back; JSON text reads back.
\<close>

fun carries ::
  "('x sql_value \<Rightarrow> string) \<Rightarrow> (value_kind \<Rightarrow> string \<Rightarrow> 'x option) \<Rightarrow> (string \<Rightarrow> jvalue option) \<Rightarrow> 'x sql_value \<Rightarrow> bool" where
  "carries disp lib_parse parse_json (F32 x) =
     (bare (disp (F32 x)) \<and> disp (F32 x) \<noteq> [] \<and> lib_parse KF32 (disp (F32 x)) = Some x)"
| "carries disp lib_parse parse_json (F64 x) =
     (bare (disp (F64 x)) \<and> disp (F64 x) \<noteq> [] \<and> lib_parse KF64 (disp (F64 x)) = Some x)"
| "carries disp lib_parse parse_json (Uuid x) =
     (bare (disp (Uuid x)) \<and> disp (Uuid x) \<noteq> [] \<and> lib_parse KUuid (disp (Uuid x)) = Some x)"
| "carries disp lib_parse parse_json (Json j) = (parse_json (disp (Json j)) = Some j)"
| "carries disp lib_parse parse_json (Null k) = True"
| "carries disp lib_parse parse_json (Bool b) = True"
| "carries disp lib_parse parse_json (I16 n) = True"
| "carries disp lib_parse parse_json (I32 n) = True"
| "carries disp lib_parse parse_json (I64 n) = True"
| "carries disp lib_parse parse_json (Text s) = True"
| "carries disp lib_parse parse_json _ = False"

lemma parse_unquoted:
  "bare s \<Longrightarrow> s \<noteq> [] \<Longrightarrow>
   \<exists>buffer was. parse_fields (s @ rest) flds [] False False = parse_fields rest flds buffer False was \<and>
     finish_field buffer was = Some s"
  using parse_bare [of s rest flds "[]" False]
  by (intro exI [of _ s] exI [of _ False]) (simp add: finish_field_def)

lemma parse_field:
  assumes "ends_field rest" "carries disp lib_parse parse_json v"
  shows "\<exists>buffer was. parse_fields (encode_field disp v @ rest) flds [] False False =
      parse_fields rest flds buffer False was \<and> finish_field buffer was = field_text disp v"
proof (cases v)
  case (Null k)
  then show ?thesis by (auto simp: finish_field_def)
next
  case (Bool b)
  then show ?thesis using parse_unquoted [of "if b then ''t'' else ''f''" rest flds]
    by (simp add: bare_def special_def)
next
  case (Text s)
  then show ?thesis using parse_encoded_text [OF assms(1), of s flds] by auto
next
  case (Json j)
  then show ?thesis using parse_encoded_text [OF assms(1), of "disp (Json j)" flds] by auto
next
  case (I16 n)
  then show ?thesis using parse_unquoted [OF bare_show_signed [of n], of rest flds] by simp
next
  case (I32 n)
  then show ?thesis using parse_unquoted [OF bare_show_signed [of n], of rest flds] by simp
next
  case (I64 n)
  then show ?thesis using parse_unquoted [OF bare_show_signed [of n], of rest flds] by simp
next
  case (F32 x)
  then show ?thesis using assms(2) parse_unquoted [of "disp (F32 x)" rest flds] by simp
next
  case (F64 x)
  then show ?thesis using assms(2) parse_unquoted [of "disp (F64 x)" rest flds] by simp
next
  case (Uuid x)
  then show ?thesis using assms(2) parse_unquoted [of "disp (Uuid x)" rest flds] by simp
qed (use assms(2) in simp_all)

lemma parse_joined:
  assumes "vs \<noteq> []" "\<forall>v \<in> set vs. carries disp lib_parse parse_json v"
  shows "parse_fields (join '','' (map (encode_field disp) vs)) flds [] False False = flds @ map (field_text disp) vs"
  using assms
proof (induction vs arbitrary: flds)
  case (Cons v vs)
  show ?case
  proof (cases vs)
    case Nil
    then show ?thesis
      using Cons.prems parse_field [of "[]" disp lib_parse parse_json v flds] by (auto simp: ends_field_def)
  next
    case (Cons v' vs')
    let ?rest = "CHR '','' # join '','' (map (encode_field disp) vs)"
    obtain buffer was where
      "parse_fields (encode_field disp v @ ?rest) flds [] False False = parse_fields ?rest flds buffer False was"
      "finish_field buffer was = field_text disp v"
      using Cons.prems parse_field [of ?rest disp lib_parse parse_json v flds] by (auto simp: ends_field_def)
    then show ?thesis
      using Cons.IH [of "flds @ [field_text disp v]"] Cons.prems Cons by simp
  qed
qed simp

lemma parse_encode:
  assumes "vs \<noteq> []" "\<forall>v \<in> set vs. carries disp lib_parse parse_json v"
  shows "parse (encode disp vs) (length vs) = Inr (map (field_text disp) vs)"
  using parse_joined [OF assms, of "[]"]
  by (simp add: parse_def encode_def strip_parens_def butlast_append)

fun kind_of :: "'x sql_value \<Rightarrow> value_kind" where
  "kind_of (Null k) = k"
| "kind_of (I16 _) = KI16"
| "kind_of (I32 _) = KI32"
| "kind_of (I64 _) = KI64"
| "kind_of (F32 _) = KF32"
| "kind_of (F64 _) = KF64"
| "kind_of (Bool _) = KBool"
| "kind_of (Uuid _) = KUuid"
| "kind_of (Json _) = KJson"
| "kind_of _ = KText"

lemma parse_int_show: "parse_int (show_signed n) = Some (sint n)"
proof -
  have d: "list_all is_digit (show_nat k)" for k using show_nat_digits [of k] by (simp add: list_all_iff)
  have h: "hd (show_nat k) \<noteq> CHR ''-''" "hd (show_nat k) \<noteq> CHR ''+''" for k
    using d [of k] by (cases "show_nat k"; auto simp: is_digit_def)+
  show ?thesis using d h by (simp add: parse_int_def show_signed_def Let_def)
qed

lemma parse_signed_show:
  fixes n :: "'a::len word"
  shows "parse_signed LENGTH('a) (show_signed n) = Some n"
  using sint_greater_eq [of n] sint_less [of n] by (simp add: parse_signed_def parse_int_show)

lemma field_value_text:
  assumes "carries disp lib_parse parse_json v"
  shows "field_value lib_parse parse_json (field_text disp v) (kind_of v) = Inr v"
  using assms parse_signed_show [where ?'a = 16] parse_signed_show [where ?'a = 32]
    parse_signed_show [where ?'a = 64]
  by (cases v) (auto simp: decoded_as_def)


definition example_fields :: "unit sql_value list" where
  "example_fields = [Text (''a,(b)'' @ [CHR 0x22, CHR 0x5C]), Null KI32, I32 (- 5), Bool True, Text []]"


text \<open>Binary data, vectors, geometries and arrays inside a composite are encoded as an empty text.\<close>

lemma encode_loses_bytes: "encode disp (pre @ Bytes b # post) = encode disp (pre @ Bytes b' # post)"
  and encode_loses_arrays: "encode disp (pre @ Array k vs # post) = encode disp (pre @ Array k vs' # post)"
  by (simp_all add: encode_def)

end
