(* ===== verification/Database.thy ===== *)
theory Database
  imports Inserts
begin

text \<open>
  Database handles of the ORM (\<^verbatim>\<open>orm/src/exec.rs\<close>, \<^verbatim>\<open>raw.rs\<close>, \<^verbatim>\<open>db.rs\<close>): running statements on the
  pool or on a transaction, transactions, migrations, lookups by primary key and the loaders of
  relations. The backend is a parameter, a record of the operations of the \<^verbatim>\<open>Driver\<close> and
  \<^verbatim>\<open>TxConn\<close> traits over a state \<^typ>\<open>'w\<close>; a connection in a transaction is a value \<^typ>\<open>'c\<close>.
\<close>

subsection \<open>Drivers and executors\<close>

record ('x, 'c, 'w) driver =
  drv_dialect :: dialect
  drv_fetch :: "string \<Rightarrow> 'x sql_value list \<Rightarrow> 'w \<Rightarrow> ('x row list \<times> orm_error option) \<times> 'w"
  drv_execute :: "string \<Rightarrow> 'x sql_value list \<Rightarrow> 'w \<Rightarrow> (orm_error + nat) \<times> 'w"
  drv_begin :: "'w \<Rightarrow> (orm_error + 'c) \<times> 'w"
  tx_fetch :: "string \<Rightarrow> 'x sql_value list \<Rightarrow> 'c \<Rightarrow> 'w \<Rightarrow> ('x row list \<times> orm_error option) \<times> 'c \<times> 'w"
  tx_execute :: "string \<Rightarrow> 'x sql_value list \<Rightarrow> 'c \<Rightarrow> 'w \<Rightarrow> (orm_error + nat) \<times> 'c \<times> 'w"
  tx_commit :: "'c \<Rightarrow> 'w \<Rightarrow> (orm_error + unit) \<times> 'w"
  tx_rollback :: "'c \<Rightarrow> 'w \<Rightarrow> (orm_error + unit) \<times> 'w"

text \<open>
  The shared cells of transactions, by number: a cell holds the connection until the transaction
  is finished, and stays empty after that.
\<close>

record ('c, 'w) db =
  db_cells :: "'c option list"
  db_world :: 'w

datatype exec = Pool | Tx nat

definition finished :: orm_error where
  "finished = Transaction ''transaction already finished''"

definition cell :: "nat \<Rightarrow> ('c, 'w) db \<Rightarrow> 'c option" where
  "cell t st = (if t < length (db_cells st) then db_cells st ! t else None)"

definition set_cell :: "nat \<Rightarrow> 'c option \<Rightarrow> ('c, 'w) db \<Rightarrow> ('c, 'w) db" where
  "set_cell t c st = st\<lparr>db_cells := (db_cells st)[t := c]\<rparr>"

definition exec_execute ::
  "('x, 'c, 'w) driver \<Rightarrow> exec \<Rightarrow> string \<Rightarrow> 'x sql_value list \<Rightarrow> ('c, 'w) db \<Rightarrow> (orm_error + nat) \<times> ('c, 'w) db" where
  "exec_execute drv ex sql binds st =
     (case ex of
        Pool \<Rightarrow> (let (r, w) = drv_execute drv sql binds (db_world st) in (r, st\<lparr>db_world := w\<rparr>))
      | Tx t \<Rightarrow>
          (case cell t st of
             None \<Rightarrow> (Inl finished, st)
           | Some c \<Rightarrow>
               let (r, c', w) = tx_execute drv sql binds c (db_world st)
               in (r, (set_cell t (Some c') st)\<lparr>db_world := w\<rparr>)))"

text \<open>Rows go to the sink one after the other; an error of the sink stops the fetch.\<close>

fun sink_rows :: "('s \<Rightarrow> 'x row \<Rightarrow> orm_error + 's) \<Rightarrow> 's \<Rightarrow> 'x row list \<Rightarrow> orm_error + 's" where
  "sink_rows on_row s [] = Inr s"
| "sink_rows on_row s (r # rs) = (case on_row s r of Inl e \<Rightarrow> Inl e | Inr s' \<Rightarrow> sink_rows on_row s' rs)"

definition sunk ::
  "('s \<Rightarrow> 'x row \<Rightarrow> orm_error + 's) \<Rightarrow> 's \<Rightarrow> 'x row list \<times> orm_error option \<Rightarrow> orm_error + 's" where
  "sunk on_row s = (\<lambda>(rows, failed).
     case sink_rows on_row s rows of
       Inl e \<Rightarrow> Inl e
     | Inr s' \<Rightarrow> (case failed of Some e \<Rightarrow> Inl e | None \<Rightarrow> Inr s'))"

definition for_each_row ::
  "('x, 'c, 'w) driver \<Rightarrow> exec \<Rightarrow> string \<Rightarrow> 'x sql_value list \<Rightarrow> ('s \<Rightarrow> 'x row \<Rightarrow> orm_error + 's) \<Rightarrow> 's \<Rightarrow>
     ('c, 'w) db \<Rightarrow> (orm_error + 's) \<times> ('c, 'w) db" where
  "for_each_row drv ex sql binds on_row s st =
     (case ex of
        Pool \<Rightarrow> (let (out, w) = drv_fetch drv sql binds (db_world st) in (sunk on_row s out, st\<lparr>db_world := w\<rparr>))
      | Tx t \<Rightarrow>
          (case cell t st of
             None \<Rightarrow> (Inl finished, st)
           | Some c \<Rightarrow>
               let (out, c', w) = tx_fetch drv sql binds c (db_world st)
               in (sunk on_row s out, (set_cell t (Some c') st)\<lparr>db_world := w\<rparr>)))"

subsection \<open>Select terminals\<close>

text \<open>A builder from a handle renders for the handle's dialect.\<close>

definition bound_to :: "('x, 'c, 'w) driver \<Rightarrow> 'x select \<Rightarrow> 'x select" where
  "bound_to drv s = s\<lparr>sel_exec := Some (drv_dialect drv)\<rparr>"

definition collect_row :: "'x projection \<Rightarrow> 'x decoded list \<Rightarrow> 'x row \<Rightarrow> orm_error + 'x decoded list" where
  "collect_row p out r = (case decode p r 0 of Inl e \<Rightarrow> Inl e | Inr v \<Rightarrow> Inr (out @ [v]))"

definition first_row :: "'x projection \<Rightarrow> 'x decoded option \<Rightarrow> 'x row \<Rightarrow> orm_error + 'x decoded option" where
  "first_row p out r =
     (if out = None then case decode p r 0 of Inl e \<Rightarrow> Inl e | Inr v \<Rightarrow> Inr (Some v) else Inr out)"

definition run_select ::
  "('x, 'c, 'w) driver \<Rightarrow> exec \<Rightarrow> ('s \<Rightarrow> 'x row \<Rightarrow> orm_error + 's) \<Rightarrow> 's \<Rightarrow> 'x select \<Rightarrow> ('c, 'w) db \<Rightarrow>
     (orm_error + 's) \<times> ('c, 'w) db" where
  "run_select drv ex on_row s q st =
     (case select_into_sql (bound_to drv q) of
        Inl e \<Rightarrow> (Inl e, st)
      | Inr (sql, arguments) \<Rightarrow> for_each_row drv ex sql arguments on_row s st)"

definition select_all ::
  "('x, 'c, 'w) driver \<Rightarrow> exec \<Rightarrow> 'x select \<Rightarrow> ('c, 'w) db \<Rightarrow> (orm_error + 'x decoded list) \<times> ('c, 'w) db" where
  "select_all drv ex q st = run_select drv ex (collect_row (sel_projection q)) [] q st"

definition select_one ::
  "('x, 'c, 'w) driver \<Rightarrow> exec \<Rightarrow> 'x select \<Rightarrow> ('c, 'w) db \<Rightarrow> (orm_error + 'x decoded option) \<times> ('c, 'w) db" where
  "select_one drv ex q st = run_select drv ex (first_row (sel_projection q)) None (q\<lparr>sel_limit := Some 1\<rparr>) st"

definition select_one_or_err ::
  "('x, 'c, 'w) driver \<Rightarrow> exec \<Rightarrow> 'x select \<Rightarrow> ('c, 'w) db \<Rightarrow> (orm_error + 'x decoded) \<times> ('c, 'w) db" where
  "select_one_or_err drv ex q st =
     (case select_one drv ex q st of
        (Inl e, st) \<Rightarrow> (Inl e, st)
      | (Inr None, st) \<Rightarrow> (Inl NotFound, st)
      | (Inr (Some v), st) \<Rightarrow> (Inr v, st))"

definition select_exact_one ::
  "('x, 'c, 'w) driver \<Rightarrow> exec \<Rightarrow> 'x select \<Rightarrow> ('c, 'w) db \<Rightarrow> (orm_error + 'x decoded) \<times> ('c, 'w) db" where
  "select_exact_one drv ex q st =
     (case run_select drv ex (collect_row (sel_projection q)) [] (q\<lparr>sel_limit := Some 2\<rparr>) st of
        (Inl e, st) \<Rightarrow> (Inl e, st)
      | (Inr rows, st) \<Rightarrow>
          (if length rows > 1 then Inl TooManyRows
           else case rows of [] \<Rightarrow> Inl NotFound | v # _ \<Rightarrow> Inr v, st))"

text \<open>The scalar of a count or an existence test; without a row, the value for no row.\<close>

definition run_wrapped ::
  "('x, 'c, 'w) driver \<Rightarrow> exec \<Rightarrow> (orm_error + (string \<times> 'x sql_value list)) \<Rightarrow> value_kind \<Rightarrow> 'x sql_value \<Rightarrow>
     ('c, 'w) db \<Rightarrow> (orm_error + 'x sql_value) \<times> ('c, 'w) db" where
  "run_wrapped drv ex rendered kind none st =
     (case rendered of
        Inl e \<Rightarrow> (Inl e, st)
      | Inr (sql, arguments) \<Rightarrow> for_each_row drv ex sql arguments (\<lambda>_ row. try_value row 0 kind) none st)"

definition run_count ::
  "('x, 'c, 'w) driver \<Rightarrow> exec \<Rightarrow> 'x select \<Rightarrow> ('c, 'w) db \<Rightarrow> (orm_error + 'x sql_value) \<times> ('c, 'w) db" where
  "run_count drv ex q st = run_wrapped drv ex (select_count (bound_to drv q)) KI64 (I64 0) st"

definition run_exists ::
  "('x, 'c, 'w) driver \<Rightarrow> exec \<Rightarrow> 'x select \<Rightarrow> ('c, 'w) db \<Rightarrow> (orm_error + 'x sql_value) \<times> ('c, 'w) db" where
  "run_exists drv ex q st = run_wrapped drv ex (select_exists (bound_to drv q)) KBool (Bool False) st"

subsection \<open>Terminals of the other statements\<close>

text \<open>Updates and deletes; a builder without executor is refused before anything is rendered.\<close>

definition mutation_execute ::
  "('x, 'c, 'w) driver \<Rightarrow> exec option \<Rightarrow> (orm_error + (string \<times> 'x sql_value list)) \<Rightarrow> ('c, 'w) db \<Rightarrow>
     (orm_error + nat) \<times> ('c, 'w) db" where
  "mutation_execute drv ex rendered st =
     (case ex of
        None \<Rightarrow> (Inl NotFound, st)
      | Some ex \<Rightarrow>
          (case rendered of
             Inl e \<Rightarrow> (Inl e, st)
           | Inr (sql, arguments) \<Rightarrow> exec_execute drv ex sql arguments st))"

definition run_insert ::
  "('x, 'c, 'w) driver \<Rightarrow> exec \<Rightarrow> insertable \<Rightarrow> 'x insert \<Rightarrow> ('c, 'w) db \<Rightarrow> (orm_error + nat) \<times> ('c, 'w) db" where
  "run_insert drv ex N i st =
     (case insert_exec N (i\<lparr>ins_exec := Some (drv_dialect drv)\<rparr>) of
        Inl e \<Rightarrow> (Inl e, st)
      | Inr None \<Rightarrow> (Inr 0, st)
      | Inr (Some (sql, arguments)) \<Rightarrow> exec_execute drv ex sql arguments st)"

text \<open>Returned rows are decoded up to the limit; the rows after it are read and dropped.\<close>

definition returned_row ::
  "nat \<Rightarrow> 'x projection \<Rightarrow> 'x decoded list \<Rightarrow> 'x row \<Rightarrow> orm_error + 'x decoded list" where
  "returned_row limit p out r = (if length out < limit then collect_row p out r else Inr out)"

definition run_returning ::
  "('x, 'c, 'w) driver \<Rightarrow> exec \<Rightarrow> insertable \<Rightarrow> 'x insert \<Rightarrow> 'x projection \<Rightarrow> nat \<Rightarrow> ('c, 'w) db \<Rightarrow>
     (orm_error + 'x decoded list) \<times> ('c, 'w) db" where
  "run_returning drv ex N i p limit st =
     (case returned_rows N (i\<lparr>ins_exec := Some (drv_dialect drv)\<rparr>) p of
        Inl e \<Rightarrow> (Inl e, st)
      | Inr (sql, arguments) \<Rightarrow> for_each_row drv ex sql arguments (returned_row limit p) [] st)"

definition returning_all ::
  "('x, 'c, 'w) driver \<Rightarrow> exec \<Rightarrow> insertable \<Rightarrow> 'x insert \<Rightarrow> 'x projection \<Rightarrow> ('c, 'w) db \<Rightarrow>
     (orm_error + 'x decoded list) \<times> ('c, 'w) db" where
  "returning_all drv ex N i p st =
     (if ins_rows i = [] then (Inr [], st) else run_returning drv ex N i p (2 ^ 64 - 1) st)"

definition returning_one ::
  "('x, 'c, 'w) driver \<Rightarrow> exec \<Rightarrow> insertable \<Rightarrow> 'x insert \<Rightarrow> 'x projection \<Rightarrow> ('c, 'w) db \<Rightarrow>
     (orm_error + 'x decoded) \<times> ('c, 'w) db" where
  "returning_one drv ex N i p st =
     (if ins_rows i = [] then (Inl NotFound, st)
      else case run_returning drv ex N i p 1 st of
             (Inl e, st) \<Rightarrow> (Inl e, st)
           | (Inr [], st) \<Rightarrow> (Inl NotFound, st)
           | (Inr (v # _), st) \<Rightarrow> (Inr v, st))"

subsection \<open>Transactions\<close>

text \<open>
  The closure is a function of the transaction's handle that may run any operation; it gives its
  result and the state it leaves.
\<close>

definition transaction ::
  "('x, 'c, 'w) driver \<Rightarrow> (exec \<Rightarrow> ('c, 'w) db \<Rightarrow> (orm_error + 'r) \<times> ('c, 'w) db) \<Rightarrow> ('c, 'w) db \<Rightarrow>
     (orm_error + 'r) \<times> ('c, 'w) db" where
  "transaction drv work st =
     (case drv_begin drv (db_world st) of
        (Inl e, w) \<Rightarrow> (Inl e, st\<lparr>db_world := w\<rparr>)
      | (Inr c, w) \<Rightarrow>
          let t = length (db_cells st);
              st = st\<lparr>db_cells := db_cells st @ [Some c], db_world := w\<rparr>;
              (outcome, st) = work (Tx t) st;
              taken = cell t st;
              st = set_cell t None st
          in case taken of
               None \<Rightarrow> (Inl (Transaction ''transaction already finalized''), st)
             | Some c \<Rightarrow>
                 (case outcome of
                    Inr v \<Rightarrow>
                      let (r, w) = tx_commit drv c (db_world st)
                      in (case r of Inl e \<Rightarrow> Inl e | Inr _ \<Rightarrow> Inr v, st\<lparr>db_world := w\<rparr>)
                  | Inl e \<Rightarrow>
                      let (r, w) = tx_rollback drv c (db_world st)
                      in (Inl e, st\<lparr>db_world := w\<rparr>)))"

subsection \<open>Raw statements\<close>

record 'x raw =
  raw_exec :: exec
  raw_sql :: string
  raw_binds :: "'x sql_value list"

definition raw_new :: "exec \<Rightarrow> string \<Rightarrow> 'x raw" where
  "raw_new ex sql = \<lparr>raw_exec = ex, raw_sql = sql, raw_binds = []\<rparr>"

definition raw_bind :: "'x sql_value \<Rightarrow> 'x raw \<Rightarrow> 'x raw" where
  "raw_bind v r = r\<lparr>raw_binds := raw_binds r @ [v]\<rparr>"

definition raw_run :: "('x, 'c, 'w) driver \<Rightarrow> 'x raw \<Rightarrow> ('c, 'w) db \<Rightarrow> (orm_error + nat) \<times> ('c, 'w) db" where
  "raw_run drv r st = exec_execute drv (raw_exec r) (raw_sql r) (raw_binds r) st"

text \<open>Rows of a raw query, decoded by position into a table's struct.\<close>

definition raw_all ::
  "('x, 'c, 'w) driver \<Rightarrow> table_meta \<Rightarrow> 'x raw \<Rightarrow> ('c, 'w) db \<Rightarrow> (orm_error + 'x sql_value list list) \<times> ('c, 'w) db" where
  "raw_all drv t r st =
     for_each_row drv (raw_exec r) (raw_sql r) (raw_binds r)
       (\<lambda>out row. case from_row_at (tm_columns t) row 0 of Inl e \<Rightarrow> Inl e | Inr v \<Rightarrow> Inr (out @ [v])) [] st"

definition raw_one ::
  "('x, 'c, 'w) driver \<Rightarrow> table_meta \<Rightarrow> 'x raw \<Rightarrow> ('c, 'w) db \<Rightarrow> (orm_error + 'x sql_value list option) \<times> ('c, 'w) db" where
  "raw_one drv t r st =
     for_each_row drv (raw_exec r) (raw_sql r) (raw_binds r)
       (\<lambda>out row. if out = None
                  then case from_row_at (tm_columns t) row 0 of Inl e \<Rightarrow> Inl e | Inr v \<Rightarrow> Inr (Some v)
                  else Inr out) None st"

definition set_config ::
  "('x, 'c, 'w) driver \<Rightarrow> exec \<Rightarrow> string \<Rightarrow> string \<Rightarrow> bool \<Rightarrow> ('c, 'w) db \<Rightarrow> (orm_error + unit) \<times> ('c, 'w) db" where
  "set_config drv ex key v local st =
     (case raw_run drv
             (raw_bind (Bool local) (raw_bind (Text v) (raw_bind (Text key)
               (raw_new ex ''select set_config($1, $2, $3)'')))) st of
        (Inl e, st) \<Rightarrow> (Inl e, st)
      | (Inr _, st) \<Rightarrow> (Inr (), st))"

subsection \<open>Migrations\<close>

record migration =
  mig_version :: string
  mig_statements :: "string list"

fun run_statements ::
  "('x, 'c, 'w) driver \<Rightarrow> exec \<Rightarrow> string list \<Rightarrow> ('c, 'w) db \<Rightarrow> (orm_error + unit) \<times> ('c, 'w) db" where
  "run_statements drv ex [] st = (Inr (), st)"
| "run_statements drv ex (s # ss) st =
     (case raw_run drv (raw_new ex s) st of
        (Inl e, st) \<Rightarrow> (Inl e, st)
      | (Inr _, st) \<Rightarrow> run_statements drv ex ss st)"

definition record_sql :: "dialect \<Rightarrow> string" where
  "record_sql d =
     ''insert into _stakit_migrations (version) values ('' @
     (if d_numbered_placeholders d then [d_placeholder_prefix d] @ ''1'' else [d_placeholder_prefix d]) @ '')''"

definition apply_migration ::
  "('x, 'c, 'w) driver \<Rightarrow> migration \<Rightarrow> exec \<Rightarrow> ('c, 'w) db \<Rightarrow> (orm_error + unit) \<times> ('c, 'w) db" where
  "apply_migration drv m tx st =
     (case run_statements drv tx (mig_statements m) st of
        (Inl e, st) \<Rightarrow> (Inl e, st)
      | (Inr _, st) \<Rightarrow>
          (case raw_run drv (raw_bind (Text (mig_version m)) (raw_new tx (record_sql (drv_dialect drv)))) st of
             (Inl e, st) \<Rightarrow> (Inl e, st)
           | (Inr _, st) \<Rightarrow> (Inr (), st)))"

definition read_version :: "string list \<Rightarrow> 'x row \<Rightarrow> orm_error + string list" where
  "read_version applied r =
     (case try_value r 0 KText of
        Inl e \<Rightarrow> Inl e
      | Inr (Text v) \<Rightarrow> Inr (List.insert v applied)
      | Inr _ \<Rightarrow> Inl (Decode ''expected text''))"

fun migrate_loop ::
  "('x, 'c, 'w) driver \<Rightarrow> string list \<Rightarrow> migration list \<Rightarrow> nat \<Rightarrow> ('c, 'w) db \<Rightarrow> (orm_error + nat) \<times> ('c, 'w) db" where
  "migrate_loop drv applied [] count st = (Inr count, st)"
| "migrate_loop drv applied (m # ms) count st =
     (if mig_version m \<in> set applied then migrate_loop drv applied ms count st
      else case transaction drv (apply_migration drv m) st of
             (Inl e, st) \<Rightarrow> (Inl e, st)
           | (Inr _, st) \<Rightarrow> migrate_loop drv applied ms (count + 1) st)"

definition CREATE_MIGRATIONS :: string where
  "CREATE_MIGRATIONS = ''create table if not exists _stakit_migrations (version varchar(255) primary key)''"

definition SELECT_MIGRATIONS :: string where
  "SELECT_MIGRATIONS = ''select version from _stakit_migrations''"

definition migrate ::
  "('x, 'c, 'w) driver \<Rightarrow> migration list \<Rightarrow> ('c, 'w) db \<Rightarrow> (orm_error + nat) \<times> ('c, 'w) db" where
  "migrate drv migrations st =
     (case exec_execute drv Pool CREATE_MIGRATIONS [] st of
        (Inl e, st) \<Rightarrow> (Inl e, st)
      | (Inr _, st) \<Rightarrow>
          (case for_each_row drv Pool SELECT_MIGRATIONS [] read_version [] st of
             (Inl e, st) \<Rightarrow> (Inl e, st)
           | (Inr applied, st) \<Rightarrow> migrate_loop drv applied migrations 0 st))"

subsection \<open>Lookups and relations\<close>

definition pk_filter :: "table_meta \<Rightarrow> 'x sql_value \<Rightarrow> 'x predicate" where
  "pk_filter t pk =
     (case find tc_is_pk (tm_columns t) of
        None \<Rightarrow> raw_pred ''1 = 0''
      | Some c \<Rightarrow> eq_value (tm_table t) (tc_name c) pk)"

definition find_table :: "table_meta \<Rightarrow> 'x select" where
  "find_table t = (select_new (PAll t False))\<lparr>sel_from := tm_table t\<rparr>"

definition get_by_pk :: "table_meta \<Rightarrow> 'x sql_value \<Rightarrow> 'x select" where
  "get_by_pk t pk = select_filter (pk_filter t pk) (find_table t)"

text \<open>Rows grouped by key, each group in the order of the rows.\<close>

fun group_by_key :: "('r \<Rightarrow> 'k) \<Rightarrow> 'r list \<Rightarrow> ('k, 'r list) hashmap \<Rightarrow> ('k, 'r list) hashmap" where
  "group_by_key key [] groups = groups"
| "group_by_key key (r # rs) groups =
     group_by_key key rs
       (AList.update (key r) ((case map_of groups (key r) of Some g \<Rightarrow> g | None \<Rightarrow> []) @ [r]) groups)"

fun attach_children :: "('p \<Rightarrow> 'k) \<Rightarrow> 'p list \<Rightarrow> ('k, 'r list) hashmap \<Rightarrow> ('p \<times> 'r list) list" where
  "attach_children key [] groups = []"
| "attach_children key (p # ps) groups =
     (p, case map_of groups (key p) of Some g \<Rightarrow> g | None \<Rightarrow> []) #
     attach_children key ps (AList.delete (key p) groups)"

text \<open>
  The loaders run one query, whose rows \<^term>\<open>fetch\<close> decodes; keys become values by \<^term>\<open>to_value\<close>.
\<close>

definition load_has_many ::
  "('x select \<Rightarrow> 's \<Rightarrow> (orm_error + 'r list) \<times> 's) \<Rightarrow> table_meta \<Rightarrow> value_kind \<Rightarrow> ('k \<Rightarrow> 'x sql_value) \<Rightarrow>
     'p list \<Rightarrow> col \<Rightarrow> ('p \<Rightarrow> 'k) \<Rightarrow> ('r \<Rightarrow> 'k) \<Rightarrow> 's \<Rightarrow> (orm_error + ('p \<times> 'r list) list) \<times> 's" where
  "load_has_many fetch t kind to_value parents child_fk parent_key child_key s =
     (if parents = [] then (Inr [], s)
      else
        case fetch (select_filter (any_of child_fk kind (map (\<lambda>p. to_value (parent_key p)) parents)) (find_table t)) s of
          (Inl e, s) \<Rightarrow> (Inl e, s)
        | (Inr children, s) \<Rightarrow> (Inr (attach_children parent_key parents (group_by_key child_key children [])), s))"

definition load_belongs_to ::
  "('x select \<Rightarrow> 's \<Rightarrow> (orm_error + 'p list) \<times> 's) \<Rightarrow> table_meta \<Rightarrow> value_kind \<Rightarrow> ('k \<Rightarrow> 'x sql_value) \<Rightarrow>
     'r list \<Rightarrow> ('r \<Rightarrow> 'k) \<Rightarrow> col \<Rightarrow> ('p \<Rightarrow> 'k) \<Rightarrow> 's \<Rightarrow> (orm_error + ('r \<times> 'p option) list) \<times> 's" where
  "load_belongs_to fetch t kind to_value children child_key parent_pk parent_key s =
     (if children = [] then (Inr [], s)
      else
        case fetch (select_filter (any_of parent_pk kind (map (\<lambda>c. to_value (child_key c)) children)) (find_table t)) s of
          (Inl e, s) \<Rightarrow> (Inl e, s)
        | (Inr parents, s) \<Rightarrow>
            let by_key = foldl (\<lambda>m p. AList.update (parent_key p) p m) [] parents
            in (Inr (map (\<lambda>c. (c, map_of by_key (child_key c))) children), s))"

end
