(* ===== verification/DatabaseProps.thy ===== *)
theory DatabaseProps
  imports Database
begin

text \<open>
  Transactions, migrations and relation loaders: a finished transaction stays finished, migrations are
  applied once and in order, and loaders attach exactly the related rows.
\<close>

subsection \<open>Transactions\<close>

lemma cell_set_cell [simp]:
  "cell t (set_cell t' c st) = (if t = t' then (if t < length (db_cells st) then c else None) else cell t st)"
  by (simp add: cell_def set_cell_def)

lemma cell_world [simp]: "cell t (st\<lparr>db_world := w\<rparr>) = cell t st"
  by (simp add: cell_def)

lemma world_set_cell [simp]: "db_world (set_cell t c st) = db_world st"
  by (simp add: set_cell_def)

lemma cell_updated: "cell t st = Some c \<Longrightarrow> cell t ((set_cell t (Some c') st)\<lparr>db_world := w\<rparr>) = Some c'"
  by (auto simp: cell_def set_cell_def split: if_splits)

text \<open>C21: Once \<^verbatim>\<open>transaction\<close> has returned, its handle is dead: whatever the closure did with it, and
  whatever clones of the handle are left, running a statement or a query on it fails with
  \<^verbatim>\<open>transaction already finished\<close> and changes nothing.
\<close>

theorem finished_transaction_is_dead:
  assumes "transaction drv work st = (r, st')" "drv_begin drv (db_world st) = (Inr c, w)"
  shows "exec_execute drv (Tx (length (db_cells st))) sql binds st' =
           (Inl (Transaction ''transaction already finished''), st') \<and>
         for_each_row drv (Tx (length (db_cells st))) sql binds on_row s st' =
           (Inl (Transaction ''transaction already finished''), st')"
proof -
  let ?t = "length (db_cells st)"
  have "cell ?t st' = None"
    using assms
    by (auto simp: transaction_def Let_def split: prod.splits sum.splits option.splits)
  then show ?thesis by (simp add: exec_execute_def for_each_row_def finished_def)
qed

subsection \<open>Migrations\<close>

text \<open>
  What the migrations rely on of the backend: \<^term>\<open>versions\<close> are the committed rows of the
  tracking table and \<^term>\<open>pending\<close> those an open transaction has inserted. Creating the table keeps its rows,
  the query reads them, only the recording statement inserts, a commit adds what is pending or fails, and
  everything else leaves the committed rows alone.
\<close>

definition tracks ::
  "('x, 'c, 'w) driver \<Rightarrow> ('w \<Rightarrow> string list) \<Rightarrow> ('c \<Rightarrow> string list) \<Rightarrow> bool" where
  "tracks drv versions pending \<longleftrightarrow>
     (\<forall>w. versions (snd (drv_execute drv CREATE_MIGRATIONS [] w)) = versions w) \<and>
     (\<forall>w. case drv_fetch drv SELECT_MIGRATIONS [] w of
        ((rows, failed), w') \<Rightarrow>
          versions w' = versions w \<and>
          (failed = None \<longrightarrow> map (\<lambda>r. try_value r 0 KText) rows = map (\<lambda>v. Inr (Text v)) (versions w))) \<and>
     (\<forall>w. case drv_begin drv w of
        (r, w') \<Rightarrow> versions w' = versions w \<and> (\<forall>c. r = Inr c \<longrightarrow> pending c = [])) \<and>
     (\<forall>sql binds c w. case tx_execute drv sql binds c w of
        (r, c', w') \<Rightarrow>
          versions w' = versions w \<and>
          (sql \<noteq> record_sql (drv_dialect drv) \<longrightarrow> pending c' = pending c) \<and>
          (\<forall>v n. sql = record_sql (drv_dialect drv) \<and> binds = [Text v] \<and> r = Inr n \<longrightarrow> pending c' = pending c @ [v])) \<and>
     (\<forall>c w. case tx_commit drv c w of
        (r, w') \<Rightarrow> versions w' = (case r of Inr _ \<Rightarrow> versions w @ pending c | Inl _ \<Rightarrow> versions w)) \<and>
     (\<forall>c w. versions (snd (tx_rollback drv c w)) = versions w)"

lemma tracks_create:
  "tracks drv versions pending \<Longrightarrow> versions (snd (drv_execute drv CREATE_MIGRATIONS [] w)) = versions w"
  unfolding tracks_def by blast

lemma tracks_select:
  assumes "tracks drv versions pending" "drv_fetch drv SELECT_MIGRATIONS [] w = ((rows, failed), w')"
  shows "versions w' = versions w"
    "failed = None \<Longrightarrow> map (\<lambda>r. try_value r 0 KText) rows = map (\<lambda>v. Inr (Text v)) (versions w)"
proof -
  have "\<forall>w. case drv_fetch drv SELECT_MIGRATIONS [] w of
        ((rows, failed), w') \<Rightarrow>
          versions w' = versions w \<and>
          (failed = None \<longrightarrow> map (\<lambda>r. try_value r 0 KText) rows = map (\<lambda>v. Inr (Text v)) (versions w))"
    using assms(1) unfolding tracks_def by (elim conjE)
  from spec [OF this, of w] assms(2) show "versions w' = versions w"
    "failed = None \<Longrightarrow> map (\<lambda>r. try_value r 0 KText) rows = map (\<lambda>v. Inr (Text v)) (versions w)"
    by auto
qed

lemma tracks_begin:
  assumes "tracks drv versions pending" "drv_begin drv w = (r, w')"
  shows "versions w' = versions w" "r = Inr c \<Longrightarrow> pending c = []"
proof -
  have "\<forall>w. case drv_begin drv w of (r, w') \<Rightarrow> versions w' = versions w \<and> (\<forall>c. r = Inr c \<longrightarrow> pending c = [])"
    using assms(1) unfolding tracks_def by (elim conjE)
  from spec [OF this, of w] assms(2) show "versions w' = versions w" "r = Inr c \<Longrightarrow> pending c = []" by auto
qed

lemma tracks_execute:
  assumes "tracks drv versions pending" "tx_execute drv sql binds c w = (r, c', w')"
  shows "versions w' = versions w" "sql \<noteq> record_sql (drv_dialect drv) \<Longrightarrow> pending c' = pending c"
    "sql = record_sql (drv_dialect drv) \<Longrightarrow> binds = [Text v] \<Longrightarrow> r = Inr n \<Longrightarrow> pending c' = pending c @ [v]"
proof -
  have "\<forall>sql binds c w. case tx_execute drv sql binds c w of
        (r, c', w') \<Rightarrow>
          versions w' = versions w \<and>
          (sql \<noteq> record_sql (drv_dialect drv) \<longrightarrow> pending c' = pending c) \<and>
          (\<forall>v n. sql = record_sql (drv_dialect drv) \<and> binds = [Text v] \<and> r = Inr n \<longrightarrow> pending c' = pending c @ [v])"
    using assms(1) unfolding tracks_def by (elim conjE)
  from this [THEN spec [of _ sql], THEN spec [of _ binds], THEN spec [of _ c], THEN spec [of _ w]] assms(2)
  show "versions w' = versions w" "sql \<noteq> record_sql (drv_dialect drv) \<Longrightarrow> pending c' = pending c"
    "sql = record_sql (drv_dialect drv) \<Longrightarrow> binds = [Text v] \<Longrightarrow> r = Inr n \<Longrightarrow> pending c' = pending c @ [v]"
    by auto
qed

lemma tracks_end:
  assumes "tracks drv versions pending"
  shows "tx_commit drv c w = (r, w') \<Longrightarrow> versions w' = (case r of Inr _ \<Rightarrow> versions w @ pending c | Inl _ \<Rightarrow> versions w)"
    and "versions (snd (tx_rollback drv c w)) = versions w"
proof -
  have c: "\<forall>c w. case tx_commit drv c w of
        (r, w') \<Rightarrow> versions w' = (case r of Inr _ \<Rightarrow> versions w @ pending c | Inl _ \<Rightarrow> versions w)"
    using assms unfolding tracks_def by (elim conjE)
  have r: "\<forall>c w. versions (snd (tx_rollback drv c w)) = versions w"
    using assms unfolding tracks_def by (elim conjE)
  show "tx_commit drv c w = (r, w') \<Longrightarrow> versions w' = (case r of Inr _ \<Rightarrow> versions w @ pending c | Inl _ \<Rightarrow> versions w)"
    using c [THEN spec [of _ c], THEN spec [of _ w]] by simp
  show "versions (snd (tx_rollback drv c w)) = versions w" using r by blast
qed

lemma run_statements_tracks:
  assumes "tracks drv versions pending" "cell t st = Some c"
    and "record_sql (drv_dialect drv) \<notin> set ss" "run_statements drv (Tx t) ss st = (r, st')"
  shows "versions (db_world st') = versions (db_world st) \<and> (\<exists>c'. cell t st' = Some c' \<and> pending c' = pending c) \<and>
    length (db_cells st') = length (db_cells st)"
  using assms(2-4)
proof (induction ss arbitrary: st c)
  case Nil
  then show ?case by simp
next
  case (Cons s ss)
  obtain r1 c1 w1 where x: "tx_execute drv s [] c (db_world st) = (r1, c1, w1)" by (metis prod_cases3)
  let ?st = "(set_cell t (Some c1) st)\<lparr>db_world := w1\<rparr>"
  have run: "raw_run drv (raw_new (Tx t) s) st = (r1, ?st)"
    using Cons.prems(1) x by (simp add: raw_run_def raw_new_def exec_execute_def)
  have w1: "versions w1 = versions (db_world st)" "pending c1 = pending c"
    using tracks_execute(1,2) [OF assms(1) x] Cons.prems(2) by auto
  have cell: "cell t ?st = Some c1" using Cons.prems(1) by (rule cell_updated)
  have len: "length (db_cells ?st) = length (db_cells st)" by (simp add: set_cell_def)
  show ?case
  proof (cases r1)
    case (Inl e)
    then show ?thesis using Cons.prems run cell w1 len by auto
  next
    case (Inr n)
    then have "run_statements drv (Tx t) ss ?st = (r, st')" using Cons.prems run by simp
    from Cons.IH [OF cell _ this] show ?thesis using Cons.prems(2) w1 len by auto
  qed
qed

text \<open>One migration: recorded if its transaction succeeds, nothing committed otherwise.\<close>

lemma apply_migration_tracks:
  assumes "tracks drv versions pending" "cell t st = Some c" "pending c = []"
    and "record_sql (drv_dialect drv) \<notin> set (mig_statements m)" "apply_migration drv m (Tx t) st = (r, st')"
  shows "versions (db_world st') = versions (db_world st) \<and> length (db_cells st') = length (db_cells st) \<and>
    (\<exists>c'. cell t st' = Some c' \<and> (r = Inr () \<longrightarrow> pending c' = [mig_version m]))"
proof -
  obtain r1 st1 where x: "run_statements drv (Tx t) (mig_statements m) st = (r1, st1)" by fastforce
  then obtain c1 where st1: "versions (db_world st1) = versions (db_world st)" "cell t st1 = Some c1"
      "pending c1 = []" "length (db_cells st1) = length (db_cells st)"
    using run_statements_tracks [OF assms(1,2,4) x] assms(3) by auto
  show ?thesis
  proof (cases r1)
    case (Inl e)
    then show ?thesis using assms(5) x st1 by (auto simp: apply_migration_def)
  next
    case (Inr u)
    let ?sql = "record_sql (drv_dialect drv)"
    obtain r2 c2 w2 where y: "tx_execute drv ?sql [Text (mig_version m)] c1 (db_world st1) = (r2, c2, w2)"
      by (metis prod_cases3)
    let ?st = "(set_cell t (Some c2) st1)\<lparr>db_world := w2\<rparr>"
    have "raw_run drv (raw_bind (Text (mig_version m)) (raw_new (Tx t) ?sql)) st1 = (r2, ?st)"
      using st1(2) y by (simp add: raw_run_def raw_bind_def raw_new_def exec_execute_def)
    then have out: "r = (case r2 of Inl e \<Rightarrow> Inl e | Inr _ \<Rightarrow> Inr ())" "st' = ?st"
      using assms(5) x Inr by (auto simp: apply_migration_def split: sum.splits)
    have "cell t ?st = Some c2" using st1(2) by (rule cell_updated)
    moreover have "versions w2 = versions (db_world st)" using tracks_execute(1) [OF assms(1) y] st1(1) by simp
    moreover have "r = Inr () \<Longrightarrow> pending c2 = [mig_version m]"
      using tracks_execute(3) [OF assms(1) y] st1(3) out(1) by (cases r2) auto
    ultimately show ?thesis using out(2) st1(4) by (simp add: set_cell_def)
  qed
qed

lemma transaction_tracks:
  assumes "tracks drv versions pending" "record_sql (drv_dialect drv) \<notin> set (mig_statements m)"
    and "transaction drv (apply_migration drv m) st = (r, st')"
  shows "versions (db_world st') =
    (case r of Inr _ \<Rightarrow> versions (db_world st) @ [mig_version m] | Inl _ \<Rightarrow> versions (db_world st))"
proof -
  obtain b w where b: "drv_begin drv (db_world st) = (b, w)" by fastforce
  show ?thesis
  proof (cases b)
    case (Inl e)
    then show ?thesis using assms(3) b tracks_begin(1) [OF assms(1) b] by (auto simp: transaction_def)
  next
    case (Inr c)
    let ?t = "length (db_cells st)"
    let ?st = "st\<lparr>db_cells := db_cells st @ [Some c], db_world := w\<rparr>"
    obtain o1 st1 where a: "apply_migration drv m (Tx ?t) ?st = (o1, st1)" by fastforce
    have "cell ?t ?st = Some c" by (simp add: cell_def)
    moreover have "pending c = []" using tracks_begin(2) [OF assms(1) b] Inr by simp
    ultimately obtain c1 where st1: "versions (db_world st1) = versions w" "cell ?t st1 = Some c1"
        "o1 = Inr () \<Longrightarrow> pending c1 = [mig_version m]"
      using apply_migration_tracks [OF assms(1) _ _ assms(2) a] by auto
    have w: "versions w = versions (db_world st)" using tracks_begin(1) [OF assms(1) b] .
    obtain cr cw where com: "tx_commit drv c1 (db_world st1) = (cr, cw)" by fastforce
    have rb: "versions (snd (tx_rollback drv c1 (db_world st1))) = versions w"
      using tracks_end(2) [OF assms(1)] st1(1) by simp
    show ?thesis
      using assms(3) b Inr a st1 w com rb tracks_end(1) [OF assms(1) com]
      by (cases o1; cases cr) (auto simp: transaction_def Let_def split: prod.splits)
  qed
qed

definition unapplied :: "string list \<Rightarrow> migration list \<Rightarrow> string list" where
  "unapplied applied ms = filter (\<lambda>v. v \<notin> set applied) (map mig_version ms)"

lemma migrate_loop_tracks:
  assumes "tracks drv versions pending" "\<forall>m \<in> set ms. record_sql (drv_dialect drv) \<notin> set (mig_statements m)"
    and "migrate_loop drv applied ms n st = (r, st')"
  shows "\<exists>k \<le> length ms. versions (db_world st') = versions (db_world st) @ unapplied applied (take k ms) \<and>
    (\<forall>n'. r = Inr n' \<longrightarrow> k = length ms \<and> n' = n + length (unapplied applied ms)) \<and>
    (\<forall>e. r = Inl e \<longrightarrow> k < length ms)"
  using assms(2,3)
proof (induction ms arbitrary: n st)
  case Nil
  then show ?case by (auto simp: unapplied_def)
next
  case (Cons m ms)
  show ?case
  proof (cases "mig_version m \<in> set applied")
    case True
    then obtain k where "k \<le> length ms" "versions (db_world st') = versions (db_world st) @ unapplied applied (take k ms)"
        "\<forall>n'. r = Inr n' \<longrightarrow> k = length ms \<and> n' = n + length (unapplied applied ms)" "\<forall>e. r = Inl e \<longrightarrow> k < length ms"
      using Cons.IH [of n st] Cons.prems by auto
    with True show ?thesis by (intro exI [of _ "Suc k"]) (auto simp: unapplied_def)
  next
    case False
    obtain r1 st1 where t: "transaction drv (apply_migration drv m) st = (r1, st1)" by fastforce
    have v: "versions (db_world st1) =
        (case r1 of Inr _ \<Rightarrow> versions (db_world st) @ [mig_version m] | Inl _ \<Rightarrow> versions (db_world st))"
      using transaction_tracks [OF assms(1) _ t] Cons.prems(1) by simp
    show ?thesis
    proof (cases r1)
      case (Inl e)
      then show ?thesis using False Cons.prems t v by (intro exI [of _ 0]) (auto simp: unapplied_def)
    next
      case (Inr u)
      then have "migrate_loop drv applied ms (n + 1) st1 = (r, st')" using False Cons.prems t by simp
      then obtain k where "k \<le> length ms" "versions (db_world st') = versions (db_world st1) @ unapplied applied (take k ms)"
          "\<forall>n'. r = Inr n' \<longrightarrow> k = length ms \<and> n' = n + 1 + length (unapplied applied ms)" "\<forall>e. r = Inl e \<longrightarrow> k < length ms"
        using Cons.IH [of "n + 1" st1] Cons.prems(1) by auto
      with False Inr v show ?thesis by (intro exI [of _ "Suc k"]) (auto simp: unapplied_def)
    qed
  qed
qed

lemma read_versions:
  "map (\<lambda>r. try_value r 0 KText) rows = map (\<lambda>v. Inr (Text v)) vs \<Longrightarrow>
   \<exists>out. sink_rows read_version applied rows = Inr out \<and> set out = set applied \<union> set vs"
proof (induction rows arbitrary: applied vs)
  case Nil
  then show ?case by simp
next
  case (Cons r rows)
  then obtain v vs' where vs: "vs = v # vs'" by (cases vs) auto
  with Cons.prems have "read_version applied r = Inr (List.insert v applied)" by (simp add: read_version_def)
  with Cons.IH [of vs' "List.insert v applied"] Cons.prems vs show ?case by auto
qed

lemma unapplied_cong: "set a = set b \<Longrightarrow> unapplied a ms = unapplied b ms"
  by (simp add: unapplied_def)

lemma migrate_start:
  assumes "tracks drv versions pending" "migrate drv ms st = (r, st')"
  shows "(\<exists>e. r = Inl e \<and> versions (db_world st') = versions (db_world st)) \<or>
    (\<exists>applied st1. set applied = set (versions (db_world st)) \<and> versions (db_world st1) = versions (db_world st) \<and>
       migrate_loop drv applied ms 0 st1 = (r, st'))"
proof -
  obtain r1 w1 where x: "drv_execute drv CREATE_MIGRATIONS [] (db_world st) = (r1, w1)" by fastforce
  with tracks_create [OF assms(1), of "db_world st"] have w1: "versions w1 = versions (db_world st)" by simp
  obtain rows failed w2 where y: "drv_fetch drv SELECT_MIGRATIONS [] w1 = ((rows, failed), w2)"
    by (metis surj_pair)
  note w2 = tracks_select [OF assms(1) y]
  have step: "migrate drv ms st =
      (case r1 of Inl e \<Rightarrow> (Inl e, st\<lparr>db_world := w1\<rparr>)
       | Inr _ \<Rightarrow> (case sunk read_version [] (rows, failed) of
                    Inl e \<Rightarrow> (Inl e, st\<lparr>db_world := w2\<rparr>)
                  | Inr applied \<Rightarrow> migrate_loop drv applied ms 0 (st\<lparr>db_world := w2\<rparr>)))"
    by (simp add: migrate_def exec_execute_def for_each_row_def x y split: sum.split)
  show ?thesis
  proof (cases r1)
    case (Inl e)
    then show ?thesis using assms(2) w1 unfolding step by (intro disjI1) auto
  next
    case (Inr n)
    show ?thesis
    proof (cases "sunk read_version [] (rows, failed)")
      case e: (Inl e)
      then show ?thesis using assms(2) Inr w1 w2(1) unfolding step by (intro disjI1) auto
    next
      case out: (Inr out)
      then have ok: "failed = None" "sink_rows read_version [] rows = Inr out"
        by (auto simp: sunk_def split: sum.splits option.splits)
      then have "set out = set (versions w1)"
        using read_versions [OF w2(2) [OF ok(1)], of "[]"] by auto
      then show ?thesis
        using assms(2) Inr out w1 w2(1) unfolding step
        by (intro disjI2 exI [of _ out] exI [of _ "st\<lparr>db_world := w2\<rparr>"]) simp
    qed
  qed
qed

text \<open>Migrations are applied in order and each at most once. A run appends to the tracking table the
  versions of a prefix of the given migrations, leaving out those applied before; a run that succeeds
  has applied all of them and says how many were new; and a second run after a successful one applies
  nothing.
\<close>

theorem migrate_applies_once:
  assumes "tracks drv versions pending"
    and "\<forall>m \<in> set ms. record_sql (drv_dialect drv) \<notin> set (mig_statements m)"
    and "migrate drv ms st = (r, st')"
  shows "\<exists>k \<le> length ms.
     versions (db_world st') = versions (db_world st) @ unapplied (versions (db_world st)) (take k ms) \<and>
     (\<forall>n. r = Inr n \<longrightarrow>
        k = length ms \<and> n = length (unapplied (versions (db_world st)) ms) \<and>
        (\<forall>n2 st2. migrate drv ms st' = (Inr n2, st2) \<longrightarrow> n2 = 0 \<and> versions (db_world st2) = versions (db_world st')))"
proof -
  have run: "\<exists>k \<le> length ms.
       versions (db_world b) = versions (db_world a) @ unapplied (versions (db_world a)) (take k ms) \<and>
       (\<forall>n. q = Inr n \<longrightarrow> k = length ms \<and> n = length (unapplied (versions (db_world a)) ms))"
    if ab: "migrate drv ms a = (q, b)" for q a b
    using migrate_start [OF assms(1) ab]
  proof (elim disjE exE conjE)
    fix e
    assume "q = Inl e" "versions (db_world b) = versions (db_world a)"
    then show ?thesis by (intro exI [of _ 0]) (simp add: unapplied_def)
  next
    fix applied st1
    assume *: "set applied = set (versions (db_world a))" "versions (db_world st1) = versions (db_world a)"
      "migrate_loop drv applied ms 0 st1 = (q, b)"
    from migrate_loop_tracks [OF assms(1,2) *(3)] show ?thesis
      by (auto simp: *(2) unapplied_cong [OF *(1)])
  qed
  from run [OF assms(3)] obtain k where k: "k \<le> length ms"
    "versions (db_world st') = versions (db_world st) @ unapplied (versions (db_world st)) (take k ms)"
    "\<forall>n. r = Inr n \<longrightarrow> k = length ms \<and> n = length (unapplied (versions (db_world st)) ms)"
    by blast
  have "n2 = 0 \<and> versions (db_world st2) = versions (db_world st')"
    if "r = Inr n" "migrate drv ms st' = (Inr n2, st2)" for n n2 st2
  proof -
    from k that(1) have "set (map mig_version ms) \<subseteq> set (versions (db_world st'))" by (auto simp: unapplied_def)
    then have "unapplied (versions (db_world st')) ms' = []" if "set ms' \<subseteq> set ms" for ms'
      using that by (auto simp: unapplied_def filter_empty_conv)
    then show ?thesis using run [OF that(2)] set_take_subset [of _ ms] by fastforce
  qed
  with k show ?thesis by blast
qed

subsection \<open>A backend in memory\<close>

definition memory_row :: "string \<Rightarrow> unit row" where
  "memory_row v = \<lparr>try_value = (\<lambda>_ _. Inr (Text v)), cell_is_null = (\<lambda>_. Inr False)\<rparr>"

definition memory_driver :: "(unit, string list, string list) driver" where
  "memory_driver =
     \<lparr>drv_dialect = SqliteDialect,
      drv_fetch = (\<lambda>sql binds w. ((if sql = SELECT_MIGRATIONS then map memory_row w else [], None), w)),
      drv_execute = (\<lambda>sql binds w. (Inr 0, w)),
      drv_begin = (\<lambda>w. (Inr [], w)),
      tx_fetch = (\<lambda>sql binds c w. (([], None), c, w)),
      tx_execute = (\<lambda>sql binds c w.
        if sql = record_sql SqliteDialect
        then (case binds of [Text v] \<Rightarrow> (Inr 1, c @ [v], w) | _ \<Rightarrow> (Inl (DbError ''bind''), c, w))
        else if sql = ''bad'' then (Inl (DbError ''syntax''), c, w) else (Inr 0, c, w)),
      tx_commit = (\<lambda>c w. (Inr (), w @ c)),
      tx_rollback = (\<lambda>c w. (Inr (), w))\<rparr>"

lemma memory_tracks: "tracks memory_driver (\<lambda>w. w) (\<lambda>c. c)"
  by (auto simp: tracks_def memory_driver_def memory_row_def comp_def split: list.split sql_value.split)

definition example_migrations :: "migration list" where
  "example_migrations =
     [\<lparr>mig_version = ''1'', mig_statements = [''create table a (id int)'']\<rparr>,
      \<lparr>mig_version = ''2'', mig_statements = [''create table b (id int)'', ''create table c (id int)'']\<rparr>]"

theorem migrate_applies_once_witness:
  "\<exists>k \<le> length example_migrations.
     db_world (snd (migrate memory_driver example_migrations \<lparr>db_cells = [], db_world = [''1'']\<rparr>)) =
       [''1''] @ unapplied [''1''] (take k example_migrations) \<and> k = 2"
proof -
  let ?st = "\<lparr>db_cells = [], db_world = [''1'']\<rparr>"
  have sql: "\<forall>m \<in> set example_migrations. record_sql (drv_dialect memory_driver) \<notin> set (mig_statements m)"
    by code_simp
  have run: "migrate memory_driver example_migrations ?st =
      (Inr 1, \<lparr>db_cells = [None], db_world = [''1'', ''2'']\<rparr>)"
    by code_simp
  show ?thesis
    using migrate_applies_once [OF memory_tracks sql run] unfolding run
    by (auto simp: example_migrations_def)
qed

theorem finished_transaction_is_dead_witness:
  "\<exists>r st'. transaction memory_driver (\<lambda>tx. exec_execute memory_driver tx ''bad'' []) \<lparr>db_cells = [], db_world = []\<rparr> = (r, st') \<and>
     exec_execute memory_driver (Tx 0) ''select 1'' [] st' = (Inl (Transaction ''transaction already finished''), st')"
proof -
  let ?st = "\<lparr>db_cells = [], db_world = []\<rparr>"
  let ?work = "\<lambda>tx. exec_execute memory_driver tx ''bad'' []"
  have b: "drv_begin memory_driver (db_world ?st) = (Inr [], [])" by (simp add: memory_driver_def)
  obtain r st' where run: "transaction memory_driver ?work ?st = (r, st')" by fastforce
  then show ?thesis using finished_transaction_is_dead [OF run b, of "''select 1''" "[]" "\<lambda>_ _. Inr ()" "()"] by auto
qed

subsection \<open>Relations\<close>

lemma group_by_key_eq:
  "(case map_of (group_by_key key rs groups) k of Some g \<Rightarrow> g | None \<Rightarrow> []) =
     (case map_of groups k of Some g \<Rightarrow> g | None \<Rightarrow> []) @ filter (\<lambda>r. key r = k) rs"
  by (induction rs arbitrary: groups) (auto simp: update_conv')

lemma map_upt_Cons:
  "map f [0..<length (x # xs)] = f 0 # map (\<lambda>i. f (Suc i)) [0..<length xs]"
  by (simp add: upt_conv_Cons map_Suc_upt [symmetric] del: upt_Suc)

lemma attach_children_eq:
  "attach_children key ps groups =
     map (\<lambda>i. (ps ! i,
                if key (ps ! i) \<in> key ` set (take i ps) then []
                else case map_of groups (key (ps ! i)) of Some g \<Rightarrow> g | None \<Rightarrow> [])) [0..<length ps]"
proof (induction ps arbitrary: groups)
  case Nil
  then show ?case by simp
next
  case (Cons p ps)
  show ?case
    unfolding attach_children.simps Cons.IH map_upt_Cons
    by (auto simp: delete_conv' map_add_def restrict_map_def split: option.splits)
qed

lemma last_update_wins:
  "map_of (foldl (\<lambda>m p. AList.update (key p) p m) groups ps) k =
     (case find (\<lambda>p. key p = k) (rev ps) of Some p \<Rightarrow> Some p | None \<Rightarrow> map_of groups k)"
  by (induction ps arbitrary: groups rule: rev_induct) (auto simp: update_conv')

text \<open>The loader of a has-many relation runs one query for all parents and gives back the parents in
  their order, each with exactly the fetched children that carry its key, in the order of the rows: the
  single pass over a hash map computes the filter a nested loop would. Of several parents with the same
  key only the first gets children; the others are given none.
\<close>

theorem has_many_is_filter:
  "load_has_many fetch t kind to_value parents child_fk parent_key child_key s =
     (if parents = [] then (Inr [], s)
      else
        case fetch (select_filter (any_of child_fk kind (map (\<lambda>p. to_value (parent_key p)) parents)) (find_table t)) s of
          (Inl e, s') \<Rightarrow> (Inl e, s')
        | (Inr children, s') \<Rightarrow>
            (Inr (map (\<lambda>i. (parents ! i,
                             if parent_key (parents ! i) \<in> parent_key ` set (take i parents) then []
                             else filter (\<lambda>c. child_key c = parent_key (parents ! i)) children))
                      [0..<length parents]), s'))"
  by (simp add: load_has_many_def attach_children_eq group_by_key_eq split: prod.split sum.split)

text \<open>The loader of a belongs-to relation gives every child, in order, the fetched parent that carries the
  child's key, the last such row if there are several, and none where no row does.
\<close>

theorem belongs_to_is_find:
  "load_belongs_to fetch t kind to_value children child_key parent_pk parent_key s =
     (if children = [] then (Inr [], s)
      else
        case fetch (select_filter (any_of parent_pk kind (map (\<lambda>c. to_value (child_key c)) children)) (find_table t)) s of
          (Inl e, s') \<Rightarrow> (Inl e, s')
        | (Inr parents, s') \<Rightarrow>
            (Inr (map (\<lambda>c. (c, find (\<lambda>p. parent_key p = child_key c) (rev parents))) children), s'))"
  by (auto simp: load_belongs_to_def last_update_wins split: prod.split sum.split option.split)

end
