(* ===== verification/AgentTypes.thy ===== *)
theory AgentTypes
  imports Prelude
begin

text \<open>
  Data of the agent SDK (\<^verbatim>\<open>ai-sdk/src/message.rs\<close>, \<^verbatim>\<open>usage.rs\<close>, \<^verbatim>\<open>error.rs\<close>, \<^verbatim>\<open>retry.rs\<close>,
  \<^verbatim>\<open>cache.rs\<close>, \<^verbatim>\<open>provider.rs\<close>, \<^verbatim>\<open>provider/capabilities.rs\<close>, \<^verbatim>\<open>control.rs\<close>, \<^verbatim>\<open>loop_event.rs\<close>): messages,
  token counts and prices, errors and their classification, retry delays, requests and how they are
  fitted to a model, stream events and the events and outcomes of a run.

  Floating-point numbers are a type parameter \<^typ>\<open>'f\<close>; the arithmetic the prices need is a record
  of its operations. Durations are counted in nanoseconds.
\<close>

subsection \<open>Messages\<close>

datatype media = Url string | FileId string | Base64 string "u8 list"

datatype tool_result_part = PartText string | PartImage media

datatype user_content =
    UText string
  | UImage media
  | UDocument media
  | UToolResult string "tool_result_part list" bool

datatype thinking = Visible string "string option" | Redacted string

datatype assistant_content =
    AText string
  | AToolUse string string jvalue
  | AThinking thinking

datatype message = User "user_content list" | Assistant "assistant_content list"

record system_prompt =
  sp_text :: string
  sp_cache :: bool

definition system_prompt_from :: "string \<Rightarrow> system_prompt" where
  "system_prompt_from t = \<lparr>sp_text = t, sp_cache = False\<rparr>"

subsection \<open>Token usage and prices\<close>

record usage =
  input_tokens :: u64
  output_tokens :: u64
  cache_create_tokens :: u64
  cache_create_1h_tokens :: u64
  cache_read_tokens :: u64
  reasoning_tokens :: u64

definition usage_zero :: usage where
  "usage_zero =
     \<lparr>input_tokens = 0, output_tokens = 0, cache_create_tokens = 0, cache_create_1h_tokens = 0,
      cache_read_tokens = 0, reasoning_tokens = 0\<rparr>"

text \<open>\<^verbatim>\<open>u64::saturating_add\<close>.\<close>

definition sat_add :: "u64 \<Rightarrow> u64 \<Rightarrow> u64" where
  "sat_add a b = (if a + b < a then - 1 else a + b)"

definition total_input :: "usage \<Rightarrow> u64" where
  "total_input u = sat_add (sat_add (input_tokens u) (cache_create_tokens u)) (cache_read_tokens u)"

definition usage_merge :: "usage \<Rightarrow> usage \<Rightarrow> usage" where
  "usage_merge u v =
     \<lparr>input_tokens = sat_add (input_tokens u) (input_tokens v),
      output_tokens = sat_add (output_tokens u) (output_tokens v),
      cache_create_tokens = sat_add (cache_create_tokens u) (cache_create_tokens v),
      cache_create_1h_tokens = sat_add (cache_create_1h_tokens u) (cache_create_1h_tokens v),
      cache_read_tokens = sat_add (cache_read_tokens u) (cache_read_tokens v),
      reasoning_tokens = sat_add (reasoning_tokens u) (reasoning_tokens v)\<rparr>"

record 'f float_ops =
  f_zero :: 'f
  f_of_u64 :: "u64 \<Rightarrow> 'f"
  f_million :: 'f
  f_add :: "'f \<Rightarrow> 'f \<Rightarrow> 'f"
  f_mul :: "'f \<Rightarrow> 'f \<Rightarrow> 'f"
  f_div :: "'f \<Rightarrow> 'f \<Rightarrow> 'f"

record 'f model_price =
  mp_input :: 'f
  mp_output :: 'f
  mp_cache_read :: 'f
  mp_cache_write :: 'f
  mp_cache_write_1h :: "'f option"

record 'f price_schedule =
  ps_base :: "'f model_price"
  ps_long_prompt :: "(u64 \<times> 'f model_price) option"

type_synonym 'f pricing = "(string, 'f price_schedule) hashmap"

definition pricing_with :: "'f pricing \<Rightarrow> string \<Rightarrow> 'f model_price \<Rightarrow> 'f pricing" where
  "pricing_with p model price = AList.update model \<lparr>ps_base = price, ps_long_prompt = None\<rparr> p"

definition pricing_with_tiered ::
  "'f pricing \<Rightarrow> string \<Rightarrow> 'f model_price \<Rightarrow> u64 \<Rightarrow> 'f model_price \<Rightarrow> 'f pricing" where
  "pricing_with_tiered p model base threshold long_prompt =
     AList.update model \<lparr>ps_base = base, ps_long_prompt = Some (threshold, long_prompt)\<rparr> p"

definition price :: "'f pricing \<Rightarrow> string \<Rightarrow> 'f model_price option" where
  "price p model = map_option ps_base (map_of p model)"

definition per_million :: "'f float_ops \<Rightarrow> u64 \<Rightarrow> 'f \<Rightarrow> 'f" where
  "per_million fl tokens rate = f_mul fl (f_div fl (f_of_u64 fl tokens) (f_million fl)) rate"

definition tier_price :: "'f price_schedule \<Rightarrow> usage \<Rightarrow> 'f model_price" where
  "tier_price s u =
     (case ps_long_prompt s of
        Some (threshold, p) \<Rightarrow> if total_input u > threshold then p else ps_base s
      | None \<Rightarrow> ps_base s)"

definition cost :: "'f float_ops \<Rightarrow> 'f pricing \<Rightarrow> string \<Rightarrow> usage \<Rightarrow> 'f option" where
  "cost fl pricing model u =
     (case map_of pricing model of
        None \<Rightarrow> None
      | Some s \<Rightarrow>
          let p = tier_price s u
          in if cache_create_tokens u < cache_create_1h_tokens u then None
             else
               case (if cache_create_1h_tokens u = 0 then Some (f_zero fl) else mp_cache_write_1h p) of
                 None \<Rightarrow> None
               | Some hourly \<Rightarrow>
                   Some (f_add fl (f_add fl (f_add fl (f_add fl
                     (per_million fl (input_tokens u) (mp_input p))
                     (per_million fl (output_tokens u) (mp_output p)))
                     (per_million fl (cache_read_tokens u) (mp_cache_read p)))
                     (per_million fl (cache_create_tokens u - cache_create_1h_tokens u) (mp_cache_write p)))
                     (per_million fl (cache_create_1h_tokens u) hourly)))"

subsection \<open>Errors and retries\<close>

datatype provider_error =
    PTransport string
  | PDecode string string
  | PApi u16 string string "nat option"
  | PInvalidArgument string
  | PCancelled

fun provider_error_display :: "provider_error \<Rightarrow> string" where
  "provider_error_display (PTransport m) = ''transport error: '' @ m"
| "provider_error_display (PDecode e body) = ''failed to decode provider response: '' @ e"
| "provider_error_display (PApi status kind m retry_after) =
     ''provider error '' @ show_nat status @ '' ('' @ kind @ ''): '' @ m"
| "provider_error_display (PInvalidArgument m) = ''invalid argument: '' @ m"
| "provider_error_display PCancelled = ''request cancelled''"

datatype agent_error =
    EProvider provider_error
  | ETool string
  | ESchema string
  | EMcp string
  | ESkill string
  | EContext string

fun agent_error_display :: "agent_error \<Rightarrow> string" where
  "agent_error_display (EProvider e) = provider_error_display e"
| "agent_error_display (ETool m) = ''tool error: '' @ m"
| "agent_error_display (ESchema m) = ''invalid tool arguments: '' @ m"
| "agent_error_display (EMcp m) = ''mcp error: '' @ m"
| "agent_error_display (ESkill m) = ''skill error: '' @ m"
| "agent_error_display (EContext m) = ''context error: '' @ m"

record retry_policy =
  max_retries :: nat
  rp_timeout :: nat
  base_backoff :: nat
  max_backoff :: nat

definition default_retry :: retry_policy where
  "default_retry =
     \<lparr>max_retries = 2, rp_timeout = 60000000000, base_backoff = 250000000, max_backoff = 30000000000\<rparr>"

datatype retryable = Transient | RateLimited "nat option" | Fatal

definition is_retryable :: "retryable \<Rightarrow> bool" where
  "is_retryable r \<longleftrightarrow> r \<noteq> Fatal"

text \<open>\<^verbatim>\<open>Duration::MAX\<close>: \<^verbatim>\<open>u64::MAX\<close> seconds and 999999999 nanoseconds.\<close>

definition DURATION_MAX :: nat where
  "DURATION_MAX = (2 ^ 64 - 1) * 1000000000 + 999999999"

definition backoff :: "retry_policy \<Rightarrow> nat \<Rightarrow> nat" where
  "backoff p n = min (min (base_backoff p * 2 ^ min n 16) DURATION_MAX) (max_backoff p)"

definition retry_delay :: "retry_policy \<Rightarrow> nat \<Rightarrow> retryable \<Rightarrow> nat" where
  "retry_delay p n c =
     (case c of
        RateLimited (Some after) \<Rightarrow> max (backoff p n) (min after (max_backoff p))
      | _ \<Rightarrow> backoff p n)"

fun classify :: "provider_error \<Rightarrow> retryable" where
  "classify (PTransport m) = Transient"
| "classify (PApi status kind m retry_after) =
     (if status = 429 then RateLimited retry_after else if status \<ge> 500 then Transient else Fatal)"
| "classify _ = Fatal"

subsection \<open>Prompt caching\<close>

datatype cache_ttl = FiveMin | ThirtyMin | OneHour
datatype cache_target = CacheTools | CacheSystem | LastUserMessage | MessageIndex nat
datatype cache_strategy = CacheOff | CacheAuto | Breakpoints cache_ttl "cache_target list"

record explicit_cache =
  ec_max_points :: nat
  ec_ttls :: "cache_ttl list"

datatype cache_capabilities = CacheUnknown | CacheKnown bool "explicit_cache option"

definition validate_cache :: "cache_capabilities \<Rightarrow> cache_strategy \<Rightarrow> provider_error + unit" where
  "validate_cache caps strategy =
     (case strategy of
        Breakpoints ttl points \<Rightarrow>
          (case caps of
             CacheUnknown \<Rightarrow> Inl (PInvalidArgument ''provider has not declared explicit prompt-cache support'')
           | CacheKnown implicit None \<Rightarrow>
               Inl (PInvalidArgument ''provider adapter does not support explicit prompt-cache breakpoints'')
           | CacheKnown implicit (Some controls) \<Rightarrow>
               if ec_max_points controls = 0 \<or> ttl \<notin> set (ec_ttls controls)
               then Inl (PInvalidArgument
                 ''provider adapter does not support the requested prompt-cache lifetime or breakpoints'')
               else Inr ())
      | _ \<Rightarrow> Inr ())"

subsection \<open>Requests\<close>

record tool_def =
  td_name :: string
  td_description :: string
  td_parameters :: jvalue
  td_strict :: bool
  td_cache :: bool

definition tool_def_new :: "string \<Rightarrow> string \<Rightarrow> jvalue \<Rightarrow> tool_def" where
  "tool_def_new name description parameters =
     \<lparr>td_name = name, td_description = description, td_parameters = parameters, td_strict = False, td_cache = False\<rparr>"

datatype tool_choice = ChooseAuto | ChooseAny | ChooseRequired | ChooseNone | ChooseTool string

datatype thinking_config = ThinkOff | ThinkAdaptive | ThinkBudget "32 word"

datatype stop_reason = EndTurn | MaxTokens | StopSequence string | ToolUse | Refusal | Pause | OtherStop string

record 'f chat_request =
  cr_model :: string
  cr_system :: "system_prompt option"
  cr_messages :: "message list"
  cr_tools :: "tool_def list"
  cr_tool_choice :: tool_choice
  cr_max_tokens :: "32 word"
  cr_temperature :: "'f option"
  cr_stop_sequences :: "string list"
  cr_thinking :: thinking_config
  cr_cache :: cache_strategy
  cr_cache_key :: "string option"
  cr_parallel_tool_calls :: "bool option"
  cr_extra :: "(string \<times> jvalue) list"

definition DEFAULT_THINKING_BUDGET :: "32 word" where
  "DEFAULT_THINKING_BUDGET = 2048"

datatype thinking_support = NoThinking | AdaptiveThinking | BudgetThinking

record provider_capabilities =
  pc_forced_tool_choice :: bool
  pc_thinking :: thinking_support
  pc_sampling_params :: bool
  pc_prompt_cache :: bool
  pc_vision :: bool
  pc_max_output_tokens :: "32 word option"

definition default_capabilities :: provider_capabilities where
  "default_capabilities =
     \<lparr>pc_forced_tool_choice = True, pc_thinking = NoThinking, pc_sampling_params = True, pc_prompt_cache = False,
      pc_vision = False, pc_max_output_tokens = None\<rparr>"

definition is_forced :: "tool_choice \<Rightarrow> bool" where
  "is_forced c \<longleftrightarrow> c \<noteq> ChooseAuto \<and> c \<noteq> ChooseNone"

fun fit_thinking :: "thinking_config \<Rightarrow> thinking_support \<Rightarrow> thinking_config" where
  "fit_thinking requested NoThinking = ThinkOff"
| "fit_thinking (ThinkBudget n) AdaptiveThinking = ThinkAdaptive"
| "fit_thinking ThinkAdaptive BudgetThinking = ThinkBudget DEFAULT_THINKING_BUDGET"
| "fit_thinking requested _ = requested"

definition fit_to :: "'f chat_request \<Rightarrow> provider_capabilities \<Rightarrow> 'f chat_request" where
  "fit_to r c =
     r\<lparr>cr_tool_choice := (if \<not> pc_forced_tool_choice c \<and> is_forced (cr_tool_choice r) then ChooseAuto else cr_tool_choice r),
       cr_temperature := (if \<not> pc_sampling_params c then None else cr_temperature r),
       cr_thinking := fit_thinking (cr_thinking r) (pc_thinking c),
       cr_max_tokens := (case pc_max_output_tokens c of Some limit \<Rightarrow> min (cr_max_tokens r) limit | None \<Rightarrow> cr_max_tokens r)\<rparr>"

subsection \<open>Streams\<close>

definition MAX_STREAM_BLOCK_BYTES :: nat where "MAX_STREAM_BLOCK_BYTES = 1024 * 1024"
definition MAX_STREAM_RESPONSE_BYTES :: nat where "MAX_STREAM_RESPONSE_BYTES = 8 * 1024 * 1024"
definition MAX_STREAM_OPEN_BLOCKS :: nat where "MAX_STREAM_OPEN_BLOCKS = 64"
definition MAX_STREAM_RESPONSE_BLOCKS :: nat where "MAX_STREAM_RESPONSE_BLOCKS = 1024"

datatype stream_event =
    Start usage
  | UsageEvent usage
  | TextDelta string
  | ReasoningDelta string
  | SignatureDelta string
  | AssistantBlock u64 assistant_content
  | ToolCall string string string
  | End stop_reason usage

text \<open>\<^verbatim>\<open>usize::saturating_add\<close>.\<close>

definition usize_add :: "nat \<Rightarrow> nat \<Rightarrow> nat" where
  "usize_add a b = min (a + b) (2 ^ 64 - 1)"

text \<open>The bytes of a complete block; \<^term>\<open>print\<close> is how the library prints JSON.\<close>

fun assistant_content_bytes :: "(jvalue \<Rightarrow> string) \<Rightarrow> assistant_content \<Rightarrow> nat" where
  "assistant_content_bytes print (AText t) = length t"
| "assistant_content_bytes print (AThinking (Visible t s)) =
     usize_add (length t) (case s of None \<Rightarrow> 0 | Some v \<Rightarrow> length v)"
| "assistant_content_bytes print (AThinking (Redacted d)) = length d"
| "assistant_content_bytes print (AToolUse i n inp) = usize_add (usize_add (length i) (length n)) (length (print inp))"

subsection \<open>Control flow, events and outcomes of a run\<close>

datatype flow = Continue | StopFlow string

datatype approval = Allow | Deny string | StopRun "string option"

datatype tool_outcome = ToolOk jvalue | ToolDenied string | ToolError string

record pending_tool_call =
  pt_id :: string
  pt_name :: string
  pt_args :: jvalue

record tool_call_record =
  tr_id :: string
  tr_tool :: string
  tr_args :: jvalue
  tr_approval :: approval
  tr_result :: tool_outcome
  tr_elapsed :: nat

record agent_step =
  st_index :: nat
  st_reasoning :: "string option"
  st_text :: string
  st_tool_calls :: "tool_call_record list"
  st_stop :: stop_reason

datatype stop_cond = StepCountIs nat

datatype finish_reason = FEndTurn | FLimit stop_cond | FStopped "string option" | FCancelled

record 'f run_outcome =
  oc_text :: string
  oc_usage :: usage
  oc_cost :: "'f option"
  oc_steps :: nat
  oc_finish :: finish_reason

datatype 'f agent_event =
    EvStepStart nat
  | EvReasoningDelta string
  | EvMessageDelta string
  | EvToolCall string string jvalue
  | EvToolResult string string tool_outcome
  | EvStepEnd nat string "string option" usage "'f option"
  | EvDone "'f run_outcome"

subsection \<open>Basic facts\<close>

lemma unat_sat_add: "unat (sat_add a b) = min (unat a + unat b) (2 ^ 64 - 1)"
proof (cases "unat a + unat b < 2 ^ 64")
  case True
  then have "unat (a + b) = unat a + unat b" by (simp add: unat_word_ariths)
  then show ?thesis using True by (auto simp: sat_add_def word_less_nat_alt)
next
  case False
  have a: "unat a < 2 ^ 64" and b: "unat b < 2 ^ 64" using unat_less_exp2p64 by auto
  have "(unat a + unat b) mod 2 ^ 64 = unat a + unat b - 2 ^ 64"
    using False a b by (simp add: le_mod_geq)
  then have "unat (a + b) < unat a" using False a b by (simp add: unat_word_ariths)
  moreover have "unat (- 1 :: u64) = 2 ^ 64 - 1" by (simp add: unsigned_minus_1_eq_mask mask_eq_exp_minus_1)
  ultimately show ?thesis using False by (simp add: sat_add_def word_less_nat_alt)
qed

text \<open>A retry never waits longer than the policy's longest backoff, however long the server asks for.\<close>

lemma retry_delay_le: "retry_delay p n c \<le> max_backoff p"
  by (auto simp: retry_delay_def backoff_def split: retryable.split option.split)

lemma fit_thinking_idem: "fit_thinking (fit_thinking t s) s = fit_thinking t s"
  by (cases s; cases t) simp_all

text \<open>Fitting is idempotent, so every layer may do it.\<close>

lemma fit_to_idem: "fit_to (fit_to r c) c = fit_to r c"
  by (auto simp: fit_to_def fit_thinking_idem is_forced_def split: option.split)

end
