(* ===== verification/AgentAccum.thy ===== *)
theory AgentAccum
  imports AgentTypes "HOL-Library.Multiset"
begin

text \<open>
  One step's streamed output (\<^verbatim>\<open>ai-sdk/src/agent.rs\<close>, \<^verbatim>\<open>StepAccum\<close>): folding the provider's events,
  checking the complete blocks against the tool calls, and what a stop reason authorises. JSON parsing
  and printing are the library's, a record \<^verbatim>\<open>json_lib\<close>.
\<close>

record json_lib =
  jl_parse :: "string \<Rightarrow> string + jvalue"
  jl_print :: "jvalue \<Rightarrow> string"

subsection \<open>Tool calls\<close>

record parsed_call =
  pa_id :: string
  pa_name :: string
  pa_args :: jvalue
  pa_error :: "string option"

definition parsed_call_parse :: "json_lib \<Rightarrow> string \<Rightarrow> string \<Rightarrow> string \<Rightarrow> parsed_call" where
  "parsed_call_parse lib i name arguments =
     (case jl_parse lib arguments of
        Inr args \<Rightarrow> \<lparr>pa_id = i, pa_name = name, pa_args = args, pa_error = None\<rparr>
      | Inl e \<Rightarrow> \<lparr>pa_id = i, pa_name = name, pa_args = JObject [], pa_error = Some (''malformed tool arguments: '' @ e)\<rparr>)"

fun is_signed :: "assistant_content \<Rightarrow> bool" where
  "is_signed (AThinking (Visible t (Some s))) = True"
| "is_signed (AThinking (Redacted d)) = True"
| "is_signed _ = False"

definition terminal_failure :: "stop_reason \<Rightarrow> bool \<Rightarrow> string option" where
  "terminal_failure stop has_tools =
     (case stop of
        ToolUse \<Rightarrow> if has_tools then None else Some ''provider requested tools without any tool calls''
      | EndTurn \<Rightarrow> if \<not> has_tools then None else Some ''provider stopped without authorizing its tool calls''
      | StopSequence _ \<Rightarrow> if \<not> has_tools then None else Some ''provider stopped without authorizing its tool calls''
      | Refusal \<Rightarrow> Some ''provider refused the request''
      | MaxTokens \<Rightarrow> Some ''provider reached its output limit''
      | Pause \<Rightarrow> Some ''provider paused the turn''
      | OtherStop _ \<Rightarrow> Some ''provider returned an unsupported stop reason'')"

subsection \<open>The accumulator\<close>

record step_accum =
  sa_text :: string
  sa_reasoning :: string
  sa_saw_signature :: bool
  sa_tool_calls :: "parsed_call list"
  sa_usage :: usage
  sa_stop :: "stop_reason option"
  sa_blocks :: "(u64 \<times> assistant_content) list"
  sa_complete_bytes :: nat
  sa_delta_bytes :: nat
  sa_protocol_error :: "string option"

definition step_accum_default :: step_accum where
  "step_accum_default =
     \<lparr>sa_text = [], sa_reasoning = [], sa_saw_signature = False, sa_tool_calls = [], sa_usage = usage_zero,
      sa_stop = None, sa_blocks = [], sa_complete_bytes = 0, sa_delta_bytes = 0, sa_protocol_error = None\<rparr>"

text \<open>The ordered map of complete blocks is a list sorted by index.\<close>

fun block_insert :: "u64 \<Rightarrow> 'a \<Rightarrow> (u64 \<times> 'a) list \<Rightarrow> (u64 \<times> 'a) list" where
  "block_insert k v [] = [(k, v)]"
| "block_insert k v ((l, w) # m) =
     (if k < l then (k, v) # (l, w) # m else if k = l then (k, v) # m else (l, w) # block_insert k v m)"

fun event_bytes :: "stream_event \<Rightarrow> nat" where
  "event_bytes (TextDelta t) = length t"
| "event_bytes (ReasoningDelta t) = length t"
| "event_bytes (SignatureDelta t) = length t"
| "event_bytes (ToolCall i name arguments) = usize_add (usize_add (length i) (length name)) (length arguments)"
| "event_bytes _ = 0"

definition add_block :: "json_lib \<Rightarrow> u64 \<Rightarrow> assistant_content \<Rightarrow> step_accum \<Rightarrow> step_accum" where
  "add_block lib index content acc =
     (let bytes = assistant_content_bytes (jl_print lib) content;
          acc = acc\<lparr>sa_complete_bytes := usize_add (sa_complete_bytes acc) bytes\<rparr>
      in if bytes > MAX_STREAM_BLOCK_BYTES \<or> sa_complete_bytes acc > MAX_STREAM_RESPONSE_BYTES \<or>
            length (sa_blocks acc) \<ge> MAX_STREAM_RESPONSE_BLOCKS \<or> index \<in> set (keys (sa_blocks acc))
         then acc\<lparr>sa_protocol_error := Some ''provider returned duplicate or oversized assistant blocks''\<rparr>
         else acc\<lparr>sa_blocks := block_insert index content (sa_blocks acc)\<rparr>)"

fun accum_event :: "json_lib \<Rightarrow> stream_event \<Rightarrow> step_accum \<Rightarrow> step_accum \<times> 'f agent_event option" where
  "accum_event lib (Start u) acc = (acc\<lparr>sa_usage := u\<rparr>, None)"
| "accum_event lib (UsageEvent u) acc = (acc\<lparr>sa_usage := u\<rparr>, None)"
| "accum_event lib (TextDelta t) acc = (acc\<lparr>sa_text := sa_text acc @ t\<rparr>, Some (EvMessageDelta t))"
| "accum_event lib (ReasoningDelta t) acc = (acc\<lparr>sa_reasoning := sa_reasoning acc @ t\<rparr>, Some (EvReasoningDelta t))"
| "accum_event lib (SignatureDelta t) acc = (acc\<lparr>sa_saw_signature := True\<rparr>, None)"
| "accum_event lib (AssistantBlock index content) acc = (add_block lib index content acc, None)"
| "accum_event lib (ToolCall i name arguments) acc =
     (if length (sa_tool_calls acc) \<ge> MAX_STREAM_RESPONSE_BLOCKS
      then (acc\<lparr>sa_protocol_error := Some ''provider returned too many tool calls''\<rparr>, None)
      else
        let call = parsed_call_parse lib i name arguments
        in (acc\<lparr>sa_tool_calls := sa_tool_calls acc @ [call]\<rparr>, Some (EvToolCall i name (pa_args call))))"
| "accum_event lib (End stop u) acc = (acc\<lparr>sa_stop := Some stop, sa_usage := u\<rparr>, None)"

definition accum_apply :: "json_lib \<Rightarrow> stream_event \<Rightarrow> step_accum \<Rightarrow> step_accum \<times> 'f agent_event option" where
  "accum_apply lib ev acc =
     (let bytes = event_bytes ev; acc = acc\<lparr>sa_delta_bytes := usize_add (sa_delta_bytes acc) bytes\<rparr>
      in if bytes > MAX_STREAM_BLOCK_BYTES \<or> sa_delta_bytes acc > MAX_STREAM_RESPONSE_BYTES
         then (acc\<lparr>sa_protocol_error := Some ''provider response exceeded its content limit''\<rparr>, None)
         else accum_event lib ev acc)"

fun block_text :: "assistant_content \<Rightarrow> string" where
  "block_text (AText t) = t"
| "block_text _ = []"

fun block_reasoning :: "assistant_content \<Rightarrow> string" where
  "block_reasoning (AThinking (Visible t s)) = t"
| "block_reasoning _ = []"

definition capture_complete_text :: "step_accum \<Rightarrow> step_accum" where
  "capture_complete_text acc =
     (let bs = map snd (sa_blocks acc)
      in acc\<lparr>sa_text := (if sa_text acc = [] then concat (map block_text bs) else sa_text acc),
             sa_reasoning := (if sa_reasoning acc = [] then concat (map block_reasoning bs) else sa_reasoning acc)\<rparr>)"

text \<open>
  Matching the complete tool blocks, in order, with the calls; gives the failure if any, the calls
  left over and the calls in block order.
\<close>

definition matches_block :: "string \<Rightarrow> string \<Rightarrow> jvalue \<Rightarrow> parsed_call \<Rightarrow> bool" where
  "matches_block i name inp c \<longleftrightarrow> pa_id c = i \<and> pa_name c = name \<and> pa_args c = inp \<and> pa_error c = None"

fun take_call :: "(parsed_call \<Rightarrow> bool) \<Rightarrow> parsed_call list \<Rightarrow> (parsed_call \<times> parsed_call list) option" where
  "take_call P [] = None"
| "take_call P (c # cs) =
     (if P c then Some (c, cs) else map_option (\<lambda>(d, ds). (d, c # ds)) (take_call P cs))"

fun match_blocks ::
  "assistant_content list \<Rightarrow> parsed_call list \<Rightarrow> parsed_call list \<Rightarrow> string option \<times> parsed_call list \<times> parsed_call list" where
  "match_blocks [] calls ordered = (None, calls, ordered)"
| "match_blocks (AToolUse i name inp # bs) calls ordered =
     (if \<exists>c \<in> set ordered. pa_id c = i then (Some ''provider returned duplicate tool call ids'', calls, ordered)
      else
        case take_call (matches_block i name inp) calls of
          None \<Rightarrow> (Some ''complete assistant tool block does not match its tool call'', calls, ordered)
        | Some (c, rest) \<Rightarrow> match_blocks bs rest (ordered @ [c]))"
| "match_blocks (b # bs) calls ordered = match_blocks bs calls ordered"

definition validate_blocks :: "step_accum \<Rightarrow> string option \<times> step_accum" where
  "validate_blocks acc =
     (if sa_protocol_error acc \<noteq> None then (sa_protocol_error acc, acc)
      else if sa_saw_signature acc \<and> \<not> list_ex is_signed (map snd (sa_blocks acc))
      then (Some ''signed provider output requires complete assistant blocks'', acc)
      else if sa_blocks acc = [] then (None, acc)
      else if keys (sa_blocks acc) \<noteq> map of_nat [0..<length (sa_blocks acc)]
      then (Some ''provider returned incomplete assistant block indices'', acc)
      else
        case match_blocks (map snd (sa_blocks acc)) (sa_tool_calls acc) [] of
          (Some e, rest, ordered) \<Rightarrow> (Some e, acc\<lparr>sa_tool_calls := rest\<rparr>)
        | (None, rest, ordered) \<Rightarrow>
            if rest \<noteq> [] then (Some ''provider omitted complete assistant tool blocks'', acc\<lparr>sa_tool_calls := rest\<rparr>)
            else (None, acc\<lparr>sa_tool_calls := ordered\<rparr>))"

definition BYTES_PER_TOKEN :: nat where
  "BYTES_PER_TOKEN = 4"

definition estimated_tokens :: "nat \<Rightarrow> u64" where
  "estimated_tokens bytes = of_nat (min ((bytes + (BYTES_PER_TOKEN - 1)) div BYTES_PER_TOKEN) (2 ^ 64 - 1))"

definition partial_usage :: "step_accum \<Rightarrow> usage" where
  "partial_usage acc =
     (sa_usage acc)\<lparr>output_tokens := max (output_tokens (sa_usage acc))
        (estimated_tokens (usize_add (length (sa_text acc)) (length (sa_reasoning acc))))\<rparr>"

text \<open>The checks an offline provider test runs over a whole stream.\<close>

fun apply_checked :: "json_lib \<Rightarrow> stream_event list \<Rightarrow> step_accum \<Rightarrow> string + step_accum" where
  "apply_checked lib [] acc = Inr acc"
| "apply_checked lib (ev # evs) acc =
     (let acc = fst (accum_apply lib ev acc :: step_accum \<times> unit agent_event option)
      in case sa_protocol_error acc of Some e \<Rightarrow> Inl e | None \<Rightarrow> apply_checked lib evs acc)"

definition validate_stream_replay :: "json_lib \<Rightarrow> stream_event list \<Rightarrow> string option" where
  "validate_stream_replay lib evs =
     (case apply_checked lib evs step_accum_default of Inl e \<Rightarrow> Some e | Inr acc \<Rightarrow> fst (validate_blocks acc))"

subsection \<open>Bounds\<close>

definition blocks_bytes :: "json_lib \<Rightarrow> step_accum \<Rightarrow> nat" where
  "blocks_bytes lib acc = sum_list (map (assistant_content_bytes (jl_print lib) \<circ> snd) (sa_blocks acc))"

definition accum_inv :: "json_lib \<Rightarrow> step_accum \<Rightarrow> bool" where
  "accum_inv lib acc \<longleftrightarrow>
     length (sa_text acc) + length (sa_reasoning acc) \<le> min (sa_delta_bytes acc) MAX_STREAM_RESPONSE_BYTES \<and>
     length (sa_tool_calls acc) \<le> MAX_STREAM_RESPONSE_BLOCKS \<and>
     length (sa_blocks acc) \<le> MAX_STREAM_RESPONSE_BLOCKS \<and>
     blocks_bytes lib acc \<le> min (sa_complete_bytes acc) MAX_STREAM_RESPONSE_BYTES \<and>
     sorted_wrt (<) (keys (sa_blocks acc))"

lemma keys_block_insert: "set (keys (block_insert k v m)) = insert k (set (keys m))"
  by (induction k v m rule: block_insert.induct) auto

lemma set_block_insert: "set (block_insert k v m) \<subseteq> insert (k, v) (set m)"
  by (induction k v m rule: block_insert.induct) auto

lemma block_insert_sorted: "sorted_wrt (<) (keys m) \<Longrightarrow> sorted_wrt (<) (keys (block_insert k v m))"
proof (induction k v m rule: block_insert.induct)
  case (2 k v l w m)
  show ?case using 2 set_block_insert [of k v m] by (auto simp: not_less_iff_gr_or_eq)
qed simp

lemma block_insert_length: "k \<notin> set (keys m) \<Longrightarrow> length (block_insert k v m) = Suc (length m)"
  by (induction k v m rule: block_insert.induct) auto

lemma block_insert_sum:
  "k \<notin> set (keys m) \<Longrightarrow>
   sum_list (map (f \<circ> snd) (block_insert k v m)) = (f v :: nat) + sum_list (map (f \<circ> snd) m)"
  by (induction k v m rule: block_insert.induct) auto

lemma usize_add_small: "usize_add a b \<le> MAX_STREAM_RESPONSE_BYTES \<Longrightarrow> usize_add a b = a + b"
  by (simp add: usize_add_def MAX_STREAM_RESPONSE_BYTES_def min_def split: if_splits)

lemma usize_add_min: "min a MAX_STREAM_RESPONSE_BYTES \<le> min (usize_add a b) MAX_STREAM_RESPONSE_BYTES"
  by (auto simp: usize_add_def MAX_STREAM_RESPONSE_BYTES_def min_def)

lemma add_block_inv: "accum_inv lib acc \<Longrightarrow> accum_inv lib (add_block lib index content acc)"
proof -
  assume inv: "accum_inv lib acc"
  let ?b = "assistant_content_bytes (jl_print lib) content"
  let ?t = "usize_add (sa_complete_bytes acc) ?b"
  have mono: "min (sa_complete_bytes acc) MAX_STREAM_RESPONSE_BYTES \<le> min ?t MAX_STREAM_RESPONSE_BYTES"
    by (rule usize_add_min)
  show ?thesis
  proof (cases "?b > MAX_STREAM_BLOCK_BYTES \<or> ?t > MAX_STREAM_RESPONSE_BYTES \<or>
      length (sa_blocks acc) \<ge> MAX_STREAM_RESPONSE_BLOCKS \<or> index \<in> set (keys (sa_blocks acc))")
    case True
    then show ?thesis
      using inv order_trans [OF _ mono] by (simp add: accum_inv_def add_block_def Let_def blocks_bytes_def)
  next
    case False
    then have t: "?t = sa_complete_bytes acc + ?b" by (intro usize_add_small) simp
    then show ?thesis
      using inv False
      by (simp add: accum_inv_def add_block_def Let_def blocks_bytes_def block_insert_sorted block_insert_length
          block_insert_sum)
  qed
qed

lemma accum_apply_inv: "accum_inv lib acc \<Longrightarrow> accum_inv lib (fst (accum_apply lib ev acc))"
proof -
  assume inv: "accum_inv lib acc"
  let ?d = "usize_add (sa_delta_bytes acc) (event_bytes ev)"
  let ?acc = "acc\<lparr>sa_delta_bytes := ?d\<rparr>"
  have "min (sa_delta_bytes acc) MAX_STREAM_RESPONSE_BYTES \<le> min ?d MAX_STREAM_RESPONSE_BYTES"
    by (rule usize_add_min)
  with inv have inv': "accum_inv lib ?acc" by (auto simp: accum_inv_def blocks_bytes_def)
  show ?thesis
  proof (cases "event_bytes ev > MAX_STREAM_BLOCK_BYTES \<or> ?d > MAX_STREAM_RESPONSE_BYTES")
    case True
    then show ?thesis using inv' by (simp add: accum_apply_def Let_def accum_inv_def blocks_bytes_def)
  next
    case False
    then have d: "?d = sa_delta_bytes acc + event_bytes ev" by (intro usize_add_small) simp
    have run: "accum_apply lib ev acc = accum_event lib ev ?acc"
      using False by (simp add: accum_apply_def Let_def)
    show ?thesis
      unfolding run
      by (cases ev)
         (use inv inv' d False add_block_inv [OF inv'] in
          \<open>simp_all add: accum_inv_def blocks_bytes_def Let_def\<close>)
  qed
qed

lemma fold_accum_inv:
  "accum_inv lib acc \<Longrightarrow> accum_inv lib (fold (\<lambda>ev acc. fst (accum_apply lib ev acc)) evs acc)"
  by (induction evs arbitrary: acc) (auto simp: accum_apply_inv)

text \<open>Whatever a provider streams, what the agent keeps of one response stays bounded: at most 8 MiB of
  text and reasoning, at most 8 MiB of complete blocks, and at most 1024 blocks and 1024 tool calls; the
  blocks are kept in the order of their indices, no index twice.
\<close>

theorem accumulator_bounded:
  fixes lib :: json_lib and evs :: "stream_event list"
  defines "acc \<equiv> fold (\<lambda>ev acc. fst (accum_apply lib ev acc)) evs step_accum_default"
  shows "length (sa_text acc) + length (sa_reasoning acc) \<le> 8 * 1024 * 1024 \<and>
    blocks_bytes lib acc \<le> 8 * 1024 * 1024 \<and>
    length (sa_blocks acc) \<le> 1024 \<and> length (sa_tool_calls acc) \<le> 1024 \<and>
    sorted_wrt (<) (keys (sa_blocks acc))"
proof -
  have "accum_inv lib step_accum_default"
    by (simp add: accum_inv_def step_accum_default_def blocks_bytes_def)
  from fold_accum_inv [OF this, of evs] have "accum_inv lib acc" unfolding acc_def .
  then show ?thesis
    by (simp add: accum_inv_def MAX_STREAM_RESPONSE_BYTES_def MAX_STREAM_RESPONSE_BLOCKS_def)
qed

subsection \<open>Validated responses\<close>

fun use_id :: "assistant_content \<Rightarrow> string list" where
  "use_id (AToolUse i name inp) = [i]"
| "use_id _ = []"

definition use_ids :: "assistant_content list \<Rightarrow> string list" where
  "use_ids bs = concat (map use_id bs)"

lemma use_ids_simps [simp]:
  "use_ids [] = []" "use_ids (b # bs) = use_id b @ use_ids bs" "use_ids (as @ bs) = use_ids as @ use_ids bs"
  by (simp_all add: use_ids_def)

lemma take_call_Some:
  "take_call P cs = Some (c, rest) \<Longrightarrow> P c \<and> mset cs = add_mset c (mset rest)"
  by (induction cs arbitrary: c rest) (auto split: if_splits)

text \<open>Calls matched with blocks are the blocks' calls in block order, without parse errors.\<close>

lemma match_blocks_spec:
  assumes "match_blocks bs calls ordered = (None, rest, out)" "distinct (map pa_id ordered)"
    "\<forall>c \<in> set ordered. pa_error c = None"
  shows "map pa_id out = map pa_id ordered @ use_ids bs \<and> distinct (map pa_id out) \<and>
    (\<forall>c \<in> set out. pa_error c = None) \<and> mset calls + mset ordered = mset rest + mset out"
  using assms
proof (induction bs calls ordered rule: match_blocks.induct)
  case (2 i name inp bs calls ordered)
  from 2(2) obtain c cs where fresh: "\<not> (\<exists>c \<in> set ordered. pa_id c = i)"
    and take: "take_call (matches_block i name inp) calls = Some (c, cs)"
    and rest: "match_blocks bs cs (ordered @ [c]) = (None, rest, out)"
    by (auto split: if_splits option.splits)
  from take_call_Some [OF take] have c: "pa_id c = i" "pa_error c = None" "mset calls = add_mset c (mset cs)"
    by (auto simp: matches_block_def)
  have "distinct (map pa_id (ordered @ [c]))" using 2(3) fresh c(1) by auto
  moreover have "\<forall>d \<in> set (ordered @ [c]). pa_error d = None" using 2(4) c(2) by simp
  ultimately have "map pa_id out = map pa_id (ordered @ [c]) @ use_ids bs \<and> distinct (map pa_id out) \<and>
      (\<forall>d \<in> set out. pa_error d = None) \<and> mset cs + mset (ordered @ [c]) = mset rest + mset out"
    by (rule 2(1) [OF fresh take refl rest])
  then show ?case unfolding c(3) by (elim conjE, intro conjI) (simp_all add: c(1))
next
  case 1
  then show ?case by auto
next
  case "3_1"
  show ?case unfolding use_ids_simps use_id.simps append_Nil
    by (rule "3_1.IH" [OF "3_1.prems"(1) [unfolded match_blocks.simps] "3_1.prems"(2,3)])
next
  case "3_2"
  show ?case unfolding use_ids_simps use_id.simps append_Nil
    by (rule "3_2.IH" [OF "3_2.prems"(1) [unfolded match_blocks.simps] "3_2.prems"(2,3)])
qed

lemma validated_calls:
  assumes "validate_blocks acc = (None, acc')" "sa_blocks acc \<noteq> []"
  shows "map pa_id (sa_tool_calls acc') = use_ids (map snd (sa_blocks acc'))"
    "distinct (map pa_id (sa_tool_calls acc'))" "mset (sa_tool_calls acc') = mset (sa_tool_calls acc)"
proof -
  obtain e rest out where m: "match_blocks (map snd (sa_blocks acc)) (sa_tool_calls acc) [] = (e, rest, out)"
    by (metis prod_cases3)
  with assms have e: "e = None" "rest = []" "acc' = acc\<lparr>sa_tool_calls := out\<rparr>"
    by (auto simp: validate_blocks_def split: if_splits option.splits)
  with match_blocks_spec [OF m [unfolded e]] show
    "map pa_id (sa_tool_calls acc') = use_ids (map snd (sa_blocks acc'))"
    "distinct (map pa_id (sa_tool_calls acc'))" "mset (sa_tool_calls acc') = mset (sa_tool_calls acc)"
    by auto
qed

lemma validate_blocks_keeps:
  assumes "validate_blocks acc = (r, acc')"
  shows "sa_blocks acc' = sa_blocks acc" "sa_text acc' = sa_text acc" "sa_usage acc' = sa_usage acc"
    "sa_reasoning acc' = sa_reasoning acc" "sa_stop acc' = sa_stop acc"
  using assms by (auto simp: validate_blocks_def split: if_splits option.splits prod.splits)

lemma validate_blocks_none:
  "validate_blocks acc = (None, acc') \<Longrightarrow> sa_blocks acc = [] \<Longrightarrow> acc' = acc"
  by (auto simp: validate_blocks_def split: if_splits)

end
