(* ===== verification/Agent.thy ===== *)
theory Agent
  imports AgentAccum
begin

text \<open>
  The agent (\<^verbatim>\<open>ai-sdk/src/agent.rs\<close>, \<^verbatim>\<open>agent_cx.rs\<close>, \<^verbatim>\<open>middleware.rs\<close>, \<^verbatim>\<open>skill.rs\<close>): its builder, requests,
  retries, approvals and tool calls.

  What the agent does not decide itself is a parameter: middleware and providers are records of
  functions over a world \<^typ>\<open>'w\<close>, and \<^verbatim>\<open>env\<close> holds the rest (the cancellation token, sleeping, tools and
  skill loader, JSON, floating point). A provider call shows what the caller's \<^verbatim>\<open>select!\<close> sees: whether
  the token fired, the attempt timed out, failed or opened a stream, and the stream as the list of
  items it yields.
\<close>

subsection \<open>Parameters\<close>

record 'f agent_cx =
  cx_messages :: "message list"
  cx_model :: string
  cx_system :: "string option"
  cx_usage :: usage
  cx_cost :: "'f option"
  cx_index :: nat
  cx_last_step :: "agent_step option"

type_synonym ('f, 'w) flow_hook = "'f agent_cx \<Rightarrow> 'w \<Rightarrow> (agent_error + flow) \<times> 'f agent_cx \<times> 'w"

record ('f, 'w) agent_middleware =
  mw_on_start :: "('f, 'w) flow_hook"
  mw_on_step :: "('f, 'w) flow_hook"
  mw_on_step_done :: "('f, 'w) flow_hook"
  mw_on_tool_approve :: "'f agent_cx \<Rightarrow> pending_tool_call \<Rightarrow> 'w \<Rightarrow> (agent_error + approval) \<times> 'w"
  mw_on_finish :: "'f agent_cx \<Rightarrow> 'w \<Rightarrow> 'w"

text \<open>The provided methods of the trait.\<close>

definition default_middleware :: "('f, 'w) agent_middleware" where
  "default_middleware =
     \<lparr>mw_on_start = (\<lambda>cx w. (Inr Continue, cx, w)), mw_on_step = (\<lambda>cx w. (Inr Continue, cx, w)),
      mw_on_step_done = (\<lambda>cx w. (Inr Continue, cx, w)), mw_on_tool_approve = (\<lambda>cx call w. (Inr Allow, w)),
      mw_on_finish = (\<lambda>cx w. w)\<rparr>"

datatype provider_item = Item stream_event | Failed provider_error | CancelledHere

datatype attempt =
    AttemptCancelled
  | AttemptTimeout
  | AttemptError provider_error
  | AttemptEmpty
  | AttemptReady stream_event "provider_item list"

record ('f, 'w) provider =
  pr_model_id :: string
  pr_capabilities_for :: "string \<Rightarrow> provider_capabilities"
  pr_cache_capabilities_for :: "string \<Rightarrow> cache_capabilities"
  pr_attempt :: "'f chat_request \<Rightarrow> 'w \<Rightarrow> attempt \<times> 'w"

datatype batch_call = CallTool string jvalue | LoadSkill string

text \<open>The results of a batch of concurrent calls, by position.\<close>

record batch_results =
  br_tool :: "nat \<Rightarrow> string + jvalue"
  br_skill :: "nat \<Rightarrow> agent_error + (string \<times> string list)"
  br_elapsed :: "nat \<Rightarrow> nat"

record skill =
  sk_id :: string
  sk_name :: string
  sk_description :: string

record ('f, 'w) env =
  env_cancelled :: "'w \<Rightarrow> bool \<times> 'w"
  env_sleep :: "nat \<Rightarrow> 'w \<Rightarrow> bool \<times> 'w"
  env_tools :: "batch_call list \<Rightarrow> 'w \<Rightarrow> batch_results \<times> 'w"
  env_list_skills :: "'w \<Rightarrow> (agent_error + skill list) \<times> 'w"
  env_json :: json_lib
  env_float :: "'f float_ops"
  env_debug :: "string \<Rightarrow> string"
  env_lower :: "string \<Rightarrow> string"

subsection \<open>The agent and its builder\<close>

record replay_binding =
  rb_model :: string
  rb_system :: "system_prompt option"
  rb_tools :: "tool_def list"
  rb_messages :: "message list"

record ('f, 'w) agent =
  ag_providers :: "(string, ('f, 'w) provider) hashmap"
  ag_current_model :: string
  ag_tools :: "(string \<times> tool_def) list"
  ag_skills :: "skill list"
  ag_skill_manifest :: "string option"
  ag_skill_loader :: bool
  ag_middleware :: "('f, 'w) agent_middleware list"
  ag_system :: "string option"
  ag_messages :: "message list"
  ag_replay :: "replay_binding option"
  ag_cache :: cache_strategy
  ag_cache_key :: "string option"
  ag_retry :: retry_policy
  ag_pricing :: "'f pricing"
  ag_usage :: usage
  ag_total_cost :: "'f option"
  ag_max_tokens :: "32 word"

definition agent_new :: "'f float_ops \<Rightarrow> ('f, 'w) agent" where
  "agent_new fl =
     \<lparr>ag_providers = [], ag_current_model = [], ag_tools = [], ag_skills = [], ag_skill_manifest = None,
      ag_skill_loader = False, ag_middleware = [], ag_system = None, ag_messages = [], ag_replay = None,
      ag_cache = CacheAuto, ag_cache_key = None, ag_retry = default_retry, ag_pricing = [], ag_usage = usage_zero,
      ag_total_cost = Some (f_zero fl), ag_max_tokens = 4096\<rparr>"

definition agent_provider :: "('f, 'w) provider \<Rightarrow> ('f, 'w) agent \<Rightarrow> ('f, 'w) agent" where
  "agent_provider p a =
     a\<lparr>ag_current_model := (if ag_current_model a = [] then pr_model_id p else ag_current_model a),
       ag_providers := AList.update (pr_model_id p) p (ag_providers a)\<rparr>"

definition register_provider :: "('f, 'w) provider \<Rightarrow> ('f, 'w) agent \<Rightarrow> ('f, 'w) agent" where
  "register_provider p a = a\<lparr>ag_providers := AList.update (pr_model_id p) p (ag_providers a)\<rparr>"

definition agent_model :: "string \<Rightarrow> ('f, 'w) agent \<Rightarrow> ('f, 'w) agent" where
  "agent_model m a = a\<lparr>ag_current_model := m\<rparr>"

definition agent_system :: "string \<Rightarrow> ('f, 'w) agent \<Rightarrow> ('f, 'w) agent" where
  "agent_system s a = a\<lparr>ag_system := Some s\<rparr>"

definition register_tool :: "string \<Rightarrow> tool_def \<Rightarrow> ('f, 'w) agent \<Rightarrow> ('f, 'w) agent" where
  "register_tool name d a = a\<lparr>ag_tools := ag_tools a @ [(name, d)]\<rparr>"

definition register_middleware :: "('f, 'w) agent_middleware \<Rightarrow> ('f, 'w) agent \<Rightarrow> ('f, 'w) agent" where
  "register_middleware m a = a\<lparr>ag_middleware := ag_middleware a @ [m]\<rparr>"

definition agent_skills :: "('f, 'w) agent \<Rightarrow> ('f, 'w) agent" where
  "agent_skills a = a\<lparr>ag_skill_loader := True\<rparr>"

definition with_context :: "message list \<Rightarrow> ('f, 'w) agent \<Rightarrow> ('f, 'w) agent" where
  "with_context ms a = a\<lparr>ag_messages := ms\<rparr>"

definition with_retries :: "nat \<Rightarrow> ('f, 'w) agent \<Rightarrow> ('f, 'w) agent" where
  "with_retries n a = a\<lparr>ag_retry := (ag_retry a)\<lparr>max_retries := n\<rparr>\<rparr>"

definition with_timeout :: "nat \<Rightarrow> ('f, 'w) agent \<Rightarrow> ('f, 'w) agent" where
  "with_timeout d a = a\<lparr>ag_retry := (ag_retry a)\<lparr>rp_timeout := d\<rparr>\<rparr>"

definition register_tools :: "(string \<times> tool_def) list \<Rightarrow> ('f, 'w) agent \<Rightarrow> ('f, 'w) agent" where
  "register_tools tools a = fold (\<lambda>(name, d). register_tool name d) tools a"

definition agent_cache :: "cache_strategy \<Rightarrow> ('f, 'w) agent \<Rightarrow> ('f, 'w) agent" where
  "agent_cache c a = a\<lparr>ag_cache := c\<rparr>"

definition agent_pricing :: "'f pricing \<Rightarrow> ('f, 'w) agent \<Rightarrow> ('f, 'w) agent" where
  "agent_pricing p a = a\<lparr>ag_pricing := p\<rparr>"

definition agent_max_tokens :: "32 word \<Rightarrow> ('f, 'w) agent \<Rightarrow> ('f, 'w) agent" where
  "agent_max_tokens n a = a\<lparr>ag_max_tokens := n\<rparr>"

definition has_provider :: "string \<Rightarrow> ('f, 'w) agent \<Rightarrow> bool" where
  "has_provider m a \<longleftrightarrow> m \<in> set (keys (ag_providers a))"

definition push_message :: "message \<Rightarrow> ('f, 'w) agent \<Rightarrow> ('f, 'w) agent" where
  "push_message m a = a\<lparr>ag_messages := ag_messages a @ [m]\<rparr>"

subsection \<open>Metering\<close>

definition current_cost :: "('f, 'w) agent \<Rightarrow> 'f option" where
  "current_cost a = (if price (ag_pricing a) (ag_current_model a) \<noteq> None then ag_total_cost a else None)"

definition record_usage :: "'f float_ops \<Rightarrow> usage \<Rightarrow> ('f, 'w) agent \<Rightarrow> 'f option \<times> ('f, 'w) agent" where
  "record_usage fl u a =
     (let c = cost fl (ag_pricing a) (ag_current_model a) u
      in (c, a\<lparr>ag_total_cost := (case (ag_total_cost a, c) of (Some t, Some s) \<Rightarrow> Some (f_add fl t s) | _ \<Rightarrow> None),
               ag_usage := usage_merge (ag_usage a) u\<rparr>))"

subsection \<open>Requests\<close>

definition LOAD_SKILL :: string where "LOAD_SKILL = ''load_skill''"
definition SEARCH_SKILLS :: string where "SEARCH_SKILLS = ''search_skills''"
definition DEFAULT_MAX_STEPS :: nat where "DEFAULT_MAX_STEPS = 16"
definition CANCELLED_TOOL_RESULT :: string where "CANCELLED_TOOL_RESULT = ''tool call cancelled: run stopped''"

definition binding_from_request :: "'f chat_request \<Rightarrow> replay_binding" where
  "binding_from_request r =
     \<lparr>rb_model = cr_model r, rb_system = cr_system r, rb_tools = cr_tools r, rb_messages = cr_messages r\<rparr>"

definition binding_accepts :: "replay_binding \<Rightarrow> 'f chat_request \<Rightarrow> bool" where
  "binding_accepts b r \<longleftrightarrow>
     rb_model b = cr_model r \<and> rb_system b = cr_system r \<and> rb_tools b = cr_tools r \<and>
     take (length (rb_messages b)) (cr_messages r) = rb_messages b"

fun message_signed :: "message \<Rightarrow> bool" where
  "message_signed (Assistant bs) = list_ex is_signed bs"
| "message_signed (User us) = False"

definition has_signed_history :: "message list \<Rightarrow> bool" where
  "has_signed_history ms = list_ex message_signed ms"

definition skill_tool_defs :: "tool_def list" where
  "skill_tool_defs =
     [tool_def_new LOAD_SKILL (''Load a skill'' @ [CHR 0x27] @ ''s full instructions by id (from the available-skills list).'')
        (json_object [(''type'', JString ''object''),
           (''properties'', json_object [(''id'',
              json_object [(''type'', JString ''string''), (''description'', JString ''Skill id'')])]),
           (''required'', JArray [JString ''id''])]),
      tool_def_new SEARCH_SKILLS ''Search available skills by keyword; returns matching ids, names and descriptions.''
        (json_object [(''type'', JString ''object''),
           (''properties'', json_object [(''query'', json_object [(''type'', JString ''string'')])]),
           (''required'', JArray [JString ''query''])])]"

definition run_tools_of :: "bool \<Rightarrow> ('f, 'w) agent \<Rightarrow> tool_def list" where
  "run_tools_of skills_active a = map snd (ag_tools a) @ (if skills_active then skill_tool_defs else [])"

definition line_break :: string where "line_break = [CHR 0x0A]"

definition render_skill_manifest :: "skill list \<Rightarrow> string" where
  "render_skill_manifest skills =
     ''## Available skills'' @ line_break @ ''Use '' @ [CHR 0x60] @ ''load_skill(id)'' @ [CHR 0x60] @
     '' to load a skill'' @ [CHR 0x27] @ ''s full instructions, or '' @ [CHR 0x60] @ ''search_skills(query)'' @ [CHR 0x60] @
     '' to find one.'' @ line_break @
     concat (map (\<lambda>s. ''- '' @ sk_name s @ '' ('' @ sk_id s @ ''): '' @ sk_description s @ line_break) skills)"

definition build_system :: "('f, 'w) agent \<Rightarrow> system_prompt option" where
  "build_system a =
     map_option system_prompt_from
       (case (ag_system a, ag_skill_manifest a) of
          (Some base, None) \<Rightarrow> Some base
        | (Some base, Some manifest) \<Rightarrow> Some (base @ line_break @ line_break @ manifest)
        | (None, Some manifest) \<Rightarrow> Some manifest
        | (None, None) \<Rightarrow> None)"

definition build_request ::
  "tool_def list \<Rightarrow> system_prompt option \<Rightarrow> string option \<Rightarrow> ('f, 'w) agent \<Rightarrow> 'f chat_request" where
  "build_request tools system cache_key a =
     \<lparr>cr_model = ag_current_model a, cr_system = system, cr_messages = ag_messages a, cr_tools = tools,
      cr_tool_choice = ChooseAuto, cr_max_tokens = ag_max_tokens a, cr_temperature = None, cr_stop_sequences = [],
      cr_thinking = ThinkOff, cr_cache = ag_cache a, cr_cache_key = cache_key, cr_parallel_tool_calls = None,
      cr_extra = []\<rparr>"

subsection \<open>Opening the stream\<close>

fun part_bytes :: "tool_result_part \<Rightarrow> nat" where
  "part_bytes (PartText t) = length t"
| "part_bytes (PartImage m) = 0"

fun user_bytes :: "user_content \<Rightarrow> nat" where
  "user_bytes (UText t) = length t"
| "user_bytes (UToolResult i parts e) = sum_list (map part_bytes parts)"
| "user_bytes _ = 0"

fun assistant_bytes :: "(jvalue \<Rightarrow> string) \<Rightarrow> assistant_content \<Rightarrow> nat" where
  "assistant_bytes print (AText t) = length t"
| "assistant_bytes print (AThinking (Visible t s)) = length t"
| "assistant_bytes print (AToolUse i name inp) = length name + length (print inp)"
| "assistant_bytes print (AThinking (Redacted d)) = length d"

fun message_bytes :: "(jvalue \<Rightarrow> string) \<Rightarrow> message \<Rightarrow> nat" where
  "message_bytes print (User us) = sum_list (map user_bytes us)"
| "message_bytes print (Assistant bs) = sum_list (map (assistant_bytes print) bs)"

definition estimated_prompt_tokens :: "(jvalue \<Rightarrow> string) \<Rightarrow> 'f chat_request \<Rightarrow> u64" where
  "estimated_prompt_tokens print r =
     estimated_tokens
       ((case cr_system r of None \<Rightarrow> 0 | Some s \<Rightarrow> length (sp_text s)) +
        sum_list (map (message_bytes print) (cr_messages r)) +
        sum_list (map (\<lambda>t. length (td_name t) + length (td_description t) + length (print (td_parameters t))) (cr_tools r)))"

datatype acquired = AcqReady stream_event "provider_item list" | AcqError provider_error | AcqCancelled u64

text \<open>The attempts left, the number of the next attempt, the last error and its class.\<close>

fun acquire_loop ::
  "('f, 'w) env \<Rightarrow> ('f, 'w) provider \<Rightarrow> 'f chat_request \<Rightarrow> retry_policy \<Rightarrow> nat \<Rightarrow> nat \<Rightarrow> provider_error option \<Rightarrow>
     retryable \<Rightarrow> 'w \<Rightarrow> acquired \<times> 'w" where
  "acquire_loop env p req policy 0 n last_err class w =
     (AcqError (case last_err of Some e \<Rightarrow> e | None \<Rightarrow> PTransport ''provider produced no events''), w)"
| "acquire_loop env p req policy (Suc k) n last_err class w =
     (let (c, w) = env_cancelled env w
      in if c then (AcqCancelled 0, w)
         else
           let (c, w) = (if n > 0 then env_sleep env (retry_delay policy (n - 1) class) w else (False, w))
           in if c then (AcqCancelled 0, w)
              else
                let (r, w) = pr_attempt p req w
                in case r of
                     AttemptCancelled \<Rightarrow> (AcqCancelled (estimated_prompt_tokens (jl_print (env_json env)) req), w)
                   | AttemptTimeout \<Rightarrow>
                       acquire_loop env p req policy k (n + 1) (Some (PTransport ''provider call timed out'')) Transient w
                   | AttemptError e \<Rightarrow>
                       if is_retryable (classify e) then acquire_loop env p req policy k (n + 1) (Some e) (classify e) w
                       else (AcqError e, w)
                   | AttemptEmpty \<Rightarrow> (AcqError (PTransport ''provider stream ended before its terminal event''), w)
                   | AttemptReady first rest \<Rightarrow> (AcqReady first rest, w))"

definition acquire_stream ::
  "('f, 'w) env \<Rightarrow> ('f, 'w) provider \<Rightarrow> 'f chat_request \<Rightarrow> retry_policy \<Rightarrow> 'w \<Rightarrow> acquired \<times> 'w" where
  "acquire_stream env p req policy w =
     acquire_loop env p (fit_to req (pr_capabilities_for p (cr_model req))) policy
       (min (max_retries policy + 1) (2 ^ 32 - 1)) 0 None Transient w"

subsection \<open>Approvals and tool calls\<close>

record tool_plan =
  pl_id :: string
  pl_name :: string
  pl_args :: jvalue
  pl_approval :: approval
  pl_denied :: "string option"
  pl_error :: "string option"

fun resolve_approval ::
  "('f, 'w) agent_middleware list \<Rightarrow> 'f agent_cx \<Rightarrow> pending_tool_call \<Rightarrow> approval \<Rightarrow> 'w \<Rightarrow> (agent_error + approval) \<times> 'w" where
  "resolve_approval [] cx pending decision w = (Inr decision, w)"
| "resolve_approval (m # ms) cx pending decision w =
     (let (r, w) = mw_on_tool_approve m cx pending w
      in case r of
           Inl e \<Rightarrow> (Inl e, w)
         | Inr Allow \<Rightarrow> resolve_approval ms cx pending decision w
         | Inr (Deny message) \<Rightarrow>
             resolve_approval ms cx pending (if decision = Allow then Deny message else decision) w
         | Inr (StopRun message) \<Rightarrow> (Inr (StopRun message), w))"

definition pending_of :: "parsed_call \<Rightarrow> pending_tool_call" where
  "pending_of c = \<lparr>pt_id = pa_id c, pt_name = pa_name c, pt_args = pa_args c\<rparr>"

definition plan_of :: "parsed_call \<Rightarrow> approval \<Rightarrow> string option \<Rightarrow> tool_plan" where
  "plan_of c approval denied =
     \<lparr>pl_id = pa_id c, pl_name = pa_name c, pl_args = pa_args c, pl_approval = approval, pl_denied = denied,
      pl_error = pa_error c\<rparr>"

text \<open>The first pass: the stop request if any, and the plans before it.\<close>

fun approve_calls ::
  "('f, 'w) agent_middleware list \<Rightarrow> 'f agent_cx \<Rightarrow> parsed_call list \<Rightarrow> 'w \<Rightarrow> string option option \<times> tool_plan list \<times> 'w" where
  "approve_calls mws cx [] w = (None, [], w)"
| "approve_calls mws cx (c # cs) w =
     (let (r, w) = resolve_approval mws cx (pending_of c) Allow w
      in case r of
           Inl e \<Rightarrow> (Some (Some (''on_tool_approve error: '' @ agent_error_display e)), [], w)
         | Inr (StopRun message) \<Rightarrow> (Some message, [], w)
         | Inr (Deny message) \<Rightarrow>
             (let (stop, plans, w) = approve_calls mws cx cs w in (stop, plan_of c (Deny message) (Some message) # plans, w))
         | Inr Allow \<Rightarrow>
             (let (stop, plans, w) = approve_calls mws cx cs w in (stop, plan_of c Allow None # plans, w)))"

definition run_search_skills :: "(string \<Rightarrow> string) \<Rightarrow> skill list \<Rightarrow> jvalue \<Rightarrow> jvalue" where
  "run_search_skills lower skills args =
     (let q = lower (case jget args ''query'' of Some v \<Rightarrow> (case as_str v of Some s \<Rightarrow> s | None \<Rightarrow> []) | None \<Rightarrow> []);
          hit = (\<lambda>s. let hay = lower (sk_id s @ '' '' @ sk_name s @ '' '' @ sk_description s)
                     in \<exists>i \<in> set [0..<Suc (length hay)]. take (length q) (drop i hay) = q)
      in json_object [(''matches'', JArray (map (\<lambda>s.
           json_object [(''id'', JString (sk_id s)), (''name'', JString (sk_name s)),
                        (''description'', JString (sk_description s))]) (filter hit skills)))])"

text \<open>What one allowed call needs of the environment, or its outcome where it needs nothing.\<close>

definition dispatch_request :: "('f, 'w) env \<Rightarrow> ('f, 'w) agent \<Rightarrow> string \<Rightarrow> jvalue \<Rightarrow> tool_outcome + batch_call" where
  "dispatch_request env a name args =
     (if name = SEARCH_SKILLS then Inl (ToolOk (run_search_skills (env_lower env) (ag_skills a) args))
      else if name = LOAD_SKILL then
        if \<not> ag_skill_loader a then Inl (ToolError (agent_error_display (ESkill ''no skill loader configured'')))
        else
          let i = (case jget args ''id'' of Some v \<Rightarrow> (case as_str v of Some s \<Rightarrow> s | None \<Rightarrow> []) | None \<Rightarrow> [])
          in if i = [] then Inl (ToolError (agent_error_display (ESkill ''missing required argument: id'')))
             else Inr (LoadSkill i)
      else if find (\<lambda>t. fst t = name) (ag_tools a) = None then Inl (ToolError (''unknown tool: '' @ name))
      else Inr (CallTool name args))"

definition plan_request :: "('f, 'w) env \<Rightarrow> ('f, 'w) agent \<Rightarrow> tool_plan \<Rightarrow> tool_outcome + batch_call" where
  "plan_request env a p =
     (case pl_denied p of
        Some message \<Rightarrow> Inl (ToolDenied message)
      | None \<Rightarrow>
          (case pl_error p of
             Some message \<Rightarrow> Inl (ToolError message)
           | None \<Rightarrow> dispatch_request env a (pl_name p) (pl_args p)))"

fun batch_of :: "(tool_outcome + batch_call) list \<Rightarrow> batch_call list" where
  "batch_of [] = []"
| "batch_of (Inl x # rs) = batch_of rs"
| "batch_of (Inr c # rs) = c # batch_of rs"

fun tool_call_outcome :: "batch_results \<Rightarrow> batch_call \<Rightarrow> nat \<Rightarrow> tool_outcome" where
  "tool_call_outcome res (CallTool name args) n = (case br_tool res n of Inr v \<Rightarrow> ToolOk v | Inl m \<Rightarrow> ToolError m)"
| "tool_call_outcome res (LoadSkill i) n =
     (case br_skill res n of
        Inr (body, references) \<Rightarrow>
          ToolOk (json_object [(''body'', JString body), (''references'', JArray (map JString references))])
      | Inl e \<Rightarrow> ToolError (agent_error_display e))"

fun plan_outcomes :: "batch_results \<Rightarrow> nat \<Rightarrow> (tool_outcome + batch_call) list \<Rightarrow> (tool_outcome \<times> nat) list" where
  "plan_outcomes res n [] = []"
| "plan_outcomes res n (Inl x # rs) = (x, 0) # plan_outcomes res n rs"
| "plan_outcomes res n (Inr c # rs) = (tool_call_outcome res c n, br_elapsed res n) # plan_outcomes res (Suc n) rs"

definition dispatch_plans ::
  "('f, 'w) env \<Rightarrow> ('f, 'w) agent \<Rightarrow> tool_plan list \<Rightarrow> 'w \<Rightarrow> (tool_plan \<times> tool_outcome \<times> nat) list \<times> 'w" where
  "dispatch_plans env a plans w =
     (let rs = map (plan_request env a) plans;
          (res, w) = env_tools env (batch_of rs) w
      in (zip plans (plan_outcomes res 0 rs), w))"

definition value_to_text :: "(jvalue \<Rightarrow> string) \<Rightarrow> jvalue \<Rightarrow> string" where
  "value_to_text print v = (case as_str v of Some s \<Rightarrow> s | None \<Rightarrow> print v)"

fun outcome_payload :: "tool_outcome \<Rightarrow> jvalue \<times> bool" where
  "outcome_payload (ToolOk v) = (v, False)"
| "outcome_payload (ToolDenied message) = (JString message, True)"
| "outcome_payload (ToolError m) = (JString m, True)"

definition tool_result_of :: "(jvalue \<Rightarrow> string) \<Rightarrow> tool_plan \<times> tool_outcome \<times> nat \<Rightarrow> user_content" where
  "tool_result_of print = (\<lambda>(p, out, elapsed).
     UToolResult (pl_id p) [PartText (value_to_text print (fst (outcome_payload out)))] (snd (outcome_payload out)))"

definition record_of :: "tool_plan \<times> tool_outcome \<times> nat \<Rightarrow> tool_call_record" where
  "record_of = (\<lambda>(p, out, elapsed).
     \<lparr>tr_id = pl_id p, tr_tool = pl_name p, tr_args = pl_args p, tr_approval = pl_approval p, tr_result = out,
      tr_elapsed = elapsed\<rparr>)"

text \<open>The calls a stop left without a result.\<close>

definition cancelled_ids :: "string list \<Rightarrow> tool_call_record list \<Rightarrow> string list" where
  "cancelled_ids ids records = filter (\<lambda>i. \<not> (\<exists>r \<in> set records. tr_id r = i)) ids"

definition cancelled_result :: "string \<Rightarrow> user_content" where
  "cancelled_result i = UToolResult i [PartText CANCELLED_TOOL_RESULT] True"

end
