(* ===== verification/AgentLoop.thy ===== *)
theory AgentLoop
  imports Agent
begin

text \<open>
  The loop of the agent (\<^verbatim>\<open>ai-sdk/src/agent.rs\<close>, \<^verbatim>\<open>run_inner\<close>): one step is an iteration of the loop, which
  either goes on or ends the run with a \<^typ>\<open>finish_reason\<close>. The local variables of the generator are the record
  \<^verbatim>\<open>run\<close>; the events it has yielded are a list.
\<close>

record ('f, 'w) run =
  r_agent :: "('f, 'w) agent"
  r_world :: 'w
  r_events :: "'f agent_event list"
  r_started :: nat
  r_total_steps :: nat
  r_final_text :: string
  r_keep_partial :: bool
  r_last_step :: "agent_step option"

definition yield_event :: "'f agent_event \<Rightarrow> ('f, 'w) run \<Rightarrow> ('f, 'w) run" where
  "yield_event ev r = r\<lparr>r_events := r_events r @ [ev]\<rparr>"

definition yield_all :: "'f agent_event list \<Rightarrow> ('f, 'w) run \<Rightarrow> ('f, 'w) run" where
  "yield_all evs r = r\<lparr>r_events := r_events r @ evs\<rparr>"

subsection \<open>Hooks\<close>

definition agent_cx_of :: "nat \<Rightarrow> agent_step option \<Rightarrow> ('f, 'w) agent \<Rightarrow> 'f agent_cx" where
  "agent_cx_of index last_step a =
     \<lparr>cx_messages = ag_messages a, cx_model = ag_current_model a, cx_system = ag_system a, cx_usage = ag_usage a,
      cx_cost = current_cost a, cx_index = index, cx_last_step = last_step\<rparr>"

definition put_cx :: "'f agent_cx \<Rightarrow> ('f, 'w) agent \<Rightarrow> ('f, 'w) agent" where
  "put_cx cx a = a\<lparr>ag_messages := cx_messages cx, ag_current_model := cx_model cx, ag_system := cx_system cx\<rparr>"

definition run_hook ::
  "('f, 'w) flow_hook \<Rightarrow> nat \<Rightarrow> agent_step option \<Rightarrow> ('f, 'w) run \<Rightarrow> (agent_error + flow) \<times> ('f, 'w) run" where
  "run_hook h index last_step r =
     (let (res, cx, w) = h (agent_cx_of index last_step (r_agent r)) (r_world r)
      in (res, r\<lparr>r_agent := put_cx cx (r_agent r), r_world := w\<rparr>))"

fun start_hooks :: "('f, 'w) agent_middleware list \<Rightarrow> ('f, 'w) run \<Rightarrow> finish_reason option \<times> ('f, 'w) run" where
  "start_hooks [] r = (None, r)"
| "start_hooks (m # ms) r =
     (let (res, r) = run_hook (mw_on_start m) 0 None (r\<lparr>r_started := r_started r + 1\<rparr>)
      in case res of
           Inr Continue \<Rightarrow> start_hooks ms r
         | Inr (StopFlow msg) \<Rightarrow> (Some (FStopped (Some msg)), r\<lparr>r_final_text := msg\<rparr>)
         | Inl e \<Rightarrow> (Some (FStopped (Some (''on_start error: '' @ agent_error_display e))), r))"

text \<open>The hooks around a step, in order up to the first that stops; an error stops with a message.\<close>

fun flow_hooks ::
  "string \<Rightarrow> ('f, 'w) flow_hook list \<Rightarrow> nat \<Rightarrow> ('f, 'w) run \<Rightarrow> string option \<times> ('f, 'w) run" where
  "flow_hooks label [] index r = (None, r)"
| "flow_hooks label (h # hs) index r =
     (let (res, r) = run_hook h index (r_last_step r) r
      in case res of
           Inr Continue \<Rightarrow> flow_hooks label hs index r
         | Inr (StopFlow msg) \<Rightarrow> (Some msg, r)
         | Inl e \<Rightarrow> (Some (label @ '' error: '' @ agent_error_display e), r))"

fun finish_hooks :: "('f, 'w) agent_middleware list \<Rightarrow> nat \<Rightarrow> ('f, 'w) agent \<Rightarrow> 'w \<Rightarrow> 'w" where
  "finish_hooks [] index a w = w"
| "finish_hooks (m # ms) index a w = finish_hooks ms index a (mw_on_finish m (agent_cx_of index None a) w)"

subsection \<open>Reading a response\<close>

datatype drain_end = DrainEnded | DrainCancelled | DrainFailed provider_error

fun drain ::
  "json_lib \<Rightarrow> provider_item list \<Rightarrow> step_accum \<Rightarrow> 'f agent_event list \<Rightarrow> drain_end \<times> step_accum \<times> 'f agent_event list" where
  "drain lib [] acc evs = (DrainEnded, acc, evs)"
| "drain lib (CancelledHere # items) acc evs = (DrainCancelled, acc, evs)"
| "drain lib (Failed e # items) acc evs = (DrainFailed e, acc, evs)"
| "drain lib (Item ev # items) acc evs =
     (let (acc, delta) = accum_apply lib ev acc;
          evs = evs @ (case delta of None \<Rightarrow> [] | Some d \<Rightarrow> [d])
      in if sa_stop acc \<noteq> None \<or> sa_protocol_error acc \<noteq> None then (DrainEnded, acc, evs)
         else drain lib items acc evs)"

definition record_partial :: "'f float_ops \<Rightarrow> step_accum \<Rightarrow> ('f, 'w) run \<Rightarrow> ('f, 'w) run" where
  "record_partial fl acc r =
     (let a = snd (record_usage fl (partial_usage acc) (r_agent r))
      in if sa_text acc = [] then r\<lparr>r_agent := a\<rparr>
         else r\<lparr>r_agent := push_message (Assistant [AText (sa_text acc)]) a, r_final_text := sa_text acc\<rparr>)"

text \<open>A response cut short: what it used is metered, its text kept.\<close>

definition cut_short ::
  "'f float_ops \<Rightarrow> step_accum \<Rightarrow> bool \<Rightarrow> finish_reason \<Rightarrow> ('f, 'w) run \<Rightarrow> finish_reason option \<times> ('f, 'w) run" where
  "cut_short fl acc keep f r =
     (let r = record_partial fl acc r in (Some f, r\<lparr>r_keep_partial := (keep \<or> r_keep_partial r)\<rparr>))"

text \<open>What a stop reason that does not authorise the response leaves of it.\<close>

definition settle :: "stop_reason \<Rightarrow> step_accum \<Rightarrow> string option \<times> step_accum" where
  "settle stop acc =
     (let failure = terminal_failure stop (sa_tool_calls acc \<noteq> [])
      in (failure,
          if failure \<noteq> None
          then acc\<lparr>sa_tool_calls := [], sa_reasoning := [], sa_saw_signature := False, sa_blocks := []\<rparr>
          else acc))"

definition step_texts :: "step_accum \<Rightarrow> string \<times> string" where
  "step_texts acc =
     (if sa_blocks acc = [] then (sa_text acc, sa_reasoning acc)
      else (concat (map block_text (map snd (sa_blocks acc))), concat (map block_reasoning (map snd (sa_blocks acc)))))"

definition nonempty :: "string \<Rightarrow> string option" where
  "nonempty s = (if s = [] then None else Some s)"

definition call_block :: "parsed_call \<Rightarrow> assistant_content" where
  "call_block c = AToolUse (pa_id c) (pa_name c) (pa_args c)"

definition turn_blocks :: "step_accum \<Rightarrow> assistant_content list" where
  "turn_blocks acc =
     (if sa_blocks acc \<noteq> [] then map snd (sa_blocks acc)
      else
        let (txt, reasoning) = step_texts acc
        in (case nonempty reasoning of Some t \<Rightarrow> [AThinking (Visible t None)] | None \<Rightarrow> []) @
           (case nonempty txt of Some t \<Rightarrow> [AText t] | None \<Rightarrow> []) @
           map call_block (sa_tool_calls acc))"

text \<open>The assistant turn enters the conversation, and a signed one binds the context it was made in.\<close>

definition push_turn :: "replay_binding \<Rightarrow> step_accum \<Rightarrow> ('f, 'w) agent \<Rightarrow> ('f, 'w) agent" where
  "push_turn context acc a =
     (let blocks = turn_blocks acc;
          a = (if blocks = [] then a else push_message (Assistant blocks) a)
      in if list_ex is_signed blocks
         then a\<lparr>ag_replay := Some (context\<lparr>rb_messages := ag_messages a\<rparr>)\<rparr> else a)"

subsection \<open>The tool calls of a step\<close>

text \<open>Approval and dispatch; gives the stop request and the records, and adds the results as one user turn.\<close>

definition tool_phase ::
  "('f, 'w) env \<Rightarrow> ('f, 'w) agent_middleware list \<Rightarrow> nat \<Rightarrow> parsed_call list \<Rightarrow> ('f, 'w) run \<Rightarrow>
     string option option \<times> tool_call_record list \<times> ('f, 'w) run" where
  "tool_phase env mws index calls r =
     (let a = r_agent r;
          (stop, plans, w) = approve_calls mws (agent_cx_of index (r_last_step r) a) calls (r_world r);
          (executed, w) = dispatch_plans env a plans w;
          records = map record_of executed;
          cancelled = (if stop \<noteq> None then cancelled_ids (map pa_id calls) records else []);
          results = map (tool_result_of (jl_print (env_json env))) executed @ map cancelled_result cancelled;
          r = yield_all (map (\<lambda>(p, out, elapsed). EvToolResult (pl_id p) (pl_name p) out) executed @
                map (\<lambda>i. EvToolResult i [] (ToolError CANCELLED_TOOL_RESULT)) cancelled)
              (r\<lparr>r_world := w, r_agent := (if results = [] then a else push_message (User results) a)\<rparr>)
      in (stop, records, r))"

subsection \<open>One iteration\<close>

definition stop_with :: "string \<Rightarrow> ('f, 'w) run \<Rightarrow> finish_reason option \<times> ('f, 'w) run" where
  "stop_with msg r = (Some (FStopped (Some msg)), r\<lparr>r_final_text := msg\<rparr>)"

text \<open>The end of a step: its record, its last hooks, and whether the run goes on.\<close>

definition close_step ::
  "('f, 'w) agent_middleware list \<Rightarrow> nat \<Rightarrow> string option \<Rightarrow> string option option \<Rightarrow> tool_call_record list \<Rightarrow> stop_reason \<Rightarrow>
     usage \<Rightarrow> 'f option \<Rightarrow> string option \<Rightarrow> string option \<Rightarrow> ('f, 'w) run \<Rightarrow> finish_reason option \<times> ('f, 'w) run" where
  "close_step mws index failure tool_stop records stop u step_cost txt reasoning r =
     (let step_text = (case txt of Some t \<Rightarrow> t | None \<Rightarrow> []);
          step = \<lparr>st_index = index, st_reasoning = reasoning, st_text = step_text, st_tool_calls = records, st_stop = stop\<rparr>;
          r = yield_event (EvStepEnd index step_text reasoning u step_cost)
                (r\<lparr>r_total_steps := r_total_steps r + 1\<rparr>);
          r = r\<lparr>r_last_step := Some step\<rparr>;
          (done_stop, r) = flow_hooks ''on_step_done'' (map mw_on_step_done mws) index r
      in case done_stop of
           Some msg \<Rightarrow> stop_with msg r
         | None \<Rightarrow>
             (case tool_stop of
                Some message \<Rightarrow>
                  (Some (FStopped message), case message of Some m \<Rightarrow> r\<lparr>r_final_text := m\<rparr> | None \<Rightarrow> r)
              | None \<Rightarrow>
                  (case failure of
                     Some message \<Rightarrow> (Some (FStopped (Some message)), r\<lparr>r_keep_partial := True\<rparr>)
                   | None \<Rightarrow>
                       if records = [] then (Some FEndTurn, r)
                       else if r_total_steps r \<ge> DEFAULT_MAX_STEPS
                       then (Some (FLimit (StepCountIs DEFAULT_MAX_STEPS)), r)
                       else (None, r))))"

text \<open>The turn enters the conversation, is metered, and its tool calls are run.\<close>

definition respond ::
  "('f, 'w) env \<Rightarrow> ('f, 'w) agent_middleware list \<Rightarrow> nat \<Rightarrow> replay_binding \<Rightarrow> step_accum \<Rightarrow> ('f, 'w) run \<Rightarrow>
     'f option \<times> string option option \<times> tool_call_record list \<times> ('f, 'w) run" where
  "respond env mws index context acc r =
     (let (step_cost, a) = record_usage (env_float env) (sa_usage acc) (push_turn context acc (r_agent r))
      in (step_cost, tool_phase env mws index (sa_tool_calls acc) (r\<lparr>r_agent := a\<rparr>)))"

definition finish_response ::
  "('f, 'w) env \<Rightarrow> ('f, 'w) agent_middleware list \<Rightarrow> nat \<Rightarrow> replay_binding \<Rightarrow> stop_reason \<Rightarrow> step_accum \<Rightarrow> ('f, 'w) run \<Rightarrow>
     finish_reason option \<times> ('f, 'w) run" where
  "finish_response env mws index context stop acc r =
     (let (failure, acc) = settle stop acc;
          txt = nonempty (fst (step_texts acc));
          reasoning = nonempty (snd (step_texts acc));
          r = r\<lparr>r_final_text := (case txt of Some t \<Rightarrow> t | None \<Rightarrow> r_final_text r)\<rparr>;
          (step_cost, tool_stop, records, r) = respond env mws index context acc r
      in close_step mws index failure tool_stop records stop (sa_usage acc) step_cost txt reasoning r)"

definition read_response ::
  "('f, 'w) env \<Rightarrow> ('f, 'w) agent_middleware list \<Rightarrow> nat \<Rightarrow> replay_binding \<Rightarrow> stream_event \<Rightarrow> provider_item list \<Rightarrow> ('f, 'w) run \<Rightarrow>
     finish_reason option \<times> ('f, 'w) run" where
  "read_response env mws index context first items r =
     (let (ended, acc, evs) = drain (env_json env) (Item first # items) step_accum_default [];
          r = yield_all evs r;
          acc = capture_complete_text acc;
          fl = env_float env
      in case ended of
           DrainCancelled \<Rightarrow> cut_short fl acc False FCancelled r
         | DrainFailed e \<Rightarrow> cut_short fl acc True (FStopped (Some (''provider error: '' @ provider_error_display e))) r
         | DrainEnded \<Rightarrow>
             (case validate_blocks acc of
                (Some message, acc) \<Rightarrow> cut_short fl acc True (FStopped (Some message)) r
              | (None, acc) \<Rightarrow>
                  (case sa_stop acc of
                     None \<Rightarrow> cut_short fl acc True (FStopped (Some ''provider stream ended before its terminal event'')) r
                   | Some stop \<Rightarrow> finish_response env mws index context stop (acc\<lparr>sa_stop := None\<rparr>) r)))"

definition SIGNED_CHANGED :: string where
  "SIGNED_CHANGED =
     ''signed assistant context was changed; original model, system, tools and message prefix are required''"

text \<open>The request of a step: built, checked and sent.\<close>

definition send_request ::
  "('f, 'w) env \<Rightarrow> ('f, 'w) agent_middleware list \<Rightarrow> tool_def list \<Rightarrow> string option \<Rightarrow> nat \<Rightarrow> ('f, 'w) run \<Rightarrow>
     finish_reason option \<times> ('f, 'w) run" where
  "send_request env mws tools cache_key index r =
     (let a = r_agent r;
          request = build_request tools (build_system a) cache_key a
      in case map_of (ag_providers a) (ag_current_model a) of
           None \<Rightarrow>
             (Some (FStopped (Some (agent_error_display
                (EContext (''no provider registered for model '' @ env_debug env (ag_current_model a)))))), r)
         | Some p \<Rightarrow>
             (case validate_cache (pr_cache_capabilities_for p (cr_model request)) (cr_cache request) of
                Inl e \<Rightarrow> (Some (FStopped (Some (''provider error: '' @ provider_error_display e))), r)
              | Inr _ \<Rightarrow>
                  if (case ag_replay a of None \<Rightarrow> False | Some b \<Rightarrow> \<not> binding_accepts b request)
                  then (Some (FStopped (Some SIGNED_CHANGED)), r\<lparr>r_keep_partial := True\<rparr>)
                  else
                    let (got, w) = acquire_stream env p request (ag_retry a) (r_world r);
                        r = r\<lparr>r_world := w\<rparr>
                    in case got of
                         AcqCancelled prompt_tokens \<Rightarrow>
                           (Some FCancelled,
                            r\<lparr>r_agent := snd (record_usage (env_float env) (usage_zero\<lparr>input_tokens := prompt_tokens\<rparr>) a)\<rparr>)
                       | AcqError e \<Rightarrow> (Some (FStopped (Some (''provider error: '' @ provider_error_display e))), r)
                       | AcqReady first items \<Rightarrow>
                           read_response env mws index (binding_from_request request) first items r))"

text \<open>The start of a step, up to its first event: the token and the hooks.\<close>

definition step_start :: "('f, 'w) env \<Rightarrow> ('f, 'w) agent_middleware list \<Rightarrow> ('f, 'w) run \<Rightarrow> finish_reason option \<times> ('f, 'w) run" where
  "step_start env mws r =
     (let (c, w) = env_cancelled env (r_world r);
          r = r\<lparr>r_world := w\<rparr>;
          index = r_total_steps r
      in if c then (Some FCancelled, r)
         else
           let (stop, r) = flow_hooks ''on_step'' (map mw_on_step mws) index r
           in case stop of
                Some msg \<Rightarrow> stop_with msg r
              | None \<Rightarrow> (None, yield_event (EvStepStart index) r))"

definition iteration ::
  "('f, 'w) env \<Rightarrow> ('f, 'w) agent_middleware list \<Rightarrow> tool_def list \<Rightarrow> string option \<Rightarrow> ('f, 'w) run \<Rightarrow> finish_reason option \<times> ('f, 'w) run" where
  "iteration env mws tools cache_key r =
     (case step_start env mws r of
        (Some f, r') \<Rightarrow> (Some f, r')
      | (None, r') \<Rightarrow> send_request env mws tools cache_key (r_total_steps r) r')"

subsection \<open>The loop ends\<close>

lemma run_hook_steps [simp]:
  "run_hook h i l r = (res, r') \<Longrightarrow> r_total_steps r' = r_total_steps r"
  by (auto simp: run_hook_def split: prod.splits)

lemma flow_hooks_steps: "flow_hooks label hs i r = (res, r') \<Longrightarrow> r_total_steps r' = r_total_steps r"
proof (induction hs arbitrary: r)
  case (Cons h hs)
  obtain x r1 where h: "run_hook h i (r_last_step r) r = (x, r1)" by fastforce
  then show ?case using Cons by (auto split: sum.splits flow.splits)
qed simp

lemma close_step_steps:
  assumes "close_step mws i failure tool_stop records stop u c t s r = (res, r')"
  shows "r_total_steps r' = r_total_steps r + 1" "res = None \<Longrightarrow> r_total_steps r' < DEFAULT_MAX_STEPS"
proof -
  let ?step = "\<lparr>st_index = i, st_reasoning = s, st_text = (case t of Some t \<Rightarrow> t | None \<Rightarrow> []), st_tool_calls = records,
    st_stop = stop\<rparr>"
  let ?r = "(yield_event (EvStepEnd i (case t of Some t \<Rightarrow> t | None \<Rightarrow> []) s u c)
      (r\<lparr>r_total_steps := r_total_steps r + 1\<rparr>))\<lparr>r_last_step := Some ?step\<rparr>"
  obtain d r1 where h: "flow_hooks ''on_step_done'' (map mw_on_step_done mws) i ?r = (d, r1)" by fastforce
  then have "r_total_steps r1 = r_total_steps r + 1" using flow_hooks_steps [OF h] by (simp add: yield_event_def)
  then show "r_total_steps r' = r_total_steps r + 1" "res = None \<Longrightarrow> r_total_steps r' < DEFAULT_MAX_STEPS"
    using assms h
    by (auto simp: close_step_def Let_def stop_with_def split: option.splits if_splits)
qed

lemma tool_phase_steps: "r_total_steps (snd (snd (tool_phase env mws i calls r))) = r_total_steps r"
  by (simp add: tool_phase_def Let_def yield_all_def split: prod.split)

lemma respond_steps:
  "respond env mws i context acc r = (c, ts, recs, r') \<Longrightarrow> r_total_steps r' = r_total_steps r"
  by (cases "record_usage (env_float env) (sa_usage acc) (push_turn context acc (r_agent r))")
     (use tool_phase_steps [of env mws i "sa_tool_calls acc" "r\<lparr>r_agent := snd (record_usage (env_float env)
       (sa_usage acc) (push_turn context acc (r_agent r)))\<rparr>"] in \<open>auto simp: respond_def\<close>)

lemma finish_response_steps:
  assumes "finish_response env mws i context stop acc r = (res, r')"
  shows "r_total_steps r' = r_total_steps r + 1" "res = None \<Longrightarrow> r_total_steps r' < DEFAULT_MAX_STEPS"
proof -
  obtain failure acc1 where a: "settle stop acc = (failure, acc1)" by fastforce
  let ?t = "nonempty (fst (step_texts acc1))"
  let ?r = "r\<lparr>r_final_text := (case ?t of Some t \<Rightarrow> t | None \<Rightarrow> r_final_text r)\<rparr>"
  obtain c ts recs r1 where t: "respond env mws i context acc1 ?r = (c, ts, recs, r1)"
    by (metis prod_cases4)
  have n: "r_total_steps r1 = r_total_steps r" using respond_steps [OF t] by simp
  have "close_step mws i failure ts recs stop (sa_usage acc1) c ?t (nonempty (snd (step_texts acc1))) r1 = (res, r')"
    using assms a t by (simp add: finish_response_def Let_def)
  from close_step_steps [OF this] n show "r_total_steps r' = r_total_steps r + 1"
    "res = None \<Longrightarrow> r_total_steps r' < DEFAULT_MAX_STEPS" by auto
qed

lemma cut_short_steps:
  "cut_short fl acc keep f r = (res, r') \<Longrightarrow> r_total_steps r' = r_total_steps r \<and> res = Some f"
  by (auto simp: cut_short_def record_partial_def Let_def)

lemma read_response_steps:
  fixes r :: "('f, 'w) run"
  assumes "read_response env mws i context first items r = (res, r')"
  shows "r_total_steps r' \<le> r_total_steps r + 1"
    "res = None \<Longrightarrow> r_total_steps r' = r_total_steps r + 1 \<and> r_total_steps r' < DEFAULT_MAX_STEPS"
proof -
  obtain d acc and evs :: "'f agent_event list"
    where d: "drain (env_json env) (Item first # items) step_accum_default [] = (d, acc, evs)"
    by (metis prod_cases3)
  obtain e acc1 where v: "validate_blocks (capture_complete_text acc) = (e, acc1)" by fastforce
  have cut: "r_total_steps r' \<le> r_total_steps r + 1 \<and> res \<noteq> None"
    if "cut_short fl ac keep f (yield_all evs r) = (res, r')" for fl ac keep f
    using cut_short_steps [OF that] by (simp add: yield_all_def)
  have go: "r_total_steps r' = r_total_steps r + 1 \<and> (res = None \<longrightarrow> r_total_steps r' < DEFAULT_MAX_STEPS)"
    if "finish_response env mws i context stop ac (yield_all evs r) = (res, r')" for stop ac
    using finish_response_steps [OF that] by (simp add: yield_all_def)
  have "(\<exists>fl ac keep f. cut_short fl ac keep f (yield_all evs r) = (res, r')) \<or>
      (\<exists>stop ac. finish_response env mws i context stop ac (yield_all evs r) = (res, r'))"
    using assms d v
    by (cases d; cases e; cases "sa_stop acc1") (auto simp: read_response_def Let_def simp del: drain.simps)
  then show "r_total_steps r' \<le> r_total_steps r + 1"
    "res = None \<Longrightarrow> r_total_steps r' = r_total_steps r + 1 \<and> r_total_steps r' < DEFAULT_MAX_STEPS"
    using cut go by (metis order.refl)+
qed

lemma send_request_steps:
  assumes "send_request env mws tools key i r = (res, r')"
  shows "r_total_steps r' \<le> r_total_steps r + 1"
    "res = None \<Longrightarrow> r_total_steps r' = r_total_steps r + 1 \<and> r_total_steps r' < DEFAULT_MAX_STEPS"
proof -
  have "res \<noteq> None \<and> r_total_steps r' = r_total_steps r \<or>
      (\<exists>w context first items. read_response env mws i context first items (r\<lparr>r_world := w\<rparr>) = (res, r'))"
    using assms
    by (auto simp: send_request_def Let_def split: option.splits sum.splits if_splits prod.splits acquired.splits)
  then show "r_total_steps r' \<le> r_total_steps r + 1"
    "res = None \<Longrightarrow> r_total_steps r' = r_total_steps r + 1 \<and> r_total_steps r' < DEFAULT_MAX_STEPS"
    using read_response_steps by fastforce+
qed

lemma step_start_steps:
  assumes "step_start env mws r = (res, r')"
  shows "r_total_steps r' = r_total_steps r"
proof -
  obtain c w where c: "env_cancelled env (r_world r) = (c, w)" by fastforce
  obtain stop r1 where h: "flow_hooks ''on_step'' (map mw_on_step mws) (r_total_steps r) (r\<lparr>r_world := w\<rparr>) = (stop, r1)"
    by fastforce
  show ?thesis
    using assms c h flow_hooks_steps [OF h]
    by (auto simp: step_start_def Let_def stop_with_def yield_event_def split: if_splits option.splits)
qed

lemma iteration_steps:
  assumes "iteration env mws tools key r = (res, r')"
  shows "r_total_steps r' \<le> r_total_steps r + 1"
    "res = None \<Longrightarrow> r_total_steps r' = r_total_steps r + 1 \<and> r_total_steps r' < DEFAULT_MAX_STEPS"
proof -
  obtain f r1 where s: "step_start env mws r = (f, r1)" by fastforce
  have n: "r_total_steps r1 = r_total_steps r" by (rule step_start_steps [OF s])
  note send = send_request_steps [of env mws tools key "r_total_steps r" r1 res r']
  show "r_total_steps r' \<le> r_total_steps r + 1"
    "res = None \<Longrightarrow> r_total_steps r' = r_total_steps r + 1 \<and> r_total_steps r' < DEFAULT_MAX_STEPS"
    using assms s n send by (auto simp: iteration_def split: option.splits)
qed

lemma iteration_decreases:
  assumes "iteration env mws tools key r = (None, r')"
  shows "DEFAULT_MAX_STEPS - r_total_steps r' < DEFAULT_MAX_STEPS - r_total_steps r"
  using iteration_steps(2) [OF assms refl] by arith

function step_loop ::
  "('f, 'w) env \<Rightarrow> ('f, 'w) agent_middleware list \<Rightarrow> tool_def list \<Rightarrow> string option \<Rightarrow> ('f, 'w) run \<Rightarrow> finish_reason \<times> ('f, 'w) run" where
  "step_loop env mws tools key r =
     (case iteration env mws tools key r of
        (Some f, r') \<Rightarrow> (f, r')
      | (None, r') \<Rightarrow> step_loop env mws tools key r')"
  by pat_completeness auto
termination
proof (relation "measure (\<lambda>(env, mws, tools, key, r). DEFAULT_MAX_STEPS - r_total_steps r)", goal_cases)
  case 1
  show ?case by (rule wf_measure)
next
  case (2 env mws tools key r x r')
  then have "iteration env mws tools key r = (None, r')" by simp
  from iteration_decreases [OF this] show ?case by (simp only: in_measure prod.case)
qed

declare step_loop.simps [simp del]

subsection \<open>A run\<close>

text \<open>The middleware is taken out of the agent for the run and put back before the last event.\<close>

definition run_begin :: "('f, 'w) agent \<Rightarrow> 'w \<Rightarrow> ('f, 'w) run" where
  "run_begin a w =
     \<lparr>r_agent = a\<lparr>ag_middleware := []\<rparr>, r_world = w, r_events = [], r_started = 0, r_total_steps = 0,
      r_final_text = [], r_keep_partial = False, r_last_step = None\<rparr>"

definition load_skills :: "('f, 'w) env \<Rightarrow> ('f, 'w) run \<Rightarrow> agent_error option \<times> ('f, 'w) run" where
  "load_skills env r =
     (if ag_skills (r_agent r) = [] \<and> ag_skill_loader (r_agent r)
      then
        let (res, w) = env_list_skills env (r_world r)
        in case res of
             Inl e \<Rightarrow> (Some e, r\<lparr>r_world := w\<rparr>)
           | Inr skills \<Rightarrow> (None, r\<lparr>r_world := w, r_agent := (r_agent r)\<lparr>ag_skills := skills\<rparr>\<rparr>)
      else (None, r))"

definition render_manifest :: "('f, 'w) agent \<Rightarrow> ('f, 'w) agent" where
  "render_manifest a =
     (if ag_skills a \<noteq> [] \<and> ag_skill_manifest a = None
      then a\<lparr>ag_skill_manifest := Some (render_skill_manifest (ag_skills a))\<rparr> else a)"

definition bind_history :: "tool_def list \<Rightarrow> string option \<Rightarrow> ('f, 'w) agent \<Rightarrow> ('f, 'w) agent" where
  "bind_history tools cache_key a =
     (if ag_replay a = None \<and> has_signed_history (ag_messages a)
      then a\<lparr>ag_replay := Some (binding_from_request (build_request tools (build_system a) cache_key a))\<rparr> else a)"

definition outcome_text :: "finish_reason \<Rightarrow> ('f, 'w) run \<Rightarrow> string" where
  "outcome_text f r =
     (if r_keep_partial r \<and> r_final_text r \<noteq> [] then r_final_text r
      else case f of FStopped (Some m) \<Rightarrow> m | _ \<Rightarrow> r_final_text r)"

definition end_run :: "('f, 'w) agent_middleware list \<Rightarrow> finish_reason \<Rightarrow> string \<Rightarrow> ('f, 'w) run \<Rightarrow> ('f, 'w) run" where
  "end_run mws f txt r =
     (let w = finish_hooks (take (r_started r) mws) (r_total_steps r) (r_agent r) (r_world r);
          outcome = \<lparr>oc_text = txt, oc_usage = ag_usage (r_agent r), oc_cost = current_cost (r_agent r),
            oc_steps = r_total_steps r, oc_finish = f\<rparr>
      in yield_event (EvDone outcome) (r\<lparr>r_world := w, r_agent := (r_agent r)\<lparr>ag_middleware := mws\<rparr>\<rparr>))"

text \<open>The run up to its first step: skills, tools and start hooks.\<close>

definition run_setup ::
  "('f, 'w) agent_middleware list \<Rightarrow> ('f, 'w) run \<Rightarrow> finish_reason option \<times> tool_def list \<times> string option \<times> ('f, 'w) run" where
  "run_setup mws r =
     (let r = r\<lparr>r_agent := render_manifest (r_agent r)\<rparr>;
          tools = run_tools_of (ag_skills (r_agent r) \<noteq> []) (r_agent r);
          cache_key = ag_cache_key (r_agent r);
          (stop, r) = start_hooks mws r
      in case stop of
           Some f \<Rightarrow> (Some f, tools, cache_key, r)
         | None \<Rightarrow> (None, tools, cache_key, r\<lparr>r_agent := bind_history tools cache_key (r_agent r)\<rparr>))"

definition agent_run :: "('f, 'w) env \<Rightarrow> ('f, 'w) agent \<Rightarrow> 'w \<Rightarrow> ('f, 'w) run" where
  "agent_run env a w =
     (let mws = ag_middleware a; (err, r) = load_skills env (run_begin a w)
      in case err of
           Some e \<Rightarrow> end_run mws (FStopped (Some (''skill loader error: '' @ agent_error_display e))) [] r
         | None \<Rightarrow>
             let (stop, tools, cache_key, r) = run_setup mws r;
                 (f, r) = (case stop of Some f \<Rightarrow> (f, r) | None \<Rightarrow> step_loop env mws tools cache_key r)
             in end_run mws f (outcome_text f r) r)"

text \<open>Awaiting a run: the outcome of its last \<^verbatim>\<open>Done\<close> event.\<close>

fun last_done :: "'f agent_event list \<Rightarrow> 'f run_outcome option \<Rightarrow> 'f run_outcome option" where
  "last_done [] prev = prev"
| "last_done (EvDone o1 # evs) prev = last_done evs (Some o1)"
| "last_done (ev # evs) prev = last_done evs prev"

definition await_outcome :: "('f, 'w) run \<Rightarrow> 'f run_outcome" where
  "await_outcome r =
     (case last_done (r_events r) None of
        Some out \<Rightarrow> out
      | None \<Rightarrow> \<lparr>oc_text = [], oc_usage = usage_zero, oc_cost = None, oc_steps = 0, oc_finish = FEndTurn\<rparr>)"

end
