(* ===== verification/AgentProps.thy ===== *)
theory AgentProps
  imports AgentLoop
begin

text \<open>
  What a run of the agent keeps (\<^verbatim>\<open>ai-sdk/src/agent.rs\<close>). The contract of the parts of an iteration is a
  locale: an invariant that the hooks, the metering, a kept text and a whole response keep is kept by
  every iteration, and by the loop. It is interpreted here on this: nothing but the end of the run
  yields \<^verbatim>\<open>Done\<close>, and the middleware stays out of the agent. \<^verbatim>\<open>AgentRunProps\<close> instantiates it once more, for
  the tool uses of the conversation, which have their results.
\<close>

fun is_done :: "'f agent_event \<Rightarrow> bool" where
  "is_done (EvDone out) = True"
| "is_done _ = False"

text \<open>The ids of a turn's calls are those of its blocks.\<close>

definition calls_match :: "step_accum \<Rightarrow> bool" where
  "calls_match acc \<longleftrightarrow> set (use_ids (turn_blocks acc)) = set (map pa_id (sa_tool_calls acc))"

definition hooks_of :: "('f, 'w) agent_middleware list \<Rightarrow> ('f, 'w) flow_hook set" where
  "hooks_of mws = (\<Union>m \<in> set mws. {mw_on_start m, mw_on_step m, mw_on_step_done m})"

text \<open>Whatever the stop reason leaves of a validated response has the calls of its blocks.\<close>

lemma use_ids_calls [simp]: "use_ids (map call_block cs) = map pa_id cs"
  by (induction cs) (auto simp: call_block_def)

lemma calls_match_plain: "sa_blocks acc = [] \<Longrightarrow> calls_match acc"
  by (auto simp: calls_match_def turn_blocks_def split: option.splits prod.splits)

lemma settled_calls_match:
  assumes "validate_blocks acc = (None, acc')"
  shows "calls_match (snd (settle stop (acc'\<lparr>sa_stop := x\<rparr>)))"
proof (cases "sa_blocks acc = []")
  case True
  with validate_blocks_none [OF assms] show ?thesis by (intro calls_match_plain) (simp add: settle_def Let_def)
next
  case False
  then have ne: "sa_blocks acc' \<noteq> []" using validate_blocks_keeps(1) [OF assms] by simp
  show ?thesis
  proof (cases "terminal_failure stop (sa_tool_calls acc' \<noteq> []) = None")
    case True
    with ne validated_calls(1) [OF assms False] show ?thesis
      by (auto simp: settle_def Let_def calls_match_def turn_blocks_def)
  next
    case False
    then show ?thesis by (intro calls_match_plain) (simp add: settle_def Let_def)
  qed
qed

lemma drain_not_done:
  fixes evs :: "'f agent_event list"
  shows "drain lib items acc evs = (d, acc', evs') \<Longrightarrow> \<forall>ev \<in> set evs. \<not> is_done ev \<Longrightarrow> \<forall>ev \<in> set evs'. \<not> is_done ev"
proof (induction lib items acc evs rule: drain.induct)
  case (4 lib ev items acc evs)
  obtain acc1 and delta :: "'f agent_event option" where a: "accum_apply lib ev acc = (acc1, delta)" by fastforce
  have "\<forall>d. delta = Some d \<longrightarrow> \<not> is_done d"
    using a by (cases ev) (auto simp: accum_apply_def Let_def split: if_splits)
  then have "\<forall>e \<in> set (evs @ (case delta of None \<Rightarrow> [] | Some d \<Rightarrow> [d])). \<not> is_done e"
    using 4(3) by (auto split: option.splits)
  then show ?case using 4(1) [OF a [symmetric] refl refl] 4(2) a
    by (cases "sa_stop acc1 \<noteq> None \<or> sa_protocol_error acc1 \<noteq> None") (auto simp: Let_def)
qed auto

locale run_invariant =
  fixes env :: "('f, 'w) env" and mws :: "('f, 'w) agent_middleware list" and P :: "('f, 'w) run \<Rightarrow> bool"
  assumes hook: "h \<in> hooks_of mws \<Longrightarrow> P r \<Longrightarrow> run_hook h i l r = (res, r') \<Longrightarrow> P r'"
    and locals: "P r \<Longrightarrow> P (r\<lparr>r_world := w, r_started := s, r_total_steps := n, r_final_text := t, r_keep_partial := k,
      r_last_step := l\<rparr>)"
    and yields: "P r \<Longrightarrow> \<forall>ev \<in> set evs. \<not> is_done ev \<Longrightarrow> P (yield_all evs r)"
    and meters: "P r \<Longrightarrow> P (r\<lparr>r_agent := snd (record_usage fl u (r_agent r))\<rparr>)"
    and texts: "P r \<Longrightarrow> P (r\<lparr>r_agent := push_message (Assistant [AText x]) (r_agent r)\<rparr>)"
    and responds: "P r \<Longrightarrow> calls_match acc \<Longrightarrow> respond env mws i context acc r = (c, ts, recs, r') \<Longrightarrow> P r'"
    and binds: "P r \<Longrightarrow> P (r\<lparr>r_agent := (r_agent r)\<lparr>ag_replay := b\<rparr>\<rparr>)"
    and skills: "P r \<Longrightarrow> P (r\<lparr>r_agent := (r_agent r)\<lparr>ag_skills := sk, ag_skill_manifest := man\<rparr>\<rparr>)"
begin

lemma world: "P r \<Longrightarrow> P (r\<lparr>r_world := w\<rparr>)"
  using locals [where r = r and w = w and s = "r_started r" and n = "r_total_steps r" and t = "r_final_text r" and k = "r_keep_partial r" and l = "r_last_step r"] by simp

lemma started: "P r \<Longrightarrow> P (r\<lparr>r_started := n\<rparr>)"
  using locals [where r = r and w = "r_world r" and s = n and n = "r_total_steps r" and t = "r_final_text r" and k = "r_keep_partial r" and l = "r_last_step r"] by simp

lemma steps: "P r \<Longrightarrow> P (r\<lparr>r_total_steps := n\<rparr>)"
  using locals [where r = r and w = "r_world r" and s = "r_started r" and n = n and t = "r_final_text r" and k = "r_keep_partial r" and l = "r_last_step r"] by simp

lemma final_text: "P r \<Longrightarrow> P (r\<lparr>r_final_text := t\<rparr>)"
  using locals [where r = r and w = "r_world r" and s = "r_started r" and n = "r_total_steps r" and t = t and k = "r_keep_partial r" and l = "r_last_step r"] by simp

lemma keep: "P r \<Longrightarrow> P (r\<lparr>r_keep_partial := k\<rparr>)"
  using locals [where r = r and w = "r_world r" and s = "r_started r" and n = "r_total_steps r" and t = "r_final_text r" and k = k and l = "r_last_step r"] by simp

lemma last_step: "P r \<Longrightarrow> P (r\<lparr>r_last_step := l\<rparr>)"
  using locals [where r = r and w = "r_world r" and s = "r_started r" and n = "r_total_steps r" and t = "r_final_text r" and k = "r_keep_partial r" and l = l] by simp

lemmas parts = world started steps final_text keep last_step

lemma yield: "P r \<Longrightarrow> \<not> is_done ev \<Longrightarrow> P (yield_event ev r)"
  using yields [of r "[ev]"] by (simp add: yield_all_def yield_event_def)

lemma flow: "set hs \<subseteq> hooks_of mws \<Longrightarrow> P r \<Longrightarrow> flow_hooks label hs i r = (res, r') \<Longrightarrow> P r'"
proof (induction hs arbitrary: r)
  case (Cons h hs)
  obtain x r1 where h: "run_hook h i (r_last_step r) r = (x, r1)" by fastforce
  then have "P r1" using Cons.prems hook [of h r] by simp
  then show ?case using Cons h by (auto split: sum.splits flow.splits)
qed simp

lemma start: "set ms \<subseteq> set mws \<Longrightarrow> P r \<Longrightarrow> start_hooks ms r = (res, r') \<Longrightarrow> P r'"
proof (induction ms arbitrary: r)
  case (Cons m ms)
  obtain x r1 where h: "run_hook (mw_on_start m) 0 None (r\<lparr>r_started := r_started r + 1\<rparr>) = (x, r1)" by fastforce
  have "mw_on_start m \<in> hooks_of mws" using Cons.prems(1) by (auto simp: hooks_of_def)
  then have "P r1" using hook [OF _ started [OF Cons.prems(2)] h] by simp
  then show ?case using Cons h final_text by (auto split: sum.splits flow.splits)
qed simp

lemma on_step_hooks: "set (map mw_on_step mws) \<subseteq> hooks_of mws" "set (map mw_on_step_done mws) \<subseteq> hooks_of mws"
  by (auto simp: hooks_of_def)

lemma cut: "P r \<Longrightarrow> cut_short fl acc k f r = (res, r') \<Longrightarrow> P r'"
proof -
  assume P: "P r" and c: "cut_short fl acc k f r = (res, r')"
  let ?r = "r\<lparr>r_agent := snd (record_usage fl (partial_usage acc) (r_agent r))\<rparr>"
  have "P ?r" by (rule meters [OF P])
  moreover have "P (?r\<lparr>r_agent := push_message (Assistant [AText (sa_text acc)]) (r_agent ?r)\<rparr>)"
    by (rule texts [OF meters [OF P]])
  ultimately have "P (record_partial fl acc r)"
    using final_text by (auto simp: record_partial_def Let_def)
  then show "P r'" using c keep by (auto simp: cut_short_def Let_def)
qed

lemma stops: "P r \<Longrightarrow> P (snd (stop_with msg r))"
  by (simp add: stop_with_def final_text)

lemma closes:
  assumes "P r" "close_step mws i failure tool_stop records stop u c t s r = (res, r')"
  shows "P r'"
proof -
  let ?t = "case t of Some t \<Rightarrow> t | None \<Rightarrow> []"
  let ?step = "\<lparr>st_index = i, st_reasoning = s, st_text = ?t, st_tool_calls = records, st_stop = stop\<rparr>"
  let ?r = "(yield_event (EvStepEnd i ?t s u c) (r\<lparr>r_total_steps := r_total_steps r + 1\<rparr>))\<lparr>r_last_step := Some ?step\<rparr>"
  obtain d r1 where h: "flow_hooks ''on_step_done'' (map mw_on_step_done mws) i ?r = (d, r1)" by fastforce
  have "P ?r" by (intro last_step yield steps assms(1)) simp
  from flow [OF on_step_hooks(2) this h] have r1: "P r1" .
  have "r' = r1 \<or> (\<exists>x. r' = r1\<lparr>r_final_text := x\<rparr>) \<or> r' = r1\<lparr>r_keep_partial := True\<rparr>"
    using assms(2) h by (auto simp: close_step_def Let_def stop_with_def split: option.splits if_splits)
  then show ?thesis using r1 final_text keep by auto
qed

lemma finishes:
  assumes "P r" "finish_response env mws i context stop acc r = (res, r')" "calls_match (snd (settle stop acc))"
  shows "P r'"
proof -
  obtain failure acc1 where a: "settle stop acc = (failure, acc1)" by fastforce
  let ?t = "nonempty (fst (step_texts acc1))"
  let ?r = "r\<lparr>r_final_text := (case ?t of Some t \<Rightarrow> t | None \<Rightarrow> r_final_text r)\<rparr>"
  obtain c ts recs r1 where t: "respond env mws i context acc1 ?r = (c, ts, recs, r1)"
    by (metis prod_cases4)
  have "P r1" using responds [OF final_text [OF assms(1)] _ t] assms(3) a by simp
  moreover have "close_step mws i failure ts recs stop (sa_usage acc1) c ?t (nonempty (snd (step_texts acc1))) r1 = (res, r')"
    using assms a t by (simp add: finish_response_def Let_def)
  ultimately show ?thesis by (rule closes)
qed

lemma reads:
  fixes r :: "('f, 'w) run"
  assumes "P r" "read_response env mws i context first items r = (res, r')"
  shows "P r'"
proof -
  obtain d acc and evs :: "'f agent_event list"
    where d: "drain (env_json env) (Item first # items) step_accum_default [] = (d, acc, evs)"
    by (metis prod_cases3)
  have y: "P (yield_all evs r)" by (intro yields assms(1) drain_not_done [OF d]) simp
  obtain e acc1 where v: "validate_blocks (capture_complete_text acc) = (e, acc1)" by fastforce
  have "(\<exists>fl ac keep f. cut_short fl ac keep f (yield_all evs r) = (res, r')) \<or>
      (\<exists>stop. e = None \<and> finish_response env mws i context stop (acc1\<lparr>sa_stop := None\<rparr>) (yield_all evs r) = (res, r'))"
    using assms d v
    by (cases d; cases e; cases "sa_stop acc1") (auto simp: read_response_def Let_def simp del: drain.simps)
  then show ?thesis
    using cut [OF y] finishes [OF y] settled_calls_match v by blast
qed

lemma sends:
  assumes "P r" "send_request env mws tools key i r = (res, r')"
  shows "P r'"
proof -
  have "r' = r \<or> r' = r\<lparr>r_keep_partial := True\<rparr> \<or> (\<exists>w. r' = r\<lparr>r_world := w\<rparr>) \<or>
      (\<exists>w fl u. r' = (r\<lparr>r_world := w\<rparr>)\<lparr>r_agent := snd (record_usage fl u (r_agent (r\<lparr>r_world := w\<rparr>)))\<rparr>) \<or>
      (\<exists>w context first items. read_response env mws i context first items (r\<lparr>r_world := w\<rparr>) = (res, r'))"
    using assms(2)
    by (auto simp: send_request_def Let_def split: option.splits sum.splits if_splits prod.splits acquired.splits)
  then show ?thesis using assms(1) keep [OF assms(1)] world [OF assms(1)] meters [OF world [OF assms(1)]] reads [OF world [OF assms(1)]]
    by blast
qed

lemma begins:
  assumes "P r" "step_start env mws r = (res, r')"
  shows "P r'"
proof -
  obtain c w where c: "env_cancelled env (r_world r) = (c, w)" by fastforce
  obtain stop r1 where h: "flow_hooks ''on_step'' (map mw_on_step mws) (r_total_steps r) (r\<lparr>r_world := w\<rparr>) = (stop, r1)"
    by fastforce
  have "P r1" by (rule flow [OF on_step_hooks(1) world [OF assms(1)] h])
  then show ?thesis
    using assms c h world yield stops
    by (auto simp: step_start_def Let_def stop_with_def split: if_splits option.splits)
qed

lemma iterates: "P r \<Longrightarrow> iteration env mws tools key r = (res, r') \<Longrightarrow> P r'"
proof -
  assume P: "P r" and i: "iteration env mws tools key r = (res, r')"
  obtain f r1 where b: "step_start env mws r = (f, r1)" by fastforce
  from begins [OF P b] have "P r1" .
  then show "P r'" using i b sends by (cases f) (simp_all add: iteration_def)
qed

lemma loops: "P r \<Longrightarrow> P (snd (step_loop env mws tools key r))"
proof (induction "DEFAULT_MAX_STEPS - r_total_steps r" arbitrary: r rule: less_induct)
  case less
  obtain res r1 where i: "iteration env mws tools key r = (res, r1)" by fastforce
  from iterates [OF less.prems i] have "P r1" .
  show ?case
  proof (cases res)
    case None
    with i have "step_loop env mws tools key r = step_loop env mws tools key r1"
      by (subst step_loop.simps) simp
    with less.hyps [OF iteration_decreases [OF i [unfolded None]] \<open>P r1\<close>] show ?thesis by (simp only:)
  next
    case (Some f)
    with i \<open>P r1\<close> show ?thesis by (subst step_loop.simps) simp
  qed
qed

lemma loads: "P r \<Longrightarrow> load_skills e r = (res, r') \<Longrightarrow> P r'"
proof -
  assume P: "P r" and l: "load_skills e r = (res, r')"
  obtain x w where x: "env_list_skills e (r_world r) = (x, w)" by fastforce
  note lists = skills [OF world [OF P, where w = w], where man = "ag_skill_manifest (r_agent r)", simplified]
  show "P r'"
    using P l x world [OF P] lists by (cases x) (auto simp: load_skills_def split: if_splits)
qed

lemma setups:
  assumes "P r" "run_setup mws r = (res, tools, key, r')"
  shows "P r'"
proof -
  let ?r = "r\<lparr>r_agent := render_manifest (r_agent r)\<rparr>"
  have "P ?r"
    using assms(1) skills [OF assms(1), where sk = "ag_skills (r_agent r)"] by (simp add: render_manifest_def)
  moreover obtain stop r1 where h: "start_hooks mws ?r = (stop, r1)" by fastforce
  ultimately have "P r1" by (rule start [OF order.refl])
  then show ?thesis
    using assms(2) h binds by (auto simp: run_setup_def Let_def bind_history_def split: option.splits if_splits)
qed

end

lemma run_hook_fields:
  assumes "run_hook h i l r = (res, r')"
  shows "r_events r' = r_events r" "ag_middleware (r_agent r') = ag_middleware (r_agent r)"
  using assms by (auto simp: run_hook_def put_cx_def split: prod.splits)

lemma tool_phase_fields:
  assumes "tool_phase env mws i calls r = (ts, recs, r')"
  shows "(\<exists>evs. r_events r' = r_events r @ evs \<and> (\<forall>ev \<in> set evs. \<not> is_done ev)) \<and>
    ag_middleware (r_agent r') = ag_middleware (r_agent r)"
  using assms
  by (auto simp: tool_phase_def Let_def yield_all_def push_message_def split: prod.splits if_splits)

lemma push_turn_middleware [simp]: "ag_middleware (push_turn context acc a) = ag_middleware a"
  by (simp add: push_turn_def push_message_def Let_def)

lemma record_usage_fields [simp]:
  "ag_middleware (snd (record_usage fl u a)) = ag_middleware a" "ag_messages (snd (record_usage fl u a)) = ag_messages a"
  by (simp_all add: record_usage_def Let_def)

lemma respond_fields:
  assumes "respond env mws i context acc r = (c, ts, recs, r')"
  shows "(\<exists>evs. r_events r' = r_events r @ evs \<and> (\<forall>ev \<in> set evs. \<not> is_done ev)) \<and>
    ag_middleware (r_agent r') = ag_middleware (r_agent r)"
proof -
  obtain c1 a where u: "record_usage (env_float env) (sa_usage acc) (push_turn context acc (r_agent r)) = (c1, a)"
    by fastforce
  then have "tool_phase env mws i (sa_tool_calls acc) (r\<lparr>r_agent := a\<rparr>) = (ts, recs, r')"
    using assms by (simp add: respond_def)
  from tool_phase_fields [OF this] u show ?thesis
    using record_usage_fields(1) [of "env_float env" "sa_usage acc" "push_turn context acc (r_agent r)"] by simp
qed

interpretation quiet: run_invariant env mws
    "\<lambda>r. ag_middleware (r_agent r) = [] \<and> (\<forall>ev \<in> set (r_events r). \<not> is_done ev)"
  for env :: "('f, 'w) env" and mws :: "('f, 'w) agent_middleware list"
proof (unfold_locales, goal_cases)
  case (1 h r i l res r')
  then show ?case by (simp add: run_hook_fields)
next
  case (6 r acc i ctxt c ts recs r')
  from respond_fields [OF 6(3)] 6(1) show ?case by auto
qed (auto simp: yield_all_def push_message_def)

end
