(* ===== verification/AgentExample.thy ===== *)
theory AgentExample
  imports AgentLoop
begin

text \<open>
  A concrete agent for the witnesses: a provider whose first response calls the tool \<^verbatim>\<open>f\<close> and whose second
  one ends the turn, a tool that always succeeds, and a middleware that denies every call.
\<close>

definition demo_json :: json_lib where
  "demo_json = \<lparr>jl_parse = (\<lambda>s. if s = ''{}'' then Inr (JObject []) else Inl ''expected value''), jl_print = (\<lambda>v. ''{}'')\<rparr>"

definition demo_float :: "nat float_ops" where
  "demo_float = \<lparr>f_zero = 0, f_of_u64 = unat, f_million = 1000000, f_add = (+), f_mul = (*), f_div = (div)\<rparr>"

text \<open>The world counts the attempts.\<close>

definition demo_env :: "(nat, nat) env" where
  "demo_env =
     \<lparr>env_cancelled = (\<lambda>w. (False, w)), env_sleep = (\<lambda>d w. (False, w)),
      env_tools = (\<lambda>calls w. (\<lparr>br_tool = (\<lambda>n. Inr (JString ''ok'')), br_skill = (\<lambda>n. Inl (ESkill ''none'')), br_elapsed = (\<lambda>n. 1)\<rparr>, w)),
      env_list_skills = (\<lambda>w. (Inr [], w)), env_json = demo_json, env_float = demo_float, env_debug = (\<lambda>s. s),
      env_lower = (\<lambda>s. s)\<rparr>"

definition demo_provider :: "(nat, nat) provider" where
  "demo_provider =
     \<lparr>pr_model_id = ''m'', pr_capabilities_for = (\<lambda>m. default_capabilities), pr_cache_capabilities_for = (\<lambda>m. CacheUnknown),
      pr_attempt = (\<lambda>req w.
        (if w = 0 then AttemptReady (ToolCall ''c1'' ''f'' ''{}'') [Item (End ToolUse usage_zero)]
         else AttemptReady (TextDelta ''hi'') [Item (End EndTurn usage_zero)], w + 1))\<rparr>"

definition demo_tool :: tool_def where
  "demo_tool = \<lparr>td_name = ''f'', td_description = ''a tool'', td_parameters = JObject [], td_strict = False, td_cache = False\<rparr>"

definition deny_all :: "(nat, nat) agent_middleware" where
  "deny_all = default_middleware\<lparr>mw_on_tool_approve := (\<lambda>cx call w. (Inr (Deny ''no''), w))\<rparr>"

definition demo_agent :: "(nat, nat) agent" where
  "demo_agent =
     (agent_new demo_float)\<lparr>ag_providers := [(''m'', demo_provider)], ag_current_model := ''m'',
       ag_tools := [(''f'', demo_tool)], ag_middleware := [deny_all], ag_messages := [User [UText ''go'']]\<rparr>"

lemma demo_acquire:
  "acquire_stream demo_env demo_provider req default_retry w =
     ((if w = 0 then AcqReady (ToolCall ''c1'' ''f'' ''{}'') [Item (End ToolUse usage_zero)]
       else AcqReady (TextDelta ''hi'') [Item (End EndTurn usage_zero)]), w + 1)"
  by (simp add: acquire_stream_def default_retry_def demo_env_def demo_provider_def numeral_3_eq_3)

lemmas loop_defs = iteration_def step_start_def send_request_def read_response_def finish_response_def respond_def
  close_step_def tool_phase_def yield_event_def yield_all_def run_hook_def agent_cx_of_def put_cx_def settle_def
  step_texts_def nonempty_def turn_blocks_def call_block_def push_turn_def push_message_def record_usage_def
  capture_complete_text_def validate_blocks_def terminal_failure_def cut_short_def stop_with_def

lemmas accum_defs = accum_apply_def step_accum_default_def usize_add_def MAX_STREAM_BLOCK_BYTES_def
  MAX_STREAM_RESPONSE_BYTES_def MAX_STREAM_RESPONSE_BLOCKS_def parsed_call_parse_def

lemmas tool_defs = dispatch_plans_def plan_request_def dispatch_request_def pending_of_def plan_of_def
  record_of_def tool_result_of_def value_to_text_def

lemmas demo_defs = demo_agent_def deny_all_def default_middleware_def agent_new_def

lemma demo_env_simps [simp]:
  "env_cancelled demo_env w = (False, w)" "env_json demo_env = demo_json" "env_float demo_env = demo_float"
  "env_list_skills demo_env w = (Inr [], w)" "jl_parse demo_json ''{}'' = Inr (JObject [])"
  "env_tools demo_env calls w = (\<lparr>br_tool = (\<lambda>n. Inr (JString ''ok'')), br_skill = (\<lambda>n. Inl (ESkill ''none'')),
     br_elapsed = (\<lambda>n. 1)\<rparr>, w)"
  by (simp_all add: demo_env_def demo_json_def)

lemma validate_auto [simp]: "validate_cache caps CacheAuto = Inr ()"
  by (simp add: validate_cache_def)

lemma build_request_cache [simp]: "cr_cache (build_request tools sys key a) = ag_cache a"
  by (simp add: build_request_def)

lemmas demo_run_defs = loop_defs demo_acquire accum_defs tool_defs demo_defs

text \<open>The whole run: the call is denied, its result says so, and the next response ends the turn.\<close>

lemma demo_run_messages:
  "ag_messages (r_agent (agent_run demo_env demo_agent 0)) =
     [User [UText ''go''], Assistant [AToolUse ''c1'' ''f'' (JObject [])],
      User [UToolResult ''c1'' [PartText ''no''] True], Assistant [AText ''hi'']]"
proof -
  have "\<exists>r. step_loop demo_env [deny_all] [demo_tool] None ((run_begin demo_agent 0)\<lparr>r_started := 1\<rparr>) = (FEndTurn, r) \<and>
      ag_messages (r_agent r) = [User [UText ''go''], Assistant [AToolUse ''c1'' ''f'' (JObject [])],
        User [UToolResult ''c1'' [PartText ''no''] True], Assistant [AText ''hi'']]"
    apply (subst step_loop.simps)
    apply (simp add: demo_run_defs run_begin_def Let_def DEFAULT_MAX_STEPS_def)
    apply (subst step_loop.simps)
    by (simp add: demo_run_defs run_begin_def Let_def DEFAULT_MAX_STEPS_def)
  then show ?thesis
    by (auto simp: agent_run_def load_skills_def run_setup_def run_begin_def render_manifest_def demo_defs
        run_hook_def agent_cx_of_def put_cx_def bind_history_def has_signed_history_def run_tools_of_def end_run_def
        Let_def yield_event_def)
qed

end
