(* ===== verification/AgentRunProps.thy ===== *)
theory AgentRunProps
  imports AgentProps AgentExample
begin

text \<open>
  The properties of a run of the agent (\<^verbatim>\<open>ai-sdk/src/agent.rs\<close>): it ends, in at most sixteen steps and with
  one \<^verbatim>\<open>Done\<close>; every tool use it leaves in the conversation has its results; a tool runs only when every
  middleware allowed it; a request is retried within the policy. A run that is dropped leaves the agent
  without its middleware.
\<close>

subsection \<open>The end of a run\<close>

lemma step_loop_steps:
  "r_total_steps r \<le> DEFAULT_MAX_STEPS - 1 \<Longrightarrow> r_total_steps (snd (step_loop env mws tools key r)) \<le> DEFAULT_MAX_STEPS"
proof (induction "DEFAULT_MAX_STEPS - r_total_steps r" arbitrary: r rule: less_induct)
  case less
  obtain res r1 where i: "iteration env mws tools key r = (res, r1)" by fastforce
  note steps = iteration_steps [OF i]
  show ?case
  proof (cases res)
    case None
    then have next_step: "step_loop env mws tools key r = step_loop env mws tools key r1"
      using i by (subst step_loop.simps) simp
    from steps(2) [OF None] have "r_total_steps r1 \<le> DEFAULT_MAX_STEPS - 1" by arith
    from less.hyps [OF iteration_decreases [OF i [unfolded None]] this] show ?thesis unfolding next_step .
  next
    case (Some f)
    with i have "step_loop env mws tools key r = (f, r1)" by (subst step_loop.simps) simp
    with steps(1) less.prems show ?thesis by (simp add: DEFAULT_MAX_STEPS_def)
  qed
qed

lemma start_hooks_steps: "start_hooks ms r = (res, r') \<Longrightarrow> r_total_steps r' = r_total_steps r"
proof (induction ms arbitrary: r)
  case (Cons m ms)
  obtain x r1 where h: "run_hook (mw_on_start m) 0 None (r\<lparr>r_started := r_started r + 1\<rparr>) = (x, r1)" by fastforce
  then show ?case using Cons run_hook_steps [OF h] by (auto split: sum.splits flow.splits)
qed simp

lemma load_skills_steps: "load_skills env r = (res, r') \<Longrightarrow> r_total_steps r' = r_total_steps r"
  by (auto simp: load_skills_def Let_def split: if_splits prod.splits sum.splits)

lemma run_setup_steps:
  assumes "run_setup mws r = (res, tools, key, r')"
  shows "r_total_steps r' = r_total_steps r"
proof -
  obtain stop r1 where "start_hooks mws (r\<lparr>r_agent := render_manifest (r_agent r)\<rparr>) = (stop, r1)" by fastforce
  with assms start_hooks_steps [OF this] show ?thesis
    by (auto simp: run_setup_def Let_def split: option.splits)
qed

text \<open>A run is its skills, its setup, the loop and its end.\<close>

lemma agent_run_cases:
  obtains (ended) f t r where "agent_run env a w = end_run (ag_middleware a) f t r"
    "r_total_steps r \<le> DEFAULT_MAX_STEPS"
    "\<And>P. run_invariant env (ag_middleware a) P \<Longrightarrow> P (run_begin a w) \<Longrightarrow> P r"
proof -
  let ?mws = "ag_middleware a"
  obtain err r1 where l: "load_skills env (run_begin a w) = (err, r1)" by fastforce
  obtain stop tools key r2 where s: "run_setup ?mws r1 = (stop, tools, key, r2)" by (metis prod_cases4)
  obtain f r3 where lp: "step_loop env ?mws tools key r2 = (f, r3)" by fastforce
  have n1: "r_total_steps r1 = 0" using load_skills_steps [OF l] by (simp add: run_begin_def)
  then have n2: "r_total_steps r2 = 0" using run_setup_steps [OF s] by simp
  then have n3: "r_total_steps r3 \<le> DEFAULT_MAX_STEPS" using step_loop_steps [of r2 env ?mws tools key] lp by simp
  have inv: "P r1 \<and> P r2 \<and> P r3" if "run_invariant env ?mws P" "P (run_begin a w)" for P
  proof (intro conjI)
    show 1: "P r1" by (rule run_invariant.loads [OF that l])
    show 2: "P r2" by (rule run_invariant.setups [OF that(1) 1 s])
    show "P r3" using run_invariant.loops [OF that(1) 2, of tools key] lp by simp
  qed
  show ?thesis
  proof (cases err)
    case (Some e)
    with l have "agent_run env a w =
        end_run ?mws (FStopped (Some (''skill loader error: '' @ agent_error_display e))) [] r1"
      by (simp add: agent_run_def)
    then show ?thesis
      by (rule that) (use n1 inv in \<open>simp, blast\<close>)
  next
    case None
    show ?thesis
    proof (cases stop)
      case (Some g)
      with None l s have "agent_run env a w = end_run ?mws g (outcome_text g r2) r2" by (simp add: agent_run_def)
      then show ?thesis
      by (rule that) (use n2 inv in \<open>simp, blast\<close>)
    next
      case None
      with \<open>err = None\<close> l s lp have "agent_run env a w = end_run ?mws f (outcome_text f r3) r3"
        by (simp add: agent_run_def)
      then show ?thesis
      by (rule that) (use n3 inv in \<open>simp, blast\<close>)
    qed
  qed
qed

lemma last_done_append:
  "\<forall>ev \<in> set evs. \<not> is_done ev \<Longrightarrow> last_done (evs @ [EvDone out]) prev = Some out"
  by (induction evs prev rule: last_done.induct) auto


subsection \<open>The conversation\<close>

fun result_id :: "user_content \<Rightarrow> string list" where
  "result_id (UToolResult i parts e) = [i]"
| "result_id _ = []"

definition result_ids :: "user_content list \<Rightarrow> string list" where
  "result_ids us = concat (map result_id us)"

text \<open>The turn right after an assistant turn with tool uses holds the results of exactly those uses.\<close>

fun answers :: "string list \<Rightarrow> message list \<Rightarrow> bool" where
  "answers ids (User us # ms) \<longleftrightarrow> set (result_ids us) = set ids"
| "answers ids ms \<longleftrightarrow> ids = []"

fun paired :: "message list \<Rightarrow> bool" where
  "paired [] \<longleftrightarrow> True"
| "paired (User us # ms) \<longleftrightarrow> paired ms"
| "paired (Assistant bs # ms) \<longleftrightarrow> (use_ids bs = [] \<or> answers (use_ids bs) ms) \<and> paired ms"

lemma answers_append: "answers ids ms \<Longrightarrow> ids = [] \<or> answers ids (ms @ ns)"
  by (cases "(ids, ms)" rule: answers.cases) auto

lemma paired_append: "paired ms \<Longrightarrow> paired ns \<Longrightarrow> paired (ms @ ns)"
  by (induction ms rule: paired.induct) (use answers_append in auto)

lemma result_ids_executed [simp]:
  "result_ids (map (tool_result_of print) executed) = map (pl_id \<circ> fst) executed"
  by (induction executed) (auto simp: result_ids_def tool_result_of_def)

lemma result_ids_cancelled [simp]: "result_ids (map cancelled_result is) = is"
  by (induction "is") (auto simp: result_ids_def cancelled_result_def)

lemma result_ids_append [simp]: "result_ids (us @ vs) = result_ids us @ result_ids vs"
  by (simp add: result_ids_def)

lemma plan_outcomes_length [simp]: "length (plan_outcomes res n rs) = length rs"
  by (induction res n rs rule: plan_outcomes.induct) auto

lemma dispatch_plans_fst: "dispatch_plans env a plans w = (executed, w') \<Longrightarrow> map fst executed = plans"
  by (auto simp: dispatch_plans_def Let_def split: prod.splits)

text \<open>The plans are those of a prefix of the calls, of all of them when nothing stopped the pass.\<close>

lemma approve_calls_ids:
  "approve_calls mws cx calls w = (stop, plans, w') \<Longrightarrow>
   \<exists>rest. map pa_id calls = map pl_id plans @ rest \<and> (stop = None \<longrightarrow> rest = [])"
proof (induction calls arbitrary: w stop plans w')
  case (Cons c cs)
  obtain x w1 where x: "resolve_approval mws cx (pending_of c) Allow w = (x, w1)" by fastforce
  obtain stop1 plans1 w2 where r: "approve_calls mws cx cs w1 = (stop1, plans1, w2)" by (metis prod_cases3)
  from Cons.IH [OF r] Cons.prems x r show ?case
    by (cases x) (auto simp: plan_of_def split: approval.splits)
qed simp

lemma tool_phase_messages:
  assumes "tool_phase env mws i calls r = (ts, recs, r')"
  shows "\<exists>us. set (result_ids us) = set (map pa_id calls) \<and>
    ag_messages (r_agent r') = ag_messages (r_agent r) @ (if us = [] then [] else [User us])"
proof -
  obtain stop plans w1 where ap: "approve_calls mws (agent_cx_of i (r_last_step r) (r_agent r)) calls (r_world r) = (stop, plans, w1)"
    by (metis prod_cases3)
  obtain executed w2 where d: "dispatch_plans env (r_agent r) plans w1 = (executed, w2)" by fastforce
  let ?records = "map record_of executed"
  let ?cancelled = "if stop \<noteq> None then cancelled_ids (map pa_id calls) ?records else []"
  let ?us = "map (tool_result_of (jl_print (env_json env))) executed @ map cancelled_result ?cancelled"
  have ids: "map (pl_id \<circ> fst) executed = map pl_id plans"
    using dispatch_plans_fst [OF d] by (metis map_map)
  have "map tr_id ?records = map (pl_id \<circ> fst) executed" by (simp add: record_of_def split_def)
  with ids have recs: "\<And>i. (\<exists>x \<in> set ?records. tr_id x = i) \<longleftrightarrow> i \<in> set (map pl_id plans)"
    by (metis (no_types, lifting) image_iff list.set_map)
  obtain rest where "map pa_id calls = map pl_id plans @ rest" "stop = None \<longrightarrow> rest = []"
    using approve_calls_ids [OF ap] by auto
  then have "set (result_ids ?us) = set (map pa_id calls)"
    unfolding result_ids_append result_ids_executed result_ids_cancelled ids cancelled_ids_def recs by auto
  moreover have "ag_messages (r_agent r') = ag_messages (r_agent r) @ (if ?us = [] then [] else [User ?us])"
    using assms ap d by (auto simp: tool_phase_def Let_def yield_all_def push_message_def)
  ultimately show ?thesis by blast
qed

lemma push_turn_messages:
  "ag_messages (push_turn cx acc a) = ag_messages a @ (if turn_blocks acc = [] then [] else [Assistant (turn_blocks acc)])"
  by (simp add: push_turn_def push_message_def Let_def)

lemma respond_paired:
  assumes "respond env mws i cx acc r = (c, ts, recs, r')" "calls_match acc" "paired (ag_messages (r_agent r))"
  shows "paired (ag_messages (r_agent r'))"
proof -
  obtain c1 a where u: "record_usage (env_float env) (sa_usage acc) (push_turn cx acc (r_agent r)) = (c1, a)"
    by fastforce
  let ?bs = "turn_blocks acc"
  have msgs: "ag_messages a = ag_messages (r_agent r) @ (if ?bs = [] then [] else [Assistant ?bs])"
    using record_usage_fields(2) [of "env_float env" "sa_usage acc" "push_turn cx acc (r_agent r)"] u
    by (simp add: push_turn_messages)
  have "tool_phase env mws i (sa_tool_calls acc) (r\<lparr>r_agent := a\<rparr>) = (ts, recs, r')"
    using assms(1) u by (simp add: respond_def)
  from tool_phase_messages [OF this] obtain us where
    us: "set (result_ids us) = set (map pa_id (sa_tool_calls acc))"
      "ag_messages (r_agent r') = ag_messages a @ (if us = [] then [] else [User us])" by auto
  have "paired ((if ?bs = [] then [] else [Assistant ?bs]) @ (if us = [] then [] else [User us]))"
    using us(1) assms(2) by (auto simp: calls_match_def result_ids_def)
  with paired_append [OF assms(3)] show ?thesis unfolding us(2) msgs by simp
qed

lemma paired_invariant:
  assumes "\<And>h cx w res cx' w'. h \<in> hooks_of mws \<Longrightarrow> paired (cx_messages cx) \<Longrightarrow> h cx w = (res, cx', w') \<Longrightarrow>
    paired (cx_messages cx')"
  shows "run_invariant env mws (\<lambda>r. paired (ag_messages (r_agent r)))"
proof (unfold_locales, goal_cases)
  case (1 h r i l res r')
  obtain x cx w where "h (agent_cx_of i l (r_agent r)) (r_world r) = (x, cx, w)" by (metis prod_cases3)
  with 1 assms [of h "agent_cx_of i l (r_agent r)"] show ?case
    by (auto simp: run_hook_def put_cx_def agent_cx_of_def)
next
  case (6 r acc i cx c ts recs r')
  then show ?case using respond_paired by metis
qed (simp_all add: yield_all_def push_message_def paired_append)


lemma deny_all_keeps: "h \<in> hooks_of [deny_all] \<Longrightarrow> h cx w = (res, cx', w') \<Longrightarrow> cx' = cx"
  by (auto simp: hooks_of_def deny_all_def default_middleware_def)


subsection \<open>Approval\<close>

lemma resolve_approval_Allow:
  "resolve_approval mws cx call d w = (Inr Allow, w') \<Longrightarrow>
   d = Allow \<and> (\<forall>m \<in> set mws. \<exists>v. fst (mw_on_tool_approve m cx call v) = Inr Allow)"
proof (induction mws arbitrary: d w)
  case (Cons m ms)
  obtain x w1 where x: "mw_on_tool_approve m cx call w = (x, w1)" by fastforce
  show ?case
  proof (cases "x = Inr Allow")
    case True
    with x have "\<exists>v. fst (mw_on_tool_approve m cx call v) = Inr Allow" by (metis fst_conv)
    moreover from True x Cons.prems have "resolve_approval ms cx call d w1 = (Inr Allow, w')" by simp
    ultimately show ?thesis using Cons.IH by auto
  next
    case False
    with x Cons.prems obtain d1 where "d1 \<noteq> Allow" "resolve_approval ms cx call d1 w1 = (Inr Allow, w')"
      by (auto split: sum.splits approval.splits if_splits)
    with Cons.IH show ?thesis by blast
  qed
qed simp

lemma approve_calls_denied:
  "approve_calls mws cx calls w = (stop, plans, w') \<Longrightarrow> p \<in> set plans \<Longrightarrow> pl_denied p = None \<Longrightarrow>
   \<exists>c v v'. c \<in> set calls \<and> resolve_approval mws cx (pending_of c) Allow v = (Inr Allow, v') \<and> p = plan_of c Allow None"
proof (induction calls arbitrary: w stop plans w')
  case (Cons c cs)
  obtain x w1 where x: "resolve_approval mws cx (pending_of c) Allow w = (x, w1)" by fastforce
  obtain stop1 plans1 w2 where r: "approve_calls mws cx cs w1 = (stop1, plans1, w2)" by (metis prod_cases3)
  from Cons.prems x r consider (rest) "p \<in> set plans1" | (here) "x = Inr Allow" "p = plan_of c Allow None"
    by (cases x) (auto simp: plan_of_def split: approval.splits)
  then show ?case
  proof cases
    case rest
    from Cons.IH [OF r rest Cons.prems(3)] show ?thesis by auto
  next
    case here
    with x show ?thesis by auto
  qed
qed simp

lemma batch_of_set: "c \<in> set (batch_of rs) \<longleftrightarrow> Inr c \<in> set rs"
  by (induction rs rule: batch_of.induct) auto


definition demo_call :: parsed_call where
  "demo_call = \<lparr>pa_id = ''c1'', pa_name = ''f'', pa_args = JObject [], pa_error = None\<rparr>"

definition demo_acc :: step_accum where
  "demo_acc = step_accum_default\<lparr>sa_tool_calls := [demo_call]\<rparr>"


subsection \<open>Retries\<close>

datatype request_log = LSleep nat | LAttempt

text \<open>The environment and a provider that also log the waits and the attempts.\<close>

definition logged_env :: "('f, 'w) env \<Rightarrow> ('f, 'w \<times> request_log list) env" where
  "logged_env env =
     \<lparr>env_cancelled = (\<lambda>(w, l). let (c, w) = env_cancelled env w in (c, w, l)),
      env_sleep = (\<lambda>d (w, l). let (c, w) = env_sleep env d w in (c, w, l @ [LSleep d])),
      env_tools = (\<lambda>cs (w, l). let (r, w) = env_tools env cs w in (r, w, l)),
      env_list_skills = (\<lambda>(w, l). let (r, w) = env_list_skills env w in (r, w, l)),
      env_json = env_json env, env_float = env_float env, env_debug = env_debug env, env_lower = env_lower env\<rparr>"

definition logged_provider :: "('f, 'w) provider \<Rightarrow> ('f, 'w \<times> request_log list) provider" where
  "logged_provider p =
     \<lparr>pr_model_id = pr_model_id p, pr_capabilities_for = pr_capabilities_for p,
      pr_cache_capabilities_for = pr_cache_capabilities_for p,
      pr_attempt = (\<lambda>req (w, l). let (r, w) = pr_attempt p req w in (r, w, l @ [LAttempt]))\<rparr>"

lemma logged_simps [simp]:
  "env_cancelled (logged_env env) (w, l) = (fst (env_cancelled env w), snd (env_cancelled env w), l)"
  "env_sleep (logged_env env) d (w, l) = (fst (env_sleep env d w), snd (env_sleep env d w), l @ [LSleep d])"
  "env_json (logged_env env) = env_json env"
  "pr_attempt (logged_provider p) req (w, l) = (fst (pr_attempt p req w), snd (pr_attempt p req w), l @ [LAttempt])"
  "pr_capabilities_for (logged_provider p) = pr_capabilities_for p"
  by (simp_all add: logged_env_def logged_provider_def split_def Let_def)

definition log_ok :: "retry_policy \<Rightarrow> request_log list \<Rightarrow> nat \<Rightarrow> bool" where
  "log_ok policy l k \<longleftrightarrow> length (filter ((=) LAttempt) l) \<le> k \<and>
     list_all (\<lambda>x. case x of LSleep d \<Rightarrow> d \<le> max_backoff policy | LAttempt \<Rightarrow> True) l"

lemma log_ok_simps [simp]:
  "log_ok policy (l @ [LAttempt]) (Suc k) \<longleftrightarrow> log_ok policy l k"
  "log_ok policy (l @ [LSleep d]) k \<longleftrightarrow> log_ok policy l k \<and> d \<le> max_backoff policy"
  "log_ok policy (l @ [LSleep d, LAttempt]) (Suc k) \<longleftrightarrow> log_ok policy l k \<and> d \<le> max_backoff policy"
  by (auto simp: log_ok_def)

lemma log_ok_mono: "log_ok policy l k \<Longrightarrow> k \<le> m \<Longrightarrow> log_ok policy l m"
  by (auto simp: log_ok_def)

lemma acquire_loop_logged:
  assumes "acquire_loop (logged_env env) (logged_provider p) req policy k n e c (w, l) = (res, w', l')" "log_ok policy l m"
  shows "acquire_loop env p req policy k n e c w = (res, w') \<and> log_ok policy l' (m + k)"
  using assms
proof (induction k arbitrary: n e c w l m)
  case 0
  then show ?case by simp
next
  case (Suc k)
  obtain b w1 where b: "env_cancelled env w = (b, w1)" by fastforce
  define d where "d = retry_delay policy (n - Suc 0) c"
  obtain b2 w2 where b2: "(if n > 0 then env_sleep env d w1 else (False, w1)) = (b2, w2)" by fastforce
  define l2 where "l2 = (if n > 0 then l @ [LSleep d] else l)"
  have l2: "log_ok policy l2 m" using Suc.prems(2) by (simp add: l2_def d_def retry_delay_le)
  have sl: "(if n > 0 then env_sleep (logged_env env) d (w1, l) else (False, w1, l)) = (b2, w2, l2)"
    using b2 by (auto simp: l2_def split: if_splits)
  obtain r w3 where r: "pr_attempt p req w2 = (r, w3)" by fastforce
  have l3: "log_ok policy (l2 @ [LAttempt]) (Suc m)" using l2 by simp
  note prem = Suc.prems(1) and ih = Suc.IH [OF _ l3]
  show ?case
  proof (cases "b \<or> b2")
    case True
    with prem b sl b2 l2 Suc.prems(2) show ?thesis
      by (auto simp: d_def [symmetric] log_ok_mono split: if_splits)
  next
    case False
    show ?thesis
      using False prem b sl b2 r ih log_ok_mono [OF l3, of "m + Suc k"]
      by (cases r) (auto simp: d_def [symmetric] split: if_splits)
  qed
qed

text \<open>A request is attempted at most once more than the policy's retries, and no wait between attempts is
  longer than the policy's longest backoff, even when a rate limit asks for more. The log of attempts and
  waits changes nothing of what the agent sees.
\<close>

theorem retries_bounded:
  fixes env :: "('f, 'w) env"
  assumes "acquire_stream (logged_env env) (logged_provider p) req policy (w, []) = (res, w', log)"
  shows "acquire_stream env p req policy w = (res, w') \<and> length (filter ((=) LAttempt) log) \<le> max_retries policy + 1 \<and>
    list_all (\<lambda>x. case x of LSleep d \<Rightarrow> d \<le> max_backoff policy | LAttempt \<Rightarrow> True) log"
proof -
  have "log_ok policy [] 0" by (simp add: log_ok_def)
  from acquire_loop_logged [OF assms [unfolded acquire_stream_def logged_simps] this]
  show ?thesis by (auto simp: acquire_stream_def log_ok_def)
qed

text \<open>A provider that is always rate limited, and asks for an hour.\<close>

definition busy_provider :: "(nat, nat) provider" where
  "busy_provider = demo_provider\<lparr>pr_attempt := (\<lambda>req w. (AttemptError (PApi 429 ''rate'' ''slow down'' (Some 3600000000000)), w))\<rparr>"

definition demo_request :: "nat chat_request" where
  "demo_request = build_request [demo_tool] (build_system demo_agent) None demo_agent"

theorem retries_bounded_witness:
  "acquire_stream (logged_env demo_env) (logged_provider busy_provider) demo_request default_retry (0, []) =
     (AcqError (PApi 429 ''rate'' ''slow down'' (Some 3600000000000)), 0,
      [LAttempt, LSleep 30000000000, LAttempt, LSleep 30000000000, LAttempt]) \<and>
   length (filter ((=) LAttempt) [LAttempt, LSleep 30000000000, LAttempt, LSleep 30000000000, LAttempt]) \<le>
     max_retries default_retry + 1"
proof -
  have run: "acquire_stream (logged_env demo_env) (logged_provider busy_provider) demo_request default_retry (0, []) =
     (AcqError (PApi 429 ''rate'' ''slow down'' (Some 3600000000000)), 0,
      [LAttempt, LSleep 30000000000, LAttempt, LSleep 30000000000, LAttempt])"
    by (simp add: acquire_stream_def default_retry_def busy_provider_def demo_env_def numeral_3_eq_3 retry_delay_def
        backoff_def DURATION_MAX_def is_retryable_def)
  with retries_bounded [OF run] show ?thesis by blast
qed

subsection \<open>A dropped run\<close>


definition dropped_agent :: "(nat, nat) agent" where
  "dropped_agent =
     r_agent (snd (step_start demo_env [deny_all] (snd (snd (snd (run_setup [deny_all] (run_begin demo_agent 0)))))))"

lemmas setup_defs = load_skills_def run_setup_def run_begin_def render_manifest_def bind_history_def
  has_signed_history_def run_tools_of_def

lemma demo_setup:
  "load_skills demo_env (run_begin demo_agent 0) = (None, run_begin demo_agent 0)"
  "run_setup [deny_all] (run_begin demo_agent 0) = (None, [demo_tool], None, (run_begin demo_agent 0)\<lparr>r_started := 1\<rparr>)"
  "step_start demo_env [deny_all] ((run_begin demo_agent 0)\<lparr>r_started := 1\<rparr>) =
     (None, (run_begin demo_agent 0)\<lparr>r_started := 1, r_events := [EvStepStart 0]\<rparr>)"
  by (simp_all add: setup_defs demo_defs run_hook_def agent_cx_of_def put_cx_def Let_def step_start_def yield_event_def)

lemma dropped_agent_eq: "dropped_agent = demo_agent\<lparr>ag_middleware := []\<rparr>"
  unfolding dropped_agent_def demo_setup(2) snd_conv demo_setup(3) by (simp add: run_begin_def)


end
