(* ===== verification/SseFrames.thy ===== *)
theory SseFrames
  imports AgentTypes
begin

text \<open>
  Server-sent events (\<^verbatim>\<open>ai-sdk/src/provider/sse.rs\<close>): the framer that turns line segments into frames
  within its byte limits, and the driver that feeds it the chunks of a response body. Bytes are
  characters. A vendor decoder is an argument of the driver; its contract, that a segment may be cut
  anywhere before its line feed, is the locale \<^verbatim>\<open>line_decoder\<close>, under which how the body was cut into
  chunks cannot be observed.
\<close>

subsection \<open>Results and bytes\<close>

text \<open>The operator \<^verbatim>\<open>?\<close>.\<close>

definition try_then :: "'e + 'a \<Rightarrow> ('a \<Rightarrow> 'e + 'b) \<Rightarrow> 'e + 'b" where
  "try_then r f = (case r of Inl e \<Rightarrow> Inl e | Inr x \<Rightarrow> f x)"

lemma try_then_simps [simp]: "try_then (Inl e) f = Inl e" "try_then (Inr x) f = f x"
  by (simp_all add: try_then_def)

lemma try_then_Inr: "try_then r f = Inr y \<longleftrightarrow> (\<exists>x. r = Inr x \<and> f x = Inr y)"
  by (cases r) auto

definition ok_or :: "'a option \<Rightarrow> 'e \<Rightarrow> 'e + 'a" where
  "ok_or x e = (case x of None \<Rightarrow> Inl e | Some v \<Rightarrow> Inr v)"

lemma ok_or_simps [simp]: "ok_or None e = Inl e" "ok_or (Some v) e = Inr v"
  by (simp_all add: ok_or_def)

lemma ok_or_Inr [simp]: "ok_or x e = Inr v \<longleftrightarrow> x = Some v"
  by (cases x) auto

abbreviation LF :: char where "LF \<equiv> CHR 0x0A"
abbreviation CR :: char where "CR \<equiv> CHR 0x0D"

text \<open>\<^verbatim>\<open>str::from_utf8\<close>: the well-formed byte sequences of the Unicode standard.\<close>

definition between :: "nat \<Rightarrow> char \<Rightarrow> nat \<Rightarrow> bool" where
  "between lo c hi \<longleftrightarrow> lo \<le> of_char c \<and> of_char c \<le> hi"

definition tail_byte :: "char \<Rightarrow> bool" where
  "tail_byte c = between 0x80 c 0xBF"

fun from_utf8 :: "string \<Rightarrow> bool" where
  "from_utf8 [] = True"
| "from_utf8 (a # s) =
     (if between 0 a 0x7F then from_utf8 s
      else case s of
        [] \<Rightarrow> False
      | b # s \<Rightarrow>
          if between 0xC2 a 0xDF then tail_byte b \<and> from_utf8 s
          else case s of
            [] \<Rightarrow> False
          | c # s \<Rightarrow>
              if between 0xE0 a 0xEF
              then (if of_char a = (0xE0 :: nat) then between 0xA0 b 0xBF
                    else if of_char a = (0xED :: nat) then between 0x80 b 0x9F else tail_byte b) \<and>
                   tail_byte c \<and> from_utf8 s
              else case s of
                [] \<Rightarrow> False
              | d # s \<Rightarrow>
                  between 0xF0 a 0xF4 \<and>
                  (if of_char a = (0xF0 :: nat) then between 0x90 b 0xBF
                   else if of_char a = (0xF4 :: nat) then between 0x80 b 0x8F else tail_byte b) \<and>
                  tail_byte c \<and> tail_byte d \<and> from_utf8 s)"

subsection \<open>The framer\<close>

definition MAX_FRAME_BYTES :: nat where
  "MAX_FRAME_BYTES = 1024 * 1024"

record sse_frame =
  fr_event :: "string option"
  fr_data :: string

record framer =
  fm_line :: string
  fm_data :: string
  fm_event :: "string option"

definition framer_default :: framer where
  "framer_default = \<lparr>fm_line = [], fm_data = [], fm_event = None\<rparr>"

definition decode_error :: "string \<Rightarrow> provider_error" where
  "decode_error message = PDecode message []"

definition strip_lf :: "string \<Rightarrow> string \<times> bool" where
  "strip_lf part = (if part \<noteq> [] \<and> last part = LF then (butlast part, True) else (part, False))"

definition strip_cr :: "string \<Rightarrow> string" where
  "strip_cr line = (if line \<noteq> [] \<and> last line = CR then butlast line else line)"

definition split_colon :: "string \<Rightarrow> string \<times> string" where
  "split_colon line =
     (if CHR '':'' \<in> set line
      then (takeWhile (\<lambda>c. c \<noteq> CHR '':'') line, tl (dropWhile (\<lambda>c. c \<noteq> CHR '':'') line)) else (line, []))"

definition strip_space :: "string \<Rightarrow> string" where
  "strip_space s = (case s of CHR '' '' # t \<Rightarrow> t | _ \<Rightarrow> s)"

text \<open>A complete line.\<close>

definition framer_line :: "framer \<Rightarrow> provider_error + (sse_frame option \<times> framer)" where
  "framer_line f =
     (if \<not> from_utf8 (fm_line f) then Inl (decode_error ''SSE line is not valid UTF-8'')
      else
        let line = strip_cr (fm_line f)
        in if line = [] then
             if fm_data f = [] then Inr (None, f\<lparr>fm_event := None, fm_line := []\<rparr>)
             else Inr (Some \<lparr>fr_event = fm_event f, fr_data = fm_data f\<rparr>, f\<lparr>fm_event := None, fm_line := [], fm_data := []\<rparr>)
           else
             let (field, v) = split_colon line; v = strip_space v
             in if field = ''event'' then Inr (None, f\<lparr>fm_event := Some v, fm_line := []\<rparr>)
                else if field = ''data'' then
                  let sep = (if fm_data f = [] then [] else [LF])
                  in if usize_add (usize_add (length (fm_data f)) (length sep)) (length v) > MAX_FRAME_BYTES
                     then Inl (decode_error ''SSE event exceeded its byte limit'')
                     else Inr (None, f\<lparr>fm_data := fm_data f @ sep @ v, fm_line := []\<rparr>)
                else Inr (None, f\<lparr>fm_line := []\<rparr>))"

definition framer_accept :: "string \<Rightarrow> framer \<Rightarrow> provider_error + (sse_frame option \<times> framer)" where
  "framer_accept part f =
     (let (bytes, complete) = strip_lf part
      in if usize_add (length (fm_line f)) (length bytes) > MAX_FRAME_BYTES
         then Inl (decode_error ''SSE line exceeded its byte limit'')
         else
           let f = f\<lparr>fm_line := fm_line f @ bytes\<rparr>
           in if complete then framer_line f else Inr (None, f))"

subsection \<open>The driver\<close>

fun split_inclusive :: "string \<Rightarrow> string list" where
  "split_inclusive [] = []"
| "split_inclusive (c # cs) =
     (if c = LF then [c] # split_inclusive cs
      else case split_inclusive cs of [] \<Rightarrow> [[c]] | p # ps \<Rightarrow> (c # p) # ps)"

fun is_end :: "stream_event \<Rightarrow> bool" where
  "is_end (End stop u) = True"
| "is_end _ = False"

text \<open>The events of one segment up to the terminal one, and whether that came.\<close>

fun until_end :: "stream_event list \<Rightarrow> stream_event list \<times> bool" where
  "until_end [] = ([], False)"
| "until_end (ev # evs) = (if is_end ev then ([ev], True) else let (out, e) = until_end evs in (ev # out, e))"

type_synonym 'd segment_decoder = "string \<Rightarrow> 'd \<Rightarrow> provider_error + (stream_event list \<times> 'd)"

text \<open>What the segments yield, and the decoder's state unless the stream is over.\<close>

fun drive_parts :: "'d segment_decoder \<Rightarrow> string list \<Rightarrow> 'd \<Rightarrow> (provider_error + stream_event) list \<times> 'd option" where
  "drive_parts accept [] d = ([], Some d)"
| "drive_parts accept (p # ps) d =
     (case accept p d of
        Inl e \<Rightarrow> ([Inl e], None)
      | Inr (evs, d') \<Rightarrow>
          let (out, ended) = until_end evs
          in if ended then (map Inr out, None)
             else let (rest, d'') = drive_parts accept ps d' in (map Inr out @ rest, d''))"

datatype chunk = Bytes string | Broken string

fun drive :: "'d segment_decoder \<Rightarrow> string \<Rightarrow> chunk list \<Rightarrow> 'd \<Rightarrow> (provider_error + stream_event) list" where
  "drive accept eof [] d = [Inl (PTransport eof)]"
| "drive accept eof (Broken e # cs) d = [Inl (PTransport e)]"
| "drive accept eof (Bytes bs # cs) d =
     (case drive_parts accept (split_inclusive bs) d of
        (out, None) \<Rightarrow> out
      | (out, Some d') \<Rightarrow> out @ drive accept eof cs d')"

subsection \<open>Chunks\<close>

lemma drive_parts_append:
  "drive_parts accept (ps @ qs) d =
     (case drive_parts accept ps d of
        (out, None) \<Rightarrow> (out, None)
      | (out, Some d') \<Rightarrow> let (rest, d'') = drive_parts accept qs d' in (out @ rest, d''))"
  by (induction ps arbitrary: d) (auto split: sum.splits option.splits prod.splits)

locale line_decoder =
  fixes accept :: "'d segment_decoder"
  assumes partial: "LF \<notin> set p \<Longrightarrow> accept p d = Inr (evs, d') \<Longrightarrow> evs = []"
    and joined: "LF \<notin> set p \<Longrightarrow> accept (p @ q) d = try_then (accept p d) (\<lambda>(evs, d'). accept q d')"
begin

lemma cut: "c \<noteq> LF \<Longrightarrow> drive_parts accept ((c # p) # ps) d = drive_parts accept ([c] # p # ps) d"
  using joined [of "[c]" p d] partial [of "[c]" d]
  by (auto simp: try_then_def split: sum.splits)

lemma bytewise: "drive_parts accept (split_inclusive bs) d = drive_parts accept (map (\<lambda>c. [c]) bs) d"
proof (induction bs arbitrary: d)
  case (Cons c bs)
  have rest: "drive_parts accept (split_inclusive bs) = drive_parts accept (map (\<lambda>c. [c]) bs)" by (rule ext) (rule Cons)
  show ?case
  proof (cases "c = LF")
    case True
    then have "split_inclusive (c # bs) = [c] # split_inclusive bs" by simp
    then show ?thesis by (simp only: list.map) (unfold drive_parts.simps(2) rest, rule refl)
  next
    case False
    have "drive_parts accept (split_inclusive (c # bs)) d = drive_parts accept ([c] # split_inclusive bs) d"
      using False cut [OF False] by (cases "split_inclusive bs") (simp_all del: drive_parts.simps(2))
    then show ?thesis unfolding list.map drive_parts.simps(2) rest .
  qed
qed simp

lemma drive_append:
  "drive accept eof (Bytes as # Bytes bs # cs) d = drive accept eof (Bytes (as @ bs) # cs) d"
  unfolding drive.simps bytewise map_append drive_parts_append
  by (auto split: prod.splits option.splits)

lemma chunking: "drive accept eof (map Bytes cs @ rest) d = drive accept eof (Bytes (concat cs) # rest) d"
proof (induction cs arbitrary: d)
  case Nil
  show ?case by simp
next
  case (Cons c cs)
  have "drive accept eof (Bytes c # map Bytes cs @ rest) d = drive accept eof (Bytes c # Bytes (concat cs) # rest) d"
    using Cons by (simp only: drive.simps(3))
  then show ?case by (simp add: drive_append del: drive.simps)
qed

end

subsection \<open>The framer keeps the contract and its limits\<close>

lemma strip_lf_plain: "LF \<notin> set p \<Longrightarrow> strip_lf p = (p, False)"
  using last_in_set by (fastforce simp: strip_lf_def)

lemma strip_lf_append: "LF \<notin> set p \<Longrightarrow> strip_lf (p @ q) = (let (bytes, complete) = strip_lf q in (p @ bytes, complete))"
  by (cases "q = []") (auto simp: strip_lf_plain, auto simp: strip_lf_def butlast_append)

lemma usize_add_limit: "usize_add a b > MAX_FRAME_BYTES \<longleftrightarrow> a + b > MAX_FRAME_BYTES"
  by (auto simp: usize_add_def MAX_FRAME_BYTES_def)

lemma framer_partial: "LF \<notin> set p \<Longrightarrow> framer_accept p f = Inr (x, f') \<Longrightarrow> x = None"
  by (auto simp: framer_accept_def strip_lf_plain split: if_splits)

lemma framer_joined: "LF \<notin> set p \<Longrightarrow> framer_accept (p @ q) f = try_then (framer_accept p f) (\<lambda>(x, f'). framer_accept q f')"
  by (auto simp: framer_accept_def strip_lf_plain strip_lf_append usize_add_limit Let_def split: prod.splits)

definition framer_ok :: "framer \<Rightarrow> bool" where
  "framer_ok f \<longleftrightarrow> length (fm_line f) \<le> MAX_FRAME_BYTES \<and> length (fm_data f) \<le> MAX_FRAME_BYTES"

lemma framer_line_ok: "framer_line f = Inr (x, f') \<Longrightarrow> framer_ok f \<Longrightarrow> framer_ok f'"
  by (auto simp: framer_line_def framer_ok_def Let_def usize_add_def MAX_FRAME_BYTES_def split: if_splits prod.splits)

lemma framer_accept_ok: "framer_accept p f = Inr (x, f') \<Longrightarrow> framer_ok f \<Longrightarrow> framer_ok f'"
  using framer_line_ok
  by (auto simp: framer_accept_def framer_ok_def Let_def usize_add_limit split: if_splits prod.splits)

text \<open>A decoder that hands the frames of the framer to a handler of its own keeps the contract.\<close>

definition framed :: "(sse_frame \<Rightarrow> 'd \<Rightarrow> provider_error + (stream_event list \<times> 'd)) \<Rightarrow> (framer \<times> 'd) segment_decoder" where
  "framed handler part = (\<lambda>(f, d).
     try_then (framer_accept part f) (\<lambda>(x, f').
       case x of
         None \<Rightarrow> Inr ([], f', d)
       | Some frame \<Rightarrow> try_then (handler frame d) (\<lambda>(evs, d'). Inr (evs, f', d'))))"

lemma framed_line_decoder: "line_decoder (framed handler)"
proof (unfold_locales, goal_cases)
  case (1 p d evs d')
  then show ?case using framer_partial [OF 1(1)] by (auto simp: framed_def try_then_Inr split: prod.splits option.splits)
next
  case (2 p q d)
  obtain f s where d: "d = (f, s)" by fastforce
  show ?case
    using framer_joined [OF 2, of q f] framer_partial [OF 2, of f]
    by (cases "framer_accept p f") (auto simp: framed_def d)
qed

end
