(* ===== verification/ProviderWire.thy ===== *)
theory ProviderWire
  imports SseFrames AgentAccum
begin

text \<open>
  What the provider adapters share (\<^verbatim>\<open>ai-sdk/src/provider/http.rs\<close>): reading fields and counters of a JSON
  value, and the error of a failed request, which keeps only the structured kind and message of a body.
\<close>

subsection \<open>Values\<close>

fun is_object :: "jvalue \<Rightarrow> bool" where
  "is_object (JObject m) = True"
| "is_object _ = False"

definition is_u64 :: "jvalue \<Rightarrow> bool" where
  "is_u64 v \<longleftrightarrow> as_u64 v \<noteq> None"

definition get_u64 :: "jvalue \<Rightarrow> string \<Rightarrow> u64 option" where
  "get_u64 v k = Option.bind (jget v k) as_u64"

definition get_str :: "jvalue \<Rightarrow> string \<Rightarrow> string option" where
  "get_str v k = Option.bind (jget v k) as_str"

text \<open>\<^verbatim>\<open>value[key] = x\<close> on an object.\<close>

fun jset :: "jvalue \<Rightarrow> string \<Rightarrow> jvalue \<Rightarrow> jvalue" where
  "jset (JObject m) k x = JObject (jmap_insert k x m)"
| "jset v k x = v"

fun as_array :: "jvalue \<Rightarrow> jvalue list option" where
  "as_array (JArray vs) = Some vs"
| "as_array _ = None"

text \<open>\<^verbatim>\<open>value[key]\<close>: a missing member reads as null.\<close>

definition jindex :: "jvalue \<Rightarrow> string \<Rightarrow> jvalue" where
  "jindex v k = (case jget v k of Some x \<Rightarrow> x | None \<Rightarrow> JNull)"

definition wire_count :: "jvalue \<Rightarrow> string \<Rightarrow> u64" where
  "wire_count v k = (case get_u64 v k of Some n \<Rightarrow> n | None \<Rightarrow> 0)"

definition nested_count :: "jvalue \<Rightarrow> string \<Rightarrow> string \<Rightarrow> u64" where
  "nested_count v grp k = (case jget v grp of Some d \<Rightarrow> wire_count d k | None \<Rightarrow> 0)"

definition u64_checked_add :: "u64 \<Rightarrow> u64 \<Rightarrow> u64 option" where
  "u64_checked_add a b = (if a + b < a then None else Some (a + b))"

text \<open>A loop of checks, the first failure of which returns.\<close>

fun check_all :: "('a \<Rightarrow> 'e + unit) \<Rightarrow> 'a list \<Rightarrow> 'e + unit" where
  "check_all f [] = Inr ()"
| "check_all f (x # xs) = try_then (f x) (\<lambda>_. check_all f xs)"

definition ensure :: "bool \<Rightarrow> 'e \<Rightarrow> 'e + unit" where
  "ensure ok e = (if ok then Inr () else Inl e)"

lemma ensure_Inr [simp]: "ensure ok e = Inr () \<longleftrightarrow> ok"
  by (simp add: ensure_def)

subsection \<open>Errors of the API\<close>

text \<open>\<^verbatim>\<open>v["error"][field].as_str()\<close>.\<close>

definition error_field :: "jvalue \<Rightarrow> string \<Rightarrow> string option" where
  "error_field v field = Option.bind (jget v ''error'') (\<lambda>e. get_str e field)"

definition api_error :: "json_lib \<Rightarrow> u16 \<Rightarrow> string \<Rightarrow> nat option \<Rightarrow> provider_error" where
  "api_error lib status body retry_after =
     (let field = (\<lambda>f. case jl_parse lib body of Inl e \<Rightarrow> None | Inr v \<Rightarrow> error_field v f);
          kind = (case field ''type'' of Some k \<Rightarrow> k | None \<Rightarrow> ''api_error'')
      in PApi status kind
           (case field ''message'' of Some m \<Rightarrow> m | None \<Rightarrow> ''provider error: '' @ show_nat status @ '' '' @ kind) retry_after)"

definition pick_model :: "string \<Rightarrow> 'f chat_request \<Rightarrow> string" where
  "pick_model model r = (if cr_model r = [] then model else cr_model r)"

end
