(* ===== verification/ClaudeStream.thy ===== *)
theory ClaudeStream
  imports ProviderWire
begin

text \<open>
  The streaming decoder of the Claude provider (\<^verbatim>\<open>ai-sdk/src/provider/claude/\<close>: \<^verbatim>\<open>usage.rs\<close>, \<^verbatim>\<open>block.rs\<close>,
  \<^verbatim>\<open>accum.rs\<close>, \<^verbatim>\<open>sse.rs\<close>, \<^verbatim>\<open>sse/frame.rs\<close>, \<^verbatim>\<open>sse/validation.rs\<close>): validation of every event, the open blocks
  with their byte limits, and the accumulator that releases complete blocks, tool calls and the end.
  Parsing and printing JSON, and the position of a parse error, are arguments.
\<close>

subsection \<open>Usage\<close>

definition map_usage :: "jvalue \<Rightarrow> usage" where
  "map_usage u =
     \<lparr>input_tokens = wire_count u ''input_tokens'', output_tokens = wire_count u ''output_tokens'',
      cache_create_tokens = wire_count u ''cache_creation_input_tokens'',
      cache_create_1h_tokens = nested_count u ''cache_creation'' ''ephemeral_1h_input_tokens'',
      cache_read_tokens = wire_count u ''cache_read_input_tokens'',
      reasoning_tokens = nested_count u ''output_tokens_details'' ''thinking_tokens''\<rparr>"

definition validate_totals :: "usage \<Rightarrow> provider_error + unit" where
  "validate_totals u =
     ensure (\<not> cache_create_1h_tokens u > cache_create_tokens u \<and> \<not> reasoning_tokens u > output_tokens u \<and>
         Option.bind (u64_checked_add (input_tokens u) (cache_create_tokens u))
           (\<lambda>t. u64_checked_add t (cache_read_tokens u)) \<noteq> None)
       (decode_error ''Claude usage contains inconsistent token totals'')"

definition BAD_COUNT :: provider_error where
  "BAD_COUNT = decode_error ''Claude usage contains an invalid token count''"

definition check_field :: "jvalue \<Rightarrow> string \<Rightarrow> provider_error + unit" where
  "check_field v field =
     (case jget v field of
        None \<Rightarrow> Inr ()
      | Some x \<Rightarrow> ensure (x = JNull \<and> field \<notin> {''input_tokens'', ''output_tokens''} \<or> is_u64 x) BAD_COUNT)"

definition check_group :: "jvalue \<Rightarrow> string \<times> string list \<Rightarrow> provider_error + unit" where
  "check_group v = (\<lambda>(grp, fields).
     (case jget v grp of
        None \<Rightarrow> Inr ()
      | Some details \<Rightarrow>
          if details = JNull then Inr ()
          else if \<not> is_object details then Inl (decode_error ''Claude usage details must be an object'')
          else check_all (\<lambda>f. ensure (case jget details f of None \<Rightarrow> True | Some x \<Rightarrow> is_u64 x) BAD_COUNT) fields))"

definition usage_validate :: "jvalue \<Rightarrow> provider_error + unit" where
  "usage_validate v =
     try_then (ensure (is_object v) (decode_error ''Claude usage must be an object'')) (\<lambda>_.
     try_then (check_all (check_field v)
       [''input_tokens'', ''output_tokens'', ''cache_creation_input_tokens'', ''cache_read_input_tokens'']) (\<lambda>_.
     try_then (check_all (check_group v)
       [(''cache_creation'', [''ephemeral_5m_input_tokens'', ''ephemeral_1h_input_tokens'']),
        (''output_tokens_details'', [''thinking_tokens''])]) (\<lambda>_.
       let mapped = map_usage v
       in try_then (ensure (\<not> (jget v ''output_tokens'' \<noteq> None \<and> reasoning_tokens mapped > output_tokens mapped))
            (decode_error ''Claude reasoning usage exceeds output tokens'')) (\<lambda>_.
          case get_u64 v ''cache_creation_input_tokens'' of
            None \<Rightarrow> Inr ()
          | Some tot \<Rightarrow>
              (let five_minute = nested_count v ''cache_creation'' ''ephemeral_5m_input_tokens''
               in ensure (case u64_checked_add five_minute (cache_create_1h_tokens mapped) of
                      None \<Rightarrow> False | Some writes \<Rightarrow> \<not> writes > tot)
                    (decode_error ''Claude cache usage exceeds total cache writes''))))))"

definition require_complete :: "jvalue \<Rightarrow> provider_error + unit" where
  "require_complete v =
     try_then (usage_validate v) (\<lambda>_.
     try_then (ensure (get_u64 v ''input_tokens'' \<noteq> None \<and> get_u64 v ''output_tokens'' \<noteq> None)
       (decode_error ''Claude response requires input and output usage'')) (\<lambda>_.
     validate_totals (map_usage v)))"

definition map_stop_reason :: "string \<Rightarrow> string option \<Rightarrow> stop_reason" where
  "map_stop_reason reason seq =
     (if reason = ''end_turn'' then EndTurn
      else if reason = ''max_tokens'' then MaxTokens
      else if reason = ''stop_sequence'' then StopSequence (case seq of Some s \<Rightarrow> s | None \<Rightarrow> [])
      else if reason = ''tool_use'' then ToolUse
      else if reason = ''refusal'' then Refusal
      else if reason = ''pause_turn'' then Pause
      else OtherStop reason)"

subsection \<open>Blocks\<close>

definition block_field :: "jvalue \<Rightarrow> string \<Rightarrow> provider_error + string" where
  "block_field v field = ok_or (get_str v field) (decode_error (''Claude block requires '' @ field @ '' string''))"

definition EXCEEDED :: provider_error where
  "EXCEEDED = decode_error ''Claude response content exceeded its byte limit''"

text \<open>The new total of the response.\<close>

definition reserve :: "nat \<Rightarrow> nat \<Rightarrow> nat \<Rightarrow> nat \<Rightarrow> provider_error + nat" where
  "reserve current removed added tot =
     (let block = usize_add (current - removed) added; response = usize_add (tot - removed) added
      in if block > MAX_STREAM_BLOCK_BYTES \<or> response > MAX_STREAM_RESPONSE_BYTES then Inl EXCEEDED else Inr response)"

definition tool_input :: "json_lib \<Rightarrow> jvalue option \<Rightarrow> string option \<Rightarrow> provider_error + (jvalue \<times> string)" where
  "tool_input lib initial json =
     (case json of
        Some arguments \<Rightarrow>
          (case jl_parse lib arguments of
             Inl e \<Rightarrow> Inl (decode_error ''Claude tool arguments are not valid JSON'')
           | Inr v \<Rightarrow> Inr (v, arguments))
      | None \<Rightarrow>
          try_then (ok_or initial (decode_error ''Claude tool input is missing'')) (\<lambda>v. Inr (v, jl_print lib v)))"

datatype claude_block =
    BText string
  | BThinking string "string option"
  | BRedacted string
  | BTool string string "jvalue option" "string option"

definition block_start :: "jvalue \<Rightarrow> provider_error + claude_block option" where
  "block_start b =
     try_then (block_field b ''type'') (\<lambda>kind.
       if kind = ''text'' then try_then (block_field b ''text'') (\<lambda>t. Inr (Some (BText t)))
       else if kind = ''thinking'' then
         try_then (block_field b ''thinking'') (\<lambda>t.
           case jget b ''signature'' of
             None \<Rightarrow> Inr (Some (BThinking t None))
           | Some v \<Rightarrow>
               try_then (ok_or (as_str v) (decode_error ''Claude thinking signature must be a string''))
                 (\<lambda>s. Inr (Some (BThinking t (Some s)))))
       else if kind = ''redacted_thinking'' then try_then (block_field b ''data'') (\<lambda>d. Inr (Some (BRedacted d)))
       else if kind = ''tool_use'' then
         try_then (block_field b ''id'') (\<lambda>i.
         try_then (block_field b ''name'') (\<lambda>name.
           case jget b ''input'' of
             Some (JObject m) \<Rightarrow> Inr (Some (BTool i name (Some (JObject m)) None))
           | _ \<Rightarrow> Inl (decode_error ''Claude tool block requires input object'')))
       else Inr None)"

fun claude_block_bytes :: "json_lib \<Rightarrow> claude_block \<Rightarrow> nat" where
  "claude_block_bytes lib (BText t) = length t"
| "claude_block_bytes lib (BRedacted t) = length t"
| "claude_block_bytes lib (BThinking t s) = usize_add (length t) (case s of Some x \<Rightarrow> length x | None \<Rightarrow> 0)"
| "claude_block_bytes lib (BTool i name initial json) =
     usize_add (usize_add (length i) (length name))
       (case json of Some j \<Rightarrow> length j | None \<Rightarrow> (case initial of Some v \<Rightarrow> length (jl_print lib v) | None \<Rightarrow> 0))"

fun initial_events :: "claude_block \<Rightarrow> stream_event list" where
  "initial_events (BText t) = (if t \<noteq> [] then [TextDelta t] else [])"
| "initial_events (BThinking t s) =
     (if t \<noteq> [] then [ReasoningDelta t] else []) @
     (case s of Some x \<Rightarrow> if x \<noteq> [] then [SignatureDelta x] else [] | None \<Rightarrow> [])"
| "initial_events _ = []"

text \<open>The events of a delta, the block after it and the new total of the response.\<close>

definition block_delta ::
  "json_lib \<Rightarrow> jvalue \<Rightarrow> claude_block \<Rightarrow> nat \<Rightarrow> provider_error + (stream_event list \<times> claude_block \<times> nat)" where
  "block_delta lib delta b tot =
     (let current = claude_block_bytes lib b
      in try_then (block_field delta ''type'') (\<lambda>kind.
        case b of
          BText buffer \<Rightarrow>
            if kind = ''text_delta'' then
              try_then (block_field delta ''text'') (\<lambda>part.
              try_then (reserve current 0 (length part) tot) (\<lambda>tot'. Inr ([TextDelta part], BText (buffer @ part), tot')))
            else Inr ([], b, tot)
        | BThinking buffer signature \<Rightarrow>
            if kind = ''thinking_delta'' then
              try_then (block_field delta ''thinking'') (\<lambda>part.
              try_then (reserve current 0 (length part) tot)
                (\<lambda>tot'. Inr ([ReasoningDelta part], BThinking (buffer @ part) signature, tot')))
            else if kind = ''signature_delta'' then
              try_then (block_field delta ''signature'') (\<lambda>part.
              try_then (reserve current 0 (length part) tot)
                (\<lambda>tot'. Inr ([SignatureDelta part],
                   BThinking buffer (Some ((case signature of Some s \<Rightarrow> s | None \<Rightarrow> []) @ part)), tot')))
            else Inr ([], b, tot)
        | BTool i name initial json \<Rightarrow>
            if kind = ''input_json_delta'' then
              try_then (block_field delta ''partial_json'') (\<lambda>part.
                if part = [] then Inr ([], b, tot)
                else
                  try_then
                    (if json = None then
                       (case initial of
                          None \<Rightarrow> Inr 0
                        | Some v \<Rightarrow>
                            if v = JObject [] then Inr (length (jl_print lib v))
                            else Inl (decode_error ''Claude tool input conflicts with streamed arguments''))
                     else Inr 0)
                    (\<lambda>removed.
                  try_then (reserve current removed (length part) tot)
                    (\<lambda>tot'. Inr ([], BTool i name None (Some ((case json of Some j \<Rightarrow> j | None \<Rightarrow> []) @ part)), tot'))))
            else Inr ([], b, tot)
        | BRedacted d \<Rightarrow> Inr ([], b, tot)))"

fun block_finish :: "json_lib \<Rightarrow> claude_block \<Rightarrow> provider_error + (assistant_content \<times> stream_event option)" where
  "block_finish lib (BText t) = Inr (AText t, None)"
| "block_finish lib (BThinking t s) = Inr (AThinking (Visible t s), None)"
| "block_finish lib (BRedacted d) = Inr (AThinking (Redacted d), None)"
| "block_finish lib (BTool i name initial json) =
     try_then (tool_input lib initial json) (\<lambda>(v, arguments). Inr (AToolUse i name v, Some (ToolCall i name arguments)))"

subsection \<open>The accumulator\<close>

record claude_accum =
  ca_usage :: usage
  ca_has_input :: bool
  ca_has_final :: bool
  ca_blocks :: "(u64, claude_block option) hashmap"
  ca_seen :: "u64 list"
  ca_bytes :: nat
  ca_stop :: "stop_reason option"

definition claude_accum_default :: claude_accum where
  "claude_accum_default =
     \<lparr>ca_usage = usage_zero, ca_has_input = False, ca_has_final = False, ca_blocks = [], ca_seen = [], ca_bytes = 0,
      ca_stop = None\<rparr>"

definition has_open_blocks :: "claude_accum \<Rightarrow> bool" where
  "has_open_blocks a \<longleftrightarrow> ca_blocks a \<noteq> []"

type_synonym claude_result = "provider_error + (stream_event list \<times> claude_accum)"

definition open_bytes :: "json_lib \<Rightarrow> claude_block option \<Rightarrow> nat" where
  "open_bytes lib b = (case b of None \<Rightarrow> 0 | Some x \<Rightarrow> claude_block_bytes lib x)"

definition claude_start :: "json_lib \<Rightarrow> jvalue \<Rightarrow> claude_accum \<Rightarrow> claude_result" where
  "claude_start lib event a =
     try_then (ok_or (get_u64 event ''index'') (decode_error ''Claude block index missing'')) (\<lambda>index.
       if index \<in> set (ca_seen a) \<or> length (ca_seen a) \<ge> MAX_STREAM_RESPONSE_BLOCKS \<or>
          length (ca_blocks a) \<ge> MAX_STREAM_OPEN_BLOCKS
       then Inl (decode_error ''duplicate or excessive Claude response blocks'')
       else
         try_then (ok_or (jget event ''content_block'') (decode_error ''Claude content_block missing'')) (\<lambda>content.
         try_then (block_start content) (\<lambda>b.
           let size = open_bytes lib b
           in if size > MAX_STREAM_BLOCK_BYTES \<or> usize_add (ca_bytes a) size > MAX_STREAM_RESPONSE_BYTES
              then Inl EXCEEDED
              else
                Inr (case b of None \<Rightarrow> [] | Some x \<Rightarrow> initial_events x,
                  a\<lparr>ca_seen := ca_seen a @ [index], ca_bytes := ca_bytes a + size,
                    ca_blocks := AList.update index b (ca_blocks a)\<rparr>))))"

definition claude_delta :: "json_lib \<Rightarrow> jvalue \<Rightarrow> claude_accum \<Rightarrow> claude_result" where
  "claude_delta lib event a =
     try_then (ok_or (get_u64 event ''index'') (decode_error ''Claude block delta index missing'')) (\<lambda>index.
       case map_of (ca_blocks a) index of
         Some (Some b) \<Rightarrow>
           try_then (ok_or (jget event ''delta'') (decode_error ''Claude block delta missing'')) (\<lambda>delta.
           try_then (block_delta lib delta b (ca_bytes a)) (\<lambda>(evs, b', bytes).
             Inr (evs, a\<lparr>ca_bytes := bytes, ca_blocks := AList.update index (Some b') (ca_blocks a)\<rparr>)))
       | _ \<Rightarrow> Inr ([], a))"

definition claude_finish :: "json_lib \<Rightarrow> jvalue \<Rightarrow> claude_accum \<Rightarrow> claude_result" where
  "claude_finish lib event a =
     try_then (ok_or (get_u64 event ''index'') (decode_error ''Claude block stop index missing'')) (\<lambda>index.
       let a' = a\<lparr>ca_blocks := AList.delete index (ca_blocks a)\<rparr>
       in case map_of (ca_blocks a) index of
            Some (Some b) \<Rightarrow>
              (let before = claude_block_bytes lib b
               in try_then (block_finish lib b) (\<lambda>(content, call).
                    let after = assistant_content_bytes (jl_print lib) content;
                        response = usize_add (ca_bytes a - before) after
                    in if after > MAX_STREAM_BLOCK_BYTES \<or> response > MAX_STREAM_RESPONSE_BYTES then Inl EXCEEDED
                       else Inr (AssistantBlock index content # (case call of Some c \<Rightarrow> [c] | None \<Rightarrow> []),
                              a'\<lparr>ca_bytes := response\<rparr>)))
          | _ \<Rightarrow> Inr ([], a'))"

text \<open>The counters a later report changes; the others keep what is known.\<close>

definition next_usage :: "usage \<Rightarrow> jvalue \<Rightarrow> u64 \<Rightarrow> usage" where
  "next_usage u v output =
     (let delta = map_usage v
      in u\<lparr>output_tokens := output,
           input_tokens := (if jget v ''input_tokens'' \<noteq> None then input_tokens delta else input_tokens u),
           cache_create_tokens :=
             (if get_u64 v ''cache_creation_input_tokens'' \<noteq> None then cache_create_tokens delta else cache_create_tokens u),
           cache_create_1h_tokens :=
             (if Option.bind (jget v ''cache_creation'') (\<lambda>c. jget c ''ephemeral_1h_input_tokens'') \<noteq> None
              then cache_create_1h_tokens delta else cache_create_1h_tokens u),
           cache_read_tokens :=
             (if get_u64 v ''cache_read_input_tokens'' \<noteq> None then cache_read_tokens delta else cache_read_tokens u),
           reasoning_tokens :=
             (if Option.bind (jget v ''output_tokens_details'') (\<lambda>d. jget d ''thinking_tokens'') \<noteq> None
              then reasoning_tokens delta else reasoning_tokens u)\<rparr>)"

definition message_delta :: "jvalue \<Rightarrow> claude_accum \<Rightarrow> claude_result" where
  "message_delta event a =
     (if has_open_blocks a then Inl (decode_error ''Claude message_delta before blocks completed'')
      else
        let needs = decode_error ''Claude message_delta requires output usage''
        in try_then (ok_or (jget event ''usage'') needs) (\<lambda>v.
           try_then (usage_validate v) (\<lambda>_.
           try_then (ok_or (get_u64 v ''output_tokens'') needs) (\<lambda>output.
             if output < output_tokens (ca_usage a) then Inl (decode_error ''Claude cumulative output usage decreased'')
             else
               let u = next_usage (ca_usage a) v output
               in try_then (validate_totals u) (\<lambda>_.
                    if total_input u < total_input (ca_usage a)
                    then Inl (decode_error ''Claude cumulative input usage decreased'')
                    else
                      let stop = (case Option.bind (jget event ''delta'') (\<lambda>d. map_option (\<lambda>r. (d, r)) (get_str d ''stop_reason'')) of
                            Some (d, reason) \<Rightarrow> Some (map_stop_reason reason (get_str d ''stop_sequence''))
                          | None \<Rightarrow> ca_stop a)
                      in Inr ([UsageEvent u], a\<lparr>ca_usage := u, ca_has_final := True, ca_stop := stop\<rparr>))))))"

definition message_start :: "jvalue \<Rightarrow> claude_accum \<Rightarrow> claude_result" where
  "message_start event a =
     try_then
       (case Option.bind (jget event ''message'') (\<lambda>m. jget m ''usage'') of
          None \<Rightarrow> Inr a
        | Some v \<Rightarrow>
            try_then (usage_validate v) (\<lambda>_.
            try_then (validate_totals (map_usage v)) (\<lambda>_.
              Inr (a\<lparr>ca_has_input := (get_u64 v ''input_tokens'' \<noteq> None), ca_usage := map_usage v\<rparr>))))
       (\<lambda>a. Inr ([Start (ca_usage a)], a))"

definition message_stop :: "claude_accum \<Rightarrow> claude_result" where
  "message_stop a =
     (if \<not> ca_has_input a \<or> \<not> ca_has_final a
      then Inl (decode_error ''Claude stream requires initial input and final output usage'')
      else if has_open_blocks a then Inl (decode_error ''Claude message_stop with incomplete blocks'')
      else
        try_then (ok_or (ca_stop a) (decode_error ''Claude message_stop without a stop reason''))
          (\<lambda>stop. Inr ([End stop (ca_usage a)], a)))"

definition claude_push :: "json_lib \<Rightarrow> jvalue \<Rightarrow> claude_accum \<Rightarrow> claude_result" where
  "claude_push lib event a =
     (let kind = get_str event ''type''
      in if ca_stop a \<noteq> None \<and>
            kind \<in> {Some ''content_block_start'', Some ''content_block_delta'', Some ''content_block_stop''}
         then Inl (decode_error ''Claude content followed terminal usage'')
         else if kind = Some ''message_start'' then message_start event a
         else if kind = Some ''content_block_start'' then claude_start lib event a
         else if kind = Some ''content_block_delta'' then claude_delta lib event a
         else if kind = Some ''content_block_stop'' then claude_finish lib event a
         else if kind = Some ''message_delta'' then message_delta event a
         else if kind = Some ''message_stop'' then message_stop a
         else Inr ([], a))"

subsection \<open>Validation\<close>

definition req_object :: "jvalue \<Rightarrow> string \<Rightarrow> provider_error + jvalue" where
  "req_object v field =
     (case jget v field of
        Some x \<Rightarrow> if is_object x then Inr x else Inl (decode_error (''Claude streaming event requires '' @ field @ '' object''))
      | None \<Rightarrow> Inl (decode_error (''Claude streaming event requires '' @ field @ '' object'')))"

definition req_text :: "jvalue \<Rightarrow> string \<Rightarrow> provider_error + string" where
  "req_text v field = ok_or (get_str v field) (decode_error (''Claude streaming event requires '' @ field @ '' string''))"

definition req_index :: "jvalue \<Rightarrow> provider_error + u64" where
  "req_index event =
     ok_or (get_u64 event ''index'') (decode_error ''Claude streaming event requires a nonnegative block index'')"

definition then_ok :: "provider_error + 'a \<Rightarrow> provider_error + unit" where
  "then_ok r = try_then r (\<lambda>_. Inr ())"

definition validate_block_start :: "jvalue \<Rightarrow> provider_error + unit" where
  "validate_block_start event =
     try_then (req_index event) (\<lambda>_.
     try_then (req_object event ''content_block'') (\<lambda>b.
     try_then (req_text b ''type'') (\<lambda>kind.
       if kind = ''tool_use'' then
         try_then (req_text b ''id'') (\<lambda>i.
           if i = [] then Inl (decode_error ''Claude tool block requires nonempty id and name'')
           else
             try_then (req_text b ''name'') (\<lambda>name.
               if name = [] then Inl (decode_error ''Claude tool block requires nonempty id and name'')
               else then_ok (req_object b ''input'')))
       else if kind = ''text'' then then_ok (req_text b ''text'')
       else if kind = ''thinking'' then then_ok (req_text b ''thinking'')
       else Inr ())))"

definition delta_field :: "string \<Rightarrow> string option" where
  "delta_field kind =
     map_of [(''text_delta'', ''text''), (''thinking_delta'', ''thinking''), (''signature_delta'', ''signature''),
             (''input_json_delta'', ''partial_json'')] kind"

definition validate_block_delta :: "jvalue \<Rightarrow> provider_error + unit" where
  "validate_block_delta event =
     try_then (req_index event) (\<lambda>_.
     try_then (req_object event ''delta'') (\<lambda>d.
     try_then (req_text d ''type'') (\<lambda>kind.
       case delta_field kind of Some field \<Rightarrow> then_ok (req_text d field) | None \<Rightarrow> Inr ())))"

definition validate_message_start :: "jvalue \<Rightarrow> provider_error + unit" where
  "validate_message_start event =
     try_then (req_object event ''message'') (\<lambda>m.
     try_then (req_object m ''usage'') (\<lambda>u.
     try_then (usage_validate u) (\<lambda>_.
     ensure (get_u64 u ''input_tokens'' \<noteq> None \<and> get_u64 u ''output_tokens'' \<noteq> None)
       (decode_error ''Claude message_start requires input and output usage''))))"

fun stop_field_ok :: "jvalue option \<Rightarrow> bool" where
  "stop_field_ok None = True"
| "stop_field_ok (Some JNull) = True"
| "stop_field_ok (Some (JString s)) = True"
| "stop_field_ok (Some _) = False"

definition validate_message_delta :: "jvalue \<Rightarrow> provider_error + unit" where
  "validate_message_delta event =
     try_then (req_object event ''delta'') (\<lambda>d.
     try_then (req_object event ''usage'') (\<lambda>u.
     try_then (usage_validate u) (\<lambda>_.
     try_then (ensure (get_u64 u ''output_tokens'' \<noteq> None) (decode_error ''Claude message_delta requires output usage'')) (\<lambda>_.
     check_all (\<lambda>field. ensure (stop_field_ok (jget d field)) (decode_error ''Claude message_delta contains an invalid stop field''))
       [''stop_reason'', ''stop_sequence'']))))"

definition claude_validate :: "jvalue \<Rightarrow> provider_error + string" where
  "claude_validate event =
     try_then (req_text event ''type'') (\<lambda>kind.
     try_then
       (if kind = ''message_start'' then validate_message_start event
        else if kind = ''content_block_start'' then validate_block_start event
        else if kind = ''content_block_delta'' then validate_block_delta event
        else if kind = ''content_block_stop'' then then_ok (req_index event)
        else if kind = ''message_delta'' then validate_message_delta event
        else if kind = ''error'' then
          try_then (req_object event ''error'') (\<lambda>e.
          try_then (req_text e ''type'') (\<lambda>_. then_ok (req_text e ''message'')))
        else Inr ())
       (\<lambda>_. Inr kind))"

definition error_status :: "string \<Rightarrow> u16" where
  "error_status kind =
     (case map_of [(''invalid_request_error'', 400), (''authentication_error'', 401), (''permission_error'', 403),
                   (''not_found_error'', 404), (''request_too_large'', 413), (''rate_limit_error'', 429),
                   (''overloaded_error'', 529)] kind of
        Some n \<Rightarrow> n | None \<Rightarrow> 500)"

definition stream_error :: "jvalue \<Rightarrow> provider_error" where
  "stream_error event =
     (let field = (\<lambda>k. Option.bind (jget event ''error'') (\<lambda>e. get_str e k));
          kind = (case field ''type'' of Some k \<Rightarrow> k | None \<Rightarrow> ''api_error'')
      in PApi (error_status kind) kind
           (case field ''message'' of Some m \<Rightarrow> m | None \<Rightarrow> ''Claude streaming request failed'') None)"

subsection \<open>The decoder\<close>

datatype block_kind = KindText | KindThinking | KindTool | KindOther

record claude_decoder =
  cd_accum :: claude_accum
  cd_blocks :: "(u64, block_kind) hashmap"
  cd_started :: bool

definition claude_decoder_default :: claude_decoder where
  "claude_decoder_default = \<lparr>cd_accum = claude_accum_default, cd_blocks = [], cd_started = False\<rparr>"

definition block_kind_of :: "string option \<Rightarrow> block_kind" where
  "block_kind_of t =
     (if t = Some ''text'' then KindText else if t = Some ''thinking'' then KindThinking
      else if t = Some ''tool_use'' then KindTool else KindOther)"

definition delta_kind_of :: "string option \<Rightarrow> block_kind option" where
  "delta_kind_of t =
     (if t = Some ''text_delta'' then Some KindText
      else if t = Some ''thinking_delta'' \<or> t = Some ''signature_delta'' then Some KindThinking
      else if t = Some ''input_json_delta'' then Some KindTool else None)"

definition CONTENT_KINDS :: "string list" where
  "CONTENT_KINDS = [''content_block_start'', ''content_block_delta'', ''content_block_stop'', ''message_delta'', ''message_stop'']"

text \<open>The state of the wire blocks after an event of a known kind.\<close>

definition wire_step :: "string \<Rightarrow> jvalue \<Rightarrow> claude_decoder \<Rightarrow> provider_error + claude_decoder" where
  "wire_step kind event d =
     (if kind = ''content_block_start'' then
        try_then (req_index event) (\<lambda>index.
          if index \<in> set (keys (cd_blocks d)) \<or> length (cd_blocks d) \<ge> MAX_STREAM_OPEN_BLOCKS
          then Inl (decode_error ''duplicate or excessive Claude content blocks'')
          else Inr (d\<lparr>cd_blocks := AList.update index
                 (block_kind_of (Option.bind (jget event ''content_block'') (\<lambda>b. get_str b ''type''))) (cd_blocks d)\<rparr>))
      else if kind = ''content_block_delta'' then
        try_then (req_index event) (\<lambda>index.
        try_then (ok_or (map_of (cd_blocks d) index) (decode_error ''Claude delta for an unopened block'')) (\<lambda>b.
          case delta_kind_of (Option.bind (jget event ''delta'') (\<lambda>x. get_str x ''type'')) of
            Some expected \<Rightarrow>
              if expected \<noteq> b then Inl (decode_error ''Claude delta does not match its content block'') else Inr d
          | None \<Rightarrow> Inr d))
      else if kind = ''content_block_stop'' then
        try_then (req_index event) (\<lambda>index.
          if index \<notin> set (keys (cd_blocks d)) then Inl (decode_error ''Claude stop for an unopened block'')
          else Inr (d\<lparr>cd_blocks := AList.delete index (cd_blocks d)\<rparr>))
      else if kind = ''message_stop'' \<and>
          (cd_blocks d \<noteq> [] \<or> has_open_blocks (cd_accum d) \<or> ca_stop (cd_accum d) = None)
      then Inl (decode_error ''Claude message_stop before blocks and stop reason completed'')
      else Inr d)"

definition decoder_event :: "json_lib \<Rightarrow> jvalue \<Rightarrow> claude_decoder \<Rightarrow> provider_error + (stream_event list \<times> claude_decoder)" where
  "decoder_event lib event d =
     try_then (claude_validate event) (\<lambda>kind.
       if kind = ''error'' then Inl (stream_error event)
       else if kind = ''message_start'' \<and> cd_started d then Inl (decode_error ''duplicate Claude message_start'')
       else if kind \<in> set CONTENT_KINDS \<and> \<not> cd_started d then Inl (decode_error ''Claude event before message_start'')
       else if kind \<noteq> ''message_start'' \<and> kind \<notin> set CONTENT_KINDS then Inr ([], d)
       else
         let d = d\<lparr>cd_started := True\<rparr>
         in try_then (wire_step kind event d) (\<lambda>d.
            try_then (claude_push lib event (cd_accum d)) (\<lambda>(evs, a). Inr (evs, d\<lparr>cd_accum := a\<rparr>))))"

definition claude_frame :: "json_lib \<Rightarrow> (string \<Rightarrow> nat \<times> nat) \<Rightarrow> sse_frame \<Rightarrow> provider_error + jvalue" where
  "claude_frame lib locate f =
     (case jl_parse lib (fr_data f) of
        Inl e \<Rightarrow>
          (let (line, column) = locate (fr_data f)
           in Inl (decode_error (''invalid Claude SSE JSON at line '' @ show_nat line @ '' column '' @ show_nat column)))
      | Inr v \<Rightarrow>
          (case fr_event f of
             Some name \<Rightarrow>
               if get_str v ''type'' \<noteq> Some name
               then Inl (decode_error ''Claude SSE event name does not match its data type'') else Inr v
           | None \<Rightarrow> Inr v))"

definition claude_handler ::
  "json_lib \<Rightarrow> (string \<Rightarrow> nat \<times> nat) \<Rightarrow> sse_frame \<Rightarrow> claude_decoder \<Rightarrow> provider_error + (stream_event list \<times> claude_decoder)" where
  "claude_handler lib locate frame d = try_then (claude_frame lib locate frame) (\<lambda>v. decoder_event lib v d)"

definition claude_decode :: "json_lib \<Rightarrow> (string \<Rightarrow> nat \<times> nat) \<Rightarrow> chunk list \<Rightarrow> (provider_error + stream_event) list" where
  "claude_decode lib locate chunks =
     drive (framed (claude_handler lib locate)) ''Claude stream ended before message_stop'' chunks
       (framer_default, claude_decoder_default)"

end
