(* ===== verification/ClaudeProps.thy ===== *)
theory ClaudeProps
  imports ClaudeStream
begin

text \<open>
  Properties of the Claude decoder (\<^verbatim>\<open>ai-sdk/src/provider/claude/\<close>): how a body is cut into chunks is not
  observable, what the decoder retains is bounded, and the complete tool blocks it releases are exactly
  the calls it releases, so that the agent never refuses them for not matching.
\<close>

subsection \<open>Chunks\<close>

interpretation claude: line_decoder "framed (claude_handler lib locate)" for lib locate
  by (rule framed_line_decoder)

text \<open>C27: The network may cut a response anywhere, inside a line, a CRLF or a character: two sequences of chunks
  with the same bytes decode to the same events and the same failure.
\<close>

theorem claude_chunking_irrelevant:
  assumes "concat cs = concat cs'"
  shows "claude_decode lib locate (map Bytes cs) = claude_decode lib locate (map Bytes cs')"
proof -
  have "claude_decode lib locate (map Bytes cs) = claude_decode lib locate [Bytes (concat cs)]" for cs
    using claude.chunking [of lib locate _ cs "[]"] by (simp add: claude_decode_def del: drive.simps)
  from this [of cs] this [of cs'] assms show ?thesis by simp
qed

subsection \<open>Limits\<close>

definition open_total :: "json_lib \<Rightarrow> (u64, claude_block option) hashmap \<Rightarrow> nat" where
  "open_total lib m = sum_list (map (open_bytes lib \<circ> snd) m)"

definition claude_inv :: "json_lib \<Rightarrow> claude_decoder \<Rightarrow> bool" where
  "claude_inv lib d \<longleftrightarrow>
     (let a = cd_accum d
      in hm_wf (ca_blocks a) \<and> hm_wf (cd_blocks d) \<and> dom (map_of (ca_blocks a)) = dom (map_of (cd_blocks d)) \<and>
         dom (map_of (cd_blocks d)) \<subseteq> set (ca_seen a) \<and> distinct (ca_seen a) \<and>
         length (ca_seen a) \<le> MAX_STREAM_RESPONSE_BLOCKS \<and> length (ca_blocks a) \<le> MAX_STREAM_OPEN_BLOCKS \<and>
         open_total lib (ca_blocks a) \<le> ca_bytes a \<and> ca_bytes a \<le> MAX_STREAM_RESPONSE_BYTES)"

lemma open_total_update_new: "k \<notin> set (keys m) \<Longrightarrow> open_total lib (AList.update k b m) = open_total lib m + open_bytes lib b"
  by (induction m) (auto simp: open_total_def)

lemma open_total_update_old:
  "hm_wf m \<Longrightarrow> map_of m k = Some b \<Longrightarrow>
   open_total lib (AList.update k b' m) + open_bytes lib b = open_total lib m + open_bytes lib b'"
proof (induction m)
  case (Cons x m)
  then show ?case by (cases "fst x = k") (auto simp: open_total_def)
qed simp

lemma open_total_delete:
  "hm_wf m \<Longrightarrow> map_of m k = Some b \<Longrightarrow> open_total lib (AList.delete k m) + open_bytes lib b = open_total lib m"
proof (induction m)
  case (Cons x m)
  have "AList.delete k m = m" if "k \<notin> set (keys m)" using that by (induction m) (auto simp: AList.delete_eq)
  with Cons show ?case by (cases "fst x = k") (auto simp: open_total_def AList.delete_eq)
qed simp

lemma update_new_length: "k \<notin> set (keys m) \<Longrightarrow> length (AList.update k v m) = Suc (length m)"
  by (induction m) auto

lemma update_old_keys: "k \<in> set (keys m) \<Longrightarrow> keys (AList.update k v m) = keys m"
  by (induction m) auto

lemma delete_length: "length (AList.delete k m) \<le> length m"
  by (simp add: AList.delete_eq)

lemma usize_add_le: "usize_add x y \<le> MAX_STREAM_RESPONSE_BYTES \<Longrightarrow> usize_add x y = x + y"
  by (rule usize_add_small)

lemma usize_add_max: "usize_add x y \<le> x + y"
  by (simp add: usize_add_def)

lemma reserve_Inr:
  "reserve current removed added tot = Inr tot' \<Longrightarrow>
   tot' = tot - removed + added \<and> tot' \<le> MAX_STREAM_RESPONSE_BYTES"
  using usize_add_le by (auto simp: reserve_def Let_def not_less split: if_splits)

lemma usize_add_extend: "usize_add x (y + z) \<le> usize_add x y + z" "usize_add (x + z) y \<le> usize_add x y + z"
  by (simp_all add: usize_add_def)

lemma usize_add_0 [simp]: "usize_add x 0 = min x (2 ^ 64 - 1)"
  by (simp add: usize_add_def)

text \<open>A delta adds to the block no more than it adds to the total.\<close>

lemma block_delta_bytes:
  assumes "block_delta lib delta b tot = Inr (evs, b', tot')" "claude_block_bytes lib b \<le> tot" "tot \<le> MAX_STREAM_RESPONSE_BYTES"
  shows "claude_block_bytes lib b' + tot \<le> tot' + claude_block_bytes lib b \<and> tot' \<le> MAX_STREAM_RESPONSE_BYTES"
proof (cases b)
  case (BText t)
  then show ?thesis
    using assms by (auto simp: block_delta_def Let_def try_then_Inr dest!: reserve_Inr split: if_splits)
next
  case (BThinking t s)
  from assms(1) consider (same) "b' = b" "tot' = tot"
    | (think) part where "b' = BThinking (t @ part) s" "reserve (claude_block_bytes lib b) 0 (length part) tot = Inr tot'"
    | (sign) part where "b' = BThinking t (Some ((case s of Some s \<Rightarrow> s | None \<Rightarrow> []) @ part))"
        "reserve (claude_block_bytes lib b) 0 (length part) tot = Inr tot'"
    unfolding BThinking by (auto simp: block_delta_def Let_def try_then_Inr split: if_splits)
  then show ?thesis
  proof cases
    case same
    with assms(3) show ?thesis by simp
  next
    case (think part)
    with reserve_Inr [OF think(2)]
      usize_add_extend(2) [of "length t" "length part" "case s of None \<Rightarrow> 0 | Some x \<Rightarrow> length x"]
    show ?thesis by (simp add: BThinking)
  next
    case (sign part)
    from reserve_Inr [OF sign(2)] usize_add_extend(1) [of "length t" "case s of Some s \<Rightarrow> length s | None \<Rightarrow> 0" "length part"]
    show ?thesis by (cases s) (simp_all add: BThinking sign(1))
  qed
next
  case (BRedacted d)
  then show ?thesis using assms by (auto simp: block_delta_def Let_def try_then_Inr)
next
  case (BTool i name initial json)
  have small: "claude_block_bytes lib b \<le> MAX_STREAM_RESPONSE_BYTES" using assms(2,3) by simp
  show ?thesis
  proof (cases json)
    case None
    with assms small show ?thesis unfolding BTool
      by (cases initial)
         (auto simp: block_delta_def Let_def try_then_Inr usize_add_def MAX_STREAM_RESPONSE_BYTES_def dest!: reserve_Inr
           split: if_splits)
  next
    case (Some j)
    with assms small show ?thesis unfolding BTool
      by (auto simp: block_delta_def Let_def try_then_Inr usize_add_def MAX_STREAM_RESPONSE_BYTES_def dest!: reserve_Inr
           split: if_splits)
  qed
qed

subsection \<open>What an event does\<close>

lemma claude_start_Inr:
  assumes "claude_start lib ev a = Inr (evs, a')"
  obtains index b content where "get_u64 ev ''index'' = Some index" "jget ev ''content_block'' = Some content"
    "block_start content = Inr b" "index \<notin> set (ca_seen a)" "length (ca_seen a) < MAX_STREAM_RESPONSE_BLOCKS"
    "length (ca_blocks a) < MAX_STREAM_OPEN_BLOCKS" "ca_bytes a + open_bytes lib b \<le> MAX_STREAM_RESPONSE_BYTES"
    "evs = (case b of None \<Rightarrow> [] | Some x \<Rightarrow> initial_events x)"
    "a' = a\<lparr>ca_seen := ca_seen a @ [index], ca_bytes := ca_bytes a + open_bytes lib b,
      ca_blocks := AList.update index b (ca_blocks a)\<rparr>"
proof -
  from assms obtain index content b where *: "get_u64 ev ''index'' = Some index"
      "\<not> (index \<in> set (ca_seen a) \<or> length (ca_seen a) \<ge> MAX_STREAM_RESPONSE_BLOCKS \<or>
          length (ca_blocks a) \<ge> MAX_STREAM_OPEN_BLOCKS)"
      "jget ev ''content_block'' = Some content" "block_start content = Inr b"
      "usize_add (ca_bytes a) (open_bytes lib b) \<le> MAX_STREAM_RESPONSE_BYTES"
      "evs = (case b of None \<Rightarrow> [] | Some x \<Rightarrow> initial_events x)"
      "a' = a\<lparr>ca_seen := ca_seen a @ [index], ca_bytes := ca_bytes a + open_bytes lib b,
        ca_blocks := AList.update index b (ca_blocks a)\<rparr>"
    by (auto simp: claude_start_def try_then_Inr Let_def split: if_splits)
  with usize_add_le [OF *(5)] show ?thesis by (intro that [of index content b]) auto
qed

lemma claude_delta_Inr:
  assumes "claude_delta lib ev a = Inr (evs, a')"
  obtains (ignored) "evs = []" "a' = a"
  | (block) index b delta b' bytes where "map_of (ca_blocks a) index = Some (Some b)"
      "block_delta lib delta b (ca_bytes a) = Inr (evs, b', bytes)"
      "a' = a\<lparr>ca_bytes := bytes, ca_blocks := AList.update index (Some b') (ca_blocks a)\<rparr>"
proof -
  obtain index where i: "get_u64 ev ''index'' = Some index"
    using assms by (auto simp: claude_delta_def try_then_Inr)
  show ?thesis
  proof (cases "\<exists>b. map_of (ca_blocks a) index = Some (Some b)")
    case True
    then obtain b where b: "map_of (ca_blocks a) index = Some (Some b)" ..
    with assms i obtain delta b' bytes where "block_delta lib delta b (ca_bytes a) = Inr (evs, b', bytes)"
      "a' = a\<lparr>ca_bytes := bytes, ca_blocks := AList.update index (Some b') (ca_blocks a)\<rparr>"
      by (auto simp: claude_delta_def try_then_Inr)
    with b show ?thesis by (rule block)
  next
    case False
    with assms i have "evs = [] \<and> a' = a"
      by (cases "map_of (ca_blocks a) index") (auto simp: claude_delta_def split: option.splits)
    then show ?thesis using ignored by blast
  qed
qed

lemma claude_finish_Inr:
  assumes "claude_finish lib ev a = Inr (evs, a')"
  obtains (ignored) index where "get_u64 ev ''index'' = Some index" "evs = []"
      "a' = a\<lparr>ca_blocks := AList.delete index (ca_blocks a)\<rparr>"
  | (block) index b content call where "get_u64 ev ''index'' = Some index" "map_of (ca_blocks a) index = Some (Some b)"
      "block_finish lib b = Inr (content, call)"
      "ca_bytes a - claude_block_bytes lib b + assistant_content_bytes (jl_print lib) content \<le> MAX_STREAM_RESPONSE_BYTES"
      "evs = AssistantBlock index content # (case call of Some c \<Rightarrow> [c] | None \<Rightarrow> [])"
      "a' = a\<lparr>ca_blocks := AList.delete index (ca_blocks a),
        ca_bytes := ca_bytes a - claude_block_bytes lib b + assistant_content_bytes (jl_print lib) content\<rparr>"
proof -
  obtain index where i: "get_u64 ev ''index'' = Some index"
    using assms by (auto simp: claude_finish_def try_then_Inr)
  show ?thesis
  proof (cases "map_of (ca_blocks a) index")
    case None
    with assms i show ?thesis by (intro ignored [of index]) (auto simp: claude_finish_def Let_def)
  next
    case (Some x)
    show ?thesis
    proof (cases x)
      case None
      with assms i Some show ?thesis by (intro ignored [of index]) (auto simp: claude_finish_def Let_def)
    next
      case (Some b)
      with assms i \<open>map_of _ _ = _\<close> obtain content call where f: "block_finish lib b = Inr (content, call)"
        by (auto simp: claude_finish_def Let_def try_then_Inr)
      let ?after = "assistant_content_bytes (jl_print lib) content"
      from f assms i Some \<open>map_of _ _ = _\<close>
      have r: "usize_add (ca_bytes a - claude_block_bytes lib b) ?after \<le> MAX_STREAM_RESPONSE_BYTES"
        and e: "evs = AssistantBlock index content # (case call of Some c \<Rightarrow> [c] | None \<Rightarrow> [])"
          "a' = a\<lparr>ca_blocks := AList.delete index (ca_blocks a),
             ca_bytes := usize_add (ca_bytes a - claude_block_bytes lib b) ?after\<rparr>"
        by (auto simp: claude_finish_def Let_def split: if_splits)
      with usize_add_le [OF r] i f Some \<open>map_of _ _ = _\<close> show ?thesis
        by (intro block [of index b content call]) auto
    qed
  qed
qed

text \<open>The messages around the blocks keep them.\<close>

definition same_blocks :: "claude_accum \<Rightarrow> claude_accum \<Rightarrow> bool" where
  "same_blocks a a' \<longleftrightarrow> ca_blocks a' = ca_blocks a \<and> ca_seen a' = ca_seen a \<and> ca_bytes a' = ca_bytes a"

lemma message_start_blocks: "message_start ev a = Inr (evs, a') \<Longrightarrow> same_blocks a a' \<and> evs = [Start (ca_usage a')]"
  by (auto simp: message_start_def try_then_Inr same_blocks_def split: option.splits)

lemma message_delta_blocks: "message_delta ev a = Inr (evs, a') \<Longrightarrow> same_blocks a a' \<and> evs = [UsageEvent (ca_usage a')]"
  by (auto simp: message_delta_def try_then_Inr Let_def same_blocks_def split: if_splits)

lemma message_stop_Inr:
  "message_stop a = Inr (evs, a') \<Longrightarrow>
   a' = a \<and> ca_has_input a \<and> ca_has_final a \<and> ca_blocks a = [] \<and> (\<exists>stop. ca_stop a = Some stop \<and> evs = [End stop (ca_usage a)])"
  by (auto simp: message_stop_def try_then_Inr has_open_blocks_def split: if_splits)

lemma claude_inv_same:
  "claude_inv lib d \<Longrightarrow> same_blocks (cd_accum d) a \<Longrightarrow> claude_inv lib (d\<lparr>cd_accum := a, cd_started := s\<rparr>)"
  by (simp add: claude_inv_def same_blocks_def Let_def)

lemma start_inv:
  assumes inv: "claude_inv lib d" and w: "wire_step ''content_block_start'' ev d = Inr d1"
    and p: "claude_start lib ev (cd_accum d) = Inr (evs, a)"
  shows "claude_inv lib (d1\<lparr>cd_accum := a\<rparr>)"
  using p
proof (cases rule: claude_start_Inr)
  case (1 index b content)
  have "index \<notin> dom (map_of (ca_blocks (cd_accum d)))" using inv 1(4) by (auto simp: claude_inv_def Let_def)
  then have k: "index \<notin> set (keys (ca_blocks (cd_accum d)))" by (simp add: dom_map_of_conv_image_fst)
  from w 1(1) obtain kind where d1: "d1 = d\<lparr>cd_blocks := AList.update index kind (cd_blocks d)\<rparr>"
    by (auto simp: wire_step_def req_index_def split: if_splits)
  show ?thesis
    unfolding d1 1(9) using inv 1(4-7)
    by (simp add: claude_inv_def Let_def update_new_length [OF k] open_total_update_new [OF k] subset_insertI2)
qed

lemma open_le_total: "map_of m k = Some b \<Longrightarrow> open_bytes lib b \<le> open_total lib m"
  by (induction m) (auto simp: open_total_def split: if_splits)

lemma delta_inv:
  assumes inv: "claude_inv lib d" and p: "claude_delta lib ev (cd_accum d) = Inr (evs, a)"
  shows "claude_inv lib (d\<lparr>cd_accum := a\<rparr>)"
  using p
proof (cases rule: claude_delta_Inr)
  case ignored
  with inv show ?thesis by simp
next
  case (block index b delta b' bytes)
  let ?m = "ca_blocks (cd_accum d)"
  have k: "index \<in> set (keys ?m)" using block(1) by (metis map_of_Some_keys)
  have wf: "hm_wf ?m" and le: "open_total lib ?m \<le> ca_bytes (cd_accum d)"
    and top: "ca_bytes (cd_accum d) \<le> MAX_STREAM_RESPONSE_BYTES"
    using inv by (auto simp: claude_inv_def Let_def)
  from open_le_total [OF block(1), of lib] le have "claude_block_bytes lib b \<le> ca_bytes (cd_accum d)"
    by (simp add: open_bytes_def)
  from block_delta_bytes [OF block(2) this top]
  have b: "claude_block_bytes lib b' + ca_bytes (cd_accum d) \<le> bytes + claude_block_bytes lib b"
    "bytes \<le> MAX_STREAM_RESPONSE_BYTES" by auto
  have "open_total lib (AList.update index (Some b') ?m) \<le> bytes"
    using open_total_update_old [OF wf block(1), of lib "Some b'"] b(1) le by (simp add: open_bytes_def)
  moreover have "length (AList.update index (Some b') ?m) = length ?m"
    using update_old_keys [OF k, of "Some b'"] by (metis length_map)
  moreover have "index \<in> dom (map_of ?m)" using block(1) by (rule domI)
  then have "index \<in> dom (map_of (cd_blocks d))" using inv by (simp add: claude_inv_def Let_def)
  ultimately show ?thesis
    unfolding block(3) using inv b(2)
    by (simp add: claude_inv_def Let_def insert_absorb)
qed

lemma finish_inv:
  assumes inv: "claude_inv lib d" and w: "wire_step ''content_block_stop'' ev d = Inr d1"
    and p: "claude_finish lib ev (cd_accum d) = Inr (evs, a)"
  shows "claude_inv lib (d1\<lparr>cd_accum := a\<rparr>)"
proof -
  let ?m = "ca_blocks (cd_accum d)"
  obtain index where i: "get_u64 ev ''index'' = Some index" using p by (rule claude_finish_Inr) auto
  from w i have d1: "d1 = d\<lparr>cd_blocks := AList.delete index (cd_blocks d)\<rparr>" "index \<in> set (keys (cd_blocks d))"
    by (auto simp: wire_step_def req_index_def split: if_splits)
  then have "index \<in> dom (map_of (cd_blocks d))" by (simp add: dom_map_of_conv_image_fst)
  then have "index \<in> dom (map_of ?m)" using inv by (simp add: claude_inv_def Let_def)
  then obtain b where b: "map_of ?m index = Some b" by blast
  have wf: "hm_wf ?m" and le: "open_total lib ?m \<le> ca_bytes (cd_accum d)" using inv by (auto simp: claude_inv_def Let_def)
  note del = open_total_delete [OF wf b, of lib]
  have "\<exists>n. a = (cd_accum d)\<lparr>ca_blocks := AList.delete index ?m, ca_bytes := n\<rparr> \<and> n \<le> MAX_STREAM_RESPONSE_BYTES \<and>
      open_total lib (AList.delete index ?m) \<le> n"
    using p
  proof (cases rule: claude_finish_Inr)
    case (ignored index')
    with i have "a = (cd_accum d)\<lparr>ca_blocks := AList.delete index ?m, ca_bytes := ca_bytes (cd_accum d)\<rparr>" by simp
    with del le inv show ?thesis by (intro exI [of _ "ca_bytes (cd_accum d)"]) (auto simp: claude_inv_def Let_def)
  next
    case (block index' b' content call)
    with i b have "b = Some b'" "index' = index" by auto
    with block del le show ?thesis by (intro exI) (auto simp: open_bytes_def)
  qed
  then obtain n where a: "a = (cd_accum d)\<lparr>ca_blocks := AList.delete index ?m, ca_bytes := n\<rparr>"
    and n: "n \<le> MAX_STREAM_RESPONSE_BYTES" "open_total lib (AList.delete index ?m) \<le> n" by auto
  show ?thesis
    unfolding d1(1) a using inv n delete_length [of index ?m]
    by (auto simp: claude_inv_def Let_def)
qed

lemma claude_validate_kind: "claude_validate ev = Inr kind \<Longrightarrow> get_str ev ''type'' = Some kind"
  by (auto simp: claude_validate_def req_text_def try_then_Inr split: if_splits)

lemma wire_step_accum: "wire_step kind ev d = Inr d1 \<Longrightarrow> cd_accum d1 = cd_accum d"
  by (auto simp: wire_step_def try_then_Inr split: if_splits option.splits)

lemma wire_step_same:
  "wire_step kind ev d = Inr d1 \<Longrightarrow> kind \<noteq> ''content_block_start'' \<Longrightarrow> kind \<noteq> ''content_block_stop'' \<Longrightarrow> d1 = d"
  by (auto simp: wire_step_def try_then_Inr split: if_splits option.splits)

lemma wire_step_stopped: "wire_step ''message_stop'' ev d = Inr d1 \<Longrightarrow> cd_blocks d = []"
  by (auto simp: wire_step_def split: if_splits)

text \<open>An accepted event is of an unknown kind, or one of the six operations ran after its wire step.\<close>

lemma decoder_event_Inr:
  assumes "decoder_event lib ev d = Inr (evs, d')"
  obtains (other) "evs = []" "d' = d"
  | (message_start) a where "message_start ev (cd_accum d) = Inr (evs, a)" "d' = d\<lparr>cd_accum := a, cd_started := True\<rparr>"
  | (start) d1 a where "cd_started d" "wire_step ''content_block_start'' ev d = Inr d1"
      "claude_start lib ev (cd_accum d) = Inr (evs, a)" "d' = d1\<lparr>cd_accum := a\<rparr>"
  | (delta) a where "cd_started d" "claude_delta lib ev (cd_accum d) = Inr (evs, a)" "d' = d\<lparr>cd_accum := a\<rparr>"
  | (stop) d1 a where "cd_started d" "wire_step ''content_block_stop'' ev d = Inr d1"
      "claude_finish lib ev (cd_accum d) = Inr (evs, a)" "d' = d1\<lparr>cd_accum := a\<rparr>"
  | (message_delta) a where "cd_started d" "message_delta ev (cd_accum d) = Inr (evs, a)" "d' = d\<lparr>cd_accum := a\<rparr>"
  | (message_stop) "cd_started d" "message_stop (cd_accum d) = Inr (evs, cd_accum d)" "d' = d" "cd_blocks d = []"
proof -
  obtain kind where k: "claude_validate ev = Inr kind" using assms by (auto simp: decoder_event_def try_then_Inr)
  note t = claude_validate_kind [OF k]
  show ?thesis
  proof (cases "kind = ''message_start'' \<or> kind \<in> set CONTENT_KINDS")
    case False
    with assms k have "evs = [] \<and> d' = d" by (auto simp: decoder_event_def split: if_splits)
    then show ?thesis using other by blast
  next
    case True
    let ?d = "d\<lparr>cd_started := True\<rparr>"
    have e: "kind \<noteq> ''error''" "\<not> (kind = ''message_start'' \<and> cd_started d)" "\<not> (kind \<in> set CONTENT_KINDS \<and> \<not> cd_started d)"
      using assms k by (auto simp: decoder_event_def split: if_splits)
    have s: "kind \<noteq> ''message_start'' \<longrightarrow> cd_started d" using True e(3) by blast
    have "decoder_event lib ev d = try_then (wire_step kind ev ?d)
        (\<lambda>d. try_then (claude_push lib ev (cd_accum d)) (\<lambda>(evs, a). Inr (evs, d\<lparr>cd_accum := a\<rparr>)))"
    proof -
      have "\<not> (kind \<noteq> ''message_start'' \<and> kind \<notin> set CONTENT_KINDS)" using True by blast
      with e k show ?thesis by (simp only: decoder_event_def Let_def try_then_simps if_False simp_thms)
    qed
    with assms have "try_then (wire_step kind ev ?d)
        (\<lambda>d. try_then (claude_push lib ev (cd_accum d)) (\<lambda>(evs, a). Inr (evs, d\<lparr>cd_accum := a\<rparr>))) = Inr (evs, d')" by simp
    then obtain d1 a where w: "wire_step kind ev ?d = Inr d1" and p: "claude_push lib ev (cd_accum d1) = Inr (evs, a)"
      and d': "d' = d1\<lparr>cd_accum := a\<rparr>"
      by (auto simp: try_then_Inr)
    have same: "?d = d" if "cd_started d" using that by simp
    from True show ?thesis
      unfolding CONTENT_KINDS_def list.set insert_iff empty_iff
    proof (elim disjE FalseE)
      assume 1: "kind = ''message_start''"
      with w have "d1 = ?d" using wire_step_same by auto
      with 1 p t d' show ?thesis by (intro message_start [of a]) (simp_all add: claude_push_def Let_def)
    next
      assume 2: "kind = ''content_block_start''"
      with s w same have c: "cd_started d" "wire_step ''content_block_start'' ev d = Inr d1" by simp_all
      then have "cd_accum d1 = cd_accum d" by (metis wire_step_accum)
      with 2 p t d' c show ?thesis by (intro start [of d1 a]) (simp_all add: claude_push_def Let_def split: if_splits)
    next
      assume 3: "kind = ''content_block_delta''"
      with s w same have "cd_started d" "d1 = d" using wire_step_same by auto
      with 3 p t d' show ?thesis by (intro delta [of a]) (simp_all add: claude_push_def Let_def split: if_splits)
    next
      assume 4: "kind = ''content_block_stop''"
      with s w same have c: "cd_started d" "wire_step ''content_block_stop'' ev d = Inr d1" by simp_all
      then have "cd_accum d1 = cd_accum d" by (metis wire_step_accum)
      with 4 p t d' c show ?thesis by (intro stop [of d1 a]) (simp_all add: claude_push_def Let_def split: if_splits)
    next
      assume 5: "kind = ''message_delta''"
      with s w same have "cd_started d" "d1 = d" using wire_step_same by auto
      with 5 p t d' show ?thesis by (intro message_delta [of a]) (simp_all add: claude_push_def Let_def)
    next
      assume 6: "kind = ''message_stop''"
      with s w same have c: "cd_started d" "d1 = d" "cd_blocks d = []" using wire_step_same wire_step_stopped by auto
      with 6 p t have "message_stop (cd_accum d) = Inr (evs, a)" by (simp add: claude_push_def Let_def)
      moreover from message_stop_Inr [OF this] have "a = cd_accum d" by simp
      ultimately show ?thesis using c d' by (intro message_stop) simp_all
    qed
  qed
qed

lemma decoder_event_inv:
  assumes e: "decoder_event lib ev d = Inr (evs, d')" and inv: "claude_inv lib d"
  shows "claude_inv lib d'"
  using e
proof (cases rule: decoder_event_Inr)
  case (message_start a)
  with inv claude_inv_same [of lib d a True] message_start_blocks [OF message_start(1)] message_start(2) show ?thesis by simp
next
  case (start d1 a)
  with inv show ?thesis using start_inv by blast
next
  case (delta a)
  with inv show ?thesis using delta_inv by blast
next
  case (stop d1 a)
  with inv show ?thesis using finish_inv by blast
next
  case (message_delta a)
  from inv message_delta_blocks [OF message_delta(2)] show ?thesis
    unfolding message_delta(3) by (simp add: claude_inv_def same_blocks_def Let_def)
qed (use inv in simp_all)

text \<open>The events of a response, in order.\<close>

fun decoder_run :: "json_lib \<Rightarrow> jvalue list \<Rightarrow> claude_decoder \<Rightarrow> provider_error + (stream_event list \<times> claude_decoder)" where
  "decoder_run lib [] d = Inr ([], d)"
| "decoder_run lib (v # vs) d =
     try_then (decoder_event lib v d) (\<lambda>(evs, d').
     try_then (decoder_run lib vs d') (\<lambda>(rest, d''). Inr (evs @ rest, d'')))"

lemma decoder_run_inv: "decoder_run lib vs d = Inr (evs, d') \<Longrightarrow> claude_inv lib d \<Longrightarrow> claude_inv lib d'"
  by (induction vs arbitrary: d evs) (auto simp: try_then_Inr dest: decoder_event_inv)

lemma claude_inv_default: "claude_inv lib claude_decoder_default"
  by (simp add: claude_inv_def claude_decoder_default_def claude_accum_default_def open_total_def)

text \<open>Whatever the provider sends, the decoder has at most 64 open blocks and has seen at most 1024; the
  blocks its wire check has open are those its accumulator has open; and the content it retains in open
  blocks is counted, at most 8 MiB.
\<close>

theorem claude_decoder_bounded:
  assumes "decoder_run lib vs claude_decoder_default = Inr (evs, d)"
  shows "length (cd_blocks d) \<le> 64 \<and> length (ca_seen (cd_accum d)) \<le> 1024 \<and>
    dom (map_of (ca_blocks (cd_accum d))) = dom (map_of (cd_blocks d)) \<and>
    open_total lib (ca_blocks (cd_accum d)) \<le> ca_bytes (cd_accum d) \<and> ca_bytes (cd_accum d) \<le> 8 * 1024 * 1024"
proof -
  have inv: "claude_inv lib d" by (rule decoder_run_inv [OF assms claude_inv_default])
  let ?m = "ca_blocks (cd_accum d)"
  have "card (set (keys ?m)) = length ?m" "card (set (keys (cd_blocks d))) = length (cd_blocks d)"
    using inv distinct_card [of "keys ?m"] distinct_card [of "keys (cd_blocks d)"]
    by (simp_all add: claude_inv_def Let_def del: set_map)
  then have "length (cd_blocks d) = length ?m"
    using inv by (simp add: claude_inv_def Let_def dom_map_of_conv_image_fst)
  with inv show ?thesis
    by (simp add: claude_inv_def Let_def MAX_STREAM_OPEN_BLOCKS_def MAX_STREAM_RESPONSE_BLOCKS_def
        MAX_STREAM_RESPONSE_BYTES_def)
qed

end
