(* ===== verification/JsonExample.thy ===== *)
theory JsonExample
  imports AgentAccum
begin

text \<open>
  A concrete printer and parser of JSON values that are inverse to each other, for the witnesses of
  properties that rely on that of the JSON package. Texts are prefix free: every character of a string
  is marked, and every list is closed.
\<close>

fun enc_str :: "string \<Rightarrow> string" where
  "enc_str [] = ''.''"
| "enc_str (c # s) = CHR ''+'' # c # enc_str s"

fun dec_str :: "string \<Rightarrow> (string \<times> string) option" where
  "dec_str (d # c # s) =
     (if d = CHR ''.'' then Some ([], c # s) else map_option (\<lambda>(t, r). (c # t, r)) (dec_str s))"
| "dec_str [d] = Some ([], [])"
| "dec_str [] = None"

lemma dec_enc_str [simp]: "dec_str (enc_str s @ r) = Some (s, r)"
proof (induction s)
  case Nil
  then show ?case by (cases r) simp_all
qed simp

fun enc :: "jvalue \<Rightarrow> string" where
  "enc JNull = ''n''"
| "enc (JBool b) = (if b then ''t'' else ''f'')"
| "enc (JNumber s) = CHR ''#'' # enc_str s"
| "enc (JString s) = CHR ''s'' # enc_str s"
| "enc (JArray vs) = CHR ''['' # concat (map (\<lambda>v. CHR '','' # enc v) vs) @ '']''"
| "enc (JObject kvs) = CHR ''{'' # concat (map (\<lambda>(k, v). CHR '','' # enc_str k @ enc v) kvs) @ ''}''"

fun dec :: "nat \<Rightarrow> string \<Rightarrow> (jvalue \<times> string) option"
  and dec_list :: "nat \<Rightarrow> string \<Rightarrow> (jvalue list \<times> string) option"
  and dec_members :: "nat \<Rightarrow> string \<Rightarrow> ((string \<times> jvalue) list \<times> string) option" where
  "dec (Suc n) (c # s) =
     (if c = CHR ''n'' then Some (JNull, s)
      else if c = CHR ''t'' then Some (JBool True, s)
      else if c = CHR ''f'' then Some (JBool False, s)
      else if c = CHR ''#'' then map_option (\<lambda>(t, r). (JNumber t, r)) (dec_str s)
      else if c = CHR ''s'' then map_option (\<lambda>(t, r). (JString t, r)) (dec_str s)
      else if c = CHR ''['' then map_option (\<lambda>(vs, r). (JArray vs, r)) (dec_list n s)
      else map_option (\<lambda>(kvs, r). (JObject kvs, r)) (dec_members n s))"
| "dec n s = None"
| "dec_list (Suc n) (c # s) =
     (if c = CHR '']'' then Some ([], s)
      else Option.bind (dec n s) (\<lambda>(v, s). map_option (\<lambda>(vs, r). (v # vs, r)) (dec_list n s)))"
| "dec_list n s = None"
| "dec_members (Suc n) (c # s) =
     (if c = CHR ''}'' then Some ([], s)
      else Option.bind (dec_str s) (\<lambda>(k, s). Option.bind (dec n s) (\<lambda>(v, s).
        map_option (\<lambda>(kvs, r). ((k, v) # kvs, r)) (dec_members n s))))"
| "dec_members n s = None"

lemma dec_enc_list:
  assumes "\<And>v n r. v \<in> set vs \<Longrightarrow> length (enc v) \<le> n \<Longrightarrow> dec n (enc v @ r) = Some (v, r)"
  shows "Suc (length (concat (map (\<lambda>v. CHR '','' # enc v) vs))) \<le> n \<Longrightarrow>
    dec_list n (concat (map (\<lambda>v. CHR '','' # enc v) vs) @ CHR '']'' # r) = Some (vs, r)"
  using assms
proof (induction vs arbitrary: n)
  case Nil
  then show ?case by (cases n) simp_all
next
  case (Cons v vs)
  obtain m where n: "n = Suc m" using Cons.prems(1) by (cases n) auto
  have "dec m (enc v @ concat (map (\<lambda>v. CHR '','' # enc v) vs) @ CHR '']'' # r) =
      Some (v, concat (map (\<lambda>v. CHR '','' # enc v) vs) @ CHR '']'' # r)"
    using Cons.prems n by auto
  moreover have "dec_list m (concat (map (\<lambda>v. CHR '','' # enc v) vs) @ CHR '']'' # r) = Some (vs, r)"
    using Cons n by auto
  ultimately show ?case by (simp add: n)
qed

lemma dec_enc_members:
  assumes "\<And>v n r. v \<in> snd ` set kvs \<Longrightarrow> length (enc v) \<le> n \<Longrightarrow> dec n (enc v @ r) = Some (v, r)"
  shows "Suc (length (concat (map (\<lambda>(k, v). CHR '','' # enc_str k @ enc v) kvs))) \<le> n \<Longrightarrow>
    dec_members n (concat (map (\<lambda>(k, v). CHR '','' # enc_str k @ enc v) kvs) @ CHR ''}'' # r) = Some (kvs, r)"
  using assms
proof (induction kvs arbitrary: n)
  case Nil
  then show ?case by (cases n) simp_all
next
  case (Cons kv kvs)
  obtain k v where kv: "kv = (k, v)" by fastforce
  obtain m where n: "n = Suc m" using Cons.prems(1) by (cases n) auto
  let ?rest = "concat (map (\<lambda>(k, v). CHR '','' # enc_str k @ enc v) kvs) @ CHR ''}'' # r"
  have "dec m (enc v @ ?rest) = Some (v, ?rest)" using Cons.prems n kv by auto
  moreover have "dec_members m ?rest = Some (kvs, r)" using Cons n kv by auto
  ultimately show ?case by (simp add: n kv)
qed

lemma dec_enc: "length (enc v) \<le> n \<Longrightarrow> dec n (enc v @ r) = Some (v, r)"
proof (induction v arbitrary: n r)
  case (JArray vs)
  obtain m where n: "n = Suc m" using JArray.prems by (cases n) auto
  have "dec_list m (concat (map (\<lambda>v. CHR '','' # enc v) vs) @ CHR '']'' # r) = Some (vs, r)"
    using JArray n by (intro dec_enc_list) auto
  then show ?case by (simp add: n)
next
  case (JObject kvs)
  obtain m where n: "n = Suc m" using JObject.prems by (cases n) auto
  have "dec_members m (concat (map (\<lambda>(k, v). CHR '','' # enc_str k @ enc v) kvs) @ CHR ''}'' # r) = Some (kvs, r)"
    using JObject n by (intro dec_enc_members) (auto simp: snds.simps)
  then show ?case by (simp add: n)
qed (case_tac [!] n, auto split: if_splits)

definition plain_json :: json_lib where
  "plain_json =
     \<lparr>jl_parse = (\<lambda>s. case dec (length s) s of Some (v, []) \<Rightarrow> Inr v | _ \<Rightarrow> Inl ''expected value''), jl_print = enc\<rparr>"

lemma plain_json_roundtrip: "jl_parse plain_json (jl_print plain_json v) = Inr v"
  using dec_enc [of v "length (enc v)" "[]"] by (simp add: plain_json_def)

end
