(* ===== verification/ClaudeReplay.thy ===== *)
theory ClaudeReplay
  imports ClaudeProps JsonExample
begin

text \<open>
  The Claude decoder and the agent's accumulator together (\<^verbatim>\<open>ai-sdk/src/provider/claude/accum.rs\<close>,
  \<^verbatim>\<open>agent.rs\<close>): what the decoder releases is what the accumulator's checks want. Every complete tool
  block comes with its call, so the agent never finds a block without a call or a call without a block;
  the end of a response is released only when all its blocks are complete.
\<close>

fun block_use :: "assistant_content \<Rightarrow> (string \<times> string \<times> jvalue) list" where
  "block_use (AToolUse i name inp) = [(i, name, inp)]"
| "block_use _ = []"

fun released_block :: "stream_event \<Rightarrow> assistant_content list" where
  "released_block (AssistantBlock index content) = [content]"
| "released_block _ = []"

fun released_call :: "json_lib \<Rightarrow> stream_event \<Rightarrow> parsed_call list" where
  "released_call lib (ToolCall i name arguments) = [parsed_call_parse lib i name arguments]"
| "released_call lib _ = []"

definition use_call :: "string \<times> string \<times> jvalue \<Rightarrow> parsed_call" where
  "use_call = (\<lambda>(i, name, inp). \<lparr>pa_id = i, pa_name = name, pa_args = inp, pa_error = None\<rparr>)"

definition calls_of :: "assistant_content list \<Rightarrow> parsed_call list" where
  "calls_of bs = map use_call (concat (map block_use bs))"

lemma calls_of_simps [simp]:
  "calls_of [] = []" "calls_of (b # bs) = map use_call (block_use b) @ calls_of bs"
  "calls_of (bs @ cs) = calls_of bs @ calls_of cs"
  by (simp_all add: calls_of_def)

subsection \<open>What the decoder releases\<close>

definition releases_match :: "json_lib \<Rightarrow> stream_event list \<Rightarrow> bool" where
  "releases_match lib evs \<longleftrightarrow>
     concat (map (released_call lib) evs) = calls_of (concat (map released_block evs))"

lemma releases_match_append: "releases_match lib evs \<Longrightarrow> releases_match lib evs' \<Longrightarrow> releases_match lib (evs @ evs')"
  by (simp add: releases_match_def)

lemma releases_match_quiet:
  "\<forall>ev \<in> set evs. released_block ev = [] \<and> released_call lib ev = [] \<Longrightarrow> releases_match lib evs"
  by (induction evs) (auto simp: releases_match_def)

lemma finish_releases:
  assumes law: "\<And>v. jl_parse lib (jl_print lib v) = Inr v" and f: "block_finish lib b = Inr (content, call)"
  shows "releases_match lib (AssistantBlock index content # (case call of Some c \<Rightarrow> [c] | None \<Rightarrow> []))"
proof (cases b)
  case (BTool i name initial json)
  with f obtain v arguments where t: "tool_input lib initial json = Inr (v, arguments)"
    and c: "content = AToolUse i name v" "call = Some (ToolCall i name arguments)"
    by (auto simp: try_then_Inr)
  from t law have "jl_parse lib arguments = Inr v"
    by (auto simp: tool_input_def try_then_Inr split: option.splits sum.splits)
  then show ?thesis by (simp add: c releases_match_def parsed_call_parse_def use_call_def)
qed (use f in \<open>auto simp: releases_match_def\<close>)

lemma quiet_deltas:
  "block_delta lib delta b tot = Inr (evs, b', tot') \<Longrightarrow> releases_match lib evs"
  by (cases b) (auto simp: block_delta_def Let_def try_then_Inr releases_match_def split: if_splits)

lemma quiet_initial: "releases_match lib (initial_events b)"
  by (cases b rule: initial_events.cases) (auto simp: releases_match_def split: option.splits)

lemma decoder_event_releases:
  assumes law: "\<And>v. jl_parse lib (jl_print lib v) = Inr v" and e: "decoder_event lib ev d = Inr (evs, d')"
  shows "releases_match lib evs"
  using e
proof (cases rule: decoder_event_Inr)
  case (message_start a)
  from message_start_blocks [OF message_start(1)] show ?thesis by (auto simp: releases_match_def)
next
  case (start d1 a)
  from start(3) show ?thesis
    by (cases rule: claude_start_Inr) (auto simp: quiet_initial releases_match_quiet split: option.split)
next
  case (delta a)
  from delta(2) show ?thesis
    by (cases rule: claude_delta_Inr) (auto simp: releases_match_quiet intro: quiet_deltas)
next
  case (stop d1 a)
  from stop(3) show ?thesis
    by (cases rule: claude_finish_Inr) (auto simp: releases_match_quiet intro: finish_releases [OF law])
next
  case (message_delta a)
  from message_delta_blocks [OF message_delta(2)] show ?thesis by (auto simp: releases_match_def)
next
  case message_stop
  from message_stop_Inr [OF message_stop(2)] show ?thesis by (auto simp: releases_match_def)
qed (simp add: releases_match_quiet)

lemma decoder_run_releases:
  assumes law: "\<And>v. jl_parse lib (jl_print lib v) = Inr v"
  shows "decoder_run lib vs d = Inr (evs, d') \<Longrightarrow> releases_match lib evs"
proof (induction vs arbitrary: d evs)
  case (Cons v vs)
  then obtain evs1 d1 rest where "decoder_event lib v d = Inr (evs1, d1)" "decoder_run lib vs d1 = Inr (rest, d')"
    "evs = evs1 @ rest" by (auto simp: try_then_Inr)
  then show ?case using Cons.IH decoder_event_releases [OF law] by (auto intro: releases_match_append)
qed (simp add: releases_match_quiet)

subsection \<open>What the accumulator keeps of it\<close>

abbreviation feed :: "json_lib \<Rightarrow> stream_event list \<Rightarrow> step_accum \<Rightarrow> step_accum" where
  "feed lib evs acc \<equiv> fold (\<lambda>ev acc. fst (accum_apply lib ev acc :: step_accum \<times> unit agent_event option)) evs acc"

lemma accum_error_stays: "sa_protocol_error acc \<noteq> None \<Longrightarrow> sa_protocol_error (fst (accum_apply lib ev acc)) \<noteq> None"
  by (cases ev) (auto simp: accum_apply_def add_block_def Let_def)

lemma feed_error_stays: "sa_protocol_error acc \<noteq> None \<Longrightarrow> sa_protocol_error (feed lib evs acc) \<noteq> None"
proof (induction evs arbitrary: acc)
  case (Cons ev evs)
  from Cons.IH [OF accum_error_stays [OF Cons.prems]] show ?case by (simp only: fold_simps)
qed simp

lemma block_insert_mset:
  "k \<notin> fst ` set m \<Longrightarrow> image_mset snd (mset (block_insert k v m)) = add_mset v (image_mset snd (mset m))"
  by (induction k v m rule: block_insert.induct) auto

lemma accum_apply_kept:
  assumes "sa_protocol_error (fst (accum_apply lib ev acc)) = None"
  shows "sa_tool_calls (fst (accum_apply lib ev acc)) = sa_tool_calls acc @ released_call lib ev \<and>
    mset (map snd (sa_blocks (fst (accum_apply lib ev acc)))) = mset (map snd (sa_blocks acc)) + mset (released_block ev)"
  using assms
  by (cases ev) (auto simp: accum_apply_def add_block_def Let_def block_insert_mset split: if_splits)

lemma feed_kept:
  "sa_protocol_error (feed lib evs acc) = None \<Longrightarrow>
   sa_tool_calls (feed lib evs acc) = sa_tool_calls acc @ concat (map (released_call lib) evs) \<and>
   mset (map snd (sa_blocks (feed lib evs acc))) = mset (map snd (sa_blocks acc)) + mset (concat (map released_block evs))"
proof (induction evs arbitrary: acc)
  case (Cons ev evs)
  let ?acc = "fst (accum_apply lib ev acc :: step_accum \<times> unit agent_event option)"
  have "sa_protocol_error ?acc = None"
  proof (rule ccontr)
    assume "sa_protocol_error ?acc \<noteq> None"
    from feed_error_stays [OF this, of lib evs] Cons.prems show False by (simp only: fold_simps simp_thms)
  qed
  from accum_apply_kept [OF this] Cons.IH [of ?acc] Cons.prems show ?case by simp
qed simp

subsection \<open>Matching\<close>

lemma take_call_found: "c \<in> set cs \<Longrightarrow> P c \<Longrightarrow> \<exists>x rest. take_call P cs = Some (x, rest)"
  by (induction cs) auto

lemma matches_block_use: "matches_block i name inp c \<longleftrightarrow> c = use_call (i, name, inp)"
  by (cases c) (auto simp: matches_block_def use_call_def)

lemma match_blocks_complete:
  "mset calls = mset (calls_of bs) \<Longrightarrow> match_blocks bs calls ordered = (r, rest, out) \<Longrightarrow>
   r = None \<and> rest = [] \<or> r = Some ''provider returned duplicate tool call ids''"
proof (induction bs calls ordered rule: match_blocks.induct)
  case (2 i name inp bs calls ordered)
  have "use_call (i, name, inp) \<in> set calls" using 2(2) by (metis (no_types, lifting) block_use.simps(1) calls_of_simps(2) list.simps(8,9) list.set_intros(1) append_Cons set_mset_mset)
  then obtain c cs where t: "take_call (matches_block i name inp) calls = Some (c, cs)"
    using take_call_found [of _ calls "matches_block i name inp"] by (auto simp: matches_block_use)
  from take_call_Some [OF t] have c: "c = use_call (i, name, inp)" "mset calls = add_mset c (mset cs)"
    by (auto simp: matches_block_use)
  with 2(2) have "mset cs = mset (calls_of bs)" by simp
  with 2(1) [OF _ t refl] 2(3) t show ?case by (cases "\<exists>c \<in> set ordered. pa_id c = i") auto
qed auto

lemma calls_of_mset: "mset bs = mset cs \<Longrightarrow> mset (calls_of bs) = mset (calls_of cs)"
proof -
  have "mset (calls_of bs) = (\<Sum>b \<in># mset bs. mset (map use_call (block_use b)))" for bs by (induction bs) auto
  then show "mset bs = mset cs \<Longrightarrow> mset (calls_of bs) = mset (calls_of cs)" by simp
qed


subsection \<open>A response\<close>

definition typed :: "string \<Rightarrow> (string \<times> jvalue) list \<Rightarrow> jvalue" where
  "typed kind fs = JObject ((''type'', JString kind) # fs)"

definition demo_message_start :: jvalue where
  "demo_message_start = typed ''message_start''
     [(''message'', JObject [(''usage'', JObject [(''input_tokens'', JNumber ''3''), (''output_tokens'', JNumber ''0'')])])]"

definition demo_message_end :: "string \<Rightarrow> jvalue list" where
  "demo_message_end reason =
     [typed ''message_delta'' [(''delta'', JObject [(''stop_reason'', JString reason)]),
        (''usage'', JObject [(''output_tokens'', JNumber ''5'')])], typed ''message_stop'' []]"

definition demo_block :: "string \<Rightarrow> jvalue \<Rightarrow> jvalue list" where
  "demo_block n content =
     [typed ''content_block_start'' [(''index'', JNumber n), (''content_block'', content)],
      typed ''content_block_stop'' [(''index'', JNumber n)]]"

definition demo_tool_events :: "jvalue list" where
  "demo_tool_events =
     demo_message_start #
     demo_block ''0'' (typed ''tool_use'' [(''id'', JString ''c1''), (''name'', JString ''f''), (''input'', JObject [])]) @
     demo_message_end ''tool_use''"

definition demo_usage :: "u64 \<Rightarrow> usage" where
  "demo_usage n = usage_zero\<lparr>input_tokens := 3, output_tokens := n\<rparr>"

definition demo_released :: "stream_event list" where
  "demo_released =
     [Start (demo_usage 0), AssistantBlock 0 (AToolUse ''c1'' ''f'' (JObject [])), ToolCall ''c1'' ''f'' (enc (JObject [])),
      UsageEvent (demo_usage 5), End ToolUse (demo_usage 5)]"

lemma demo_numbers [simp]:
  "as_u64 (JNumber ''0'') = Some 0" "as_u64 (JNumber ''1'') = Some 1" "as_u64 (JNumber ''3'') = Some 3"
  "as_u64 (JNumber ''5'') = Some 5"
  by code_simp+

lemmas demo_event_defs = demo_message_start_def demo_message_end_def demo_block_def typed_def demo_usage_def
  claude_decoder_default_def claude_accum_default_def usage_zero_def

lemmas decode_defs = decoder_event_def claude_validate_def req_text_def req_object_def req_index_def get_str_def get_u64_def
  validate_message_start_def validate_block_start_def validate_message_delta_def then_ok_def usage_validate_def
  check_field_def check_group_def wire_count_def nested_count_def map_usage_def is_u64_def ensure_def
  CONTENT_KINDS_def wire_step_def claude_push_def Let_def

lemmas step_defs = message_start_def validate_totals_def u64_checked_add_def claude_start_def block_start_def block_field_def
  open_bytes_def usize_add_def MAX_STREAM_RESPONSE_BLOCKS_def MAX_STREAM_OPEN_BLOCKS_def MAX_STREAM_BLOCK_BYTES_def
  MAX_STREAM_RESPONSE_BYTES_def block_kind_of_def claude_finish_def tool_input_def plain_json_def message_delta_def
  has_open_blocks_def next_usage_def total_input_def sat_add_def map_stop_reason_def message_stop_def

lemma demo_tool_run: "map_sum id fst (decoder_run plain_json demo_tool_events claude_decoder_default) = Inr demo_released"
  by (simp add: demo_tool_events_def demo_released_def demo_event_defs decode_defs step_defs del: as_u64.simps(1))

lemma demo_tool_decoder:
  obtains d where "decoder_run plain_json demo_tool_events claude_decoder_default = Inr (demo_released, d)"
  using demo_tool_run by (cases "decoder_run plain_json demo_tool_events claude_decoder_default") auto

lemma demo_fed: "sa_protocol_error (feed plain_json demo_released step_accum_default) = None"
  by (simp add: demo_released_def accum_apply_def add_block_def step_accum_default_def Let_def usize_add_def
      MAX_STREAM_BLOCK_BYTES_def MAX_STREAM_RESPONSE_BYTES_def MAX_STREAM_RESPONSE_BLOCKS_def plain_json_def)


theorem claude_decoder_bounded_witness:
  "\<exists>d. decoder_run plain_json demo_tool_events claude_decoder_default = Inr (demo_released, d) \<and>
     length (cd_blocks d) \<le> 64 \<and> ca_bytes (cd_accum d) \<le> 8 * 1024 * 1024"
proof -
  obtain d where d: "decoder_run plain_json demo_tool_events claude_decoder_default = Inr (demo_released, d)"
    by (rule demo_tool_decoder)
  from claude_decoder_bounded [OF d] d show ?thesis by blast
qed

theorem claude_chunking_irrelevant_witness:
  "concat [''data: {'', ''}'' @ [LF], [LF]] = concat [''da'', ''ta: {}'' @ [LF, LF]] \<and>
   claude_decode plain_json (\<lambda>s. (1, 0)) (map Bytes [''data: {'', ''}'' @ [LF], [LF]]) =
   claude_decode plain_json (\<lambda>s. (1, 0)) (map Bytes [''da'', ''ta: {}'' @ [LF, LF]])"
proof -
  have c: "concat [''data: {'', ''}'' @ [LF], [LF]] = concat [''da'', ''ta: {}'' @ [LF, LF]]" by simp
  from claude_chunking_irrelevant [OF c] c show ?thesis by blast
qed

subsection \<open>The end\<close>

lemma no_end_initial: "End stop u \<notin> set (initial_events b)"
  by (cases b rule: initial_events.cases) (auto split: option.splits)

lemma no_end_delta: "block_delta lib delta b tot = Inr (evs, b', tot') \<Longrightarrow> End stop u \<notin> set evs"
  by (cases b) (auto simp: block_delta_def Let_def try_then_Inr split: if_splits)

lemma no_end_finish: "block_finish lib b = Inr (content, Some c) \<Longrightarrow> c \<noteq> End stop u"
  by (cases b) (auto simp: try_then_Inr)

text \<open>The decoder releases the end of a response alone, and only when the message was started, every block
  is complete both on the wire and in the accumulator, input and final output usage were reported, and a stop
  reason was given, which is the one it releases.
\<close>

theorem claude_end_is_complete:
  assumes "decoder_event lib ev d = Inr (evs, d')" "End stop u \<in> set evs"
  shows "evs = [End stop u] \<and> cd_started d \<and> cd_blocks d = [] \<and> ca_blocks (cd_accum d) = [] \<and>
    ca_has_input (cd_accum d) \<and> ca_has_final (cd_accum d) \<and> ca_stop (cd_accum d) = Some stop \<and> ca_usage (cd_accum d) = u"
  using assms(1)
proof (cases rule: decoder_event_Inr)
  case (message_start a)
  with message_start_blocks [OF message_start(1)] assms(2) show ?thesis by auto
next
  case (start d1 a)
  from start(3) assms(2) show ?thesis
    by (cases rule: claude_start_Inr) (auto simp: no_end_initial split: option.splits)
next
  case (delta a)
  from delta(2) assms(2) show ?thesis by (cases rule: claude_delta_Inr) (auto dest: no_end_delta)
next
  case (stop d1 a)
  from stop(3) assms(2) show ?thesis
    by (cases rule: claude_finish_Inr) (auto dest: no_end_finish split: option.splits)
next
  case (message_delta a)
  with message_delta_blocks [OF message_delta(2)] assms(2) show ?thesis by auto
next
  case message_stop
  with message_stop_Inr [OF message_stop(2)] assms(2) show ?thesis by auto
qed (use assms(2) in simp)

definition demo_finished :: claude_decoder where
  "demo_finished =
     \<lparr>cd_accum = claude_accum_default\<lparr>ca_usage := demo_usage 5, ca_has_input := True, ca_has_final := True, ca_stop := Some EndTurn\<rparr>,
      cd_blocks = [], cd_started = True\<rparr>"

theorem claude_end_is_complete_witness:
  "decoder_event plain_json (typed ''message_stop'' []) demo_finished = Inr ([End EndTurn (demo_usage 5)], demo_finished) \<and>
   cd_started demo_finished \<and> ca_stop (cd_accum demo_finished) = Some EndTurn"
proof -
  have e: "decoder_event plain_json (typed ''message_stop'' []) demo_finished = Inr ([End EndTurn (demo_usage 5)], demo_finished)"
    by (simp add: demo_finished_def demo_event_defs decode_defs step_defs)
  from claude_end_is_complete [OF e, of EndTurn "demo_usage 5"] e show ?thesis by simp
qed

subsection \<open>Unknown blocks\<close>

definition unknown_block_events :: "jvalue list" where
  "unknown_block_events =
     demo_message_start # demo_block ''0'' (typed ''server_tool_use'' []) @
     demo_block ''1'' (typed ''text'' [(''text'', JString ''hi'')]) @ demo_message_end ''end_turn''"

text \<open>A block of a type the decoder does not know is documented as ignored, and the decoder accepts the response;
  but its index is then missing among the complete blocks, so the agent refuses the whole response.
\<close>

theorem unknown_block_refused:
  "\<exists>evs. map_sum id fst (decoder_run plain_json unknown_block_events claude_decoder_default) = Inr evs \<and>
     End EndTurn (demo_usage 5) \<in> set evs \<and>
     validate_stream_replay plain_json evs = Some ''provider returned incomplete assistant block indices''"
proof -
  let ?evs = "[Start (demo_usage 0), TextDelta ''hi'', AssistantBlock 1 (AText ''hi''), UsageEvent (demo_usage 5),
    End EndTurn (demo_usage 5)]"
  have "map_sum id fst (decoder_run plain_json unknown_block_events claude_decoder_default) = Inr ?evs"
    by (simp add: unknown_block_events_def demo_event_defs decode_defs step_defs del: as_u64.simps(1))
  moreover have "validate_stream_replay plain_json ?evs = Some ''provider returned incomplete assistant block indices''"
    by (simp add: validate_stream_replay_def accum_apply_def add_block_def step_accum_default_def Let_def usize_add_def
        MAX_STREAM_BLOCK_BYTES_def MAX_STREAM_RESPONSE_BYTES_def MAX_STREAM_RESPONSE_BLOCKS_def validate_blocks_def)
  ultimately show ?thesis by fastforce
qed

end
