(* ===== verification/OpenAiStream.thy ===== *)
theory OpenAiStream
  imports ProviderWire
begin

text \<open>
  The streaming decoder of the OpenAI provider (\<^verbatim>\<open>ai-sdk/src/provider/openai/\<close>: \<^verbatim>\<open>usage.rs\<close>, \<^verbatim>\<open>accum.rs\<close>,
  \<^verbatim>\<open>sse.rs\<close>, and the mappings of \<^verbatim>\<open>openai.rs\<close>). Usage reports are merged into one raw object; tool calls
  are buffered by index and released, with the end, only on \<^verbatim>\<open>[DONE]\<close>.
\<close>

subsection \<open>Usage\<close>

definition sat_sub :: "u64 \<Rightarrow> u64 \<Rightarrow> u64" where
  "sat_sub a b = (if a < b then 0 else a - b)"

definition openai_usage :: "jvalue \<Rightarrow> usage" where
  "openai_usage u =
     (let cache_read = nested_count u ''prompt_tokens_details'' ''cached_tokens'';
          cache_create = nested_count u ''prompt_tokens_details'' ''cache_write_tokens''
      in \<lparr>input_tokens = sat_sub (sat_sub (wire_count u ''prompt_tokens'') cache_read) cache_create,
          output_tokens = wire_count u ''completion_tokens'', cache_create_tokens = cache_create,
          cache_create_1h_tokens = 0, cache_read_tokens = cache_read,
          reasoning_tokens = nested_count u ''completion_tokens_details'' ''reasoning_tokens''\<rparr>)"

definition map_finish_reason :: "string \<Rightarrow> stop_reason" where
  "map_finish_reason reason =
     (if reason = ''stop'' then EndTurn
      else if reason = ''length'' then MaxTokens
      else if reason = ''tool_calls'' \<or> reason = ''function_call'' then ToolUse
      else if reason = ''content_filter'' then Refusal
      else OtherStop reason)"

text \<open>The removal of a key of an object.\<close>

fun jremove :: "jvalue \<Rightarrow> string \<Rightarrow> jvalue" where
  "jremove (JObject m) k = JObject (AList.delete k m)"
| "jremove v k = v"

definition merge_counter :: "jvalue \<Rightarrow> jvalue \<Rightarrow> string \<Rightarrow> provider_error + jvalue" where
  "merge_counter current update key =
     (case jget update key of
        None \<Rightarrow> Inr current
      | Some v \<Rightarrow>
          if v = JNull then Inr current
          else
            try_then (ok_or (as_u64 v) (decode_error ''invalid OpenAI usage counter'')) (\<lambda>observed.
              if key \<in> {''prompt_tokens'', ''completion_tokens''} \<and>
                 (case get_u64 current key of Some previous \<Rightarrow> observed < previous | None \<Rightarrow> False)
              then Inl (decode_error ''OpenAI cumulative token usage decreased'')
              else Inr (jset current key v)))"

fun merge_counters :: "jvalue \<Rightarrow> jvalue \<Rightarrow> string list \<Rightarrow> provider_error + jvalue" where
  "merge_counters current update [] = Inr current"
| "merge_counters current update (k # ks) =
     try_then (merge_counter current update k) (\<lambda>c. merge_counters c update ks)"

definition merge_group :: "jvalue \<Rightarrow> jvalue \<Rightarrow> string \<times> string list \<Rightarrow> provider_error + jvalue" where
  "merge_group current update = (\<lambda>(g, ks).
     (case jget update g of
        None \<Rightarrow> Inr current
      | Some detail \<Rightarrow>
          if detail = JNull then Inr current
          else if \<not> is_object detail then Inl (decode_error ''invalid OpenAI usage details'')
          else
            try_then (merge_counters (case jget current g of Some x \<Rightarrow> x | None \<Rightarrow> JObject []) detail ks)
              (\<lambda>d. Inr (jset current g d))))"

definition validate_subsets :: "jvalue \<Rightarrow> provider_error + unit" where
  "validate_subsets v =
     (let cached = nested_count v ''prompt_tokens_details'' ''cached_tokens'';
          written = nested_count v ''prompt_tokens_details'' ''cache_write_tokens''
      in ensure
           ((case get_u64 v ''prompt_tokens'' of
               None \<Rightarrow> True
             | Some p \<Rightarrow> (case u64_checked_add cached written of None \<Rightarrow> False | Some cache \<Rightarrow> \<not> cache > p)) \<and>
            (case get_u64 v ''completion_tokens'' of
               None \<Rightarrow> True
             | Some c \<Rightarrow> \<not> nested_count v ''completion_tokens_details'' ''reasoning_tokens'' > c))
           (decode_error ''OpenAI usage contains inconsistent token totals''))"

definition validate_reported_total :: "jvalue \<Rightarrow> provider_error + unit" where
  "validate_reported_total v =
     (case (get_u64 v ''total_tokens'', get_u64 v ''prompt_tokens'', get_u64 v ''completion_tokens'') of
        (Some t, Some p, Some c) \<Rightarrow>
          ensure (u64_checked_add p c = Some t)
            (decode_error ''OpenAI total usage does not match prompt and completion tokens'')
      | _ \<Rightarrow> Inr ())"

definition COUNTERS :: "string list" where
  "COUNTERS = [''prompt_tokens'', ''completion_tokens'']"

definition merge_usage :: "jvalue \<Rightarrow> jvalue \<Rightarrow> provider_error + jvalue" where
  "merge_usage current update =
     (if \<not> is_object update then Inl (decode_error ''invalid OpenAI usage'')
      else
        let current = (if current = JNull then JObject [] else current);
            was_complete = list_all (\<lambda>k. get_u64 current k \<noteq> None) COUNTERS;
            updates_counter = list_ex (\<lambda>k. get_u64 update k \<noteq> None) COUNTERS;
            current = (if was_complete \<and> updates_counter \<and> jget update ''total_tokens'' = None
                       then jremove current ''total_tokens'' else current)
        in try_then (merge_counters current update COUNTERS) (\<lambda>current.
           try_then
             (case jget update ''total_tokens'' of
                None \<Rightarrow> Inr current
              | Some t \<Rightarrow> if as_u64 t = None then Inl (decode_error ''invalid OpenAI total usage counter'')
                          else Inr (jset current ''total_tokens'' t)) (\<lambda>current.
           try_then (merge_group current update (''prompt_tokens_details'', [''cached_tokens'', ''cache_write_tokens''])) (\<lambda>current.
           try_then (merge_group current update (''completion_tokens_details'', [''reasoning_tokens'', ''audio_tokens''])) (\<lambda>current.
           try_then (validate_subsets current) (\<lambda>_.
           try_then (validate_reported_total current) (\<lambda>_. Inr current)))))))"

definition openai_require_complete :: "jvalue \<Rightarrow> provider_error + unit" where
  "openai_require_complete v =
     try_then (ensure (list_all (\<lambda>k. get_u64 v k \<noteq> None) COUNTERS)
       (decode_error ''OpenAI response requires prompt and completion usage'')) (\<lambda>_.
     try_then (validate_subsets v) (\<lambda>_. validate_reported_total v))"

subsection \<open>The accumulator\<close>

record tool_buf =
  tb_id :: string
  tb_name :: string
  tb_args :: string

definition tool_buf_default :: tool_buf where
  "tool_buf_default = \<lparr>tb_id = [], tb_name = [], tb_args = []\<rparr>"

record openai_accum =
  oa_usage :: usage
  oa_raw :: jvalue
  oa_has_final :: bool
  oa_tool_bytes :: nat
  oa_tools :: "(u64 \<times> tool_buf) list"
  oa_stop :: "stop_reason option"
  oa_refused :: bool

definition openai_accum_default :: openai_accum where
  "openai_accum_default =
     \<lparr>oa_usage = usage_zero, oa_raw = JNull, oa_has_final = False, oa_tool_bytes = 0, oa_tools = [], oa_stop = None,
      oa_refused = False\<rparr>"

definition required_text :: "jvalue \<Rightarrow> provider_error + string" where
  "required_text v =
     (case as_str v of
        Some t \<Rightarrow> if t = [] then Inl (decode_error ''missing OpenAI tool identity'') else Inr t
      | None \<Rightarrow> Inl (decode_error ''missing OpenAI tool identity''))"

definition tool_fragment :: "jvalue \<Rightarrow> string \<Rightarrow> provider_error + string" where
  "tool_fragment f field =
     (case jget f field of None \<Rightarrow> Inr [] | Some v \<Rightarrow> ok_or (as_str v) (decode_error ''invalid OpenAI tool fragment''))"

definition buf_bytes :: "tool_buf \<Rightarrow> nat" where
  "buf_bytes b = usize_add (usize_add (length (tb_id b)) (length (tb_name b))) (length (tb_args b))"

definition openai_tool :: "jvalue \<Rightarrow> openai_accum \<Rightarrow> provider_error + openai_accum" where
  "openai_tool call a =
     try_then (ok_or (get_u64 call ''index'') (decode_error ''missing OpenAI tool index'')) (\<lambda>index.
       if map_of (oa_tools a) index = None \<and> length (oa_tools a) \<ge> MAX_STREAM_OPEN_BLOCKS
       then Inl (decode_error ''too many OpenAI tool calls'')
       else
         let buf = (case map_of (oa_tools a) index of Some b \<Rightarrow> b | None \<Rightarrow> tool_buf_default)
         in try_then (case jget call ''id'' of None \<Rightarrow> Inr None | Some v \<Rightarrow> try_then (required_text v) (\<lambda>t. Inr (Some t))) (\<lambda>i.
            if (case i of Some x \<Rightarrow> tb_id buf \<noteq> [] \<and> tb_id buf \<noteq> x | None \<Rightarrow> False)
            then Inl (decode_error ''conflicting OpenAI tool ID'')
            else if (case jget call ''type'' of Some k \<Rightarrow> as_str k \<noteq> Some ''function'' | None \<Rightarrow> False)
            then Inl (decode_error ''unsupported OpenAI tool kind'')
            else
              case jget call ''function'' of
                Some (JObject f) \<Rightarrow>
                  try_then (tool_fragment (JObject f) ''name'') (\<lambda>name.
                  try_then (tool_fragment (JObject f) ''arguments'') (\<lambda>arguments.
                    let new_id = (case i of Some x \<Rightarrow> x | None \<Rightarrow> tb_id buf);
                        next_bytes = usize_add (usize_add (usize_add (usize_add (length new_id) (length (tb_name buf)))
                          (length name)) (length (tb_args buf))) (length arguments);
                        response_bytes = usize_add (oa_tool_bytes a - buf_bytes buf) next_bytes
                    in if next_bytes > MAX_STREAM_BLOCK_BYTES \<or> response_bytes > MAX_STREAM_RESPONSE_BYTES
                       then Inl (decode_error ''OpenAI retained tool content exceeded its byte limit'')
                       else Inr (a\<lparr>oa_tool_bytes := response_bytes, oa_tools := block_insert index
                              \<lparr>tb_id = new_id, tb_name = tb_name buf @ name, tb_args = tb_args buf @ arguments\<rparr>
                              (oa_tools a)\<rparr>)))
              | _ \<Rightarrow> Inl (decode_error ''missing OpenAI tool function'')))"

fun openai_tools :: "jvalue list \<Rightarrow> openai_accum \<Rightarrow> provider_error + openai_accum" where
  "openai_tools [] a = Inr a"
| "openai_tools (c # cs) a = try_then (openai_tool c a) (openai_tools cs)"

text \<open>One of the two text fields of a delta.\<close>

definition openai_text ::
  "jvalue \<Rightarrow> string \<Rightarrow> stream_event list \<times> openai_accum \<Rightarrow> provider_error + (stream_event list \<times> openai_accum)" where
  "openai_text delta field = (\<lambda>(out, a).
     (case jget delta field of
        None \<Rightarrow> Inr (out, a)
      | Some v \<Rightarrow>
          if v = JNull then Inr (out, a)
          else
            try_then (ok_or (as_str v) (decode_error ''invalid OpenAI stream text'')) (\<lambda>t.
              if t = [] then Inr (out, a)
              else Inr (out @ [TextDelta t], a\<lparr>oa_refused := (oa_refused a \<or> field = ''refusal'')\<rparr>))))"

definition openai_push_usage :: "jvalue \<Rightarrow> openai_accum \<Rightarrow> provider_error + (stream_event list \<times> openai_accum)" where
  "openai_push_usage event a =
     (case jget event ''usage'' of
        None \<Rightarrow> Inr ([], a)
      | Some u \<Rightarrow>
          if u = JNull then Inr ([], a)
          else if \<not> is_object u then Inl (decode_error ''invalid OpenAI stream usage'')
          else
            try_then (merge_usage (oa_raw a) u) (\<lambda>raw.
              let a = a\<lparr>oa_raw := raw, oa_usage := openai_usage raw,
                oa_has_final := (oa_has_final a \<or> oa_stop a \<noteq> None \<and> get_u64 u ''completion_tokens'' \<noteq> None)\<rparr>
              in Inr ([UsageEvent (oa_usage a)], a)))"

definition delta_tools :: "jvalue \<Rightarrow> openai_accum \<Rightarrow> provider_error + openai_accum" where
  "delta_tools delta a =
     (case jget delta ''tool_calls'' of
        None \<Rightarrow> Inr a
      | Some v \<Rightarrow>
          (case v of
             JNull \<Rightarrow> Inr a
           | JArray calls \<Rightarrow> openai_tools calls a
           | _ \<Rightarrow> Inl (decode_error ''invalid OpenAI tool delta'')))"

definition choice_reason :: "jvalue \<Rightarrow> jvalue \<Rightarrow> openai_accum \<Rightarrow> provider_error + openai_accum" where
  "choice_reason event choice a =
     (case jget choice ''finish_reason'' of
        None \<Rightarrow> Inr a
      | Some r \<Rightarrow>
          if r = JNull then Inr a
          else
            try_then (ok_or (case as_str r of Some t \<Rightarrow> if t = [] then None else Some t | None \<Rightarrow> None)
              (decode_error ''invalid OpenAI finish_reason'')) (\<lambda>reason.
            Inr (a\<lparr>oa_stop := Some (map_finish_reason reason),
              oa_has_final := (oa_has_final a \<or>
                Option.bind (jget event ''usage'') (\<lambda>u. get_u64 u ''completion_tokens'') \<noteq> None)\<rparr>)))"

definition openai_choice ::
  "jvalue \<Rightarrow> jvalue \<Rightarrow> stream_event list \<Rightarrow> openai_accum \<Rightarrow> provider_error + (stream_event list \<times> openai_accum)" where
  "openai_choice event choice out a =
     (if oa_stop a \<noteq> None then Inl (decode_error ''OpenAI choice after finish_reason'')
      else if (case jget choice ''index'' of Some i \<Rightarrow> as_u64 i \<noteq> Some 0 | None \<Rightarrow> False)
      then Inl (decode_error ''invalid OpenAI choice index'')
      else
        try_then (ok_or (case jget choice ''delta'' of Some v \<Rightarrow> if is_object v then Some v else None | None \<Rightarrow> None)
          (decode_error ''invalid OpenAI stream delta'')) (\<lambda>delta.
        try_then (openai_text delta ''content'' (out, a)) (\<lambda>x.
        try_then (openai_text delta ''refusal'' x) (\<lambda>(out, a).
        try_then (delta_tools delta a) (\<lambda>a.
        try_then (choice_reason event choice a) (\<lambda>a. Inr (out, a)))))))"

definition openai_push :: "json_lib \<Rightarrow> jvalue \<Rightarrow> openai_accum \<Rightarrow> provider_error + (stream_event list \<times> openai_accum)" where
  "openai_push lib event a =
     (if jget event ''error'' \<noteq> None then Inl (api_error lib 500 (jl_print lib event) None)
      else
        case jget event ''choices'' of
          Some (JArray choices) \<Rightarrow>
            if length choices > 1 then Inl (decode_error ''multiple OpenAI stream choices are unsupported'')
            else
              try_then (openai_push_usage event a) (\<lambda>(out, a).
                case choices of
                  [] \<Rightarrow>
                    if jget event ''usage'' \<in> {None, Some JNull}
                    then Inl (decode_error ''empty OpenAI stream choice without usage'') else Inr (out, a)
                | choice # _ \<Rightarrow> openai_choice event choice out a)
        | _ \<Rightarrow> Inl (decode_error ''missing OpenAI stream choices''))"

text \<open>The buffered calls, checked in order: the index expected next, and the ids seen.\<close>

fun check_bufs :: "u64 \<Rightarrow> string list \<Rightarrow> (u64 \<times> tool_buf) list \<Rightarrow> provider_error + unit" where
  "check_bufs expected ids [] = Inr ()"
| "check_bufs expected ids ((index, b) # bufs) =
     (if expected \<noteq> index then Inl (decode_error ''OpenAI tool indices are incomplete'')
      else if tb_id b = [] \<or> tb_name b = [] \<or> tb_id b \<in> set ids
      then Inl (decode_error ''missing or duplicate OpenAI tool identity'')
      else check_bufs (expected + 1) (ids @ [tb_id b]) bufs)"

definition buf_call :: "tool_buf \<Rightarrow> stream_event" where
  "buf_call b = ToolCall (tb_id b) (tb_name b) (tb_args b)"

definition openai_finish :: "openai_accum \<Rightarrow> provider_error + (stream_event list \<times> openai_accum)" where
  "openai_finish a =
     try_then (openai_require_complete (oa_raw a)) (\<lambda>_.
       if \<not> oa_has_final a then Inl (decode_error ''OpenAI stream requires final completion usage'')
       else
         try_then (ok_or (oa_stop a) (decode_error ''OpenAI DONE before finish_reason'')) (\<lambda>reason.
           let stop = (if oa_refused a then Refusal else reason); a' = a\<lparr>oa_stop := None\<rparr>
           in if stop = ToolUse then
                if oa_tools a = [] then Inl (decode_error ''OpenAI tool termination without calls'')
                else
                  try_then (check_bufs 0 [] (oa_tools a)) (\<lambda>_.
                    Inr (map (buf_call \<circ> snd) (oa_tools a) @ [End stop (oa_usage a)], a'\<lparr>oa_tools := []\<rparr>))
              else if stop = EndTurn \<and> oa_tools a \<noteq> [] then Inl (decode_error ''OpenAI tool calls without tool termination'')
              else Inr ([End stop (oa_usage a)], a')))"

subsection \<open>The decoder\<close>

definition DONE :: string where "DONE = ''[DONE]''"

text \<open>The state of the decoder beside its framer: whether it started, and the accumulator.\<close>

definition openai_handler ::
  "json_lib \<Rightarrow> sse_frame \<Rightarrow> bool \<times> openai_accum \<Rightarrow> provider_error + (stream_event list \<times> bool \<times> openai_accum)" where
  "openai_handler lib frame = (\<lambda>(started, a).
     if fr_data frame = DONE then try_then (openai_finish a) (\<lambda>(evs, a). Inr (evs, started, a))
     else
       case jl_parse lib (fr_data frame) of
         Inl e \<Rightarrow> Inl (decode_error ''invalid OpenAI SSE JSON'')
       | Inr event \<Rightarrow>
           try_then (openai_push lib event a) (\<lambda>(evs, a). Inr (if started then evs else Start usage_zero # evs, True, a)))"

definition openai_decode :: "json_lib \<Rightarrow> chunk list \<Rightarrow> (provider_error + stream_event) list" where
  "openai_decode lib chunks =
     drive (framed (openai_handler lib)) ''OpenAI stream ended before [DONE]'' chunks
       (framer_default, False, openai_accum_default)"

interpretation openai: line_decoder "framed (openai_handler lib)" for lib
  by (rule framed_line_decoder)

end
