(* ===== verification/OpenAiProps.thy ===== *)
theory OpenAiProps
  imports OpenAiStream JsonExample
begin

text \<open>
  Properties of the OpenAI decoder (\<^verbatim>\<open>ai-sdk/src/provider/openai/\<close>): buffered tool calls are released only
  by \<^verbatim>\<open>[DONE]\<close> after a tool stop, whole and with distinct ids; the counters of a complete usage report are
  split into disjoint buckets; what is buffered is bounded.
\<close>

subsection \<open>Release of tool calls\<close>

fun call_ids :: "stream_event list \<Rightarrow> string list" where
  "call_ids [] = []"
| "call_ids (ToolCall i name arguments # evs) = i # call_ids evs"
| "call_ids (ev # evs) = call_ids evs"

lemma call_ids_append [simp]: "call_ids (evs @ evs') = call_ids evs @ call_ids evs'"
  by (induction evs rule: call_ids.induct) auto

lemma call_ids_bufs [simp]: "call_ids (map (buf_call \<circ> snd) bufs) = map (tb_id \<circ> snd) bufs"
  by (induction bufs) (auto simp: buf_call_def)

lemma check_bufs_Inr:
  "check_bufs expected ids bufs = Inr () \<Longrightarrow>
   distinct ids \<Longrightarrow> distinct (ids @ map (tb_id \<circ> snd) bufs) \<and> list_all (\<lambda>(k, b). tb_id b \<noteq> [] \<and> tb_name b \<noteq> []) bufs"
proof (induction expected ids bufs rule: check_bufs.induct)
  case (2 expected ids index b bufs)
  then show ?case by (auto split: if_splits)
qed simp

lemma no_calls_text: "openai_text delta field (out, a) = Inr (out', a') \<Longrightarrow> call_ids out = [] \<Longrightarrow> call_ids out' = []"
  by (auto simp: openai_text_def try_then_Inr split: option.splits if_splits)

lemma no_calls_choice:
  assumes "openai_choice event choice out a = Inr (evs, a')" "call_ids out = []"
  shows "call_ids evs = []"
proof -
  from assms(1) obtain delta x where "openai_text delta ''content'' (out, a) = Inr x"
    and "\<exists>a2. openai_text delta ''refusal'' x = Inr (evs, a2)"
    by (auto simp: openai_choice_def try_then_Inr split: if_splits)
  then show ?thesis using no_calls_text assms(2) by (metis surj_pair)
qed

lemma no_calls_push:
  assumes "openai_push lib event a = Inr (evs, a')"
  shows "call_ids evs = []"
proof -
  from assms obtain choices out a1 where c: "jget event ''choices'' = Some (JArray choices)"
    and u: "openai_push_usage event a = Inr (out, a1)"
    and r: "choices = [] \<and> evs = out \<or> (\<exists>choice. openai_choice event choice out a1 = Inr (evs, a'))"
    by (auto simp: openai_push_def try_then_Inr split: if_splits option.splits jvalue.splits list.splits)
  have "call_ids out = []"
    using u by (auto simp: openai_push_usage_def try_then_Inr Let_def split: option.splits if_splits)
  with r no_calls_choice show ?thesis by blast
qed

text \<open>The OpenAI decoder releases tool calls only when \<^verbatim>\<open>[DONE]\<close> arrives after a tool stop that was not a
  refusal, right before the end; their ids are not empty and all different, and what was not released by then
  never is.
\<close>

theorem openai_calls_only_when_done:
  assumes "openai_handler lib frame (started, a) = Inr (evs, started', a')" "call_ids evs \<noteq> []"
  shows "fr_data frame = DONE \<and> oa_stop a = Some ToolUse \<and> \<not> oa_refused a \<and>
    evs = map (buf_call \<circ> snd) (oa_tools a) @ [End ToolUse (oa_usage a)] \<and>
    distinct (call_ids evs) \<and> list_all (\<lambda>i. i \<noteq> []) (call_ids evs) \<and> oa_tools a' = []"
proof -
  have fin: "fr_data frame = DONE"
  proof (rule ccontr)
    assume "fr_data frame \<noteq> DONE"
    with assms(1) obtain event evs1 where "openai_push lib event a = Inr (evs1, a')"
      "evs = (if started then evs1 else Start usage_zero # evs1)"
      by (auto simp: openai_handler_def try_then_Inr split: sum.splits)
    with no_calls_push have "call_ids evs = []" by auto
    with assms(2) show False by simp
  qed
  with assms(1) have f: "openai_finish a = Inr (evs, a')" by (auto simp: openai_handler_def try_then_Inr)
  with assms(2) have s: "oa_stop a = Some ToolUse" "\<not> oa_refused a" "check_bufs 0 [] (oa_tools a) = Inr ()"
    and e: "evs = map (buf_call \<circ> snd) (oa_tools a) @ [End ToolUse (oa_usage a)]" "oa_tools a' = []"
    by (auto simp: openai_finish_def try_then_Inr Let_def split: if_splits)
  from check_bufs_Inr [OF s(3)] have "distinct (map (tb_id \<circ> snd) (oa_tools a))"
    "list_all (\<lambda>i. i \<noteq> []) (map (tb_id \<circ> snd) (oa_tools a))"
    by (auto simp: list_all_iff)
  with fin s e show ?thesis by simp
qed

subsection \<open>Disjoint buckets\<close>

lemma unat_checked_add: "u64_checked_add x y = Some z \<Longrightarrow> unat z = unat x + unat y"
  unfolding u64_checked_add_def not_less [symmetric]
  by (metis linorder_not_less no_olen_add_nat option.inject option.distinct(1) unat_add_lem)

lemma unat_sat_sub: "unat (sat_sub x y) = unat x - unat y"
  by (simp add: sat_sub_def word_less_nat_alt unat_sub word_le_nat_alt not_less)

text \<open>Once a usage report is complete, the input, cache-read and cache-write counts the agent is billed for
  are disjoint parts of the prompt: they add up to exactly the reported prompt tokens.
\<close>

theorem openai_usage_buckets:
  assumes "openai_require_complete v = Inr ()"
  shows "unat (input_tokens (openai_usage v)) + unat (cache_read_tokens (openai_usage v)) +
      unat (cache_create_tokens (openai_usage v)) = unat (wire_count v ''prompt_tokens'')"
proof -
  from assms obtain p where p: "get_u64 v ''prompt_tokens'' = Some p" and s: "validate_subsets v = Inr ()"
    by (auto simp: openai_require_complete_def try_then_Inr COUNTERS_def)
  let ?r = "nested_count v ''prompt_tokens_details'' ''cached_tokens''"
  let ?w = "nested_count v ''prompt_tokens_details'' ''cache_write_tokens''"
  from s p obtain c where c: "u64_checked_add ?r ?w = Some c" "\<not> c > p"
    by (auto simp: validate_subsets_def Let_def split: option.splits)
  from unat_checked_add [OF c(1)] c(2) have "unat ?r + unat ?w \<le> unat p" by (simp add: word_le_nat_alt not_less)
  then show ?thesis by (simp add: openai_usage_def Let_def unat_sat_sub wire_count_def p)
qed

subsection \<open>A response\<close>

definition openai_raw :: jvalue where
  "openai_raw = JObject [(''prompt_tokens'', JNumber ''10''), (''completion_tokens'', JNumber ''4''),
     (''prompt_tokens_details'', JObject [(''cached_tokens'', JNumber ''3''), (''cache_write_tokens'', JNumber ''2'')])]"

lemma openai_numbers [simp]:
  "as_u64 (JNumber ''10'') = Some 10" "as_u64 (JNumber ''4'') = Some 4" "as_u64 (JNumber ''3'') = Some 3"
  "as_u64 (JNumber ''2'') = Some 2"
  by code_simp+

lemma openai_raw_complete: "openai_require_complete openai_raw = Inr ()"
  by (simp add: openai_require_complete_def openai_raw_def COUNTERS_def get_u64_def validate_subsets_def nested_count_def
      wire_count_def u64_checked_add_def validate_reported_total_def ensure_def Let_def del: as_u64.simps(1))

theorem openai_usage_buckets_witness:
  "openai_require_complete openai_raw = Inr () \<and>
   unat (input_tokens (openai_usage openai_raw)) + unat (cache_read_tokens (openai_usage openai_raw)) +
     unat (cache_create_tokens (openai_usage openai_raw)) = 10"
proof -
  have "wire_count openai_raw ''prompt_tokens'' = 10"
    by (simp add: openai_raw_def wire_count_def get_u64_def del: as_u64.simps(1))
  with openai_usage_buckets [OF openai_raw_complete] openai_raw_complete show ?thesis by simp
qed

definition openai_demo :: openai_accum where
  "openai_demo = openai_accum_default\<lparr>oa_raw := openai_raw, oa_has_final := True, oa_stop := Some ToolUse,
     oa_tools := [(0, \<lparr>tb_id = ''c1'', tb_name = ''f'', tb_args = ''{}''\<rparr>)]\<rparr>"

theorem openai_calls_only_when_done_witness:
  "openai_handler plain_json \<lparr>fr_event = None, fr_data = DONE\<rparr> (True, openai_demo) =
     Inr ([ToolCall ''c1'' ''f'' ''{}'', End ToolUse usage_zero], True, openai_demo\<lparr>oa_stop := None, oa_tools := []\<rparr>) \<and>
   oa_stop openai_demo = Some ToolUse \<and> \<not> oa_refused openai_demo"
proof -
  have e: "openai_handler plain_json \<lparr>fr_event = None, fr_data = DONE\<rparr> (True, openai_demo) =
      Inr ([ToolCall ''c1'' ''f'' ''{}'', End ToolUse usage_zero], True, openai_demo\<lparr>oa_stop := None, oa_tools := []\<rparr>)"
    using openai_raw_complete
    by (simp add: openai_handler_def openai_finish_def openai_demo_def openai_accum_default_def buf_call_def)
  from openai_calls_only_when_done [OF e] e show ?thesis by simp
qed

end
