(* ===== verification/Nanoid.thy ===== *)
theory Nanoid
  imports Prelude
begin

text \<open>
  Random identifiers (\<^verbatim>\<open>orm/src/nanoid.rs\<close>). The bytes of the operating system are an argument: the chunk
  that each call of the generator fills. A symbol of an alphabet is its UTF-8 text; the loop of
  \<^verbatim>\<open>nanoid_custom\<close> is bounded by the number of chunks it may draw, and is \<^term>\<open>None\<close> while that is not enough.
\<close>

subsection \<open>The generators\<close>

definition URL_ALPHABET :: string where
  "URL_ALPHABET = ''useandom-26T198340PX75pxJACKVERYMINDBUSHWOLF_GQZbfghjklqvwyzrict''"

definition DEFAULT_SIZE :: nat where
  "DEFAULT_SIZE = 21"

definition nanoid_sized :: "(nat \<Rightarrow> u8 list) \<Rightarrow> nat \<Rightarrow> string" where
  "nanoid_sized fill sz = map (\<lambda>b. URL_ALPHABET ! unat (and b 63)) (fill sz)"

definition nanoid :: "(nat \<Rightarrow> u8 list) \<Rightarrow> string" where
  "nanoid fill = nanoid_sized fill DEFAULT_SIZE"

fun ilog2 :: "nat \<Rightarrow> nat" where
  "ilog2 n = (if n < 2 then 0 else Suc (ilog2 (n div 2)))"

declare ilog2.simps [simp del]

definition symbol_mask :: "nat \<Rightarrow> nat" where
  "symbol_mask len = 2 * 2 ^ ilog2 (or (len - 1) 1) - 1"

definition usize_mul :: "nat \<Rightarrow> nat \<Rightarrow> nat" where
  "usize_mul a b = min (a * b) (2 ^ 64 - 1)"

definition chunk_step :: "nat \<Rightarrow> nat \<Rightarrow> nat" where
  "chunk_step len sz =
     (let n = usize_mul (usize_mul 8 (symbol_mask len)) sz; d = 5 * len in max ((n + d - 1) div d) 1)"

definition symbol_index :: "nat \<Rightarrow> u8 \<Rightarrow> nat" where
  "symbol_index len b = and (unat b) (symbol_mask len)"

text \<open>One chunk: the text so far is extended until it has exactly as many bytes as asked for.\<close>

fun take_symbols :: "string list \<Rightarrow> nat \<Rightarrow> u8 list \<Rightarrow> string \<Rightarrow> bool \<times> string" where
  "take_symbols alphabet sz [] i = (False, i)"
| "take_symbols alphabet sz (b # bs) i =
     (if symbol_index (length alphabet) b < length alphabet then
        let i = i @ alphabet ! symbol_index (length alphabet) b
        in if length i = sz then (True, i) else take_symbols alphabet sz bs i
      else take_symbols alphabet sz bs i)"

fun nanoid_loop :: "nat \<Rightarrow> nat \<Rightarrow> (nat \<Rightarrow> nat \<Rightarrow> u8 list) \<Rightarrow> string list \<Rightarrow> nat \<Rightarrow> string \<Rightarrow> string option" where
  "nanoid_loop 0 n fill alphabet sz i = None"
| "nanoid_loop (Suc fuel) n fill alphabet sz i =
     (case take_symbols alphabet sz (fill n (chunk_step (length alphabet) sz)) i of
        (True, i) \<Rightarrow> Some i
      | (False, i) \<Rightarrow> nanoid_loop fuel (Suc n) fill alphabet sz i)"

text \<open>\<^term>\<open>Inl\<close> is the panic on an alphabet that is empty or too long.\<close>

definition nanoid_custom ::
  "nat \<Rightarrow> (nat \<Rightarrow> nat \<Rightarrow> u8 list) \<Rightarrow> nat \<Rightarrow> string list \<Rightarrow> string + string option" where
  "nanoid_custom fuel fill sz alphabet =
     (if \<not> (1 \<le> length alphabet \<and> length alphabet \<le> 255) then Inl ''alphabet must have 1..=255 symbols''
      else if sz = 0 then Inr (Some [])
      else Inr (nanoid_loop fuel 0 fill alphabet sz []))"

subsection \<open>The mask\<close>

lemma ilog2_bounds: "0 < n \<Longrightarrow> 2 ^ ilog2 n \<le> n \<and> n < 2 * 2 ^ ilog2 n"
proof (induction n rule: ilog2.induct)
  case (1 n)
  show ?case
  proof (cases "n < 2")
    case True
    with 1 show ?thesis by (simp add: ilog2.simps [of n])
  next
    case False
    with 1 have "2 ^ ilog2 (n div 2) \<le> n div 2 \<and> n div 2 < 2 * 2 ^ ilog2 (n div 2)" by simp
    with False show ?thesis by (simp add: ilog2.simps [of n]) linarith
  qed
qed

lemma symbol_mask_eq: "symbol_mask len = mask (Suc (ilog2 (or (len - 1) 1)))"
  by (simp add: symbol_mask_def mask_eq_exp_minus_1)

lemma symbol_index_mod: "symbol_index len b = unat b mod (symbol_mask len + 1)"
  unfolding symbol_index_def symbol_mask_eq take_bit_eq_mask [symmetric] take_bit_eq_mod
  by (simp add: mask_eq_exp_minus_1)

lemma byte_residues:
  fixes M i :: nat
  assumes "M dvd 256" "i < M"
  shows "card {b :: u8. unat b mod M = i} = 256 div M"
proof -
  from assms(1) obtain k where k: "256 = M * k" ..
  let ?f = "\<lambda>q. of_nat (q * M + i) :: u8"
  have small: "q * M + i < 256" if "q < k" for q
  proof -
    have "q * M + i < Suc q * M" using assms(2) by simp
    also have "\<dots> \<le> k * M" using that by (intro mult_right_mono) simp_all
    finally show ?thesis using k by (simp add: mult.commute)
  qed
  have unat_f: "unat (?f q) = q * M + i" if "q < k" for q
    using small [OF that] by (simp add: unat_of_nat del: of_nat_add of_nat_mult)
  have "{b :: u8. unat b mod M = i} = ?f ` {0..<k}"
  proof (intro set_eqI iffI)
    fix b :: u8
    assume b: "b \<in> {b. unat b mod M = i}"
    have "unat b div M < k"
      using unsigned_less [of b, where ?'a = nat] k by (simp add: less_mult_imp_div_less mult.commute)
    moreover have "unat b = unat b div M * M + i" using b div_mult_mod_eq [of "unat b" M] by simp
    then have "of_nat (unat b) = ?f (unat b div M)" by (rule arg_cong)
    then have "b = ?f (unat b div M)" by simp
    ultimately show "b \<in> ?f ` {0..<k}" by (intro image_eqI) auto
  next
    fix b assume "b \<in> ?f ` {0..<k}"
    then obtain q where "q < k" "b = ?f q" by auto
    then show "b \<in> {b. unat b mod M = i}" using unat_f assms(2) by simp
  qed
  moreover have "inj_on ?f {0..<k}"
    by (rule inj_onI) (use unat_f assms(2) in \<open>metis add_right_cancel atLeastLessThan_iff less_nat_zero_code mult_cancel2 not_gr_zero\<close>)
  moreover have "256 div M = k" unfolding k using assms(2) by simp
  ultimately show ?thesis by (simp add: card_image)
qed

lemma mask_covers:
  assumes "1 \<le> len" "len \<le> 255"
  shows "len \<le> symbol_mask len + 1" "symbol_mask len + 1 dvd 256"
proof -
  let ?n = "or (len - 1) 1"
  have n: "?n = len - 1 + of_bool (even (len - 1))" by (rule or_one_eq)
  then have pos: "0 < ?n" and top: "?n < 256" using assms by (auto split: if_splits)
  note log = ilog2_bounds [OF pos]
  have m: "symbol_mask len + 1 = 2 ^ Suc (ilog2 ?n)" by (simp add: symbol_mask_def)
  show "len \<le> symbol_mask len + 1" unfolding m using log n assms by (auto split: if_splits)
  have "2 ^ ilog2 ?n < (2::nat) ^ 8" using log top by simp
  then have "Suc (ilog2 ?n) \<le> 8" using power_strict_increasing_iff [of "2::nat" "ilog2 ?n" 8] by simp
  then have "2 ^ Suc (ilog2 ?n) dvd (2::nat) ^ 8" by (rule le_imp_power_dvd)
  then show "symbol_mask len + 1 dvd 256" unfolding m by simp
qed

text \<open>Rejection sampling is uniform: whatever the alphabet, every symbol is chosen by exactly as many of the
  256 byte values as every other, and by at least one.
\<close>

theorem nanoid_uniform:
  assumes "1 \<le> length alphabet" "length alphabet \<le> 255" "i < length alphabet"
  shows "card {b. symbol_index (length alphabet) b = i} = 256 div (symbol_mask (length alphabet) + 1) \<and>
    0 < 256 div (symbol_mask (length alphabet) + 1)"
proof -
  let ?M = "symbol_mask (length alphabet) + 1"
  note cover = mask_covers [OF assms(1,2)]
  have "card {b :: u8. unat b mod ?M = i} = 256 div ?M"
    using assms(3) cover by (intro byte_residues) auto
  moreover have "0 < 256 div ?M" using cover(2) by (metis dvd_div_eq_0_iff not_gr_zero zero_neq_numeral)
  ultimately show ?thesis by (simp add: symbol_index_mod)
qed

theorem nanoid_uniform_witness:
  "card {b. symbol_index (length [''a'', ''b'', ''c'']) b = 2} = 256 div (symbol_mask (length [''a'', ''b'', ''c'']) + 1)"
  using nanoid_uniform [of "[''a'', ''b'', ''c'']" 2] by simp

subsection \<open>Symbols of one byte\<close>

definition accepted :: "string list \<Rightarrow> u8 list \<Rightarrow> string list" where
  "accepted alphabet bs =
     map (\<lambda>b. alphabet ! symbol_index (length alphabet) b) (filter (\<lambda>b. symbol_index (length alphabet) b < length alphabet) bs)"

lemma accepted_simps [simp]:
  "accepted alphabet [] = []"
  "accepted alphabet (b # bs) =
     (if symbol_index (length alphabet) b < length alphabet then [alphabet ! symbol_index (length alphabet) b] else []) @
     accepted alphabet bs"
  "accepted alphabet (as @ bs) = accepted alphabet as @ accepted alphabet bs"
  by (simp_all add: accepted_def)

lemma take_symbols_one:
  assumes one: "\<forall>s \<in> set alphabet. length s = 1" and "length i < sz"
  shows "take_symbols alphabet sz bs i =
    (sz - length i \<le> length (accepted alphabet bs), i @ concat (take (sz - length i) (accepted alphabet bs)))"
  using assms(2)
proof (induction bs arbitrary: i)
  case (Cons b bs)
  let ?k = "symbol_index (length alphabet) b"
  show ?case
  proof (cases "?k < length alphabet")
    case True
    with one have l: "length (alphabet ! ?k) = 1" by simp
    show ?thesis
    proof (cases "Suc (length i) = sz")
      case True
      with l \<open>?k < length alphabet\<close> show ?thesis by auto
    next
      case False
      with Cons.prems have "length (i @ alphabet ! ?k) < sz" using l by simp
      moreover have "sz - length i = Suc (sz - length (i @ alphabet ! ?k))" using Cons.prems l False by simp
      ultimately show ?thesis using Cons.IH [of "i @ alphabet ! ?k"] True l False by simp
    qed
  next
    case False
    then show ?thesis using Cons by simp
  qed
qed simp

definition drawn :: "(nat \<Rightarrow> nat \<Rightarrow> u8 list) \<Rightarrow> nat \<Rightarrow> nat \<Rightarrow> nat \<Rightarrow> u8 list" where
  "drawn fill step n fuel = concat (map (\<lambda>k. fill k step) [n..<n + fuel])"

lemma drawn_Suc: "drawn fill step n (Suc fuel) = fill n step @ drawn fill step (Suc n) fuel"
  by (simp add: drawn_def upt_conv_Cons del: upt_Suc)

lemma concat_one: "\<forall>s \<in> set ss. length s = 1 \<Longrightarrow> length (concat ss) = length ss"
  by (induction ss) auto

lemma accepted_one: "\<forall>s \<in> set alphabet. length s = 1 \<Longrightarrow> \<forall>s \<in> set (accepted alphabet bs). length s = 1"
  by (auto simp: accepted_def)

lemma nanoid_loop_one:
  assumes one: "\<forall>s \<in> set alphabet. length s = 1" and "length i < sz"
  defines "step \<equiv> chunk_step (length alphabet) sz"
  shows "nanoid_loop fuel n fill alphabet sz i =
    (let got = accepted alphabet (drawn fill step n fuel)
     in if sz - length i \<le> length got then Some (i @ concat (take (sz - length i) got)) else None)"
  using assms(2)
proof (induction fuel arbitrary: n i)
  case 0
  then show ?case by (simp add: drawn_def)
next
  case (Suc fuel)
  let ?here = "accepted alphabet (fill n step)" and ?rest = "accepted alphabet (drawn fill step (Suc n) fuel)"
  note here = take_symbols_one [OF one Suc.prems, of "fill n step"]
  show ?case
  proof (cases "sz - length i \<le> length ?here")
    case True
    with here show ?thesis by (simp add: drawn_Suc step_def Let_def)
  next
    case False
    let ?i = "i @ concat ?here"
    have l: "length (concat ?here) = length ?here" by (rule concat_one [OF accepted_one [OF one]])
    with False have "length ?i < sz" by simp
    from Suc.IH [OF this] False here l show ?thesis by (auto simp: drawn_Suc step_def Let_def)
  qed
qed

text \<open>With an alphabet of one-byte symbols the generator is rejection sampling: it returns as soon as the
  chunks drawn hold enough accepted bytes, and its text is the symbols of the first of them, exactly as many
  as were asked for.
\<close>

theorem nanoid_custom_samples:
  assumes "1 \<le> length alphabet" "length alphabet \<le> 255" "0 < sz" "list_all (\<lambda>s. length s = 1) alphabet"
  shows "nanoid_custom fuel fill sz alphabet =
    (let got = accepted alphabet (drawn fill (chunk_step (length alphabet) sz) 0 fuel)
     in Inr (if sz \<le> length got then Some (concat (take sz got)) else None))"
  using assms nanoid_loop_one [of alphabet "[]" sz fuel 0 fill]
  by (auto simp: nanoid_custom_def list_all_iff Let_def)

theorem nanoid_custom_samples_witness:
  "nanoid_custom 1 (\<lambda>n step. [0, 1, 255]) 2 [''a'', ''b''] = Inr (Some ''ab'')"
  using nanoid_custom_samples [of "[''a'', ''b'']" 2 1 "\<lambda>n step. [0, 1, 255]"]
  by (simp add: drawn_def accepted_def symbol_index_mod symbol_mask_def ilog2.simps or_one_eq)

subsection \<open>Symbols of two bytes\<close>

lemma take_symbols_two:
  assumes two: "\<forall>s \<in> set alphabet. length s = 2" and "odd sz"
  shows "even (length i) \<Longrightarrow> \<exists>i'. take_symbols alphabet sz bs i = (False, i') \<and> even (length i')"
proof (induction bs arbitrary: i)
  case (Cons b bs)
  let ?k = "symbol_index (length alphabet) b"
  have "even (length (i @ alphabet ! ?k))" if "?k < length alphabet" using two that Cons.prems by simp
  then show ?case using Cons \<open>odd sz\<close> by (auto simp: Let_def)
qed simp

lemma nanoid_loop_two:
  assumes "\<forall>s \<in> set alphabet. length s = 2" "odd sz"
  shows "even (length i) \<Longrightarrow> nanoid_loop fuel n fill alphabet sz i = None"
proof (induction fuel arbitrary: n i)
  case (Suc fuel)
  obtain i' where "take_symbols alphabet sz (fill n (chunk_step (length alphabet) sz)) i = (False, i')" "even (length i')"
    using take_symbols_two [OF assms Suc.prems] by blast
  with Suc.IH show ?case by simp
qed simp

text \<open>C28: The generator counts bytes where it is asked for characters: with an alphabet of two-byte symbols and an
  odd number of characters it never returns, however many bytes it draws.
\<close>

theorem nanoid_custom_hangs:
  assumes "1 \<le> length alphabet" "length alphabet \<le> 255" "odd sz" "list_all (\<lambda>s. length s = 2) alphabet"
  shows "nanoid_custom fuel fill sz alphabet = Inr None"
proof -
  have "0 < sz" using assms(3) by (rule odd_pos)
  with assms nanoid_loop_two [of alphabet sz "[]"] show ?thesis by (simp add: nanoid_custom_def list_all_iff)
qed

text \<open>The two letters with UTF-8 texts C3 A9 and C3 A8.\<close>

theorem nanoid_custom_hangs_witness:
  "nanoid_custom 1000 (\<lambda>n step. replicate step 0) 21 [[CHR 0xC3, CHR 0xA9], [CHR 0xC3, CHR 0xA8]] = Inr None"
  by (rule nanoid_custom_hangs) simp_all

subsection \<open>The default alphabet\<close>

lemma url_alphabet: "length URL_ALPHABET = 64" "distinct URL_ALPHABET"
  by (simp_all add: URL_ALPHABET_def)

text \<open>A default identifier has one character of the URL alphabet per random byte.\<close>

lemma nanoid_sized_symbols:
  assumes "length (fill sz) = sz"
  shows "length (nanoid_sized fill sz) = sz \<and> set (nanoid_sized fill sz) \<subseteq> set URL_ALPHABET"
proof -
  have "unat (and b 63) < 64" for b :: u8
  proof -
    have "and b 63 = take_bit 6 b" by (simp add: take_bit_eq_mask mask_eq_exp_minus_1)
    then show ?thesis by (simp add: take_bit_eq_mod unat_mod)
  qed
  with assms url_alphabet(1) show ?thesis by (auto simp: nanoid_sized_def intro!: nth_mem)
qed

end
