(* ===== verification/ProviderHttp.thy ===== *)
theory ProviderHttp
  imports ProviderWire
begin

text \<open>
  Requests and responses of the built-in providers (\<^verbatim>\<open>ai-sdk/src/provider/http.rs\<close>, \<^verbatim>\<open>parse_retry_after\<close> of
  \<^verbatim>\<open>provider.rs\<close>): the connection settings a client carries, the request it posts, and how a response becomes
  an error. The HTTP client is the argument \<^verbatim>\<open>transport\<close>, which may fail with a message or give a response;
  decoding a body to text replaces malformed bytes and is the argument \<^verbatim>\<open>lossy\<close>.
\<close>

record http_config =
  hc_api_key :: string
  hc_base_url :: string
  hc_endpoint :: "string option"
  hc_http :: bool

record http_request =
  hq_url :: string
  hq_headers :: "(string \<times> string) list"
  hq_body :: jvalue

record http_response =
  hs_status :: u16
  hs_retry_after :: "string option"
  hs_body :: "chunk list"

type_synonym 'w transport = "http_request \<Rightarrow> 'w \<Rightarrow> (string + http_response) \<times> 'w"

subsection \<open>Settings\<close>

text \<open>\<^verbatim>\<open>built\<close> says whether the shared client could be set up.\<close>

definition http_config_new :: "bool \<Rightarrow> string \<Rightarrow> string \<Rightarrow> http_config" where
  "http_config_new built api_key base_url =
     \<lparr>hc_api_key = api_key, hc_base_url = base_url, hc_endpoint = None, hc_http = built\<rparr>"

definition key_from_env :: "(string \<Rightarrow> string option) \<Rightarrow> string \<Rightarrow> provider_error + string" where
  "key_from_env env var = ok_or (env var) (PInvalidArgument (var @ '' is not set''))"

definition with_base_url :: "string \<Rightarrow> http_config \<Rightarrow> http_config" where
  "with_base_url url c = c\<lparr>hc_base_url := url\<rparr>"

definition with_endpoint :: "string \<Rightarrow> http_config \<Rightarrow> http_config" where
  "with_endpoint url c = c\<lparr>hc_endpoint := Some url\<rparr>"

definition with_http_client :: "http_config \<Rightarrow> http_config" where
  "with_http_client c = c\<lparr>hc_http := True\<rparr>"

subsection \<open>Sending\<close>

definition http_post :: "http_config \<Rightarrow> string \<Rightarrow> jvalue \<Rightarrow> provider_error + http_request" where
  "http_post c path body =
     (if \<not> hc_http c then Inl (PTransport ''provider HTTP client initialization failed'')
      else Inr \<lparr>hq_url = (case hc_endpoint c of Some url \<Rightarrow> url | None \<Rightarrow> hc_base_url c @ path), hq_headers = [], hq_body = body\<rparr>)"

definition with_header :: "string \<Rightarrow> string \<Rightarrow> http_request \<Rightarrow> http_request" where
  "with_header name v q = q\<lparr>hq_headers := hq_headers q @ [(name, v)]\<rparr>"

definition http_send :: "'w transport \<Rightarrow> provider_error + http_request \<Rightarrow> 'w \<Rightarrow> (provider_error + http_response) \<times> 'w" where
  "http_send transport request w =
     (case request of
        Inl e \<Rightarrow> (Inl e, w)
      | Inr q \<Rightarrow> (case transport q w of (Inl e, w) \<Rightarrow> (Inl (PTransport e), w) | (Inr r, w) \<Rightarrow> (Inr r, w)))"

subsection \<open>Responses\<close>

definition is_success :: "u16 \<Rightarrow> bool" where
  "is_success status \<longleftrightarrow> 200 \<le> status \<and> status < 300"

fun body_bytes :: "chunk list \<Rightarrow> string + string" where
  "body_bytes [] = Inr []"
| "body_bytes (Broken e # cs) = Inl e"
| "body_bytes (Bytes bs # cs) = (case body_bytes cs of Inl e \<Rightarrow> Inl e | Inr rest \<Rightarrow> Inr (bs @ rest))"

text \<open>\<^verbatim>\<open>u64::from_str\<close>, and the header text: visible characters, spaces and tabs.\<close>

definition parse_digits :: "string \<Rightarrow> nat option" where
  "parse_digits s =
     (let digits = (case s of c # cs \<Rightarrow> if c = CHR ''+'' then cs else s | [] \<Rightarrow> [])
      in if digits \<noteq> [] \<and> list_all is_digit digits then Some (read_nat digits) else None)"

definition parse_u64 :: "string \<Rightarrow> nat option" where
  "parse_u64 s = (case parse_digits s of Some n \<Rightarrow> if n < 2 ^ 64 then Some n else None | None \<Rightarrow> None)"

definition header_char :: "char \<Rightarrow> bool" where
  "header_char c \<longleftrightarrow> between 32 c 126 \<or> c = CHR 0x09"

definition blank_char :: "char \<Rightarrow> bool" where
  "blank_char c \<longleftrightarrow> c = CHR '' '' \<or> c = CHR 0x09"

definition trim_blank :: "string \<Rightarrow> string" where
  "trim_blank s = rev (dropWhile blank_char (rev (dropWhile blank_char s)))"

text \<open>The wait a server asks for, in nanoseconds.\<close>

definition parse_retry_after :: "string option \<Rightarrow> nat option" where
  "parse_retry_after header =
     (case header of
        None \<Rightarrow> None
      | Some h \<Rightarrow>
          if list_all header_char h then map_option (\<lambda>secs. secs * 1000000000) (parse_u64 (trim_blank h)) else None)"

definition ensure_success :: "json_lib \<Rightarrow> (string \<Rightarrow> string) \<Rightarrow> http_response \<Rightarrow> provider_error + http_response" where
  "ensure_success lib lossy r =
     (if is_success (hs_status r) then Inr r
      else Inl (api_error lib (hs_status r) (case body_bytes (hs_body r) of Inl e \<Rightarrow> [] | Inr b \<Rightarrow> lossy b)
             (parse_retry_after (hs_retry_after r))))"

record chat_response =
  rs_content :: "assistant_content list"
  rs_stop :: stop_reason
  rs_usage :: usage

text \<open>A value as \<^verbatim>\<open>json!\<close> makes it: texts and flags.\<close>

abbreviation text_field :: "string \<Rightarrow> string \<Rightarrow> string \<times> jvalue" where
  "text_field k t \<equiv> (k, JString t)"

definition opt_field :: "string \<Rightarrow> jvalue option \<Rightarrow> (string \<times> jvalue) list" where
  "opt_field k v = (case v of Some x \<Rightarrow> [(k, x)] | None \<Rightarrow> [])"

lemma opt_field_simps [simp]: "opt_field k None = []" "opt_field k (Some x) = [(k, x)]"
  by (simp_all add: opt_field_def)

lemma json_object_shape: "\<exists>m. json_object kvs = JObject m \<and> jmap_sorted m"
  by (simp add: json_object_def fold_jmap_sorted)

end
