(* ===== verification/ClaudeRequest.thy ===== *)
theory ClaudeRequest
  imports ClaudeStream ProviderHttp
begin

text \<open>
  Requests to the Claude provider (\<^verbatim>\<open>ai-sdk/src/provider/claude/models.rs\<close>, \<^verbatim>\<open>provider/claude.rs\<close>): what each model
  accepts, read from its id; the request body with its cache breakpoints; the response that is not streamed; and the
  two calls of the provider. A \<^verbatim>\<open>serde_json::Map\<close> filled member by member is \<^const>\<open>json_object\<close>. Base64 and the JSON
  form of a floating-point number are arguments.
\<close>

subsection \<open>Models\<close>

datatype thinking_off = OmitThinking | DisabledThinking | BetweenTools

record model_rules =
  mr_capabilities :: provider_capabilities
  mr_thinking_off :: thinking_off

datatype family = Opus | Sonnet | Haiku | Fable | Mythos

definition LARGE_OUTPUT :: "32 word option" where
  "LARGE_OUTPUT = Some 128000"

definition rules :: "bool \<Rightarrow> thinking_support \<Rightarrow> bool \<Rightarrow> 32 word option \<Rightarrow> thinking_off \<Rightarrow> model_rules" where
  "rules forced_tool_choice thinking sampling max_output off =
     \<lparr>mr_capabilities =
        \<lparr>pc_forced_tool_choice = forced_tool_choice, pc_thinking = thinking, pc_sampling_params = sampling,
         pc_prompt_cache = True, pc_vision = True, pc_max_output_tokens = max_output\<rparr>,
      mr_thinking_off = off\<rparr>"

definition LEGACY :: model_rules where
  "LEGACY = rules True BudgetThinking True None OmitThinking"

definition ADAPTIVE_WITH_SAMPLING :: model_rules where
  "ADAPTIVE_WITH_SAMPLING = rules True AdaptiveThinking True LARGE_OUTPUT OmitThinking"

definition ADAPTIVE :: model_rules where
  "ADAPTIVE = rules True AdaptiveThinking False LARGE_OUTPUT OmitThinking"

definition THINKING_BY_DEFAULT :: model_rules where
  "THINKING_BY_DEFAULT = rules True AdaptiveThinking False LARGE_OUTPUT DisabledThinking"

definition SONNET_5_5 :: model_rules where
  "SONNET_5_5 = rules False AdaptiveThinking False LARGE_OUTPUT BetweenTools"

definition ALWAYS_THINKING :: model_rules where
  "ALWAYS_THINKING = rules True AdaptiveThinking False LARGE_OUTPUT OmitThinking"

definition NEWEST :: model_rules where
  "NEWEST = rules False AdaptiveThinking False LARGE_OUTPUT OmitThinking"

definition parse_family :: "string \<Rightarrow> family option" where
  "parse_family token =
     (if token = ''opus'' then Some Opus
      else if token = ''sonnet'' then Some Sonnet
      else if token = ''haiku'' then Some Haiku
      else if token = ''fable'' then Some Fable
      else if token = ''mythos'' then Some Mythos
      else None)"

definition version_part :: "string \<Rightarrow> nat option" where
  "version_part token = (if length token > 2 then None else parse_digits token)"

text \<open>\<^verbatim>\<open>str::split_once\<close> and \<^verbatim>\<open>str::split\<close> with a character.\<close>

fun split_once :: "string \<Rightarrow> string \<Rightarrow> (string \<times> string) option" where
  "split_once pat [] = (if pat = [] then Some ([], []) else None)"
| "split_once pat (c # cs) =
     (if take (length pat) (c # cs) = pat then Some ([], drop (length pat) (c # cs))
      else map_option (\<lambda>(a, b). (c # a, b)) (split_once pat cs))"

fun split_char :: "char \<Rightarrow> string \<Rightarrow> string list" where
  "split_char x [] = [[]]"
| "split_char x (c # cs) =
     (if c = x then [] # split_char x cs
      else case split_char x cs of t # ts \<Rightarrow> (c # t) # ts | [] \<Rightarrow> [[c]])"

definition parse_model :: "string \<Rightarrow> (family \<times> nat \<times> nat) option" where
  "parse_model model =
     (case split_once ''claude-'' model of
        None \<Rightarrow> None
      | Some (_, rest) \<Rightarrow>
          let tokens = split_char (CHR ''-'') (takeWhile (\<lambda>c. c \<noteq> CHR ''@'') rest)
          in case List.map_filter parse_family tokens of
               [] \<Rightarrow> None
             | fam # _ \<Rightarrow>
                 (case List.map_filter version_part tokens of
                    [] \<Rightarrow> None
                  | major # numbers \<Rightarrow> Some (fam, major, case numbers of [] \<Rightarrow> 0 | minor # _ \<Rightarrow> minor)))"

definition version_less :: "nat \<times> nat \<Rightarrow> nat \<times> nat \<Rightarrow> bool" where
  "version_less v v' \<longleftrightarrow> fst v < fst v' \<or> (fst v = fst v' \<and> snd v < snd v')"

fun family_rules :: "family \<Rightarrow> nat \<times> nat \<Rightarrow> model_rules" where
  "family_rules Opus v =
     (if version_less v (4, 6) then LEGACY
      else if version_less v (4, 7) then ADAPTIVE_WITH_SAMPLING
      else if version_less v (5, 0) then ADAPTIVE
      else if version_less v (5, 5) then THINKING_BY_DEFAULT
      else NEWEST)"
| "family_rules Sonnet v =
     (if version_less v (4, 6) then LEGACY
      else if version_less v (5, 0) then ADAPTIVE_WITH_SAMPLING
      else if version_less v (5, 5) then THINKING_BY_DEFAULT
      else if v = (5, 5) then SONNET_5_5
      else NEWEST)"
| "family_rules Haiku v =
     (if version_less v (5, 0) then LEGACY
      else if v = (5, 5) \<or> version_less v (5, 5) then THINKING_BY_DEFAULT
      else NEWEST)"
| "family_rules Fable v = (if version_less v (5, 1) then ALWAYS_THINKING else NEWEST)"
| "family_rules Mythos v = (if version_less v (5, 1) then ALWAYS_THINKING else NEWEST)"

definition rules_for :: "string \<Rightarrow> model_rules" where
  "rules_for model = (case parse_model model of None \<Rightarrow> NEWEST | Some (fam, v) \<Rightarrow> family_rules fam v)"

subsection \<open>Cache breakpoints\<close>

definition MAX_BREAKPOINTS :: nat where
  "MAX_BREAKPOINTS = 4"

record cache_plan =
  cache_last_tool :: bool
  cache_system :: bool
  message_breakpoints :: "nat list"

fun is_user :: "message \<Rightarrow> bool" where
  "is_user (User us) = True"
| "is_user (Assistant bs) = False"

definition last_user_message :: "message list \<Rightarrow> nat option" where
  "last_user_message ms =
     (case filter (\<lambda>i. is_user (ms ! i)) [0..<length ms] of [] \<Rightarrow> None | is \<Rightarrow> Some (last is))"

definition auto_plan :: "'f chat_request \<Rightarrow> cache_plan" where
  "auto_plan r =
     \<lparr>cache_last_tool = (cr_tools r \<noteq> []), cache_system = (cr_system r \<noteq> None),
      message_breakpoints = (case last_user_message (cr_messages r) of Some i \<Rightarrow> [i] | None \<Rightarrow> [])\<rparr>"

fun target_index :: "message list \<Rightarrow> cache_target \<Rightarrow> nat option" where
  "target_index ms (MessageIndex i) = (if i < length ms then Some i else None)"
| "target_index ms LastUserMessage = last_user_message ms"
| "target_index ms _ = None"

definition explicit_plan :: "'f chat_request \<Rightarrow> cache_target list \<Rightarrow> cache_plan" where
  "explicit_plan r points =
     \<lparr>cache_last_tool = (cr_tools r \<noteq> [] \<and> CacheTools \<in> set points),
      cache_system = (cr_system r \<noteq> None \<and> CacheSystem \<in> set points),
      message_breakpoints =
        take MAX_BREAKPOINTS (remdups_adj (sort (List.map_filter (target_index (cr_messages r)) points)))\<rparr>"

definition resolve_plan :: "'f chat_request \<Rightarrow> cache_plan" where
  "resolve_plan r =
     (case cr_cache r of
        CacheOff \<Rightarrow> \<lparr>cache_last_tool = False, cache_system = False, message_breakpoints = []\<rparr>
      | CacheAuto \<Rightarrow> auto_plan r
      | Breakpoints ttl points \<Rightarrow> explicit_plan r points)"

definition take_slot :: "nat \<Rightarrow> bool \<times> nat" where
  "take_slot budget = (if budget = 0 then (False, budget) else (True, budget - 1))"

fun cache_control :: "cache_ttl \<Rightarrow> jvalue" where
  "cache_control FiveMin = json_object [text_field ''type'' ''ephemeral'']"
| "cache_control OneHour = json_object [text_field ''type'' ''ephemeral'', text_field ''ttl'' ''1h'']"
| "cache_control ThirtyMin = json_object [text_field ''type'' ''ephemeral'', text_field ''ttl'' ''30m'']"

text \<open>A breakpoint where it is wanted and the budget allows it.\<close>

definition breakpoint :: "cache_ttl option \<Rightarrow> bool \<Rightarrow> nat \<Rightarrow> jvalue option \<times> nat" where
  "breakpoint ttl wanted budget =
     (case ttl of
        Some t \<Rightarrow>
          if wanted then let (ok, budget) = take_slot budget in (if ok then Some (cache_control t) else None, budget)
          else (None, budget)
      | None \<Rightarrow> (None, budget))"

subsection \<open>The parts of a request\<close>

definition map_system :: "system_prompt \<Rightarrow> bool \<Rightarrow> cache_ttl option \<Rightarrow> nat \<Rightarrow> jvalue \<times> nat" where
  "map_system s cache ttl budget =
     (let (mark, budget) = breakpoint ttl (cache \<or> sp_cache s) budget
      in (case mark of
            Some c \<Rightarrow> JArray [json_object [text_field ''type'' ''text'', text_field ''text'' (sp_text s), (''cache_control'', c)]]
          | None \<Rightarrow> JString (sp_text s),
          budget))"

definition map_tool :: "tool_def \<Rightarrow> jvalue option \<Rightarrow> jvalue" where
  "map_tool t mark =
     json_object
       ([text_field ''name'' (td_name t), text_field ''description'' (td_description t), (''input_schema'', td_parameters t)] @
        opt_field ''strict'' (if td_strict t then Some (JBool True) else None) @
        opt_field ''cache_control'' mark)"

fun map_tools :: "tool_def list \<Rightarrow> bool \<Rightarrow> cache_ttl option \<Rightarrow> nat \<Rightarrow> jvalue list \<times> nat" where
  "map_tools [] cache_last ttl budget = ([], budget)"
| "map_tools (t # ts) cache_last ttl budget =
     (let (mark, budget) = breakpoint ttl (td_cache t \<or> (cache_last \<and> ts = [])) budget;
          (rest, budget) = map_tools ts cache_last ttl budget
      in (map_tool t mark # rest, budget))"

fun map_tool_choice :: "tool_choice \<Rightarrow> bool option \<Rightarrow> jvalue" where
  "map_tool_choice ChooseNone parallel = json_object [text_field ''type'' ''none'']"
| "map_tool_choice choice parallel =
     (let mapped =
        (case choice of
           ChooseAuto \<Rightarrow> json_object [text_field ''type'' ''auto'']
         | ChooseTool name \<Rightarrow> json_object [text_field ''type'' ''tool'', text_field ''name'' name]
         | _ \<Rightarrow> json_object [text_field ''type'' ''any''])
      in if parallel = Some False then jset mapped ''disable_parallel_tool_use'' (JBool True) else mapped)"

text \<open>An image or a document: both have the same three forms.\<close>

fun map_media :: "(u8 list \<Rightarrow> string) \<Rightarrow> media \<Rightarrow> jvalue" where
  "map_media b64 (Url url) = json_object [text_field ''type'' ''url'', text_field ''url'' url]"
| "map_media b64 (Base64 media_type bytes) =
     json_object [text_field ''type'' ''base64'', text_field ''media_type'' media_type, text_field ''data'' (b64 bytes)]"
| "map_media b64 (FileId file_id) = json_object [text_field ''type'' ''file'', text_field ''file_id'' file_id]"

fun map_tool_result_part :: "(u8 list \<Rightarrow> string) \<Rightarrow> tool_result_part \<Rightarrow> jvalue" where
  "map_tool_result_part b64 (PartText t) = json_object [text_field ''type'' ''text'', text_field ''text'' t]"
| "map_tool_result_part b64 (PartImage img) = json_object [text_field ''type'' ''image'', (''source'', map_media b64 img)]"

fun map_assistant_block :: "assistant_content \<Rightarrow> jvalue" where
  "map_assistant_block (AText t) = json_object [text_field ''type'' ''text'', text_field ''text'' t]"
| "map_assistant_block (AToolUse i name inp) =
     json_object [text_field ''type'' ''tool_use'', text_field ''id'' i, text_field ''name'' name, (''input'', inp)]"
| "map_assistant_block (AThinking (Visible t signature)) =
     json_object ([text_field ''type'' ''thinking'', text_field ''thinking'' t] @
       opt_field ''signature'' (map_option JString signature))"
| "map_assistant_block (AThinking (Redacted d)) =
     json_object [text_field ''type'' ''redacted_thinking'', text_field ''data'' d]"

text \<open>The tool results of a user turn come first, then its other parts.\<close>

fun result_block :: "(u8 list \<Rightarrow> string) \<Rightarrow> user_content \<Rightarrow> jvalue list" where
  "result_block b64 (UToolResult i content is_error) =
     [json_object [text_field ''type'' ''tool_result'', text_field ''tool_use_id'' i, (''is_error'', JBool is_error),
        (''content'', JArray (map (map_tool_result_part b64) content))]]"
| "result_block b64 _ = []"

fun plain_block :: "(u8 list \<Rightarrow> string) \<Rightarrow> user_content \<Rightarrow> jvalue list" where
  "plain_block b64 (UText t) = [json_object [text_field ''type'' ''text'', text_field ''text'' t]]"
| "plain_block b64 (UImage src) = [json_object [text_field ''type'' ''image'', (''source'', map_media b64 src)]]"
| "plain_block b64 (UDocument doc) = [json_object [text_field ''type'' ''document'', (''source'', map_media b64 doc)]]"
| "plain_block b64 (UToolResult i content is_error) = []"

fun map_message :: "(u8 list \<Rightarrow> string) \<Rightarrow> message \<Rightarrow> jvalue" where
  "map_message b64 (User parts) =
     json_object [text_field ''role'' ''user'',
       (''content'', JArray (concat (map (result_block b64) parts) @ concat (map (plain_block b64) parts)))]"
| "map_message b64 (Assistant parts) =
     json_object [text_field ''role'' ''assistant'', (''content'', JArray (map map_assistant_block parts))]"

definition mark_last_block :: "cache_ttl \<Rightarrow> jvalue \<Rightarrow> nat \<Rightarrow> jvalue \<times> nat" where
  "mark_last_block ttl message budget =
     (case Option.bind (jget message ''content'') as_array of
        Some blocks \<Rightarrow>
          if blocks = [] then (message, budget)
          else
            (case last blocks of
               JObject block \<Rightarrow>
                 let (ok, budget) = take_slot budget
                 in if ok
                    then (jset message ''content''
                            (JArray (butlast blocks @ [JObject (jmap_insert ''cache_control'' (cache_control ttl) block)])), budget)
                    else (message, budget)
             | _ \<Rightarrow> (message, budget))
      | None \<Rightarrow> (message, budget))"

fun map_messages :: "(u8 list \<Rightarrow> string) \<Rightarrow> nat \<Rightarrow> message list \<Rightarrow> nat list \<Rightarrow> cache_ttl option \<Rightarrow> nat \<Rightarrow> jvalue list \<times> nat" where
  "map_messages b64 i [] targets ttl budget = ([], budget)"
| "map_messages b64 i (m # ms) targets ttl budget =
     (let mapped = map_message b64 m;
          (mapped, budget) =
            (case ttl of
               Some t \<Rightarrow> if i \<in> set targets then mark_last_block t mapped budget else (mapped, budget)
             | None \<Rightarrow> (mapped, budget));
          (rest, budget) = map_messages b64 (i + 1) ms targets ttl budget
      in (mapped # rest, budget))"

subsection \<open>The request body\<close>

definition effort_requires_thinking :: "(string \<times> jvalue) list \<Rightarrow> bool" where
  "effort_requires_thinking extra =
     (case Option.bind (map_of extra ''output_config'') (\<lambda>config. get_str config ''effort'') of
        Some effort \<Rightarrow> effort = ''xhigh'' \<or> effort = ''max''
      | None \<Rightarrow> False)"

fun thinking_field :: "thinking_config \<Rightarrow> thinking_off \<Rightarrow> (string \<times> jvalue) list \<Rightarrow> jvalue option" where
  "thinking_field ThinkAdaptive off extra = Some (json_object [text_field ''type'' ''adaptive''])"
| "thinking_field (ThinkBudget budget) off extra =
     Some (json_object [text_field ''type'' ''enabled'', (''budget_tokens'', jnum (unat budget))])"
| "thinking_field ThinkOff off extra =
     (if effort_requires_thinking extra then None
      else case off of
             OmitThinking \<Rightarrow> None
           | DisabledThinking \<Rightarrow> Some (json_object [text_field ''type'' ''disabled''])
           | BetweenTools \<Rightarrow> Some (json_object [text_field ''type'' ''between_tools'']))"

definition cache_ttl_of :: "cache_strategy \<Rightarrow> cache_ttl option" where
  "cache_ttl_of c = (case c of CacheOff \<Rightarrow> None | Breakpoints ttl points \<Rightarrow> Some ttl | CacheAuto \<Rightarrow> Some FiveMin)"

text \<open>Tools, system prompt and messages with the breakpoints of the plan, in that order and from one budget.\<close>

definition mapped_parts :: "(u8 list \<Rightarrow> string) \<Rightarrow> 'f chat_request \<Rightarrow> jvalue list \<times> jvalue option \<times> jvalue list" where
  "mapped_parts b64 r =
     (let plan = resolve_plan r; ttl = cache_ttl_of (cr_cache r);
          (tools, budget) =
            (if cr_tools r = [] then ([], MAX_BREAKPOINTS) else map_tools (cr_tools r) (cache_last_tool plan) ttl MAX_BREAKPOINTS);
          (system, budget) =
            (case cr_system r of
               Some s \<Rightarrow> let (v, budget) = map_system s (cache_system plan) ttl budget in (Some v, budget)
             | None \<Rightarrow> (None, budget));
          (messages, budget) = map_messages b64 0 (cr_messages r) (message_breakpoints plan) ttl budget
      in (tools, system, messages))"

definition build_body :: "('f \<Rightarrow> jvalue) \<Rightarrow> (u8 list \<Rightarrow> string) \<Rightarrow> string \<Rightarrow> 'f chat_request \<Rightarrow> bool \<Rightarrow> jvalue" where
  "build_body json_f64 b64 model r stream =
     (let (tools, system, messages) = mapped_parts b64 r
      in json_object
           ([text_field ''model'' model, (''max_tokens'', jnum (unat (cr_max_tokens r))), (''stream'', JBool stream)] @
            (if cr_tools r = [] then []
             else [(''tools'', JArray tools), (''tool_choice'', map_tool_choice (cr_tool_choice r) (cr_parallel_tool_calls r))]) @
            opt_field ''system'' system @
            [(''messages'', JArray messages)] @
            opt_field ''temperature'' (map_option json_f64 (cr_temperature r)) @
            (if cr_stop_sequences r = [] then [] else [(''stop_sequences'', JArray (map JString (cr_stop_sequences r)))]) @
            opt_field ''thinking'' (thinking_field (cr_thinking r) (mr_thinking_off (rules_for model)) (cr_extra r)) @
            cr_extra r))"

definition build_request_body :: "('f \<Rightarrow> jvalue) \<Rightarrow> (u8 list \<Rightarrow> string) \<Rightarrow> 'f chat_request \<Rightarrow> jvalue" where
  "build_request_body json_f64 b64 r =
     build_body json_f64 b64 (cr_model r) (fit_to r (mr_capabilities (rules_for (cr_model r)))) False"

subsection \<open>The response\<close>

definition parse_assistant_block :: "jvalue \<Rightarrow> assistant_content option" where
  "parse_assistant_block b =
     (case get_str b ''type'' of
        None \<Rightarrow> None
      | Some kind \<Rightarrow>
          if kind = ''text'' then map_option AText (get_str b ''text'')
          else if kind = ''tool_use'' then
            Option.bind (get_str b ''id'') (\<lambda>i. Option.bind (get_str b ''name'') (\<lambda>name.
              Some (AToolUse i name (case jget b ''input'' of Some inp \<Rightarrow> inp | None \<Rightarrow> JObject []))))
          else if kind = ''thinking'' then
            Some (AThinking (Visible (case get_str b ''thinking'' of Some t \<Rightarrow> t | None \<Rightarrow> []) (get_str b ''signature'')))
          else if kind = ''redacted_thinking'' then
            Some (AThinking (Redacted (case get_str b ''data'' of Some d \<Rightarrow> d | None \<Rightarrow> [])))
          else None)"

definition parse_response :: "jvalue \<Rightarrow> provider_error + chat_response" where
  "parse_response v =
     try_then (ok_or (jget v ''usage'') (decode_error ''Claude response requires usage'')) (\<lambda>raw.
     try_then (require_complete raw) (\<lambda>_.
       Inr \<lparr>rs_content =
              (case Option.bind (jget v ''content'') as_array of
                 Some blocks \<Rightarrow> List.map_filter parse_assistant_block blocks
               | None \<Rightarrow> []),
            rs_stop =
              (case get_str v ''stop_reason'' of
                 Some s \<Rightarrow> map_stop_reason s (get_str v ''stop_sequence'')
               | None \<Rightarrow> EndTurn),
            rs_usage = map_usage raw\<rparr>))"

subsection \<open>The provider\<close>

definition CLAUDE_URL :: string where
  "CLAUDE_URL = ''https://api.anthropic.com''"

definition ANTHROPIC_VERSION :: string where
  "ANTHROPIC_VERSION = ''2023-06-01''"

record claude_model =
  cm_config :: http_config
  cm_model :: string

definition claude_cache_capabilities :: cache_capabilities where
  "claude_cache_capabilities =
     CacheKnown False (Some \<lparr>ec_max_points = MAX_BREAKPOINTS, ec_ttls = [FiveMin, OneHour]\<rparr>)"

definition claude_capabilities_for :: "claude_model \<Rightarrow> string \<Rightarrow> provider_capabilities" where
  "claude_capabilities_for m model = mr_capabilities (rules_for (if model = [] then cm_model m else model))"

definition claude_send :: "'w transport \<Rightarrow> claude_model \<Rightarrow> jvalue \<Rightarrow> 'w \<Rightarrow> (provider_error + http_response) \<times> 'w" where
  "claude_send transport m body w =
     http_send transport
       (try_then (http_post (cm_config m) ''/v1/messages'' body) (\<lambda>q.
          Inr (with_header ''anthropic-version'' ANTHROPIC_VERSION (with_header ''x-api-key'' (hc_api_key (cm_config m)) q)))) w"

text \<open>The body of a call, fitted to the model and checked.\<close>

definition claude_body ::
  "('f \<Rightarrow> jvalue) \<Rightarrow> (u8 list \<Rightarrow> string) \<Rightarrow> claude_model \<Rightarrow> 'f chat_request \<Rightarrow> bool \<Rightarrow> provider_error + jvalue" where
  "claude_body json_f64 b64 m r stream =
     (let model = pick_model (cm_model m) r; r = fit_to r (mr_capabilities (rules_for model))
      in try_then (validate_cache claude_cache_capabilities (cr_cache r)) (\<lambda>_.
           Inr (build_body json_f64 b64 model r stream)))"

definition claude_complete ::
  "json_lib \<Rightarrow> (string \<Rightarrow> string) \<Rightarrow> ('f \<Rightarrow> jvalue) \<Rightarrow> (u8 list \<Rightarrow> string) \<Rightarrow> 'w transport \<Rightarrow> claude_model \<Rightarrow> 'f chat_request \<Rightarrow> 'w \<Rightarrow>
     (provider_error + chat_response) \<times> 'w" where
  "claude_complete lib lossy json_f64 b64 transport m r w =
     (case claude_body json_f64 b64 m r False of
        Inl e \<Rightarrow> (Inl e, w)
      | Inr body \<Rightarrow>
          let (resp, w) = claude_send transport m body w
          in (try_then resp (\<lambda>resp.
                case body_bytes (hs_body resp) of
                  Inl e \<Rightarrow> Inl (PTransport e)
                | Inr bytes \<Rightarrow>
                    if \<not> is_success (hs_status resp)
                    then Inl (api_error lib (hs_status resp) (lossy bytes) (parse_retry_after (hs_retry_after resp)))
                    else
                      (case jl_parse lib (lossy bytes) of
                         Inl e \<Rightarrow> Inl (PDecode e (lossy bytes))
                       | Inr v \<Rightarrow> parse_response v)), w))"

definition claude_stream ::
  "json_lib \<Rightarrow> (string \<Rightarrow> nat \<times> nat) \<Rightarrow> (string \<Rightarrow> string) \<Rightarrow> ('f \<Rightarrow> jvalue) \<Rightarrow> (u8 list \<Rightarrow> string) \<Rightarrow> 'w transport \<Rightarrow> claude_model \<Rightarrow>
     'f chat_request \<Rightarrow> 'w \<Rightarrow> (provider_error + (provider_error + stream_event) list) \<times> 'w" where
  "claude_stream lib locate lossy json_f64 b64 transport m r w =
     (case claude_body json_f64 b64 m r True of
        Inl e \<Rightarrow> (Inl e, w)
      | Inr body \<Rightarrow>
          let (resp, w) = claude_send transport m body w
          in (try_then resp (\<lambda>resp. try_then (ensure_success lib lossy resp) (\<lambda>resp.
                Inr (claude_decode lib locate (hs_body resp)))), w))"

end
