(* ===== verification/ClaudeRequestProps.thy ===== *)
theory ClaudeRequestProps
  imports ClaudeRequest
begin

text \<open>
  Properties of the requests to Claude: the cache breakpoints of a whole request stay within the provider's limit and
  are absent when caching is off, every body has the shape the provider reads, and an assistant turn survives being
  sent and read back.
\<close>

subsection \<open>Cache breakpoints\<close>

definition has_mark :: "jvalue \<Rightarrow> bool" where
  "has_mark v \<longleftrightarrow> jget v ''cache_control'' \<noteq> None"

definition marks_in :: "jvalue option \<Rightarrow> nat" where
  "marks_in v = (case Option.bind v as_array of Some vs \<Rightarrow> length (filter has_mark vs) | None \<Rightarrow> 0)"

definition message_marks :: "jvalue \<Rightarrow> nat" where
  "message_marks m = marks_in (jget m ''content'')"

text \<open>The breakpoints of a request body, wherever the provider reads them.\<close>

definition body_breakpoints :: "jvalue \<Rightarrow> nat" where
  "body_breakpoints body =
     marks_in (jget body ''tools'') + marks_in (jget body ''system'') +
     (case Option.bind (jget body ''messages'') as_array of Some ms \<Rightarrow> sum_list (map message_marks ms) | None \<Rightarrow> 0)"

lemma breakpoint_budget:
  "breakpoint ttl wanted budget = (mark, budget') \<Longrightarrow> budget' + (if mark = None then 0 else 1) = budget"
  by (auto simp: breakpoint_def take_slot_def split: option.splits if_splits)

lemma breakpoint_off [simp]: "breakpoint None wanted budget = (None, budget)"
  by (simp add: breakpoint_def)

lemma has_mark_tool [simp]: "has_mark (map_tool t mark) \<longleftrightarrow> mark \<noteq> None"
  by (cases mark) (simp_all add: has_mark_def map_tool_def jget_json_object)

lemma map_tools_budget:
  "map_tools ts cache_last ttl budget = (vs, budget') \<Longrightarrow> budget' + length (filter has_mark vs) = budget"
proof (induction ts cache_last ttl budget arbitrary: vs budget' rule: map_tools.induct)
  case (2 t ts cache_last ttl budget)
  obtain mark b where b: "breakpoint ttl (td_cache t \<or> (cache_last \<and> ts = [])) budget = (mark, b)" by fastforce
  obtain rest b' where rest: "map_tools ts cache_last ttl b = (rest, b')" by fastforce
  from 2(2) b rest have v: "vs = map_tool t mark # rest" "budget' = b'" by auto
  show ?case using 2(1) [OF b [symmetric] refl rest] breakpoint_budget [OF b] unfolding v by (cases mark) auto
qed simp

lemma map_tools_off: "map_tools ts cache_last None budget = (map (\<lambda>t. map_tool t None) ts, budget)"
  by (induction ts) auto

lemma map_system_budget:
  assumes "map_system s cache ttl budget = (v, budget')"
  shows "budget' + marks_in (Some v) = budget"
proof -
  obtain mark b where b: "breakpoint ttl (cache \<or> sp_cache s) budget = (mark, b)" by fastforce
  with assms breakpoint_budget [OF b] show ?thesis
    by (cases mark) (auto simp: map_system_def marks_in_def has_mark_def jget_json_object)
qed

lemma unmarked_assistant [simp]: "\<not> has_mark (map_assistant_block b)"
proof (cases b rule: map_assistant_block.cases)
  case (3 t signature)
  then show ?thesis by (cases signature) (simp_all add: has_mark_def jget_json_object)
qed (simp_all add: has_mark_def jget_json_object)

lemma unmarked_parts [simp]: "v \<in> set (result_block b64 p) \<Longrightarrow> \<not> has_mark v" "v \<in> set (plain_block b64 p) \<Longrightarrow> \<not> has_mark v"
  by (cases p; simp add: has_mark_def jget_json_object)+

lemma unmarked_message [simp]: "message_marks (map_message b64 m) = 0"
  by (cases m) (auto simp: message_marks_def marks_in_def jget_json_object filter_empty_conv)

lemma mark_last_block_cases:
  assumes "mark_last_block ttl m budget = (m', budget')"
  obtains (kept) "m' = m" "budget' = budget"
    | (marked) blocks block kvs where "jget m ''content'' = Some (JArray blocks)" "blocks \<noteq> []" "last blocks = JObject block"
        "m = JObject kvs" "budget = Suc budget'"
        "m' = JObject (jmap_insert ''content''
           (JArray (butlast blocks @ [JObject (jmap_insert ''cache_control'' (cache_control ttl) block)])) kvs)"
  using assms
  by (cases m; cases "jget m ''content''")
    (auto simp: mark_last_block_def take_slot_def Let_def split: option.splits if_splits jvalue.splits elim!: as_array.elims)

lemma mark_last_block_budget:
  assumes "mark_last_block ttl m budget = (m', budget')" "message_marks m = 0"
  shows "budget' + message_marks m' = budget"
  using assms(1)
proof (cases rule: mark_last_block_cases)
  case kept
  with assms(2) show ?thesis by simp
next
  case (marked blocks block kvs)
  have "filter has_mark (butlast blocks) = []"
    using assms(2) marked(1) by (auto simp: message_marks_def marks_in_def filter_empty_conv dest: in_set_butlastD)
  then show ?thesis using marked by (simp add: message_marks_def marks_in_def has_mark_def)
qed

lemma map_messages_budget:
  "map_messages b64 i ms targets ttl budget = (vs, budget') \<Longrightarrow> budget' + sum_list (map message_marks vs) = budget"
proof (induction b64 i ms targets ttl budget arbitrary: vs budget' rule: map_messages.induct)
  case (2 b64 i m ms targets ttl budget)
  obtain v b where v: "(case ttl of Some t \<Rightarrow> if i \<in> set targets then mark_last_block t (map_message b64 m) budget
      else (map_message b64 m, budget) | None \<Rightarrow> (map_message b64 m, budget)) = (v, b)" by fastforce
  obtain rest b' where rest: "map_messages b64 (i + 1) ms targets ttl b = (rest, b')" by fastforce
  from 2(2) v rest have e: "vs = v # rest" "budget' = b'" by (auto simp: Let_def)
  have "b + message_marks v = budget"
    using v mark_last_block_budget by (auto split: option.splits if_splits)
  then show ?case using 2(1) [OF refl v [symmetric] refl rest] unfolding e by simp
qed simp

lemma map_messages_off: "map_messages b64 i ms targets None budget = (map (map_message b64) ms, budget)"
  by (induction ms arbitrary: i) auto

subsection \<open>Reading the body\<close>

definition wire_keys :: "string set" where
  "wire_keys = {''tools'', ''system'', ''messages''}"

lemma map_of_extra_None: "k \<notin> fst ` set extra \<Longrightarrow> map_of (rev extra) k = None"
  by (simp add: map_of_eq_None_iff)

lemma body_parts:
  assumes "wire_keys \<inter> fst ` set (cr_extra r) = {}" and p: "mapped_parts b64 r = (tools, system, messages)"
  shows "jget (build_body json_f64 b64 model r stream) ''tools'' = (if cr_tools r = [] then None else Some (JArray tools))"
    "jget (build_body json_f64 b64 model r stream) ''system'' = system"
    "jget (build_body json_f64 b64 model r stream) ''messages'' = Some (JArray messages)"
proof -
  have extra: "map_of (rev (cr_extra r)) ''tools'' = None" "map_of (rev (cr_extra r)) ''system'' = None"
    "map_of (rev (cr_extra r)) ''messages'' = None"
    using assms(1) by (auto simp: wire_keys_def intro!: map_of_extra_None)
  show "jget (build_body json_f64 b64 model r stream) ''tools'' = (if cr_tools r = [] then None else Some (JArray tools))"
    "jget (build_body json_f64 b64 model r stream) ''system'' = system"
    "jget (build_body json_f64 b64 model r stream) ''messages'' = Some (JArray messages)"
    using extra p
    by (simp_all add: build_body_def jget_json_object map_add_def opt_field_def split: option.splits)
qed

lemma mapped_parts_marks:
  assumes "mapped_parts b64 r = (tools, system, messages)"
  shows "length (filter has_mark tools) + marks_in system + sum_list (map message_marks messages) \<le> MAX_BREAKPOINTS"
proof -
  define plan where "plan = resolve_plan r"
  define ttl where "ttl = cache_ttl_of (cr_cache r)"
  obtain ts b1 where t: "(if cr_tools r = [] then ([], MAX_BREAKPOINTS)
      else map_tools (cr_tools r) (cache_last_tool plan) ttl MAX_BREAKPOINTS) = (ts, b1)" by fastforce
  obtain s b2 where s: "(case cr_system r of
      Some s \<Rightarrow> let (v, budget) = map_system s (cache_system plan) ttl b1 in (Some v, budget)
    | None \<Rightarrow> (None, b1)) = (s, b2)" by fastforce
  obtain ms b3 where m: "map_messages b64 0 (cr_messages r) (message_breakpoints plan) ttl b2 = (ms, b3)" by fastforce
  have parts: "tools = ts" "system = s" "messages = ms"
    using assms t s m unfolding mapped_parts_def Let_def plan_def [symmetric] ttl_def [symmetric] by simp_all
  have "b1 + length (filter has_mark ts) = MAX_BREAKPOINTS"
    using t map_tools_budget by (auto split: if_splits)
  moreover have "b2 + marks_in s = b1"
  proof (cases "cr_system r")
    case None
    with s show ?thesis by (simp add: marks_in_def)
  next
    case (Some x)
    with s obtain v where "map_system x (cache_system plan) ttl b1 = (v, b2)" "s = Some v"
      by (auto split: prod.splits)
    with map_system_budget show ?thesis by blast
  qed
  ultimately show ?thesis using map_messages_budget [OF m] unfolding parts by simp
qed

lemma mapped_parts_off:
  assumes "cr_cache r = CacheOff"
  shows "mapped_parts b64 r =
    (map (\<lambda>t. map_tool t None) (cr_tools r), map_option (\<lambda>s. JString (sp_text s)) (cr_system r),
     map (map_message b64) (cr_messages r))"
  using assms
  by (cases "cr_system r"; cases "cr_tools r = []")
    (simp_all add: mapped_parts_def cache_ttl_of_def map_tools_off map_messages_off map_system_def Let_def)

lemma unmarked_off:
  assumes "mapped_parts b64 r = (tools, system, messages)" "cr_cache r = CacheOff"
  shows "length (filter has_mark tools) + marks_in system + sum_list (map message_marks messages) = 0"
proof -
  have e: "tools = map (\<lambda>t. map_tool t None) (cr_tools r)" "system = map_option (\<lambda>s. JString (sp_text s)) (cr_system r)"
    "messages = map (map_message b64) (cr_messages r)"
    using assms(1) mapped_parts_off [OF assms(2), of b64] by simp_all
  show ?thesis unfolding e by (cases "cr_system r") (simp_all add: marks_in_def o_def)
qed

text \<open>C29: However many tools, prompts and messages ask for one, a request to Claude has at most four cache breakpoints in
  all, the number the API accepts, counted over its tools, its system prompt and the blocks of its messages; with
  caching off it has none. The extra fields of the request must not replace those three.
\<close>

theorem claude_breakpoints_bounded:
  assumes "wire_keys \<inter> fst ` set (cr_extra r) = {}"
  shows "body_breakpoints (build_body json_f64 b64 model r stream) \<le> MAX_BREAKPOINTS \<and>
    (cr_cache r = CacheOff \<longrightarrow> body_breakpoints (build_body json_f64 b64 model r stream) = 0)"
proof -
  obtain tools system messages where p: "mapped_parts b64 r = (tools, system, messages)" by (metis prod_cases3)
  have "body_breakpoints (build_body json_f64 b64 model r stream) \<le>
      length (filter has_mark tools) + marks_in system + sum_list (map message_marks messages)"
    using body_parts [OF assms p] by (auto simp: body_breakpoints_def marks_in_def)
  then show ?thesis using mapped_parts_marks [OF p] unmarked_off [OF p] by (metis le_trans le_zero_eq)
qed

definition claude_demo_request :: "nat chat_request" where
  "claude_demo_request =
     \<lparr>cr_model = ''claude-opus-5'', cr_system = Some \<lparr>sp_text = ''be brief'', sp_cache = True\<rparr>,
      cr_messages = [User [UText ''hi''], Assistant [AThinking (Visible ''hm'' (Some ''sig'')), AText ''yes''],
        User [UText ''go'', UToolResult ''t1'' [PartText ''ok''] False]],
      cr_tools = [(tool_def_new ''f'' ''does'' (JObject []))\<lparr>td_cache := True\<rparr>, tool_def_new ''g'' ''more'' (JObject [])],
      cr_tool_choice = ChooseAuto, cr_max_tokens = 100, cr_temperature = None, cr_stop_sequences = [],
      cr_thinking = ThinkOff, cr_cache = Breakpoints FiveMin [CacheTools, LastUserMessage, MessageIndex 0, MessageIndex 1],
      cr_cache_key = None, cr_parallel_tool_calls = None, cr_extra = []\<rparr>"

theorem claude_breakpoints_bounded_witness:
  "body_breakpoints (build_body jnum (\<lambda>_. []) ''claude-opus-5'' claude_demo_request True) \<le> 4 \<and>
   body_breakpoints (build_body jnum (\<lambda>_. []) ''claude-opus-5'' (claude_demo_request\<lparr>cr_cache := CacheOff\<rparr>) True) = 0"
  using claude_breakpoints_bounded [of claude_demo_request jnum "\<lambda>_. []" "''claude-opus-5''" True]
    claude_breakpoints_bounded [of "claude_demo_request\<lparr>cr_cache := CacheOff\<rparr>" jnum "\<lambda>_. []" "''claude-opus-5''" True]
  by (simp add: claude_demo_request_def MAX_BREAKPOINTS_def)

subsection \<open>The shape of a request\<close>

text \<open>A message as it is sent: mapped, and perhaps marked.\<close>

definition sent_as :: "(u8 list \<Rightarrow> string) \<Rightarrow> message \<Rightarrow> jvalue \<Rightarrow> bool" where
  "sent_as b64 m v \<longleftrightarrow>
     v = map_message b64 m \<or> (\<exists>ttl budget budget'. mark_last_block ttl (map_message b64 m) budget = (v, budget'))"

lemma map_messages_sent: "map_messages b64 i ms targets ttl budget = (vs, budget') \<Longrightarrow> list_all2 (sent_as b64) ms vs"
proof (induction b64 i ms targets ttl budget arbitrary: vs budget' rule: map_messages.induct)
  case (2 b64 i m ms targets ttl budget)
  obtain v b where v: "(case ttl of Some t \<Rightarrow> if i \<in> set targets then mark_last_block t (map_message b64 m) budget
      else (map_message b64 m, budget) | None \<Rightarrow> (map_message b64 m, budget)) = (v, b)" by fastforce
  obtain rest b' where rest: "map_messages b64 (i + 1) ms targets ttl b = (rest, b')" by fastforce
  from 2(2) v rest have e: "vs = v # rest" by (auto simp: Let_def)
  have "sent_as b64 m v" using v by (auto simp: sent_as_def split: option.splits if_splits)
  then show ?case using 2(1) [OF refl v [symmetric] refl rest] unfolding e by simp
qed simp

lemma mapped_parts_sent: "mapped_parts b64 r = (tools, system, messages) \<Longrightarrow> list_all2 (sent_as b64) (cr_messages r) messages"
  by (auto simp: mapped_parts_def Let_def split: prod.splits intro: map_messages_sent)

text \<open>The blocks of a message, and what a mark leaves of them.\<close>

fun message_blocks :: "(u8 list \<Rightarrow> string) \<Rightarrow> message \<Rightarrow> jvalue list" where
  "message_blocks b64 (User parts) = concat (map (result_block b64) parts) @ concat (map (plain_block b64) parts)"
| "message_blocks b64 (Assistant parts) = map map_assistant_block parts"

fun turn_role :: "message \<Rightarrow> string" where
  "turn_role (User parts) = ''user''"
| "turn_role (Assistant parts) = ''assistant''"

definition same_block :: "jvalue \<Rightarrow> jvalue \<Rightarrow> bool" where
  "same_block v v' \<longleftrightarrow> (\<forall>k. k \<noteq> ''cache_control'' \<longrightarrow> jget v' k = jget v k)"

lemma same_block_refl [simp]: "same_block v v"
  by (simp add: same_block_def)

lemma map_message_fields [simp]:
  "jget (map_message b64 m) ''content'' = Some (JArray (message_blocks b64 m))"
  "jget (map_message b64 m) ''role'' = Some (JString (turn_role m))"
  by (cases m; simp add: jget_json_object)+

lemma sent_blocks:
  assumes "sent_as b64 m v"
  shows "get_str v ''role'' = Some (turn_role m)"
    "\<exists>blocks. jget v ''content'' = Some (JArray blocks) \<and> list_all2 same_block (message_blocks b64 m) blocks"
proof -
  from assms consider "v = map_message b64 m"
    | ttl budget budget' where "mark_last_block ttl (map_message b64 m) budget = (v, budget')"
    unfolding sent_as_def by blast
  then have "get_str v ''role'' = Some (turn_role m) \<and>
    (\<exists>blocks. jget v ''content'' = Some (JArray blocks) \<and> list_all2 same_block (message_blocks b64 m) blocks)"
  proof cases
    case 1
    then show ?thesis by (simp add: get_str_def list_all2_refl)
  next
    case 2
    then show ?thesis
    proof (cases rule: mark_last_block_cases)
      case kept
      then show ?thesis by (simp add: get_str_def list_all2_refl)
    next
      case (marked blocks block kvs)
      let ?last = "JObject (jmap_insert ''cache_control'' (cache_control ttl) block)"
      have "list_all2 same_block (butlast blocks @ [JObject block]) (butlast blocks @ [?last])"
        by (intro list_all2_appendI list_all2_refl) (simp_all add: same_block_def)
      moreover have "butlast blocks @ [JObject block] = message_blocks b64 m"
        using marked(1-3) append_butlast_last_id [of blocks] by simp
      moreover have "get_str v ''role'' = get_str (map_message b64 m) ''role''"
        using marked(4,6) by (simp add: get_str_def)
      ultimately show ?thesis using marked(6) by (simp add: get_str_def)
    qed
  qed
  then show "get_str v ''role'' = Some (turn_role m)"
    "\<exists>blocks. jget v ''content'' = Some (JArray blocks) \<and> list_all2 same_block (message_blocks b64 m) blocks"
    by auto
qed

text \<open>What the API reads as a content block, and the form of a turn: tool results before anything else.\<close>

definition block_type :: "jvalue \<Rightarrow> string option" where
  "block_type v = get_str v ''type''"

definition wire_turn :: "jvalue \<Rightarrow> bool" where
  "wire_turn v \<longleftrightarrow>
     (case Option.bind (jget v ''content'') as_array of
        Some blocks \<Rightarrow>
          (\<forall>b \<in> set blocks. block_type b \<noteq> None) \<and>
          (\<exists>k. (\<forall>b \<in> set (take k blocks). block_type b = Some ''tool_result'') \<and>
               (\<forall>b \<in> set (drop k blocks). block_type b \<noteq> Some ''tool_result''))
      | None \<Rightarrow> False)"

lemma block_types [simp]:
  "b \<in> set (result_block b64 p) \<Longrightarrow> block_type b = Some ''tool_result''"
  "b \<in> set (plain_block b64 p) \<Longrightarrow> block_type b \<notin> {None, Some ''tool_result''}"
  by (cases p; simp add: block_type_def get_str_def jget_json_object)+

lemma assistant_block_type: "block_type (map_assistant_block b) \<notin> {None, Some ''tool_result''}"
proof (cases b rule: map_assistant_block.cases)
  case (3 t signature)
  then show ?thesis by (cases signature) (simp_all add: block_type_def get_str_def jget_json_object)
qed (simp_all add: block_type_def get_str_def jget_json_object)

lemma message_blocks_split:
  "\<exists>as bs. message_blocks b64 m = as @ bs \<and> (\<forall>b \<in> set as. block_type b = Some ''tool_result'') \<and>
     (\<forall>b \<in> set bs. block_type b \<notin> {None, Some ''tool_result''})"
proof (cases m)
  case (User parts)
  then show ?thesis using block_types(2)
    by (intro exI [of _ "concat (map (result_block b64) parts)"] exI [of _ "concat (map (plain_block b64) parts)"]) auto
next
  case (Assistant parts)
  then show ?thesis using assistant_block_type
    by (intro exI [of _ "[]"] exI [of _ "map map_assistant_block parts"]) auto
qed

lemma same_block_types:
  "list_all2 same_block as bs \<Longrightarrow> block_type ` set bs = block_type ` set as"
  by (induction rule: list_all2_induct) (auto simp: same_block_def block_type_def get_str_def)

lemma sent_turn:
  assumes "sent_as b64 m v"
  shows "wire_turn v"
proof -
  obtain blocks where b: "jget v ''content'' = Some (JArray blocks)" "list_all2 same_block (message_blocks b64 m) blocks"
    using sent_blocks(2) [OF assms] by blast
  obtain as bs where m: "message_blocks b64 m = as @ bs" "\<forall>b \<in> set as. block_type b = Some ''tool_result''"
    "\<forall>b \<in> set bs. block_type b \<notin> {None, Some ''tool_result''}" using message_blocks_split by blast
  obtain as' bs' where s: "blocks = as' @ bs'" "list_all2 same_block as as'" "list_all2 same_block bs bs'"
    using b(2) unfolding m(1) by (auto simp: list_all2_append1)
  have "\<forall>t \<in> block_type ` set as'. t = Some ''tool_result''" "\<forall>t \<in> block_type ` set bs'. t \<notin> {None, Some ''tool_result''}"
    unfolding same_block_types [OF s(2)] same_block_types [OF s(3)] using m(2,3) by simp_all
  then have tr: "\<forall>b \<in> set as'. block_type b = Some ''tool_result''"
    and pl: "\<forall>b \<in> set bs'. block_type b \<noteq> None \<and> block_type b \<noteq> Some ''tool_result''" by simp_all
  have "(\<forall>b \<in> set blocks. block_type b \<noteq> None) \<and> (\<forall>b \<in> set (take (length as') blocks). block_type b = Some ''tool_result'') \<and>
      (\<forall>b \<in> set (drop (length as') blocks). block_type b \<noteq> Some ''tool_result'')"
    unfolding s(1) using tr pl by (simp add: ball_Un)
  then show ?thesis unfolding wire_turn_def b(1) bind.bind_lunit as_array.simps option.case by blast
qed

text \<open>C30: Every request body is an object with its keys in order and without repetition, its token limit is the number
  asked for, and its messages are the conversation, one for one: each has the role of its turn, every content block names
  its type, and the tool results of a turn come before anything else, as the API demands.
\<close>

theorem claude_body_typed:
  assumes "{''max_tokens'', ''messages''} \<inter> fst ` set (cr_extra r) = {}"
  shows "\<exists>m vs. build_body json_f64 b64 model r stream = JObject m \<and> jmap_sorted m \<and>
    get_u64 (JObject m) ''max_tokens'' = Some (ucast (cr_max_tokens r)) \<and> map_of m ''messages'' = Some (JArray vs) \<and>
    map (\<lambda>v. get_str v ''role'') vs = map (Some \<circ> turn_role) (cr_messages r) \<and> (\<forall>v \<in> set vs. wire_turn v)"
proof -
  obtain tools system vs where p: "mapped_parts b64 r = (tools, system, vs)" by (metis prod_cases3)
  have extra: "map_of (rev (cr_extra r)) ''max_tokens'' = None" "map_of (rev (cr_extra r)) ''messages'' = None"
    using assms by (auto intro!: map_of_extra_None)
  obtain m where m: "build_body json_f64 b64 model r stream = JObject m" "jmap_sorted m"
    unfolding build_body_def p Let_def prod.case using json_object_shape by blast
  have "jget (build_body json_f64 b64 model r stream) ''messages'' = Some (JArray vs)"
    "jget (build_body json_f64 b64 model r stream) ''max_tokens'' = Some (jnum (unat (cr_max_tokens r)))"
    using extra p by (simp_all add: build_body_def jget_json_object map_add_def opt_field_def split: option.splits)
  then have f: "map_of m ''messages'' = Some (JArray vs)" "map_of m ''max_tokens'' = Some (jnum (unat (cr_max_tokens r)))"
    unfolding m(1) by simp_all
  have "unat (cr_max_tokens r) < 2 ^ 64" using unsigned_less [of "cr_max_tokens r", where 'a = nat] by simp
  from as_u64_jnum [OF this] have "get_u64 (JObject m) ''max_tokens'' = Some (ucast (cr_max_tokens r))"
    by (simp add: get_u64_def f(2) unsigned_ucast_eq)
  moreover have "map (\<lambda>v. get_str v ''role'') vs = map (Some \<circ> turn_role) (cr_messages r)"
    using mapped_parts_sent [OF p] sent_blocks(1) by (auto simp: list_eq_iff_nth_eq list_all2_conv_all_nth)
  moreover have "\<forall>v \<in> set vs. wire_turn v"
    using mapped_parts_sent [OF p] sent_turn by (metis in_set_conv_nth list_all2_conv_all_nth)
  ultimately show ?thesis using m f(1) by blast
qed

theorem claude_body_typed_witness:
  "\<exists>m vs. build_body jnum (\<lambda>_. []) ''claude-opus-5'' claude_demo_request True = JObject m \<and> jmap_sorted m \<and>
    get_u64 (JObject m) ''max_tokens'' = Some 100 \<and> map_of m ''messages'' = Some (JArray vs) \<and>
    map (\<lambda>v. get_str v ''role'') vs = map Some [''user'', ''assistant'', ''user''] \<and> (\<forall>v \<in> set vs. wire_turn v)"
  using claude_body_typed [of claude_demo_request jnum "\<lambda>_. []" "''claude-opus-5''" True]
  by (simp add: claude_demo_request_def)

subsection \<open>Reading a turn back\<close>

lemma parse_same_block:
  assumes "same_block v v'"
  shows "parse_assistant_block v' = parse_assistant_block v"
proof -
  have same: "jget v' k = jget v k" "get_str v' k = get_str v k" if "k \<noteq> ''cache_control''" for k
    using assms that by (simp_all add: same_block_def get_str_def)
  show ?thesis unfolding parse_assistant_block_def by (simp add: same cong: option.case_cong if_cong)
qed

lemma parse_mapped_block: "parse_assistant_block (map_assistant_block b) = Some b"
proof (cases b rule: map_assistant_block.cases)
  case (3 t signature)
  then show ?thesis by (cases signature) (simp_all add: parse_assistant_block_def get_str_def jget_json_object)
qed (simp_all add: parse_assistant_block_def get_str_def jget_json_object)

lemma parse_sent_blocks:
  "list_all2 same_block (map map_assistant_block bs) blocks \<Longrightarrow> map parse_assistant_block blocks = map Some bs"
  by (induction bs arbitrary: blocks) (auto simp: list_all2_Cons1 parse_same_block parse_mapped_block)

text \<open>C31: An assistant turn is sent to Claude exactly as it was received: reading the blocks of its message in the request
  with the decoder of responses gives the same blocks, with their ids, arguments, reasoning and signatures, whether or
  not a cache breakpoint was put on the message.
\<close>

theorem claude_turn_roundtrip:
  assumes "''messages'' \<notin> fst ` set (cr_extra r)" and i: "i < length (cr_messages r)" and a: "cr_messages r ! i = Assistant bs"
  shows "\<exists>vs blocks. jget (build_body json_f64 b64 model r stream) ''messages'' = Some (JArray vs) \<and>
    jget (vs ! i) ''content'' = Some (JArray blocks) \<and> map parse_assistant_block blocks = map Some bs"
proof -
  obtain tools system vs where p: "mapped_parts b64 r = (tools, system, vs)" by (metis prod_cases3)
  have "jget (build_body json_f64 b64 model r stream) ''messages'' = Some (JArray vs)"
    using map_of_extra_None [OF assms(1)] p
    by (simp add: build_body_def jget_json_object map_add_def opt_field_def split: option.splits)
  moreover have "sent_as b64 (Assistant bs) (vs ! i)"
    using mapped_parts_sent [OF p] i a by (metis list_all2_conv_all_nth)
  from sent_blocks(2) [OF this] parse_sent_blocks
  have "\<exists>blocks. jget (vs ! i) ''content'' = Some (JArray blocks) \<and> map parse_assistant_block blocks = map Some bs"
    by (metis message_blocks.simps(2))
  ultimately show ?thesis by blast
qed

theorem claude_turn_roundtrip_witness:
  "\<exists>vs blocks. jget (build_body jnum (\<lambda>_. []) ''claude-opus-5'' claude_demo_request True) ''messages'' = Some (JArray vs) \<and>
    jget (vs ! 1) ''content'' = Some (JArray blocks) \<and>
    map parse_assistant_block blocks = [Some (AThinking (Visible ''hm'' (Some ''sig''))), Some (AText ''yes'')]"
  using claude_turn_roundtrip [of claude_demo_request 1 "[AThinking (Visible ''hm'' (Some ''sig'')), AText ''yes'']" jnum "\<lambda>_. []"
      "''claude-opus-5''" True]
  by (simp add: claude_demo_request_def)

end
