(* ===== verification/OpenAiRequest.thy ===== *)
theory OpenAiRequest
  imports OpenAiStream ProviderHttp
begin

text \<open>
  Requests to the OpenAI provider (\<^verbatim>\<open>ai-sdk/src/provider/openai.rs\<close>, \<^verbatim>\<open>openai/capabilities.rs\<close>,
  \<^verbatim>\<open>openai/response.rs\<close>): the request body, the check of it after extras, the response that is not streamed, and the
  two calls of the provider. Base64, the JSON form of a floating-point number and the position of a parse error are
  arguments.
\<close>

subsection \<open>Models\<close>

definition is_registered_chat_model :: "string \<Rightarrow> bool" where
  "is_registered_chat_model model \<longleftrightarrow> model = ''gpt-6-sol'' \<or> model = ''gpt-6-luna''"

definition model_capabilities :: "string \<Rightarrow> provider_capabilities" where
  "model_capabilities model =
     (if \<not> is_registered_chat_model model then default_capabilities
      else default_capabilities\<lparr>pc_sampling_params := False, pc_prompt_cache := True, pc_vision := True,
             pc_max_output_tokens := Some 128000\<rparr>)"

definition openai_cache_capabilities :: "string \<Rightarrow> cache_capabilities" where
  "openai_cache_capabilities model =
     (if is_registered_chat_model model \<or> model = ''gpt-4o'' \<or> model = ''gpt-4o-mini'' then CacheKnown True None
      else CacheUnknown)"

subsection \<open>The parts of a request\<close>

definition tool_result_text :: "tool_result_part list \<Rightarrow> string" where
  "tool_result_text content = join [LF] (map (\<lambda>p. case p of PartText t \<Rightarrow> t | PartImage m \<Rightarrow> ''[image]'') content)"

definition data_uri :: "(u8 list \<Rightarrow> string) \<Rightarrow> string \<Rightarrow> u8 list \<Rightarrow> string" where
  "data_uri b64 media_type bytes = ''data:'' @ media_type @ '';base64,'' @ b64 bytes"

fun map_document_part :: "(u8 list \<Rightarrow> string) \<Rightarrow> media \<Rightarrow> jvalue" where
  "map_document_part b64 (Url url) = json_object [text_field ''type'' ''text'', text_field ''text'' url]"
| "map_document_part b64 (FileId file_id) =
     json_object [text_field ''type'' ''file'', (''file'', json_object [text_field ''file_id'' file_id])]"
| "map_document_part b64 (Base64 media_type bytes) =
     json_object [text_field ''type'' ''file'',
       (''file'', json_object
          [text_field ''filename'' (if media_type = ''application/pdf'' then ''document.pdf'' else ''document''),
           text_field ''file_data'' (data_uri b64 media_type bytes)])]"

fun map_image_block :: "(u8 list \<Rightarrow> string) \<Rightarrow> media \<Rightarrow> jvalue" where
  "map_image_block b64 (Url url) =
     json_object [text_field ''type'' ''image_url'', (''image_url'', json_object [text_field ''url'' url])]"
| "map_image_block b64 (Base64 media_type bytes) =
     json_object [text_field ''type'' ''image_url'', (''image_url'', json_object [text_field ''url'' (data_uri b64 media_type bytes)])]"
| "map_image_block b64 (FileId file_id) =
     json_object [text_field ''type'' ''input_image'', text_field ''file_id'' file_id]"

fun tool_message :: "user_content \<Rightarrow> jvalue list" where
  "tool_message (UToolResult i content is_error) =
     [json_object [text_field ''role'' ''tool'', text_field ''tool_call_id'' i, text_field ''content'' (tool_result_text content)]]"
| "tool_message _ = []"

fun content_part :: "(u8 list \<Rightarrow> string) \<Rightarrow> user_content \<Rightarrow> jvalue list" where
  "content_part b64 (UText t) = [json_object [text_field ''type'' ''text'', text_field ''text'' t]]"
| "content_part b64 (UImage img) = [map_image_block b64 img]"
| "content_part b64 (UDocument doc) = [map_document_part b64 doc]"
| "content_part b64 (UToolResult i content is_error) = []"

fun is_multipart :: "user_content \<Rightarrow> bool" where
  "is_multipart (UImage img) = True"
| "is_multipart (UDocument doc) = True"
| "is_multipart _ = False"

fun user_text :: "user_content \<Rightarrow> string option" where
  "user_text (UText t) = Some t"
| "user_text _ = None"

definition map_user_parts :: "(u8 list \<Rightarrow> string) \<Rightarrow> user_content list \<Rightarrow> jvalue list" where
  "map_user_parts b64 parts =
     concat (map tool_message parts) @
     (if list_ex is_multipart parts then
        let content = concat (map (content_part b64) parts)
        in if content = [] then [] else [json_object [text_field ''role'' ''user'', (''content'', JArray content)]]
      else
        let t = join [LF] (List.map_filter user_text parts)
        in if t = [] then [] else [json_object [text_field ''role'' ''user'', text_field ''content'' t]])"

fun assistant_text :: "assistant_content \<Rightarrow> string" where
  "assistant_text (AText t) = t"
| "assistant_text _ = []"

fun assistant_call :: "json_lib \<Rightarrow> assistant_content \<Rightarrow> jvalue list" where
  "assistant_call lib (AToolUse i name inp) =
     [json_object [text_field ''id'' i, text_field ''type'' ''function'',
        (''function'', json_object [text_field ''name'' name, text_field ''arguments'' (jl_print lib inp)])]]"
| "assistant_call lib _ = []"

definition map_assistant :: "json_lib \<Rightarrow> assistant_content list \<Rightarrow> jvalue" where
  "map_assistant lib parts =
     (let t = concat (map assistant_text parts); calls = concat (map (assistant_call lib) parts)
      in json_object
           ([text_field ''role'' ''assistant'', (''content'', if t = [] then JNull else JString t)] @
            (if calls = [] then [] else [(''tool_calls'', JArray calls)])))"

fun openai_message :: "json_lib \<Rightarrow> (u8 list \<Rightarrow> string) \<Rightarrow> message \<Rightarrow> jvalue list" where
  "openai_message lib b64 (User parts) = map_user_parts b64 parts"
| "openai_message lib b64 (Assistant parts) = [map_assistant lib parts]"

definition openai_messages :: "json_lib \<Rightarrow> (u8 list \<Rightarrow> string) \<Rightarrow> system_prompt option \<Rightarrow> message list \<Rightarrow> jvalue list" where
  "openai_messages lib b64 system messages =
     (case system of Some s \<Rightarrow> [json_object [text_field ''role'' ''system'', text_field ''content'' (sp_text s)]] | None \<Rightarrow> []) @
     concat (map (openai_message lib b64) messages)"

definition openai_tool_def :: "tool_def \<Rightarrow> jvalue" where
  "openai_tool_def t =
     json_object [text_field ''type'' ''function'',
       (''function'', json_object
          ([text_field ''name'' (td_name t), text_field ''description'' (td_description t), (''parameters'', td_parameters t)] @
           opt_field ''strict'' (if td_strict t then Some (JBool True) else None)))]"

fun openai_tool_choice :: "tool_choice \<Rightarrow> jvalue" where
  "openai_tool_choice ChooseAuto = JString ''auto''"
| "openai_tool_choice ChooseNone = JString ''none''"
| "openai_tool_choice (ChooseTool name) =
     json_object [text_field ''type'' ''function'', (''function'', json_object [text_field ''name'' name])]"
| "openai_tool_choice _ = JString ''required''"

subsection \<open>The request body\<close>

definition openai_build_body ::
  "json_lib \<Rightarrow> ('f \<Rightarrow> jvalue) \<Rightarrow> (u8 list \<Rightarrow> string) \<Rightarrow> string \<Rightarrow> 'f chat_request \<Rightarrow> bool \<Rightarrow> jvalue" where
  "openai_build_body lib json_f64 b64 model r stream =
     (let caps = model_capabilities model;
          max_tokens = (case pc_max_output_tokens caps of Some limit \<Rightarrow> min (cr_max_tokens r) limit | None \<Rightarrow> cr_max_tokens r)
      in json_object
           ([text_field ''model'' model, (''max_completion_tokens'', jnum (unat max_tokens))] @
            (if is_registered_chat_model model then [text_field ''reasoning_effort'' ''none''] else []) @
            [(''messages'', JArray (openai_messages lib b64 (cr_system r) (cr_messages r)))] @
            (if cr_tools r = [] then []
             else [(''tools'', JArray (map openai_tool_def (cr_tools r))), (''tool_choice'', openai_tool_choice (cr_tool_choice r))] @
               opt_field ''parallel_tool_calls'' (map_option JBool (cr_parallel_tool_calls r))) @
            opt_field ''temperature'' (if pc_sampling_params caps then map_option json_f64 (cr_temperature r) else None) @
            (if cr_stop_sequences r = [] then [] else [(''stop'', JArray (map JString (cr_stop_sequences r)))]) @
            opt_field ''prompt_cache_key'' (map_option JString (cr_cache_key r)) @
            (if stream
             then [(''stream'', JBool True), (''stream_options'', json_object [(''include_usage'', JBool True)])] else []) @
            cr_extra r))"

definition openai_request_body :: "json_lib \<Rightarrow> ('f \<Rightarrow> jvalue) \<Rightarrow> (u8 list \<Rightarrow> string) \<Rightarrow> 'f chat_request \<Rightarrow> jvalue" where
  "openai_request_body lib json_f64 b64 r = openai_build_body lib json_f64 b64 (cr_model r) r False"

definition validate_body :: "jvalue \<Rightarrow> provider_error + unit" where
  "validate_body body =
     (let known = (case as_str (jindex body ''model'') of Some m \<Rightarrow> is_registered_chat_model m | None \<Rightarrow> False);
          tools = (case Option.bind (jget body ''tools'') as_array of Some ts \<Rightarrow> ts \<noteq> [] | None \<Rightarrow> False)
      in if known \<and> tools \<and> as_str (jindex body ''reasoning_effort'') \<noteq> Some ''none''
         then Inl (PInvalidArgument ''this Chat Completions model requires reasoning_effort=none when using tools'')
         else Inr ())"

subsection \<open>The response\<close>

text \<open>One text of the message, \<^verbatim>\<open>content\<close> or \<^verbatim>\<open>refusal\<close>.\<close>

definition message_text :: "jvalue \<Rightarrow> string \<Rightarrow> provider_error + assistant_content list" where
  "message_text message field =
     (case jget message field of
        None \<Rightarrow> Inr []
      | Some v \<Rightarrow>
          if v = JNull then Inr []
          else
            try_then (ok_or (as_str v) (decode_error ''invalid OpenAI message text'')) (\<lambda>t.
              Inr (if t = [] then [] else [AText t])))"

fun response_calls :: "json_lib \<Rightarrow> string list \<Rightarrow> jvalue list \<Rightarrow> provider_error + assistant_content list" where
  "response_calls lib ids [] = Inr []"
| "response_calls lib ids (call # calls) =
     (if (case jget call ''type'' of Some kind \<Rightarrow> as_str kind \<noteq> Some ''function'' | None \<Rightarrow> False)
      then Inl (decode_error ''unsupported OpenAI tool kind'')
      else
        try_then (required_text (jindex call ''id'')) (\<lambda>i.
          if i \<in> set ids then Inl (decode_error ''duplicate OpenAI tool call ID'')
          else
            let func = jindex call ''function''
            in try_then (required_text (jindex func ''name'')) (\<lambda>name.
               try_then (ok_or (as_str (jindex func ''arguments'')) (decode_error ''missing OpenAI tool arguments'')) (\<lambda>arguments.
               case jl_parse lib arguments of
                 Inl e \<Rightarrow> Inl (decode_error ''invalid OpenAI tool arguments JSON'')
               | Inr inp \<Rightarrow>
                   try_then (response_calls lib (i # ids) calls) (\<lambda>rest. Inr (AToolUse i name inp # rest))))))"

fun is_tool_use :: "assistant_content \<Rightarrow> bool" where
  "is_tool_use (AToolUse i name inp) = True"
| "is_tool_use _ = False"

definition message_calls :: "json_lib \<Rightarrow> jvalue \<Rightarrow> stop_reason \<Rightarrow> provider_error + assistant_content list" where
  "message_calls lib message stop =
     (case jget message ''tool_calls'' of
        None \<Rightarrow> Inr []
      | Some v \<Rightarrow>
          if v = JNull then Inr []
          else
            try_then (ok_or (as_array v) (decode_error ''invalid OpenAI tool calls'')) (\<lambda>calls.
              if calls \<noteq> [] \<and> stop \<noteq> ToolUse then Inl (decode_error ''OpenAI tool calls without tool termination'')
              else response_calls lib [] calls))"

definition response_usage :: "jvalue \<Rightarrow> provider_error + usage" where
  "response_usage v =
     try_then
       (case jget v ''usage'' of
          None \<Rightarrow> Inr JNull
        | Some u \<Rightarrow> if u = JNull then Inr JNull else merge_usage JNull u) (\<lambda>raw.
     try_then (openai_require_complete raw) (\<lambda>_. Inr (openai_usage raw)))"

definition openai_parse_response :: "json_lib \<Rightarrow> jvalue \<Rightarrow> provider_error + chat_response" where
  "openai_parse_response lib v =
     try_then (ok_or (as_array (jindex v ''choices'')) (decode_error ''missing OpenAI choices'')) (\<lambda>choices.
       if length choices \<noteq> 1 then Inl (decode_error ''expected exactly one OpenAI choice'')
       else
         let choice = hd choices
         in try_then (ok_or (case as_str (jindex choice ''finish_reason'') of Some r \<Rightarrow> if r = [] then None else Some r | None \<Rightarrow> None)
              (decode_error ''missing OpenAI finish_reason'')) (\<lambda>reason.
            let message = jindex choice ''message''
            in if \<not> is_object message then Inl (decode_error ''missing OpenAI message'')
               else
                 try_then (message_text message ''content'') (\<lambda>content.
                 try_then (message_text message ''refusal'') (\<lambda>refusal.
                   let refused = (case get_str message ''refusal'' of Some t \<Rightarrow> t \<noteq> [] | None \<Rightarrow> False);
                       stop = (if refused then Refusal else map_finish_reason reason)
                   in try_then (message_calls lib message stop) (\<lambda>calls.
                        if stop = ToolUse \<and> \<not> list_ex is_tool_use (content @ refusal @ calls)
                        then Inl (decode_error ''OpenAI tool termination without a call'')
                        else
                          try_then (response_usage v) (\<lambda>u.
                            Inr \<lparr>rs_content = content @ refusal @ calls, rs_stop = stop, rs_usage = u\<rparr>))))))"

subsection \<open>The provider\<close>

definition OPENAI_URL :: string where
  "OPENAI_URL = ''https://api.openai.com''"

record openai_model =
  om_config :: http_config
  om_model :: string

definition openai_send :: "'w transport \<Rightarrow> openai_model \<Rightarrow> jvalue \<Rightarrow> 'w \<Rightarrow> (provider_error + http_response) \<times> 'w" where
  "openai_send transport m body w =
     http_send transport
       (try_then (http_post (om_config m) ''/v1/chat/completions'' body) (\<lambda>q.
          Inr (with_header ''authorization'' (''Bearer '' @ hc_api_key (om_config m)) q))) w"

definition openai_body ::
  "json_lib \<Rightarrow> ('f \<Rightarrow> jvalue) \<Rightarrow> (u8 list \<Rightarrow> string) \<Rightarrow> openai_model \<Rightarrow> 'f chat_request \<Rightarrow> bool \<Rightarrow> provider_error + jvalue" where
  "openai_body lib json_f64 b64 m r stream =
     (let model = pick_model (om_model m) r
      in try_then (validate_cache (openai_cache_capabilities model) (cr_cache r)) (\<lambda>_.
         let body = openai_build_body lib json_f64 b64 model r stream
         in try_then (validate_body body) (\<lambda>_. Inr body)))"

definition openai_complete ::
  "json_lib \<Rightarrow> (string \<Rightarrow> nat \<times> nat) \<Rightarrow> (string \<Rightarrow> string) \<Rightarrow> ('f \<Rightarrow> jvalue) \<Rightarrow> (u8 list \<Rightarrow> string) \<Rightarrow> 'w transport \<Rightarrow> openai_model \<Rightarrow>
     'f chat_request \<Rightarrow> 'w \<Rightarrow> (provider_error + chat_response) \<times> 'w" where
  "openai_complete lib locate lossy json_f64 b64 transport m r w =
     (case openai_body lib json_f64 b64 m r False of
        Inl e \<Rightarrow> (Inl e, w)
      | Inr body \<Rightarrow>
          let (resp, w) = openai_send transport m body w
          in (try_then resp (\<lambda>resp.
                case body_bytes (hs_body resp) of
                  Inl e \<Rightarrow> Inl (PTransport e)
                | Inr bytes \<Rightarrow>
                    if \<not> is_success (hs_status resp)
                    then Inl (api_error lib (hs_status resp) (lossy bytes) (parse_retry_after (hs_retry_after resp)))
                    else
                      (case jl_parse lib bytes of
                         Inl e \<Rightarrow>
                           (let (line, column) = locate bytes
                            in Inl (decode_error (''invalid OpenAI response JSON at line '' @ show_nat line @ '' column '' @ show_nat column)))
                       | Inr v \<Rightarrow> openai_parse_response lib v)), w))"

definition openai_stream ::
  "json_lib \<Rightarrow> (string \<Rightarrow> string) \<Rightarrow> ('f \<Rightarrow> jvalue) \<Rightarrow> (u8 list \<Rightarrow> string) \<Rightarrow> 'w transport \<Rightarrow> openai_model \<Rightarrow>
     'f chat_request \<Rightarrow> 'w \<Rightarrow> (provider_error + (provider_error + stream_event) list) \<times> 'w" where
  "openai_stream lib lossy json_f64 b64 transport m r w =
     (case openai_body lib json_f64 b64 m r True of
        Inl e \<Rightarrow> (Inl e, w)
      | Inr body \<Rightarrow>
          let (resp, w) = openai_send transport m body w
          in (try_then resp (\<lambda>resp. try_then (ensure_success lib lossy resp) (\<lambda>resp.
                Inr (openai_decode lib (hs_body resp)))), w))"

end
