(* ===== verification/OpenAiRequestProps.thy ===== *)
theory OpenAiRequestProps
  imports OpenAiRequest AgentRunProps JsonExample
begin

text \<open>
  Properties of the requests to OpenAI: a conversation the agent keeps well formed becomes a request in which every tool
  call is answered right after it, and an assistant turn is read back up to the order of its texts and calls.
\<close>

subsection \<open>Answered tool calls\<close>

definition turn_call_ids :: "jvalue \<Rightarrow> string list" where
  "turn_call_ids v =
     (case Option.bind (jget v ''tool_calls'') as_array of
        Some calls \<Rightarrow> List.map_filter (\<lambda>c. get_str c ''id'') calls
      | None \<Rightarrow> [])"

definition is_tool_message :: "jvalue \<Rightarrow> bool" where
  "is_tool_message v \<longleftrightarrow> get_str v ''role'' = Some ''tool''"

text \<open>The API's rule: the messages after one with tool calls are the answers to exactly these calls.\<close>

fun calls_answered :: "jvalue list \<Rightarrow> bool" where
  "calls_answered [] \<longleftrightarrow> True"
| "calls_answered (v # vs) \<longleftrightarrow>
     (turn_call_ids v = [] \<or>
      (\<exists>k \<le> length vs. (\<forall>t \<in> set (take k vs). is_tool_message t) \<and>
         (\<lambda>t. get_str t ''tool_call_id'') ` set (take k vs) = Some ` set (turn_call_ids v))) \<and>
     calls_answered vs"

lemma calls_answered_append: "\<forall>v \<in> set xs. turn_call_ids v = [] \<Longrightarrow> calls_answered ys \<Longrightarrow> calls_answered (xs @ ys)"
  by (induction xs) auto

lemma tool_messages [simp]:
  "v \<in> set (tool_message p) \<Longrightarrow> is_tool_message v \<and> turn_call_ids v = []"
  by (cases p) (auto simp: is_tool_message_def turn_call_ids_def get_str_def jget_json_object)

lemma tool_message_ids:
  "(\<lambda>t. get_str t ''tool_call_id'') ` set (concat (map tool_message us)) = Some ` set (result_ids us)"
proof (induction us)
  case (Cons p us)
  then show ?case by (cases p) (auto simp: result_ids_def get_str_def jget_json_object)
qed (simp add: result_ids_def)

definition rest_of_user :: "(u8 list \<Rightarrow> string) \<Rightarrow> user_content list \<Rightarrow> jvalue list" where
  "rest_of_user b64 parts = drop (length (concat (map tool_message parts))) (map_user_parts b64 parts)"

lemma map_user_parts_split: "map_user_parts b64 parts = concat (map tool_message parts) @ rest_of_user b64 parts"
  by (simp add: rest_of_user_def map_user_parts_def)

lemma rest_of_user_quiet: "v \<in> set (rest_of_user b64 parts) \<Longrightarrow> turn_call_ids v = []"
  by (auto simp: rest_of_user_def map_user_parts_def Let_def turn_call_ids_def jget_json_object split: if_splits)

lemma user_quiet: "v \<in> set (map_user_parts b64 parts) \<Longrightarrow> turn_call_ids v = []"
  using rest_of_user_quiet unfolding map_user_parts_split by auto

lemma call_ids_calls: "List.map_filter (\<lambda>c. get_str c ''id'') (concat (map (assistant_call lib) bs)) = use_ids bs"
proof (induction bs)
  case (Cons b bs)
  have "List.map_filter (\<lambda>c. get_str c ''id'') (assistant_call lib b) = use_id b"
    by (cases b) (simp_all add: List.map_filter_def get_str_def jget_json_object)
  with Cons show ?case by (simp add: List.map_filter_def)
qed (simp add: List.map_filter_def)

lemma call_ids_assistant: "turn_call_ids (map_assistant lib bs) = use_ids bs"
  using call_ids_calls [of lib bs]
  by (cases "concat (map (assistant_call lib) bs) = []")
    (auto simp: turn_call_ids_def map_assistant_def Let_def jget_json_object List.map_filter_def)

lemma answered_turn:
  assumes "answers (use_ids bs) ms" "use_ids bs \<noteq> []"
  shows "\<exists>k \<le> length (concat (map (openai_message lib b64) ms)).
    (\<forall>t \<in> set (take k (concat (map (openai_message lib b64) ms))). is_tool_message t) \<and>
    (\<lambda>t. get_str t ''tool_call_id'') ` set (take k (concat (map (openai_message lib b64) ms))) = Some ` set (use_ids bs)"
proof -
  from assms obtain us ms' where ms: "ms = User us # ms'" "set (result_ids us) = set (use_ids bs)"
    by (cases "(use_ids bs, ms)" rule: answers.cases) auto
  let ?ts = "concat (map tool_message us)"
  have "concat (map (openai_message lib b64) ms) = ?ts @ rest_of_user b64 us @ concat (map (openai_message lib b64) ms')"
    unfolding ms(1) by (simp add: map_user_parts_split)
  moreover have "\<forall>t \<in> set ?ts. is_tool_message t" using tool_messages by auto
  ultimately show ?thesis using tool_message_ids [of us] ms(2) by (intro exI [of _ "length ?ts"]) simp
qed

lemma conversation_answered: "paired ms \<Longrightarrow> calls_answered (concat (map (openai_message lib b64) ms))"
proof (induction ms rule: paired.induct)
  case (2 us ms)
  then show ?case using calls_answered_append [of "map_user_parts b64 us"] user_quiet by auto
next
  case (3 bs ms)
  then show ?case using answered_turn [of bs ms lib b64] by (auto simp: call_ids_assistant)
qed simp

text \<open>C32: A conversation in which every tool use has its results, which is how a run leaves it, becomes an OpenAI request in
  which every message with tool calls is followed at once by tool messages that answer exactly the ids it calls, however
  its turns mix texts, images, documents, reasoning and results.
\<close>

theorem openai_calls_answered:
  assumes "paired ms"
  shows "calls_answered (openai_messages lib b64 system ms)"
proof (cases system)
  case None
  with conversation_answered [OF assms] show ?thesis by (simp add: openai_messages_def)
next
  case (Some s)
  with conversation_answered [OF assms] show ?thesis
    by (simp add: openai_messages_def turn_call_ids_def jget_json_object)
qed

theorem openai_calls_answered_witness:
  "calls_answered (openai_messages plain_json (\<lambda>_. []) None
     [User [UText ''go''], Assistant [AText ''ok'', AToolUse ''t1'' ''f'' JNull],
      User [UText ''and'', UToolResult ''t1'' [PartText ''done''] False], Assistant [AText ''fine'']])"
  by (rule openai_calls_answered) (simp add: result_ids_def)

subsection \<open>Reading a turn back\<close>

fun named_call :: "assistant_content \<Rightarrow> bool" where
  "named_call (AToolUse i name inp) \<longleftrightarrow> i \<noteq> [] \<and> name \<noteq> []"
| "named_call _ \<longleftrightarrow> True"

lemma response_calls_mapped:
  assumes law: "\<And>v. jl_parse lib (jl_print lib v) = Inr v"
  shows "distinct (use_ids bs) \<Longrightarrow> set (use_ids bs) \<inter> set seen = {} \<Longrightarrow> \<forall>b \<in> set bs. named_call b \<Longrightarrow>
    response_calls lib seen (concat (map (assistant_call lib) bs)) = Inr (filter is_tool_use bs)"
proof (induction bs arbitrary: seen)
  case (Cons b bs)
  show ?case
  proof (cases "is_tool_use b")
    case True
    then obtain i name inp where b: "b = AToolUse i name inp" by (cases b) auto
    have "response_calls lib (i # seen) (concat (map (assistant_call lib) bs)) = Inr (filter is_tool_use bs)"
      using Cons b by auto
    then show ?thesis using Cons.prems law
      by (simp add: b jget_json_object jindex_def required_text_def ok_or_def)
  next
    case False
    then show ?thesis using Cons by (cases b) auto
  qed
qed simp

lemma no_calls: "concat (map (assistant_call lib) bs) = [] \<longleftrightarrow> filter is_tool_use bs = []"
proof (induction bs)
  case (Cons b bs)
  then show ?case by (cases b) auto
qed simp

text \<open>The response whose only message is a turn as requests print it.\<close>

definition turn_response :: "json_lib \<Rightarrow> assistant_content list \<Rightarrow> jvalue \<Rightarrow> jvalue" where
  "turn_response lib bs u =
     json_object
       [(''choices'', JArray [json_object
           [text_field ''finish_reason'' (if filter is_tool_use bs = [] then ''stop'' else ''tool_calls''),
            (''message'', map_assistant lib bs)]]),
        (''usage'', u)]"

lemma map_assistant_fields:
  "jget (map_assistant lib bs) ''content'' =
     Some (if concat (map assistant_text bs) = [] then JNull else JString (concat (map assistant_text bs)))"
  "jget (map_assistant lib bs) ''refusal'' = None"
  "jget (map_assistant lib bs) ''tool_calls'' =
     (if filter is_tool_use bs = [] then None else Some (JArray (concat (map (assistant_call lib) bs))))"
  "is_object (map_assistant lib bs)"
  using no_calls [of lib bs]
  by (simp_all add: map_assistant_def Let_def jget_json_object json_object_def)

text \<open>A turn printed for OpenAI and returned as a response is read back as its text, joined, followed by its tool calls
  with their ids, names and arguments in order. The ids must be distinct and nonempty, and printed JSON must parse.
\<close>

theorem openai_turn_roundtrip:
  assumes "\<And>v. jl_parse lib (jl_print lib v) = Inr v" and "distinct (use_ids bs)" and "\<forall>b \<in> set bs. named_call b"
    and u: "response_usage (turn_response lib bs u) = Inr counted"
  shows "openai_parse_response lib (turn_response lib bs u) =
    Inr \<lparr>rs_content = (let t = concat (map assistant_text bs) in if t = [] then [] else [AText t]) @ filter is_tool_use bs,
         rs_stop = (if filter is_tool_use bs = [] then EndTurn else ToolUse), rs_usage = counted\<rparr>"
proof -
  let ?m = "map_assistant lib bs"
  have calls: "message_calls lib ?m (if filter is_tool_use bs = [] then EndTurn else ToolUse) = Inr (filter is_tool_use bs)"
    using response_calls_mapped [OF assms(1,2), of "[]"] assms(3)
    by (auto simp: message_calls_def map_assistant_fields)
  have texts: "message_text ?m ''content'' = Inr (let t = concat (map assistant_text bs) in if t = [] then [] else [AText t])"
    "message_text ?m ''refusal'' = Inr []" "get_str ?m ''refusal'' = None"
    by (simp_all add: message_text_def map_assistant_fields get_str_def Let_def)
  have uses: "list_ex is_tool_use (filter is_tool_use bs) \<longleftrightarrow> filter is_tool_use bs \<noteq> []"
    by (induction bs) auto
  have v: "jindex (turn_response lib bs u) ''choices'' =
      JArray [json_object [text_field ''finish_reason'' (if filter is_tool_use bs = [] then ''stop'' else ''tool_calls''), (''message'', ?m)]]"
    by (simp add: turn_response_def jindex_def jget_json_object)
  show ?thesis unfolding openai_parse_response_def v
    using calls texts u map_assistant_fields(4) [of lib bs]
    by (cases "filter is_tool_use bs = []") (simp_all add: jindex_def jget_json_object map_finish_reason_def uses Let_def)
qed

lemma counted_usage:
  "response_usage (turn_response lib bs (json_object [(''prompt_tokens'', jnum 2), (''completion_tokens'', jnum 3)])) =
   Inr (usage_zero\<lparr>input_tokens := 2, output_tokens := 3\<rparr>)"
proof -
  have n: "as_u64 (jnum 2) = Some 2" "as_u64 (jnum 3) = Some 3" "jnum 2 \<noteq> JNull" "jnum 3 \<noteq> JNull"
    using as_u64_jnum [of 2] as_u64_jnum [of 3] by (simp_all add: jnum_def)
  have v: "jget (turn_response lib bs u) ''usage'' = Some u" for u
    by (simp add: turn_response_def jget_json_object)
  show ?thesis unfolding response_usage_def v
    by (simp add: json_object_def merge_usage_def COUNTERS_def merge_counter_def merge_group_def n get_u64_def Let_def
        validate_subsets_def validate_reported_total_def nested_count_def wire_count_def openai_require_complete_def
        openai_usage_def usage_zero_def sat_sub_def u64_checked_add_def ensure_def)
qed

theorem openai_turn_roundtrip_witness:
  "openai_parse_response plain_json
     (turn_response plain_json [AToolUse ''t1'' ''f'' (JBool True), AText ''ok'']
        (json_object [(''prompt_tokens'', jnum 2), (''completion_tokens'', jnum 3)])) =
   Inr \<lparr>rs_content = [AText ''ok'', AToolUse ''t1'' ''f'' (JBool True)], rs_stop = ToolUse,
        rs_usage = usage_zero\<lparr>input_tokens := 2, output_tokens := 3\<rparr>\<rparr>"
  using openai_turn_roundtrip [of plain_json "[AToolUse ''t1'' ''f'' (JBool True), AText ''ok'']"
      "json_object [(''prompt_tokens'', jnum 2), (''completion_tokens'', jnum 3)]" "usage_zero\<lparr>input_tokens := 2, output_tokens := 3\<rparr>"]
    plain_json_roundtrip counted_usage
  by simp

end
