(* ===== verification/Validation.thy ===== *)
theory Validation
  imports RouterError
begin

text \<open>
  Validation of models (\<^verbatim>\<open>model/src/validate/\<close>): the rules, the errors with their paths, and the traversal of
  containers; and the code \<^verbatim>\<open>#[derive(Model)]\<close> emits for a struct or a variant (\<^verbatim>\<open>model-derive/src/emit_validate.rs\<close>,
  \<^verbatim>\<open>ir.rs\<close>). A value is a tree in which a model's fields carry their rules. The order and the printing of numbers, the
  Unicode table of letters, compiled patterns, custom rules and debug printing are arguments.
\<close>

subsection \<open>Characters\<close>

text \<open>\<^verbatim>\<open>str::chars\<close>: the code points of a text.\<close>

abbreviation byte :: "char \<Rightarrow> nat" where "byte \<equiv> of_char"

fun chars :: "string \<Rightarrow> nat list" where
  "chars (a # s) =
     (if byte a < 0x80 then byte a # chars s
      else case s of
        [] \<Rightarrow> []
      | b # s \<Rightarrow>
          if byte a < 0xE0 then ((byte a mod 32) * 64 + byte b mod 64) # chars s
          else case s of
            [] \<Rightarrow> []
          | c # s \<Rightarrow>
              if byte a < 0xF0 then ((byte a mod 16) * 4096 + (byte b mod 64) * 64 + byte c mod 64) # chars s
              else case s of
                [] \<Rightarrow> []
              | d # s \<Rightarrow>
                  ((byte a mod 8) * 262144 + (byte b mod 64) * 4096 + (byte c mod 64) * 64 + byte d mod 64) # chars s)"
| "chars [] = []"

definition is_whitespace :: "nat \<Rightarrow> bool" where
  "is_whitespace c \<longleftrightarrow>
     (0x09 \<le> c \<and> c \<le> 0x0D) \<or> c = 0x20 \<or> c = 0x85 \<or> c = 0xA0 \<or> c = 0x1680 \<or> (0x2000 \<le> c \<and> c \<le> 0x200A) \<or>
     c = 0x2028 \<or> c = 0x2029 \<or> c = 0x202F \<or> c = 0x205F \<or> c = 0x3000"

definition is_control :: "nat \<Rightarrow> bool" where
  "is_control c \<longleftrightarrow> c \<le> 0x1F \<or> (0x7F \<le> c \<and> c \<le> 0x9F)"

definition is_ascii :: "string \<Rightarrow> bool" where
  "is_ascii s \<longleftrightarrow> list_all (\<lambda>c. byte c < 0x80) s"

text \<open>\<^verbatim>\<open>str::find\<close> of a text.\<close>

fun find_text :: "string \<Rightarrow> string \<Rightarrow> nat option" where
  "find_text pat [] = (if pat = [] then Some 0 else None)"
| "find_text pat (c # cs) =
     (if take (length pat) (c # cs) = pat then Some 0 else map_option Suc (find_text pat cs))"

subsection \<open>Errors\<close>

record validation_error =
  ve_path :: string
  ve_code :: string
  ve_message :: string

definition validation_error_new :: "string \<Rightarrow> string \<Rightarrow> validation_error" where
  "validation_error_new rule msg = \<lparr>ve_path = [], ve_code = rule, ve_message = msg\<rparr>"

definition starts_bracket :: "string \<Rightarrow> bool" where
  "starts_bracket p \<longleftrightarrow> (case p of c # cs \<Rightarrow> c = CHR ''['' | [] \<Rightarrow> False)"

definition at_field :: "string \<Rightarrow> validation_error \<Rightarrow> validation_error" where
  "at_field name e =
     e\<lparr>ve_path :=
        (if ve_path e = [] then name
         else if starts_bracket (ve_path e) then name @ ve_path e
         else name @ ''.'' @ ve_path e)\<rparr>"

definition prefix_bracket :: "string \<Rightarrow> string \<Rightarrow> string" where
  "prefix_bracket seg rest =
     (if rest = [] then ''['' @ seg @ '']''
      else if starts_bracket rest then ''['' @ seg @ '']'' @ rest
      else ''['' @ seg @ ''].'' @ rest)"

definition at_index :: "nat \<Rightarrow> validation_error \<Rightarrow> validation_error" where
  "at_index index e = e\<lparr>ve_path := prefix_bracket (show_nat index) (ve_path e)\<rparr>"

definition at_key :: "string \<Rightarrow> validation_error \<Rightarrow> validation_error" where
  "at_key key e = e\<lparr>ve_path := prefix_bracket key (ve_path e)\<rparr>"

definition validation_error_display :: "validation_error \<Rightarrow> string" where
  "validation_error_display e =
     (if ve_path e = [] then ve_code e @ '': '' @ ve_message e
      else ve_path e @ '': '' @ ve_message e @ '' ('' @ ve_code e @ '')'')"

type_synonym validation_errors = "validation_error list"

definition into_result :: "validation_errors \<Rightarrow> validation_errors + unit" where
  "into_result errs = (if errs = [] then Inr () else Inl errs)"

definition field_errors :: "validation_errors \<Rightarrow> (string \<times> string list) list" where
  "field_errors errs = group_fields (map (\<lambda>e. (ve_path e, ve_message e)) errs) []"

definition validation_errors_display :: "validation_errors \<Rightarrow> string" where
  "validation_errors_display errs =
     ''validation failed ('' @ show_nat (length errs) @ '' error(s)):'' @ [CHR 0x0A] @
     concat (map (\<lambda>e. ''  - '' @ validation_error_display e @ [CHR 0x0A]) errs)"

subsection \<open>Rules\<close>

type_synonym rule_result = "validation_error option"

definition length_rule :: "string \<Rightarrow> nat option \<Rightarrow> nat option \<Rightarrow> rule_result" where
  "length_rule v mn mx =
     (let n = length (chars v)
      in if (case mn of Some k \<Rightarrow> n < k | None \<Rightarrow> False)
         then Some (validation_error_new ''length'' (''must be at least '' @ show_nat (the mn) @ '' character(s)''))
         else if (case mx of Some k \<Rightarrow> n > k | None \<Rightarrow> False)
         then Some (validation_error_new ''length'' (''must be at most '' @ show_nat (the mx) @ '' character(s)''))
         else None)"

definition ascii_rule :: "string \<Rightarrow> rule_result" where
  "ascii_rule v = (if is_ascii v then None else Some (validation_error_new ''ascii'' ''must contain only ASCII characters''))"

definition alphanumeric_rule :: "(nat \<Rightarrow> bool) \<Rightarrow> string \<Rightarrow> rule_result" where
  "alphanumeric_rule is_alphanumeric v =
     (if list_all is_alphanumeric (chars v) then None
      else Some (validation_error_new ''alphanumeric'' ''must contain only alphanumeric characters''))"

definition contains_rule :: "(string \<Rightarrow> string) \<Rightarrow> string \<Rightarrow> string \<Rightarrow> rule_result" where
  "contains_rule debug v needle =
     (if find_text needle v \<noteq> None then None
      else Some (validation_error_new ''contains'' (''must contain '' @ debug needle)))"

definition prefix_rule :: "(string \<Rightarrow> string) \<Rightarrow> string \<Rightarrow> string \<Rightarrow> rule_result" where
  "prefix_rule debug v p =
     (if take (length p) v = p then None else Some (validation_error_new ''prefix'' (''must start with '' @ debug p)))"

definition suffix_rule :: "(string \<Rightarrow> string) \<Rightarrow> string \<Rightarrow> string \<Rightarrow> rule_result" where
  "suffix_rule debug v p =
     (if length p \<le> length v \<and> drop (length v - length p) v = p then None
      else Some (validation_error_new ''suffix'' (''must end with '' @ debug p)))"

definition looks_like_email :: "string \<Rightarrow> bool" where
  "looks_like_email s =
     (if list_ex (\<lambda>c. is_whitespace c \<or> is_control c) (chars s) then False
      else
        case find_text ''@'' s of
          None \<Rightarrow> False
        | Some at \<Rightarrow>
            (let loc = take at s; domain = drop (at + 1) s
             in if loc = [] \<or> domain = [] \<or> CHR ''@'' \<in> set domain then False
                else hd domain \<noteq> CHR ''.'' \<and> last domain \<noteq> CHR ''.'' \<and> find_text ''..'' domain = None \<and>
                  CHR ''.'' \<in> set domain))"

definition email_rule :: "string \<Rightarrow> rule_result" where
  "email_rule v = (if looks_like_email v then None else Some (validation_error_new ''email'' ''must be a valid email address''))"

definition ascii_alpha :: "char \<Rightarrow> bool" where
  "ascii_alpha c \<longleftrightarrow> (65 \<le> byte c \<and> byte c \<le> 90) \<or> (97 \<le> byte c \<and> byte c \<le> 122)"

definition scheme_char :: "char \<Rightarrow> bool" where
  "scheme_char c \<longleftrightarrow> ascii_alpha c \<or> is_digit c \<or> c = CHR ''+'' \<or> c = CHR ''-'' \<or> c = CHR ''.''"

definition looks_like_url :: "string \<Rightarrow> bool" where
  "looks_like_url s =
     (if list_ex (\<lambda>c. is_whitespace c \<or> is_control c) (chars s) then False
      else
        case find_text ''://'' s of
          None \<Rightarrow> False
        | Some pos \<Rightarrow>
            (let scheme = take pos s
             in if \<not> (scheme \<noteq> [] \<and> ascii_alpha (hd scheme) \<and> list_all scheme_char scheme) then False
                else takeWhile (\<lambda>c. c \<notin> {CHR ''/'', CHR ''?'', CHR ''#''}) (drop (pos + 3) s) \<noteq> []))"

definition url_rule :: "string \<Rightarrow> rule_result" where
  "url_rule v = (if looks_like_url v then None else Some (validation_error_new ''url'' ''must be a valid URL''))"

record 'n num_ops =
  num_less :: "'n \<Rightarrow> 'n \<Rightarrow> bool"
  num_display :: "'n \<Rightarrow> string"

definition range_rule :: "'n num_ops \<Rightarrow> 'n \<Rightarrow> 'n option \<Rightarrow> 'n option \<Rightarrow> rule_result" where
  "range_rule ops v mn mx =
     (if (case mn of Some k \<Rightarrow> num_less ops v k | None \<Rightarrow> False)
      then Some (validation_error_new ''range'' (''must be >= '' @ num_display ops (the mn)))
      else if (case mx of Some k \<Rightarrow> num_less ops k v | None \<Rightarrow> False)
      then Some (validation_error_new ''range'' (''must be <= '' @ num_display ops (the mx)))
      else None)"

definition pattern_rule :: "bool \<Rightarrow> rule_result" where
  "pattern_rule matched =
     (if matched then None else Some (validation_error_new ''pattern'' ''does not match the required pattern''))"

subsection \<open>Models\<close>

datatype 'n rule =
    Email
  | Url
  | Ascii
  | Alphanumeric
  | Dive
  | Length "nat option" "nat option"
  | Range "'n option" "'n option"
  | Contains string
  | HasPrefix string
  | HasSuffix string
  | Pattern string
  | Custom string

datatype 'n field_spec = FieldSpec (field_label: string) (field_skip: bool) (field_rules: "'n rule list")

text \<open>
  A text, a number, the unit, an optional value, a sequence (vectors, slices, arrays, sets and tuples), a map by the
  text of its keys, and a model: a struct or the variant an enum holds, its fields with their rules.
\<close>

datatype 'n mvalue =
    MText string
  | MNum 'n
  | MUnit
  | MOption "'n mvalue option"
  | MSeq "'n mvalue list"
  | MKeyed "(string \<times> 'n mvalue) list"
  | MModel "('n field_spec \<times> 'n mvalue) list"

record 'n rule_lib =
  rl_num :: "'n num_ops"
  rl_alphanumeric :: "nat \<Rightarrow> bool"
  rl_debug :: "string \<Rightarrow> string"
  rl_matches :: "string \<Rightarrow> string \<Rightarrow> bool"
  rl_custom :: "string \<Rightarrow> 'n mvalue \<Rightarrow> rule_result"
  rl_camel :: bool

text \<open>The name of a field on the wire, in camel case under the \<^verbatim>\<open>camel\<close> feature.\<close>

definition ascii_upper :: "char \<Rightarrow> char" where
  "ascii_upper c = (if 97 \<le> byte c \<and> byte c \<le> 122 then char_of (byte c - 32) else c)"

definition ascii_lower :: "char \<Rightarrow> char" where
  "ascii_lower c = (if 65 \<le> byte c \<and> byte c \<le> 90 then char_of (byte c + 32) else c)"

fun pascal :: "bool \<Rightarrow> string \<Rightarrow> string" where
  "pascal capitalize [] = []"
| "pascal capitalize (c # cs) =
     (if c = CHR ''_'' then pascal True cs
      else if capitalize then ascii_upper c # pascal False cs
      else c # pascal False cs)"

definition wire_name :: "bool \<Rightarrow> string \<Rightarrow> string" where
  "wire_name camel label =
     (if camel then (case pascal True label of [] \<Rightarrow> [] | c # cs \<Rightarrow> ascii_lower c # cs) else label)"

text \<open>One rule on a value; a rule that does not fit the type of its field does not compile.\<close>

fun single_rule :: "'n rule_lib \<Rightarrow> 'n rule \<Rightarrow> 'n mvalue \<Rightarrow> rule_result" where
  "single_rule lib Email (MText s) = email_rule s"
| "single_rule lib Url (MText s) = url_rule s"
| "single_rule lib Ascii (MText s) = ascii_rule s"
| "single_rule lib Alphanumeric (MText s) = alphanumeric_rule (rl_alphanumeric lib) s"
| "single_rule lib (Length mn mx) (MText s) = length_rule s mn mx"
| "single_rule lib (Contains p) (MText s) = contains_rule (rl_debug lib) s p"
| "single_rule lib (HasPrefix p) (MText s) = prefix_rule (rl_debug lib) s p"
| "single_rule lib (HasSuffix p) (MText s) = suffix_rule (rl_debug lib) s p"
| "single_rule lib (Pattern re) (MText s) = pattern_rule (rl_matches lib re s)"
| "single_rule lib (Range mn mx) (MNum n) = range_rule (rl_num lib) n mn mx"
| "single_rule lib (Custom f) v = rl_custom lib f v"
| "single_rule lib _ v = None"

text \<open>What a field's rules push: \<^term>\<open>child\<close> is the result of validating its value, for \<^verbatim>\<open>dive\<close>.\<close>

fun rule_errors :: "'n rule_lib \<Rightarrow> string \<Rightarrow> 'n mvalue \<Rightarrow> validation_errors + unit \<Rightarrow> 'n rule \<Rightarrow> validation_errors" where
  "rule_errors lib label v child Dive = (case child of Inl errs \<Rightarrow> map (at_field label) errs | Inr u \<Rightarrow> [])"
| "rule_errors lib label v child r = (case single_rule lib r v of Some e \<Rightarrow> [at_field label e] | None \<Rightarrow> [])"

definition field_block ::
  "'n rule_lib \<Rightarrow> 'n field_spec \<Rightarrow> 'n mvalue \<Rightarrow> validation_errors + unit \<Rightarrow> validation_errors" where
  "field_block lib f v child =
     (if field_skip f then []
      else concat (map (rule_errors lib (wire_name (rl_camel lib) (field_label f)) v child) (field_rules f)))"

text \<open>The traversals, over the results of validating the members.\<close>

fun validate_indexed :: "nat \<Rightarrow> (validation_errors + unit) list \<Rightarrow> validation_errors" where
  "validate_indexed i [] = []"
| "validate_indexed i (child # children) =
     (case child of Inl errs \<Rightarrow> map (at_index i) errs | Inr u \<Rightarrow> []) @ validate_indexed (i + 1) children"

fun validate_keyed :: "(string \<times> (validation_errors + unit)) list \<Rightarrow> validation_errors" where
  "validate_keyed [] = []"
| "validate_keyed ((k, child) # children) =
     (case child of Inl errs \<Rightarrow> map (at_key k) errs | Inr u \<Rightarrow> []) @ validate_keyed children"

fun validate_fields ::
  "'n rule_lib \<Rightarrow> ('n field_spec \<times> 'n mvalue \<times> (validation_errors + unit)) list \<Rightarrow> validation_errors" where
  "validate_fields lib [] = []"
| "validate_fields lib ((f, v, child) # fs) = field_block lib f v child @ validate_fields lib fs"

fun validate_value :: "'n rule_lib \<Rightarrow> 'n mvalue \<Rightarrow> validation_errors + unit" where
  "validate_value lib (MOption (Some v)) = validate_value lib v"
| "validate_value lib (MOption None) = Inr ()"
| "validate_value lib (MSeq vs) = into_result (validate_indexed 0 (map (\<lambda>v. validate_value lib v) vs))"
| "validate_value lib (MKeyed kvs) = into_result (validate_keyed (map (\<lambda>(k, v). (k, validate_value lib v)) kvs))"
| "validate_value lib (MModel fs) = into_result (validate_fields lib (map (\<lambda>(f, v). (f, v, validate_value lib v)) fs))"
| "validate_value lib MUnit = Inr ()"
| "validate_value lib (MText s) = Inr ()"
| "validate_value lib (MNum n) = Inr ()"

end
