(* ===== verification/ValidationProps.thy ===== *)
theory ValidationProps
  imports Validation
begin

text \<open>
  What validation reports: an email address is accepted exactly if it fits the grammar the rule stands for, and the
  errors of a value are exactly the failing rules that can be reached in it, each with the path of the fields, positions
  and keys that lead there.
\<close>

subsection \<open>Email addresses\<close>

lemma find_char: "find_text [x] s = (if x \<in> set s then Some (length (takeWhile (\<lambda>c. c \<noteq> x) s)) else None)"
  by (induction s) auto

definition no_dots :: "string \<Rightarrow> bool" where
  "no_dots = successively (\<lambda>x y. x \<noteq> CHR ''.'' \<or> y \<noteq> CHR ''.'')"

lemma find_dots: "find_text ''..'' s = None \<longleftrightarrow> no_dots s"
proof (induction s rule: induct_list012)
  case (3 x y zs)
  then show ?case by (auto simp: no_dots_def)
qed (simp_all add: no_dots_def)

text \<open>A dotted name: nonempty labels without dots, two of them at least.\<close>

definition label_ok :: "string \<Rightarrow> bool" where
  "label_ok l \<longleftrightarrow> l \<noteq> [] \<and> CHR ''.'' \<notin> set l"

lemma join_Cons: "ls \<noteq> [] \<Longrightarrow> join sep (l # ls) = l @ sep @ join sep ls"
  by (cases ls) simp_all

lemma label_no_dots: "CHR ''.'' \<notin> set l \<Longrightarrow> no_dots l"
  by (induction l rule: induct_list012) (auto simp: no_dots_def)

lemma labels_join:
  "d \<noteq> [] \<Longrightarrow> hd d \<noteq> CHR ''.'' \<Longrightarrow> last d \<noteq> CHR ''.'' \<Longrightarrow> no_dots d \<Longrightarrow>
   \<exists>labels. d = join ''.'' labels \<and> labels \<noteq> [] \<and> list_all label_ok labels"
proof (induction "length d" arbitrary: d rule: less_induct)
  case less
  let ?l = "takeWhile (\<lambda>c. c \<noteq> CHR ''.'') d" and ?r = "dropWhile (\<lambda>c. c \<noteq> CHR ''.'') d"
  have l: "label_ok ?l" using less.prems(1,2) by (cases d) (auto simp: label_ok_def dest: set_takeWhileD)
  show ?case
  proof (cases ?r)
    case Nil
    then have "d = ?l" by (metis append_Nil2 takeWhile_dropWhile_id)
    then show ?thesis using l by (intro exI [of _ "[?l]"]) simp
  next
    case (Cons c rest)
    then have c: "c = CHR ''.''" using dropWhile_eq_Cons_conv [of "\<lambda>c. c \<noteq> CHR ''.''" d c rest] by simp
    have d: "d = ?l @ ''.'' @ rest" using Cons c takeWhile_dropWhile_id [of "\<lambda>c. c \<noteq> CHR ''.''" d] by simp
    have ne: "rest \<noteq> []" using d less.prems(3) by (metis append_Nil2 last_snoc)
    have "no_dots (?l @ ''.'' @ rest)" using less.prems(4) d by simp
    then have r: "no_dots rest" "hd rest \<noteq> CHR ''.''"
      using ne by (auto simp: no_dots_def successively_append_iff successively_Cons)
    have "last rest \<noteq> CHR ''.''" using d ne less.prems(3) by (metis append_is_Nil_conv last_appendR)
    moreover have "length rest < length d" by (subst d) simp
    ultimately obtain labels where ls: "rest = join ''.'' labels" "labels \<noteq> []" "list_all label_ok labels"
      using less.hyps [of rest] ne r by blast
    then show ?thesis using d l by (intro exI [of _ "?l # labels"]) (simp add: join_Cons)
  qed
qed

lemma join_labels:
  "labels \<noteq> [] \<Longrightarrow> list_all label_ok labels \<Longrightarrow>
   join ''.'' labels \<noteq> [] \<and> hd (join ''.'' labels) \<noteq> CHR ''.'' \<and> last (join ''.'' labels) \<noteq> CHR ''.'' \<and> no_dots (join ''.'' labels)"
proof (induction labels)
  case (Cons l ls)
  have l: "l \<noteq> []" "CHR ''.'' \<notin> set l" using Cons.prems(2) by (simp_all add: label_ok_def)
  then have e: "hd l \<noteq> CHR ''.''" "last l \<noteq> CHR ''.''" "no_dots l"
    using hd_in_set [OF l(1)] last_in_set [OF l(1)] label_no_dots by metis+
  show ?case
  proof (cases "ls = []")
    case True
    then show ?thesis using l e by simp
  next
    case False
    then have ih: "join ''.'' ls \<noteq> []" "hd (join ''.'' ls) \<noteq> CHR ''.''" "last (join ''.'' ls) \<noteq> CHR ''.''" "no_dots (join ''.'' ls)"
      using Cons by simp_all
    then show ?thesis using l e False
      by (simp add: join_Cons no_dots_def successively_append_iff successively_Cons)
  qed
qed simp

lemma dot_in_join: "list_all label_ok labels \<Longrightarrow> labels \<noteq> [] \<Longrightarrow> CHR ''.'' \<in> set (join ''.'' labels) \<longleftrightarrow> length labels \<ge> 2"
  by (cases labels; cases "tl labels") (auto simp: label_ok_def join_Cons)

lemma dotted_domain:
  "domain \<noteq> [] \<and> hd domain \<noteq> CHR ''.'' \<and> last domain \<noteq> CHR ''.'' \<and> no_dots domain \<and> CHR ''.'' \<in> set domain \<longleftrightarrow>
   (\<exists>labels. domain = join ''.'' labels \<and> length labels \<ge> 2 \<and> list_all label_ok labels)"
proof
  assume d: "domain \<noteq> [] \<and> hd domain \<noteq> CHR ''.'' \<and> last domain \<noteq> CHR ''.'' \<and> no_dots domain \<and> CHR ''.'' \<in> set domain"
  with labels_join [of domain] obtain labels where "domain = join ''.'' labels" "labels \<noteq> []" "list_all label_ok labels"
    by blast
  with d dot_in_join show "\<exists>labels. domain = join ''.'' labels \<and> length labels \<ge> 2 \<and> list_all label_ok labels" by blast
next
  assume "\<exists>labels. domain = join ''.'' labels \<and> length labels \<ge> 2 \<and> list_all label_ok labels"
  then obtain labels where l: "domain = join ''.'' labels" "length labels \<ge> 2" "list_all label_ok labels" by blast
  then have "labels \<noteq> []" by auto
  from join_labels [OF this l(3)] dot_in_join [OF l(3) this] l(1,2)
  show "domain \<noteq> [] \<and> hd domain \<noteq> CHR ''.'' \<and> last domain \<noteq> CHR ''.'' \<and> no_dots domain \<and> CHR ''.'' \<in> set domain" by simp
qed

text \<open>The grammar: a nonempty local part, one at sign, and a domain of two or more labels; no blanks, no control characters.\<close>

definition email_grammar :: "string \<Rightarrow> bool" where
  "email_grammar s \<longleftrightarrow>
     (\<forall>c \<in> set (chars s). \<not> is_whitespace c \<and> \<not> is_control c) \<and>
     (\<exists>loc labels. s = loc @ ''@'' @ join ''.'' labels \<and> loc \<noteq> [] \<and> CHR ''@'' \<notin> set loc \<and>
        CHR ''@'' \<notin> set (join ''.'' labels) \<and> length labels \<ge> 2 \<and> list_all label_ok labels)"

lemma at_split:
  assumes "x \<in> set s"
  shows "s = takeWhile (\<lambda>c. c \<noteq> x) s @ [x] @ drop (length (takeWhile (\<lambda>c. c \<noteq> x) s) + 1) s"
  using assms by (induction s) auto

text \<open>C34: The email rule accepts a text exactly if it fits the grammar: a nonempty local part, a single at sign and a domain
  of at least two nonempty labels joined by dots, without white space or control characters anywhere, so that an accepted
  address cannot smuggle a line break into a mail header.
\<close>

theorem email_rule_is_grammar: "email_rule s = None \<longleftrightarrow> email_grammar s"
proof (cases "CHR ''@'' \<in> set s")
  case False
  then have "\<not> email_grammar s" unfolding email_grammar_def by auto
  with False show ?thesis by (simp add: email_rule_def looks_like_email_def find_char)
next
  case True
  define loc where "loc = takeWhile (\<lambda>c. c \<noteq> CHR ''@'') s"
  define domain where "domain = drop (length loc + 1) s"
  have s: "s = loc @ ''@'' @ domain" using at_split [OF True] by (simp add: loc_def domain_def)
  have a: "CHR ''@'' \<notin> set loc" unfolding loc_def by (auto dest: set_takeWhileD)
  have split: "loc = l \<and> domain = d" if "s = l @ ''@'' @ d" "CHR ''@'' \<notin> set l" for l d
    using sep_append_inj [of loc "CHR ''@''" domain l d] that s a by simp
  have f: "find_text ''@'' s = Some (length loc)" using True by (simp add: find_char loc_def)
  have parts: "take (length loc) s = loc" "drop (length loc + 1) s = domain" by (subst s, simp) (simp add: domain_def)
  have "looks_like_email s \<longleftrightarrow> (\<forall>c \<in> set (chars s). \<not> is_whitespace c \<and> \<not> is_control c) \<and> loc \<noteq> [] \<and>
      CHR ''@'' \<notin> set domain \<and>
      (domain \<noteq> [] \<and> hd domain \<noteq> CHR ''.'' \<and> last domain \<noteq> CHR ''.'' \<and> no_dots domain \<and> CHR ''.'' \<in> set domain)"
    unfolding looks_like_email_def f option.case Let_def parts find_dots list_ex_iff by auto
  also have "\<dots> \<longleftrightarrow> email_grammar s"
    unfolding dotted_domain email_grammar_def using s a split by metis
  finally show ?thesis by (simp add: email_rule_def)
qed

subsection \<open>Paths\<close>

datatype segment = SField string | SIndex nat | SKey string

definition link :: "segment list \<Rightarrow> string" where
  "link segs = (case segs of SField n # rest \<Rightarrow> ''.'' | _ \<Rightarrow> [])"

fun render :: "segment list \<Rightarrow> string" where
  "render [] = []"
| "render (SField n # segs) = n @ link segs @ render segs"
| "render (SIndex i # segs) = ''['' @ show_nat i @ '']'' @ link segs @ render segs"
| "render (SKey k # segs) = ''['' @ k @ '']'' @ link segs @ render segs"

definition name_ok :: "string \<Rightarrow> bool" where
  "name_ok n \<longleftrightarrow> n \<noteq> [] \<and> \<not> starts_bracket n"

fun named :: "segment \<Rightarrow> bool" where
  "named (SField n) = name_ok n"
| "named _ = True"

lemma render_shape:
  assumes "list_all named segs"
  shows "render segs = [] \<longleftrightarrow> segs = []" "starts_bracket (render segs) \<longleftrightarrow> segs \<noteq> [] \<and> link segs = []"
  using assms
  by (cases segs rule: render.cases; auto simp: name_ok_def starts_bracket_def link_def split: list.splits)+

lemma at_render:
  assumes "list_all named segs"
  shows "at_field n (e\<lparr>ve_path := render segs\<rparr>) = e\<lparr>ve_path := render (SField n # segs)\<rparr>"
    "at_index i (e\<lparr>ve_path := render segs\<rparr>) = e\<lparr>ve_path := render (SIndex i # segs)\<rparr>"
    "at_key k (e\<lparr>ve_path := render segs\<rparr>) = e\<lparr>ve_path := render (SKey k # segs)\<rparr>"
proof -
  have "link segs = [] \<or> link segs = ''.''" by (simp add: link_def split: list.splits segment.splits)
  then show "at_field n (e\<lparr>ve_path := render segs\<rparr>) = e\<lparr>ve_path := render (SField n # segs)\<rparr>"
    "at_index i (e\<lparr>ve_path := render segs\<rparr>) = e\<lparr>ve_path := render (SIndex i # segs)\<rparr>"
    "at_key k (e\<lparr>ve_path := render segs\<rparr>) = e\<lparr>ve_path := render (SKey k # segs)\<rparr>"
    using render_shape [OF assms]
    by (auto simp: at_field_def at_index_def at_key_def prefix_bracket_def link_def)
qed

subsection \<open>Failing rules\<close>

text \<open>A rule that fails somewhere in a value, and the route to it. Only a field with \<^verbatim>\<open>dive\<close> is entered.\<close>

inductive fails_at :: "'n rule_lib \<Rightarrow> 'n mvalue \<Rightarrow> segment list \<Rightarrow> validation_error \<Rightarrow> bool" for lib where
  own_rule: "(f, v) \<in> set fs \<Longrightarrow> \<not> field_skip f \<Longrightarrow> r \<in> set (field_rules f) \<Longrightarrow> r \<noteq> Dive \<Longrightarrow> single_rule lib r v = Some e \<Longrightarrow>
    fails_at lib (MModel fs) [SField (wire_name (rl_camel lib) (field_label f))] e"
| dive_rule: "(f, v) \<in> set fs \<Longrightarrow> \<not> field_skip f \<Longrightarrow> Dive \<in> set (field_rules f) \<Longrightarrow> fails_at lib v segs e \<Longrightarrow>
    fails_at lib (MModel fs) (SField (wire_name (rl_camel lib) (field_label f)) # segs) e"
| in_seq: "i < length vs \<Longrightarrow> fails_at lib (vs ! i) segs e \<Longrightarrow> fails_at lib (MSeq vs) (SIndex i # segs) e"
| in_map: "(k, v) \<in> set kvs \<Longrightarrow> fails_at lib v segs e \<Longrightarrow> fails_at lib (MKeyed kvs) (SKey k # segs) e"
| in_some: "fails_at lib v segs e \<Longrightarrow> fails_at lib (MOption (Some v)) segs e"

inductive_cases fails_at_model: "fails_at lib (MModel fs) segs e"
inductive_cases fails_at_seq: "fails_at lib (MSeq vs) segs e"
inductive_cases fails_at_map: "fails_at lib (MKeyed kvs) segs e"
inductive_simps fails_at_some: "fails_at lib (MOption (Some v)) segs e"
inductive_simps fails_at_leaf:
  "fails_at lib (MText s) segs e" "fails_at lib (MNum n) segs e" "fails_at lib MUnit segs e" "fails_at lib (MOption None) segs e"

fun labels_named :: "'n rule_lib \<Rightarrow> 'n mvalue \<Rightarrow> bool" where
  "labels_named lib (MOption (Some v)) = labels_named lib v"
| "labels_named lib (MSeq vs) = (\<forall>v \<in> set vs. labels_named lib v)"
| "labels_named lib (MKeyed kvs) = (\<forall>(k, v) \<in> set kvs. labels_named lib v)"
| "labels_named lib (MModel fs) =
     (\<forall>(f, v) \<in> set fs. name_ok (wire_name (rl_camel lib) (field_label f)) \<and> labels_named lib v)"
| "labels_named lib _ = True"

lemma fails_at_named: "fails_at lib v segs e \<Longrightarrow> labels_named lib v \<Longrightarrow> list_all named segs"
  by (induction rule: fails_at.induct) fastforce+

definition errors_of :: "validation_errors + unit \<Rightarrow> validation_error set" where
  "errors_of r = (case r of Inl errs \<Rightarrow> set errs | Inr u \<Rightarrow> {})"

lemma errors_of_simps [simp]: "errors_of (Inl errs) = set errs" "errors_of (Inr u) = {}" "errors_of (into_result errs) = set errs"
  by (simp_all add: errors_of_def into_result_def)

definition found :: "'n rule_lib \<Rightarrow> 'n mvalue \<Rightarrow> validation_error set" where
  "found lib v = {e\<lparr>ve_path := render segs\<rparr> | segs e. fails_at lib v segs e}"

lemma set_child: "set (case r of Inl errs \<Rightarrow> map f errs | Inr u \<Rightarrow> []) = f ` errors_of r"
  by (cases r) simp_all

lemma found_image:
  assumes "labels_named lib v" "\<And>segs e. list_all named segs \<Longrightarrow> g (e\<lparr>ve_path := render segs\<rparr>) = e\<lparr>ve_path := render (s # segs)\<rparr>"
  shows "g ` found lib v = {e\<lparr>ve_path := render (s # segs)\<rparr> | segs e. fails_at lib v segs e}"
  using assms fails_at_named [OF _ assms(1)] unfolding found_def by (force simp: image_iff)

definition plain_errors :: "'n rule_lib \<Rightarrow> bool" where
  "plain_errors lib \<longleftrightarrow> (\<forall>f v e. rl_custom lib f v = Some e \<longrightarrow> ve_path e = [])"

lemma single_rule_plain: "plain_errors lib \<Longrightarrow> single_rule lib r v = Some e \<Longrightarrow> ve_path e = []"
  by (cases "(lib, r, v)" rule: single_rule.cases)
    (auto simp: plain_errors_def email_rule_def url_rule_def ascii_rule_def alphanumeric_rule_def length_rule_def contains_rule_def
      prefix_rule_def suffix_rule_def pattern_rule_def range_rule_def validation_error_new_def Let_def split: if_splits)

text \<open>The errors below one segment, and those of one field.\<close>

definition below :: "'n rule_lib \<Rightarrow> segment \<Rightarrow> 'n mvalue \<Rightarrow> validation_error set" where
  "below lib s v = {e\<lparr>ve_path := render (s # segs)\<rparr> | segs e. fails_at lib v segs e}"

definition field_found :: "'n rule_lib \<Rightarrow> 'n field_spec \<Rightarrow> 'n mvalue \<Rightarrow> validation_error set" where
  "field_found lib f v =
     (let n = wire_name (rl_camel lib) (field_label f)
      in if field_skip f then {}
         else {e\<lparr>ve_path := render [SField n]\<rparr> | r e. r \<in> set (field_rules f) \<and> r \<noteq> Dive \<and> single_rule lib r v = Some e} \<union>
           (if Dive \<in> set (field_rules f) then below lib (SField n) v else {}))"

lemma found_model: "found lib (MModel fs) = (\<Union>(f, v) \<in> set fs. field_found lib f v)"
proof (intro set_eqI iffI)
  fix x
  assume "x \<in> found lib (MModel fs)"
  then obtain segs e where *: "x = e\<lparr>ve_path := render segs\<rparr>" "fails_at lib (MModel fs) segs e" unfolding found_def by blast
  from *(2) have "\<exists>f v. (f, v) \<in> set fs \<and> x \<in> field_found lib f v"
  proof (rule fails_at_model)
    fix f v r
    assume "segs = [SField (wire_name (rl_camel lib) (field_label f))]" and fv: "(f, v) \<in> set fs"
      and "\<not> field_skip f" "r \<in> set (field_rules f)" "r \<noteq> Dive" "single_rule lib r v = Some e"
    with *(1) have "x \<in> field_found lib f v" unfolding field_found_def Let_def by auto
    with fv show ?thesis by blast
  next
    fix f v segs'
    assume "segs = SField (wire_name (rl_camel lib) (field_label f)) # segs'" and fv: "(f, v) \<in> set fs"
      and "\<not> field_skip f" "Dive \<in> set (field_rules f)" "fails_at lib v segs' e"
    with *(1) have "x \<in> field_found lib f v" unfolding field_found_def Let_def below_def by auto
    with fv show ?thesis by blast
  qed
  then show "x \<in> (\<Union>(f, v) \<in> set fs. field_found lib f v)" by blast
next
  fix x
  assume "x \<in> (\<Union>(f, v) \<in> set fs. field_found lib f v)"
  then obtain f v where fv: "(f, v) \<in> set fs" and x: "x \<in> field_found lib f v" by blast
  then have ns: "\<not> field_skip f" by (auto simp: field_found_def)
  with x consider
      r e where "x = e\<lparr>ve_path := render [SField (wire_name (rl_camel lib) (field_label f))]\<rparr>" "r \<in> set (field_rules f)"
        "r \<noteq> Dive" "single_rule lib r v = Some e"
    | "Dive \<in> set (field_rules f)" "x \<in> below lib (SField (wire_name (rl_camel lib) (field_label f))) v"
    by (auto simp: field_found_def Let_def simp del: render.simps split: if_splits)
  then show "x \<in> found lib (MModel fs)"
  proof cases
    case 1
    then show ?thesis unfolding found_def using own_rule [OF fv ns] by blast
  next
    case 2
    then show ?thesis unfolding found_def below_def using dive_rule [OF fv ns] by blast
  qed
qed

lemma found_seq: "found lib (MSeq vs) = (\<Union>i < length vs. below lib (SIndex i) (vs ! i))"
  unfolding found_def below_def by (auto simp del: render.simps elim!: fails_at_seq intro: in_seq)

lemma found_keyed: "found lib (MKeyed kvs) = (\<Union>(k, v) \<in> set kvs. below lib (SKey k) v)"
  unfolding found_def below_def by (auto simp del: render.simps elim!: fails_at_map intro: in_map)

lemma found_some: "found lib (MOption (Some v)) = found lib v"
  by (simp add: found_def fails_at_some)

lemma rule_errors_set:
  assumes "plain_errors lib" "labels_named lib v" "errors_of child = found lib v"
  shows "set (rule_errors lib n v child r) =
    (if r = Dive then below lib (SField n) v else {e\<lparr>ve_path := render [SField n]\<rparr> | e. single_rule lib r v = Some e})"
proof (cases "r = Dive")
  case True
  have "at_field n ` found lib v = below lib (SField n) v"
    unfolding below_def by (rule found_image [OF assms(2)]) (rule at_render)
  with True assms(3) show ?thesis by (simp add: set_child)
next
  case False
  then have "rule_errors lib n v child r = (case single_rule lib r v of Some e \<Rightarrow> [at_field n e] | None \<Rightarrow> [])"
    by (cases r) simp_all
  with False single_rule_plain [OF assms(1), of r v] show ?thesis
    by (cases "single_rule lib r v") (auto simp: at_field_def link_def)
qed

lemma field_block_set:
  assumes "plain_errors lib" "labels_named lib v" "errors_of child = found lib v"
  shows "set (field_block lib f v child) = field_found lib f v"
  by (auto simp: field_block_def field_found_def Let_def rule_errors_set [OF assms] split: if_splits)

lemma validate_indexed_set:
  assumes "\<forall>v \<in> set vs. labels_named lib v \<and> errors_of (validate_value lib v) = found lib v"
  shows "set (validate_indexed i (map (validate_value lib) vs)) = (\<Union>j < length vs. below lib (SIndex (i + j)) (vs ! j))"
  using assms
proof (induction vs arbitrary: i)
  case (Cons v vs)
  have "at_index i ` found lib v = below lib (SIndex i) v"
    unfolding below_def using Cons.prems by (intro found_image at_render) simp_all
  moreover have "(\<Union>j < length (v # vs). below lib (SIndex (i + j)) ((v # vs) ! j)) =
      below lib (SIndex i) v \<union> (\<Union>j < length vs. below lib (SIndex (i + 1 + j)) (vs ! j))"
    unfolding length_Cons lessThan_Suc_eq_insert_0 by (simp add: image_Un)
  ultimately show ?case using Cons by (simp add: set_child)
qed simp

lemma validate_keyed_set:
  assumes "\<forall>(k, v) \<in> set kvs. labels_named lib v \<and> errors_of (validate_value lib v) = found lib v"
  shows "set (validate_keyed (map (\<lambda>(k, v). (k, validate_value lib v)) kvs)) = (\<Union>(k, v) \<in> set kvs. below lib (SKey k) v)"
  using assms
proof (induction kvs)
  case (Cons kv kvs)
  obtain k v where kv: "kv = (k, v)" by (cases kv)
  have "at_key k ` found lib v = below lib (SKey k) v"
    unfolding below_def using Cons.prems kv by (intro found_image at_render) simp_all
  with Cons kv show ?case by (simp add: set_child)
qed simp

lemma validate_fields_set:
  assumes "plain_errors lib" "\<forall>(f, v) \<in> set fs. labels_named lib v \<and> errors_of (validate_value lib v) = found lib v"
  shows "set (validate_fields lib (map (\<lambda>(f, v). (f, v, validate_value lib v)) fs)) = (\<Union>(f, v) \<in> set fs. field_found lib f v)"
  using assms(2)
proof (induction fs)
  case (Cons fv fs)
  obtain f v where fv: "fv = (f, v)" by (cases fv)
  with field_block_set [OF assms(1), of v "validate_value lib v" f] Cons show ?case by simp
qed simp

lemma validate_found: "plain_errors lib \<Longrightarrow> labels_named lib v \<Longrightarrow> errors_of (validate_value lib v) = found lib v"
proof (induction lib v rule: validate_value.induct)
  case (3 lib vs)
  then have "\<forall>v \<in> set vs. labels_named lib v \<and> errors_of (validate_value lib v) = found lib v" by simp
  from validate_indexed_set [OF this, of 0] show ?case by (simp add: found_seq)
next
  case (4 lib kvs)
  then have "\<forall>(k, v) \<in> set kvs. labels_named lib v \<and> errors_of (validate_value lib v) = found lib v" by fastforce
  from validate_keyed_set [OF this] show ?case by (simp add: found_keyed)
next
  case (5 lib fs)
  then have "\<forall>(f, v) \<in> set fs. labels_named lib v \<and> errors_of (validate_value lib v) = found lib v" by fastforce
  from validate_fields_set [OF 5(2) this] show ?case by (simp add: found_model)
qed (simp add: found_some, simp_all add: found_def fails_at_leaf)

lemma validate_nonempty: "validate_value lib v = Inl errs \<Longrightarrow> errs \<noteq> []"
proof (induction v)
  case (MOption w)
  then show ?case by (cases w) auto
qed (auto simp: into_result_def split: if_splits)

text \<open>C33: Validating a model reports exactly its failing rules: an error is reported if and only if a rule of a field that is
  not skipped fails somewhere that \<^verbatim>\<open>dive\<close> leads to, through optional values, sequences and maps, and its path spells
  out the fields, positions and keys on the way. So a value passes if and only if no such rule fails. Field names must be
  identifiers on the wire, and custom rules must leave the path to the caller, as the built-in ones do.
\<close>

theorem validate_reports_exactly:
  assumes "plain_errors lib" "labels_named lib v"
  shows "(x \<in> errors_of (validate_value lib v) \<longleftrightarrow> (\<exists>segs e. fails_at lib v segs e \<and> x = e\<lparr>ve_path := render segs\<rparr>)) \<and>
    (validate_value lib v = Inr () \<longleftrightarrow> \<not> (\<exists>segs e. fails_at lib v segs e))"
proof -
  have all: "errors_of (validate_value lib v) = found lib v" by (rule validate_found [OF assms])
  then have "x \<in> errors_of (validate_value lib v) \<longleftrightarrow> (\<exists>segs e. fails_at lib v segs e \<and> x = e\<lparr>ve_path := render segs\<rparr>)"
    by (auto simp: found_def)
  moreover have "validate_value lib v = Inr () \<longleftrightarrow> errors_of (validate_value lib v) = {}"
    using validate_nonempty [of lib v] by (cases "validate_value lib v") auto
  then have "validate_value lib v = Inr () \<longleftrightarrow> \<not> (\<exists>segs e. fails_at lib v segs e)" unfolding all by (auto simp: found_def)
  ultimately show ?thesis by blast
qed

subsection \<open>An example\<close>

definition sample_lib :: "int rule_lib" where
  "sample_lib =
     \<lparr>rl_num = \<lparr>num_less = (<), num_display = (\<lambda>n. show_nat (nat n))\<rparr>, rl_alphanumeric = (\<lambda>c. c < 0x80), rl_debug = (\<lambda>s. s),
      rl_matches = (\<lambda>re s. re = s), rl_custom = (\<lambda>f v. None), rl_camel = True\<rparr>"

definition sample_model :: "int mvalue" where
  "sample_model =
     MModel
      [(FieldSpec ''contact'' False [Email], MText ''a@b.c''),
       (FieldSpec ''line_items'' False [Dive],
        MSeq [MModel [(FieldSpec ''count'' False [Range (Some 1) None], MNum 3)],
              MModel [(FieldSpec ''count'' False [Range (Some 1) None], MNum 0)]])]"

lemma sample_chars: "char_of (99 :: nat) = CHR ''c''" "char_of (108 :: nat) = CHR ''l''" "char_of (73 :: nat) = CHR ''I''"
    "char_of (49 :: nat) = CHR ''1''"
  by code_simp+

lemma sample_names: "wire_name True ''contact'' = ''contact''" "wire_name True ''line_items'' = ''lineItems''"
    "wire_name True ''count'' = ''count''"
  by (simp_all add: wire_name_def ascii_upper_def ascii_lower_def sample_chars)

lemma sample_validate:
  "validate_value sample_lib sample_model =
     Inl [\<lparr>ve_path = ''lineItems[1].count'', ve_code = ''range'', ve_message = ''must be >= 1''\<rparr>]"
  by (simp add: sample_lib_def sample_model_def sample_names field_block_def email_rule_def looks_like_email_def is_whitespace_def
      is_control_def range_rule_def validation_error_new_def into_result_def at_field_def at_index_def prefix_bracket_def
      starts_bracket_def show_nat.simps digit_char_def sample_chars)

lemma sample_named: "plain_errors sample_lib" "labels_named sample_lib sample_model"
  by (simp_all add: plain_errors_def sample_lib_def sample_model_def sample_names name_ok_def starts_bracket_def)

theorem validate_reports_exactly_witness:
  "plain_errors sample_lib \<and> labels_named sample_lib sample_model \<and>
   (\<exists>segs e. fails_at sample_lib sample_model segs e \<and>
      \<lparr>ve_path = ''lineItems[1].count'', ve_code = ''range'', ve_message = ''must be >= 1''\<rparr> = e\<lparr>ve_path := render segs\<rparr>)"
  using validate_reports_exactly
    [OF sample_named, of "\<lparr>ve_path = ''lineItems[1].count'', ve_code = ''range'', ve_message = ''must be >= 1''\<rparr>"] sample_named
  unfolding sample_validate errors_of_simps by simp

end
