(* ===== verification/Tools.thy ===== *)
theory Tools
  imports AgentTypes Validation
begin

text \<open>
  Tools (\<^verbatim>\<open>ai-sdk/src/tool.rs\<close>, \<^verbatim>\<open>tool/no_args.rs\<close>) and the cancellation token (\<^verbatim>\<open>cancel.rs\<close>). A typed tool is a record of
  what its types bring (decoding, validation, encoding, schema) and of its body over a world \<^typ>\<open>'w\<close>, which holds the
  tool context; erasing it gives a function from JSON to JSON. The registry is an index map: an association list
  in the order of insertion. The lower-case table of Unicode is an argument, and so is the library's notifier.
\<close>

subsection \<open>Typed and erased tools\<close>

record ('a, 'o, 'w) tool =
  tl_name :: string
  tl_description :: string
  tl_schema :: jvalue
  tl_decode :: "jvalue \<Rightarrow> string + 'a"
  tl_validate :: "'a \<Rightarrow> validation_errors + unit"
  tl_run :: "'a \<Rightarrow> 'w \<Rightarrow> (string + 'o) \<times> 'w"
  tl_encode :: "'o \<Rightarrow> string + jvalue"

record 'w tool_dyn =
  dyn_name :: string
  dyn_def :: tool_def
  dyn_call_json :: "jvalue \<Rightarrow> 'w \<Rightarrow> (string + jvalue) \<times> 'w"

definition typed_call_json :: "('a, 'o, 'w) tool \<Rightarrow> jvalue \<Rightarrow> 'w \<Rightarrow> (string + jvalue) \<times> 'w" where
  "typed_call_json t args w =
     (case tl_decode t args of
        Inl e \<Rightarrow> (Inl (''invalid arguments: '' @ e), w)
      | Inr parsed \<Rightarrow>
          (case tl_validate t parsed of
             Inl errs \<Rightarrow> (Inl (validation_errors_display errs), w)
           | Inr u \<Rightarrow>
               (case tl_run t parsed w of
                  (Inl e, w) \<Rightarrow> (Inl e, w)
                | (Inr output, w) \<Rightarrow> (tl_encode t output, w))))"

definition TypedTool :: "('a, 'o, 'w) tool \<Rightarrow> 'w tool_dyn" where
  "TypedTool t =
     \<lparr>dyn_name = tl_name t, dyn_def = tool_def_new (tl_name t) (tl_description t) (tl_schema t),
      dyn_call_json = typed_call_json t\<rparr>"

text \<open>Arguments of a tool that takes none: an object with no fields.\<close>

definition no_args_decode :: "string \<Rightarrow> jvalue \<Rightarrow> string + unit" where
  "no_args_decode not_a_map v =
     (case v of
        JObject kvs \<Rightarrow> if kvs = [] then Inr () else Inl ''tool accepts no argument fields''
      | _ \<Rightarrow> Inl not_a_map)"

definition no_args_schema :: jvalue where
  "no_args_schema =
     json_object
      [(''type'', JString ''object''), (''properties'', JObject []), (''required'', JArray []),
       (''additionalProperties'', JBool False)]"

subsection \<open>The registry\<close>

record 'w tool_entry =
  en_tool :: "'w tool_dyn"
  en_def :: tool_def
  en_tags :: "string list"
  en_defer :: bool

type_synonym 'w tool_registry = "(string \<times> 'w tool_entry) list"

definition registry_new :: "'w tool_registry" where
  "registry_new = []"

definition registry_insert :: "'w tool_dyn \<Rightarrow> string list \<Rightarrow> bool \<Rightarrow> 'w tool_registry \<Rightarrow> 'w tool_registry" where
  "registry_insert t tags defer reg =
     AList.update (td_name (dyn_def t)) \<lparr>en_tool = t, en_def = dyn_def t, en_tags = tags, en_defer = defer\<rparr> reg"

definition registry_register :: "('a, 'o, 'w) tool \<Rightarrow> 'w tool_registry \<Rightarrow> 'w tool_registry" where
  "registry_register t reg = registry_insert (TypedTool t) [] False reg"

definition register_set :: "'w tool_dyn list \<Rightarrow> 'w tool_registry \<Rightarrow> 'w tool_registry" where
  "register_set ts reg = fold (\<lambda>t. registry_insert t [] False) ts reg"

definition registry_remove :: "string \<Rightarrow> 'w tool_registry \<Rightarrow> bool \<times> 'w tool_registry" where
  "registry_remove name reg = (map_of reg name \<noteq> None, AList.delete name reg)"

definition registry_get :: "'w tool_registry \<Rightarrow> string \<Rightarrow> 'w tool_dyn option" where
  "registry_get reg name = map_option en_tool (map_of reg name)"

definition registry_names :: "'w tool_registry \<Rightarrow> string list" where
  "registry_names reg = map fst reg"

definition active_defs :: "'w tool_registry \<Rightarrow> tool_def list" where
  "active_defs reg = map en_def (filter (\<lambda>e. \<not> en_defer e) (map snd reg))"

definition has_deferred :: "'w tool_registry \<Rightarrow> bool" where
  "has_deferred reg \<longleftrightarrow> list_ex en_defer (map snd reg)"

definition registry_activate :: "string \<Rightarrow> 'w tool_registry \<Rightarrow> bool \<times> 'w tool_registry" where
  "registry_activate name reg =
     (case map_of reg name of
        Some e \<Rightarrow> (True, AList.update name (e\<lparr>en_defer := False\<rparr>) reg)
      | None \<Rightarrow> (False, reg))"

definition registry_search :: "(string \<Rightarrow> string) \<Rightarrow> 'w tool_registry \<Rightarrow> string \<Rightarrow> (string \<times> string) list" where
  "registry_search lower reg query =
     List.map_filter
      (\<lambda>(name, e).
         if \<not> en_defer e then None
         else
           let hay = lower (name @ '' '' @ td_description (en_def e) @ '' '' @ join '' '' (en_tags e))
           in if find_text (lower query) hay \<noteq> None then Some (name, td_description (en_def e)) else None)
      reg"

definition registry_call :: "'w tool_registry \<Rightarrow> string \<Rightarrow> jvalue \<Rightarrow> 'w \<Rightarrow> (string + jvalue) \<times> 'w" where
  "registry_call reg name args w =
     (case registry_get reg name of
        Some t \<Rightarrow> dyn_call_json t args w
      | None \<Rightarrow> (Inl (''unknown tool: '' @ name), w))"

subsection \<open>Cancellation\<close>

text \<open>
  A notifier gives tickets; a ticket is ready once \<^verbatim>\<open>notify_waiters\<close> ran after it was given. A waiter is at one of the
  points of the loop of \<^verbatim>\<open>cancelled\<close>: before the first check, between the check and \<^verbatim>\<open>notified\<close>, before the second check
  with its ticket, waiting on it, or done.
\<close>

record ('n, 't) notifier =
  nf_notified :: "'n \<Rightarrow> 't"
  nf_notify_waiters :: "'n \<Rightarrow> 'n"
  nf_ready :: "'n \<Rightarrow> 't \<Rightarrow> bool"

datatype 't waiter = WCheck | WRegister | WRecheck 't | WWaiting 't | WDone

datatype canceller = CStore | CNotify | CFinished

record ('n, 't) token =
  tk_cancelled :: bool
  tk_notify :: 'n
  tk_waiters :: "'t waiter list"
  tk_cancellers :: "canceller list"

definition waiter_step :: "('n, 't) notifier \<Rightarrow> bool \<Rightarrow> 'n \<Rightarrow> 't waiter \<Rightarrow> 't waiter option" where
  "waiter_step nf cancelled n x =
     (case x of
        WCheck \<Rightarrow> Some (if cancelled then WDone else WRegister)
      | WRegister \<Rightarrow> Some (WRecheck (nf_notified nf n))
      | WRecheck t \<Rightarrow> Some (if cancelled then WDone else WWaiting t)
      | WWaiting t \<Rightarrow> if nf_ready nf n t then Some WCheck else None
      | WDone \<Rightarrow> None)"

inductive token_step :: "('n, 't) notifier \<Rightarrow> ('n, 't) token \<Rightarrow> ('n, 't) token \<Rightarrow> bool" for nf where
  waiter: "i < length (tk_waiters k) \<Longrightarrow> waiter_step nf (tk_cancelled k) (tk_notify k) (tk_waiters k ! i) = Some x \<Longrightarrow>
    token_step nf k (k\<lparr>tk_waiters := (tk_waiters k)[i := x]\<rparr>)"
| await: "token_step nf k (k\<lparr>tk_waiters := tk_waiters k @ [WCheck]\<rparr>)"
| cancel: "token_step nf k (k\<lparr>tk_cancellers := tk_cancellers k @ [CStore]\<rparr>)"
| store: "j < length (tk_cancellers k) \<Longrightarrow> tk_cancellers k ! j = CStore \<Longrightarrow>
    token_step nf k (k\<lparr>tk_cancelled := True, tk_cancellers := (tk_cancellers k)[j := CNotify]\<rparr>)"
| wake: "j < length (tk_cancellers k) \<Longrightarrow> tk_cancellers k ! j = CNotify \<Longrightarrow>
    token_step nf k (k\<lparr>tk_notify := nf_notify_waiters nf (tk_notify k), tk_cancellers := (tk_cancellers k)[j := CFinished]\<rparr>)"

definition token_new :: "'n \<Rightarrow> ('n, 't) token" where
  "token_new n = \<lparr>tk_cancelled = False, tk_notify = n, tk_waiters = [], tk_cancellers = []\<rparr>"

end
