(* ===== verification/ToolsProps.thy ===== *)
theory ToolsProps
  imports Tools
begin

text \<open>
  Properties of the tool registry, over every registry that its operations can build, and of the cancellation token,
  over every interleaving of its waiters and cancellers.
\<close>

subsection \<open>Registries that can be built\<close>

inductive registry_reach :: "'w tool_registry \<Rightarrow> bool" where
  new: "registry_reach registry_new"
| insert: "registry_reach reg \<Longrightarrow> registry_reach (registry_insert t tags defer reg)"
| remove: "registry_reach reg \<Longrightarrow> registry_reach (snd (registry_remove name reg))"
| activate: "registry_reach reg \<Longrightarrow> registry_reach (snd (registry_activate name reg))"

definition entry_ok :: "string \<Rightarrow> 'w tool_entry \<Rightarrow> bool" where
  "entry_ok name e \<longleftrightarrow> en_def e = dyn_def (en_tool e) \<and> name = td_name (en_def e)"

definition registry_ok :: "'w tool_registry \<Rightarrow> bool" where
  "registry_ok reg \<longleftrightarrow> distinct (map fst reg) \<and> (\<forall>(name, e) \<in> set reg. entry_ok name e)"

lemma registry_ok_update: "registry_ok reg \<Longrightarrow> entry_ok name e \<Longrightarrow> registry_ok (AList.update name e reg)"
proof -
  assume ok: "registry_ok reg" "entry_ok name e"
  moreover have "set (AList.update name e reg) \<subseteq> insert (name, e) (set reg)" by (induction reg) auto
  ultimately show ?thesis unfolding registry_ok_def using distinct_update [of reg name e] by blast
qed

lemma registry_reach_ok: "registry_reach reg \<Longrightarrow> registry_ok reg"
proof (induction rule: registry_reach.induct)
  case (insert reg t tags later)
  then show ?case unfolding registry_insert_def by (intro registry_ok_update) (simp_all add: entry_ok_def)
next
  case (remove reg name)
  then show ?case using AList.delete_notin_dom by (auto simp: registry_remove_def registry_ok_def distinct_delete AList.delete_eq)
next
  case (activate reg name)
  show ?case
  proof (cases "map_of reg name")
    case None
    with activate show ?thesis by (simp add: registry_activate_def)
  next
    case (Some e)
    from activate.IH map_of_SomeD [OF Some] have "entry_ok name e" unfolding registry_ok_def by fast
    then have "entry_ok name (e\<lparr>en_defer := False\<rparr>)" unfolding entry_ok_def by simp
    then have "registry_ok (AList.update name (e\<lparr>en_defer := False\<rparr>) reg)" using activate.IH by (intro registry_ok_update)
    with Some show ?thesis by (simp add: registry_activate_def)
  qed
qed (simp add: registry_new_def registry_ok_def)

text \<open>The names of the active and of the deferred tools.\<close>

definition offered :: "'w tool_registry \<Rightarrow> string set" where
  "offered reg = td_name ` set (active_defs reg)"

definition hidden :: "(string \<Rightarrow> string) \<Rightarrow> 'w tool_registry \<Rightarrow> string set" where
  "hidden lower reg = fst ` set (registry_search lower reg [])"

lemma registry_map_of: "registry_ok reg \<Longrightarrow> (n, e) \<in> set reg \<longleftrightarrow> map_of reg n = Some e"
  unfolding registry_ok_def by (simp add: map_of_eq_Some_iff)

lemma offered_iff: "registry_ok reg \<Longrightarrow> n \<in> offered reg \<longleftrightarrow> (\<exists>e. map_of reg n = Some e \<and> \<not> en_defer e)"
proof -
  assume ok: "registry_ok reg"
  then have "(m, e) \<in> set reg \<Longrightarrow> td_name (en_def e) = m" for m e unfolding registry_ok_def entry_ok_def by fast
  then have "n \<in> offered reg \<longleftrightarrow> (\<exists>e. (n, e) \<in> set reg \<and> \<not> en_defer e)"
    unfolding offered_def active_defs_def by (force simp: image_iff)
  with ok show ?thesis by (simp add: registry_map_of)
qed

lemma find_empty [simp]: "find_text [] s = Some 0"
  by (cases s) simp_all

lemma hidden_iff:
  assumes "registry_ok reg" "lower [] = []"
  shows "n \<in> hidden lower reg \<longleftrightarrow> (\<exists>e. map_of reg n = Some e \<and> en_defer e)"
proof -
  have "n \<in> hidden lower reg \<longleftrightarrow> (\<exists>e. (n, e) \<in> set reg \<and> en_defer e)"
    unfolding hidden_def registry_search_def List.map_filter_def using assms(2) by (force simp: image_iff)
  with assms(1) show ?thesis by (simp add: registry_map_of)
qed

text \<open>In every registry that can be built, the tools offered to a model and those that a search with the empty query finds
  are disjoint and are together all the registered ones; the handle found under a name is a tool that calls itself that;
  activating a tool moves it, and no other, from the one group to the other, and reports whether it is registered.
\<close>

theorem deferred_until_activated:
  assumes "registry_reach reg" "lower [] = []" "registry_activate n reg = (known, reg')"
  shows "offered reg \<union> hidden lower reg = set (registry_names reg)"
    and "offered reg \<inter> hidden lower reg = {}"
    and "registry_get reg m = Some t \<Longrightarrow> td_name (dyn_def t) = m"
    and "known \<longleftrightarrow> n \<in> set (registry_names reg)"
    and "offered reg' = (if known then insert n (offered reg) else offered reg)"
    and "hidden lower reg' = hidden lower reg - {n}"
    and "registry_names reg' = registry_names reg"
proof -
  have ok: "registry_ok reg" using assms(1) by (rule registry_reach_ok)
  have ok': "registry_ok reg'" using registry_reach_ok [OF activate [OF assms(1), of n]] assms(3) by simp
  have names: "m \<in> set (registry_names reg) \<longleftrightarrow> map_of reg m \<noteq> None" for m
    by (simp add: registry_names_def map_of_eq_None_iff)
  have of': "map_of reg' m = (if known \<and> m = n then map_option (en_defer_update (\<lambda>_. False)) (map_of reg n) else map_of reg m)" for m
    using assms(3) by (auto simp: registry_activate_def update_conv' split: option.splits)
  show k: "known \<longleftrightarrow> n \<in> set (registry_names reg)"
    using assms(3) unfolding names by (auto simp: registry_activate_def split: option.splits)
  show "offered reg \<union> hidden lower reg = set (registry_names reg)" "offered reg \<inter> hidden lower reg = {}"
    using offered_iff [OF ok] hidden_iff [of reg lower, OF ok assms(2)] names by auto
  show "td_name (dyn_def t) = m" if "registry_get reg m = Some t"
  proof -
    from that obtain e where "(m, e) \<in> set reg" "t = en_tool e" by (auto simp: registry_get_def registry_map_of [OF ok])
    with ok show ?thesis unfolding registry_ok_def entry_ok_def by fastforce
  qed
  show "offered reg' = (if known then insert n (offered reg) else offered reg)"
    using offered_iff [OF ok'] offered_iff [OF ok] k names [of n] by (auto simp: of' split: if_splits)
  show "hidden lower reg' = hidden lower reg - {n}"
    using hidden_iff [of reg' lower, OF ok' assms(2)] hidden_iff [of reg lower, OF ok assms(2)] k names [of n]
    by (auto simp: of' split: if_splits)
  show "registry_names reg' = registry_names reg"
    using assms(3) by (auto simp: registry_activate_def registry_names_def update_keys split: option.splits
        dest!: map_of_SomeD) (force simp: image_iff)
qed

text \<open>A registry with one tool that is offered and one that is not.\<close>

definition sample_tool :: "string \<Rightarrow> (unit, unit, unit) tool" where
  "sample_tool n =
     \<lparr>tl_name = n, tl_description = ''A sample'', tl_schema = no_args_schema, tl_decode = no_args_decode ''not a map'',
      tl_validate = (\<lambda>a. Inr ()), tl_run = (\<lambda>a w. (Inr (), w)), tl_encode = (\<lambda>u. Inr JNull)\<rparr>"

definition sample_registry :: "unit tool_registry" where
  "sample_registry = registry_insert (TypedTool (sample_tool ''b'')) [''x''] True (registry_register (sample_tool ''a'') registry_new)"

lemma sample_registry_reach: "registry_reach sample_registry"
  unfolding sample_registry_def registry_register_def by (intro registry_reach.intros)

theorem deferred_until_activated_witness:
  "registry_reach sample_registry \<and>
   (let (known, reg') = registry_activate ''b'' sample_registry
    in known \<and> offered reg' = insert ''b'' (offered sample_registry) \<and>
      registry_names reg' = registry_names sample_registry)"
proof -
  have known: "fst (registry_activate ''b'' sample_registry)"
    by (simp add: sample_registry_def registry_activate_def registry_insert_def TypedTool_def sample_tool_def tool_def_new_def
        update_conv')
  obtain k r where act: "registry_activate ''b'' sample_registry = (k, r)" by fastforce
  show ?thesis
    using deferred_until_activated(5,7) [OF sample_registry_reach _ act, of "\<lambda>s. s"] known sample_registry_reach by (simp add: act)
qed

subsection \<open>Cancellation\<close>

text \<open>
  What the library documents: a ticket is woken by every \<^verbatim>\<open>notify_waiters\<close> after it was given, polled or not.
\<close>

definition notifier_ok :: "('n, 't) notifier \<Rightarrow> bool" where
  "notifier_ok nf \<longleftrightarrow> (\<forall>n k. nf_ready nf ((nf_notify_waiters nf ^^ Suc k) n) (nf_notified nf n))"

abbreviation token_reach :: "('n, 't) notifier \<Rightarrow> 'n \<Rightarrow> ('n, 't) token \<Rightarrow> bool" where
  "token_reach nf n \<equiv> (token_step nf)\<^sup>*\<^sup>* (token_new n)"

text \<open>The waiter's own next steps, while the token stands still.\<close>

fun waiter_steps :: "('n, 't) notifier \<Rightarrow> bool \<Rightarrow> 'n \<Rightarrow> nat \<Rightarrow> 't waiter \<Rightarrow> 't waiter" where
  "waiter_steps nf c n 0 x = x"
| "waiter_steps nf c n (Suc m) x = (case waiter_step nf c n x of None \<Rightarrow> x | Some y \<Rightarrow> waiter_steps nf c n m y)"

definition issued :: "('n, 't) notifier \<Rightarrow> 'n \<Rightarrow> 't \<Rightarrow> nat \<Rightarrow> bool" where
  "issued nf n t k \<longleftrightarrow> (\<exists>m. t = nf_notified nf m \<and> n = (nf_notify_waiters nf ^^ k) m)"

text \<open>A waiting ticket that has seen no wake-up was given before any cancellation finished.\<close>

fun waiter_ok :: "('n, 't) notifier \<Rightarrow> ('n, 't) token \<Rightarrow> 't waiter \<Rightarrow> bool" where
  "waiter_ok nf k (WRecheck t) = (\<exists>j. issued nf (tk_notify k) t j)"
| "waiter_ok nf k (WWaiting t) =
     (\<exists>j. issued nf (tk_notify k) t j \<and> (j = 0 \<longrightarrow> CFinished \<notin> set (tk_cancellers k)))"
| "waiter_ok nf k WDone = tk_cancelled k"
| "waiter_ok nf k x = True"

definition token_ok :: "('n, 't) notifier \<Rightarrow> ('n, 't) token \<Rightarrow> bool" where
  "token_ok nf k \<longleftrightarrow>
     (\<forall>x \<in> set (tk_waiters k). waiter_ok nf k x) \<and> (tk_cancelled k \<longleftrightarrow> (\<exists>c \<in> set (tk_cancellers k). c \<noteq> CStore))"

lemma issued_wake: "issued nf n t j \<Longrightarrow> issued nf (nf_notify_waiters nf n) t (Suc j)"
  by (auto simp: issued_def)

lemma issued_new: "issued nf n (nf_notified nf n) 0"
  by (auto simp: issued_def)

lemma waiter_ok_step:
  assumes "waiter_ok nf k x" "waiter_step nf (tk_cancelled k) (tk_notify k) x = Some y"
    "CFinished \<in> set (tk_cancellers k) \<longrightarrow> tk_cancelled k"
  shows "waiter_ok nf k y"
proof (cases x)
  case (WRecheck t)
  with assms show ?thesis by (cases "tk_cancelled k") (auto simp: waiter_step_def)
qed (use assms issued_new [of nf "tk_notify k"] in \<open>auto simp: waiter_step_def split: if_splits\<close>)

lemma waiter_ok_mono:
  assumes "waiter_ok nf k x" "tk_notify k' = tk_notify k" "tk_cancelled k \<longrightarrow> tk_cancelled k'"
    "CFinished \<in> set (tk_cancellers k') \<longrightarrow> CFinished \<in> set (tk_cancellers k)"
  shows "waiter_ok nf k' x"
  using assms by (cases x) auto

lemma waiter_ok_wake:
  assumes "waiter_ok nf k x" "tk_notify k' = nf_notify_waiters nf (tk_notify k)" "tk_cancelled k \<longrightarrow> tk_cancelled k'"
  shows "waiter_ok nf k' x"
proof (cases x)
  case (WRecheck t)
  with assms issued_wake [of nf "tk_notify k" t] show ?thesis by auto
next
  case (WWaiting t)
  with assms obtain j where "issued nf (tk_notify k) t j" by auto
  from issued_wake [OF this] have "\<exists>j. issued nf (tk_notify k') t j \<and> j \<noteq> 0" unfolding assms(2) by blast
  with WWaiting show ?thesis by auto
qed (use assms in auto)

lemma token_step_ok: "token_step nf k k' \<Longrightarrow> token_ok nf k \<Longrightarrow> token_ok nf k'"
proof (induction rule: token_step.induct)
  case (waiter i k x)
  then have ok: "\<forall>y \<in> set (tk_waiters k). waiter_ok nf k y" and at: "waiter_ok nf k (tk_waiters k ! i)" by (auto simp: token_ok_def)
  have same: "waiter_ok nf (k\<lparr>tk_waiters := ws\<rparr>) y = waiter_ok nf k y" for ws y by (cases y) auto
  have "\<forall>y \<in> set ((tk_waiters k)[i := x]). waiter_ok nf k y"
    using ok waiter_ok_step [OF at waiter(2)] waiter(3) set_update_subset_insert [of "tk_waiters k" i x]
    by (fastforce simp: token_ok_def)
  with waiter(3) show ?case by (simp add: token_ok_def same)
next
  case (await k)
  have same: "waiter_ok nf (k\<lparr>tk_waiters := ws\<rparr>) y = waiter_ok nf k y" for ws y by (cases y) auto
  from await show ?case by (auto simp: token_ok_def same)
next
  case (cancel k)
  have "waiter_ok nf (k\<lparr>tk_cancellers := tk_cancellers k @ [CStore]\<rparr>) y" if "waiter_ok nf k y" for y
    by (rule waiter_ok_mono [OF that]) auto
  with cancel show ?case by (auto simp: token_ok_def)
next
  case (store j k)
  then have pending: "CNotify \<in> set ((tk_cancellers k)[j := CNotify])" by (simp add: set_update_memI)
  have old: "CFinished \<in> set ((tk_cancellers k)[j := CNotify]) \<longrightarrow> CFinished \<in> set (tk_cancellers k)"
    using set_update_subset_insert [of "tk_cancellers k" j CNotify] by auto
  have "waiter_ok nf (k\<lparr>tk_cancelled := True, tk_cancellers := (tk_cancellers k)[j := CNotify]\<rparr>) y" if "waiter_ok nf k y" for y
    by (rule waiter_ok_mono [OF that]) (use old in auto)
  with store pending show ?case by (auto simp: token_ok_def)
next
  case (wake j k)
  then have "CNotify \<in> set (tk_cancellers k)" by (metis nth_mem)
  with wake have c: "tk_cancelled k" by (auto simp: token_ok_def)
  have fin: "CFinished \<in> set ((tk_cancellers k)[j := CFinished])" using wake by (simp add: set_update_memI)
  have "waiter_ok nf (k\<lparr>tk_notify := nf_notify_waiters nf (tk_notify k), tk_cancellers := (tk_cancellers k)[j := CFinished]\<rparr>) y"
    if "waiter_ok nf k y" for y by (rule waiter_ok_wake [OF that]) auto
  with wake c fin show ?case by (auto simp: token_ok_def)
qed

lemma token_reach_ok: "token_reach nf n k \<Longrightarrow> token_ok nf k"
proof (induction rule: rtranclp_induct)
  case base
  show ?case by (simp add: token_new_def token_ok_def)
qed (rule token_step_ok)

text \<open>C35: No wake-up is lost. However waiters and cancellers interleave, a waiter returns only when the token is cancelled; and
  once one call of \<^verbatim>\<open>cancel\<close> has finished, every waiter, wherever it is in its loop, returns after at most two steps
  of its own.
\<close>

theorem cancelled_wakes_all:
  assumes "notifier_ok nf" "token_reach nf n k" "x \<in> set (tk_waiters k)"
  shows "(x = WDone \<longrightarrow> tk_cancelled k) \<and>
    (CFinished \<in> set (tk_cancellers k) \<longrightarrow> waiter_steps nf (tk_cancelled k) (tk_notify k) 2 x = WDone)"
proof (intro conjI impI)
  have ok: "token_ok nf k" using assms(2) by (rule token_reach_ok)
  then have w: "waiter_ok nf k x" using assms(3) by (simp add: token_ok_def)
  then show "tk_cancelled k" if "x = WDone" using that by simp
  assume fin: "CFinished \<in> set (tk_cancellers k)"
  with ok have c: "tk_cancelled k" by (auto simp: token_ok_def)
  have "nf_ready nf (tk_notify k) t" if "x = WWaiting t" for t
  proof -
    from w that fin obtain j where "issued nf (tk_notify k) t j" "j \<noteq> 0" by auto
    then obtain m i where "t = nf_notified nf m" "tk_notify k = (nf_notify_waiters nf ^^ Suc i) m"
      unfolding issued_def by (metis not0_implies_Suc)
    then show ?thesis using assms(1) unfolding notifier_ok_def by simp
  qed
  with c show "waiter_steps nf (tk_cancelled k) (tk_notify k) 2 x = WDone"
    by (cases x) (simp_all add: waiter_step_def numeral_2_eq_2)
qed

text \<open>A counter of wake-ups, a ticket being the count when it was given; a waiter that registered before the cancellation.\<close>

definition counting :: "(nat, nat) notifier" where
  "counting = \<lparr>nf_notified = (\<lambda>n. n), nf_notify_waiters = Suc, nf_ready = (\<lambda>n t. t < n)\<rparr>"

definition woken :: "(nat, nat) token" where
  "woken = \<lparr>tk_cancelled = True, tk_notify = 1, tk_waiters = [WWaiting 0], tk_cancellers = [CFinished]\<rparr>"

lemma counting_ok: "notifier_ok counting"
proof -
  have "(Suc ^^ k) n = k + n" for k n :: nat by (induction k) auto
  then show ?thesis by (simp add: notifier_ok_def counting_def)
qed

lemma woken_reach: "token_reach counting 0 woken"
proof -
  let ?t = "\<lambda>c n ws cs. \<lparr>tk_cancelled = c, tk_notify = n, tk_waiters = ws, tk_cancellers = cs\<rparr>"
  have "token_step counting (token_new 0) (?t False 0 [WCheck] [])"
    using token_step.await [of counting "token_new 0"] by (simp add: token_new_def)
  moreover have "token_step counting (?t False 0 [WCheck] []) (?t False 0 [WRegister] [])"
    using token_step.waiter [of 0 "?t False 0 [WCheck] []" counting WRegister] by (simp add: waiter_step_def)
  moreover have "token_step counting (?t False 0 [WRegister] []) (?t False 0 [WRecheck 0] [])"
    using token_step.waiter [of 0 "?t False 0 [WRegister] []" counting "WRecheck 0"] by (simp add: waiter_step_def counting_def)
  moreover have "token_step counting (?t False 0 [WRecheck 0] []) (?t False 0 [WWaiting 0] [])"
    using token_step.waiter [of 0 "?t False 0 [WRecheck 0] []" counting "WWaiting 0"] by (simp add: waiter_step_def)
  moreover have "token_step counting (?t False 0 [WWaiting 0] []) (?t False 0 [WWaiting 0] [CStore])"
    using token_step.cancel [of counting "?t False 0 [WWaiting 0] []"] by simp
  moreover have "token_step counting (?t False 0 [WWaiting 0] [CStore]) (?t True 0 [WWaiting 0] [CNotify])"
    using token_step.store [of 0 "?t False 0 [WWaiting 0] [CStore]" counting] by simp
  moreover have "token_step counting (?t True 0 [WWaiting 0] [CNotify]) woken"
    using token_step.wake [of 0 "?t True 0 [WWaiting 0] [CNotify]" counting] by (simp add: woken_def counting_def)
  ultimately show ?thesis by (meson converse_rtranclp_into_rtranclp rtranclp.rtrancl_refl)
qed

theorem cancelled_wakes_all_witness:
  "notifier_ok counting \<and> token_reach counting 0 woken \<and>
   waiter_steps counting (tk_cancelled woken) (tk_notify woken) 2 (WWaiting 0) = WDone"
  using cancelled_wakes_all [OF counting_ok woken_reach, of "WWaiting 0"] counting_ok woken_reach by (simp add: woken_def)

end
