(* ===== verification/Llm.thy ===== *)
theory Llm
  imports ProviderHttp Validation
begin

text \<open>
  Calls without an agent (\<^verbatim>\<open>ai-sdk/src/llm.rs\<close>, \<^verbatim>\<open>llm/extraction.rs\<close>): one request for text or for a structured value, which
  the model returns as the input of a tool named \<^verbatim>\<open>extract\<close>. The provider is a record of functions over a world \<^typ>\<open>'w\<close>; the
  type of the value brings its schema, its decoder and its validation.
\<close>

subsection \<open>The builder\<close>

record ('f, 'w) completer =
  cp_model_id :: string
  cp_capabilities_for :: "string \<Rightarrow> provider_capabilities"
  cp_cache_capabilities_for :: "string \<Rightarrow> cache_capabilities"
  cp_complete :: "'f chat_request \<Rightarrow> 'w \<Rightarrow> (provider_error + chat_response) \<times> 'w"

record ('f, 'w) llm =
  lm_provider :: "('f, 'w) completer"
  lm_model :: "string option"
  lm_system :: "string option"
  lm_user :: "string option"
  lm_max_tokens :: "32 word"
  lm_temperature :: "'f option"
  lm_cache :: cache_strategy

definition llm_new :: "('f, 'w) completer \<Rightarrow> ('f, 'w) llm" where
  "llm_new p =
     \<lparr>lm_provider = p, lm_model = None, lm_system = None, lm_user = None, lm_max_tokens = 1024, lm_temperature = None,
      lm_cache = CacheAuto\<rparr>"

definition llm_model :: "string \<Rightarrow> ('f, 'w) llm \<Rightarrow> ('f, 'w) llm" where
  "llm_model m l = l\<lparr>lm_model := Some m\<rparr>"

definition llm_system :: "string \<Rightarrow> ('f, 'w) llm \<Rightarrow> ('f, 'w) llm" where
  "llm_system s l = l\<lparr>lm_system := Some s\<rparr>"

definition llm_user :: "string \<Rightarrow> ('f, 'w) llm \<Rightarrow> ('f, 'w) llm" where
  "llm_user u l = l\<lparr>lm_user := Some u\<rparr>"

definition llm_max_tokens :: "32 word \<Rightarrow> ('f, 'w) llm \<Rightarrow> ('f, 'w) llm" where
  "llm_max_tokens n l = l\<lparr>lm_max_tokens := n\<rparr>"

definition llm_temperature :: "'f \<Rightarrow> ('f, 'w) llm \<Rightarrow> ('f, 'w) llm" where
  "llm_temperature t l = l\<lparr>lm_temperature := Some t\<rparr>"

definition llm_cache :: "cache_strategy \<Rightarrow> ('f, 'w) llm \<Rightarrow> ('f, 'w) llm" where
  "llm_cache c l = l\<lparr>lm_cache := c\<rparr>"

subsection \<open>Requests\<close>

definition chat_request_new :: "string \<Rightarrow> 'f chat_request" where
  "chat_request_new model =
     \<lparr>cr_model = model, cr_system = None, cr_messages = [], cr_tools = [], cr_tool_choice = ChooseAuto, cr_max_tokens = 4096,
      cr_temperature = None, cr_stop_sequences = [], cr_thinking = ThinkOff, cr_cache = CacheAuto, cr_cache_key = None,
      cr_parallel_tool_calls = None, cr_extra = []\<rparr>"

definition selected_model :: "('f, 'w) llm \<Rightarrow> string" where
  "selected_model l = (case lm_model l of Some m \<Rightarrow> m | None \<Rightarrow> cp_model_id (lm_provider l))"

definition llm_build_request :: "('f, 'w) llm \<Rightarrow> tool_def list \<Rightarrow> tool_choice \<Rightarrow> agent_error + 'f chat_request" where
  "llm_build_request l tools choice =
     (case lm_user l of
        None \<Rightarrow> Inl (ESchema ''LLM: user message must be set before calling extract/text'')
      | Some user_text \<Rightarrow>
          let model = selected_model l;
              req = (chat_request_new model)
                \<lparr>cr_system := map_option system_prompt_from (lm_system l), cr_messages := [User [UText user_text]],
                 cr_tools := tools, cr_tool_choice := choice, cr_max_tokens := lm_max_tokens l,
                 cr_temperature := lm_temperature l, cr_cache := lm_cache l\<rparr>;
              req = fit_to req (cp_capabilities_for (lm_provider l) (cr_model req))
          in case validate_cache (cp_cache_capabilities_for (lm_provider l) (cr_model req)) (cr_cache req) of
               Inl e \<Rightarrow> Inl (EProvider e)
             | Inr u \<Rightarrow> Inr req)"

definition EXTRACT :: string where
  "EXTRACT = ''extract''"

definition EXTRACT_INSTRUCTION :: string where
  "EXTRACT_INSTRUCTION =
     ''Return the structured result by calling the extract tool. '' @
     ''Do not answer with prose or a JSON text block.''"

definition extraction_request :: "jvalue \<Rightarrow> ('f, 'w) llm \<Rightarrow> agent_error + 'f chat_request" where
  "extraction_request schema l =
     (case llm_build_request l [tool_def_new EXTRACT ''Return the structured result.'' schema] (ChooseTool EXTRACT) of
        Inl e \<Rightarrow> Inl e
      | Inr req \<Rightarrow>
          if cr_tool_choice req = ChooseAuto
          then
            let system = (case cr_system req of Some s \<Rightarrow> s | None \<Rightarrow> system_prompt_from []);
                system = system
                  \<lparr>sp_text := (if sp_text system = [] then EXTRACT_INSTRUCTION
                     else sp_text system @ [CHR 0x0A, CHR 0x0A] @ EXTRACT_INSTRUCTION)\<rparr>
            in Inr (req\<lparr>cr_system := Some system\<rparr>)
          else Inr req)"

subsection \<open>Structured results\<close>

datatype extraction_error =
    MissingUser | InvalidRequest | ProviderFailed | Refused | Incomplete | MissingTool | InvalidPayload | ValidationFailed

fun extraction_error_display :: "extraction_error \<Rightarrow> string" where
  "extraction_error_display MissingUser = ''extraction user message is missing''"
| "extraction_error_display InvalidRequest = ''extraction request is invalid''"
| "extraction_error_display ProviderFailed = ''extraction provider call failed''"
| "extraction_error_display Refused = ''extraction was refused''"
| "extraction_error_display Incomplete = ''extraction response is incomplete''"
| "extraction_error_display MissingTool = ''extraction tool result is missing''"
| "extraction_error_display InvalidPayload = ''extraction payload is invalid''"
| "extraction_error_display ValidationFailed = ''extraction validation failed''"

record 'a extraction =
  ex_model :: string
  ex_usage :: "usage option"
  ex_result :: "extraction_error + 'a"

fun is_tool_block :: "assistant_content \<Rightarrow> bool" where
  "is_tool_block (AToolUse i n j) = True"
| "is_tool_block _ = False"

fun find_extract :: "assistant_content list \<Rightarrow> jvalue option" where
  "find_extract [] = None"
| "find_extract (AToolUse i n j # bs) = (if n = EXTRACT then Some j else find_extract bs)"
| "find_extract (b # bs) = find_extract bs"

definition extract_input :: "stop_reason \<Rightarrow> assistant_content list \<Rightarrow> bool \<Rightarrow> extraction_error + jvalue" where
  "extract_input stop content require_single_tool =
     (case stop of
        Refusal \<Rightarrow> Inl Refused
      | _ \<Rightarrow>
          if stop \<noteq> ToolUse \<and> stop \<noteq> EndTurn then Inl Incomplete
          else if require_single_tool \<and> length (filter is_tool_block content) > 1 then Inl InvalidPayload
          else case find_extract content of Some j \<Rightarrow> Inr j | None \<Rightarrow> Inl MissingTool)"

record 'a model_type =
  mt_schema :: jvalue
  mt_decode :: "jvalue \<Rightarrow> string + 'a"
  mt_validate :: "'a \<Rightarrow> validation_errors + unit"

definition llm_extract :: "'a model_type \<Rightarrow> ('f, 'w) llm \<Rightarrow> 'w \<Rightarrow> (agent_error + 'a) \<times> 'w" where
  "llm_extract ty l w =
     (case extraction_request (mt_schema ty) l of
        Inl e \<Rightarrow> (Inl e, w)
      | Inr req \<Rightarrow>
          (case cp_complete (lm_provider l) req w of
             (Inl e, w) \<Rightarrow> (Inl (EProvider e), w)
           | (Inr resp, w) \<Rightarrow>
               (case extract_input (rs_stop resp) (rs_content resp) False of
                  Inl e \<Rightarrow>
                    (Inl (ESchema
                       (if e = Refused \<or> e = Incomplete
                        then ''LLM::extract: provider refused or did not finish the structured result''
                        else ''LLM::extract: provider response contained no '' @ [CHR 0x27] @ ''extract'' @ [CHR 0x27] @
                          '' tool-use block'')), w)
                | Inr j \<Rightarrow> (case mt_decode ty j of Inl e \<Rightarrow> (Inl (ESchema e), w) | Inr v \<Rightarrow> (Inr v, w)))))"

definition accept_extraction :: "'a model_type \<Rightarrow> chat_response \<Rightarrow> extraction_error + 'a" where
  "accept_extraction ty resp =
     (case extract_input (rs_stop resp) (rs_content resp) True of
        Inl e \<Rightarrow> Inl e
      | Inr j \<Rightarrow>
          (case mt_decode ty j of
             Inl e \<Rightarrow> Inl InvalidPayload
           | Inr v \<Rightarrow> (case mt_validate ty v of Inl errs \<Rightarrow> Inl ValidationFailed | Inr u \<Rightarrow> Inr v)))"

definition extract_with_usage :: "'a model_type \<Rightarrow> ('f, 'w) llm \<Rightarrow> 'w \<Rightarrow> 'a extraction \<times> 'w" where
  "extract_with_usage ty l w =
     (if lm_user l = None
      then (\<lparr>ex_model = selected_model l, ex_usage = None, ex_result = Inl MissingUser\<rparr>, w)
      else
        case extraction_request (mt_schema ty) l of
          Inl e \<Rightarrow> (\<lparr>ex_model = selected_model l, ex_usage = None, ex_result = Inl InvalidRequest\<rparr>, w)
        | Inr request \<Rightarrow>
            (case cp_complete (lm_provider l) request w of
               (Inl e, w) \<Rightarrow> (\<lparr>ex_model = cr_model request, ex_usage = None, ex_result = Inl ProviderFailed\<rparr>, w)
             | (Inr response, w) \<Rightarrow>
                 (\<lparr>ex_model = cr_model request, ex_usage = Some (rs_usage response),
                   ex_result = accept_extraction ty response\<rparr>, w)))"

subsection \<open>Text\<close>

fun text_of_block :: "assistant_content \<Rightarrow> string" where
  "text_of_block (AText t) = t"
| "text_of_block _ = []"

definition llm_text :: "('f, 'w) llm \<Rightarrow> 'w \<Rightarrow> (agent_error + string) \<times> 'w" where
  "llm_text l w =
     (case llm_build_request l [] ChooseNone of
        Inl e \<Rightarrow> (Inl e, w)
      | Inr req \<Rightarrow>
          (case cp_complete (lm_provider l) req w of
             (Inl e, w) \<Rightarrow> (Inl (EProvider e), w)
           | (Inr resp, w) \<Rightarrow> (Inr (concat (map text_of_block (rs_content resp))), w)))"

subsection \<open>Properties\<close>

lemma find_extract_iff:
  "length (filter is_tool_block bs) \<le> 1 \<Longrightarrow> find_extract bs = Some j \<longleftrightarrow> (\<exists>i. filter is_tool_block bs = [AToolUse i EXTRACT j])"
  by (induction bs rule: find_extract.induct) auto

lemma single_extract:
  "extract_input stop bs True = Inr j \<longleftrightarrow>
     (stop = ToolUse \<or> stop = EndTurn) \<and> (\<exists>i. filter is_tool_block bs = [AToolUse i EXTRACT j])"
proof (cases "length (filter is_tool_block bs) \<le> 1")
  case True
  with find_extract_iff [OF True, of j] show ?thesis
    by (cases stop) (auto simp: extract_input_def split: option.splits)
next
  case False
  then show ?thesis by (cases stop) (auto simp: extract_input_def)
qed

lemma single_extract_relaxed: "extract_input stop bs True = Inr j \<Longrightarrow> extract_input stop bs False = Inr j"
  by (auto simp: extract_input_def split: stop_reason.splits if_splits)

lemma accept_extraction_iff:
  "accept_extraction ty resp = Inr v \<longleftrightarrow>
     (rs_stop resp = ToolUse \<or> rs_stop resp = EndTurn) \<and>
     (\<exists>i j. filter is_tool_block (rs_content resp) = [AToolUse i EXTRACT j] \<and> mt_decode ty j = Inr v) \<and> mt_validate ty v = Inr ()"
  (is "_ \<longleftrightarrow> ?stop \<and> ?one \<and> ?valid")
proof -
  have "accept_extraction ty resp = Inr v \<longleftrightarrow>
      (\<exists>j. extract_input (rs_stop resp) (rs_content resp) True = Inr j \<and> mt_decode ty j = Inr v) \<and> ?valid"
    by (auto simp: accept_extraction_def split: sum.splits)
  also have "\<dots> \<longleftrightarrow> ?stop \<and> ?one \<and> ?valid" by (simp only: single_extract) blast
  finally show ?thesis .
qed

lemma extraction_request_ok: "extraction_request schema l = Inr req \<Longrightarrow> lm_user l \<noteq> None \<and> cr_model req = selected_model l"
  by (auto simp: extraction_request_def llm_build_request_def Let_def fit_to_def chat_request_new_def
      split: option.splits sum.splits if_splits)

text \<open>C36: A structured extraction asks the provider at most once, and not at all when the request is refused beforehand. It
  reports the model it selected, and a token usage exactly when the provider answered, whatever became of the answer. It
  gives a value exactly when the answer ended normally with a single tool call, to \<^verbatim>\<open>extract\<close>, whose input
  decodes to that value and passes its validation; then the plain extraction gives the same value.
\<close>

theorem extraction_accounted:
  "(case extract_with_usage ty l w of (x, w') \<Rightarrow>
     (case extraction_request (mt_schema ty) l of
        Inl e \<Rightarrow> w' = w \<and> ex_usage x = None \<and> ex_result x = Inl (if lm_user l = None then MissingUser else InvalidRequest)
      | Inr req \<Rightarrow>
          w' = snd (cp_complete (lm_provider l) req w) \<and>
          ex_usage x = (case fst (cp_complete (lm_provider l) req w) of Inl e \<Rightarrow> None | Inr resp \<Rightarrow> Some (rs_usage resp)) \<and>
          (\<forall>v. ex_result x = Inr v \<longleftrightarrow>
             (\<exists>resp i j. fst (cp_complete (lm_provider l) req w) = Inr resp \<and> (rs_stop resp = ToolUse \<or> rs_stop resp = EndTurn) \<and>
                filter is_tool_block (rs_content resp) = [AToolUse i EXTRACT j] \<and> mt_decode ty j = Inr v \<and>
                mt_validate ty v = Inr ()))) \<and>
     ex_model x = selected_model l \<and>
     (\<forall>v. ex_result x = Inr v \<longrightarrow> llm_extract ty l w = (Inr v, w')))"
proof (cases "extraction_request (mt_schema ty) l")
  case (Inl e)
  then show ?thesis by (simp add: extract_with_usage_def)
next
  case (Inr req)
  note req = extraction_request_ok [OF Inr]
  obtain r w' where call: "cp_complete (lm_provider l) req w = (r, w')" by fastforce
  show ?thesis
  proof (cases r)
    case Inl
    with call Inr req show ?thesis by (auto simp: extract_with_usage_def)
  next
    case (Inr resp)
    have "llm_extract ty l w = (Inr v, w')" if acc: "accept_extraction ty resp = Inr v" for v
    proof -
      from acc obtain j where "extract_input (rs_stop resp) (rs_content resp) True = Inr j" "mt_decode ty j = Inr v"
        by (auto simp: accept_extraction_def split: sum.splits)
      then show ?thesis
        using \<open>extraction_request (mt_schema ty) l = Inr req\<close> call Inr
        by (simp add: llm_extract_def single_extract_relaxed)
    qed
    with call Inr req \<open>extraction_request (mt_schema ty) l = Inr req\<close> show ?thesis
      by (auto simp: extract_with_usage_def accept_extraction_iff)
  qed
qed

text \<open>A provider that answers with one call.\<close>

definition answering :: "(unit, nat) completer" where
  "answering =
     \<lparr>cp_model_id = ''m'', cp_capabilities_for = (\<lambda>m. default_capabilities), cp_cache_capabilities_for = (\<lambda>m. CacheUnknown),
      cp_complete = (\<lambda>req w. (Inr \<lparr>rs_content = [AText ''ok'', AToolUse ''c1'' EXTRACT (JBool True)], rs_stop = ToolUse,
        rs_usage = usage_zero\<rparr>, w + 1))\<rparr>"

definition flag_type :: "bool model_type" where
  "flag_type =
     \<lparr>mt_schema = json_object [(''type'', JString ''boolean'')],
      mt_decode = (\<lambda>j. case j of JBool b \<Rightarrow> Inr b | _ \<Rightarrow> Inl ''not a flag''), mt_validate = (\<lambda>b. Inr ())\<rparr>"

lemma answering_result:
  "extract_with_usage flag_type (llm_user ''go'' (llm_new answering)) 0 =
     (\<lparr>ex_model = ''m'', ex_usage = Some usage_zero, ex_result = Inr True\<rparr>, 1)"
  by (simp add: extract_with_usage_def extraction_request_def llm_build_request_def llm_new_def llm_user_def answering_def
      flag_type_def Let_def fit_to_def default_capabilities_def selected_model_def chat_request_new_def validate_cache_def
      accept_extraction_def extract_input_def EXTRACT_def)

theorem extraction_accounted_witness: "llm_extract flag_type (llm_user ''go'' (llm_new answering)) 0 = (Inr True, 1)"
proof -
  have "ex_result \<lparr>ex_model = ''m'', ex_usage = Some usage_zero, ex_result = Inr True\<rparr> = Inr True \<longrightarrow> ?thesis"
    using extraction_accounted [where ty = flag_type and l = "llm_user ''go'' (llm_new answering)" and w = 0]
    unfolding answering_result prod.case by blast
  then show ?thesis by simp
qed

end
