(* ===== verification/Client.thy ===== *)
theory Client
  imports Reply Validation
begin

text \<open>
  The Rust client (\<^verbatim>\<open>client/src/\<close>): its settings and per-call options, unary calls and batches over HTTP, streams of
  JSON lines, and duplex connections. The HTTP client, the socket and the JSON package are arguments (\<^verbatim>\<open>web_lib\<close>); so
  is what the type of a result brings, its decoder and what it makes of a missing field (\<^verbatim>\<open>wire_type\<close>). Reading a text
  into a type is reading the value of the text into it.
\<close>

subsection \<open>Errors and results\<close>

datatype transport_error =
    THttp string
  | TEncode string
  | TDecode string
  | TMissingAction string
  | TIndexOutOfRange nat
  | TUnexpectedResponse string
  | TInvalidRequest string
  | TWebSocket string
  | TClosed

fun transport_error_display :: "transport_error \<Rightarrow> string" where
  "transport_error_display (THttp e) = ''http request failed: '' @ e"
| "transport_error_display (TEncode e) = ''failed to encode parameters: '' @ e"
| "transport_error_display (TDecode e) = ''failed to decode response: '' @ e"
| "transport_error_display (TMissingAction a) = ''response missing result for action `'' @ a @ ''`''"
| "transport_error_display (TIndexOutOfRange i) = ''batch result index '' @ show_nat i @ '' out of range''"
| "transport_error_display (TUnexpectedResponse m) = ''unexpected response shape: '' @ m"
| "transport_error_display (TInvalidRequest m) = ''invalid request: '' @ m"
| "transport_error_display (TWebSocket e) = ''websocket error: '' @ e"
| "transport_error_display TClosed = ''connection closed''"

datatype 'a action_result = ActionOk 'a | ActionError error_body

fun action_is_ok :: "'a action_result \<Rightarrow> bool" where
  "action_is_ok (ActionOk d) = True"
| "action_is_ok (ActionError e) = False"

fun action_into_ok :: "'a action_result \<Rightarrow> error_body + 'a" where
  "action_into_ok (ActionOk d) = Inr d"
| "action_into_ok (ActionError e) = Inl e"

subsection \<open>Decoding\<close>

record 'a wire_type =
  wt_decode :: "jvalue \<Rightarrow> 'a option"
  wt_missing :: "'a option"

text \<open>The members of a struct: an object, or its fields in the order of their declaration.\<close>

fun struct_members :: "string list \<Rightarrow> jvalue \<Rightarrow> (string \<times> jvalue) list option" where
  "struct_members names (JObject m) = Some m"
| "struct_members names (JArray vs) = (if length vs \<le> length names then Some (zip names vs) else None)"
| "struct_members names v = None"

fun as_text_list :: "jvalue list \<Rightarrow> string list option" where
  "as_text_list [] = Some []"
| "as_text_list (JString s # vs) = map_option (Cons s) (as_text_list vs)"
| "as_text_list (v # vs) = None"

fun as_field_messages :: "(string \<times> jvalue) list \<Rightarrow> (string \<times> string list) list option" where
  "as_field_messages [] = Some []"
| "as_field_messages ((path, JArray vs) # m) =
     Option.bind (as_text_list vs) (\<lambda>msgs. map_option (Cons (path, msgs)) (as_field_messages m))"
| "as_field_messages ((path, v) # m) = None"

text \<open>An optional member: absent and null are the same.\<close>

definition opt_member :: "(jvalue \<Rightarrow> 'a option) \<Rightarrow> jvalue option \<Rightarrow> 'a option option" where
  "opt_member f v = (case v of None \<Rightarrow> Some None | Some JNull \<Rightarrow> Some None | Some x \<Rightarrow> map_option Some (f x))"

definition decode_u16 :: "jvalue \<Rightarrow> u16 option" where
  "decode_u16 v = (case as_u64 v of Some n \<Rightarrow> if unat n < 2 ^ 16 then Some (unat n) else None | None \<Rightarrow> None)"

definition error_body_decode :: "jvalue \<Rightarrow> error_body option" where
  "error_body_decode v =
     Option.bind (struct_members [''code'', ''type'', ''message'', ''fields'', ''data''] v) (\<lambda>m.
     Option.bind (Option.bind (map_of m ''code'') decode_u16) (\<lambda>c.
     Option.bind (case map_of m ''type'' of None \<Rightarrow> Some default_kind | Some k \<Rightarrow> as_str k) (\<lambda>k.
     Option.bind (Option.bind (map_of m ''message'') as_str) (\<lambda>msg.
     Option.bind (opt_member (\<lambda>x. case x of JObject fs \<Rightarrow> as_field_messages fs | _ \<Rightarrow> None) (map_of m ''fields'')) (\<lambda>fs.
     Option.bind (opt_member Some (map_of m ''data'')) (\<lambda>d.
       Some \<lparr>eb_code = c, eb_kind = k, eb_message = msg, eb_fields = fs, eb_data = d\<rparr>))))))"

definition data_member :: "'a wire_type \<Rightarrow> (string \<times> jvalue) list \<Rightarrow> 'a option" where
  "data_member ty m = (case map_of m ''data'' of Some d \<Rightarrow> wt_decode ty d | None \<Rightarrow> wt_missing ty)"

definition envelope_decode :: "'a wire_type \<Rightarrow> jvalue \<Rightarrow> 'a action_result option" where
  "envelope_decode ty v =
     (case v of
        JObject m \<Rightarrow>
          (case Option.bind (map_of m ''status'') as_str of
             None \<Rightarrow> None
           | Some s \<Rightarrow>
               if s = ''ok'' then map_option ActionOk (data_member ty m)
               else if s = ''error''
               then map_option ActionError (Option.bind (map_of m ''error'') error_body_decode)
               else None)
      | JArray [JString s, x] \<Rightarrow>
          if s = ''ok'' then map_option ActionOk (wt_decode ty x)
          else if s = ''error'' then map_option ActionError (error_body_decode x)
          else None
      | _ \<Rightarrow> None)"

subsection \<open>Options and settings\<close>

datatype http_method = MGet | MPost | MPut | MPatch | MDelete

definition default_method :: http_method where
  "default_method = MPost"

type_synonym headers = "(string \<times> string) list"

record call_opts =
  co_url :: "string option"
  co_headers :: headers
  co_files :: "string list"
  co_method :: "http_method option"

definition call_opts_new :: call_opts where
  "call_opts_new = \<lparr>co_url = None, co_headers = [], co_files = [], co_method = None\<rparr>"

definition opts_url :: "string \<Rightarrow> call_opts \<Rightarrow> call_opts" where
  "opts_url url o1 = o1\<lparr>co_url := Some url\<rparr>"

definition opts_header :: "string \<Rightarrow> string \<Rightarrow> call_opts \<Rightarrow> call_opts" where
  "opts_header name v o1 = o1\<lparr>co_headers := co_headers o1 @ [(name, v)]\<rparr>"

definition opts_file :: "string \<Rightarrow> call_opts \<Rightarrow> call_opts" where
  "opts_file bytes o1 = o1\<lparr>co_files := co_files o1 @ [bytes]\<rparr>"

definition opts_method :: "http_method \<Rightarrow> call_opts \<Rightarrow> call_opts" where
  "opts_method m o1 = o1\<lparr>co_method := Some m\<rparr>"

record 'p client_builder =
  cb_base_url :: string
  cb_headers :: headers
  cb_http :: "'p option"
  cb_stream_url :: "string option"
  cb_ws_url :: "string option"
  cb_accept_invalid_certs :: bool

record 'p client =
  cl_http :: 'p
  cl_base_url :: string
  cl_headers :: headers
  cl_stream_url :: "string option"
  cl_ws_url :: "string option"
  cl_accept_invalid_certs :: bool

definition client_builder_new :: "string \<Rightarrow> 'p client_builder" where
  "client_builder_new url =
     \<lparr>cb_base_url = url, cb_headers = [], cb_http = None, cb_stream_url = None, cb_ws_url = None,
      cb_accept_invalid_certs = False\<rparr>"

definition builder_header :: "string \<Rightarrow> string \<Rightarrow> 'p client_builder \<Rightarrow> 'p client_builder" where
  "builder_header name v b = b\<lparr>cb_headers := cb_headers b @ [(name, v)]\<rparr>"

definition builder_stream_url :: "string \<Rightarrow> 'p client_builder \<Rightarrow> 'p client_builder" where
  "builder_stream_url url b = b\<lparr>cb_stream_url := Some url\<rparr>"

definition builder_ws_url :: "string \<Rightarrow> 'p client_builder \<Rightarrow> 'p client_builder" where
  "builder_ws_url url b = b\<lparr>cb_ws_url := Some url\<rparr>"

definition builder_pool :: "'p \<Rightarrow> 'p client_builder \<Rightarrow> 'p client_builder" where
  "builder_pool p b = b\<lparr>cb_http := Some p\<rparr>"

definition danger_accept_invalid_certs :: "bool \<Rightarrow> 'p client_builder \<Rightarrow> 'p client_builder" where
  "danger_accept_invalid_certs x b = b\<lparr>cb_accept_invalid_certs := x\<rparr>"

definition builder_build :: "'p \<Rightarrow> 'p client_builder \<Rightarrow> 'p client" where
  "builder_build shared b =
     \<lparr>cl_http = (case cb_http b of Some p \<Rightarrow> p | None \<Rightarrow> shared), cl_base_url = cb_base_url b, cl_headers = cb_headers b,
      cl_stream_url = cb_stream_url b, cl_ws_url = cb_ws_url b, cl_accept_invalid_certs = cb_accept_invalid_certs b\<rparr>"

definition client_new :: "'p \<Rightarrow> string \<Rightarrow> 'p client" where
  "client_new shared url = builder_build shared (client_builder_new url)"

definition set_headers :: "headers \<Rightarrow> 'p client \<Rightarrow> 'p client" where
  "set_headers hs c = c\<lparr>cl_headers := hs\<rparr>"

definition update_headers :: "(headers \<Rightarrow> headers) \<Rightarrow> 'p client \<Rightarrow> 'p client" where
  "update_headers f c = c\<lparr>cl_headers := f (cl_headers c)\<rparr>"

subsection \<open>Requests\<close>

definition eq_ignore_case :: "string \<Rightarrow> string \<Rightarrow> bool" where
  "eq_ignore_case a b \<longleftrightarrow> map ascii_lower a = map ascii_lower b"

fun merge_header :: "string \<times> string \<Rightarrow> headers \<Rightarrow> headers" where
  "merge_header (name, v) [] = [(name, v)]"
| "merge_header (name, v) ((n, x) # hs) =
     (if eq_ignore_case n name then (n, v) # hs else (n, x) # merge_header (name, v) hs)"

definition merged_headers :: "'p client \<Rightarrow> headers \<Rightarrow> headers" where
  "merged_headers c extra = fold merge_header extra (cl_headers c)"

datatype call_body = NoBody | TextBody string | FormBody string "string list"

record web_call =
  wc_method :: http_method
  wc_url :: string
  wc_headers :: headers
  wc_query :: "(string \<times> string) list"
  wc_body :: call_body

record web_response =
  wr_status :: nat
  wr_body :: string

record ('p, 'w) web_lib =
  wl_parse :: "string \<Rightarrow> string + jvalue"
  wl_print :: "jvalue \<Rightarrow> string"
  wl_mismatch :: "jvalue \<Rightarrow> string"
  wl_send :: "'p \<Rightarrow> web_call \<Rightarrow> 'w \<Rightarrow> (string + web_response) \<times> 'w"
  wl_error_for_status :: "nat \<Rightarrow> string option"

definition client_request :: "'p client \<Rightarrow> http_method \<Rightarrow> string \<Rightarrow> headers \<Rightarrow> web_call" where
  "client_request c method url extra =
     \<lparr>wc_method = method, wc_url = url,
      wc_headers = filter (\<lambda>(name, v). \<not> eq_ignore_case name ''content-type'') (merged_headers c extra),
      wc_query = [], wc_body = NoBody\<rparr>"

definition with_payload :: "web_call \<Rightarrow> http_method \<Rightarrow> string \<Rightarrow> web_call" where
  "with_payload request method q =
     (if method = MGet then request\<lparr>wc_query := wc_query request @ [(''q'', q)]\<rparr>
      else request\<lparr>wc_headers := wc_headers request @ [(''content-type'', ''application/json'')], wc_body := TextBody q\<rparr>)"

definition encode_query :: "('p, 'w) web_lib \<Rightarrow> string \<Rightarrow> string + jvalue \<Rightarrow> transport_error + string" where
  "encode_query lib action params =
     (case params of
        Inl e \<Rightarrow> Inl (TEncode e)
      | Inr v \<Rightarrow> Inr (wl_print lib (JObject (jmap_insert action v []))))"

definition send_payload ::
  "('p, 'w) web_lib \<Rightarrow> 'p client \<Rightarrow> string \<Rightarrow> call_opts \<Rightarrow> 'w \<Rightarrow> (transport_error + jvalue) \<times> 'w" where
  "send_payload lib c q o1 w =
     (let method = (case co_method o1 of Some m \<Rightarrow> m | None \<Rightarrow> default_method)
      in if co_files o1 \<noteq> [] \<and> method = MGet then (Inl (TInvalidRequest ''files cannot be sent with GET''), w)
         else
           let url = (case co_url o1 of Some u \<Rightarrow> u | None \<Rightarrow> cl_base_url c);
               request = client_request c method url (co_headers o1);
               request =
                 (if co_files o1 = [] then with_payload request method q
                  else request\<lparr>wc_body := FormBody q (co_files o1)\<rparr>)
           in case wl_send lib (cl_http c) request w of
                (Inl e, w) \<Rightarrow> (Inl (THttp e), w)
              | (Inr resp, w) \<Rightarrow>
                  (case wl_error_for_status lib (wr_status resp) of
                     Some e \<Rightarrow> (Inl (THttp e), w)
                   | None \<Rightarrow> (case wl_parse lib (wr_body resp) of Inl e \<Rightarrow> (Inl (THttp e), w) | Inr v \<Rightarrow> (Inr v, w))))"

definition decode_result :: "('p, 'w) web_lib \<Rightarrow> 'a wire_type \<Rightarrow> jvalue \<Rightarrow> transport_error + 'a action_result" where
  "decode_result lib ty v = (case envelope_decode ty v of Some r \<Rightarrow> Inr r | None \<Rightarrow> Inl (TDecode (wl_mismatch lib v)))"

definition fetch_with ::
  "('p, 'w) web_lib \<Rightarrow> 'p client \<Rightarrow> 'a wire_type \<Rightarrow> string \<Rightarrow> string + jvalue \<Rightarrow> call_opts \<Rightarrow> 'w \<Rightarrow>
     (transport_error + 'a action_result) \<times> 'w" where
  "fetch_with lib c ty action params o1 w =
     (case encode_query lib action params of
        Inl e \<Rightarrow> (Inl e, w)
      | Inr q \<Rightarrow>
          (case send_payload lib c q o1 w of
             (Inl e, w) \<Rightarrow> (Inl e, w)
           | (Inr resp, w) \<Rightarrow>
               (case resp of
                  JObject m \<Rightarrow>
                    (case map_of m action of
                       None \<Rightarrow> (Inl (TMissingAction action), w)
                     | Some entry \<Rightarrow> (decode_result lib ty entry, w))
                | _ \<Rightarrow> (Inl (TMissingAction action), w))))"

definition client_fetch ::
  "('p, 'w) web_lib \<Rightarrow> 'p client \<Rightarrow> 'a wire_type \<Rightarrow> string \<Rightarrow> string + jvalue \<Rightarrow> 'w \<Rightarrow>
     (transport_error + 'a action_result) \<times> 'w" where
  "client_fetch lib c ty action params w = fetch_with lib c ty action params call_opts_new w"

definition fetch_raw ::
  "('p, 'w) web_lib \<Rightarrow> 'p client \<Rightarrow> jvalue \<Rightarrow> call_opts \<Rightarrow> 'w \<Rightarrow> (transport_error + jvalue) \<times> 'w" where
  "fetch_raw lib c payload o1 w = send_payload lib c (wl_print lib payload) o1 w"

subsection \<open>Batches\<close>

record batch =
  ba_calls :: "(string \<times> jvalue) list"
  ba_opts :: call_opts
  ba_error :: "transport_error option"

definition batch_new :: batch where
  "batch_new = \<lparr>ba_calls = [], ba_opts = call_opts_new, ba_error = None\<rparr>"

definition batch_add :: "string \<Rightarrow> string + jvalue \<Rightarrow> batch \<Rightarrow> batch" where
  "batch_add action params b =
     (if ba_error b = None
      then (case params of
              Inr v \<Rightarrow> b\<lparr>ba_calls := ba_calls b @ [(action, v)]\<rparr>
            | Inl e \<Rightarrow> b\<lparr>ba_error := Some (TEncode e)\<rparr>)
      else b)"

definition batch_options :: "call_opts \<Rightarrow> batch \<Rightarrow> batch" where
  "batch_options o1 b = b\<lparr>ba_opts := o1\<rparr>"

record batch_replies =
  bs_actions :: "string list"
  bs_envelopes :: "jvalue list"

definition batch_payload :: "(string \<times> jvalue) list \<Rightarrow> jvalue" where
  "batch_payload calls = JArray (map (\<lambda>(action, params). JArray [JString action, params]) calls)"

definition batch_send ::
  "('p, 'w) web_lib \<Rightarrow> 'p client \<Rightarrow> batch \<Rightarrow> 'w \<Rightarrow> (transport_error + batch_replies) \<times> 'w" where
  "batch_send lib c b w =
     (case ba_error b of
        Some e \<Rightarrow> (Inl e, w)
      | None \<Rightarrow>
          (case fetch_raw lib c (batch_payload (ba_calls b)) (ba_opts b) w of
             (Inl e, w) \<Rightarrow> (Inl e, w)
           | (Inr resp, w) \<Rightarrow>
               (case resp of
                  JArray envelopes \<Rightarrow> (Inr \<lparr>bs_actions = map fst (ba_calls b), bs_envelopes = envelopes\<rparr>, w)
                | _ \<Rightarrow> (Inl (TUnexpectedResponse ''batch expected an array response''), w))))"

definition batch_get :: "('p, 'w) web_lib \<Rightarrow> 'a wire_type \<Rightarrow> batch_replies \<Rightarrow> nat \<Rightarrow> transport_error + 'a action_result" where
  "batch_get lib ty rs i =
     (if i < length (bs_envelopes rs) then decode_result lib ty (bs_envelopes rs ! i) else Inl (TIndexOutOfRange i))"

definition batch_action :: "batch_replies \<Rightarrow> nat \<Rightarrow> string option" where
  "batch_action rs i = (if i < length (bs_actions rs) then Some (bs_actions rs ! i) else None)"

end
