(* ===== verification/ClientStream.thy ===== *)
theory ClientStream
  imports Client
begin

text \<open>
  The streaming calls of the Rust client (\<^verbatim>\<open>client/src/stream.rs\<close>): JSON lines out of a body that arrives in chunks. A
  yielded item is an element of the result; the body is the list of its chunks, which may break off.
\<close>

definition CLIENT_MAX_FRAME_BYTES :: nat where
  "CLIENT_MAX_FRAME_BYTES = 16 * 1024 * 1024"

definition STREAM_FAILED :: u16 where
  "STREAM_FAILED = 502"

datatype 'a wire_frame = WireNext 'a | WireError error_body | WireEnd

definition interrupted :: error_body where
  "interrupted = error_body_from (coded STREAM_FAILED ''stream_interrupted'' ''the stream ended before it finished'')"

definition bad_frame :: error_body where
  "bad_frame = error_body_from (coded STREAM_FAILED ''bad_frame'' ''a stream frame did not match the expected type'')"

definition wire_frame_decode :: "'a wire_type \<Rightarrow> jvalue \<Rightarrow> 'a wire_frame option" where
  "wire_frame_decode ty v =
     (case v of
        JObject m \<Rightarrow>
          (case Option.bind (map_of m ''type'') as_str of
             None \<Rightarrow> None
           | Some t \<Rightarrow>
               if t = ''next'' then map_option WireNext (data_member ty m)
               else if t = ''error'' then map_option WireError (Option.bind (map_of m ''error'') error_body_decode)
               else if t = ''end'' then Some WireEnd
               else None)
      | JArray [JString t] \<Rightarrow> if t = ''end'' then Some WireEnd else None
      | JArray [JString t, x] \<Rightarrow>
          if t = ''next'' then map_option WireNext (wt_decode ty x)
          else if t = ''error'' then map_option WireError (error_body_decode x)
          else None
      | _ \<Rightarrow> None)"

definition undecodable :: "(string \<Rightarrow> string + jvalue) \<Rightarrow> string \<Rightarrow> error_body option" where
  "undecodable parse line =
     (case parse line of
        Inl e \<Rightarrow> None
      | Inr v \<Rightarrow> if Option.bind (jget v ''type'') as_str = Some ''next'' then Some bad_frame else None)"

datatype 'a stream_line = LItem "'a action_result" | LLast "'a action_result" | LEnd | LSkip

definition parse_line :: "(string \<Rightarrow> string + jvalue) \<Rightarrow> 'a wire_type \<Rightarrow> string \<Rightarrow> 'a stream_line" where
  "parse_line parse ty line =
     (if line = [] then LSkip
      else
        case (case parse line of Inl e \<Rightarrow> None | Inr v \<Rightarrow> wire_frame_decode ty v) of
          Some (WireNext d) \<Rightarrow> LItem (ActionOk d)
        | Some (WireError e) \<Rightarrow> LLast (ActionError e)
        | Some WireEnd \<Rightarrow> LEnd
        | None \<Rightarrow> (case undecodable parse line of Some e \<Rightarrow> LLast (ActionError e) | None \<Rightarrow> LSkip))"

text \<open>The first line of the buffer and the rest after its newline.\<close>

fun split_line :: "string \<Rightarrow> (string \<times> string) option" where
  "split_line [] = None"
| "split_line (c # cs) = (if c = CHR 0x0A then Some ([], cs) else map_option (apfst (Cons c)) (split_line cs))"

lemma split_line_length: "split_line buf = Some (line, rest) \<Longrightarrow> length rest < length buf"
  by (induction buf arbitrary: line) (auto split: if_splits)

text \<open>The lines of the buffer: the items yielded, what is left of the buffer, and whether the stream is over.\<close>

function drain_lines ::
  "(string \<Rightarrow> string + jvalue) \<Rightarrow> 'a wire_type \<Rightarrow> string \<Rightarrow> 'a action_result list \<times> string \<times> bool" where
  "drain_lines parse ty buf =
     (case split_line buf of
        None \<Rightarrow> ([], buf, False)
      | Some (line, rest) \<Rightarrow>
          (case parse_line parse ty line of
             LItem x \<Rightarrow> apfst (Cons x) (drain_lines parse ty rest)
           | LLast x \<Rightarrow> ([x], rest, True)
           | LEnd \<Rightarrow> ([], rest, True)
           | LSkip \<Rightarrow> drain_lines parse ty rest))"
  by pat_completeness auto
termination
  by (relation "measure (\<lambda>(p, t, buf). length buf)") (auto dest!: split_line_length)

declare drain_lines.simps [simp del]

datatype body_chunk = Chunk string | ChunkFailed

fun client_items :: "(string \<Rightarrow> string + jvalue) \<Rightarrow> 'a wire_type \<Rightarrow> string \<Rightarrow> body_chunk list \<Rightarrow> 'a action_result list" where
  "client_items parse ty buf [] =
     (let buf = buf @ [CHR 0x0A]
      in if length buf > CLIENT_MAX_FRAME_BYTES then [ActionError interrupted]
         else case drain_lines parse ty buf of (ys, rest, over) \<Rightarrow> if over then ys else ys @ [ActionError interrupted])"
| "client_items parse ty buf (ChunkFailed # cs) = [ActionError interrupted]"
| "client_items parse ty buf (Chunk bytes # cs) =
     (let buf = buf @ bytes
      in if length buf > CLIENT_MAX_FRAME_BYTES then [ActionError interrupted]
         else case drain_lines parse ty buf of (ys, rest, over) \<Rightarrow> if over then ys else ys @ client_items parse ty rest cs)"

text \<open>The whole call: the head of the response is checked, its body is the stream.\<close>

record stream_head =
  sh_status :: nat
  sh_chunks :: "body_chunk list"

definition stream_with ::
  "('p, 'w) web_lib \<Rightarrow> ('p \<Rightarrow> web_call \<Rightarrow> 'w \<Rightarrow> (string + stream_head) \<times> 'w) \<Rightarrow> 'p client \<Rightarrow> 'a wire_type \<Rightarrow> string \<Rightarrow>
     string + jvalue \<Rightarrow> call_opts \<Rightarrow> 'w \<Rightarrow> (transport_error + 'a action_result list) \<times> 'w" where
  "stream_with lib open_stream c ty action params o1 w =
     (case encode_query lib action params of
        Inl e \<Rightarrow> (Inl e, w)
      | Inr q \<Rightarrow>
          (let method = (case co_method o1 of Some m \<Rightarrow> m | None \<Rightarrow> default_method);
               url = (case co_url o1 of
                        Some u \<Rightarrow> u
                      | None \<Rightarrow> (case cl_stream_url c of Some u \<Rightarrow> u | None \<Rightarrow> cl_base_url c));
               request = with_payload (client_request c method url (co_headers o1)) method q
           in case open_stream (cl_http c) request w of
                (Inl e, w) \<Rightarrow> (Inl (THttp e), w)
              | (Inr resp, w) \<Rightarrow>
                  (case wl_error_for_status lib (sh_status resp) of
                     Some e \<Rightarrow> (Inl (THttp e), w)
                   | None \<Rightarrow> (Inr (client_items (wl_parse lib) ty [] (sh_chunks resp)), w))))"

definition client_stream ::
  "('p, 'w) web_lib \<Rightarrow> ('p \<Rightarrow> web_call \<Rightarrow> 'w \<Rightarrow> (string + stream_head) \<times> 'w) \<Rightarrow> 'p client \<Rightarrow> 'a wire_type \<Rightarrow> string \<Rightarrow>
     string + jvalue \<Rightarrow> 'w \<Rightarrow> (transport_error + 'a action_result list) \<times> 'w" where
  "client_stream lib open_stream c ty action params w = stream_with lib open_stream c ty action params call_opts_new w"

end
