(* ===== verification/ClientSocket.thy ===== *)
theory ClientSocket
  imports Client
begin

text \<open>
  The duplex connections of the Rust client (\<^verbatim>\<open>client/src/ws.rs\<close>). The socket is an argument: what sending a message
  answers, over a world \<^typ>\<open>'w\<close>, and the messages that arrive, a list. The handshake and TLS are left out.
\<close>

datatype server_frame =
    SFResult u64 "jvalue action_result"
  | SFEnd u64
  | SFClientCall u64 string jvalue
  | SFPublish string string u64 u64 jvalue
  | SFReset string u64 u64
  | SFUnsubscribed string

datatype ws_message = WText string | WBinary string | WPing string | WPong string | WRaw | WClose

record 'w socket_lib =
  sl_parse :: "string \<Rightarrow> string + jvalue"
  sl_print :: "jvalue \<Rightarrow> string"
  sl_mismatch :: "jvalue \<Rightarrow> string"
  sl_send :: "ws_message \<Rightarrow> 'w \<Rightarrow> string option \<times> 'w"

record connection =
  cn_next_id :: u64

definition connection_new :: connection where
  "connection_new = \<lparr>cn_next_id = 1\<rparr>"

definition to_ws_url :: "string \<Rightarrow> string" where
  "to_ws_url url =
     (if take 8 url = ''https://'' then ''wss://'' @ drop 8 url
      else if take 7 url = ''http://'' then ''ws://'' @ drop 7 url
      else url)"

definition connect_url :: "'p client \<Rightarrow> call_opts \<Rightarrow> string" where
  "connect_url c o1 =
     to_ws_url (case co_url o1 of
       Some u \<Rightarrow> u
     | None \<Rightarrow> (case cl_ws_url c of Some u \<Rightarrow> u | None \<Rightarrow> cl_base_url c))"

subsection \<open>Sending\<close>

definition send_value :: "'w socket_lib \<Rightarrow> jvalue \<Rightarrow> 'w \<Rightarrow> (transport_error + unit) \<times> 'w" where
  "send_value lib v w =
     (case sl_send lib (WText (sl_print lib v)) w of
        (Some e, w) \<Rightarrow> (Inl (TWebSocket e), w)
      | (None, w) \<Rightarrow> (Inr (), w))"

definition call_frame :: "u64 \<Rightarrow> string \<Rightarrow> jvalue \<Rightarrow> jvalue" where
  "call_frame i action params =
     json_object [(''kind'', JString ''call''), (''id'', jnum (unat i)), (''action'', JString action), (''params'', params)]"

definition request_frame :: "string \<Rightarrow> u64 \<Rightarrow> jvalue \<Rightarrow> jvalue" where
  "request_frame knd i fs =
     (case fs of
        JObject m \<Rightarrow> JObject (jmap_insert ''id'' (jnum (unat i)) (jmap_insert ''kind'' (JString knd) m))
      | _ \<Rightarrow> fs)"

definition answered :: "'a \<Rightarrow> (transport_error + unit) \<times> 'w \<Rightarrow> connection \<Rightarrow> (transport_error + 'a) \<times> connection \<times> 'w" where
  "answered x r c = (case r of (Inl e, w) \<Rightarrow> (Inl e, c, w) | (Inr u, w) \<Rightarrow> (Inr x, c, w))"

definition conn_send ::
  "'w socket_lib \<Rightarrow> string \<Rightarrow> string + jvalue \<Rightarrow> connection \<Rightarrow> 'w \<Rightarrow> (transport_error + u64) \<times> connection \<times> 'w" where
  "conn_send lib action params c w =
     (let i = cn_next_id c; c = c\<lparr>cn_next_id := i + 1\<rparr>
      in case params of
           Inl e \<Rightarrow> (Inl (TEncode e), c, w)
         | Inr v \<Rightarrow> answered i (send_value lib (call_frame i action v) w) c)"

definition send_frame ::
  "'w socket_lib \<Rightarrow> string \<Rightarrow> jvalue \<Rightarrow> connection \<Rightarrow> 'w \<Rightarrow> (transport_error + u64) \<times> connection \<times> 'w" where
  "send_frame lib knd fs c w =
     (let i = cn_next_id c; c = c\<lparr>cn_next_id := i + 1\<rparr>
      in answered i (send_value lib (request_frame knd i fs) w) c)"

definition conn_auth ::
  "'w socket_lib \<Rightarrow> string + jvalue \<Rightarrow> connection \<Rightarrow> 'w \<Rightarrow> (transport_error + u64) \<times> connection \<times> 'w" where
  "conn_auth lib params c w =
     (case params of
        Inl e \<Rightarrow> (Inl (TEncode e), c, w)
      | Inr v \<Rightarrow> send_frame lib ''auth'' (json_object [(''params'', v)]) c w)"

definition conn_subscribe ::
  "'w socket_lib \<Rightarrow> string \<Rightarrow> string + jvalue \<Rightarrow> connection \<Rightarrow> 'w \<Rightarrow> (transport_error + u64) \<times> connection \<times> 'w" where
  "conn_subscribe lib channel key c w =
     (case key of
        Inl e \<Rightarrow> (Inl (TEncode e), c, w)
      | Inr v \<Rightarrow> send_frame lib ''subscribe'' (json_object [(''channel'', JString channel), (''key'', v)]) c w)"

definition conn_unsubscribe ::
  "'w socket_lib \<Rightarrow> string \<Rightarrow> connection \<Rightarrow> 'w \<Rightarrow> (transport_error + u64) \<times> connection \<times> 'w" where
  "conn_unsubscribe lib topic c w = send_frame lib ''unsubscribe'' (json_object [(''topic'', JString topic)]) c w"

definition conn_reply :: "'w socket_lib \<Rightarrow> u64 \<Rightarrow> string + jvalue \<Rightarrow> 'w \<Rightarrow> (transport_error + unit) \<times> 'w" where
  "conn_reply lib i d w =
     (case d of
        Inl e \<Rightarrow> (Inl (TEncode e), w)
      | Inr v \<Rightarrow>
          send_value lib (json_object [(''kind'', JString ''client_result''), (''id'', jnum (unat i)), (''data'', v)]) w)"

definition conn_reply_error :: "'w socket_lib \<Rightarrow> u64 \<Rightarrow> error_body \<Rightarrow> 'w \<Rightarrow> (transport_error + unit) \<times> 'w" where
  "conn_reply_error lib i e w =
     send_value lib
       (json_object [(''kind'', JString ''client_result''), (''id'', jnum (unat i)), (''error'', body_serialized e)]) w"

definition conn_ping :: "'w socket_lib \<Rightarrow> 'w \<Rightarrow> (transport_error + unit) \<times> 'w" where
  "conn_ping lib w =
     (case sl_send lib (WPing []) w of (Some e, w) \<Rightarrow> (Inl (TWebSocket e), w) | (None, w) \<Rightarrow> (Inr (), w))"

definition conn_close :: "('w \<Rightarrow> string option \<times> 'w) \<Rightarrow> 'w \<Rightarrow> (transport_error + unit) \<times> 'w" where
  "conn_close close_sink w = (case close_sink w of (Some e, w) \<Rightarrow> (Inl (TWebSocket e), w) | (None, w) \<Rightarrow> (Inr (), w))"

subsection \<open>Receiving\<close>

definition ws_text_field :: "jvalue \<Rightarrow> string \<Rightarrow> string" where
  "ws_text_field v name = (case Option.bind (jget v name) as_str of Some s \<Rightarrow> s | None \<Rightarrow> [])"

definition number_field :: "jvalue \<Rightarrow> string \<Rightarrow> u64" where
  "number_field v name = (case Option.bind (jget v name) as_u64 of Some n \<Rightarrow> n | None \<Rightarrow> 0)"

definition value_field :: "jvalue \<Rightarrow> string \<Rightarrow> jvalue" where
  "value_field v name = (case jget v name of Some x \<Rightarrow> x | None \<Rightarrow> JNull)"

definition missing_error_body :: error_body where
  "missing_error_body =
     \<lparr>eb_code = 500, eb_kind = ''internal'', eb_message = ''missing error body'', eb_fields = None, eb_data = None\<rparr>"

definition frame_result :: "(jvalue \<Rightarrow> string) \<Rightarrow> jvalue \<Rightarrow> transport_error + jvalue action_result" where
  "frame_result mismatch v =
     (if Option.bind (jget v ''status'') as_str = Some ''error''
      then (case jget v ''error'' of
              None \<Rightarrow> Inr (ActionError missing_error_body)
            | Some e \<Rightarrow>
                (case error_body_decode e of
                   Some b \<Rightarrow> Inr (ActionError b)
                 | None \<Rightarrow> Inl (TDecode (mismatch e))))
      else Inr (ActionOk (value_field v ''data'')))"

text \<open>\<^verbatim>\<open>parse_frame\<close> on the value of a message: \<^term>\<open>None\<close> is a heartbeat.\<close>

definition frame_of_value :: "(jvalue \<Rightarrow> string) \<Rightarrow> jvalue \<Rightarrow> transport_error + server_frame option" where
  "frame_of_value mismatch v =
     (let i = number_field v ''id''
      in case Option.bind (jget v ''kind'') as_str of
           None \<Rightarrow> Inl (TWebSocket ''unknown frame kind'')
         | Some knd \<Rightarrow>
             if knd = ''ping'' then Inr None
             else if knd = ''publish''
             then Inr (Some (SFPublish (ws_text_field v ''topic'') (ws_text_field v ''name'') (number_field v ''seq'')
                    (number_field v ''epoch'') (value_field v ''params'')))
             else if knd = ''reset''
             then Inr (Some (SFReset (ws_text_field v ''topic'') (number_field v ''epoch'') (number_field v ''seq'')))
             else if knd = ''unsubscribed'' then Inr (Some (SFUnsubscribed (ws_text_field v ''topic'')))
             else if knd = ''result''
             then (case frame_result mismatch v of Inl e \<Rightarrow> Inl e | Inr r \<Rightarrow> Inr (Some (SFResult i r)))
             else if knd = ''end'' then Inr (Some (SFEnd i))
             else if knd = ''client_call''
             then Inr (Some (SFClientCall i (ws_text_field v ''name'') (value_field v ''params'')))
             else Inl (TWebSocket ''unknown frame kind''))"

definition parse_frame :: "'w socket_lib \<Rightarrow> string \<Rightarrow> transport_error + server_frame option" where
  "parse_frame lib bytes =
     (case sl_parse lib bytes of
        Inl e \<Rightarrow> Inl (TDecode e)
      | Inr v \<Rightarrow> frame_of_value (sl_mismatch lib) v)"

text \<open>
  \<^verbatim>\<open>recv\<close>: the messages that arrive, each read or failed; the answer, the messages left and the world. A heartbeat
  is answered and the loop goes on; a protocol ping too, its failure ignored. With no message left \<^verbatim>\<open>recv\<close> is not back yet
  or the socket is closed, which it reports alike.
\<close>

definition pong_frame :: jvalue where
  "pong_frame = json_object [(''kind'', JString ''pong'')]"

definition after_frame ::
  "'w socket_lib \<Rightarrow> (transport_error + server_frame option) \<Rightarrow> (string + ws_message) list \<Rightarrow>
     ('w \<Rightarrow> (transport_error + server_frame) option \<times> (string + ws_message) list \<times> 'w) \<Rightarrow> 'w \<Rightarrow>
     (transport_error + server_frame) option \<times> (string + ws_message) list \<times> 'w" where
  "after_frame lib frame ms go_on w =
     (case frame of
        Inr None \<Rightarrow>
          (case send_value lib pong_frame w of
             (Inl e, w) \<Rightarrow> (Some (Inl e), ms, w)
           | (Inr u, w) \<Rightarrow> go_on w)
      | Inr (Some f) \<Rightarrow> (Some (Inr f), ms, w)
      | Inl e \<Rightarrow> (Some (Inl e), ms, w))"

fun conn_recv ::
  "'w socket_lib \<Rightarrow> (string + ws_message) list \<Rightarrow> 'w \<Rightarrow>
     (transport_error + server_frame) option \<times> (string + ws_message) list \<times> 'w" where
  "conn_recv lib [] w = (None, [], w)"
| "conn_recv lib (Inl e # ms) w = (Some (Inl (TWebSocket e)), ms, w)"
| "conn_recv lib (Inr (WText t) # ms) w = after_frame lib (parse_frame lib t) ms (\<lambda>w. conn_recv lib ms w) w"
| "conn_recv lib (Inr (WBinary t) # ms) w = after_frame lib (parse_frame lib t) ms (\<lambda>w. conn_recv lib ms w) w"
| "conn_recv lib (Inr (WPing payload) # ms) w = conn_recv lib ms (snd (sl_send lib (WPong payload) w))"
| "conn_recv lib (Inr (WPong payload) # ms) w = conn_recv lib ms w"
| "conn_recv lib (Inr WRaw # ms) w = conn_recv lib ms w"
| "conn_recv lib (Inr WClose # ms) w = (None, ms, w)"

end
