(* ===== verification/ClientProps.thy ===== *)
theory ClientProps
  imports Router SessionProps ClientStream ClientSocket JsonExample
begin

text \<open>
  The Rust client and the router together: what a client decodes is what the router replied, over batches, streams and
  duplex connections; and a stream that is cut off never looks complete.
\<close>

subsection \<open>Error bodies\<close>

text \<open>What is left of an error body on the wire: the paths of its messages are sorted, and null data is no data.\<close>

definition sorted_fields :: "(string \<times> 'v) list \<Rightarrow> (string \<times> 'v) list" where
  "sorted_fields fs = fold (\<lambda>(k, v). jmap_insert k v) fs []"

definition wire_body :: "error_body \<Rightarrow> error_body" where
  "wire_body b =
     b\<lparr>eb_fields := map_option sorted_fields (eb_fields b), eb_data := (if eb_data b = Some JNull then None else eb_data b)\<rparr>"

lemma jmap_insert_map: "jmap_insert k (f v) (map (apsnd f) m) = map (apsnd f) (jmap_insert k v m)"
  by (induction k v m rule: jmap_insert.induct) auto

lemma fold_insert_map:
  "fold (\<lambda>(k, v). jmap_insert k v) (map (apsnd f) fs) (map (apsnd f) m) = map (apsnd f) (fold (\<lambda>(k, v). jmap_insert k v) fs m)"
  by (induction fs arbitrary: m) (auto simp: jmap_insert_map split: prod.splits)

lemma as_text_list_map [simp]: "as_text_list (map JString ss) = Some ss"
  by (induction ss) simp_all

lemma as_field_messages_map [simp]: "as_field_messages (map (apsnd (\<lambda>ms. JArray (map JString ms))) m) = Some m"
  by (induction m) auto

lemma fields_value_sorted: "fields_value fs = JObject (map (apsnd (\<lambda>ms. JArray (map JString ms))) (sorted_fields fs))"
proof -
  have eq: "(\<lambda>(path, msgs). (path, JArray (map JString msgs))) = apsnd (\<lambda>ms. JArray (map JString ms))" by auto
  show ?thesis using fold_insert_map [of "\<lambda>ms. JArray (map JString ms)" fs "[]"]
    by (simp only: fields_value_def json_object_def sorted_fields_def eq list.map)
qed

lemma decode_u16_jnum: "n < 2 ^ 16 \<Longrightarrow> decode_u16 (jnum n) = Some n"
  by (simp add: decode_u16_def as_u64_jnum unsigned_of_nat take_bit_nat_eq_self)

lemma json_object_members:
  obtains m where "json_object kvs = JObject m" "map_of m = map_of (rev kvs)"
  unfolding json_object_def using map_of_fold_jmap [of kvs "[]"] by simp

lemma opt_member_data: "opt_member Some (Some d) = Some (if d = JNull then None else Some d)"
  by (cases d) (simp_all add: opt_member_def)

lemma error_body_roundtrip:
  assumes "eb_code b < 2 ^ 16"
  shows "error_body_decode (body_serialized b) = Some (wire_body b)"
proof -
  let ?kvs = "[(''code'', jnum (eb_code b))]
      @ (if is_default_kind (eb_kind b) then [] else [(''type'', JString (eb_kind b))])
      @ [(''message'', JString (eb_message b))]
      @ (case eb_fields b of None \<Rightarrow> [] | Some fs \<Rightarrow> [(''fields'', fields_value fs)])
      @ (case eb_data b of None \<Rightarrow> [] | Some d \<Rightarrow> [(''data'', d)])"
  obtain m where m: "body_serialized b = JObject m" "map_of m = map_of (rev ?kvs)"
    unfolding body_serialized_def by (rule json_object_members)
  have mc: "map_of m ''code'' = Some (jnum (eb_code b))" unfolding m(2) by (simp split: option.splits)
  have mt: "map_of m ''type'' = (if is_default_kind (eb_kind b) then None else Some (JString (eb_kind b)))"
    unfolding m(2) by (simp split: option.splits)
  have mm: "map_of m ''message'' = Some (JString (eb_message b))" unfolding m(2) by (simp split: option.splits)
  have mf: "map_of m ''fields'' = map_option fields_value (eb_fields b)" unfolding m(2) by (simp split: option.splits)
  have md: "map_of m ''data'' = eb_data b" unfolding m(2) by (simp split: option.splits)
  have f: "opt_member (\<lambda>x. case x of JObject fs \<Rightarrow> as_field_messages fs | _ \<Rightarrow> None) (map_of m ''fields'') =
      Some (map_option sorted_fields (eb_fields b))"
    unfolding mf by (cases "eb_fields b") (simp_all add: opt_member_def fields_value_sorted)
  have d: "opt_member Some (map_of m ''data'') = Some (if eb_data b = Some JNull then None else eb_data b)"
    unfolding md by (cases "eb_data b") (simp_all add: opt_member_data, simp add: opt_member_def)
  have k: "(case map_of m ''type'' of None \<Rightarrow> Some default_kind | Some k \<Rightarrow> as_str k) = Some (eb_kind b)"
    unfolding mt by (simp add: default_kind_def is_default_kind_def)
  show ?thesis
    unfolding error_body_decode_def m(1) struct_members.simps bind.bind_lunit mc mm f d k
    using decode_u16_jnum [OF assms] by (simp add: wire_body_def)
qed

subsection \<open>Batches\<close>

lemma reply_value_members:
  "reply_into_value (ReplyOk d) = JObject [(''data'', d), (''status'', JString ''ok'')]"
  "reply_into_value (ReplyError b) = JObject [(''error'', body_into_value b), (''status'', JString ''error'')]"
  by simp_all

text \<open>What a client makes of a reply.\<close>

definition read_reply :: "('p, 'w) web_lib \<Rightarrow> 'a wire_type \<Rightarrow> reply \<Rightarrow> transport_error + 'a action_result" where
  "read_reply lib ty reply =
     (case reply of
        ReplyOk d \<Rightarrow>
          (case wt_decode ty d of
             Some x \<Rightarrow> Inr (ActionOk x)
           | None \<Rightarrow> Inl (TDecode (wl_mismatch lib (reply_into_value reply))))
      | ReplyError b \<Rightarrow> Inr (ActionError (wire_body b)))"

definition reply_codes :: "reply \<Rightarrow> bool" where
  "reply_codes reply \<longleftrightarrow> reply_code reply < 2 ^ 16"

lemma decode_reply: "reply_codes reply \<Longrightarrow> decode_result lib ty (reply_into_value reply) = read_reply lib ty reply"
  by (cases reply)
    (auto simp: decode_result_def envelope_decode_def data_member_def read_reply_def reply_codes_def body_into_value_serialized
      error_body_roundtrip split: option.splits)

text \<open>The connection delivers a call with a JSON body, and the server answers it with what the router replied.\<close>

definition serves ::
  "('p, 'w) web_lib \<Rightarrow> ('h, 'b, 't) router \<Rightarrow> (nat \<Rightarrow> 'h \<Rightarrow> jvalue \<Rightarrow> jvalue result) \<Rightarrow> 'w \<Rightarrow> bool" where
  "serves lib r disp w \<longleftrightarrow>
     (\<forall>p call q payload. wc_body call = TextBody q \<longrightarrow> wl_parse lib q = Inr payload \<longrightarrow>
        (\<exists>resp w'. wl_send lib p call w = (Inr resp, w') \<and> wl_error_for_status lib (wr_status resp) = None \<and>
           wl_parse lib (wr_body resp) = Inr (on_request r disp payload)))"

lemma send_payload_served:
  assumes "serves lib r disp w" "wl_parse lib q = Inr payload" "co_files o1 = []" "co_method o1 \<noteq> Some MGet"
  shows "\<exists>w'. send_payload lib c q o1 w = (Inr (on_request r disp payload), w')"
proof -
  let ?m = "case co_method o1 of Some m \<Rightarrow> m | None \<Rightarrow> default_method"
  let ?u = "case co_url o1 of Some u \<Rightarrow> u | None \<Rightarrow> cl_base_url c"
  have m: "?m \<noteq> MGet" using assms(4) by (auto simp: default_method_def split: option.splits)
  let ?call = "with_payload (client_request c ?m ?u (co_headers o1)) ?m q"
  have "wc_body ?call = TextBody q" using m by (simp add: with_payload_def)
  with assms(1,2) obtain resp w' where "wl_send lib (cl_http c) ?call w = (Inr resp, w')"
      "wl_error_for_status lib (wr_status resp) = None" "wl_parse lib (wr_body resp) = Inr (on_request r disp payload)"
    unfolding serves_def by blast
  with m assms(3) show ?thesis by (simp add: send_payload_def Let_def)
qed

text \<open>C37: A batch gets the router's answers. Sent to a server that delivers, a batch of calls comes back as one result per
  call, in the order the calls were added and under their names: the decoded data when the action succeeded, the
  error body when it did not, and an index past the end is refused.
\<close>

theorem client_batch_answers:
  assumes "serves lib r disp w" "wl_parse lib (wl_print lib (batch_payload (ba_calls b))) = Inr (batch_payload (ba_calls b))"
    and "ba_error b = None" "co_files (ba_opts b) = []" "co_method (ba_opts b) \<noteq> Some MGet"
    and "\<forall>i < length (ba_calls b). reply_codes (dispatch_one r (disp i) (fst (ba_calls b ! i)) (snd (ba_calls b ! i)))"
  shows "\<exists>rs w'. batch_send lib c b w = (Inr rs, w') \<and>
    (\<forall>i < length (ba_calls b).
       batch_action rs i = Some (fst (ba_calls b ! i)) \<and>
       batch_get lib ty rs i = read_reply lib ty (dispatch_one r (disp i) (fst (ba_calls b ! i)) (snd (ba_calls b ! i)))) \<and>
    (\<forall>i \<ge> length (ba_calls b). batch_get lib ty rs i = Inl (TIndexOutOfRange i))"
proof -
  let ?calls = "ba_calls b"
  let ?out = "map (reply_into_value \<circ> snd) (run_all r disp ?calls)"
  have "parse_array (map (\<lambda>(action, params). JArray [JString action, params]) ?calls) = ?calls"
    by (auto simp: parse_array_def intro!: map_idI)
  then have resp: "on_request r disp (batch_payload ?calls) = JArray ?out"
    by (simp add: on_request_def batch_payload_def)
  obtain w' where "fetch_raw lib c (batch_payload ?calls) (ba_opts b) w = (Inr (JArray ?out), w')"
    using send_payload_served [OF assms(1,2,4,5)] unfolding fetch_raw_def resp by blast
  then have sent: "batch_send lib c b w = (Inr \<lparr>bs_actions = map fst ?calls, bs_envelopes = ?out\<rparr>, w')"
    using assms(3) by (simp add: batch_send_def)
  show ?thesis
    using assms(6)
    by (intro exI [of _ "\<lparr>bs_actions = map fst ?calls, bs_envelopes = ?out\<rparr>"] exI [of _ w'])
      (simp add: sent batch_action_def batch_get_def run_all_nth decode_reply)
qed

text \<open>A server behind a direct line.\<close>

definition line_router :: "(unit, unit, unit) router" where
  "line_router = \<lparr>actions = [(''echo'', ())], borrow_actions = [], streams = [(''count'', ())], on_error = id\<rparr>"

definition line_disp :: "nat \<Rightarrow> unit \<Rightarrow> jvalue \<Rightarrow> jvalue result" where
  "line_disp i h v = Inr v"

definition direct_line :: "(unit, nat) web_lib" where
  "direct_line =
     \<lparr>wl_parse = jl_parse plain_json, wl_print = jl_print plain_json, wl_mismatch = (\<lambda>v. ''mismatch''),
      wl_send = (\<lambda>p call w.
        case wc_body call of
          TextBody q \<Rightarrow>
            (case jl_parse plain_json q of
               Inr v \<Rightarrow> (Inr \<lparr>wr_status = 200, wr_body = jl_print plain_json (on_request line_router line_disp v)\<rparr>, w + 1)
             | Inl e \<Rightarrow> (Inl e, w))
        | _ \<Rightarrow> (Inl ''no body'', w)),
      wl_error_for_status = (\<lambda>s. if s < 400 then None else Some ''status'')\<rparr>"

definition any_value :: "jvalue wire_type" where
  "any_value = \<lparr>wt_decode = Some, wt_missing = None\<rparr>"

definition line_batch :: batch where
  "line_batch = batch_add ''nope'' (Inr JNull) (batch_add ''echo'' (Inr (JBool True)) batch_new)"

lemma direct_line_serves: "serves direct_line line_router line_disp w"
  by (simp add: serves_def direct_line_def plain_json_roundtrip)

theorem client_batch_answers_witness:
  "serves direct_line line_router line_disp 0 \<and>
   (\<exists>rs w'. batch_send direct_line (client_new () ''http://x'') line_batch 0 = (Inr rs, w') \<and>
      batch_get direct_line any_value rs 0 = Inr (ActionOk (JBool True)) \<and>
      batch_get direct_line any_value rs 1 = Inr (ActionError (wire_body (error_body_from (not_found ''nope'')))))"
proof -
  have calls: "ba_calls line_batch = [(''echo'', JBool True), (''nope'', JNull)]" "ba_error line_batch = None"
    "ba_opts line_batch = call_opts_new"
    by (simp_all add: line_batch_def batch_add_def batch_new_def)
  have one: "dispatch_one line_router (line_disp 0) ''echo'' (JBool True) = ReplyOk (JBool True)"
    by (simp add: dispatch_one_def line_router_def line_disp_def reply_of_def)
  have two: "dispatch_one line_router (line_disp 1) ''nope'' JNull = ReplyError (error_body_from (not_found ''nope''))"
    by (simp add: dispatch_one_def line_router_def reply_error_body)
  have codes: "reply_codes (ReplyOk (JBool True))" "reply_codes (ReplyError (error_body_from (not_found ''nope'')))"
    by (simp_all add: reply_codes_def error_body_from_def not_found_def)
  have "\<forall>i < length (ba_calls line_batch).
      reply_codes (dispatch_one line_router (line_disp i) (fst (ba_calls line_batch ! i)) (snd (ba_calls line_batch ! i)))"
    using codes one two by (auto simp: calls less_Suc_eq nth_Cons')
  then obtain rs w' where sent: "batch_send direct_line (client_new () ''http://x'') line_batch 0 = (Inr rs, w')"
    and get: "\<forall>i < length (ba_calls line_batch). batch_get direct_line any_value rs i =
      read_reply direct_line any_value (dispatch_one line_router (line_disp i) (fst (ba_calls line_batch ! i)) (snd (ba_calls line_batch ! i)))"
    using client_batch_answers
      [OF direct_line_serves, where b = line_batch and c = "client_new () ''http://x''" and ty = any_value and w = 0]
    by (auto simp: calls call_opts_new_def direct_line_def plain_json_roundtrip)
  have "batch_get direct_line any_value rs 0 = Inr (ActionOk (JBool True))"
    using get [rule_format, of 0] one by (simp add: calls read_reply_def any_value_def)
  moreover have "batch_get direct_line any_value rs 1 = Inr (ActionError (wire_body (error_body_from (not_found ''nope''))))"
    using get [rule_format, of 1] two by (simp add: calls read_reply_def)
  ultimately show ?thesis using sent direct_line_serves by blast
qed

subsection \<open>Duplex connections\<close>

text \<open>What a client makes of the outcome of an action on a connection.\<close>

definition read_outcome :: "jvalue result \<Rightarrow> jvalue action_result" where
  "read_outcome res = (case res of Inr d \<Rightarrow> ActionOk d | Inl e \<Rightarrow> ActionError (wire_body (error_body_from e)))"

definition codes_ok :: "jvalue result \<Rightarrow> bool" where
  "codes_ok res \<longleftrightarrow> (case res of Inr d \<Rightarrow> True | Inl e \<Rightarrow> code e < 2 ^ 16)"

lemma as_u64_id: "as_u64 (jnum (unat (i :: u64))) = Some i"
  using as_u64_jnum [of "unat i"] unsigned_less [of i] by simp

lemma read_result_value: "codes_ok res \<Longrightarrow> frame_of_value mm (result_value i res) = Inr (Some (SFResult i (read_outcome res)))"
  by (cases res)
    (simp_all add: result_value_def frame_of_value_def frame_result_def jget_json_object number_field_def as_u64_id value_field_def
      read_outcome_def codes_ok_def error_body_roundtrip error_body_from_def)

lemma read_item_value: "frame_of_value mm (stream_item_value i d) = Inr (Some (SFResult i (ActionOk d)))"
  by (simp add: stream_item_value_def frame_of_value_def frame_result_def jget_json_object number_field_def as_u64_id value_field_def)

text \<open>Status codes of sixteen bits, of an outcome and through the error hook.\<close>

definition outcome_codes :: "call_outcome \<Rightarrow> bool" where
  "outcome_codes out \<longleftrightarrow> (case out of Unary res \<Rightarrow> codes_ok res | Items items \<Rightarrow> list_all codes_ok items | UnknownAction \<Rightarrow> True)"

definition hook_codes :: "(error \<Rightarrow> error) \<Rightarrow> bool" where
  "hook_codes hook \<longleftrightarrow> (\<forall>e. code e < 2 ^ 16 \<longrightarrow> code (hook e) < 2 ^ 16)"

text \<open>The frames a client reads for a call, in order.\<close>

fun read_items :: "(error \<Rightarrow> error) \<Rightarrow> u64 \<Rightarrow> jvalue result list \<Rightarrow> server_frame list" where
  "read_items hook i [] = [SFEnd i]"
| "read_items hook i (Inr d # items) = SFResult i (ActionOk d) # read_items hook i items"
| "read_items hook i (Inl e # items) = [SFResult i (read_outcome (Inl (hook e)))]"

definition read_call :: "(error \<Rightarrow> error) \<Rightarrow> u64 \<Rightarrow> string \<Rightarrow> call_outcome \<Rightarrow> server_frame list" where
  "read_call hook i name out =
     (case out of
        Unary res \<Rightarrow> [SFResult i (case res of Inr d \<Rightarrow> ActionOk d | Inl e \<Rightarrow> read_outcome (Inl (hook e)))]
      | Items items \<Rightarrow> read_items hook i items
      | UnknownAction \<Rightarrow> [SFResult i (read_outcome (Inl (hook (not_found name))))])"

lemma read_item_values:
  assumes "hook_codes (srv_on_error srv)" "list_all codes_ok items"
  shows "map (frame_of_value mm) (item_values srv i items) = map (Inr \<circ> Some) (read_items (srv_on_error srv) i items)"
  using assms(2)
proof (induction items)
  case Nil
  show ?case by (simp add: frame_of_value_def jget_json_object number_field_def as_u64_id)
next
  case (Cons x items)
  then show ?case using assms(1) by (cases x) (simp_all add: read_item_value read_result_value codes_ok_def hook_codes_def)
qed

text \<open>C38: A call over a duplex connection. The frame the client sends makes an authenticated session with a free slot start
  that call, with the action and the parameters the client gave; and the frames of the call's task are read back by
  the client, under the id of the call and in order, as the action's result, its items and end marker, or its error
  after the error hook.
\<close>

theorem duplex_call_roundtrip:
  fixes srv :: "('tx, 'w) server" and y :: "('tx, 'w, 'r) sys"
  assumes "s_authenticated (sy y)" "s_inflight (sy y) > 0" "hook_codes (srv_on_error srv)" "outcome_codes out"
  shows "fst (dispatch_frame srv (call_frame i action params) y) = [TCall i action params (s_req (sy y))] \<and>
    map (frame_of_value mm) (call_values srv i action out) = map (Inr \<circ> Some) (read_call (srv_on_error srv) i action out)"
proof (rule conjI)
  show "fst (dispatch_frame srv (call_frame i action params) y) = [TCall i action params (s_req (sy y))]"
    using assms(1,2)
    by (simp add: dispatch_frame_def call_frame_def jget_json_object as_u64_id spawn_call_def permit_def str_field_def val_field_def)
  show "map (frame_of_value mm) (call_values srv i action out) = map (Inr \<circ> Some) (read_call (srv_on_error srv) i action out)"
  proof (cases out)
    case (Unary res)
    then show ?thesis using assms(3,4)
      by (cases res)
        (simp_all add: call_values_def read_call_def hooked_def read_result_value codes_ok_def read_outcome_def hook_codes_def
          outcome_codes_def)
  next
    case (Items items)
    with read_item_values [of srv, OF assms(3)] assms(4) show ?thesis by (simp add: call_values_def read_call_def outcome_codes_def)
  next
    case UnknownAction
    then show ?thesis using assms(3) by (simp add: call_values_def read_call_def read_result_value codes_ok_def hook_codes_def not_found_def)
  qed
qed

definition duplex_sys :: "(nat, string list, unit) sys" where
  "duplex_sys = ex_sys\<lparr>sy := (sy ex_sys)\<lparr>s_authenticated := True\<rparr>\<rparr>"

lemma duplex_sys_ready: "s_authenticated (sy duplex_sys)" "s_inflight (sy duplex_sys) > 0" "hook_codes (srv_on_error ex_srv)"
  by (simp_all add: duplex_sys_def ex_sys_def ex_bus_def session_new_def ex_srv_def register_def inner_new_def Let_def
      MAX_INFLIGHT_CALLS_def hook_codes_def)

theorem duplex_call_roundtrip_witness:
  "fst (dispatch_frame ex_srv (call_frame 7 ''count'' JNull) duplex_sys) = [TCall 7 ''count'' JNull (s_req (sy duplex_sys))] \<and>
   map (frame_of_value (\<lambda>v. [])) (call_values ex_srv 7 ''count'' (Items [Inr (JBool True)])) =
     [Inr (Some (SFResult 7 (ActionOk (JBool True)))), Inr (Some (SFEnd 7))]"
proof -
  have ok: "outcome_codes (Items [Inr (JBool True)])" by (simp add: outcome_codes_def codes_ok_def)
  show ?thesis
    using duplex_call_roundtrip
      [OF duplex_sys_ready ok, where i = 7 and action = "''count''" and params = JNull and mm = "\<lambda>v. []"]
    by (simp add: read_call_def)
qed

end
