(* ===== verification/ClientStreamProps.thy ===== *)
theory ClientStreamProps
  imports ClientProps
begin

text \<open>
  The streaming calls of the Rust client: how a body is cut into chunks cannot be observed, a client yields exactly the
  items of the action it called, and a stream that is cut off never looks complete.
\<close>

abbreviation nl :: char where "nl \<equiv> CHR 0x0A"

subsection \<open>Lines and chunks\<close>

lemma split_line_Cons: "nl \<notin> set line \<Longrightarrow> split_line (line @ nl # rest) = Some (line, rest)"
proof (induction line)
  case (Cons c line)
  then have "c \<noteq> nl" by (metis list.set_intros(1))
  with Cons show ?case by simp
qed simp

lemma split_line_None: "split_line buf = None \<longleftrightarrow> nl \<notin> set buf"
  by (induction buf) auto

lemma drain_none: "nl \<notin> set buf \<Longrightarrow> drain_lines parse ty buf = ([], buf, False)"
  by (subst drain_lines.simps) (simp add: split_line_None [symmetric])

lemma drain_line:
  assumes "nl \<notin> set line"
  shows "drain_lines parse ty (line @ nl # rest) =
     (case parse_line parse ty line of
        LItem x \<Rightarrow> apfst (Cons x) (drain_lines parse ty rest)
      | LLast x \<Rightarrow> ([x], rest, True)
      | LEnd \<Rightarrow> ([], rest, True)
      | LSkip \<Rightarrow> drain_lines parse ty rest)"
proof -
  show ?thesis by (subst drain_lines.simps) (simp add: split_line_Cons [OF assms])
qed

lemma buffer_cases:
  obtains (rest) "nl \<notin> set buf" | (line) line rest where "buf = line @ nl # rest" "nl \<notin> set line" "length rest < length buf"
  by (cases "nl \<in> set buf") (auto dest!: split_list_first)

lemma drain_append:
  "drain_lines parse ty (a @ b) =
     (case drain_lines parse ty a of (ys, r, over) \<Rightarrow>
        if over then (ys, r @ b, True) else apfst (append ys) (drain_lines parse ty (r @ b)))"
proof (induction "length a" arbitrary: a rule: less_induct)
  case less
  show ?case
  proof (cases a rule: buffer_cases)
    case rest
    then show ?thesis by (simp add: drain_none) (cases "drain_lines parse ty (a @ b)", simp)
  next
    case (line l r)
    have IH: "drain_lines parse ty (r @ b) =
        (case drain_lines parse ty r of (ys, r', over) \<Rightarrow>
           if over then (ys, r' @ b, True) else apfst (append ys) (drain_lines parse ty (r' @ b)))"
      using less [of r] line by simp
    show ?thesis
      unfolding line append_assoc append_Cons drain_line [OF line(2)]
      by (cases "parse_line parse ty l"; cases "drain_lines parse ty r")
        (auto simp: IH apfst_def map_prod_def split: prod.splits)
  qed
qed

lemma drain_rest: "drain_lines parse ty a = (ys, r, over) \<Longrightarrow> length r \<le> length a \<and> (\<not> over \<longrightarrow> nl \<notin> set r)"
proof (induction "length a" arbitrary: a ys r over rule: less_induct)
  case less
  show ?case
  proof (cases a rule: buffer_cases)
    case rest
    with less.prems show ?thesis by (simp add: drain_none)
  next
    case (line l r')
    obtain ys' q o' where d: "drain_lines parse ty r' = (ys', q, o')" by (cases "drain_lines parse ty r'")
    from less.hyps [OF _ d] line have "length q \<le> length r' \<and> (\<not> o' \<longrightarrow> nl \<notin> set q)" by simp
    then show ?thesis using less.prems line d
      by (auto simp: drain_line split: stream_line.splits)
  qed
qed

definition finish_items :: "'a action_result list \<times> string \<times> bool \<Rightarrow> 'a action_result list" where
  "finish_items d = (case d of (ys, rest, over) \<Rightarrow> if over then ys else ys @ [ActionError interrupted])"

lemma stream_items_chunks:
  assumes "length buf + length (concat cs) < CLIENT_MAX_FRAME_BYTES"
  shows "client_items parse ty buf (map Chunk cs) = finish_items (drain_lines parse ty (buf @ concat cs @ [nl]))"
  using assms
proof (induction cs arbitrary: buf)
  case Nil
  then show ?case by (simp add: finish_items_def Let_def)
next
  case (Cons c cs)
  obtain ys r over where d: "drain_lines parse ty (buf @ c) = (ys, r, over)" by (cases "drain_lines parse ty (buf @ c)")
  have whole: "drain_lines parse ty (buf @ concat (c # cs) @ [nl]) =
      (if over then (ys, r @ concat cs @ [nl], True) else apfst (append ys) (drain_lines parse ty (r @ concat cs @ [nl])))"
    using drain_append [of parse ty "buf @ c" "concat cs @ [nl]"] d by simp
  have "length r \<le> length (buf @ c)" using drain_rest [OF d] by simp
  then have "client_items parse ty r (map Chunk cs) = finish_items (drain_lines parse ty (r @ concat cs @ [nl]))"
    using Cons by (intro Cons.IH) simp
  then show ?case using Cons.prems unfolding whole
    by (cases "drain_lines parse ty (r @ concat cs @ [nl])") (simp add: d finish_items_def Let_def)
qed

subsection \<open>Streams of the router\<close>

definition lines_text :: "string list \<Rightarrow> string" where
  "lines_text ls = concat (map (\<lambda>l. l @ [nl]) ls)"

text \<open>A line that carries_frame a frame: any text that reads as its value.\<close>

definition carries_frame :: "(string \<Rightarrow> string + jvalue) \<Rightarrow> string \<Rightarrow> frame \<Rightarrow> bool" where
  "carries_frame parse line f \<longleftrightarrow> line \<noteq> [] \<and> nl \<notin> set line \<and> parse line = Inr (frame_value f)"

lemma frame_value_object: obtains m where "frame_value f = JObject m"
  by (cases f) (simp_all add: json_object_def)

lemma frame_value_get: "frame_value f = JObject m \<Longrightarrow> map_of m k = jget (frame_value f) k"
  by simp

lemma wire_frame_decode_object:
  assumes "jget v ''type'' = Some (JString t)"
  shows "wire_frame_decode ty v =
    (if t = ''next'' then map_option WireNext (case jget v ''data'' of Some d \<Rightarrow> wt_decode ty d | None \<Rightarrow> wt_missing ty)
     else if t = ''error'' then map_option WireError (Option.bind (jget v ''error'') error_body_decode)
     else if t = ''end'' then Some WireEnd
     else None)"
  using assms by (cases v) (simp_all add: wire_frame_decode_def data_member_def)

lemma carried_next:
  assumes "carries_frame parse line (FrameNext i a d)" "wt_decode ty d = Some x"
  shows "parse_line parse ty line = LItem (ActionOk x)"
  using assms by (simp add: carries_frame_def parse_line_def wire_frame_decode_object jget_json_object del: frame_value.simps(2,3))

lemma carried_error:
  assumes "carries_frame parse line (FrameError i a b)" "eb_code b < 2 ^ 16"
  shows "parse_line parse ty line = LLast (ActionError (wire_body b))"
  using assms by (simp add: carries_frame_def parse_line_def wire_frame_decode_object jget_json_object error_body_roundtrip)

lemma carried_end: "carries_frame parse line (FrameEnd i a) \<Longrightarrow> parse_line parse ty line = LEnd"
  by (simp add: carries_frame_def parse_line_def wire_frame_decode_object jget_json_object)

text \<open>What a client yields for the outcomes of a streaming action.\<close>

fun yielded :: "(error \<Rightarrow> error) \<Rightarrow> 'a wire_type \<Rightarrow> jvalue result list \<Rightarrow> 'a action_result list" where
  "yielded hook ty [] = []"
| "yielded hook ty (Inr v # items) = ActionOk (the (wt_decode ty v)) # yielded hook ty items"
| "yielded hook ty (Inl e # items) = [ActionError (wire_body (error_body_from (hook e)))]"

definition decodes :: "'a wire_type \<Rightarrow> jvalue result \<Rightarrow> bool" where
  "decodes ty x \<longleftrightarrow> (case x of Inr v \<Rightarrow> wt_decode ty v \<noteq> None | Inl e \<Rightarrow> True)"

lemma drain_frames:
  assumes "hook_codes hook" "list_all codes_ok items" "list_all (decodes ty) items"
    "list_all2 (carries_frame parse) ls (stream_frames hook i action items)"
  shows "\<exists>rest. drain_lines parse ty (lines_text ls) = (yielded hook ty items, rest, True)"
  using assms(2-)
proof (induction items arbitrary: ls)
  case Nil
  then obtain l where "ls = [l]" "carries_frame parse l (FrameEnd i action)" by (auto simp: list_all2_Cons2)
  then show ?case by (simp add: lines_text_def drain_line carried_end carries_frame_def)
next
  case (Cons x items)
  then obtain l ls' where ls: "ls = l # ls'" by (cases x) (auto simp: list_all2_Cons2)
  show ?case
  proof (cases x)
    case (Inr v)
    with Cons.prems ls obtain y where "wt_decode ty v = Some y" "carries_frame parse l (FrameNext i action v)"
      by (auto simp: decodes_def)
    moreover have "\<exists>rest. drain_lines parse ty (lines_text ls') = (yielded hook ty items, rest, True)"
      using Cons ls Inr by simp
    ultimately show ?thesis using Inr ls by (auto simp: lines_text_def drain_line carried_next carries_frame_def)
  next
    case (Inl e)
    with Cons.prems ls have "carries_frame parse l (FrameError i action (error_body_from (hook e)))" "eb_code (error_body_from (hook e)) < 2 ^ 16"
      using assms(1) by (auto simp: frame_error_def hook_codes_def codes_ok_def error_body_from_def)
    then show ?thesis using Inl ls by (auto simp: lines_text_def drain_line carried_error carries_frame_def)
  qed
qed


subsection \<open>Truncated streams\<close>

fun chunk_bytes :: "body_chunk \<Rightarrow> string" where
  "chunk_bytes (Chunk bs) = bs"
| "chunk_bytes ChunkFailed = []"

text \<open>A whole line of the text that is an end marker.\<close>

definition ends_in :: "(string \<Rightarrow> string + jvalue) \<Rightarrow> 'a wire_type \<Rightarrow> string \<Rightarrow> bool" where
  "ends_in parse ty txt \<longleftrightarrow>
     (\<exists>ls line post. txt = lines_text ls @ line @ nl # post \<and> list_all (\<lambda>l. nl \<notin> set l) (line # ls) \<and> parse_line parse ty line = LEnd)"

lemma parse_line_kinds:
  "parse_line parse ty line = LItem x \<Longrightarrow> action_is_ok x"
  "parse_line parse ty line = LLast x \<Longrightarrow> \<not> action_is_ok x"
  by (auto simp: parse_line_def split: if_splits option.splits wire_frame.splits sum.splits)

lemma ends_in_line: "nl \<notin> set l \<Longrightarrow> ends_in parse ty txt \<Longrightarrow> ends_in parse ty (l @ nl # txt)"
  unfolding ends_in_def
proof (elim exE conjE)
  fix ls line post
  assume "nl \<notin> set l" "txt = lines_text ls @ line @ nl # post" "list_all (\<lambda>l. nl \<notin> set l) (line # ls)" "parse_line parse ty line = LEnd"
  then show "\<exists>ls line post. l @ nl # txt = lines_text ls @ line @ nl # post \<and> list_all (\<lambda>l. nl \<notin> set l) (line # ls) \<and>
      parse_line parse ty line = LEnd"
    by (intro exI [of _ "l # ls"] exI [of _ line] exI [of _ post]) (simp add: lines_text_def)
qed

lemma ends_in_here: "nl \<notin> set l \<Longrightarrow> parse_line parse ty l = LEnd \<Longrightarrow> ends_in parse ty (l @ nl # txt)"
  unfolding ends_in_def by (rule exI [of _ "[]"]) (auto simp: lines_text_def)

definition drained :: "(string \<Rightarrow> string + jvalue) \<Rightarrow> 'a wire_type \<Rightarrow> string \<Rightarrow> 'a action_result list \<times> string \<times> bool \<Rightarrow> bool" where
  "drained parse ty txt d \<longleftrightarrow>
     (case d of (ys, rest, over) \<Rightarrow>
        list_all action_is_ok (butlast ys) \<and>
        (if over then list_all action_is_ok ys \<longrightarrow> (\<forall>more. ends_in parse ty (txt @ more))
         else list_all action_is_ok ys \<and> (\<forall>more. ends_in parse ty (rest @ more) \<longrightarrow> ends_in parse ty (txt @ more))))"

lemma drain_drained: "drained parse ty a (drain_lines parse ty a)"
proof (induction "length a" arbitrary: a rule: less_induct)
  case less
  show ?case
  proof (cases a rule: buffer_cases)
    case rest
    then show ?thesis by (simp add: drain_none drained_def)
  next
    case (line l r)
    obtain ys q over where d: "drain_lines parse ty r = (ys, q, over)" by (cases "drain_lines parse ty r")
    have IH: "drained parse ty r (ys, q, over)" using less [of r] line d by simp
    have lift: "ends_in parse ty (r @ more) \<Longrightarrow> ends_in parse ty (l @ nl # r @ more)" for more
      by (rule ends_in_line [OF line(2)])
    show ?thesis
    proof (cases "parse_line parse ty l")
      case (LItem x)
      then have "action_is_ok x" by (rule parse_line_kinds)
      with LItem IH lift show ?thesis unfolding line drain_line [OF line(2)] d
        by (auto simp: drained_def split: if_splits)
    next
      case (LLast x)
      then have "\<not> action_is_ok x" by (rule parse_line_kinds)
      with LLast show ?thesis unfolding line drain_line [OF line(2)] by (simp add: drained_def)
    next
      case LEnd
      then show ?thesis unfolding line drain_line [OF line(2)]
        using ends_in_here [OF line(2) LEnd] by (simp add: drained_def)
    next
      case LSkip
      with IH lift show ?thesis unfolding line drain_line [OF line(2)] d
        by (auto simp: drained_def split: if_splits)
    qed
  qed
qed

lemma items_truthful:
  "list_all action_is_ok (butlast (client_items parse ty buf cs)) \<and>
   (list_all action_is_ok (client_items parse ty buf cs) \<longrightarrow> ends_in parse ty (buf @ concat (map chunk_bytes cs) @ [nl]))"
proof (induction cs arbitrary: buf)
  case Nil
  show ?case using drain_drained [of parse ty "buf @ [nl]"]
    by (auto simp: drained_def Let_def split: prod.splits if_splits dest: spec [of _ "[]"])
next
  case (Cons c cs)
  show ?case
  proof (cases c)
    case (Chunk bs)
    obtain ys r over where d: "drain_lines parse ty (buf @ bs) = (ys, r, over)" by (cases "drain_lines parse ty (buf @ bs)")
    from drain_drained [of parse ty "buf @ bs"] have "drained parse ty (buf @ bs) (ys, r, over)" unfolding d .
    with Cons.IH [of r] d show ?thesis
      by (cases over) (auto simp: Chunk drained_def Let_def butlast_append)
  qed simp
qed

text \<open>C40: A stream that is cut off never looks complete. Whatever the body, however it arrives and whatever breaks, only the
  last thing a client yields can be an error; and if it yields no error at all, then the body had a line with the
  end marker.
\<close>

theorem client_stream_truthful:
  "list_all action_is_ok (butlast (client_items parse ty [] cs)) \<and>
   (list_all action_is_ok (client_items parse ty [] cs) \<longrightarrow> ends_in parse ty (concat (map chunk_bytes cs) @ [nl]))"
  using items_truthful [of parse ty "[]" cs] by simp

text \<open>A parser that knows two lines.\<close>

definition two_lines :: "string \<Rightarrow> string + jvalue" where
  "two_lines s =
     (if s = ''t'' then Inr (frame_value (FrameNext 0 ''count'' (JBool True)))
      else if s = ''e'' then Inr (frame_value (FrameEnd 0 ''count''))
      else Inl ''expected value'')"

lemma two_lines_carry: "carries_frame two_lines ''t'' (FrameNext 0 ''count'' (JBool True))" "carries_frame two_lines ''e'' (FrameEnd 0 ''count'')"
  by (simp_all add: carries_frame_def two_lines_def del: frame_value.simps)


theorem client_stream_truthful_witness:
  "list_all action_is_ok (client_items two_lines any_value [] [Chunk ''e'']) \<and> ends_in two_lines any_value [CHR ''e'', nl]"
proof -
  have "drain_lines two_lines any_value [CHR ''e'', nl] = ([], [], True)"
    using drain_line [of "''e''" two_lines any_value "[]"] carried_end [OF two_lines_carry(2), of any_value] by simp
  then have "list_all action_is_ok (client_items two_lines any_value [] [Chunk ''e''])"
    by (simp add: drain_none CLIENT_MAX_FRAME_BYTES_def Let_def)
  with client_stream_truthful [of two_lines any_value "[Chunk ''e'']"] show ?thesis by simp
qed

end
