(* ===== verification/Spec2Isabelle.thy ===== *)
theory Spec2Isabelle
  imports HubProps MigrationProps PgProps SessionProps RouterBuilder SqlProps InsertProps Composite DatabaseProps
    AgentRunProps ClaudeReplay OpenAiProps Nanoid ClaudeRequestProps OpenAiRequestProps ValidationProps
    ToolsProps Llm ClientStreamProps
begin

text \<open>
  \<^bold>\<open>stakit\<close> is a collection of Rust crates for web backends: a router with typed actions, duplex sessions and
  publish/subscribe (\<^verbatim>\<open>crates/router\<close>, with the Postgres bus \<^verbatim>\<open>crates/pubsub-postgres\<close>), an ORM with a migration
  tool (\<^verbatim>\<open>crates/orm\<close>, \<^verbatim>\<open>crates/orm-cli\<close>), an SDK for language-model agents (\<^verbatim>\<open>crates/ai-sdk\<close>), validated data models
  (\<^verbatim>\<open>crates/model\<close>, \<^verbatim>\<open>crates/model-derive\<close>) and a client (\<^verbatim>\<open>crates/client\<close>). This development
  models their core logic and proves what makes it correct. Source paths below are relative to \<^verbatim>\<open>src/crates\<close>.

  \<^bold>\<open>The router.\<close> A client opens a session; every frame it sends is a call, a stream, a subscribe, an authentication
  or a reply. Calls go through middleware guards to actions; subscribes go to the hub, which keeps the index from topics
  to connections and fans published frames out to the sessions' queues; a broker carries frames between nodes.
  \<^item> \<^verbatim>\<open>RouterError\<close>, \<^verbatim>\<open>Reply\<close>: \<^verbatim>\<open>router/src/error.rs\<close>, \<^verbatim>\<open>reply.rs\<close>. Errors as values, replies and stream frames.
  \<^item> \<^verbatim>\<open>Actions\<close>, \<^verbatim>\<open>Router\<close>, \<^verbatim>\<open>RouterBuilder\<close>: \<^verbatim>\<open>action.rs\<close>, \<^verbatim>\<open>middleware.rs\<close>, \<^verbatim>\<open>router.rs\<close>. Registries, the builder
    and its panics, unary and streaming calls. A response mirrors its payload, the borrowed entry point agrees with the
    owned one, and a stream closes exactly once.
  \<^item> \<^verbatim>\<open>Channel\<close>, \<^verbatim>\<open>Frames\<close>, \<^verbatim>\<open>SessionConfig\<close>: \<^verbatim>\<open>pubsub/channel.rs\<close>, \<^verbatim>\<open>pubsub/hub/frames.rs\<close>, \<^verbatim>\<open>session/config.rs\<close>. The
    encoding of channel keys as topics (injective), the text of frames, limits.
  \<^item> \<^verbatim>\<open>Broker\<close>: \<^verbatim>\<open>pubsub/broker.rs\<close>. The locale \<^verbatim>\<open>interest_broker\<close> is the contract of the seam; it is interpreted on
    the in-process bus.
  \<^item> \<^verbatim>\<open>Hub\<close>: \<^verbatim>\<open>pubsub/hub.rs\<close>, \<^verbatim>\<open>pubsub/hub/state.rs\<close>, every operation. \<^verbatim>\<open>HubIndex\<close>, \<^verbatim>\<open>HubInv\<close>, \<^verbatim>\<open>HubOps\<close>,
    \<^verbatim>\<open>HubAuth\<close> and \<^verbatim>\<open>HubReset\<close> prove the invariant (index and connections agree, bookkeeping exact); \<^verbatim>\<open>HubReach\<close> makes
    the lock-protected blocks the steps of an \<^verbatim>\<open>inductive\<close> relation, so that the blocks of several callers interleave
    freely; \<^verbatim>\<open>HubProps\<close> holds the properties, over all reachable states.
  \<^item> \<^verbatim>\<open>ClientCalls\<close>, \<^verbatim>\<open>Session\<close>, \<^verbatim>\<open>SessionProps\<close>: \<^verbatim>\<open>client.rs\<close>, \<^verbatim>\<open>session.rs\<close>, \<^verbatim>\<open>session/inbound.rs\<close>,
    \<^verbatim>\<open>session/lifecycle.rs\<close>. Calls to the client, the frame dispatcher, authentication, tasks, the idle timer and the
    close. Nothing runs before authentication, one authentication runs at a time, a close is final.
  \<^item> \<^verbatim>\<open>Wire\<close>, \<^verbatim>\<open>WireExample\<close>, \<^verbatim>\<open>PgBroker\<close>, \<^verbatim>\<open>PgProps\<close>: \<^verbatim>\<open>pubsub-postgres/src/wire.rs\<close>, \<^verbatim>\<open>lib.rs\<close>. Signed envelopes and
    the reconnecting listener: sealing then opening gives the message back, nothing is accepted twice, publishes of a
    node arrive in order, and reconnecting backs off.

  \<^bold>\<open>The client.\<close> It calls actions over HTTP, one by one or in batches, reads streams of JSON lines, and holds duplex
  connections.
  \<^item> \<^verbatim>\<open>Client\<close>, \<^verbatim>\<open>ClientStream\<close>, \<^verbatim>\<open>ClientSocket\<close>: \<^verbatim>\<open>client/src/client.rs\<close>, \<^verbatim>\<open>options.rs\<close>, \<^verbatim>\<open>result.rs\<close>, \<^verbatim>\<open>error.rs\<close>,
    \<^verbatim>\<open>stream.rs\<close>, \<^verbatim>\<open>ws.rs\<close>.
  \<^item> \<^verbatim>\<open>ClientProps\<close>, \<^verbatim>\<open>ClientStreamProps\<close>: client and router together. A batch comes back as the router's replies to its
    calls; the frames of a duplex call are read back as its results; a stream yields exactly the items of the action,
    however its body is cut, and one that breaks off never looks complete.

  \<^bold>\<open>Models.\<close> A type that derives \<^verbatim>\<open>Model\<close> is validated by the rules of its fields.
  \<^item> \<^verbatim>\<open>Validation\<close>, \<^verbatim>\<open>ValidationProps\<close>: \<^verbatim>\<open>model/src/validate/\<close>, \<^verbatim>\<open>model-derive/src/emit_validate.rs\<close>, \<^verbatim>\<open>ir.rs\<close>. A value
    is a tree whose models carry their fields' rules. \<^verbatim>\<open>fails_at\<close>, an \<^verbatim>\<open>inductive\<close> relation, is the specification: what
    validation reports is exactly the failing rules, each with the path to it. The e-mail rule is a grammar.

  \<^bold>\<open>The ORM.\<close> Typed builders hold a statement as data; the writer renders it to SQL text with placeholders and a list
  of binds; an executor runs it on a pool or a transaction.
  \<^item> \<^verbatim>\<open>SqlWriter\<close>, \<^verbatim>\<open>Predicates\<close>, \<^verbatim>\<open>Statements\<close>, \<^verbatim>\<open>Inserts\<close>: \<^verbatim>\<open>orm/src/value.rs\<close>, \<^verbatim>\<open>ident.rs\<close>, \<^verbatim>\<open>dialect/\<close>, \<^verbatim>\<open>sql.rs\<close>,
    \<^verbatim>\<open>expr.rs\<close>, \<^verbatim>\<open>projection.rs\<close>, \<^verbatim>\<open>vector.rs\<close>, \<^verbatim>\<open>query.rs\<close>, \<^verbatim>\<open>mutation.rs\<close>, \<^verbatim>\<open>insert.rs\<close>. The typed builders become
    datatypes with one constructor per builder; rendering is a function from writers to writers.
  \<^item> \<^verbatim>\<open>WriterContract\<close>, \<^verbatim>\<open>SqlBlank\<close>, \<^verbatim>\<open>SqlProps\<close>, \<^verbatim>\<open>InsertProps\<close>: the locale \<^verbatim>\<open>writer_contract\<close> carries a property of the
    primitive writer actions to every statement. It is interpreted four times: placeholders are numbered like the binds,
    Postgres never marks a statement as unsupported, failures are kept, and a guarded upsert is refused by MySQL.
    Rendering commutes with blanking every value, so values cannot reach the text.
  \<^item> \<^verbatim>\<open>Composite\<close>, \<^verbatim>\<open>Nanoid\<close>: \<^verbatim>\<open>orm/src/composite.rs\<close>, \<^verbatim>\<open>nanoid.rs\<close>. The composite codec round trips; identifiers are uniform,
    but with symbols of several bytes the generator need not end.
  \<^item> \<^verbatim>\<open>Database\<close>, \<^verbatim>\<open>DatabaseProps\<close>: \<^verbatim>\<open>exec.rs\<close>, \<^verbatim>\<open>raw.rs\<close>, \<^verbatim>\<open>db.rs\<close>, \<^verbatim>\<open>driver.rs\<close>. Transactions, migrations and relation
    loaders over a driver whose behaviour is an argument.
  \<^item> \<^verbatim>\<open>SchemaModel\<close>, \<^verbatim>\<open>SchemaDiff\<close>, \<^verbatim>\<open>SchemaSql\<close>: \<^verbatim>\<open>orm-cli/src/model.rs\<close>, \<^verbatim>\<open>diff.rs\<close>. \<^verbatim>\<open>Catalog\<close> is the abstract
    specification, what a change does to a database catalog; \<^verbatim>\<open>Migration\<close> and \<^verbatim>\<open>MigrationProps\<close> show that the diff
    refines it: it migrates, can be undone, and orders tables by their references.

  \<^bold>\<open>The agent SDK.\<close> A provider adapter turns a response body into stream events; the agent accumulates the events of a
  step, checks them, asks its middleware for approval, runs tools and loops.
  \<^item> \<^verbatim>\<open>AgentTypes\<close>, \<^verbatim>\<open>AgentAccum\<close>, \<^verbatim>\<open>Agent\<close>, \<^verbatim>\<open>AgentLoop\<close>: \<^verbatim>\<open>ai-sdk/src/message.rs\<close>, \<^verbatim>\<open>usage.rs\<close>, \<^verbatim>\<open>error.rs\<close>, \<^verbatim>\<open>retry.rs\<close>,
    \<^verbatim>\<open>cache.rs\<close>, \<^verbatim>\<open>provider.rs\<close>, \<^verbatim>\<open>provider/capabilities.rs\<close>, \<^verbatim>\<open>control.rs\<close>, \<^verbatim>\<open>loop_event.rs\<close>, \<^verbatim>\<open>agent.rs\<close>, \<^verbatim>\<open>agent_cx.rs\<close>,
    \<^verbatim>\<open>middleware.rs\<close>, \<^verbatim>\<open>skill.rs\<close>. The local variables of the generator \<^verbatim>\<open>run_inner\<close> are a record, its yielded events a list.
  \<^item> \<^verbatim>\<open>AgentProps\<close>, \<^verbatim>\<open>AgentRunProps\<close>, \<^verbatim>\<open>AgentExample\<close>: the locale \<^verbatim>\<open>run_invariant\<close> carries an invariant of the parts of an
    iteration through the loop. A run ends after at most sixteen steps with one \<^verbatim>\<open>Done\<close> event, leaves no tool use without
    a result and runs no tool without approval; a run that is dropped loses the middleware.
  \<^item> \<^verbatim>\<open>SseFrames\<close>, \<^verbatim>\<open>ProviderWire\<close>, \<^verbatim>\<open>ClaudeStream\<close>, \<^verbatim>\<open>OpenAiStream\<close>: \<^verbatim>\<open>provider/sse.rs\<close>, \<^verbatim>\<open>provider/http.rs\<close>,
    \<^verbatim>\<open>provider/claude/\<close>, \<^verbatim>\<open>provider/openai/\<close>. The locale \<^verbatim>\<open>line_decoder\<close> shows that a decoder fed line by line does not see
    how the body was cut; it is interpreted on both decoders. \<^verbatim>\<open>ClaudeProps\<close>, \<^verbatim>\<open>ClaudeReplay\<close>, \<^verbatim>\<open>OpenAiProps\<close> and
    \<^verbatim>\<open>JsonExample\<close> hold the properties: bounds of what a decoder keeps, complete blocks that always match the tool calls,
    calls released only at the end, and usage buckets that add up.

  \<^item> \<^verbatim>\<open>ProviderHttp\<close>, \<^verbatim>\<open>ClaudeRequest\<close>, \<^verbatim>\<open>OpenAiRequest\<close>: \<^verbatim>\<open>provider/http.rs\<close>, \<^verbatim>\<open>provider/claude.rs\<close>,
    \<^verbatim>\<open>provider/claude/models.rs\<close>, \<^verbatim>\<open>provider/openai.rs\<close>, \<^verbatim>\<open>provider/openai/\<close>: connection settings, request bodies, responses
    that are not streamed. \<^verbatim>\<open>ClaudeRequestProps\<close> and \<^verbatim>\<open>OpenAiRequestProps\<close> show that a Claude request has at most four
    cache breakpoints and well-typed messages, that turns round trip, and that every tool call of an OpenAI request is
    answered by the messages right after it.
  \<^item> \<^verbatim>\<open>Tools\<close>, \<^verbatim>\<open>ToolsProps\<close>, \<^verbatim>\<open>Llm\<close>: \<^verbatim>\<open>tool.rs\<close>, \<^verbatim>\<open>tool/no_args.rs\<close>, \<^verbatim>\<open>cancel.rs\<close>, \<^verbatim>\<open>llm.rs\<close>, \<^verbatim>\<open>llm/extraction.rs\<close>. The
    registry keeps offered and deferred tools apart; the waiters and cancellers of a token interleave as the steps of an
    \<^verbatim>\<open>inductive\<close> relation, and no wake-up is lost; a structured extraction accounts for its one provider call.

  \<^bold>\<open>Conventions.\<close> A \<^verbatim>\<open>str\<close> is its UTF-8 bytes, a char list. A hash map is an association list with distinct keys
  (\<^verbatim>\<open>Prelude\<close>). Sixty-four-bit counters are words where the code can wrap or saturate. \<^verbatim>\<open>Result\<close> is a sum with the error
  on the left. A stored closure (an action, a guard, a middleware, a tool) is a function argument or a record field; the
  part of the world it can change is a type variable that is threaded through.

  \<^bold>\<open>Parameters.\<close> Code outside the repository is an argument: the JSON printer and parser (\<^verbatim>\<open>json_lib\<close>, \<^verbatim>\<open>wire_lib\<close>, with the
  round trip as a hypothesis where a theorem needs it, \<^verbatim>\<open>lib_ok\<close> for the bus, and met by the printers of
  \<^verbatim>\<open>WireExample\<close> and \<^verbatim>\<open>JsonExample\<close>), the message authentication code, the clock, the random bytes, the outgoing queues, the database server
  and the driver, floating-point arithmetic, the model provider, the HTTP client and the socket, the notifier of the async runtime,
  base64, the lossy decoding of text, the lower-case and letter tables of Unicode, and compiled patterns.

  \<^bold>\<open>Bounds and fuel.\<close> The agent's loop is a \<^verbatim>\<open>function\<close> whose measure is the number of steps left of sixteen, so it is
  total. A subscribe is tried three times, as in the code. The retry loop recurs on the attempts left. The identifier
  generator takes fuel for its rounds of random bytes: enough is shown to exist when enough bytes are accepted, and no
  amount suffices in the failing case. All other recursion is structural.

  \<^bold>\<open>Not modelled.\<close> Sockets, TLS, handshakes and object storage; the procedural macros, which run in the compiler, but for
  the code that they emit to validate models and to bind rows; the TypeScript client, the generated type declarations and
  JSON schemas; the client of tool servers, over the types of a third-party package; the parser of Rust sources in \<^verbatim>\<open>orm-cli/src/parse.rs\<close>, which
  works on the syntax trees of a third-party package; the drivers of the databases; the arithmetic and the text form of geometries. Concurrency is modelled where the code's locks make it matter, as the interleaving of
  lock-protected blocks; a batch of concurrent tool calls is one call of the environment.
\<close>

end
